(* ===== verification/Metric_Prelude.thy ===== *)
theory Metric_Prelude
  imports Main "HOL-Library.Word"
begin

section \<open>Prelude: results, early returns and loops with an error\<close>

text \<open>
  The vocabulary every component shares. A Go function that returns \<open>(T, error)\<close> is a function
  into \<open>'a result\<close>: \<open>Inl e\<close> is the error return, \<open>Inr x\<close> the value with a nil error. An
  error is its message (the constant part of it), possibly wrapped by
  \<open>fmt.Errorf("...: %w", err)\<close>. \<open>reject\<close> is an early return \<open>if cond { return err }\<close>,
  \<open>andthen\<close> is \<open>x, err := f(); if err != nil { return err }\<close>, \<open>traverse\<close> a loop over a
  slice that returns at the first error and appends otherwise, \<open>fresh_ids\<close> a loop that keeps a
  set of the keys seen so far. The collection \<open>result_simps\<close> turns "this call returned a
  value" into the conjunction of the checks it passed; every component proof rests on it.
\<close>

datatype go_error = Err string | Wrapped string go_error

type_synonym 'a result = "go_error + 'a"

named_theorems result_simps

fun errors_is :: "go_error \<Rightarrow> go_error \<Rightarrow> bool" where
  "errors_is (Err m) target = (Err m = target)"
| "errors_is (Wrapped m e) target = (Wrapped m e = target \<or> errors_is e target)"

definition reject :: "bool \<Rightarrow> go_error \<Rightarrow> 'a result \<Rightarrow> 'a result" where
  "reject c e k = (if c then Inl e else k)"

definition andthen :: "'a result \<Rightarrow> ('a \<Rightarrow> 'b result) \<Rightarrow> 'b result" where
  "andthen r k = (case r of Inl e \<Rightarrow> Inl e | Inr x \<Rightarrow> k x)"

definition wrap :: "string \<Rightarrow> 'a result \<Rightarrow> 'a result" where
  "wrap m r = (case r of Inl e \<Rightarrow> Inl (Wrapped m e) | Inr x \<Rightarrow> Inr x)"

definition from_option :: "go_error \<Rightarrow> 'a option \<Rightarrow> 'a result" where
  "from_option e v = (case v of None \<Rightarrow> Inl e | Some x \<Rightarrow> Inr x)"

definition returned :: "'a result \<Rightarrow> bool" where
  "returned r = (case r of Inl _ \<Rightarrow> False | Inr _ \<Rightarrow> True)"

fun traverse :: "('a \<Rightarrow> 'b result) \<Rightarrow> 'a list \<Rightarrow> 'b list result" where
  "traverse f [] = Inr []"
| "traverse f (x # xs) =
     andthen (f x) (\<lambda>y. andthen (traverse f xs) (\<lambda>ys. Inr (y # ys)))"

fun fresh_ids :: "go_error \<Rightarrow> 'k set \<Rightarrow> 'k list \<Rightarrow> 'k set result" where
  "fresh_ids e seen [] = Inr seen"
| "fresh_ids e seen (k # ks) = (if k \<in> seen then Inl e else fresh_ids e (insert k seen) ks)"

subsection \<open>When a call returned a value\<close>

lemma reject_Inr [result_simps]: "reject c e k = Inr x \<longleftrightarrow> \<not> c \<and> k = Inr x"
  by (simp add: reject_def)

lemma reject_Inl [result_simps]: "reject c e k = Inl e' \<longleftrightarrow> (c \<and> e = e') \<or> (\<not> c \<and> k = Inl e')"
  by (auto simp: reject_def)

lemma andthen_Inr [result_simps]: "andthen r k = Inr y \<longleftrightarrow> (\<exists>x. r = Inr x \<and> k x = Inr y)"
  by (auto simp: andthen_def split: sum.splits)

lemma wrap_Inr [result_simps]: "wrap m r = Inr x \<longleftrightarrow> r = Inr x"
  by (auto simp: wrap_def split: sum.splits)

lemma from_option_Inr [result_simps]: "from_option e v = Inr x \<longleftrightarrow> v = Some x"
  by (auto simp: from_option_def split: option.splits)

lemma case_result_Inr [result_simps]:
  "(case r of Inl e \<Rightarrow> Inl (f e) | Inr x \<Rightarrow> k x) = Inr y \<longleftrightarrow> (\<exists>x. r = Inr x \<and> k x = Inr y)"
  by (auto split: sum.splits)

lemma returned_iff [result_simps]: "returned r \<longleftrightarrow> (\<exists>x. r = Inr x)"
  by (auto simp: returned_def split: sum.splits)

lemma andthen_simps [simp]:
  "andthen (Inr x) k = k x" "andthen (Inl e) k = Inl e"
  by (simp_all add: andthen_def)

lemma reject_simps [simp]:
  "reject True e k = Inl e" "reject False e k = k"
  by (simp_all add: reject_def)

lemma wrap_simps [simp]:
  "wrap m (Inr x) = Inr x" "wrap m (Inl e) = Inl (Wrapped m e)"
  by (simp_all add: wrap_def)

lemma from_option_simps [simp]:
  "from_option e (Some x) = Inr x" "from_option e None = Inl e"
  by (simp_all add: from_option_def)

lemma returned_simps [simp]: "returned (Inr x)" "\<not> returned (Inl e)"
  by (simp_all add: returned_def)

lemma not_returned_iff: "\<not> returned r \<longleftrightarrow> (\<exists>e. r = Inl e)"
  by (cases r) (auto simp: returned_def)

subsection \<open>Loops\<close>

lemma traverse_Inr [result_simps]:
  "traverse f xs = Inr ys \<longleftrightarrow> list_all2 (\<lambda>x y. f x = Inr y) xs ys"
  by (induction xs arbitrary: ys) (auto simp: result_simps list_all2_Cons1)

lemma traverse_length: "traverse f xs = Inr ys \<Longrightarrow> length ys = length xs"
  by (auto simp: result_simps dest: list_all2_lengthD)

lemma traverse_setD:
  assumes "traverse f xs = Inr ys" and "y \<in> set ys"
  obtains x where "x \<in> set xs" "f x = Inr y"
proof -
  from assms have "list_all2 (\<lambda>x y. f x = Inr y) xs ys" by (simp add: result_simps)
  with assms(2) obtain i where "i < length xs" "f (xs ! i) = Inr (ys ! i)" "y = ys ! i"
    by (auto simp: in_set_conv_nth list_all2_conv_all_nth)
  then show thesis using that [of "xs ! i"] by simp
qed

lemma traverse_map:
  assumes "traverse f xs = Inr ys" and "\<And>x y. f x = Inr y \<Longrightarrow> g y = x"
  shows "map g ys = xs"
proof -
  from assms(1) have "list_all2 (\<lambda>x y. f x = Inr y) xs ys" by (simp add: result_simps)
  then show ?thesis
    by (induction rule: list_all2_induct) (auto simp: assms(2))
qed

lemma traverse_total:
  "(\<And>x. x \<in> set xs \<Longrightarrow> f x = Inr (g x)) \<Longrightarrow> traverse f xs = Inr (map g xs)"
  by (induction xs) auto

lemma fresh_ids_Inr [result_simps]:
  "fresh_ids e seen ks = Inr s \<longleftrightarrow> distinct ks \<and> set ks \<inter> seen = {} \<and> s = seen \<union> set ks"
  by (induction ks arbitrary: seen) auto

lemma list_all_upt: "list_all P [0..<n] \<Longrightarrow> d < n \<Longrightarrow> P d"
  by (simp add: list_all_iff)

lemma mixed_radix:
  fixes a b m :: nat
  assumes "b < m"
  shows "(a * m + b) div m = a" "(a * m + b) mod m = b"
  using assms by auto

subsection \<open>Optional values\<close>

definition opt_all :: "('a \<Rightarrow> bool) \<Rightarrow> 'a option \<Rightarrow> bool" where
  "opt_all P v = (case v of None \<Rightarrow> True | Some x \<Rightarrow> P x)"

lemma opt_all_simps [simp]: "opt_all P None" "opt_all P (Some x) = P x"
  by (simp_all add: opt_all_def)

lemma opt_all_iff: "opt_all P v \<longleftrightarrow> (\<forall>x. v = Some x \<longrightarrow> P x)"
  by (cases v) auto

end
