(* ===== verification/Go_Strings.thy ===== *)
theory Go_Strings
  imports Metric_Prelude
begin

section \<open>Strings, integers and binary-to-text codecs of the Go standard library\<close>

text \<open>
  A Go string or byte slice is a \<open>string\<close>, one \<open>char\<close> per byte. Modelled here is what the
  program uses of packages strings, bytes, strconv, encoding/hex and encoding/base64:
  \<open>split_on\<close>/\<open>join\<close> (strings.Split and strings.Join), \<open>has_prefix\<close>, \<open>trim_space\<close> (white
  space of unicode.IsSpace, as its UTF-8 byte sequences), \<open>parse_int64\<close>/\<open>format_int\<close>
  (strconv.ParseInt base 10 and FormatInt), \<open>hex_encode\<close>/\<open>hex_decode\<close> and the unpadded URL
  alphabet of base64. The lemmas are the round trips that the token formats rest on.
\<close>

subsection \<open>Splitting and joining\<close>

fun split_on :: "char \<Rightarrow> string \<Rightarrow> string list" where
  "split_on c [] = [[]]"
| "split_on c (x # xs) =
     (if x = c then [] # split_on c xs
      else (case split_on c xs of [] \<Rightarrow> [[x]] | p # ps \<Rightarrow> (x # p) # ps))"

fun join :: "string \<Rightarrow> string list \<Rightarrow> string" where
  "join sep [] = []"
| "join sep (p # ps) = (if ps = [] then p else p @ sep @ join sep ps)"

lemma split_on_not_Nil [simp]: "split_on c s \<noteq> []"
  by (cases s) (auto split: list.splits)

lemma split_on_piece: "c \<notin> set p \<Longrightarrow> split_on c p = [p]"
  by (induction p) auto

lemma split_on_append: "c \<notin> set p \<Longrightarrow> split_on c (p @ c # s) = p # split_on c s"
  by (induction p) auto

lemma split_on_join:
  "ps \<noteq> [] \<Longrightarrow> \<forall>p \<in> set ps. c \<notin> set p \<Longrightarrow> split_on c (join [c] ps) = ps"
  by (induction ps) (auto simp: split_on_append split_on_piece)

lemma split_on_pieces: "p \<in> set (split_on c s) \<Longrightarrow> c \<notin> set p"
  by (induction s arbitrary: p) (auto split: if_splits list.splits)

lemma join_Cons_hd: "join sep ((x # p) # ps) = x # join sep (p # ps)"
  by simp

lemma join_split_on: "join [c] (split_on c s) = s"
proof (induction s)
  case (Cons x xs)
  obtain p ps where pieces: "split_on c xs = p # ps"
    using split_on_not_Nil by (meson list.exhaust)
  with Cons.IH have "join [c] (p # ps) = xs" by simp
  then show ?case
    using pieces by (cases "x = c") (simp_all only: split_on.simps if_True if_False list.case join_Cons_hd, simp)
qed simp

lemma join_inj:
  assumes "join [c] ps = join [c] qs" "ps \<noteq> []" "qs \<noteq> []"
    and "\<forall>p \<in> set ps. c \<notin> set p" "\<forall>q \<in> set qs. c \<notin> set q"
  shows "ps = qs"
proof -
  have "ps = split_on c (join [c] ps)" using assms(2,4) by (rule split_on_join [symmetric])
  also have "\<dots> = split_on c (join [c] qs)" by (rule arg_cong [OF assms(1)])
  also have "\<dots> = qs" using assms(3,5) by (rule split_on_join)
  finally show ?thesis .
qed

lemma join_snoc: "ps \<noteq> [] \<Longrightarrow> join sep (ps @ [p]) = join sep ps @ sep @ p"
  by (induction ps) auto

definition has_prefix :: "string \<Rightarrow> string \<Rightarrow> bool" where
  "has_prefix s p = (take (length p) s = p)"

definition trim_prefix :: "string \<Rightarrow> string \<Rightarrow> string" where
  "trim_prefix s p = (if has_prefix s p then drop (length p) s else s)"

definition contains_any :: "string \<Rightarrow> string \<Rightarrow> bool" where
  "contains_any s cs = list_ex (\<lambda>c. List.member cs c) s"

lemma has_prefix_append [simp]: "has_prefix (p @ s) p"
  by (simp add: has_prefix_def)

lemma trim_prefix_append [simp]: "trim_prefix (p @ s) p = s"
  by (simp add: trim_prefix_def)

definition ascii_upper :: "char \<Rightarrow> char" where
  "ascii_upper c = (let n = of_char c :: nat in if 97 \<le> n \<and> n \<le> 122 then char_of (n - 32) else c)"

definition ascii_lower :: "char \<Rightarrow> char" where
  "ascii_lower c = (let n = of_char c :: nat in if 65 \<le> n \<and> n \<le> 90 then char_of (n + 32) else c)"

definition to_upper :: "string \<Rightarrow> string" where
  "to_upper s = map ascii_upper s"

definition to_lower :: "string \<Rightarrow> string" where
  "to_lower s = map ascii_lower s"

subsection \<open>White space\<close>

text \<open>
  The runes of unicode.IsSpace as UTF-8: the six ASCII ones, U+0085, U+00A0, U+1680,
  U+2000 to U+200A, U+2028, U+2029, U+202F, U+205F and U+3000.
\<close>

definition space_runes :: "string list" where
  "space_runes =
     [[CHR 0x20], [CHR 0x09], [CHR 0x0A], [CHR 0x0B], [CHR 0x0C], [CHR 0x0D],
      [CHR 0xC2, CHR 0x85], [CHR 0xC2, CHR 0xA0], [CHR 0xE1, CHR 0x9A, CHR 0x80],
      [CHR 0xE2, CHR 0x80, CHR 0x80], [CHR 0xE2, CHR 0x80, CHR 0x81], [CHR 0xE2, CHR 0x80, CHR 0x82],
      [CHR 0xE2, CHR 0x80, CHR 0x83], [CHR 0xE2, CHR 0x80, CHR 0x84], [CHR 0xE2, CHR 0x80, CHR 0x85],
      [CHR 0xE2, CHR 0x80, CHR 0x86], [CHR 0xE2, CHR 0x80, CHR 0x87], [CHR 0xE2, CHR 0x80, CHR 0x88],
      [CHR 0xE2, CHR 0x80, CHR 0x89], [CHR 0xE2, CHR 0x80, CHR 0x8A], [CHR 0xE2, CHR 0x80, CHR 0xA8],
      [CHR 0xE2, CHR 0x80, CHR 0xA9], [CHR 0xE2, CHR 0x80, CHR 0xAF], [CHR 0xE2, CHR 0x81, CHR 0x9F],
      [CHR 0xE3, CHR 0x80, CHR 0x80]]"

lemma has_prefix_shorter: "p \<noteq> [] \<Longrightarrow> has_prefix s p \<Longrightarrow> length s - length p < length s"
  by (cases s) (auto simp: has_prefix_def)

function trim_left :: "string list \<Rightarrow> string \<Rightarrow> string" where
  "trim_left sp s =
     (case find (\<lambda>p. p \<noteq> [] \<and> has_prefix s p) sp of
        None \<Rightarrow> s
      | Some p \<Rightarrow> trim_left sp (drop (length p) s))"
  by pat_completeness auto
termination
  by (relation "measure (\<lambda>(sp, s). length s)") (auto simp: find_Some_iff has_prefix_shorter)

declare trim_left.simps [simp del]

definition trim_space :: "string \<Rightarrow> string" where
  "trim_space s = rev (trim_left (map rev space_runes) (rev (trim_left space_runes s)))"

lemma trim_left_id: "find (\<lambda>p. p \<noteq> [] \<and> has_prefix s p) sp = None \<Longrightarrow> trim_left sp s = s"
  by (simp add: trim_left.simps [of sp s])

lemma trim_left_step:
  "find (\<lambda>p. p \<noteq> [] \<and> has_prefix s p) sp = Some p \<Longrightarrow> trim_left sp s = trim_left sp (drop (length p) s)"
  by (simp add: trim_left.simps [of sp s])

lemma trim_left_stable: "trim_left sp (trim_left sp s) = trim_left sp s"
proof (induction sp s rule: trim_left.induct)
  case (1 sp s)
  then show ?case
    by (cases "find (\<lambda>p. p \<noteq> [] \<and> has_prefix s p) sp")
      (simp_all add: trim_left_id trim_left_step)
qed

lemma trim_left_suffix: "\<exists>p. s = p @ trim_left sp s"
proof (induction sp s rule: trim_left.induct)
  case (1 sp s)
  show ?case
  proof (cases "find (\<lambda>p. p \<noteq> [] \<and> has_prefix s p) sp")
    case None
    then show ?thesis by (simp add: trim_left_id)
  next
    case (Some p)
    from 1 [OF Some] obtain q where "drop (length p) s = q @ trim_left sp (drop (length p) s)" ..
    then have "s = (take (length p) s @ q) @ trim_left sp s"
      by (simp add: trim_left_step [OF Some] flip: append_assoc) (metis append.assoc append_take_drop_id)
    then show ?thesis ..
  qed
qed

subsection \<open>Decimal integers\<close>

definition is_digit :: "char \<Rightarrow> bool" where
  "is_digit c = (let n = of_char c :: nat in 48 \<le> n \<and> n \<le> 57)"

definition digit_val :: "char \<Rightarrow> int" where
  "digit_val c = of_char c - 48"

definition digit_char :: "int \<Rightarrow> char" where
  "digit_char d = char_of (d + 48)"

fun digits_value :: "int \<Rightarrow> string \<Rightarrow> int" where
  "digits_value acc [] = acc"
| "digits_value acc (c # cs) = digits_value (10 * acc + digit_val c) cs"

definition parse_digits :: "string \<Rightarrow> int option" where
  "parse_digits s = (if s \<noteq> [] \<and> list_all is_digit s then Some (digits_value 0 s) else None)"

function format_digits :: "int \<Rightarrow> string" where
  "format_digits n =
     (if n < 10 then [digit_char n] else format_digits (n div 10) @ [digit_char (n mod 10)])"
  by pat_completeness auto
termination
  by (relation "measure nat") auto

declare format_digits.simps [simp del]

definition format_int :: "int \<Rightarrow> string" where
  "format_int i = (if i < 0 then CHR ''-'' # format_digits (- i) else format_digits i)"

definition in_int64 :: "int \<Rightarrow> bool" where
  "in_int64 i \<longleftrightarrow> - (2 ^ 63) \<le> i \<and> i < 2 ^ 63"

text \<open>strconv.ParseInt with base 10 and 64 bits: an optional sign, digits, a range check.\<close>

definition parse_int64 :: "string \<Rightarrow> int option" where
  "parse_int64 s =
     (case s of
        [] \<Rightarrow> None
      | c # cs \<Rightarrow>
          (case parse_digits (if c = CHR ''-'' \<or> c = CHR ''+'' then cs else s) of
             None \<Rightarrow> None
           | Some n \<Rightarrow>
               (let i = (if c = CHR ''-'' then - n else n)
                in if in_int64 i then Some i else None)))"

definition parse_uint :: "nat \<Rightarrow> string \<Rightarrow> int option" where
  "parse_uint bits s =
     (case parse_digits s of None \<Rightarrow> None | Some n \<Rightarrow> if n < 2 ^ bits then Some n else None)"

lemma of_char_digit_char: "0 \<le> d \<Longrightarrow> d < 10 \<Longrightarrow> (of_char (digit_char d) :: int) = d + 48"
  by (simp add: digit_char_def)

lemma nat_of_char_digit_char: "0 \<le> d \<Longrightarrow> d < 10 \<Longrightarrow> (of_char (digit_char d) :: nat) = nat (d + 48)"
  by (metis nat_int of_char_digit_char of_nat_of_char)

lemma is_digit_digit_char [simp]: "0 \<le> d \<Longrightarrow> d < 10 \<Longrightarrow> is_digit (digit_char d)"
  by (simp add: is_digit_def nat_of_char_digit_char Let_def) linarith

lemma digit_val_digit_char [simp]: "0 \<le> d \<Longrightarrow> d < 10 \<Longrightarrow> digit_val (digit_char d) = d"
  by (simp add: digit_val_def of_char_digit_char)

lemma digits_value_append: "digits_value acc (xs @ ys) = digits_value (digits_value acc xs) ys"
  by (induction xs arbitrary: acc) auto

lemma format_digits_digits: "0 \<le> n \<Longrightarrow> list_all is_digit (format_digits n) \<and> format_digits n \<noteq> []"
  by (induction n rule: format_digits.induct) (simp add: format_digits.simps)

lemma digits_value_format_digits: "0 \<le> n \<Longrightarrow> digits_value 0 (format_digits n) = n"
proof (induction n rule: format_digits.induct)
  case (1 n)
  then show ?case
    by (cases "n < 10") (simp_all add: format_digits.simps [of n] digits_value_append)
qed

lemma parse_digits_format_digits [simp]: "0 \<le> n \<Longrightarrow> parse_digits (format_digits n) = Some n"
  using format_digits_digits [of n] by (simp add: parse_digits_def digits_value_format_digits)

lemma format_digits_hd: "0 \<le> n \<Longrightarrow> \<exists>d ds. format_digits n = d # ds \<and> is_digit d"
  using format_digits_digits [of n] by (cases "format_digits n") auto

lemma is_digit_signs [simp]:
  "\<not> is_digit (CHR ''-'')" "\<not> is_digit (CHR ''+'')" "\<not> is_digit (CHR ''.'')" "\<not> is_digit (CHR 0x0A)"
  by (simp_all add: is_digit_def)

lemma parse_int64_format_int [simp]: "in_int64 i \<Longrightarrow> parse_int64 (format_int i) = Some i"
proof (cases "i < 0")
  case True
  moreover assume "in_int64 i"
  ultimately show ?thesis by (simp add: parse_int64_def format_int_def)
next
  case False
  moreover assume "in_int64 i"
  moreover from False obtain d ds where "format_digits i = d # ds" "is_digit d"
    using format_digits_hd [of i] by auto
  moreover from this False have "parse_digits (d # ds) = Some i"
    using parse_digits_format_digits [of i] by simp
  ultimately show ?thesis
    using is_digit_signs by (auto simp: parse_int64_def format_int_def)
qed

lemma parse_int64_chars: "parse_int64 s = Some i \<Longrightarrow> c \<in> set s \<Longrightarrow> is_digit c \<or> c = CHR ''-'' \<or> c = CHR ''+''"
  by (auto simp: parse_int64_def parse_digits_def list_all_iff split: list.splits option.splits if_splits)

lemma parse_int64_range: "parse_int64 s = Some i \<Longrightarrow> in_int64 i"
  by (auto simp: parse_int64_def Let_def split: list.splits option.splits if_splits)

lemma format_int_chars: "c \<in> set (format_int i) \<Longrightarrow> is_digit c \<or> c = CHR ''-''"
  using format_digits_digits [of i] format_digits_digits [of "- i"]
  by (auto simp: format_int_def list_all_iff split: if_splits)

lemma format_int_no_dot [simp]: "CHR ''.'' \<notin> set (format_int i)"
  using format_int_chars [of "CHR ''.''"] by auto

end
