(* ===== verification/Go_Codec.thy ===== *)
theory Go_Codec
  imports Go_Strings
begin

section \<open>Hexadecimal and base64\<close>

text \<open>
  encoding/hex (EncodeToString, DecodeString) and base64.RawURLEncoding (EncodeToString,
  DecodeString) as the program uses them. The base64 decoder skips carriage returns and line
  feeds and does not check the unused low bits of the last character, as Go's non-strict
  decoder.
\<close>

lemma of_char_lt: "(of_char c :: nat) < 256"
  by simp

subsection \<open>Hexadecimal\<close>

definition hex_digit :: "nat \<Rightarrow> char" where
  "hex_digit d = (if d < 10 then char_of (d + 48) else char_of (d + 87))"

definition hex_val :: "char \<Rightarrow> nat option" where
  "hex_val c =
     (let n = of_char c :: nat
      in if 48 \<le> n \<and> n \<le> 57 then Some (n - 48)
         else if 97 \<le> n \<and> n \<le> 102 then Some (n - 87)
         else if 65 \<le> n \<and> n \<le> 70 then Some (n - 55)
         else None)"

definition is_lower_hex :: "char \<Rightarrow> bool" where
  "is_lower_hex c = (let n = of_char c :: nat in (48 \<le> n \<and> n \<le> 57) \<or> (97 \<le> n \<and> n \<le> 102))"

fun hex_encode :: "string \<Rightarrow> string" where
  "hex_encode [] = []"
| "hex_encode (c # cs) =
     hex_digit (of_char c div 16) # hex_digit (of_char c mod 16) # hex_encode cs"

fun hex_decode :: "string \<Rightarrow> string option" where
  "hex_decode [] = Some []"
| "hex_decode [x] = None"
| "hex_decode (x # y # r) =
     (case (hex_val x, hex_val y, hex_decode r) of
        (Some a, Some b, Some s) \<Rightarrow> Some (char_of (16 * a + b) # s)
      | _ \<Rightarrow> None)"

lemma nibble_bound [simp]: "(of_char c :: nat) div 16 < 16"
proof -
  have "(of_char c :: nat) < 256" by simp
  then show ?thesis by linarith
qed

lemma hex_val_hex_digit [simp]: "d < 16 \<Longrightarrow> hex_val (hex_digit d) = Some d"
  by (auto simp: hex_val_def hex_digit_def Let_def)

lemma is_lower_hex_digit [simp]: "d < 16 \<Longrightarrow> is_lower_hex (hex_digit d)"
  by (auto simp: is_lower_hex_def hex_digit_def Let_def)

lemma hex_val_bound: "hex_val c = Some d \<Longrightarrow> d < 16"
  by (auto simp: hex_val_def Let_def split: if_splits)

lemma hex_digit_hex_val: "is_lower_hex c \<Longrightarrow> hex_val c = Some d \<Longrightarrow> hex_digit d = c"
  by (auto simp: is_lower_hex_def hex_val_def hex_digit_def Let_def split: if_splits)

lemma length_hex_encode [simp]: "length (hex_encode s) = 2 * length s"
  by (induction s) auto

lemma hex_encode_lower [simp]: "list_all is_lower_hex (hex_encode s)"
  by (induction s) auto

lemma hex_decode_encode [simp]: "hex_decode (hex_encode s) = Some s"
proof (induction s)
  case (Cons c cs)
  have "16 * (of_char c div 16) + of_char c mod 16 = (of_char c :: nat)" by simp
  then show ?case using Cons by simp
qed simp

lemma hex_decode_even: "hex_decode s = Some t \<Longrightarrow> length s = 2 * length t"
  by (induction s arbitrary: t rule: hex_decode.induct) (auto split: option.splits prod.splits)

lemma hex_encode_decode:
  "hex_decode s = Some t \<Longrightarrow> list_all is_lower_hex s \<Longrightarrow> hex_encode t = s"
proof (induction s arbitrary: t rule: hex_decode.induct)
  case (3 x y r)
  then obtain a b u where *: "hex_val x = Some a" "hex_val y = Some b" "hex_decode r = Some u"
    and t: "t = char_of (16 * a + b) # u"
    by (auto split: option.splits prod.splits)
  have "a < 16" "b < 16" using * hex_val_bound by auto
  then have "(16 * a + b) mod 256 = 16 * a + b" by simp
  then show ?case
    using 3 * \<open>a < 16\<close> \<open>b < 16\<close> by (simp add: t hex_digit_hex_val)
qed auto

lemma hex_decode_total:
  "even (length s) \<Longrightarrow> list_all is_lower_hex s \<Longrightarrow> \<exists>t. hex_decode s = Some t"
proof (induction s rule: hex_decode.induct)
  case (3 x y r)
  have *: "\<exists>d. hex_val c = Some d" if "is_lower_hex c" for c
    using that by (auto simp: is_lower_hex_def hex_val_def Let_def)
  from 3 obtain t where "hex_decode r = Some t" by auto
  with * [of x] * [of y] 3 show ?case by auto
qed auto

lemma is_lower_hex_not_dot [simp]: "\<not> is_lower_hex (CHR ''.'')" "\<not> is_lower_hex (CHR ''-'')"
  by (simp_all add: is_lower_hex_def)

lemma hex_encode_no_dot [simp]: "CHR ''.'' \<notin> set (hex_encode s)"
  using hex_encode_lower [of s] by (auto simp: list_all_iff simp del: hex_encode_lower)

subsection \<open>base64, URL alphabet, no padding\<close>

definition b64_code :: "nat \<Rightarrow> nat" where
  "b64_code d =
     (if d < 26 then d + 65
      else if d < 52 then d + 71
      else if d < 62 then d - 4
      else if d = 62 then 45 else 95)"

definition b64_char :: "nat \<Rightarrow> char" where
  "b64_char d = char_of (b64_code d)"

definition b64_val :: "char \<Rightarrow> nat option" where
  "b64_val c =
     (let n = of_char c :: nat
      in if 65 \<le> n \<and> n \<le> 90 then Some (n - 65)
         else if 97 \<le> n \<and> n \<le> 122 then Some (n - 71)
         else if 48 \<le> n \<and> n \<le> 57 then Some (n + 4)
         else if n = 45 then Some 62
         else if n = 95 then Some 63
         else None)"

fun b64_encode :: "string \<Rightarrow> string" where
  "b64_encode [] = []"
| "b64_encode [a] = (let x = of_char a in [b64_char (x div 4), b64_char (x mod 4 * 16)])"
| "b64_encode [a, b] =
     (let x = of_char a; y = of_char b
      in [b64_char (x div 4), b64_char (x mod 4 * 16 + y div 16), b64_char (y mod 16 * 4)])"
| "b64_encode (a # b # c # r) =
     (let x = of_char a; y = of_char b; z = of_char c
      in [b64_char (x div 4), b64_char (x mod 4 * 16 + y div 16),
          b64_char (y mod 16 * 4 + z div 64), b64_char (z mod 64)] @ b64_encode r)"

fun b64_groups :: "nat list \<Rightarrow> string option" where
  "b64_groups [] = Some []"
| "b64_groups [p] = None"
| "b64_groups [p, q] = Some [char_of (p * 4 + q div 16)]"
| "b64_groups [p, q, r] = Some [char_of (p * 4 + q div 16), char_of (q mod 16 * 16 + r div 4)]"
| "b64_groups (p # q # r # t # ds) =
     map_option (\<lambda>s. char_of (p * 4 + q div 16) # char_of (q mod 16 * 16 + r div 4)
                     # char_of (r mod 4 * 64 + t) # s) (b64_groups ds)"

fun b64_sextets :: "string \<Rightarrow> nat list option" where
  "b64_sextets [] = Some []"
| "b64_sextets (c # cs) =
     (if c = CHR 0x0A \<or> c = CHR 0x0D then b64_sextets cs
      else (case (b64_val c, b64_sextets cs) of
              (Some d, Some ds) \<Rightarrow> Some (d # ds)
            | _ \<Rightarrow> None))"

definition b64_decode :: "string \<Rightarrow> string option" where
  "b64_decode s = (case b64_sextets s of None \<Rightarrow> None | Some ds \<Rightarrow> b64_groups ds)"

lemma b64_code_bound: "d < 64 \<Longrightarrow> b64_code d < 128"
  unfolding b64_code_def by (split if_split)+ linarith

lemma of_char_b64_char: "d < 64 \<Longrightarrow> of_char (b64_char d) = b64_code d"
  using b64_code_bound [of d] by (simp add: b64_char_def)

lemma b64_val_b64_char [simp]: "d < 64 \<Longrightarrow> b64_val (b64_char d) = Some d"
  by (simp add: b64_val_def of_char_b64_char Let_def b64_code_def) linarith

lemma b64_char_plain [simp]:
  assumes "d < 64"
  shows "b64_char d \<noteq> CHR 0x0A" "b64_char d \<noteq> CHR 0x0D" "b64_char d \<noteq> CHR ''.''"
proof -
  have "b64_code d \<notin> {10, 13, 46}" by (simp add: b64_code_def) linarith
  then have "(of_char (b64_char d) :: nat) \<notin> {10, 13, 46}" using assms by (simp add: of_char_b64_char)
  then show "b64_char d \<noteq> CHR 0x0A" "b64_char d \<noteq> CHR 0x0D" "b64_char d \<noteq> CHR ''.''" by auto
qed

fun b64_digits :: "string \<Rightarrow> nat list" where
  "b64_digits [] = []"
| "b64_digits [a] = (let x = of_char a in [x div 4, x mod 4 * 16])"
| "b64_digits [a, b] =
     (let x = of_char a; y = of_char b in [x div 4, x mod 4 * 16 + y div 16, y mod 16 * 4])"
| "b64_digits (a # b # c # r) =
     (let x = of_char a; y = of_char b; z = of_char c
      in [x div 4, x mod 4 * 16 + y div 16, y mod 16 * 4 + z div 64, z mod 64] @ b64_digits r)"

lemma b64_encode_digits: "b64_encode s = map b64_char (b64_digits s)"
  by (induction s rule: b64_encode.induct) (simp_all add: Let_def)

lemma byte_split_bounds:
  fixes x y z :: nat
  assumes "x < 256" "y < 256" "z < 256"
  shows "x div 4 < 64" "x mod 4 * 16 + y div 16 < 64" "y mod 16 * 4 + z div 64 < 64" "z mod 64 < 64"
    "x mod 4 * 16 < 64" "y mod 16 * 4 < 64"
proof -
  have "x mod 4 < 4" "y mod 16 < 16" by simp_all
  moreover have "y div 16 < 16" "z div 64 < 4" "x div 4 < 64" using assms by simp_all
  ultimately show "x div 4 < 64" "x mod 4 * 16 + y div 16 < 64" "y mod 16 * 4 + z div 64 < 64"
    "z mod 64 < 64" "x mod 4 * 16 < 64" "y mod 16 * 4 < 64" by simp_all
qed

lemmas char_split_bounds = byte_split_bounds [of "of_char a" "of_char b" "of_char c" for a b c]

lemma b64_digits_bound: "\<forall>d \<in> set (b64_digits s). d < 64"
  by (induction s rule: b64_digits.induct)
    (use char_split_bounds in \<open>auto simp: Let_def simp del: mult_Suc_right\<close>)

lemma byte_join:
  fixes x y z :: nat
  assumes "y < 256" "z < 256"
  shows "x div 4 * 4 + (x mod 4 * 16 + y div 16) div 16 = x"
    "(x mod 4 * 16 + y div 16) mod 16 * 16 + (y mod 16 * 4 + z div 64) div 4 = y"
    "(y mod 16 * 4 + z div 64) mod 4 * 64 + z mod 64 = z"
proof -
  have "y div 16 < 16" "z div 64 < 4" using assms by simp_all
  then show "x div 4 * 4 + (x mod 4 * 16 + y div 16) div 16 = x"
    "(x mod 4 * 16 + y div 16) mod 16 * 16 + (y mod 16 * 4 + z div 64) div 4 = y"
    "(y mod 16 * 4 + z div 64) mod 4 * 64 + z mod 64 = z"
    by (simp_all only: mixed_radix div_mult_mod_eq)
qed

lemma char_join:
  "char_of (of_char a div 4 * 4 + (of_char a mod 4 * 16 + of_char b div 16) div 16 :: nat) = (a :: char)"
  "char_of ((of_char a mod 4 * 16 + of_char b div 16) mod 16 * 16
     + (of_char b mod 16 * 4 + of_char c div 64) div 4 :: nat) = (b :: char)"
  "char_of ((of_char b mod 16 * 4 + of_char c div 64) mod 4 * 64 + of_char c mod 64 :: nat) = (c :: char)"
  by (simp_all only: byte_join [OF of_char_lt of_char_lt] char_of_char)

lemma char_join_short:
  "char_of (of_char a div 4 * 4 + of_char a mod 4 * 16 div 16 :: nat) = (a :: char)"
  "char_of ((of_char a mod 4 * 16 + of_char b div 16) mod 16 * 16 + of_char b mod 16 * 4 div 4 :: nat) = (b :: char)"
  using char_join(1) [of a "char_of (0::nat)"] char_join(2) [of a b "char_of (0::nat)"] by simp_all

lemma b64_groups_digits: "b64_groups (b64_digits s) = Some s"
  by (induction s rule: b64_digits.induct)
    (simp_all only: b64_digits.simps b64_groups.simps Let_def append.simps option.map char_join char_join_short)

lemma b64_sextets_map: "\<forall>d \<in> set ds. d < 64 \<Longrightarrow> b64_sextets (map b64_char ds) = Some ds"
  by (induction ds) auto

lemma b64_decode_encode [simp]: "b64_decode (b64_encode s) = Some s"
  by (simp add: b64_decode_def b64_encode_digits b64_sextets_map b64_digits_bound b64_groups_digits)

lemma b64_encode_no_dot [simp]: "CHR ''.'' \<notin> set (b64_encode s)"
  using b64_digits_bound [of s] b64_char_plain(3) by (metis (no_types, lifting) b64_encode_digits imageE list.set_map)

end
