(* ===== verification/Go_Float.thy ===== *)
theory Go_Float
  imports Go_Strings
begin

section \<open>float64 values of JSON numbers\<close>

text \<open>
  A float64 is a NaN, an infinity or a dyadic number \<open>Fin m e\<close> of value \<open>m * 2 ^ e\<close>. The
  program parses float64 values out of JSON number literals (strconv.ParseFloat: round to
  nearest, ties to even, an error on overflow) and compares them with integer bounds; nothing
  else. \<open>float_lt\<close> and \<open>float_gt\<close> are Go's comparisons, false on a NaN.
\<close>

datatype float64 = NaN | Inf bool | Fin int int

definition float_is_nan :: "float64 \<Rightarrow> bool" where
  "float_is_nan x = (case x of NaN \<Rightarrow> True | _ \<Rightarrow> False)"

definition float_is_inf :: "float64 \<Rightarrow> bool" where
  "float_is_inf x = (case x of Inf _ \<Rightarrow> True | _ \<Rightarrow> False)"

text \<open>Comparison with the integer \<open>c\<close>; \<open>Inf True\<close> is the positive infinity.\<close>

definition float_lt :: "float64 \<Rightarrow> int \<Rightarrow> bool" where
  "float_lt x c =
     (case x of NaN \<Rightarrow> False | Inf pos \<Rightarrow> \<not> pos
      | Fin m e \<Rightarrow> if 0 \<le> e then m * 2 ^ nat e < c else m < c * 2 ^ nat (- e))"

definition float_gt :: "float64 \<Rightarrow> int \<Rightarrow> bool" where
  "float_gt x c =
     (case x of NaN \<Rightarrow> False | Inf pos \<Rightarrow> pos
      | Fin m e \<Rightarrow> if 0 \<le> e then c < m * 2 ^ nat e else c * 2 ^ nat (- e) < m)"

text \<open>The quotient \<open>n / (d * 2 ^ e)\<close> of natural numbers as numerator and denominator.\<close>

definition scaled :: "int \<Rightarrow> int \<Rightarrow> int \<Rightarrow> int \<times> int" where
  "scaled n d e = (if 0 \<le> e then (n, d * 2 ^ nat e) else (n * 2 ^ nat (- e), d))"

function bit_length :: "int \<Rightarrow> int" where
  "bit_length n = (if n \<le> 0 then 0 else 1 + bit_length (n div 2))"
  by pat_completeness auto
termination
  by (relation "measure nat") auto

declare bit_length.simps [simp del]

text \<open>Raise the exponent until the integer part fits 53 bits; from the start below, a few steps.\<close>

fun fit_exponent :: "nat \<Rightarrow> int \<Rightarrow> int \<Rightarrow> int \<Rightarrow> int" where
  "fit_exponent 0 n d e = e"
| "fit_exponent (Suc k) n d e =
     (case scaled n d e of (a, b) \<Rightarrow> if a div b < 2 ^ 53 then e else fit_exponent k n d (e + 1))"

definition round_half_even :: "int \<Rightarrow> int \<Rightarrow> int" where
  "round_half_even a b =
     (let q = a div b; r = a mod b
      in if 2 * r < b \<or> (2 * r = b \<and> even q) then q else q + 1)"

definition round64 :: "int \<Rightarrow> int \<Rightarrow> (int \<times> int) option" where
  "round64 n d =
     (let start = max (- 1074) (bit_length n - bit_length d - 54);
          e = fit_exponent 4 n d start;
          m = (case scaled n d e of (a, b) \<Rightarrow> round_half_even a b);
          (m', e') = (if m = 2 ^ 53 then (2 ^ 52, e + 1) else (m, e))
      in if 971 < e' then None else Some (m', e'))"

text \<open>A JSON number literal: sign, integer part, fraction, exponent.\<close>

definition literal_parts :: "string \<Rightarrow> bool \<times> string \<times> string \<times> int" where
  "literal_parts s =
     (let neg = (s \<noteq> [] \<and> hd s = CHR ''-'');
          u = (if neg then tl s else s);
          i = takeWhile is_digit u; r = dropWhile is_digit u;
          f = (if r \<noteq> [] \<and> hd r = CHR ''.'' then takeWhile is_digit (tl r) else []);
          r' = (if r \<noteq> [] \<and> hd r = CHR ''.'' then dropWhile is_digit (tl r) else r);
          x = (case r' of
                 c # g # ds \<Rightarrow>
                   if c = CHR ''e'' \<or> c = CHR ''E''
                   then if g = CHR ''-'' then - digits_value 0 ds
                        else if g = CHR ''+'' then digits_value 0 ds
                        else digits_value 0 (g # ds)
                   else 0
               | _ \<Rightarrow> 0)
      in (neg, i, f, x))"

definition parse_float64 :: "string \<Rightarrow> float64 option" where
  "parse_float64 s =
     (case literal_parts s of (neg, i, f, x) \<Rightarrow>
        let n = digits_value 0 (i @ f); p = x - int (length f);
            (num, den) = (if 0 \<le> p then (n * 10 ^ nat p, 1) else (n, 10 ^ nat (- p)))
        in map_option (\<lambda>(m, e). Fin (if neg then - m else m) e) (round64 num den))"

lemma parse_float64_examples:
  "parse_float64 ''1'' = Some (Fin 4503599627370496 (- 52))"
  "parse_float64 ''-0.5'' = Some (Fin (- 4503599627370496) (- 53))"
  "parse_float64 ''0.1'' = Some (Fin 7205759403792794 (- 56))"
  "parse_float64 ''1.00000000000000000001'' = parse_float64 ''1''"
  by code_simp+

end
