(* ===== verification/Go_Json.thy ===== *)
theory Go_Json
  imports Go_Codec Go_Float
begin

section \<open>encoding/json: lexemes, values and the strict decoder into structs\<close>

text \<open>
  What the program uses of encoding/json. \<open>lex\<close> turns bytes into lexemes (escapes decoded,
  invalid UTF-8 replaced, as the Go scanner and unquote do). \<open>json_decode\<close> is the syntax of a
  whole value, \<open>render\<close> its inverse on lexemes. The last part is Decoder.Decode into a struct
  with DisallowUnknownFields: a struct is a table of field names and decoders into its record;
  a key selects the field with that name or, failing that, the one whose case-folded name is
  equal; a repeated key decodes into the value already there; null leaves a plain field as it is.
\<close>

datatype json =
    JNull
  | JBool bool
  | JNum string
  | JStr string
  | JArr "json list"
  | JObj "(string \<times> json) list"

datatype lexeme =
    LBrace | RBrace | LBrack | RBrack | Colon | Comma
  | LStr string | LNum string | LTrue | LFalse | LNull

subsection \<open>From bytes to lexemes\<close>

definition json_space :: "char \<Rightarrow> bool" where
  "json_space c = List.member [CHR 0x20, CHR 0x09, CHR 0x0A, CHR 0x0D] c"

fun hex4 :: "string \<Rightarrow> nat option" where
  "hex4 (a # b # c # d # r) =
     (case (hex_val a, hex_val b, hex_val c, hex_val d) of
        (Some w, Some x, Some y, Some z) \<Rightarrow> Some (4096 * w + 256 * x + 16 * y + z)
      | _ \<Rightarrow> None)"
| "hex4 s = None"

definition encode_rune :: "nat \<Rightarrow> string" where
  "encode_rune n =
     (if n < 128 then [char_of n]
      else if n < 2048 then [char_of (192 + n div 64), char_of (128 + n mod 64)]
      else if n < 65536
        then [char_of (224 + n div 4096), char_of (128 + n div 64 mod 64), char_of (128 + n mod 64)]
      else [char_of (240 + n div 262144), char_of (128 + n div 4096 mod 64),
            char_of (128 + n div 64 mod 64), char_of (128 + n mod 64)])"

text \<open>The rune of a \<open>\u\<close> escape with value \<open>u\<close>, and what follows it: a surrogate pair is one rune.\<close>

definition unicode_escape :: "nat \<Rightarrow> string \<Rightarrow> nat \<times> string" where
  "unicode_escape u r =
     (if u < 55296 \<or> 57344 \<le> u then (u, r)
      else case r of
             b # x # r' \<Rightarrow>
               if b = CHR 0x5C \<and> x = CHR ''u'' then
                 (case hex4 r' of
                    Some v \<Rightarrow>
                      if u < 56320 \<and> 56320 \<le> v \<and> v < 57344
                      then ((u - 55296) * 1024 + (v - 56320) + 65536, drop 4 r')
                      else (65533, r)
                  | None \<Rightarrow> (65533, r))
               else (65533, r)
           | _ \<Rightarrow> (65533, r))"

definition simple_escape :: "char \<Rightarrow> char option" where
  "simple_escape c =
     map_of [(CHR 0x22, CHR 0x22), (CHR 0x5C, CHR 0x5C), (CHR ''/'', CHR ''/''), (CHR ''b'', CHR 0x08),
             (CHR ''f'', CHR 0x0C), (CHR ''n'', CHR 0x0A), (CHR ''r'', CHR 0x0D), (CHR ''t'', CHR 0x09)] c"

text \<open>The length of the valid multi-byte UTF-8 sequence at the head, 0 if there is none.\<close>

definition utf8_length :: "string \<Rightarrow> nat" where
  "utf8_length s =
     (let b = map (of_char :: char \<Rightarrow> nat) (take 4 s);
          cont = (\<lambda>x. 128 \<le> x \<and> x < 192)
      in case b of
           x # y # r \<Rightarrow>
             if 194 \<le> x \<and> x < 224 \<and> cont y then 2
             else if 224 \<le> x \<and> x < 240 \<and> cont y \<and> (x = 224 \<longrightarrow> 160 \<le> y) \<and> (x = 237 \<longrightarrow> y < 160)
                \<and> r \<noteq> [] \<and> cont (hd r) then 3
             else if 240 \<le> x \<and> x < 245 \<and> cont y \<and> (x = 240 \<longrightarrow> 144 \<le> y) \<and> (x = 244 \<longrightarrow> y < 144)
                \<and> length r = 2 \<and> list_all cont r then 4
             else 0
         | _ \<Rightarrow> 0)"

definition prepend :: "string \<Rightarrow> (string \<times> string) option \<Rightarrow> (string \<times> string) option" where
  "prepend p v = map_option (\<lambda>(x, r). (p @ x, r)) v"

lemma unicode_escape_length: "length (snd (unicode_escape u r)) \<le> length r"
  by (auto simp: unicode_escape_def split: list.splits option.splits)

text \<open>The characters after an opening quote: the string, and what follows the closing quote.\<close>

function lex_string :: "string \<Rightarrow> (string \<times> string) option" where
  "lex_string [] = None"
| "lex_string (c # r) =
     (if c = CHR 0x22 then Some ([], r)
      else if c = CHR 0x5C then
        (case r of
           [] \<Rightarrow> None
         | e # r' \<Rightarrow>
             if e = CHR ''u'' then
               (case hex4 r' of
                  None \<Rightarrow> None
                | Some u \<Rightarrow>
                    prepend (encode_rune (fst (unicode_escape u (drop 4 r'))))
                      (lex_string (snd (unicode_escape u (drop 4 r')))))
             else (case simple_escape e of
                     None \<Rightarrow> None
                   | Some x \<Rightarrow> prepend [x] (lex_string r')))
      else if (of_char c :: nat) < 32 then None
      else if (of_char c :: nat) < 128 then prepend [c] (lex_string r)
      else if utf8_length (c # r) = 0
        then prepend [CHR 0xEF, CHR 0xBF, CHR 0xBD] (lex_string r)
      else prepend (take (utf8_length (c # r)) (c # r)) (lex_string (drop (utf8_length (c # r) - 1) r)))"
  by pat_completeness auto
termination
proof (relation "measure length", goal_cases)
  case (2 c r e r' u)
  have "length (snd (unicode_escape u (drop 4 r'))) \<le> length (drop 4 r')"
    by (rule unicode_escape_length)
  with 2 show ?case by simp
qed auto

text \<open>The longest number literal at the head of the input.\<close>

definition exponent_part :: "string \<Rightarrow> string option" where
  "exponent_part r =
     (if r \<noteq> [] \<and> (hd r = CHR ''e'' \<or> hd r = CHR ''E'') then
        (let g = (if tl r \<noteq> [] \<and> (hd (tl r) = CHR ''+'' \<or> hd (tl r) = CHR ''-'') then take 1 (tl r) else []);
             ds = takeWhile is_digit (drop (length g) (tl r))
         in if ds = [] then None else Some (hd r # g @ ds))
      else Some [])"

definition fraction_part :: "string \<Rightarrow> string option" where
  "fraction_part r =
     (if r \<noteq> [] \<and> hd r = CHR ''.'' then
        (let ds = takeWhile is_digit (tl r) in if ds = [] then None else Some (CHR ''.'' # ds))
      else Some [])"

definition integer_part :: "string \<Rightarrow> string option" where
  "integer_part u =
     (let ds = takeWhile is_digit u
      in if ds = [] then None else if hd ds = CHR ''0'' then Some (take 1 ds) else Some ds)"

definition number_literal :: "string \<Rightarrow> string option" where
  "number_literal s =
     (let sign = (if s \<noteq> [] \<and> hd s = CHR ''-'' then ''-'' else []); u = drop (length sign) s
      in Option.bind (integer_part u) (\<lambda>i.
         Option.bind (fraction_part (drop (length i) u)) (\<lambda>f.
         Option.bind (exponent_part (drop (length f) (drop (length i) u))) (\<lambda>e.
           Some (sign @ i @ f @ e)))))"

lemma number_literal_not_Nil: "number_literal s = Some l \<Longrightarrow> l \<noteq> []"
  by (auto simp: number_literal_def integer_part_def Let_def bind_eq_Some_conv split: if_splits)

lemma lex_string_shorter: "lex_string s = Some (x, r) \<Longrightarrow> length r < length s"
proof (induction s arbitrary: x r rule: lex_string.induct)
  case (2 c s)
  have esc: "length (snd (unicode_escape u (drop 4 r'))) \<le> length r'" for u r'
    using unicode_escape_length [of u "drop 4 r'"] by simp
  from 2 show ?case
    by (auto simp: prepend_def split: if_splits list.splits option.splits)
      (use esc in \<open>fastforce dest: le_less_trans [rotated] intro: less_le_trans less_SucI\<close>)+
qed simp

text \<open>The lexeme at the head of the input, which is not white space, and what follows it.\<close>

definition next_lexeme :: "string \<Rightarrow> (lexeme \<times> string) option" where
  "next_lexeme s =
     (case s of
        [] \<Rightarrow> None
      | c # r \<Rightarrow>
          if c = CHR ''{'' then Some (LBrace, r)
          else if c = CHR ''}'' then Some (RBrace, r)
          else if c = CHR ''['' then Some (LBrack, r)
          else if c = CHR '']'' then Some (RBrack, r)
          else if c = CHR '':'' then Some (Colon, r)
          else if c = CHR '','' then Some (Comma, r)
          else if c = CHR 0x22 then map_option (\<lambda>(x, r'). (LStr x, r')) (lex_string r)
          else if has_prefix s ''true'' then Some (LTrue, drop 4 s)
          else if has_prefix s ''false'' then Some (LFalse, drop 5 s)
          else if has_prefix s ''null'' then Some (LNull, drop 4 s)
          else map_option (\<lambda>l. (LNum l, drop (length l) s)) (number_literal s))"

lemma next_lexeme_shorter: "next_lexeme s = Some (l, r) \<Longrightarrow> length r < length s"
  by (auto simp: next_lexeme_def dest: lex_string_shorter number_literal_not_Nil
      split: list.splits if_splits)

function lex :: "string \<Rightarrow> lexeme list option" where
  "lex [] = Some []"
| "lex (c # r) =
     (if json_space c then lex r
      else case next_lexeme (c # r) of
             None \<Rightarrow> None
           | Some (l, r') \<Rightarrow> map_option (Cons l) (lex r'))"
  by pat_completeness auto
termination
  by (relation "measure length") (auto dest: next_lexeme_shorter)

text \<open>A Decoder that reads one value does not look at what follows: the lexemes up to an error.\<close>

function lex_prefix :: "string \<Rightarrow> lexeme list" where
  "lex_prefix [] = []"
| "lex_prefix (c # r) =
     (if json_space c then lex_prefix r
      else case next_lexeme (c # r) of
             None \<Rightarrow> []
           | Some (l, r') \<Rightarrow> l # lex_prefix r')"
  by pat_completeness auto
termination
  by (relation "measure length") (auto dest: next_lexeme_shorter)

subsection \<open>Values and their syntax\<close>

fun render :: "json \<Rightarrow> lexeme list"
  and render_elems :: "json list \<Rightarrow> lexeme list"
  and render_more :: "json list \<Rightarrow> lexeme list"
  and render_members :: "(string \<times> json) list \<Rightarrow> lexeme list"
  and render_more_members :: "(string \<times> json) list \<Rightarrow> lexeme list" where
  "render JNull = [LNull]"
| "render (JBool b) = [if b then LTrue else LFalse]"
| "render (JNum l) = [LNum l]"
| "render (JStr x) = [LStr x]"
| "render (JArr vs) = LBrack # render_elems vs @ [RBrack]"
| "render (JObj ms) = LBrace # render_members ms @ [RBrace]"
| "render_elems [] = []"
| "render_elems (v # vs) = render v @ render_more vs"
| "render_more [] = []"
| "render_more (v # vs) = Comma # render v @ render_more vs"
| "render_members [] = []"
| "render_members ((k, v) # ms) = LStr k # Colon # render v @ render_more_members ms"
| "render_more_members [] = []"
| "render_more_members ((k, v) # ms) = Comma # LStr k # Colon # render v @ render_more_members ms"

text \<open>Nesting depth (a scalar has depth 1, as jsonstrict counts) and absence of repeated keys.\<close>

fun jdepth :: "json \<Rightarrow> nat" where
  "jdepth (JArr vs) = Suc (foldr max (map jdepth vs) 0)"
| "jdepth (JObj ms) = Suc (foldr max (map (\<lambda>m. jdepth (snd m)) ms) 0)"
| "jdepth v = 1"

fun unique_keys :: "json \<Rightarrow> bool" where
  "unique_keys (JArr vs) = list_all unique_keys vs"
| "unique_keys (JObj ms) = (distinct (map fst ms) \<and> list_all (\<lambda>m. unique_keys (snd m)) ms)"
| "unique_keys v = True"

lemma foldr_max_le: "foldr max (map f xs) (0::nat) \<le> n \<longleftrightarrow> (\<forall>x \<in> set xs. f x \<le> n)"
  by (induction xs) auto

lemma jdepth_Arr: "jdepth (JArr vs) \<le> Suc n \<longleftrightarrow> (\<forall>v \<in> set vs. jdepth v \<le> n)"
  using foldr_max_le [of jdepth vs n] by simp

lemma jdepth_Obj: "jdepth (JObj ms) \<le> Suc n \<longleftrightarrow> (\<forall>m \<in> set ms. jdepth (snd m) \<le> n)"
  using foldr_max_le [of "\<lambda>m. jdepth (snd m)" ms n] by simp

lemma jdepth_pos: "1 \<le> jdepth v"
  by (cases v) simp_all

text \<open>
  The syntax of a value, by recursive descent. The fuel bounds the recursion; the number of
  lexemes is enough (\<open>json_value_render\<close>).
\<close>

fun json_value :: "nat \<Rightarrow> lexeme list \<Rightarrow> (json \<times> lexeme list) option"
  and json_elems :: "nat \<Rightarrow> lexeme list \<Rightarrow> (json list \<times> lexeme list) option"
  and json_members :: "nat \<Rightarrow> lexeme list \<Rightarrow> ((string \<times> json) list \<times> lexeme list) option" where
  "json_value 0 ls = None"
| "json_value (Suc n) ls =
     (case ls of
        LNull # r \<Rightarrow> Some (JNull, r)
      | LTrue # r \<Rightarrow> Some (JBool True, r)
      | LFalse # r \<Rightarrow> Some (JBool False, r)
      | LNum l # r \<Rightarrow> Some (JNum l, r)
      | LStr x # r \<Rightarrow> Some (JStr x, r)
      | LBrack # RBrack # r \<Rightarrow> Some (JArr [], r)
      | LBrack # r \<Rightarrow> map_option (\<lambda>(vs, r). (JArr vs, r)) (json_elems n r)
      | LBrace # RBrace # r \<Rightarrow> Some (JObj [], r)
      | LBrace # r \<Rightarrow> map_option (\<lambda>(ms, r). (JObj ms, r)) (json_members n r)
      | _ \<Rightarrow> None)"
| "json_elems 0 ls = None"
| "json_elems (Suc n) ls =
     (case json_value n ls of
        Some (v, RBrack # r) \<Rightarrow> Some ([v], r)
      | Some (v, Comma # r) \<Rightarrow> map_option (\<lambda>(vs, r). (v # vs, r)) (json_elems n r)
      | _ \<Rightarrow> None)"
| "json_members 0 ls = None"
| "json_members (Suc n) ls =
     (case ls of
        LStr k # Colon # r \<Rightarrow>
          (case json_value n r of
             Some (v, RBrace # r) \<Rightarrow> Some ([(k, v)], r)
           | Some (v, Comma # r) \<Rightarrow> map_option (\<lambda>(ms, r). ((k, v) # ms, r)) (json_members n r)
           | _ \<Rightarrow> None)
      | _ \<Rightarrow> None)"

lemma render_more_Cons: "render_more vs = (if vs = [] then [] else Comma # render_elems vs)"
  by (cases vs) simp_all

lemma render_more_members_Cons:
  "render_more_members ms = (if ms = [] then [] else Comma # render_members ms)"
  by (cases ms; cases "hd ms") auto

lemma json_value_sound:
  "json_value n ls = Some (v, r) \<Longrightarrow> ls = render v @ r"
  "json_elems n ls = Some (vs, r) \<Longrightarrow> vs \<noteq> [] \<and> ls = render_elems vs @ RBrack # r"
  "json_members n ls = Some (ms, r) \<Longrightarrow> ms \<noteq> [] \<and> ls = render_members ms @ RBrace # r"
proof (induction n ls and n ls and n ls arbitrary: v r and vs r and ms r
    rule: json_value_json_elems_json_members.induct)
  case (2 n ls)
  then show ?case by (auto split: list.splits lexeme.splits)
next
  case (4 n ls)
  then show ?case
    by (fastforce simp: render_more_Cons split: option.splits list.splits lexeme.splits)
next
  case (6 n ls)
  then show ?case
    by (fastforce simp: render_more_members_Cons split: option.splits list.splits lexeme.splits)
qed simp_all

lemma render_hd: "\<exists>l ls. render v = l # ls \<and> l \<notin> {RBrack, RBrace, Comma, Colon}"
  by (cases v) auto

lemma render_length: "0 < length (render v)"
  using render_hd [of v] by auto

lemma json_elems_render:
  assumes "\<And>v r n. v \<in> set vs \<Longrightarrow> length (render v) \<le> n \<Longrightarrow> json_value n (render v @ r) = Some (v, r)"
    and "vs \<noteq> []" and "length (render_elems vs) < n"
  shows "json_elems n (render_elems vs @ RBrack # r) = Some (vs, r)"
  using assms
proof (induction vs arbitrary: n)
  case (Cons v vs)
  then obtain k where n: "n = Suc k" by (cases n) auto
  show ?case
  proof (cases "vs = []")
    case True
    then show ?thesis using Cons.prems by (simp add: n)
  next
    case False
    then have "length (render_elems vs) < k" using Cons.prems render_length [of v]
      by (simp add: n render_more_Cons)
    with Cons False have "json_elems k (render_elems vs @ RBrack # r) = Some (vs, r)" by simp
    moreover have "length (render v) \<le> k" using Cons.prems by (simp add: n)
    ultimately show ?thesis using Cons.prems(1) False by (simp add: n render_more_Cons)
  qed
qed simp

lemma json_members_render:
  assumes "\<And>m r n. m \<in> set ms \<Longrightarrow> length (render (snd m)) \<le> n \<Longrightarrow>
      json_value n (render (snd m) @ r) = Some (snd m, r)"
    and "ms \<noteq> []" and "length (render_members ms) < n"
  shows "json_members n (render_members ms @ RBrace # r) = Some (ms, r)"
  using assms
proof (induction ms arbitrary: n)
  case (Cons m ms)
  then obtain k where n: "n = Suc k" by (cases n) auto
  obtain x v where m: "m = (x, v)" by force
  have "length (render v) \<le> k" using Cons.prems by (simp add: n m)
  with Cons.prems(1) [of m] have v: "json_value k (render v @ r) = Some (v, r)" for r by (simp add: m)
  show ?case
  proof (cases "ms = []")
    case True
    then show ?thesis using v by (simp add: n m)
  next
    case False
    then have "length (render_members ms) < k" using Cons.prems render_length [of v]
      by (simp add: n m render_more_members_Cons)
    with Cons False have "json_members k (render_members ms @ RBrace # r) = Some (ms, r)" by simp
    then show ?thesis using v False by (simp add: n m render_more_members_Cons)
  qed
qed simp

lemma json_value_render: "length (render v) \<le> n \<Longrightarrow> json_value n (render v @ r) = Some (v, r)"
proof (induction v arbitrary: n r)
  case (JArr vs)
  then obtain k where n: "n = Suc k" by (cases n) auto
  show ?case
  proof (cases vs)
    case (Cons u us)
    then have "json_elems k (render_elems vs @ RBrack # r) = Some (vs, r)"
      using JArr by (intro json_elems_render) (auto simp: n)
    then show ?thesis using render_hd [of u] by (auto simp: n Cons split: lexeme.splits)
  qed (simp add: n)
next
  case (JObj ms)
  then obtain k where n: "n = Suc k" by (cases n) auto
  show ?case
  proof (cases ms)
    case (Cons u us)
    then have "json_members k (render_members ms @ RBrace # r) = Some (ms, r)"
      using JObj by (intro json_members_render) (auto simp: n snds.simps)
    then show ?thesis by (cases u) (auto simp: n Cons)
  qed (simp add: n)
qed (case_tac n; simp)+

definition json_decode :: "lexeme list \<Rightarrow> json option" where
  "json_decode ls =
     (case json_value (length ls) ls of Some (v, []) \<Rightarrow> Some v | _ \<Rightarrow> None)"

definition json_first :: "string \<Rightarrow> json option" where
  "json_first data = map_option fst (json_value (length data) (lex_prefix data))"

text \<open>The decoder reads exactly the renderings of values, and reads back the value.\<close>

lemma json_decode_iff: "json_decode ls = Some v \<longleftrightarrow> ls = render v"
proof
  assume "json_decode ls = Some v"
  then show "ls = render v"
    by (auto simp: json_decode_def dest: json_value_sound(1) split: option.splits list.splits)
next
  assume "ls = render v"
  then show "json_decode ls = Some v"
    using json_value_render [of v "length ls" "[]"] by (simp add: json_decode_def)
qed

lemma lex_prefix_lex: "lex s = Some ls \<Longrightarrow> lex_prefix s = ls \<and> length ls \<le> length s"
proof (induction s arbitrary: ls rule: lex.induct)
  case (2 c r)
  then show ?case
    by (fastforce split: if_splits option.splits prod.splits dest: next_lexeme_shorter)
qed simp

lemma json_first_lex: "lex s = Some (render v) \<Longrightarrow> json_first s = Some v"
  using lex_prefix_lex [of s "render v"] json_value_render [of v "length s" "[]"]
  by (simp add: json_first_def)

subsection \<open>Decoding into structs\<close>

text \<open>
  A decoder for a Go type takes the value already stored, as Decode does, and gives the new one.
  An integer literal out of the range of its field is an error; a slice decodes into the elements
  it already has and then into zero values.
\<close>

type_synonym 'a into = "json \<Rightarrow> 'a \<Rightarrow> 'a option"

fun fold_name :: "string \<Rightarrow> string" where
  "fold_name [] = []"
| "fold_name (c # r) =
     (if has_prefix (c # r) [CHR 0xE2, CHR 0x84, CHR 0xAA] then CHR ''K'' # fold_name (drop 2 r)
      else if has_prefix (c # r) [CHR 0xC5, CHR 0xBF] then CHR ''S'' # fold_name (drop 1 r)
      else to_upper [c] @ fold_name r)"

definition find_field :: "(string \<times> 'a) list \<Rightarrow> string \<Rightarrow> 'a option" where
  "find_field tbl k =
     (case map_of tbl k of
        Some d \<Rightarrow> Some d
      | None \<Rightarrow> map_of (map (\<lambda>(n, d). (fold_name n, d)) tbl) (fold_name k))"

fun into_members :: "(string \<times> 'r into) list \<Rightarrow> (string \<times> json) list \<Rightarrow> 'r \<Rightarrow> 'r option" where
  "into_members tbl [] r = Some r"
| "into_members tbl ((k, v) # ms) r =
     (case find_field tbl k of
        None \<Rightarrow> None
      | Some d \<Rightarrow> (case d v r of None \<Rightarrow> None | Some r' \<Rightarrow> into_members tbl ms r'))"

fun into_struct :: "(string \<times> 'r into) list \<Rightarrow> 'r into" where
  "into_struct tbl (JObj ms) r = into_members tbl ms r"
| "into_struct tbl JNull r = Some r"
| "into_struct tbl v r = None"

definition fld :: "string \<Rightarrow> ('r \<Rightarrow> 'a) \<Rightarrow> (('a \<Rightarrow> 'a) \<Rightarrow> 'r \<Rightarrow> 'r) \<Rightarrow> 'a into \<Rightarrow> string \<times> 'r into" where
  "fld name get upd d = (name, \<lambda>v r. map_option (\<lambda>x. upd (\<lambda>_. x) r) (d v (get r)))"

fun into_string :: "string into" where
  "into_string (JStr x) old = Some x"
| "into_string JNull old = Some old"
| "into_string v old = None"

fun into_bool :: "bool into" where
  "into_bool (JBool b) old = Some b"
| "into_bool JNull old = Some old"
| "into_bool v old = None"

fun into_int64 :: "int into" where
  "into_int64 (JNum l) old = parse_int64 l"
| "into_int64 JNull old = Some old"
| "into_int64 v old = None"

fun into_word :: "'w::len word into" where
  "into_word (JNum l) old = map_option word_of_int (parse_uint LENGTH('w) l)"
| "into_word JNull old = Some old"
| "into_word v old = None"

fun into_float :: "float64 into" where
  "into_float (JNum l) old = parse_float64 l"
| "into_float JNull old = Some old"
| "into_float v old = None"

definition into_ptr :: "'a \<Rightarrow> 'a into \<Rightarrow> 'a option into" where
  "into_ptr zero d v old =
     (if v = JNull then Some None
      else map_option Some (d v (case old of None \<Rightarrow> zero | Some x \<Rightarrow> x)))"

fun into_elems :: "'a \<Rightarrow> 'a into \<Rightarrow> json list \<Rightarrow> 'a list \<Rightarrow> 'a list option" where
  "into_elems zero d [] old = Some []"
| "into_elems zero d (v # vs) old =
     (case d v (if old = [] then zero else hd old) of
        None \<Rightarrow> None
      | Some x \<Rightarrow> map_option (Cons x) (into_elems zero d vs (tl old)))"

fun into_slice :: "'a \<Rightarrow> 'a into \<Rightarrow> 'a list into" where
  "into_slice zero d (JArr vs) old = into_elems zero d vs old"
| "into_slice zero d JNull old = Some []"
| "into_slice zero d v old = None"

text \<open>What a successful decode says of the value: its keys name fields, its elements are kept.\<close>

lemma into_members_keys:
  "into_members tbl ms r = Some r' \<Longrightarrow> \<forall>k \<in> set (map fst ms). find_field tbl k \<noteq> None"
  by (induction tbl ms r rule: into_members.induct) (auto split: option.splits)

lemma find_field_folded:
  assumes "find_field tbl k = Some d"
  shows "\<exists>n \<in> set (map fst tbl). fold_name n = fold_name k"
proof (cases "map_of tbl k")
  case None
  with assms have "map_of (map (\<lambda>(n, d). (fold_name n, d)) tbl) (fold_name k) = Some d"
    by (simp add: find_field_def)
  then show ?thesis by (force dest: map_of_SomeD)
next
  case (Some d')
  then show ?thesis by (force dest: map_of_SomeD)
qed

lemma into_struct_unknown:
  assumes "k \<in> set (map fst ms)" and "\<forall>n \<in> set (map fst tbl). fold_name n \<noteq> fold_name k"
  shows "into_struct tbl (JObj ms) r = None"
proof (rule ccontr)
  assume "into_struct tbl (JObj ms) r \<noteq> None"
  then obtain r' where "into_members tbl ms r = Some r'" by auto
  from bspec [OF into_members_keys [OF this] assms(1)] have "find_field tbl k \<noteq> None" .
  then show False using find_field_folded [of tbl k] assms(2) by auto
qed

lemma into_members_append:
  "into_members tbl (xs @ ys) r = (case into_members tbl xs r of None \<Rightarrow> None | Some r' \<Rightarrow> into_members tbl ys r')"
  by (induction tbl xs r rule: into_members.induct) (auto split: option.splits)

lemma find_field_variant:
  assumes "map_of tbl n = Some d" and "distinct (map (fold_name \<circ> fst) tbl)"
    and "k \<notin> fst ` set tbl" and "fold_name k = fold_name n"
  shows "find_field tbl k = Some d"
proof -
  from assms(3) have "map_of tbl k = None" by (simp add: map_of_eq_None_iff)
  moreover have "distinct (map fst (map (\<lambda>(n, d). (fold_name n, d)) tbl))"
    using assms(2) by (simp add: comp_def case_prod_unfold)
  moreover from map_of_SomeD [OF assms(1)] have "(fold_name k, d) \<in> set (map (\<lambda>(n, d). (fold_name n, d)) tbl)"
    using assms(4) by force
  ultimately show ?thesis by (simp add: find_field_def map_of_is_SomeI)
qed

lemma into_elems_length: "into_elems zero d vs old = Some xs \<Longrightarrow> length xs = length vs"
  by (induction zero d vs old arbitrary: xs rule: into_elems.induct) (auto split: option.splits)

lemma into_int64_range: "into_int64 v old = Some x \<Longrightarrow> in_int64 old \<Longrightarrow> in_int64 x"
  by (cases v) (auto dest: parse_int64_range)

end
