(* ===== verification/Jsonstrict.thy ===== *)
theory Jsonstrict
  imports Go_Json
begin

section \<open>internal/jsonstrict: the strict JSON decoder\<close>

text \<open>
  DecodeObject of decode.go. \<open>decoder\<close> is the part of json.Decoder that Token and More use: the
  unread input, the token state and the stack of the states of the enclosing containers; Token
  consumes the commas and colons that the state allows. \<open>validate_value\<close> and its two loops are
  validateValue with its calls of expectDelimiter; their fuel bounds the depth of the recursion, and
  one more than twice the number of lexemes is enough for every input (\<open>walk_terminates\<close>): a bracket
  costs two calls, that of its value and that of the loop over its elements. The result is that the
  walk over tokens accepts exactly the renderings of one value without repeated keys within the
  depth bound (\<open>validate_accepts\<close>).
\<close>

datatype token_state =
    TopValue | ArrayStart | ArrayValue | ArrayComma
  | ObjectStart | ObjectKey | ObjectColon | ObjectValue | ObjectComma

datatype token = Delim lexeme | StringToken string | ScalarToken

record decoder =
  unread :: "lexeme list"
  tok_state :: token_state
  tok_stack :: "token_state list"

definition value_allowed :: "token_state \<Rightarrow> bool" where
  "value_allowed s = List.member [TopValue, ArrayStart, ArrayValue, ObjectValue] s"

fun value_end :: "token_state \<Rightarrow> token_state" where
  "value_end ArrayStart = ArrayComma"
| "value_end ArrayValue = ArrayComma"
| "value_end ObjectValue = ObjectComma"
| "value_end s = s"

definition token_error :: go_error where
  "token_error = Err ''invalid JSON token''"

definition eof :: go_error where
  "eof = Err ''EOF''"

text \<open>Token, with the unread input as an argument so that the loop over separators is structural.\<close>

fun token_from :: "lexeme list \<Rightarrow> decoder \<Rightarrow> (token \<times> decoder) result" where
  "token_from [] d = Inl eof"
| "token_from (l # r) d =
     (case l of
        LBrack \<Rightarrow>
          if value_allowed (tok_state d)
          then Inr (Delim LBrack, d\<lparr>unread := r, tok_state := ArrayStart, tok_stack := tok_state d # tok_stack d\<rparr>)
          else Inl token_error
      | LBrace \<Rightarrow>
          if value_allowed (tok_state d)
          then Inr (Delim LBrace, d\<lparr>unread := r, tok_state := ObjectStart, tok_stack := tok_state d # tok_stack d\<rparr>)
          else Inl token_error
      | RBrack \<Rightarrow>
          if tok_state d = ArrayStart \<or> tok_state d = ArrayComma
          then Inr (Delim RBrack, d\<lparr>unread := r, tok_state := value_end (hd (tok_stack d)), tok_stack := tl (tok_stack d)\<rparr>)
          else Inl token_error
      | RBrace \<Rightarrow>
          if tok_state d = ObjectStart \<or> tok_state d = ObjectComma
          then Inr (Delim RBrace, d\<lparr>unread := r, tok_state := value_end (hd (tok_stack d)), tok_stack := tl (tok_stack d)\<rparr>)
          else Inl token_error
      | Colon \<Rightarrow>
          if tok_state d = ObjectColon then token_from r (d\<lparr>tok_state := ObjectValue\<rparr>)
          else Inl token_error
      | Comma \<Rightarrow>
          if tok_state d = ArrayComma then token_from r (d\<lparr>tok_state := ArrayValue\<rparr>)
          else if tok_state d = ObjectComma then token_from r (d\<lparr>tok_state := ObjectKey\<rparr>)
          else Inl token_error
      | LStr x \<Rightarrow>
          if tok_state d = ObjectStart \<or> tok_state d = ObjectKey
          then Inr (StringToken x, d\<lparr>unread := r, tok_state := ObjectColon\<rparr>)
          else if value_allowed (tok_state d)
          then Inr (StringToken x, d\<lparr>unread := r, tok_state := value_end (tok_state d)\<rparr>)
          else Inl token_error
      | _ \<Rightarrow>
          if value_allowed (tok_state d)
          then Inr (ScalarToken, d\<lparr>unread := r, tok_state := value_end (tok_state d)\<rparr>)
          else Inl token_error)"

definition next_token :: "decoder \<Rightarrow> (token \<times> decoder) result" where
  "next_token d = token_from (unread d) d"

definition more :: "decoder \<Rightarrow> bool" where
  "more d = (unread d \<noteq> [] \<and> hd (unread d) \<noteq> RBrack \<and> hd (unread d) \<noteq> RBrace)"

definition expect_delimiter :: "decoder \<Rightarrow> lexeme \<Rightarrow> decoder result" where
  "expect_delimiter d expected =
     andthen (wrap ''invalid JSON container'' (next_token d)) (\<lambda>(t, d').
       reject (t \<noteq> Delim expected) (Err ''expected JSON delimiter'') (Inr d'))"

definition out_of_fuel :: go_error where
  "out_of_fuel = Err ''fuel''"

fun validate_value :: "nat \<Rightarrow> decoder \<Rightarrow> nat \<Rightarrow> nat \<Rightarrow> decoder result"
  and validate_members :: "nat \<Rightarrow> string set \<Rightarrow> decoder \<Rightarrow> nat \<Rightarrow> nat \<Rightarrow> decoder result"
  and validate_elems :: "nat \<Rightarrow> decoder \<Rightarrow> nat \<Rightarrow> nat \<Rightarrow> decoder result" where
  "validate_value 0 d depth max_depth = Inl out_of_fuel"
| "validate_value (Suc n) d depth max_depth =
     reject (depth > max_depth) (Err ''JSON nesting exceeds maximum depth'')
       (andthen (wrap ''invalid JSON'' (next_token d)) (\<lambda>(t, d').
          case t of
            Delim l \<Rightarrow>
              if l = LBrace then validate_members n {} d' depth max_depth
              else if l = LBrack then validate_elems n d' depth max_depth
              else Inl (Err ''unexpected JSON delimiter'')
          | _ \<Rightarrow> Inr d'))"
| "validate_members 0 keys d depth max_depth = Inl out_of_fuel"
| "validate_members (Suc n) keys d depth max_depth =
     (if more d then
        andthen (wrap ''invalid object key'' (next_token d)) (\<lambda>(t, d').
          case t of
            StringToken k \<Rightarrow>
              reject (k \<in> keys) (Err ''duplicate JSON key'')
                (andthen (validate_value n d' (depth + 1) max_depth) (\<lambda>d'.
                   validate_members n (insert k keys) d' depth max_depth))
          | _ \<Rightarrow> Inl (Err ''object key is not a string''))
      else expect_delimiter d RBrace)"
| "validate_elems 0 d depth max_depth = Inl out_of_fuel"
| "validate_elems (Suc n) d depth max_depth =
     (if more d then
        andthen (validate_value n d (depth + 1) max_depth) (\<lambda>d'. validate_elems n d' depth max_depth)
      else expect_delimiter d RBrack)"

definition new_decoder :: "lexeme list \<Rightarrow> decoder" where
  "new_decoder ls = \<lparr>unread = ls, tok_state = TopValue, tok_stack = []\<rparr>"

definition validate :: "lexeme list \<Rightarrow> nat \<Rightarrow> unit result" where
  "validate ls max_depth =
     andthen (validate_value (2 * length ls + 1) (new_decoder ls) 1 max_depth) (\<lambda>d.
       case next_token d of
         Inr _ \<Rightarrow> Inl (Err ''unexpected data after JSON value'')
       | Inl e \<Rightarrow> if errors_is e eof then Inr () else Inl (Wrapped ''invalid trailing JSON'' e))"

definition decode_object :: "'r into \<Rightarrow> string \<Rightarrow> 'r \<Rightarrow> nat \<Rightarrow> 'r result" where
  "decode_object into data destination max_depth =
     (let trimmed = trim_space data
      in reject (trimmed = [] \<or> hd trimmed \<noteq> CHR ''{'') (Err ''expected JSON object'')
        (reject (max_depth < 1) (Err ''max depth must be positive'')
        (andthen (from_option (Err ''invalid JSON'') (lex trimmed)) (\<lambda>ls.
         andthen (validate ls max_depth) (\<lambda>_.
         andthen (from_option (Err ''unexpected data after JSON object'') (json_decode ls)) (\<lambda>v.
           from_option (Err ''json: cannot decode'') (into v destination)))))))"

subsection \<open>Every accepted walk is over one value\<close>

text \<open>
  A value is read in one of four states; \<open>separator\<close> is the lexeme that Token consumes before it
  in that state, \<open>after_value\<close> the state in which the value leaves the decoder.
\<close>

fun separator :: "token_state \<Rightarrow> lexeme list" where
  "separator ArrayComma = [Comma]"
| "separator ObjectColon = [Colon]"
| "separator s = []"

fun after_value :: "token_state \<Rightarrow> token_state" where
  "after_value ArrayStart = ArrayComma"
| "after_value ObjectColon = ObjectComma"
| "after_value s = s"

definition value_state :: "token_state \<Rightarrow> bool" where
  "value_state s = (s = TopValue \<or> s = ArrayStart \<or> s = ArrayComma \<or> s = ObjectColon)"

fun elems_text :: "token_state \<Rightarrow> json list \<Rightarrow> lexeme list" where
  "elems_text ArrayStart vs = render_elems vs"
| "elems_text s vs = render_more vs"

fun members_text :: "token_state \<Rightarrow> (string \<times> json) list \<Rightarrow> lexeme list" where
  "members_text ObjectStart ms = render_members ms"
| "members_text s ms = render_more_members ms"

definition opened :: "decoder \<Rightarrow> lexeme \<Rightarrow> token_state \<Rightarrow> decoder \<Rightarrow> bool" where
  "opened d l s d' \<longleftrightarrow>
     unread d = separator (tok_state d) @ l # unread d' \<and> tok_state d' = s
     \<and> tok_stack d' \<noteq> [] \<and> value_end (hd (tok_stack d')) = after_value (tok_state d)
     \<and> tl (tok_stack d') = tok_stack d"

definition passed :: "decoder \<Rightarrow> json \<Rightarrow> decoder \<Rightarrow> bool" where
  "passed d v d' \<longleftrightarrow>
     unread d = separator (tok_state d) @ render v @ unread d'
     \<and> tok_state d' = after_value (tok_state d) \<and> tok_stack d' = tok_stack d"

text \<open>The first lexeme of a value in a state that allows one, and the token it makes.\<close>

definition scalar_lexeme :: "lexeme \<Rightarrow> bool" where
  "scalar_lexeme l \<longleftrightarrow> (\<exists>v. render v = [l] \<and> jdepth v = 1 \<and> unique_keys v)"

lemma scalar_lexemes [simp]:
  "scalar_lexeme LNull" "scalar_lexeme LTrue" "scalar_lexeme LFalse"
  "scalar_lexeme (LNum x)" "scalar_lexeme (LStr x)"
  unfolding scalar_lexeme_def
  by (rule exI [of _ JNull], simp, rule exI [of _ "JBool True"], simp,
      rule exI [of _ "JBool False"], simp, rule exI [of _ "JNum x"], simp,
      rule exI [of _ "JStr x"], simp)

lemma token_allowed:
  assumes "token_from u d = Inr (t, d')" and "value_allowed (tok_state d)" and "t \<noteq> Delim RBrack"
  shows "\<exists>l. u = l # unread d'
    \<and> (if \<exists>x. t = Delim x
       then (t = Delim LBrace \<and> l = LBrace \<and> tok_state d' = ObjectStart
             \<or> t = Delim LBrack \<and> l = LBrack \<and> tok_state d' = ArrayStart)
            \<and> tok_stack d' = tok_state d # tok_stack d
       else scalar_lexeme l \<and> tok_state d' = value_end (tok_state d) \<and> tok_stack d' = tok_stack d)"
proof (cases u)
  case (Cons l r)
  then show ?thesis
    using assms by (cases l) (auto simp: value_allowed_def split: if_splits)
qed (use assms in simp)

lemma token_separated:
  assumes "next_token d = Inr (t, d')" and "value_state (tok_state d)" and "t \<noteq> Delim RBrack"
  shows "\<exists>r s. unread d = separator (tok_state d) @ r \<and> value_allowed s
    \<and> value_end s = after_value (tok_state d) \<and> token_from r (d\<lparr>tok_state := s\<rparr>) = Inr (t, d')"
proof -
  from assms(2) consider "tok_state d = TopValue \<or> tok_state d = ArrayStart"
    | "tok_state d = ArrayComma" | "tok_state d = ObjectColon"
    by (auto simp: value_state_def)
  then show ?thesis
  proof cases
    case 1
    then show ?thesis using assms(1)
      by (intro exI [of _ "unread d"] exI [of _ "tok_state d"])
        (auto simp: next_token_def value_allowed_def)
  next
    case 2
    with assms show ?thesis
      by (cases "unread d") (auto simp: next_token_def value_allowed_def split: lexeme.splits)
  next
    case 3
    with assms show ?thesis
      by (cases "unread d") (auto simp: next_token_def value_allowed_def split: lexeme.splits)
  qed
qed

lemma value_token:
  assumes "next_token d = Inr (t, d')" and "value_state (tok_state d)"
  shows "t = Delim LBrace \<Longrightarrow> opened d LBrace ObjectStart d'"
    and "t = Delim LBrack \<Longrightarrow> opened d LBrack ArrayStart d'"
    and "\<forall>l. t \<noteq> Delim l \<Longrightarrow> \<exists>v. passed d v d' \<and> jdepth v = 1 \<and> unique_keys v"
proof -
  have sep: "\<exists>r s. unread d = separator (tok_state d) @ r \<and> value_end s = after_value (tok_state d)
    \<and> (\<exists>l. r = l # unread d'
    \<and> (if \<exists>x. t = Delim x
       then (t = Delim LBrace \<and> l = LBrace \<and> tok_state d' = ObjectStart
             \<or> t = Delim LBrack \<and> l = LBrack \<and> tok_state d' = ArrayStart)
            \<and> tok_stack d' = s # tok_stack d
       else scalar_lexeme l \<and> tok_state d' = value_end s \<and> tok_stack d' = tok_stack d))"
    if "t \<noteq> Delim RBrack"
    using token_separated [OF assms that] token_allowed [OF _ _ that] by fastforce
  show "t = Delim LBrace \<Longrightarrow> opened d LBrace ObjectStart d'"
    "t = Delim LBrack \<Longrightarrow> opened d LBrack ArrayStart d'"
    using sep by (auto simp: opened_def)
  show "\<exists>v. passed d v d' \<and> jdepth v = 1 \<and> unique_keys v" if "\<forall>l. t \<noteq> Delim l"
  proof -
    from that sep obtain l s where "unread d = separator (tok_state d) @ l # unread d'"
      "value_end s = after_value (tok_state d)" "scalar_lexeme l"
      "tok_state d' = value_end s" "tok_stack d' = tok_stack d" by auto
    moreover from this(3) obtain v where "render v = [l]" "jdepth v = 1" "unique_keys v"
      by (auto simp: scalar_lexeme_def)
    ultimately show ?thesis by (intro exI [of _ v]) (simp add: passed_def)
  qed
qed

lemma expect_delimiter_Inr:
  assumes "expect_delimiter d l = Inr d'" and "\<not> more d" and "l = RBrack \<or> l = RBrace"
  shows "unread d = l # unread d' \<and> tok_state d' = value_end (hd (tok_stack d))
    \<and> tok_stack d' = tl (tok_stack d)"
  using assms
  by (cases "unread d"; cases "hd (unread d)")
    (auto simp: expect_delimiter_def next_token_def more_def result_simps split: if_splits)

lemma key_token:
  assumes "next_token d = Inr (StringToken k, d')" and "tok_state d = ObjectStart \<or> tok_state d = ObjectComma"
  shows "unread d = (if tok_state d = ObjectStart then [] else [Comma]) @ LStr k # unread d'
    \<and> tok_state d' = ObjectColon \<and> tok_stack d' = tok_stack d"
  using assms(2)
proof
  assume "tok_state d = ObjectStart"
  with assms(1) show ?thesis
    by (cases "unread d"; cases "hd (unread d)")
      (auto simp: next_token_def value_allowed_def split: if_splits)
next
  assume s: "tok_state d = ObjectComma"
  with assms(1) obtain r where r: "unread d = Comma # r"
    by (cases "unread d"; cases "hd (unread d)") (auto simp: next_token_def value_allowed_def)
  with s assms(1) show ?thesis
    by (cases r; cases "hd r") (auto simp: next_token_def value_allowed_def split: if_splits)
qed

definition closed_by :: "decoder \<Rightarrow> lexeme list \<Rightarrow> decoder \<Rightarrow> bool" where
  "closed_by d body d' \<longleftrightarrow>
     unread d = body @ unread d' \<and> tok_state d' = value_end (hd (tok_stack d))
     \<and> tok_stack d' = tl (tok_stack d)"

lemma opened_closed:
  assumes "opened d l s d'" and "closed_by d' body d''"
    and "render v = l # body"
  shows "passed d v d''"
  using assms by (auto simp: opened_def closed_by_def passed_def)

lemma validate_sound_aux:
  "validate_value n d depth m = Inr d' \<Longrightarrow> value_state (tok_state d) \<Longrightarrow>
     depth \<le> m \<and> (\<exists>v. passed d v d' \<and> jdepth v \<le> Suc (m - depth) \<and> unique_keys v)"
  "validate_members n keys d depth m = Inr d' \<Longrightarrow> tok_state d = ObjectStart \<or> tok_state d = ObjectComma \<Longrightarrow>
     \<exists>ms. closed_by d (members_text (tok_state d) ms @ [RBrace]) d' \<and> (\<forall>v \<in> snd ` set ms. jdepth v \<le> m - depth \<and> unique_keys v)
       \<and> distinct (map fst ms) \<and> set (map fst ms) \<inter> keys = {}"
  "validate_elems n d depth m = Inr d' \<Longrightarrow> tok_state d = ArrayStart \<or> tok_state d = ArrayComma \<Longrightarrow>
     \<exists>vs. closed_by d (elems_text (tok_state d) vs @ [RBrack]) d' \<and> (\<forall>v \<in> set vs. jdepth v \<le> m - depth \<and> unique_keys v)"
proof (induction n d depth m and n keys d depth m and n d depth m arbitrary: d' and d' and d'
    rule: validate_value_validate_members_validate_elems.induct)
  case (2 n d depth m)
  then obtain t d1 where t: "depth \<le> m" "next_token d = Inr (t, d1)"
    by (auto simp: result_simps)
  show ?case
  proof (cases "\<exists>l. t = Delim l")
    case False
    then obtain v where "passed d v d1" "jdepth v = 1" "unique_keys v"
      using value_token(3) [OF t(2)] 2 by auto
    moreover from False have "d' = d1" using 2 t by (cases t) (auto simp: result_simps)
    ultimately show ?thesis using t by auto
  next
    case True
    then consider (obj) "t = Delim LBrace" | (arr) "t = Delim LBrack"
      using 2 t by (auto simp: result_simps split: if_splits)
    then show ?thesis
    proof cases
      case obj
      then have op: "opened d LBrace ObjectStart d1" using value_token(1) [OF t(2)] 2 by simp
      have "validate_members n {} d1 depth m = Inr d'" using 2 t obj by (auto simp: result_simps)
      with 2 t obj op obtain ms where
        "closed_by d1 (render_members ms @ [RBrace]) d'"
        "\<forall>v \<in> snd ` set ms. jdepth v \<le> m - depth \<and> unique_keys v" "distinct (map fst ms)"
        by (fastforce simp: opened_def)
      with t op show ?thesis
        by (intro conjI exI [of _ "JObj ms"])
          (auto simp: jdepth_Obj list_all_iff simp del: jdepth.simps intro: opened_closed)
    next
      case arr
      then have op: "opened d LBrack ArrayStart d1" using value_token(2) [OF t(2)] 2 by simp
      have "validate_elems n d1 depth m = Inr d'" using 2 t arr by (auto simp: result_simps)
      with 2 t arr op obtain vs where
        "closed_by d1 (render_elems vs @ [RBrack]) d'"
        "\<forall>v \<in> set vs. jdepth v \<le> m - depth \<and> unique_keys v"
        by (fastforce simp: opened_def)
      with t op show ?thesis
        by (intro conjI exI [of _ "JArr vs"])
          (auto simp: jdepth_Arr list_all_iff simp del: jdepth.simps intro: opened_closed)
    qed
  qed
next
  case (4 n keys d depth m)
  show ?case
  proof (cases "more d")
    case False
    with 4 have "closed_by d [RBrace] d'"
      using expect_delimiter_Inr [of d RBrace d'] by (simp add: closed_by_def)
    with 4 show ?thesis by (intro exI [of _ "[]"]) auto
  next
    case True
    with 4(3) obtain t d1 where t: "next_token d = Inr (t, d1)" by (auto simp: result_simps)
    with 4(3) True obtain k where k': "t = StringToken k" by (cases t) (auto simp: result_simps)
    with 4(3) True t obtain d2 where k: "next_token d = Inr (StringToken k, d1)" "k \<notin> keys"
      "validate_value n d1 (depth + 1) m = Inr d2"
      "validate_members n (insert k keys) d2 depth m = Inr d'" by (auto simp: result_simps)
    note key = key_token [OF k(1) 4(4)]
    have "depth + 1 \<le> m \<and> (\<exists>v. passed d1 v d2 \<and> jdepth v \<le> Suc (m - (depth + 1)) \<and> unique_keys v)"
      by (rule 4(1) [OF True refl]) (use k key in \<open>simp_all add: value_state_def\<close>)
    then obtain v where v: "passed d1 v d2" "depth + 1 \<le> m"
      "jdepth v \<le> Suc (m - (depth + 1))" "unique_keys v" by blast
    with key have d2: "tok_state d2 = ObjectComma" by (simp add: passed_def)
    have "\<exists>ms. closed_by d2 (members_text (tok_state d2) ms @ [RBrace]) d'
      \<and> (\<forall>v \<in> snd ` set ms. jdepth v \<le> m - depth \<and> unique_keys v)
      \<and> distinct (map fst ms) \<and> set (map fst ms) \<inter> insert k keys = {}"
      by (rule 4(2) [OF True refl]) (use k d2 in simp_all)
    with d2 obtain ms where ms: "closed_by d2 (render_more_members ms @ [RBrace]) d'"
      "\<forall>v \<in> snd ` set ms. jdepth v \<le> m - depth \<and> unique_keys v" "distinct (map fst ms)"
      "set (map fst ms) \<inter> insert k keys = {}" by auto
    from key v(1) ms(1) 4(4)
    have "closed_by d (members_text (tok_state d) ((k, v) # ms) @ [RBrace]) d'"
      by (auto simp: closed_by_def passed_def)
    with v ms k(2) show ?thesis by (intro exI [of _ "(k, v) # ms"]) auto
  qed
next
  case (6 n d depth m)
  show ?case
  proof (cases "more d")
    case False
    with 6 have "closed_by d [RBrack] d'"
      using expect_delimiter_Inr [of d RBrack d'] by (simp add: closed_by_def)
    with 6 show ?thesis by (intro exI [of _ "[]"]) auto
  next
    case True
    with 6 obtain d2 where k: "validate_value n d (depth + 1) m = Inr d2"
      "validate_elems n d2 depth m = Inr d'" by (auto simp: result_simps)
    have "depth + 1 \<le> m \<and> (\<exists>v. passed d v d2 \<and> jdepth v \<le> Suc (m - (depth + 1)) \<and> unique_keys v)"
      by (rule 6(1) [OF True]) (use k 6(4) in \<open>auto simp: value_state_def\<close>)
    then obtain v where v: "passed d v d2" "depth + 1 \<le> m"
      "jdepth v \<le> Suc (m - (depth + 1))" "unique_keys v" by blast
    with 6(4) have d2: "tok_state d2 = ArrayComma" by (auto simp: passed_def)
    have "\<exists>vs. closed_by d2 (elems_text (tok_state d2) vs @ [RBrack]) d'
      \<and> (\<forall>v \<in> set vs. jdepth v \<le> m - depth \<and> unique_keys v)"
      by (rule 6(2) [OF True]) (use k d2 in simp_all)
    with d2 obtain vs where vs: "closed_by d2 (render_more vs @ [RBrack]) d'"
      "\<forall>v \<in> set vs. jdepth v \<le> m - depth \<and> unique_keys v" by auto
    from v(1) vs(1) 6(4)
    have "closed_by d (elems_text (tok_state d) (v # vs) @ [RBrack]) d'"
      by (auto simp: closed_by_def passed_def)
    with v vs show ?thesis by (intro exI [of _ "v # vs"]) auto
  qed
qed simp_all

subsection \<open>Every value within the bounds is accepted\<close>

lemma next_token_scalar:
  assumes "render v = [l]" and "value_state (tok_state d)"
    and "unread d = separator (tok_state d) @ l # r"
  shows "\<exists>t d'. next_token d = Inr (t, d') \<and> (\<forall>x. t \<noteq> Delim x) \<and> passed d v d' \<and> unread d' = r"
proof -
  have "l \<notin> {LBrack, LBrace, RBrack, RBrace, Colon, Comma}"
    using assms(1) by (cases v) (auto split: if_splits)
  then show ?thesis
    using assms
    by (cases "tok_state d"; cases l)
      (simp_all add: next_token_def value_state_def value_allowed_def passed_def)
qed

lemma next_token_open:
  assumes "l = LBrace \<or> l = LBrack" and "value_state (tok_state d)"
    and "unread d = separator (tok_state d) @ l # r"
  shows "\<exists>d'. next_token d = Inr (Delim l, d') \<and> unread d' = r
    \<and> opened d l (if l = LBrace then ObjectStart else ArrayStart) d'"
  using assms
  by (cases "tok_state d")
    (auto simp: next_token_def value_state_def value_allowed_def opened_def)

lemma next_token_key:
  assumes "tok_state d = ObjectStart \<or> tok_state d = ObjectComma"
    and "unread d = (if tok_state d = ObjectStart then [] else [Comma]) @ LStr k # r"
  shows "\<exists>d'. next_token d = Inr (StringToken k, d') \<and> unread d' = r
    \<and> tok_state d' = ObjectColon \<and> tok_stack d' = tok_stack d"
  using assms by (auto simp: next_token_def value_allowed_def)

lemma expect_delimiter_complete:
  assumes "unread d = l # r"
    and "l = RBrack \<and> (tok_state d = ArrayStart \<or> tok_state d = ArrayComma)
      \<or> l = RBrace \<and> (tok_state d = ObjectStart \<or> tok_state d = ObjectComma)"
  shows "\<not> more d \<and> (\<exists>d'. expect_delimiter d l = Inr d' \<and> closed_by d [l] d' \<and> unread d' = r)"
  using assms by (auto simp: expect_delimiter_def next_token_def more_def closed_by_def)

definition reads_value :: "nat \<Rightarrow> json \<Rightarrow> bool" where
  "reads_value m v \<longleftrightarrow>
     (\<forall>n d depth r. length (render v) < n \<longrightarrow> value_state (tok_state d)
        \<longrightarrow> unread d = separator (tok_state d) @ render v @ r \<longrightarrow> jdepth v + depth \<le> Suc m
        \<longrightarrow> (\<exists>d'. validate_value n d depth m = Inr d' \<and> passed d v d' \<and> unread d' = r))"

lemma reads_valueD:
  assumes "reads_value m v" and "unread d = separator (tok_state d) @ render v @ r"
    and "length (render v) < n" and "value_state (tok_state d)" and "jdepth v + depth \<le> Suc m"
  obtains d' where "validate_value n d depth m = Inr d'" "passed d v d'" "unread d' = r"
  using assms unfolding reads_value_def by blast

lemma render_not_closing:
  "render v = l # u \<Longrightarrow> l \<noteq> RBrack \<and> l \<noteq> RBrace"
  using render_hd [of v] by auto

lemma more_before_value:
  assumes "unread d = separator (tok_state d) @ render v @ r"
  shows "more d"
proof -
  from render_hd [of v] obtain l u where "render v = l # u" by blast
  with render_not_closing [of v] show ?thesis using assms
    by (cases "tok_state d") (auto simp: more_def)
qed

lemma validate_elems_complete:
  assumes "\<And>v. v \<in> set vs \<Longrightarrow> reads_value m v \<and> jdepth v + depth \<le> m"
    and "tok_state d = ArrayStart \<or> tok_state d = ArrayComma"
    and "unread d = elems_text (tok_state d) vs @ RBrack # r"
    and "length (unread d) < n + length r"
  shows "\<exists>d'. validate_elems n d depth m = Inr d'
    \<and> closed_by d (elems_text (tok_state d) vs @ [RBrack]) d' \<and> unread d' = r"
  using assms
proof (induction vs arbitrary: n d)
  case Nil
  then obtain k where n: "n = Suc k" by (cases n) auto
  from Nil have "unread d = RBrack # r" by auto
  from expect_delimiter_complete [OF this] Nil(2) show ?case by (auto simp: n)
next
  case (Cons v vs)
  then obtain k where n: "n = Suc k" by (cases n) auto
  have u: "unread d = separator (tok_state d) @ render v @ render_more vs @ RBrack # r"
    using Cons.prems(2,3) by auto
  then have mr: "more d" by (rule more_before_value)
  have "reads_value m v" "jdepth v + depth \<le> m" using Cons.prems(1) by auto
  then obtain d1 where d1: "validate_value k d (depth + 1) m = Inr d1" "passed d v d1"
    "unread d1 = render_more vs @ RBrack # r"
    using reads_valueD [OF _ u, of m k "depth + 1"] u Cons.prems(2,4)
    by (auto simp: n value_state_def)
  from d1(2) Cons.prems(2) have st: "tok_state d1 = ArrayComma" by (auto simp: passed_def)
  have "length (unread d1) < k + length r"
    using Cons.prems(4) d1(3) u render_hd [of v] by (auto simp: n)
  with Cons.IH [of d1 k] Cons.prems(1) st d1(3) obtain d' where
    "validate_elems k d1 depth m = Inr d'" "closed_by d1 (render_more vs @ [RBrack]) d'"
    "unread d' = r" by auto
  with d1 mr st Cons.prems(2,3) show ?case by (auto simp: n closed_by_def passed_def)
qed

lemma validate_members_complete:
  assumes "\<And>v. v \<in> snd ` set ms \<Longrightarrow> reads_value m v \<and> jdepth v + depth \<le> m"
    and "tok_state d = ObjectStart \<or> tok_state d = ObjectComma"
    and "unread d = members_text (tok_state d) ms @ RBrace # r"
    and "length (unread d) < n + length r"
    and "distinct (map fst ms)" and "set (map fst ms) \<inter> keys = {}"
  shows "\<exists>d'. validate_members n keys d depth m = Inr d'
    \<and> closed_by d (members_text (tok_state d) ms @ [RBrace]) d' \<and> unread d' = r"
  using assms
proof (induction ms arbitrary: n d keys)
  case Nil
  then obtain k where n: "n = Suc k" by (cases n) auto
  from Nil have "unread d = RBrace # r" by auto
  from expect_delimiter_complete [OF this] Nil(2) show ?case by (auto simp: n)
next
  case (Cons mv ms)
  obtain x v where mv: "mv = (x, v)" by force
  from Cons.prems obtain k where n: "n = Suc k" by (cases n) auto
  have u: "unread d = (if tok_state d = ObjectStart then [] else [Comma])
      @ LStr x # Colon # render v @ render_more_members ms @ RBrace # r"
    using Cons.prems(2,3) by (auto simp: mv)
  then have mr: "more d" by (auto simp: more_def)
  from next_token_key [OF Cons.prems(2) u] obtain d0 where d0:
    "next_token d = Inr (StringToken x, d0)"
    "unread d0 = Colon # render v @ render_more_members ms @ RBrace # r"
    "tok_state d0 = ObjectColon" "tok_stack d0 = tok_stack d" by blast
  have "reads_value m v" "jdepth v + depth \<le> m" using Cons.prems(1) by (auto simp: mv)
  moreover have "length (render v) < k" using Cons.prems(4) u by (auto simp: n split: if_splits)
  ultimately obtain d1 where d1: "validate_value k d0 (depth + 1) m = Inr d1" "passed d0 v d1"
    "unread d1 = render_more_members ms @ RBrace # r"
    using reads_valueD [of m v d0 "render_more_members ms @ RBrace # r" k "depth + 1"] d0
    by (auto simp: value_state_def)
  from d1(2) d0(3) have st: "tok_state d1 = ObjectComma" by (auto simp: passed_def)
  have "length (unread d1) < k + length r"
    using Cons.prems(4) d1(3) u render_length [of v] by (auto simp: n split: if_splits)
  with Cons.IH [of d1 k "insert x keys"] Cons.prems(1,5,6) st d1(3) obtain d' where
    "validate_members k (insert x keys) d1 depth m = Inr d'"
    "closed_by d1 (render_more_members ms @ [RBrace]) d'" "unread d' = r" by (auto simp: mv)
  with d0 d1 mr st u Cons.prems(2,3,6) show ?case by (auto simp: n mv closed_by_def passed_def)
qed

lemma reads_scalar:
  assumes "render v = [l]" and "jdepth v = 1"
  shows "reads_value m v"
  unfolding reads_value_def
proof (intro allI impI)
  fix n depth r and d :: decoder
  assume n: "length (render v) < n" and st: "value_state (tok_state d)"
    and u: "unread d = separator (tok_state d) @ render v @ r" and dp: "jdepth v + depth \<le> Suc m"
  from n obtain k where k: "n = Suc k" by (cases n) auto
  from next_token_scalar [OF assms(1), of d r] st u assms(1) obtain t d' where
    "next_token d = Inr (t, d')" "\<forall>x. t \<noteq> Delim x" "passed d v d'" "unread d' = r" by auto
  with dp assms(2) show "\<exists>d'. validate_value n d depth m = Inr d' \<and> passed d v d' \<and> unread d' = r"
    by (cases t) (auto simp: k)
qed

lemma jdepth_member:
  "v \<in> set vs \<Longrightarrow> jdepth v < jdepth (JArr vs)"
  "v \<in> snd ` set ms \<Longrightarrow> jdepth v < jdepth (JObj ms)"
  using jdepth_Arr [of vs "foldr max (map jdepth vs) 0"]
    jdepth_Obj [of ms "foldr max (map (\<lambda>m. jdepth (snd m)) ms) 0"] by auto

lemma validate_value_complete: "unique_keys v \<Longrightarrow> reads_value m v"
proof (induction v)
  case (JArr vs)
  show ?case unfolding reads_value_def
  proof (intro allI impI)
    fix n depth r and d :: decoder
    assume n: "length (render (JArr vs)) < n" and st: "value_state (tok_state d)"
      and u: "unread d = separator (tok_state d) @ render (JArr vs) @ r"
      and dp: "jdepth (JArr vs) + depth \<le> Suc m"
    from n obtain k where k: "n = Suc k" by (cases n) auto
    from dp have dv: "jdepth v + depth \<le> m" if "v \<in> set vs" for v
      using jdepth_member(1) [OF that] by linarith
    from u next_token_open [of LBrack d "render_elems vs @ RBrack # r"] st obtain d0 where d0:
      "next_token d = Inr (Delim LBrack, d0)" "unread d0 = render_elems vs @ RBrack # r"
      "opened d LBrack ArrayStart d0" by auto
    then have s0: "tok_state d0 = ArrayStart" by (simp add: opened_def)
    with validate_elems_complete [of vs m depth d0 r k] JArr dv d0(2) n obtain d' where d':
      "validate_elems k d0 depth m = Inr d'" "closed_by d0 (render_elems vs @ [RBrack]) d'" "unread d' = r"
      by (fastforce simp: k list_all_iff)
    with d0 dp show "\<exists>d'. validate_value n d depth m = Inr d' \<and> passed d (JArr vs) d' \<and> unread d' = r"
      using opened_closed [OF d0(3) d'(2)] by (simp add: k)
  qed
next
  case (JObj ms)
  show ?case unfolding reads_value_def
  proof (intro allI impI)
    fix n depth r and d :: decoder
    assume n: "length (render (JObj ms)) < n" and st: "value_state (tok_state d)"
      and u: "unread d = separator (tok_state d) @ render (JObj ms) @ r"
      and dp: "jdepth (JObj ms) + depth \<le> Suc m"
    from n obtain k where k: "n = Suc k" by (cases n) auto
    from dp have dv: "jdepth v + depth \<le> m" if "v \<in> snd ` set ms" for v
      using jdepth_member(2) [OF that] by linarith
    have rv: "reads_value m v" if "v \<in> snd ` set ms" for v
      using that JObj by (fastforce simp: list_all_iff snds.simps)
    from u next_token_open [of LBrace d "render_members ms @ RBrace # r"] st obtain d0 where d0:
      "next_token d = Inr (Delim LBrace, d0)" "unread d0 = render_members ms @ RBrace # r"
      "opened d LBrace ObjectStart d0" by auto
    then have s0: "tok_state d0 = ObjectStart" by (simp add: opened_def)
    with validate_members_complete [of ms m depth d0 r k "{}"] JObj.prems rv dv d0(2) n obtain d' where d':
      "validate_members k {} d0 depth m = Inr d'" "closed_by d0 (render_members ms @ [RBrace]) d'" "unread d' = r"
      by (fastforce simp: k)
    with d0 dp show "\<exists>d'. validate_value n d depth m = Inr d' \<and> passed d (JObj ms) d' \<and> unread d' = r"
      using opened_closed [OF d0(3) d'(2)] by (simp add: k)
  qed
qed (auto intro: reads_scalar)

text \<open>
  The token walk accepts a sequence of lexemes exactly when it is one JSON value, nested no
  deeper than the bound, without a repeated key in any object.
\<close>

lemma validate_accepts:
  "validate ls m = Inr () \<longleftrightarrow> (\<exists>v. ls = render v \<and> jdepth v \<le> m \<and> unique_keys v)"
proof
  assume "validate ls m = Inr ()"
  then obtain d where d: "validate_value (2 * length ls + 1) (new_decoder ls) 1 m = Inr d"
    and "(case next_token d of
         Inr _ \<Rightarrow> Inl (Err ''unexpected data after JSON value'')
       | Inl e \<Rightarrow> if errors_is e eof then Inr () else Inl (Wrapped ''invalid trailing JSON'' e)) = Inr ()"
    unfolding validate_def andthen_Inr by blast
  then have e: "\<exists>e. next_token d = Inl e \<and> errors_is e eof"
    by (auto split: sum.splits if_splits)
  from validate_sound_aux(1) [OF d] obtain v where v: "1 \<le> m" "passed (new_decoder ls) v d"
    "jdepth v \<le> Suc (m - 1)" "unique_keys v" by (auto simp: value_state_def new_decoder_def)
  then have s: "tok_state d = TopValue" "ls = render v @ unread d"
    by (simp_all add: passed_def new_decoder_def)
  moreover have "unread d = []"
  proof (cases "unread d")
    case (Cons l r)
    then show ?thesis using e s(1)
      by (cases l) (auto simp: next_token_def value_allowed_def eof_def token_error_def)
  qed
  ultimately show "\<exists>v. ls = render v \<and> jdepth v \<le> m \<and> unique_keys v"
    using v by (intro exI [of _ v]) auto
next
  assume "\<exists>v. ls = render v \<and> jdepth v \<le> m \<and> unique_keys v"
  then obtain v where v: "ls = render v" "jdepth v \<le> m" "unique_keys v" by blast
  then obtain d' where "validate_value (2 * length ls + 1) (new_decoder ls) 1 m = Inr d'"
      "passed (new_decoder ls) v d'" "unread d' = []"
    using reads_valueD [OF validate_value_complete, of v "new_decoder ls" "[]" "2 * length ls + 1" 1 m]
    by (auto simp: new_decoder_def value_state_def)
  then show "validate ls m = Inr ()"
    by (auto simp: validate_def next_token_def eof_def)
qed

subsection \<open>Termination\<close>

text \<open>
  Every token that is read shortens the unread input, and so does every value; the loops never
  lengthen it.
\<close>

lemma next_token_shorter:
  "next_token d = Inr (t, d') \<Longrightarrow> length (unread d') < length (unread d)"
proof -
  have "token_from ls d = Inr (t, d') \<Longrightarrow> length (unread d') < length ls" for ls
    by (induction ls d rule: token_from.induct) (auto split: lexeme.splits if_splits)
  then show "next_token d = Inr (t, d') \<Longrightarrow> length (unread d') < length (unread d)"
    by (simp add: next_token_def)
qed

lemma expect_delimiter_shorter:
  "expect_delimiter d l = Inr d' \<Longrightarrow> length (unread d') < length (unread d)"
  by (auto simp: expect_delimiter_def result_simps dest: next_token_shorter)

lemma walk_shorter:
  shows "validate_value n d depth m = Inr d' \<Longrightarrow> length (unread d') < length (unread d)"
    and "validate_members n keys d depth m = Inr d' \<Longrightarrow> length (unread d') < length (unread d)"
    and "validate_elems n d depth m = Inr d' \<Longrightarrow> length (unread d') < length (unread d)"
proof (induction n arbitrary: d keys depth d')
  case (Suc n)
  note tok = next_token_shorter expect_delimiter_shorter
  {
    case 1
    then obtain t d1 where t: "next_token d = Inr (t, d1)" by (auto simp: result_simps)
    with 1 show ?case
      by (cases t) (auto simp: result_simps split: if_splits
          dest!: tok Suc.IH(2) Suc.IH(3))
  next
    case 2
    show ?case
    proof (cases "more d")
      case True
      with 2 obtain t d1 where t: "next_token d = Inr (t, d1)" by (auto simp: result_simps)
      with 2 True show ?thesis
        by (cases t) (auto simp: result_simps dest!: tok Suc.IH(1) Suc.IH(2))
    qed (use 2 in \<open>auto dest: tok\<close>)
  next
    case 3
    then consider "expect_delimiter d RBrack = Inr d'"
      | d1 where "validate_value n d (depth + 1) m = Inr d1" "validate_elems n d1 depth m = Inr d'"
      by (auto simp: result_simps split: if_splits)
    then show ?case
      by cases (auto dest!: tok Suc.IH(1) Suc.IH(3))
  }
qed simp_all

text \<open>
  With the fuel of its bound a call does not run out of it, and any more fuel gives the same
  result. A value over n lexemes needs 2n + 1, the loop over elements one more because it opens a
  value without having read anything.
\<close>

lemma expect_delimiter_fuel [simp]: "expect_delimiter d l \<noteq> Inl out_of_fuel"
  by (cases "next_token d")
    (auto simp: expect_delimiter_def out_of_fuel_def result_simps split: prod.splits)

lemma other_errors [simp]:
  "Wrapped s e \<noteq> out_of_fuel"
  "Err ''JSON nesting exceeds maximum depth'' \<noteq> out_of_fuel"
  "Err ''unexpected JSON delimiter'' \<noteq> out_of_fuel"
  "Err ''duplicate JSON key'' \<noteq> out_of_fuel"
  "Err ''object key is not a string'' \<noteq> out_of_fuel"
  by (simp_all add: out_of_fuel_def)

lemma andthen_settled:
  assumes "r \<noteq> Inl e" and "\<And>x. r = Inr x \<Longrightarrow> f x \<noteq> Inl e \<and> g x = f x"
  shows "andthen r f \<noteq> Inl e \<and> andthen r g = andthen r f"
  using assms by (cases r) auto

lemma walk_settled:
  shows "2 * length (unread d) < n \<Longrightarrow>
      validate_value n d depth m \<noteq> Inl out_of_fuel
      \<and> validate_value (n + k) d depth m = validate_value n d depth m"
    and "2 * length (unread d) < n \<Longrightarrow>
      validate_members n keys d depth m \<noteq> Inl out_of_fuel
      \<and> validate_members (n + k) keys d depth m = validate_members n keys d depth m"
    and "2 * length (unread d) + 1 < n \<Longrightarrow>
      validate_elems n d depth m \<noteq> Inl out_of_fuel
      \<and> validate_elems (n + k) d depth m = validate_elems n d depth m"
proof (induction n arbitrary: d keys depth)
  case (Suc n)
  note of_value = Suc.IH(1) and of_members = Suc.IH(2) and of_elems = Suc.IH(3)
  {
    case 1
    show ?case
    proof (cases "next_token d")
      case (Inr td)
      obtain t d1 where t: "td = (t, d1)" by fastforce
      with Inr 1 have "2 * length (unread d1) + 1 < n" by (auto dest!: next_token_shorter)
      with Inr t of_members [of d1 "{}" depth] of_elems [of d1 depth] show ?thesis
        by (cases t) (auto simp: reject_def)
    qed (auto simp: reject_def)
  next
    case 2
    show ?case
    proof (cases "next_token d")
      case (Inr td)
      obtain t d1 where t: "td = (t, d1)" by fastforce
      with Inr 2 have d1: "2 * length (unread d1) < n" by (auto dest!: next_token_shorter)
      have "andthen (validate_value n d1 (depth + 1) m) (\<lambda>d2. validate_members n (insert x keys) d2 depth m)
            \<noteq> Inl out_of_fuel
          \<and> andthen (validate_value n d1 (depth + 1) m)
              (\<lambda>d2. validate_members (n + k) (insert x keys) d2 depth m)
            = andthen (validate_value n d1 (depth + 1) m)
              (\<lambda>d2. validate_members n (insert x keys) d2 depth m)" for x
        using d1 of_value [OF d1] of_members by (intro andthen_settled) (auto dest!: walk_shorter(1))
      with Inr t of_value [OF d1] show ?thesis
        by (cases t) (auto simp: reject_def)
    qed simp_all
  next
    case 3
    then have d: "2 * length (unread d) < n" by simp
    have "andthen (validate_value n d (depth + 1) m) (\<lambda>d2. validate_elems n d2 depth m)
          \<noteq> Inl out_of_fuel
        \<and> andthen (validate_value n d (depth + 1) m) (\<lambda>d2. validate_elems (n + k) d2 depth m)
          = andthen (validate_value n d (depth + 1) m) (\<lambda>d2. validate_elems n d2 depth m)"
      using 3 of_value [OF d] of_elems by (intro andthen_settled) (auto dest!: walk_shorter(1))
    with of_value [OF d] show ?case by auto
  }
qed simp_all

lemma walk_terminates:
  "validate_value (2 * length ls + 1 + k) (new_decoder ls) depth m
     = validate_value (2 * length ls + 1) (new_decoder ls) depth m"
  "validate_value (2 * length ls + 1) (new_decoder ls) depth m \<noteq> Inl out_of_fuel"
  using walk_settled(1) [of "new_decoder ls" "2 * length ls + 1"] by (simp_all add: new_decoder_def)

text \<open>DecodeObject returns exactly the typed value of a strict object.\<close>

definition strict_json :: "string \<Rightarrow> nat \<Rightarrow> json \<Rightarrow> bool" where
  "strict_json data m v \<longleftrightarrow>
     lex (trim_space data) = Some (render v) \<and> (\<exists>ms. v = JObj ms) \<and> jdepth v \<le> m \<and> unique_keys v"

lemma lex_brace:
  assumes "lex s = Some (render v)" and "s \<noteq> []" and "hd s = CHR ''{''"
  shows "\<exists>ms. v = JObj ms"
proof -
  obtain r where s: "s = CHR ''{'' # r" using assms(2,3) by (cases s) auto
  have "\<not> json_space CHR ''{''" by code_simp
  with assms(1) obtain ls where "LBrace # ls = render v"
    by (auto simp: s next_lexeme_def)
  then show ?thesis by (cases v) (auto split: if_splits)
qed

lemma render_inject: "render u = render v \<longleftrightarrow> u = v"
  using json_decode_iff [of "render u" v] json_decode_iff [of "render u" u] by auto

lemma decode_object_Inr:
  "decode_object into data r m = Inr x \<longleftrightarrow>
     trim_space data \<noteq> [] \<and> hd (trim_space data) = CHR ''{'' \<and>
     (\<exists>v. strict_json data m v \<and> into v r = Some x)"
proof -
  have "m < 1 \<Longrightarrow> jdepth v \<le> m \<Longrightarrow> False" for v using jdepth_pos [of v] by simp
  then show ?thesis
    using lex_brace [of "trim_space data"]
    by (auto simp: decode_object_def Let_def result_simps validate_accepts strict_json_def
        json_decode_iff render_inject)
qed

lemma decode_object_strict:
  assumes "decode_object into data r m = Inr x"
  obtains ms where "strict_json data m (JObj ms)" "into (JObj ms) r = Some x" "distinct (map fst ms)"
  using assms by (auto simp: decode_object_Inr strict_json_def)

end
