(* ===== verification/Go_Patterns.thy ===== *)
theory Go_Patterns
  imports Go_Codec
begin

section \<open>The shapes of the regular expressions\<close>

text \<open>
  Every regular expression of the program is anchored at both ends and is a character class
  with a repetition bound, with a first character of its own class in most of them. Two
  combinators cover them: \<open>class_string\<close> for \<open>^[C]{lo,hi}$\<close> and \<open>ident_string\<close> for
  \<open>^[H][T]{0,n}$\<close>. The expressions themselves are definitions of the components that own them.
\<close>

definition is_lower :: "char \<Rightarrow> bool" where
  "is_lower c = (let n = of_char c :: nat in 97 \<le> n \<and> n \<le> 122)"

definition is_upper :: "char \<Rightarrow> bool" where
  "is_upper c = (let n = of_char c :: nat in 65 \<le> n \<and> n \<le> 90)"

definition is_alnum :: "char \<Rightarrow> bool" where
  "is_alnum c = (is_lower c \<or> is_upper c \<or> is_digit c)"

definition is_any_hex :: "char \<Rightarrow> bool" where
  "is_any_hex c = (let n = of_char c :: nat
     in (48 \<le> n \<and> n \<le> 57) \<or> (97 \<le> n \<and> n \<le> 102) \<or> (65 \<le> n \<and> n \<le> 70))"

definition class_string :: "(char \<Rightarrow> bool) \<Rightarrow> nat \<Rightarrow> nat \<Rightarrow> string \<Rightarrow> bool" where
  "class_string C lo hi s = (lo \<le> length s \<and> length s \<le> hi \<and> list_all C s)"

definition ident_string :: "(char \<Rightarrow> bool) \<Rightarrow> (char \<Rightarrow> bool) \<Rightarrow> nat \<Rightarrow> string \<Rightarrow> bool" where
  "ident_string H T n s = (case s of [] \<Rightarrow> False | c # cs \<Rightarrow> H c \<and> class_string T 0 n cs)"

definition one_of :: "string \<Rightarrow> string list \<Rightarrow> bool" where
  "one_of v allowed = list_ex (\<lambda>c. v = c) allowed"

definition opaque_key_pattern :: "string \<Rightarrow> bool" where
  "opaque_key_pattern s = class_string is_lower_hex 64 64 s"

lemma one_of_iff [simp]: "one_of v allowed \<longleftrightarrow> v \<in> set allowed"
  by (auto simp: one_of_def list_ex_iff)

lemma class_string_iff: "class_string C lo hi s \<longleftrightarrow> lo \<le> length s \<and> length s \<le> hi \<and> (\<forall>c \<in> set s. C c)"
  by (simp add: class_string_def list_all_iff)

lemma class_string_notin: "class_string C lo hi s \<Longrightarrow> \<not> C c \<Longrightarrow> c \<notin> set s"
  by (auto simp: class_string_iff)

lemma ident_string_notin: "ident_string H T n s \<Longrightarrow> \<not> H c \<Longrightarrow> \<not> T c \<Longrightarrow> c \<notin> set s"
  by (auto simp: ident_string_def class_string_iff split: list.splits)

lemma ident_string_not_Nil [simp]: "\<not> ident_string H T n []"
  by (simp add: ident_string_def)

lemma ident_string_length: "ident_string H T n s \<Longrightarrow> 0 < length s \<and> length s \<le> Suc n"
  by (auto simp: ident_string_def class_string_def split: list.splits)

lemma opaque_key_hex_encode: "length d = 32 \<Longrightarrow> opaque_key_pattern (hex_encode d)"
  by (simp add: opaque_key_pattern_def class_string_def)

lemma opaque_key_no_dot: "opaque_key_pattern s \<Longrightarrow> CHR ''.'' \<notin> set s"
  unfolding opaque_key_pattern_def by (rule class_string_notin) auto

lemma opaque_key_not_dash: "opaque_key_pattern s \<Longrightarrow> s \<noteq> ''-''"
  by (auto simp: opaque_key_pattern_def class_string_def)

lemma opaque_key_not_Nil: "\<not> opaque_key_pattern []"
  by (simp add: opaque_key_pattern_def class_string_def)

end
