(* ===== verification/Go_Time.thy ===== *)
theory Go_Time
  imports Go_Strings
begin

section \<open>Instants, durations and RFC 3339 timestamps\<close>

text \<open>
  A time.Time is the instant it denotes, in nanoseconds since the Unix epoch (an \<open>int\<close>); the
  program only compares instants, adds durations and normalises to UTC, so the location and the
  monotonic reading play no part. A time.Duration is an \<open>int\<close> of nanoseconds. \<open>unix_time\<close> is
  time.Unix(sec, 0) with its 64-bit wrap-around of the seconds since year 1, \<open>time_sub\<close> is
  Time.Sub with its saturation, \<open>parse_rfc3339\<close> is time.Parse with layout RFC3339Nano. The
  parser is the one of package time, which is laxer than RFC 3339: one-digit hours, a comma
  before the fraction, offsets up to 24:60, and digits of the fraction after the ninth ignored.
\<close>

type_synonym time = int
type_synonym duration = int

definition millisecond :: duration where "millisecond = 1000000"
definition second :: duration where "second = 1000000000"
definition minute :: duration where "minute = 60 * second"
definition hour :: duration where "hour = 60 * minute"
definition day :: duration where "day = 24 * hour"

lemmas duration_defs = millisecond_def second_def minute_def hour_def day_def

definition wrap64 :: "int \<Rightarrow> int" where
  "wrap64 i = (i + 2 ^ 63) mod 2 ^ 64 - 2 ^ 63"

definition saturate64 :: "int \<Rightarrow> int" where
  "saturate64 i = max (- (2 ^ 63)) (min (2 ^ 63 - 1) i)"

definition unix_to_internal :: int where
  "unix_to_internal = 62135596800"

definition unix_time :: "int \<Rightarrow> time" where
  "unix_time sec = (wrap64 (sec + unix_to_internal) - unix_to_internal) * second"

definition unix_seconds :: "time \<Rightarrow> int" where
  "unix_seconds t = t div second"

definition time_sub :: "time \<Rightarrow> time \<Rightarrow> duration" where
  "time_sub t u = saturate64 (t - u)"

definition truncate_to :: "time \<Rightarrow> duration \<Rightarrow> time" where
  "truncate_to t d = t - t mod d"

definition nanosecond :: "time \<Rightarrow> int" where
  "nanosecond t = t mod second"

lemma wrap64_id: "in_int64 i \<Longrightarrow> wrap64 i = i"
  by (simp add: wrap64_def in_int64_def)

text \<open>The instants whose Unix seconds neither overflow int64 nor wrap in time.Unix.\<close>

definition representable :: "time \<Rightarrow> bool" where
  "representable t \<longleftrightarrow> - (2 ^ 62) \<le> unix_seconds t \<and> unix_seconds t < 2 ^ 62"

lemma representable_in_int64: "representable t \<Longrightarrow> in_int64 (unix_seconds t)"
  by (simp add: representable_def in_int64_def)

lemma unix_time_seconds:
  "representable t \<Longrightarrow> unix_time (unix_seconds t) = truncate_to t second"
  by (simp add: representable_def unix_time_def unix_to_internal_def wrap64_id in_int64_def
      unix_seconds_def truncate_to_def minus_mod_eq_div_mult)

lemma truncate_to_le: "0 < d \<Longrightarrow> truncate_to t d \<le> t"
  by (simp add: truncate_to_def)

lemma truncate_to_gt: "0 < d \<Longrightarrow> t - d < truncate_to t d"
  by (simp add: truncate_to_def)

lemma truncate_to_idem: "truncate_to (truncate_to t d) d = truncate_to t d"
  by (simp add: truncate_to_def minus_mod_eq_mult_div)

lemma truncate_to_mod: "truncate_to t d mod d = 0"
  by (simp add: truncate_to_def minus_mod_eq_mult_div)

lemma nanosecond_millisecond: "nanosecond t mod millisecond = t mod millisecond"
  by (simp add: nanosecond_def duration_defs mod_mod_cancel)

lemma unix_seconds_mono: "t \<le> u \<Longrightarrow> unix_seconds t \<le> unix_seconds u"
  by (simp add: unix_seconds_def second_def zdiv_mono1)

lemma unix_seconds_truncate [simp]: "unix_seconds (truncate_to t second) = unix_seconds t"
  by (simp add: unix_seconds_def truncate_to_def minus_mod_eq_mult_div second_def)

lemma time_sub_within:
  "0 \<le> m \<Longrightarrow> m < 2 ^ 63 - 1 \<Longrightarrow> - m \<le> time_sub t u \<and> time_sub t u \<le> m \<longleftrightarrow> \<bar>t - u\<bar> \<le> m"
  by (auto simp: time_sub_def saturate64_def)

subsection \<open>The civil calendar\<close>

definition leap_year :: "int \<Rightarrow> bool" where
  "leap_year y \<longleftrightarrow> y mod 4 = 0 \<and> (y mod 100 \<noteq> 0 \<or> y mod 400 = 0)"

definition days_in :: "int \<Rightarrow> int \<Rightarrow> int" where
  "days_in m y = (if m = 2 then if leap_year y then 29 else 28 else if m \<in> {4, 6, 9, 11} then 30 else 31)"

text \<open>Days since 1970-01-01 of a date of the proleptic Gregorian calendar.\<close>

definition days_from_civil :: "int \<Rightarrow> int \<Rightarrow> int \<Rightarrow> int" where
  "days_from_civil y m d =
     (let y' = (if m \<le> 2 then y - 1 else y);
          m' = (if m \<le> 2 then m + 9 else m - 3);
          yoe = y' mod 400;
          doy = (153 * m' + 2) div 5 + d - 1
      in y' div 400 * 146097 + yoe * 365 + yoe div 4 - yoe div 100 + doy - 719468)"

definition date_utc :: "int \<Rightarrow> int \<Rightarrow> int \<Rightarrow> time" where
  "date_utc y m d = days_from_civil y m d * day"

subsection \<open>time.Parse with layout RFC3339Nano\<close>

text \<open>getnum: one or two digits; with \<open>fixed\<close>, exactly two.\<close>

definition getnum :: "bool \<Rightarrow> string \<Rightarrow> (int \<times> string) option" where
  "getnum fixed s =
     (case s of
        [] \<Rightarrow> None
      | a # r \<Rightarrow>
          if \<not> is_digit a then None
          else (case r of
                  b # r' \<Rightarrow>
                    if is_digit b then Some (10 * digit_val a + digit_val b, r')
                    else if fixed then None else Some (digit_val a, r)
                | [] \<Rightarrow> if fixed then None else Some (digit_val a, [])))"

definition skip_char :: "char \<Rightarrow> string \<Rightarrow> string option" where
  "skip_char c s = (case s of x # r \<Rightarrow> if x = c then Some r else None | [] \<Rightarrow> None)"

definition parse_year :: "string \<Rightarrow> (int \<times> string) option" where
  "parse_year s =
     (if 4 \<le> length s \<and> list_all is_digit (take 4 s)
      then Some (digits_value 0 (take 4 s), drop 4 s) else None)"

text \<open>The fraction: a period or comma and digits, of which the first nine count.\<close>

definition parse_fraction :: "string \<Rightarrow> int \<times> string" where
  "parse_fraction s =
     (case s of
        c # d # r \<Rightarrow>
          if (c = CHR ''.'' \<or> c = CHR '','') \<and> is_digit d
          then (let ds = takeWhile is_digit (d # r); used = take 9 ds
                in (digits_value 0 used * 10 ^ (9 - length used), drop (length ds) (d # r)))
          else (0, s)
      | _ \<Rightarrow> (0, s))"

text \<open>The zone: \<open>Z\<close> or a signed offset; the result is the offset in seconds.\<close>

definition parse_zone :: "string \<Rightarrow> (int \<times> string) option" where
  "parse_zone s =
     (if s \<noteq> [] \<and> hd s = CHR ''Z'' then Some (0, tl s)
      else if length s < 6 \<or> s ! 3 \<noteq> CHR '':'' then None
      else case (getnum True (take 2 (drop 1 s)), getnum True (take 2 (drop 4 s))) of
             (Some (hr, _), Some (mm, _)) \<Rightarrow>
               if 24 < hr \<or> 60 < mm then None
               else if s ! 0 = CHR ''+'' then Some ((hr * 60 + mm) * 60, drop 6 s)
               else if s ! 0 = CHR ''-'' then Some (- ((hr * 60 + mm) * 60), drop 6 s)
               else None
           | _ \<Rightarrow> None)"

definition parse_rfc3339 :: "string \<Rightarrow> time option" where
  "parse_rfc3339 s =
     Option.bind (parse_year s) (\<lambda>(y, s).
     Option.bind (skip_char (CHR ''-'') s) (\<lambda>s.
     Option.bind (getnum True s) (\<lambda>(m, s).
     Option.bind (skip_char (CHR ''-'') s) (\<lambda>s.
     Option.bind (getnum True s) (\<lambda>(d, s).
     Option.bind (skip_char (CHR ''T'') s) (\<lambda>s.
     Option.bind (getnum False s) (\<lambda>(h, s).
     Option.bind (skip_char (CHR '':'') s) (\<lambda>s.
     Option.bind (getnum True s) (\<lambda>(mi, s).
     Option.bind (skip_char (CHR '':'') s) (\<lambda>s.
     Option.bind (getnum True s) (\<lambda>(sec, s).
     (case parse_fraction s of (nsec, s) \<Rightarrow>
     Option.bind (parse_zone s) (\<lambda>(off, s).
       if m < 1 \<or> 12 < m \<or> 24 \<le> h \<or> 60 \<le> mi \<or> 60 \<le> sec \<or> d < 1 \<or> days_in m y < d \<or> s \<noteq> []
       then None
       else Some (days_from_civil y m d * day + h * hour + mi * minute + (sec - off) * second + nsec)
     )))))))))))))"

lemma parse_rfc3339_example:
  "parse_rfc3339 ''2026-07-21T12:00:00Z'' = Some 1784635200000000000"
  by code_simp

lemma date_utc_bounds:
  "date_utc 2020 1 1 = 1577836800000000000" "date_utc 2100 1 1 = 4102444800000000000"
  by code_simp+

end
