(* ===== verification/Go_Crypto.thy ===== *)
theory Go_Crypto
  imports Go_Codec
begin

section \<open>SHA-256 and HMAC-SHA-256\<close>

text \<open>
  crypto/sha256 (Sum256) and crypto/hmac (New with sha256, Write, Sum, Equal), which the standard
  library specifies as FIPS 180-4 and FIPS 198-1: \<open>sha256\<close> pads the message, folds the compression
  function over its 64-byte blocks and writes the eight 32-bit words big-endian; the message
  schedule is a sliding window of sixteen words. hmac.Equal is equality of byte strings. What the
  components need is the length of a digest (\<open>length_sha256\<close>, \<open>length_hmac_sha256\<close>); nothing about
  collisions or forgeries is assumed or proved.
\<close>

unbundle bit_operations_syntax

type_synonym w32 = "32 word"
type_synonym sha_state = "w32 \<times> w32 \<times> w32 \<times> w32 \<times> w32 \<times> w32 \<times> w32 \<times> w32"

definition sha256_constants :: "w32 list" where
  "sha256_constants =
   [0x428A2F98, 0x71374491, 0xB5C0FBCF, 0xE9B5DBA5, 0x3956C25B, 0x59F111F1, 0x923F82A4, 0xAB1C5ED5,
    0xD807AA98, 0x12835B01, 0x243185BE, 0x550C7DC3, 0x72BE5D74, 0x80DEB1FE, 0x9BDC06A7, 0xC19BF174,
    0xE49B69C1, 0xEFBE4786, 0x0FC19DC6, 0x240CA1CC, 0x2DE92C6F, 0x4A7484AA, 0x5CB0A9DC, 0x76F988DA,
    0x983E5152, 0xA831C66D, 0xB00327C8, 0xBF597FC7, 0xC6E00BF3, 0xD5A79147, 0x06CA6351, 0x14292967,
    0x27B70A85, 0x2E1B2138, 0x4D2C6DFC, 0x53380D13, 0x650A7354, 0x766A0ABB, 0x81C2C92E, 0x92722C85,
    0xA2BFE8A1, 0xA81A664B, 0xC24B8B70, 0xC76C51A3, 0xD192E819, 0xD6990624, 0xF40E3585, 0x106AA070,
    0x19A4C116, 0x1E376C08, 0x2748774C, 0x34B0BCB5, 0x391C0CB3, 0x4ED8AA4A, 0x5B9CCA4F, 0x682E6FF3,
    0x748F82EE, 0x78A5636F, 0x84C87814, 0x8CC70208, 0x90BEFFFA, 0xA4506CEB, 0xBEF9A3F7, 0xC67178F2]"

definition sha256_initial :: sha_state where
  "sha256_initial = (0x6A09E667, 0xBB67AE85, 0x3C6EF372, 0xA54FF53A,
     0x510E527F, 0x9B05688C, 0x1F83D9AB, 0x5BE0CD19)"

definition sigma0 :: "w32 \<Rightarrow> w32" where
  "sigma0 x = word_rotr 7 x XOR word_rotr 18 x XOR drop_bit 3 x"

definition sigma1 :: "w32 \<Rightarrow> w32" where
  "sigma1 x = word_rotr 17 x XOR word_rotr 19 x XOR drop_bit 10 x"

definition sum0 :: "w32 \<Rightarrow> w32" where
  "sum0 x = word_rotr 2 x XOR word_rotr 13 x XOR word_rotr 22 x"

definition sum1 :: "w32 \<Rightarrow> w32" where
  "sum1 x = word_rotr 6 x XOR word_rotr 11 x XOR word_rotr 25 x"

fun sha_round :: "w32 \<Rightarrow> w32 \<Rightarrow> sha_state \<Rightarrow> sha_state" where
  "sha_round k w (a, b, c, d, e, f, g, h) =
     (let t1 = h + sum1 e + ((e AND f) XOR (NOT e AND g)) + k + w;
          t2 = sum0 a + ((a AND b) XOR (a AND c) XOR (b AND c))
      in (t1 + t2, a, b, c, d + t1, e, f, g))"

fun sha_rounds :: "w32 list \<Rightarrow> w32 list \<Rightarrow> sha_state \<Rightarrow> sha_state" where
  "sha_rounds [] ws st = st"
| "sha_rounds (k # ks) ws st =
     sha_rounds ks (tl ws @ [sigma1 (ws ! 14) + ws ! 9 + sigma0 (ws ! 1) + hd ws]) (sha_round k (hd ws) st)"

fun add_state :: "sha_state \<Rightarrow> sha_state \<Rightarrow> sha_state" where
  "add_state (a, b, c, d, e, f, g, h) (a', b', c', d', e', f', g', h') =
     (a + a', b + b', c + c', d + d', e + e', f + f', g + g', h + h')"

fun be_words :: "string \<Rightarrow> w32 list" where
  "be_words (a # b # c # d # r) =
     word_of_int (of_char a * 16777216 + of_char b * 65536 + of_char c * 256 + of_char d) # be_words r"
| "be_words r = []"

definition be_bytes :: "w32 \<Rightarrow> string" where
  "be_bytes w =
     (let n = uint w
      in [char_of (n div 16777216), char_of (n div 65536 mod 256), char_of (n div 256 mod 256), char_of (n mod 256)])"

definition sha_block :: "sha_state \<Rightarrow> string \<Rightarrow> sha_state" where
  "sha_block st block = add_state st (sha_rounds sha256_constants (be_words block) st)"

definition sha_pad :: "string \<Rightarrow> string" where
  "sha_pad m =
     (let bits = 8 * int (length m)
      in m @ CHR 0x80 # replicate (nat ((55 - int (length m)) mod 64)) (CHR 0x00)
         @ be_bytes (word_of_int (bits div 2 ^ 32)) @ be_bytes (word_of_int bits))"

function sha_blocks :: "sha_state \<Rightarrow> string \<Rightarrow> sha_state" where
  "sha_blocks st m = (if length m < 64 then st else sha_blocks (sha_block st (take 64 m)) (drop 64 m))"
  by pat_completeness auto
termination
  by (relation "measure (length \<circ> snd)") auto

declare sha_blocks.simps [simp del]

definition sha256 :: "string \<Rightarrow> string" where
  "sha256 m =
     (case sha_blocks sha256_initial (sha_pad m) of
        (a, b, c, d, e, f, g, h) \<Rightarrow> concat (map be_bytes [a, b, c, d, e, f, g, h]))"

definition xor_byte :: "nat \<Rightarrow> char \<Rightarrow> char" where
  "xor_byte k c = char_of ((of_char c :: nat) XOR k)"

definition hmac_key :: "string \<Rightarrow> string" where
  "hmac_key k =
     (let k' = (if length k > 64 then sha256 k else k) in k' @ replicate (64 - length k') (CHR 0x00))"

definition hmac_sha256 :: "string \<Rightarrow> string \<Rightarrow> string" where
  "hmac_sha256 k m =
     sha256 (map (xor_byte 0x5C) (hmac_key k) @ sha256 (map (xor_byte 0x36) (hmac_key k) @ m))"

lemma length_sha256 [simp]: "length (sha256 m) = 32"
  by (simp add: sha256_def be_bytes_def Let_def split: prod.split)

lemma length_hmac_sha256 [simp]: "length (hmac_sha256 k m) = 32"
  by (simp add: hmac_sha256_def)

lemma length_sha_pad: "length (sha_pad m) mod 64 = 0"
proof -
  have "int (length (sha_pad m)) = int (length m) + 9 + (55 - int (length m)) mod 64"
    by (simp add: sha_pad_def be_bytes_def Let_def)
  then have "int (length (sha_pad m)) mod 64 = 0" by presburger
  then show ?thesis by presburger
qed

lemma hex_sha256_opaque: "length (hex_encode (sha256 m)) = 64"
  by simp

end
