(* ===== verification/Contract_Common.thy ===== *)
theory Contract_Common
  imports Jsonstrict Go_Patterns Go_Time Go_Crypto
begin

section \<open>What the telemetry contracts share: UUIDs and timestamps\<close>

text \<open>
  The validators that internal/contract/v1, v2 and fundraising each declare for themselves with
  the same body: validateUUID, parseTimestamp, the windows of sent_at and occurred_at, the record
  count. github.com/google/uuid is not part of the repository: a value of \<open>'u uuid_lib\<close> holds the
  functions that are called (Parse, String and the constant Nil), for an abstract type \<open>'u\<close> of
  UUIDs, and every definition that needs them takes it as an argument. What a theorem needs of
  the package is \<open>uuid_text\<close>: String gives 36 characters, lower-case hexadecimal digits and dashes.
\<close>

record 'u uuid_lib =
  uuid_parse :: "string \<Rightarrow> 'u option"
  uuid_string :: "'u \<Rightarrow> string"
  uuid_nil :: 'u

record 'r validated =
  the_record :: 'r
  occurred_at_time :: time

definition uuid_text :: "'u uuid_lib \<Rightarrow> bool" where
  "uuid_text lib \<longleftrightarrow>
     (\<forall>u. length (uuid_string lib u) = 36 \<and> (\<forall>c \<in> set (uuid_string lib u). is_lower_hex c \<or> c = CHR ''-''))"

definition validate_uuid :: "'u uuid_lib \<Rightarrow> string \<Rightarrow> unit result" where
  "validate_uuid lib v =
     (case uuid_parse lib v of
        None \<Rightarrow> Inl (Err ''invalid UUID'')
      | Some parsed \<Rightarrow>
          reject (parsed = uuid_nil lib \<or> uuid_string lib parsed \<noteq> v) (Err ''invalid UUID'') (Inr ()))"

definition validate_timestamp_range :: "time \<Rightarrow> time result" where
  "validate_timestamp_range parsed =
     reject (parsed < date_utc 2020 1 1 \<or> \<not> parsed < date_utc 2100 1 1)
       (Err ''timestamp is outside the storage range'') (Inr parsed)"

definition parse_timestamp :: "string \<Rightarrow> time result" where
  "parse_timestamp v =
     andthen (from_option (Err ''must be RFC3339'') (parse_rfc3339 v)) (\<lambda>parsed.
       reject (nanosecond parsed mod millisecond \<noteq> 0) (Err ''precision must not exceed milliseconds'')
         (validate_timestamp_range parsed))"

definition parse_privacy_timestamp :: "string \<Rightarrow> time result" where
  "parse_privacy_timestamp v =
     andthen (from_option (Err ''must be RFC3339'') (parse_rfc3339 v)) (\<lambda>parsed.
       validate_timestamp_range (truncate_to parsed millisecond))"

definition validate_record_count :: "nat \<Rightarrow> unit result" where
  "validate_record_count count =
     reject (count < 1 \<or> count > 500) (Err ''batch must contain between 1 and 500 records'') (Inr ())"

definition opt_in :: "string option \<Rightarrow> string list \<Rightarrow> bool" where
  "opt_in v allowed = (case v of None \<Rightarrow> False | Some x \<Rightarrow> one_of x allowed)"

definition body_sha256 :: "string \<Rightarrow> string" where
  "body_sha256 data = hex_encode (sha256 data)"

definition validate_idempotency_key :: "'u uuid_lib \<Rightarrow> string \<Rightarrow> string \<Rightarrow> unit result" where
  "validate_idempotency_key lib header_value body_id =
     reject (header_value = [] \<or> header_value \<noteq> body_id)
       (Err ''Idempotency-Key must equal the body ID'') (validate_uuid lib header_value)"

subsection \<open>The closed form of each check\<close>

definition canonical_uuid :: "'u uuid_lib \<Rightarrow> string \<Rightarrow> bool" where
  "canonical_uuid lib v \<longleftrightarrow>
     (\<exists>u. uuid_parse lib v = Some u \<and> u \<noteq> uuid_nil lib \<and> uuid_string lib u = v)"

definition storable :: "time \<Rightarrow> bool" where
  "storable t \<longleftrightarrow> date_utc 2020 1 1 \<le> t \<and> t < date_utc 2100 1 1 \<and> t mod millisecond = 0"

lemma validate_uuid_Inr [result_simps]: "validate_uuid lib v = Inr u \<longleftrightarrow> canonical_uuid lib v"
  by (auto simp: validate_uuid_def canonical_uuid_def result_simps split: option.splits)

lemma parse_timestamp_Inr [result_simps]:
  "parse_timestamp v = Inr t \<longleftrightarrow> parse_rfc3339 v = Some t \<and> storable t"
  by (auto simp: parse_timestamp_def validate_timestamp_range_def storable_def result_simps
      nanosecond_millisecond)

lemma parse_privacy_timestamp_Inr [result_simps]:
  "parse_privacy_timestamp v = Inr t \<longleftrightarrow>
     (\<exists>u. parse_rfc3339 v = Some u \<and> t = truncate_to u millisecond) \<and> storable t"
  by (auto simp: parse_privacy_timestamp_def validate_timestamp_range_def storable_def result_simps
      truncate_to_mod)

lemma validate_record_count_Inr [result_simps]:
  "validate_record_count n = Inr u \<longleftrightarrow> 1 \<le> n \<and> n \<le> 500"
  by (auto simp: validate_record_count_def result_simps)

lemma opt_in_iff [simp]: "opt_in v allowed \<longleftrightarrow> v \<in> Some ` set allowed"
  by (auto simp: opt_in_def split: option.splits)

lemma validate_idempotency_key_Inr [result_simps]:
  "validate_idempotency_key lib h b = Inr u \<longleftrightarrow> h = b \<and> h \<noteq> [] \<and> canonical_uuid lib h"
  by (auto simp: validate_idempotency_key_def result_simps)

lemma canonical_uuid_text:
  assumes "uuid_text lib" and "canonical_uuid lib v"
  shows "length v = 36" and "c \<in> set v \<Longrightarrow> is_lower_hex c \<or> c = CHR ''-''"
  using assms by (auto simp: uuid_text_def canonical_uuid_def)

lemma canonical_uuid_no_dot: "uuid_text lib \<Longrightarrow> canonical_uuid lib v \<Longrightarrow> CHR ''.'' \<notin> set v"
  using canonical_uuid_text(2) [of lib v "CHR ''.''"] by auto

text \<open>A storable instant is kept exactly by a DateTime64(3) column: it is a count of milliseconds.\<close>

lemma storable_milliseconds: "storable t \<Longrightarrow> (t div millisecond) * millisecond = t"
  by (auto simp: storable_def)

lemma storable_nonneg: "storable t \<Longrightarrow> 0 < t"
  by (simp add: storable_def date_utc_bounds)

end
