(* ===== verification/Product_Registry.thy ===== *)
theory Product_Registry
  imports Go_Patterns
begin

section \<open>internal/product: the compile-time allowlist\<close>

text \<open>
  The registry of products with their opaque keys, streams, games, product kinds and outcome
  rules, value for value from registry.go. A Go set (\<open>map[T]struct{}\<close>) or a map that is built
  once and only read is a list, respectively an association list, here; an identifier or stream
  is the string it is in the code. The lemmas show that the tables are well formed: every entry
  is filed under its own identifier and a distinct opaque key, and the outcome rules of every
  product can be satisfied.
\<close>

subsection \<open>Identifiers, streams, outcome fields\<close>

definition LinkaPlays :: string where "LinkaPlays = ''linka-plays''"
definition LinkaLooks :: string where "LinkaLooks = ''linka-looks''"
definition LinkaPictures :: string where "LinkaPictures = ''linka-pictures''"
definition LinkaType :: string where "LinkaType = ''linka-type''"
definition LinkaPaperboard :: string where "LinkaPaperboard = ''linka-paperboard''"
definition LinkaSite :: string where "LinkaSite = ''linka-site''"
definition LinkaTTS :: string where "LinkaTTS = ''linka-tts''"

definition StreamCommon :: string where "StreamCommon = ''common''"
definition StreamTechnical :: string where "StreamTechnical = ''technical''"
definition StreamPlays :: string where "StreamPlays = ''plays''"
definition StreamProduct :: string where "StreamProduct = ''product''"
definition StreamOutcome :: string where "StreamOutcome = ''outcome''"

definition OutcomeResult :: string where "OutcomeResult = ''result''"
definition OutcomeSource :: string where "OutcomeSource = ''source''"
definition OutcomeMode :: string where "OutcomeMode = ''mode''"
definition OutcomeCountBucket :: string where "OutcomeCountBucket = ''count_bucket''"
definition OutcomeDurationBucket :: string where "OutcomeDurationBucket = ''duration_bucket''"
definition OutcomeFailureCode :: string where "OutcomeFailureCode = ''failure_code''"

lemmas stream_defs = StreamCommon_def StreamTechnical_def StreamPlays_def StreamProduct_def StreamOutcome_def
lemmas outcome_field_defs = OutcomeResult_def OutcomeSource_def OutcomeMode_def OutcomeCountBucket_def
  OutcomeDurationBucket_def OutcomeFailureCode_def

record outcome_rule =
  rule_required :: "string list"
  rule_results :: "string list"
  rule_sources :: "string list"
  rule_modes :: "string list"
  rule_count_buckets :: "string list"
  rule_duration_buckets :: "string list"
  rule_failure_codes :: "string list"

record spec =
  spec_id :: string
  opaque_key_of :: string
  spec_streams :: "string list"
  spec_game_ids :: "string list"
  spec_product_kinds :: "string list"
  spec_outcome_rules :: "(string \<times> outcome_rule) list"

subsection \<open>The tables\<close>

definition count_buckets :: "string list" where
  "count_buckets = [''one'', ''two_to_five'', ''six_to_twenty'', ''more_than_twenty'']"

definition duration_buckets :: "string list" where
  "duration_buckets = [''under_5s'', ''5s_to_30s'', ''31s_to_2m'', ''over_2m'']"

definition playback_failure_codes :: "string list" where
  "playback_failure_codes = [''engine_unavailable'', ''request_failed'', ''timeout'', ''cancelled'']"

definition exercise_failure_codes :: "string list" where
  "exercise_failure_codes = [''state_invalid'', ''media_unavailable'', ''interrupted'']"

definition set_failure_codes :: "string list" where
  "set_failure_codes = [''validation_failed'', ''storage_failed'', ''permission_denied'']"

definition transfer_failure_codes :: "string list" where
  "transfer_failure_codes = [''format_invalid'', ''media_missing'', ''storage_failed'', ''permission_denied'']"

definition gaze_failure_codes :: "string list" where
  "gaze_failure_codes = [''device_unavailable'', ''calibration_failed'', ''permission_denied'']"

definition sync_failure_codes :: "string list" where
  "sync_failure_codes = [''network_unavailable'', ''conflict'', ''server_error'']"

definition tts_failure_codes :: "string list" where
  "tts_failure_codes = [''provider_unavailable'', ''quota_exceeded'', ''request_failed'', ''timeout'', ''cancelled'']"

definition plays_game_ids :: "string list" where
  "plays_game_ids = [
     ''aquarium'', ''balloons'', ''bells'', ''breathing-flower'', ''wake-owl'', ''clouds'',
     ''leaves-wind'', ''kite'', ''firefly-meadow'', ''catch-light'', ''starry-sky'',
     ''magic-dust'', ''light-gallery'', ''soap-circles'', ''northern-lights'', ''sun-rays'',
     ''snowflakes'', ''moon-path'', ''lighthouse'', ''sand-garden'', ''sea-shells'',
     ''paper-lanterns'', ''open-door'', ''warm-window'', ''warm-fire'', ''big-cards'',
     ''color-circle'', ''feed-animal'', ''butterfly'', ''flowers'', ''bubble-pop'', ''ducks'',
     ''fishes'', ''jellyfish'', ''frog'', ''hide-and-seek'', ''who-hiding'', ''find-color'',
     ''find-shape'', ''match-same'', ''what-missing'', ''follow-cue'', ''find-letter'',
     ''find-digit'', ''logic-pairs'', ''shadow-match'', ''sound-source'', ''odd-one-out'',
     ''find-emotion'', ''letter-hunt'', ''find-animal'', ''memory-cards'', ''gaze-maze'',
     ''build-robot'', ''pyramid'', ''dress-character'', ''train-sequence'', ''sandwich'',
     ''patterns'', ''color-pattern'', ''day-routine'', ''three-frame-story'', ''first-then'',
     ''musical-path'', ''mosaic'', ''shape-dance'', ''soup-recipe'', ''comic-strip'', ''schedule'',
     ''build-bridge'', ''shelf-sorting'', ''solfege'', ''choose-emotion'', ''choose-picture'',
     ''eat-or-not-eat'', ''word-categories'', ''yes-no'', ''i-want'', ''want-dont-want'',
     ''object-action'', ''where-object'', ''big-small'', ''one-many'', ''who-is-this'',
     ''opposites'', ''what-first'', ''mini-dialog'', ''social-phrases'', ''type-word'', ''clock'',
     ''calendar'', ''count-items'', ''coin-counting'', ''pizza-fractions'', ''greater-less'',
     ''scales'', ''number-line'', ''number-sorting'', ''sudoku-2x2'', ''lines-angles'',
     ''simple-graphs'', ''number-bonds'', ''shop'', ''coordinates'', ''shapes'', ''color-shape'',
     ''math-actions'', ''minesweeper-safe'', ''domino-matching'', ''number-2048'',
     ''sliding-puzzle'', ''uno-like'', ''step-tetris'', ''sokoban-large'', ''tic-tac-toe'',
     ''connect-four'', ''reversi-light'', ''lines-five'', ''checkers-light'', ''chess-mini'',
     ''battleship-light'', ''step-pong'', ''route-snake'', ''cursor-magnet'', ''boat'',
     ''gaze-follow-snake'', ''table-tennis'', ''road-car'', ''glider'', ''line-drawing'',
     ''rails'', ''balancer'', ''snow-trail'', ''robot-vacuum'', ''garden-watering'', ''space-orbit'']"

definition plays_spec :: spec where
  "plays_spec =
     \<lparr>spec_id = LinkaPlays,
      opaque_key_of = ''a0f1ccdc0e30ce4f267cb358ab74be5ce227f04c744d81fbaf2e2ac59893e37c'',
      spec_streams = [StreamCommon, StreamTechnical, StreamPlays],
      spec_game_ids = plays_game_ids, spec_product_kinds = [],
      spec_outcome_rules = []\<rparr>"

definition looks_product_kinds :: "string list" where
  "looks_product_kinds = [
     ''start'', ''platformDetected'', ''openSettings'', ''openSet'', ''openFolder'',
     ''openEditor'', ''openTobiiCalibration'', ''cardClick'', ''toggleOutputLine'',
     ''toggleGazeLock'', ''share'', ''move'', ''trash'', ''editorAddImage'', ''editorAddAudio'',
     ''settingsToggleEyeExit'', ''settingsToggleEyeChoose'', ''settingsToggleEyeActivation'',
     ''settingsToggleEyePagination'', ''settingsToggleKeyboardActivation'',
     ''settingsToggleJoystickActivation'', ''settingsToggleTypeSound'',
     ''settingsToggleMouseActivation'', ''settingsTogglePageTurnMode'', ''settingsToggleEyeScale'',
     ''settingsSetTimeout'', ''settingsToggleAnimation'', ''tobiiCalibrationStart'',
     ''tobiiCalibrationPoint'', ''tobiiCalibrationFinish'', ''tobiiCalibrationCancel'',
     ''tobiiCalibrationError'', ''tobiiCalibrationApplySaved'',
     ''tobiiCalibrationApplySavedResult'', ''tobiiCalibrationUnavailable'', ''updateAvailable'',
     ''updateDownloaded'', ''updateError'', ''updateInstallConfirmed'', ''deploySmoke'']"

definition looks_outcome_rules :: "(string \<times> outcome_rule) list" where
  "looks_outcome_rules = [
     (''utterance_completed'',
      \<lparr>rule_required = [OutcomeResult, OutcomeMode],
       rule_results = [''completed'', ''failed'', ''cancelled''], rule_sources = [],
       rule_modes = [''standard'', ''direct'', ''without-space''],
       rule_count_buckets = count_buckets, rule_duration_buckets = duration_buckets,
       rule_failure_codes = playback_failure_codes\<rparr>),
     (''exercise_completed'',
      \<lparr>rule_required = [OutcomeResult, OutcomeSource, OutcomeCountBucket],
       rule_results = [''completed'', ''incomplete'', ''failed''],
       rule_sources = [''quiz'', ''match''],
       rule_modes = [],
       rule_count_buckets = count_buckets, rule_duration_buckets = duration_buckets,
       rule_failure_codes = exercise_failure_codes\<rparr>),
     (''set_saved'',
      \<lparr>rule_required = [OutcomeResult, OutcomeSource, OutcomeCountBucket],
       rule_results = [''completed'', ''failed''], rule_sources = [''created'', ''edited''],
       rule_modes = [], rule_count_buckets = count_buckets, rule_duration_buckets = [],
       rule_failure_codes = set_failure_codes\<rparr>),
     (''transfer_completed'',
      \<lparr>rule_required = [OutcomeResult, OutcomeSource],
       rule_results = [''completed'', ''failed''], rule_sources = [''import'', ''export''],
       rule_modes = [], rule_count_buckets = [], rule_duration_buckets = [],
       rule_failure_codes = transfer_failure_codes\<rparr>),
     (''gaze_calibration_completed'',
      \<lparr>rule_required = [OutcomeResult],
       rule_results = [''completed'', ''failed'', ''cancelled''], rule_sources = [],
       rule_modes = [], rule_count_buckets = [], rule_duration_buckets = [],
       rule_failure_codes = gaze_failure_codes\<rparr>)]"

definition looks_spec :: spec where
  "looks_spec =
     \<lparr>spec_id = LinkaLooks,
      opaque_key_of = ''a2aea6a7de105d4001e90f53cb24388163609c7721eb947d24327432c21901df'',
      spec_streams = [StreamProduct, StreamOutcome],
      spec_game_ids = [], spec_product_kinds = looks_product_kinds,
      spec_outcome_rules = looks_outcome_rules\<rparr>"

definition pictures_product_kinds :: "string list" where
  "pictures_product_kinds = [
     ''app_open'', ''open_set'', ''edit_set'', ''create_set'', ''open_settings'',
     ''open_grid_settings'', ''resize_grid'', ''set_without_space'', ''add_card'', ''add_set'',
     ''card_select'', ''set_list_open'', ''set_open'', ''set_import'', ''set_export'',
     ''output_speak'', ''direct_play'', ''playback_failed'', ''quiz_answer'', ''match_pair'',
     ''editor_open'', ''set_save'', ''parent_code_check'', ''non_fatal_error'']"

definition pictures_outcome_rules :: "(string \<times> outcome_rule) list" where
  "pictures_outcome_rules = [
     (''utterance_completed'',
      \<lparr>rule_required = [OutcomeResult, OutcomeMode],
       rule_results = [''completed'', ''failed'', ''cancelled''], rule_sources = [],
       rule_modes = [''standard'', ''direct'', ''without-space''],
       rule_count_buckets = count_buckets, rule_duration_buckets = duration_buckets,
       rule_failure_codes = playback_failure_codes\<rparr>),
     (''exercise_completed'',
      \<lparr>rule_required = [OutcomeResult, OutcomeSource, OutcomeCountBucket],
       rule_results = [''completed'', ''incomplete'', ''failed''],
       rule_sources = [''quiz'', ''match''],
       rule_modes = [],
       rule_count_buckets = count_buckets, rule_duration_buckets = duration_buckets,
       rule_failure_codes = exercise_failure_codes\<rparr>),
     (''set_saved'',
      \<lparr>rule_required = [OutcomeResult, OutcomeSource, OutcomeCountBucket],
       rule_results = [''completed'', ''failed''], rule_sources = [''created'', ''edited''],
       rule_modes = [], rule_count_buckets = count_buckets, rule_duration_buckets = [],
       rule_failure_codes = set_failure_codes\<rparr>),
     (''transfer_completed'',
      \<lparr>rule_required = [OutcomeResult, OutcomeSource],
       rule_results = [''completed'', ''failed''], rule_sources = [''import'', ''export''],
       rule_modes = [], rule_count_buckets = [], rule_duration_buckets = [],
       rule_failure_codes = transfer_failure_codes\<rparr>)]"

definition pictures_spec :: spec where
  "pictures_spec =
     \<lparr>spec_id = LinkaPictures,
      opaque_key_of = ''070210b29cd1c08ceb82a8c631463765db84aceed4a73181bf9d2e0e99968a58'',
      spec_streams = [StreamProduct, StreamOutcome],
      spec_game_ids = [], spec_product_kinds = pictures_product_kinds,
      spec_outcome_rules = pictures_outcome_rules\<rparr>"

definition type_product_kinds :: "string list" where
  "type_product_kinds = [
     ''app_open'', ''predicator_use'', ''spotlight'', ''say'', ''quickes_say'', ''bank_cselect'',
     ''bank_sselect'', ''login'', ''logout'', ''register'', ''update_prompt_shown'',
     ''update_accepted'', ''mobile_app_prompt_shown'', ''mobile_app_link_clicked'',
     ''bank_cache_started'', ''bank_cache_completed'', ''download_category_cache'',
     ''realtime_sync'', ''realtime_sync_error'', ''dialog_mode_opened'', ''dialog_mode_closed'',
     ''dialog_chat_create'', ''dialog_chat_select'', ''dialog_chat_delete'',
     ''dialog_message_send'', ''dialog_record_start'', ''dialog_record_stop'']"

definition type_outcome_rules :: "(string \<times> outcome_rule) list" where
  "type_outcome_rules = [
     (''phrase_composed'',
      \<lparr>rule_required = [OutcomeSource, OutcomeCountBucket],
       rule_results = [], rule_sources = [''input'', ''quick'', ''bank'', ''dialog''],
       rule_modes = [], rule_count_buckets = count_buckets, rule_duration_buckets = [],
       rule_failure_codes = []\<rparr>),
     (''speech_completed'',
      \<lparr>rule_required = [OutcomeResult, OutcomeSource, OutcomeMode, OutcomeCountBucket, OutcomeDurationBucket],
       rule_results = [''completed'', ''failed'', ''cancelled''],
       rule_sources = [''input'', ''quick'', ''bank'', ''dialog''],
       rule_modes = [''local'', ''cloud''],
       rule_count_buckets = count_buckets, rule_duration_buckets = duration_buckets,
       rule_failure_codes = playback_failure_codes\<rparr>),
     (''bank_action_completed'',
      \<lparr>rule_required = [OutcomeResult, OutcomeSource],
       rule_results = [''completed'', ''failed''],
       rule_sources = [''phrase_inserted'', ''phrase_spoken'', ''reader_opened''],
       rule_modes = [], rule_count_buckets = [], rule_duration_buckets = [],
       rule_failure_codes = set_failure_codes\<rparr>),
     (''dialog_action_completed'',
      \<lparr>rule_required = [OutcomeResult, OutcomeSource],
       rule_results = [''completed'', ''failed''],
       rule_sources = [''message_sent'', ''suggestion_accepted'', ''suggestion_dismissed''],
       rule_modes = [], rule_count_buckets = [], rule_duration_buckets = [],
       rule_failure_codes = set_failure_codes\<rparr>),
     (''sync_completed'',
      \<lparr>rule_required = [OutcomeResult, OutcomeCountBucket],
       rule_results = [''completed'', ''failed''], rule_sources = [],
       rule_modes = [], rule_count_buckets = count_buckets, rule_duration_buckets = [],
       rule_failure_codes = sync_failure_codes\<rparr>)]"

definition type_spec :: spec where
  "type_spec =
     \<lparr>spec_id = LinkaType,
      opaque_key_of = ''074a5e8a5a5b103c9d7057f284eb3418d91870ced0941f9374edefdd78c6a6c8'',
      spec_streams = [StreamProduct, StreamOutcome],
      spec_game_ids = [], spec_product_kinds = type_product_kinds,
      spec_outcome_rules = type_outcome_rules\<rparr>"

definition paperboard_product_kinds :: "string list" where
  "paperboard_product_kinds = [
     ''app_open'', ''board_open'', ''settings_open'', ''symbol_selected'', ''phrase_spoken'']"

definition paperboard_spec :: spec where
  "paperboard_spec =
     \<lparr>spec_id = LinkaPaperboard,
      opaque_key_of = ''faaa4e383af4af3c458ce9178d4a87c2e2f314407e70807555507b71467031e1'',
      spec_streams = [StreamProduct],
      spec_game_ids = [], spec_product_kinds = paperboard_product_kinds,
      spec_outcome_rules = []\<rparr>"

definition site_product_kinds :: "string list" where
  "site_product_kinds = [
     ''page_view'']"

definition site_spec :: spec where
  "site_spec =
     \<lparr>spec_id = LinkaSite,
      opaque_key_of = ''a1fd852a6ad52468c6ad95b47df33966052a4fc3ff44334e5bcfc4f03e24c372'',
      spec_streams = [StreamProduct],
      spec_game_ids = [], spec_product_kinds = site_product_kinds,
      spec_outcome_rules = []\<rparr>"

definition tts_product_kinds :: "string list" where
  "tts_product_kinds = [
     ''tts_generated'']"

definition tts_outcome_rules :: "(string \<times> outcome_rule) list" where
  "tts_outcome_rules = [
     (''request_completed'',
      \<lparr>rule_required = [OutcomeResult, OutcomeSource, OutcomeCountBucket, OutcomeDurationBucket],
       rule_results = [''completed'', ''failed'', ''cancelled''],
       rule_sources = [''yandex'', ''sber'', ''local''],
       rule_modes = [],
       rule_count_buckets = count_buckets, rule_duration_buckets = duration_buckets,
       rule_failure_codes = tts_failure_codes\<rparr>),
     (''cache_operation'',
      \<lparr>rule_required = [OutcomeResult],
       rule_results = [''hit'', ''miss'', ''evicted''], rule_sources = [],
       rule_modes = [], rule_count_buckets = [], rule_duration_buckets = [],
       rule_failure_codes = []\<rparr>)]"

definition tts_spec :: spec where
  "tts_spec =
     \<lparr>spec_id = LinkaTTS,
      opaque_key_of = ''821617fc2acf9c0e033286139584ae3ae920a85c18e04927df929784883f9b8e'',
      spec_streams = [StreamProduct, StreamOutcome],
      spec_game_ids = [], spec_product_kinds = tts_product_kinds,
      spec_outcome_rules = tts_outcome_rules\<rparr>"

definition registry :: "(string \<times> spec) list" where
  "registry =
     [(LinkaPlays, plays_spec),
      (LinkaLooks, looks_spec),
      (LinkaPictures, pictures_spec),
      (LinkaType, type_spec),
      (LinkaPaperboard, paperboard_spec),
      (LinkaSite, site_spec),
      (LinkaTTS, tts_spec)]"

subsection \<open>Operations\<close>

definition lookup_product :: "string \<Rightarrow> spec option" where
  "lookup_product i = map_of registry i"

definition allows_stream :: "spec \<Rightarrow> string \<Rightarrow> bool" where
  "allows_stream s stream = List.member (spec_streams s) stream"

definition allows_game :: "spec \<Rightarrow> string \<Rightarrow> bool" where
  "allows_game s game = List.member (spec_game_ids s) game"

definition allows_product_kind :: "spec \<Rightarrow> string \<Rightarrow> bool" where
  "allows_product_kind s kind = List.member (spec_product_kinds s) kind"

definition outcome_rule_of :: "spec \<Rightarrow> string \<Rightarrow> outcome_rule option" where
  "outcome_rule_of s kind = map_of (spec_outcome_rules s) kind"

definition requires :: "outcome_rule \<Rightarrow> string \<Rightarrow> bool" where
  "requires r field = list_ex (\<lambda>required. required = field) (rule_required r)"

subsection \<open>Well-formedness of the tables\<close>

definition rule_fields :: "outcome_rule \<Rightarrow> (string \<times> string list) list" where
  "rule_fields r =
     [(OutcomeResult, rule_results r), (OutcomeSource, rule_sources r), (OutcomeMode, rule_modes r),
      (OutcomeCountBucket, rule_count_buckets r), (OutcomeDurationBucket, rule_duration_buckets r),
      (OutcomeFailureCode, rule_failure_codes r)]"

text \<open>A rule asks only for fields that exist and that some value can fill.\<close>

definition rule_satisfiable :: "outcome_rule \<Rightarrow> bool" where
  "rule_satisfiable r =
     list_all (\<lambda>f. case map_of (rule_fields r) f of None \<Rightarrow> False | Some vs \<Rightarrow> vs \<noteq> []) (rule_required r)"

definition spec_ok :: "string \<times> spec \<Rightarrow> bool" where
  "spec_ok e =
     (let s = snd e
      in spec_id s = fst e \<and> opaque_key_pattern (opaque_key_of s)
         \<and> (List.member (spec_streams s) StreamOutcome = (spec_outcome_rules s \<noteq> []))
         \<and> (List.member (spec_streams s) StreamPlays = (spec_game_ids s \<noteq> []))
         \<and> (List.member (spec_streams s) StreamProduct = (spec_product_kinds s \<noteq> []))
         \<and> list_all (\<lambda>k. rule_satisfiable (snd k)) (spec_outcome_rules s))"

lemma registry_entries_ok: "list_all spec_ok registry"
  by code_simp

lemma registry_distinct: "distinct (map fst registry)" "distinct (map (opaque_key_of \<circ> snd) registry)"
  by code_simp+

lemma lookup_in_registry: "lookup_product i = Some s \<Longrightarrow> (i, s) \<in> set registry"
  by (simp add: lookup_product_def map_of_SomeD)

lemma lookup_spec_ok: "lookup_product i = Some s \<Longrightarrow> spec_ok (i, s)"
  using registry_entries_ok by (auto simp: list_all_iff dest: lookup_in_registry)

lemma lookup_spec_id: "lookup_product i = Some s \<Longrightarrow> spec_id s = i"
  by (drule lookup_spec_ok) (simp add: spec_ok_def Let_def)

lemma lookup_opaque: "lookup_product i = Some s \<Longrightarrow> opaque_key_pattern (opaque_key_of s)"
  by (drule lookup_spec_ok) (simp add: spec_ok_def Let_def)

lemma lookup_opaque_inj:
  assumes "lookup_product i = Some s" "lookup_product j = Some t" "opaque_key_of s = opaque_key_of t"
  shows "i = j"
proof -
  have "inj_on (opaque_key_of \<circ> snd) (set registry)"
    using registry_distinct(2) by (simp add: distinct_map)
  from inj_onD [OF this, of "(i, s)" "(j, t)"] show ?thesis
    using assms by (simp add: lookup_in_registry)
qed

lemma outcome_rule_satisfiable:
  assumes "lookup_product i = Some s" "outcome_rule_of s k = Some r"
  shows "rule_satisfiable r"
proof -
  from assms(2) have "(k, r) \<in> set (spec_outcome_rules s)"
    by (simp add: outcome_rule_of_def map_of_SomeD)
  with lookup_spec_ok [OF assms(1)] show ?thesis
    by (auto simp: spec_ok_def Let_def list_all_iff)
qed

lemma requires_iff: "requires r f \<longleftrightarrow> f \<in> set (rule_required r)"
  by (auto simp: requires_def list_ex_iff)

text \<open>The names of the seven products contain no period, so a token can carry them.\<close>

lemma registry_names_no_dot: "list_all (\<lambda>e. CHR ''.'' \<notin> set (fst e)) registry"
  by code_simp

lemma lookup_no_dot: "lookup_product i = Some s \<Longrightarrow> CHR ''.'' \<notin> set i"
  using registry_names_no_dot lookup_in_registry [of i s] by (fastforce simp: list_all_iff)

lemma registry_names_no_newline: "list_all (\<lambda>e. CHR 0x0A \<notin> set (fst e)) registry"
  by code_simp

lemma lookup_no_newline: "lookup_product i \<noteq> None \<Longrightarrow> CHR 0x0A \<notin> set i"
  using registry_names_no_newline lookup_in_registry [of i] by (fastforce simp: list_all_iff)

end
