(* ===== verification/Contract_V2.thy ===== *)
theory Contract_V2
  imports Contract_Common Product_Registry Go_Float
begin

section \<open>internal/contract/v2: typed telemetry batches\<close>

text \<open>
  contract.go and parse.go. The five record types share their first fields, so the structs are
  extensions of \<open>base_record\<close>; an embedded struct is an extended record and a Validated type is
  the record with the parsed instant. The counters keep their width (\<open>32 word\<close>, \<open>64 word\<close>), a
  pointer field is an option, valid_gaze_ratio a \<open>float64\<close>. Each validator has a closed form
  (\<open>common_ok\<close>, \<open>technical_ok\<close>, ...) and a lemma that it returns exactly on it;
  \<open>parse_batch_valid\<close> composes them into the contract of ParseBatch. Where the source ranges
  over a Go map (person_key and org_key, the app fields) the order of the checks is not fixed;
  the model takes the order of the map literal, which only decides which message is returned.
\<close>

record scope =
  product_id :: string
  subject_key :: string
  person_key :: "string option"
  org_key :: "string option"

record batch_header =
  schema_version :: int
  batch_id :: string
  header_scope :: scope
  stream :: string
  sent_at :: string

record app_metadata =
  app_version :: string
  app_build :: string
  app_platform :: string
  app_os_version :: string
  app_locale :: string

record base_record =
  record_id :: string
  occurred_at :: string
  kind :: string
  app_session_id :: string
  app :: app_metadata

type_synonym product_record = base_record

record common_record = base_record +
  page :: "string option"
  mode :: "string option"

record technical_record = base_record +
  technical_component :: string
  technical_state :: "string option"
  error_fingerprint :: "string option"
  dropped_count :: "64 word option"
  drop_reason :: "string option"

record plays_record = base_record +
  game_session_id :: string
  game_id :: string
  game_category :: string
  input_method :: string
  level_index :: "32 word option"
  outcome :: "string option"
  duration_ms :: "64 word option"
  success_count :: "32 word option"
  mistake_count :: "32 word option"
  hint_count :: "32 word option"
  valid_gaze_ratio :: "float64 option"

record outcome_record = base_record +
  outcome_result :: "string option"
  outcome_source :: "string option"
  outcome_mode :: "string option"
  count_bucket :: "string option"
  duration_bucket :: "string option"
  failure_code :: "string option"

record envelope = batch_header +
  raw_records :: "json option"

record 'r batch = batch_header +
  batch_records :: "'r list"

record validated_batch =
  header :: batch_header
  sent_at_time :: time
  product_key :: string
  common_records :: "common_record validated list"
  technical_records :: "technical_record validated list"
  plays_records :: "plays_record validated list"
  product_records :: "product_record validated list"
  outcome_records :: "outcome_record validated list"

record privacy_request =
  privacy_schema_version :: int
  request_id :: string
  privacy_scope :: scope
  privacy_action :: string
  requested_at :: string

record validated_privacy_request =
  the_request :: privacy_request
  privacy_product_key :: string
  requested_at_time :: time

definition record_count :: "validated_batch \<Rightarrow> nat" where
  "record_count b =
     length (common_records b) + length (technical_records b) + length (plays_records b)
     + length (product_records b) + length (outcome_records b)"

definition SchemaVersion :: int where "SchemaVersion = 2"
definition MaxBatchBytes :: nat where "MaxBatchBytes = 512 * 1024"
definition MaxPrivacyBytes :: nat where "MaxPrivacyBytes = 16 * 1024"
definition MaxJSONDepth :: nat where "MaxJSONDepth = 16"

definition PrivacyOptOut :: string where "PrivacyOptOut = ''opt_out''"
definition PrivacyDelete :: string where "PrivacyDelete = ''delete''"

definition ErrIdempotencyConflict :: go_error where
  "ErrIdempotencyConflict = Err ''idempotency key was already used with a different body''"
definition ErrDuplicateRecord :: go_error where
  "ErrDuplicateRecord = Err ''record ID was already used by another batch''"
definition ErrSuppressed :: go_error where
  "ErrSuppressed = Err ''telemetry scope is suppressed''"

subsection \<open>The JSON shape of the structs\<close>

definition opt_string :: "string option into" where
  "opt_string = into_ptr [] into_string"

definition into_raw :: "json option into" where
  "into_raw v old = Some (Some v)"

definition zero_scope :: scope where
  "zero_scope = \<lparr>product_id = [], subject_key = [], person_key = None, org_key = None\<rparr>"

definition zero_app :: app_metadata where
  "zero_app = \<lparr>app_version = [], app_build = [], app_platform = [], app_os_version = [], app_locale = []\<rparr>"

definition zero_header :: batch_header where
  "zero_header = \<lparr>schema_version = 0, batch_id = [], header_scope = zero_scope, stream = [], sent_at = []\<rparr>"

definition zero_base :: base_record where
  "zero_base = \<lparr>record_id = [], occurred_at = [], kind = [], app_session_id = [], app = zero_app\<rparr>"

definition zero_common :: common_record where
  "zero_common = base_record.extend zero_base (common_record.fields None None)"

definition zero_technical :: technical_record where
  "zero_technical = base_record.extend zero_base (technical_record.fields [] None None None None)"

definition zero_plays :: plays_record where
  "zero_plays = base_record.extend zero_base
     (plays_record.fields [] [] [] [] None None None None None None None)"

definition zero_outcome :: outcome_record where
  "zero_outcome = base_record.extend zero_base (outcome_record.fields None None None None None None)"

definition zero_privacy :: privacy_request where
  "zero_privacy = \<lparr>privacy_schema_version = 0, request_id = [], privacy_scope = zero_scope,
     privacy_action = [], requested_at = []\<rparr>"

definition scope_fields :: "(string \<times> scope into) list" where
  "scope_fields =
     [fld ''product'' product_id product_id_update into_string,
      fld ''subject_key'' subject_key subject_key_update into_string,
      fld ''person_key'' person_key person_key_update opt_string,
      fld ''org_key'' org_key org_key_update opt_string]"

definition app_fields :: "(string \<times> app_metadata into) list" where
  "app_fields =
     [fld ''version'' app_version app_version_update into_string,
      fld ''build'' app_build app_build_update into_string,
      fld ''platform'' app_platform app_platform_update into_string,
      fld ''os_version'' app_os_version app_os_version_update into_string,
      fld ''locale'' app_locale app_locale_update into_string]"

definition header_fields :: "(string \<times> 'z batch_header_scheme into) list" where
  "header_fields =
     [fld ''schema_version'' schema_version schema_version_update into_int64,
      fld ''batch_id'' batch_id batch_id_update into_string,
      fld ''scope'' header_scope header_scope_update (into_struct scope_fields),
      fld ''stream'' stream stream_update into_string,
      fld ''sent_at'' sent_at sent_at_update into_string]"

definition base_fields :: "(string \<times> 'z base_record_scheme into) list" where
  "base_fields =
     [fld ''record_id'' record_id record_id_update into_string,
      fld ''occurred_at'' occurred_at occurred_at_update into_string,
      fld ''kind'' kind kind_update into_string,
      fld ''app_session_id'' app_session_id app_session_id_update into_string,
      fld ''app'' app app_update (into_struct app_fields)]"

definition common_fields :: "(string \<times> common_record into) list" where
  "common_fields = base_fields @
     [fld ''page'' page page_update opt_string,
      fld ''mode'' mode mode_update opt_string]"

definition technical_fields :: "(string \<times> technical_record into) list" where
  "technical_fields = base_fields @
     [fld ''component'' technical_component technical_component_update into_string,
      fld ''state'' technical_state technical_state_update opt_string,
      fld ''error_fingerprint'' error_fingerprint error_fingerprint_update opt_string,
      fld ''dropped_count'' dropped_count dropped_count_update (into_ptr 0 into_word),
      fld ''drop_reason'' drop_reason drop_reason_update opt_string]"

definition plays_fields :: "(string \<times> plays_record into) list" where
  "plays_fields = base_fields @
     [fld ''game_session_id'' game_session_id game_session_id_update into_string,
      fld ''game_id'' game_id game_id_update into_string,
      fld ''game_category'' game_category game_category_update into_string,
      fld ''input_method'' input_method input_method_update into_string,
      fld ''level_index'' level_index level_index_update (into_ptr 0 into_word),
      fld ''outcome'' outcome outcome_update opt_string,
      fld ''duration_ms'' duration_ms duration_ms_update (into_ptr 0 into_word),
      fld ''success_count'' success_count success_count_update (into_ptr 0 into_word),
      fld ''mistake_count'' mistake_count mistake_count_update (into_ptr 0 into_word),
      fld ''hint_count'' hint_count hint_count_update (into_ptr 0 into_word),
      fld ''valid_gaze_ratio'' valid_gaze_ratio valid_gaze_ratio_update (into_ptr (Fin 0 0) into_float)]"

definition outcome_fields :: "(string \<times> outcome_record into) list" where
  "outcome_fields = base_fields @
     [fld ''result'' outcome_result outcome_result_update opt_string,
      fld ''source'' outcome_source outcome_source_update opt_string,
      fld ''mode'' outcome_mode outcome_mode_update opt_string,
      fld ''count_bucket'' count_bucket count_bucket_update opt_string,
      fld ''duration_bucket'' duration_bucket duration_bucket_update opt_string,
      fld ''failure_code'' failure_code failure_code_update opt_string]"

definition into_envelope :: "envelope into" where
  "into_envelope = into_struct (header_fields @ [fld ''records'' raw_records raw_records_update into_raw])"

definition into_batch :: "(string \<times> 'r into) list \<Rightarrow> 'r \<Rightarrow> 'r batch into" where
  "into_batch tbl zero = into_struct (header_fields @
     [fld ''records'' batch_records batch_records_update (into_slice zero (into_struct tbl))])"

definition into_privacy :: "privacy_request into" where
  "into_privacy = into_struct
     [fld ''schema_version'' privacy_schema_version privacy_schema_version_update into_int64,
      fld ''request_id'' request_id request_id_update into_string,
      fld ''scope'' privacy_scope privacy_scope_update (into_struct scope_fields),
      fld ''action'' privacy_action privacy_action_update into_string,
      fld ''requested_at'' requested_at requested_at_update into_string]"

subsection \<open>Validation\<close>

text \<open>The closed enumerations of the contract, written inline in the source.\<close>

definition app_platforms :: "string list" where
  "app_platforms =
    [''windows'', ''macos'', ''linux'', ''web'', ''android'', ''ios'']"

definition app_locales :: "string list" where
  "app_locales =
    [''ru'', ''ru-RU'', ''en'', ''en-US'', ''other'']"

definition lifecycle_kinds :: "string list" where
  "lifecycle_kinds =
    [''app_started'', ''app_backgrounded'', ''app_foregrounded'', ''app_closed'']"

definition app_pages :: "string list" where
  "app_pages =
    [''home'', ''games'', ''game'', ''settings'', ''statistics'', ''onboarding'']"

definition app_modes :: "string list" where
  "app_modes =
    [''self'', ''assisted'']"

definition technical_components :: "string list" where
  "technical_components =
    [''main'', ''renderer'', ''tobii'', ''updater'', ''telemetry'']"

definition technical_states :: "string list" where
  "technical_states =
    [''starting'', ''ready'', ''idle'', ''connecting'', ''connected'', ''tracking'',
     ''checking'', ''downloading'', ''installing'', ''unavailable'', ''error'']"

definition drop_reasons :: "string list" where
  "drop_reasons =
    [''capacity'', ''expired'', ''invalid'', ''shutdown'']"

definition game_categories :: "string list" where
  "game_categories =
    [''gaze-basics'', ''visual-search'', ''sequencing'', ''language-aac'', ''numeracy'',
     ''strategy'', ''continuous-control'', ''unknown'']"

definition input_methods :: "string list" where
  "input_methods =
    [''mouse'', ''touch'', ''gaze'', ''keyboard'', ''unknown'', ''mixed'']"

definition session_outcomes :: "string list" where
  "session_outcomes =
    [''completed'', ''interrupted'', ''cancelled'', ''error'', ''incomplete'', ''lost'',
     ''draw'']"

definition interaction_outcomes :: "string list" where
  "interaction_outcomes =
    [''success'', ''mistake'', ''hint'', ''cancelled'']"

definition safe_value_pattern :: "string \<Rightarrow> bool" where
  "safe_value_pattern = ident_string is_alnum (\<lambda>c. is_alnum c \<or> List.member ''._:+-'' c) 95"

definition fingerprint_pattern :: "string \<Rightarrow> bool" where
  "fingerprint_pattern s =
     (class_string is_lower_hex 16 96 s
      \<or> has_prefix s ''sha256:'' \<and> class_string is_lower_hex 64 64 (drop 7 s))"

definition validate_scope :: "scope \<Rightarrow> spec result" where
  "validate_scope s =
     (case lookup_product (product_id s) of
        None \<Rightarrow> Inl (Err ''unknown product'')
      | Some sp \<Rightarrow>
          reject (\<not> opaque_key_pattern (subject_key s))
            (Err ''subject_key must be a lowercase opaque SHA-256 key'')
         (reject (\<not> opt_all opaque_key_pattern (person_key s))
            (Err ''person_key must be a lowercase opaque SHA-256 key'')
         (reject (\<not> opt_all opaque_key_pattern (org_key s))
            (Err ''org_key must be a lowercase opaque SHA-256 key'') (Inr sp))))"

definition validate_app :: "app_metadata \<Rightarrow> unit result" where
  "validate_app a =
     reject (\<not> safe_value_pattern (app_version a)) (Err ''app.version contains an unsafe or empty value'')
    (reject (\<not> safe_value_pattern (app_build a)) (Err ''app.build contains an unsafe or empty value'')
    (reject (\<not> safe_value_pattern (app_os_version a)) (Err ''app.os_version contains an unsafe or empty value'')
    (reject (\<not> one_of (app_platform a) app_platforms)
       (Err ''unknown app.platform'')
    (reject (\<not> one_of (app_locale a) app_locales)
       (Err ''unknown app.locale'') (Inr ())))))"

definition validate_base_record ::
  "'u uuid_lib \<Rightarrow> 'z base_record_scheme \<Rightarrow> time \<Rightarrow> time result" where
  "validate_base_record lib r sent =
     andthen (wrap ''record_id'' (validate_uuid lib (record_id r))) (\<lambda>_.
     andthen (wrap ''app_session_id'' (validate_uuid lib (app_session_id r))) (\<lambda>_.
     andthen (validate_app (app r)) (\<lambda>_.
     andthen (wrap ''occurred_at'' (parse_timestamp (occurred_at r))) (\<lambda>parsed.
       reject (parsed < sent - 30 * day \<or> parsed > sent + 5 * minute)
         (Err ''occurred_at is outside the allowed batch range'') (Inr parsed)))))"

definition validate_common_record ::
  "'u uuid_lib \<Rightarrow> common_record \<Rightarrow> time \<Rightarrow> common_record validated result" where
  "validate_common_record lib r sent =
     andthen (validate_base_record lib r sent) (\<lambda>occurred.
       let ok = Inr \<lparr>the_record = r, occurred_at_time = occurred\<rparr>
       in if one_of (kind r) lifecycle_kinds then
            reject (page r \<noteq> None \<or> mode r \<noteq> None)
              (Err ''page and mode are forbidden for app lifecycle records'') ok
          else if kind r = ''page_viewed'' then
            reject (page r = None \<or> mode r \<noteq> None
                \<or> \<not> opt_in (page r) app_pages)
              (Err ''page_viewed requires an allowed page only'') ok
          else if kind r = ''mode_changed'' then
            reject (mode r = None \<or> page r \<noteq> None \<or> \<not> opt_in (mode r) app_modes)
              (Err ''mode_changed requires an allowed mode only'') ok
          else Inl (Err ''unknown common kind''))"

definition validate_technical_record ::
  "'u uuid_lib \<Rightarrow> technical_record \<Rightarrow> time \<Rightarrow> technical_record validated result" where
  "validate_technical_record lib r sent =
     andthen (validate_base_record lib r sent) (\<lambda>occurred.
       let ok = Inr \<lparr>the_record = r, occurred_at_time = occurred\<rparr>
       in reject (\<not> one_of (technical_component r) technical_components)
            (Err ''unknown technical component'')
          (if kind r = ''state_changed'' then
             reject (technical_state r = None \<or> error_fingerprint r \<noteq> None \<or> dropped_count r \<noteq> None
                 \<or> drop_reason r \<noteq> None
                 \<or> \<not> opt_in (technical_state r)
                      technical_states)
               (Err ''state_changed requires an allowed state only'') ok
           else if kind r = ''error'' then
             reject (technical_state r \<noteq> None \<or> dropped_count r \<noteq> None \<or> drop_reason r \<noteq> None
                 \<or> \<not> (case error_fingerprint r of None \<Rightarrow> False | Some f \<Rightarrow> fingerprint_pattern f))
               (Err ''error requires a lowercase stable fingerprint only'') ok
           else if kind r = ''queue_dropped'' then
             reject (technical_component r \<noteq> ''telemetry''
                 \<or> (case dropped_count r of None \<Rightarrow> True | Some n \<Rightarrow> n = 0 \<or> n > 1000000)
                 \<or> drop_reason r = None \<or> technical_state r \<noteq> None \<or> error_fingerprint r \<noteq> None
                 \<or> \<not> opt_in (drop_reason r) drop_reasons)
               (Err ''queue_dropped requires bounded count and allowed reason'') ok
           else Inl (Err ''unknown technical kind'')))"

definition has_plays_outcome :: "plays_record \<Rightarrow> bool" where
  "has_plays_outcome r =
     (level_index r \<noteq> None \<or> outcome r \<noteq> None \<or> duration_ms r \<noteq> None \<or> success_count r \<noteq> None
      \<or> mistake_count r \<noteq> None \<or> hint_count r \<noteq> None \<or> valid_gaze_ratio r \<noteq> None)"

definition validate_plays_record ::
  "'u uuid_lib \<Rightarrow> plays_record \<Rightarrow> time \<Rightarrow> spec \<Rightarrow> plays_record validated result" where
  "validate_plays_record lib r sent sp =
     andthen (validate_base_record lib r sent) (\<lambda>occurred.
       let ok = Inr \<lparr>the_record = r, occurred_at_time = occurred\<rparr>
       in andthen (wrap ''game_session_id'' (validate_uuid lib (game_session_id r))) (\<lambda>_.
          reject (\<not> allows_game sp (game_id r)) (Err ''game_id is not registered for product'')
         (reject (\<not> one_of (game_category r)
              game_categories) (Err ''unknown game_category'')
         (reject (\<not> one_of (input_method r) input_methods)
            (Err ''unknown input_method'')
         (reject (\<not> opt_all (\<lambda>x. \<not> (float_is_nan x \<or> float_is_inf x \<or> float_lt x 0 \<or> float_gt x 1))
              (valid_gaze_ratio r))
            (Err ''valid_gaze_ratio must be finite and between zero and one'')
         (if kind r = ''session_started'' then
            reject (has_plays_outcome r) (Err ''session_started cannot contain outcome metrics'') ok
          else if kind r = ''session_finished'' then
            reject (\<not> opt_in (outcome r)
                  session_outcomes
                \<or> (case duration_ms r of None \<Rightarrow> True | Some n \<Rightarrow> n > word_of_int (7 * day div millisecond)))
              (Err ''session_finished requires allowed outcome and bounded duration_ms'')
              (reject (level_index r \<noteq> None) (Err ''level_index is forbidden for session_finished'') ok)
          else if kind r = ''interaction'' then
            reject (level_index r = None
                \<or> \<not> opt_in (outcome r) interaction_outcomes
                \<or> duration_ms r \<noteq> None \<or> success_count r \<noteq> None \<or> mistake_count r \<noteq> None
                \<or> hint_count r \<noteq> None \<or> valid_gaze_ratio r \<noteq> None)
              (Err ''interaction requires level_index and allowed outcome only'') ok
          else Inl (Err ''unknown plays kind'')))))))"

definition validate_product_record ::
  "'u uuid_lib \<Rightarrow> product_record \<Rightarrow> time \<Rightarrow> spec \<Rightarrow> product_record validated result" where
  "validate_product_record lib r sent sp =
     andthen (validate_base_record lib r sent) (\<lambda>occurred.
       reject (\<not> allows_product_kind sp (kind r)) (Err ''product kind is not registered for product'')
         (Inr \<lparr>the_record = r, occurred_at_time = occurred\<rparr>))"

definition validate_outcome_enum :: "string option \<Rightarrow> string list \<Rightarrow> bool \<Rightarrow> unit result" where
  "validate_outcome_enum v allowed required =
     (case v of
        None \<Rightarrow> reject required (Err ''is required'') (Inr ())
      | Some x \<Rightarrow>
          reject (allowed = []) (Err ''is forbidden for outcome kind'')
            (reject (\<not> one_of x allowed) (Err ''contains an unregistered value'') (Inr ())))"

definition validate_outcome_record ::
  "'u uuid_lib \<Rightarrow> outcome_record \<Rightarrow> time \<Rightarrow> spec \<Rightarrow> outcome_record validated result" where
  "validate_outcome_record lib r sent sp =
     andthen (validate_base_record lib r sent) (\<lambda>occurred.
     andthen (from_option (Err ''outcome kind is not registered for product'') (outcome_rule_of sp (kind r))) (\<lambda>rule.
     andthen (validate_outcome_enum (outcome_result r) (rule_results rule) (requires rule OutcomeResult)) (\<lambda>_.
     andthen (validate_outcome_enum (outcome_source r) (rule_sources rule) (requires rule OutcomeSource)) (\<lambda>_.
     andthen (validate_outcome_enum (outcome_mode r) (rule_modes rule) (requires rule OutcomeMode)) (\<lambda>_.
     andthen (validate_outcome_enum (count_bucket r) (rule_count_buckets rule) (requires rule OutcomeCountBucket)) (\<lambda>_.
     andthen (validate_outcome_enum (duration_bucket r) (rule_duration_buckets rule) (requires rule OutcomeDurationBucket)) (\<lambda>_.
     andthen (validate_outcome_enum (failure_code r) (rule_failure_codes rule) (requires rule OutcomeFailureCode)) (\<lambda>_.
       Inr \<lparr>the_record = r, occurred_at_time = occurred\<rparr>))))))))"

definition validate_header ::
  "'u uuid_lib \<Rightarrow> batch_header \<Rightarrow> time \<Rightarrow> (validated_batch \<times> spec) result" where
  "validate_header lib h now =
     reject (schema_version h \<noteq> SchemaVersion) (Err ''unsupported schema_version'')
    (andthen (wrap ''batch_id'' (validate_uuid lib (batch_id h))) (\<lambda>_.
     andthen (validate_scope (header_scope h)) (\<lambda>sp.
       reject (\<not> allows_stream sp (stream h)) (Err ''stream is not registered for product'')
      (andthen (wrap ''sent_at'' (parse_timestamp (sent_at h))) (\<lambda>sent.
         reject (sent < now - 7 * 24 * hour \<or> sent > now + 5 * minute)
           (Err ''sent_at is outside the allowed range'')
           (Inr (\<lparr>header = h, sent_at_time = sent, product_key = opaque_key_of sp,
                  common_records = [], technical_records = [], plays_records = [],
                  product_records = [], outcome_records = []\<rparr>, sp)))))))"

text \<open>The loop over the batches of the five streams keeps one set of seen IDs.\<close>

definition validate_unique_record_ids :: "validated_batch \<Rightarrow> unit result" where
  "validate_unique_record_ids b =
     (let dup = Err ''duplicate record_id in batch'' in
      andthen (fresh_ids dup {} (map (record_id \<circ> the_record) (common_records b))) (\<lambda>seen.
      andthen (fresh_ids dup seen (map (record_id \<circ> the_record) (technical_records b))) (\<lambda>seen.
      andthen (fresh_ids dup seen (map (record_id \<circ> the_record) (plays_records b))) (\<lambda>seen.
      andthen (fresh_ids dup seen (map (record_id \<circ> the_record) (product_records b))) (\<lambda>seen.
      andthen (fresh_ids dup seen (map (record_id \<circ> the_record) (outcome_records b))) (\<lambda>_. Inr ()))))))"

text \<open>One branch of the switch of ParseBatch: decode the records of a stream, count and validate them.\<close>

definition parse_records ::
  "(string \<times> 'r into) list \<Rightarrow> 'r \<Rightarrow> ('r \<Rightarrow> 'r validated result) \<Rightarrow> string \<Rightarrow> 'r validated list result" where
  "parse_records tbl zero check data =
     andthen (wrap ''decode batch''
        (decode_object (into_batch tbl zero) data
           (batch_header.extend zero_header (batch.fields [])) MaxJSONDepth)) (\<lambda>batch.
     andthen (validate_record_count (length (batch_records batch))) (\<lambda>_.
       traverse (\<lambda>r. wrap ''records'' (check r)) (batch_records batch)))"

definition zero_envelope :: envelope where
  "zero_envelope = batch_header.extend zero_header (envelope.fields None)"

definition parse_stream ::
  "'u uuid_lib \<Rightarrow> string \<Rightarrow> string \<Rightarrow> validated_batch \<Rightarrow> spec \<Rightarrow> validated_batch result" where
  "parse_stream lib data strm v sp =
     (if strm = StreamCommon then
        andthen (parse_records common_fields zero_common
            (\<lambda>r. validate_common_record lib r (sent_at_time v)) data)
          (\<lambda>rs. Inr (v\<lparr>common_records := rs\<rparr>))
      else if strm = StreamTechnical then
        andthen (parse_records technical_fields zero_technical
            (\<lambda>r. validate_technical_record lib r (sent_at_time v)) data)
          (\<lambda>rs. Inr (v\<lparr>technical_records := rs\<rparr>))
      else if strm = StreamPlays then
        andthen (parse_records plays_fields zero_plays
            (\<lambda>r. validate_plays_record lib r (sent_at_time v) sp) data)
          (\<lambda>rs. Inr (v\<lparr>plays_records := rs\<rparr>))
      else if strm = StreamProduct then
        andthen (parse_records base_fields zero_base
            (\<lambda>r. validate_product_record lib r (sent_at_time v) sp) data)
          (\<lambda>rs. Inr (v\<lparr>product_records := rs\<rparr>))
      else if strm = StreamOutcome then
        andthen (parse_records outcome_fields zero_outcome
            (\<lambda>r. validate_outcome_record lib r (sent_at_time v) sp) data)
          (\<lambda>rs. Inr (v\<lparr>outcome_records := rs\<rparr>))
      else Inl (Err ''unknown stream''))"

definition parse_batch :: "'u uuid_lib \<Rightarrow> string \<Rightarrow> time \<Rightarrow> validated_batch result" where
  "parse_batch lib data now =
     reject (length data > MaxBatchBytes) (Err ''batch exceeds maximum size'')
    (andthen (wrap ''decode batch envelope''
        (decode_object into_envelope data zero_envelope MaxJSONDepth)) (\<lambda>env.
     andthen (validate_header lib (batch_header.truncate env) now) (\<lambda>(v, sp).
     andthen (parse_stream lib data (stream env) v sp) (\<lambda>b.
     andthen (validate_unique_record_ids b) (\<lambda>_. Inr b)))))"

definition parse_privacy_request ::
  "'u uuid_lib \<Rightarrow> string \<Rightarrow> time \<Rightarrow> validated_privacy_request result" where
  "parse_privacy_request lib data now =
     reject (length data > MaxPrivacyBytes) (Err ''privacy request exceeds maximum size'')
    (andthen (wrap ''decode privacy request''
        (decode_object into_privacy data zero_privacy MaxJSONDepth)) (\<lambda>request.
       reject (privacy_schema_version request \<noteq> SchemaVersion) (Err ''unsupported schema_version'')
      (andthen (wrap ''request_id'' (validate_uuid lib (request_id request))) (\<lambda>_.
       andthen (validate_scope (privacy_scope request)) (\<lambda>sp.
         reject (privacy_action request \<noteq> PrivacyOptOut \<and> privacy_action request \<noteq> PrivacyDelete)
           (Err ''unknown privacy action'')
        (andthen (wrap ''requested_at'' (parse_privacy_timestamp (requested_at request))) (\<lambda>requested.
           reject (requested < now - 24 * hour \<or> requested > now + 5 * minute)
             (Err ''requested_at is outside the allowed range'')
             (Inr \<lparr>the_request = request, privacy_product_key = opaque_key_of sp,
                   requested_at_time = requested\<rparr>))))))))"

subsection \<open>The closed form of a valid record\<close>

definition app_ok :: "app_metadata \<Rightarrow> bool" where
  "app_ok a \<longleftrightarrow>
     safe_value_pattern (app_version a) \<and> safe_value_pattern (app_build a)
     \<and> safe_value_pattern (app_os_version a)
     \<and> app_platform a \<in> set app_platforms
     \<and> app_locale a \<in> set app_locales"

definition base_ok :: "'u uuid_lib \<Rightarrow> time \<Rightarrow> 'z base_record_scheme \<Rightarrow> time \<Rightarrow> bool" where
  "base_ok lib sent r t \<longleftrightarrow>
     canonical_uuid lib (record_id r) \<and> canonical_uuid lib (app_session_id r) \<and> app_ok (app r)
     \<and> parse_rfc3339 (occurred_at r) = Some t \<and> storable t
     \<and> sent - 30 * day \<le> t \<and> t \<le> sent + 5 * minute"

definition common_shape :: "common_record \<Rightarrow> bool" where
  "common_shape r \<longleftrightarrow>
     kind r \<in> set lifecycle_kinds
       \<and> page r = None \<and> mode r = None
   \<or> kind r = ''page_viewed'' \<and> mode r = None
       \<and> page r \<in> Some ` set app_pages
   \<or> kind r = ''mode_changed'' \<and> page r = None \<and> mode r \<in> Some ` set app_modes"

definition technical_shape :: "technical_record \<Rightarrow> bool" where
  "technical_shape r \<longleftrightarrow>
     technical_component r \<in> set technical_components
   \<and> (kind r = ''state_changed''
        \<and> technical_state r \<in> Some ` set technical_states
        \<and> error_fingerprint r = None \<and> dropped_count r = None \<and> drop_reason r = None
    \<or> kind r = ''error''
        \<and> (\<exists>f. error_fingerprint r = Some f \<and> fingerprint_pattern f)
        \<and> technical_state r = None \<and> dropped_count r = None \<and> drop_reason r = None
    \<or> kind r = ''queue_dropped'' \<and> technical_component r = ''telemetry''
        \<and> (\<exists>n. dropped_count r = Some n \<and> 1 \<le> uint n \<and> uint n \<le> 1000000)
        \<and> drop_reason r \<in> Some ` set drop_reasons
        \<and> technical_state r = None \<and> error_fingerprint r = None)"

definition unit_interval :: "float64 \<Rightarrow> bool" where
  "unit_interval x \<longleftrightarrow> (\<exists>m e. x = Fin m e \<and> \<not> float_lt x 0 \<and> \<not> float_gt x 1)"

definition plays_shape :: "'u uuid_lib \<Rightarrow> spec \<Rightarrow> plays_record \<Rightarrow> bool" where
  "plays_shape lib sp r \<longleftrightarrow>
     canonical_uuid lib (game_session_id r) \<and> game_id r \<in> set (spec_game_ids sp)
   \<and> game_category r \<in> set game_categories
   \<and> input_method r \<in> set input_methods
   \<and> opt_all unit_interval (valid_gaze_ratio r)
   \<and> (kind r = ''session_started'' \<and> \<not> has_plays_outcome r
    \<or> kind r = ''session_finished'' \<and> level_index r = None
        \<and> outcome r \<in> Some ` set session_outcomes
        \<and> (\<exists>n. duration_ms r = Some n \<and> uint n \<le> 604800000)
    \<or> kind r = ''interaction'' \<and> level_index r \<noteq> None
        \<and> outcome r \<in> Some ` set interaction_outcomes
        \<and> duration_ms r = None \<and> success_count r = None \<and> mistake_count r = None
        \<and> hint_count r = None \<and> valid_gaze_ratio r = None)"

text \<open>A field conforms to a rule: it is there when required, and has one of the values allowed.\<close>

definition enum_ok :: "string option \<Rightarrow> string list \<Rightarrow> bool \<Rightarrow> bool" where
  "enum_ok v allowed required \<longleftrightarrow>
     (required \<longrightarrow> v \<noteq> None) \<and> (\<forall>x. v = Some x \<longrightarrow> x \<in> set allowed)"

definition outcome_shape :: "spec \<Rightarrow> outcome_record \<Rightarrow> bool" where
  "outcome_shape sp r \<longleftrightarrow>
     (\<exists>rule. outcome_rule_of sp (kind r) = Some rule
        \<and> enum_ok (outcome_result r) (rule_results rule) (requires rule OutcomeResult)
        \<and> enum_ok (outcome_source r) (rule_sources rule) (requires rule OutcomeSource)
        \<and> enum_ok (outcome_mode r) (rule_modes rule) (requires rule OutcomeMode)
        \<and> enum_ok (count_bucket r) (rule_count_buckets rule) (requires rule OutcomeCountBucket)
        \<and> enum_ok (duration_bucket r) (rule_duration_buckets rule) (requires rule OutcomeDurationBucket)
        \<and> enum_ok (failure_code r) (rule_failure_codes rule) (requires rule OutcomeFailureCode))"

definition scope_ok :: "scope \<Rightarrow> bool" where
  "scope_ok s \<longleftrightarrow>
     product_id s \<in> set (map fst registry) \<and> opaque_key_pattern (subject_key s)
     \<and> opt_all opaque_key_pattern (person_key s) \<and> opt_all opaque_key_pattern (org_key s)"

lemma validate_app_Inr [result_simps]: "validate_app a = Inr u \<longleftrightarrow> app_ok a"
  by (auto simp: validate_app_def app_ok_def reject_Inr)

lemma validate_base_Inr [result_simps]: "validate_base_record lib r sent = Inr t \<longleftrightarrow> base_ok lib sent r t"
  by (auto simp: validate_base_record_def base_ok_def result_simps)

lemma validate_common_Inr [result_simps]:
  "validate_common_record lib r sent = Inr v \<longleftrightarrow>
     the_record v = r \<and> base_ok lib sent r (occurred_at_time v) \<and> common_shape r"
proof -
  have "validate_common_record lib r sent = Inr v \<longleftrightarrow>
      (\<exists>t. base_ok lib sent r t \<and> v = \<lparr>the_record = r, occurred_at_time = t\<rparr>) \<and> common_shape r"
    by (auto simp: validate_common_record_def common_shape_def lifecycle_kinds_def result_simps Let_def split: if_splits)
  then show ?thesis by (cases v) auto
qed

lemma validate_technical_Inr [result_simps]:
  "validate_technical_record lib r sent = Inr v \<longleftrightarrow>
     the_record v = r \<and> base_ok lib sent r (occurred_at_time v) \<and> technical_shape r"
proof -
  have w: "n = 0 \<or> n > 1000000 \<longleftrightarrow> \<not> (1 \<le> uint n \<and> uint n \<le> 1000000)" for n :: "64 word"
  proof -
    have "n = 0 \<longleftrightarrow> uint n = 0" "n > 1000000 \<longleftrightarrow> uint n > 1000000"
      by (auto simp: word_less_def uint_0_iff)
    then show ?thesis using uint_ge_0 [of n] by linarith
  qed
  have "validate_technical_record lib r sent = Inr v \<longleftrightarrow>
      (\<exists>t. base_ok lib sent r t \<and> v = \<lparr>the_record = r, occurred_at_time = t\<rparr>) \<and> technical_shape r"
    unfolding validate_technical_record_def technical_shape_def w
    by (auto simp: result_simps Let_def split: if_splits option.splits)
  then show ?thesis by (cases v) auto
qed

lemma unit_interval_iff:
  "unit_interval x \<longleftrightarrow> \<not> (float_is_nan x \<or> float_is_inf x \<or> float_lt x 0 \<or> float_gt x 1)"
  by (cases x) (auto simp: unit_interval_def float_is_nan_def float_is_inf_def)

lemma validate_plays_Inr [result_simps]:
  "validate_plays_record lib r sent sp = Inr v \<longleftrightarrow>
     the_record v = r \<and> base_ok lib sent r (occurred_at_time v) \<and> plays_shape lib sp r"
proof -
  have w: "n > word_of_int (7 * day div millisecond) \<longleftrightarrow> \<not> uint n \<le> 604800000" for n :: "64 word"
    by (simp add: duration_defs word_less_def not_le)
  have "validate_plays_record lib r sent sp = Inr v \<longleftrightarrow>
      (\<exists>t. base_ok lib sent r t \<and> v = \<lparr>the_record = r, occurred_at_time = t\<rparr>) \<and> plays_shape lib sp r"
    unfolding validate_plays_record_def plays_shape_def w unit_interval_iff [symmetric]
    by (auto simp: result_simps Let_def allows_game_def split: if_splits option.splits)
  then show ?thesis by (cases v) auto
qed

lemma validate_product_Inr [result_simps]:
  "validate_product_record lib r sent sp = Inr v \<longleftrightarrow>
     the_record v = r \<and> base_ok lib sent r (occurred_at_time v) \<and> kind r \<in> set (spec_product_kinds sp)"
  by (cases v) (auto simp: validate_product_record_def result_simps allows_product_kind_def)

lemma validate_enum_Inr [result_simps]:
  "validate_outcome_enum v allowed required = Inr u \<longleftrightarrow> enum_ok v allowed required"
  by (auto simp: validate_outcome_enum_def enum_ok_def result_simps split: option.splits)

lemma validate_outcome_Inr [result_simps]:
  "validate_outcome_record lib r sent sp = Inr v \<longleftrightarrow>
     the_record v = r \<and> base_ok lib sent r (occurred_at_time v) \<and> outcome_shape sp r"
  by (cases v) (auto simp: validate_outcome_record_def outcome_shape_def result_simps)

lemma validate_scope_Inr [result_simps]:
  "validate_scope s = Inr sp \<longleftrightarrow> lookup_product (product_id s) = Some sp \<and> scope_ok s"
  by (auto simp: validate_scope_def scope_ok_def result_simps lookup_product_def
      split: option.splits dest: map_of_SomeD) (force dest: map_of_SomeD)+

subsection \<open>The contract of ParseBatch\<close>

definition record_ids :: "validated_batch \<Rightarrow> string list" where
  "record_ids b =
     map (record_id \<circ> the_record) (common_records b) @ map (record_id \<circ> the_record) (technical_records b)
     @ map (record_id \<circ> the_record) (plays_records b) @ map (record_id \<circ> the_record) (product_records b)
     @ map (record_id \<circ> the_record) (outcome_records b)"

definition header_ok :: "'u uuid_lib \<Rightarrow> time \<Rightarrow> batch_header \<Rightarrow> spec \<Rightarrow> time \<Rightarrow> bool" where
  "header_ok lib now h sp sent \<longleftrightarrow>
     schema_version h = SchemaVersion \<and> canonical_uuid lib (batch_id h) \<and> scope_ok (header_scope h)
     \<and> lookup_product (product_id (header_scope h)) = Some sp \<and> stream h \<in> set (spec_streams sp)
     \<and> parse_rfc3339 (sent_at h) = Some sent \<and> storable sent
     \<and> now - 7 * day \<le> sent \<and> sent \<le> now + 5 * minute"

definition checked :: "'u uuid_lib \<Rightarrow> time \<Rightarrow> ('z base_record_scheme \<Rightarrow> bool) \<Rightarrow> 'z base_record_scheme validated list \<Rightarrow> bool" where
  "checked lib sent shape vs \<longleftrightarrow>
     (\<forall>v \<in> set vs. base_ok lib sent (the_record v) (occurred_at_time v) \<and> shape (the_record v))"

text \<open>Only the list of the header's stream is filled, and its records are valid.\<close>

definition streams_ok :: "'u uuid_lib \<Rightarrow> spec \<Rightarrow> validated_batch \<Rightarrow> bool" where
  "streams_ok lib sp b \<longleftrightarrow>
     checked lib (sent_at_time b) common_shape (common_records b)
     \<and> checked lib (sent_at_time b) technical_shape (technical_records b)
     \<and> checked lib (sent_at_time b) (plays_shape lib sp) (plays_records b)
     \<and> checked lib (sent_at_time b) (\<lambda>r. kind r \<in> set (spec_product_kinds sp)) (product_records b)
     \<and> checked lib (sent_at_time b) (outcome_shape sp) (outcome_records b)
     \<and> (stream (header b) \<noteq> StreamCommon \<longrightarrow> common_records b = [])
     \<and> (stream (header b) \<noteq> StreamTechnical \<longrightarrow> technical_records b = [])
     \<and> (stream (header b) \<noteq> StreamPlays \<longrightarrow> plays_records b = [])
     \<and> (stream (header b) \<noteq> StreamProduct \<longrightarrow> product_records b = [])
     \<and> (stream (header b) \<noteq> StreamOutcome \<longrightarrow> outcome_records b = [])"

definition valid_batch :: "'u uuid_lib \<Rightarrow> time \<Rightarrow> validated_batch \<Rightarrow> bool" where
  "valid_batch lib now b \<longleftrightarrow>
     (\<exists>sp. header_ok lib now (header b) sp (sent_at_time b) \<and> product_key b = opaque_key_of sp
        \<and> streams_ok lib sp b)
     \<and> 1 \<le> record_count b \<and> record_count b \<le> 500 \<and> distinct (record_ids b)"

lemma record_ids_length: "length (record_ids b) = record_count b"
  by (simp add: record_ids_def record_count_def)

lemma validate_header_Inr [result_simps]:
  "validate_header lib h now = Inr (v, sp) \<longleftrightarrow>
     header_ok lib now h sp (sent_at_time v)
     \<and> v = \<lparr>header = h, sent_at_time = sent_at_time v, product_key = opaque_key_of sp,
           common_records = [], technical_records = [], plays_records = [],
           product_records = [], outcome_records = []\<rparr>"
proof -
  have "7 * 24 * hour = 7 * day" by (simp add: duration_defs)
  then show ?thesis
    by (cases v) (auto simp: validate_header_def header_ok_def result_simps allows_stream_def)
qed

lemma unique_record_ids_Inr [result_simps]:
  "validate_unique_record_ids b = Inr u \<longleftrightarrow> distinct (record_ids b)"
  by (auto simp: validate_unique_record_ids_def record_ids_def result_simps Let_def)

lemma parse_records_Inr:
  fixes tbl :: "(string \<times> 'r into) list"
  assumes "parse_records tbl zero check data = Inr vs"
    and "\<And>r v. check r = Inr v \<Longrightarrow> P v"
  shows "1 \<le> length vs \<and> length vs \<le> 500 \<and> (\<forall>v \<in> set vs. P v)"
proof -
  from assms(1) obtain b :: "'r batch" where b: "1 \<le> length (batch_records b)"
    "length (batch_records b) \<le> 500"
    "traverse (\<lambda>r. wrap ''records'' (check r)) (batch_records b) = Inr vs"
    unfolding parse_records_def andthen_Inr validate_record_count_Inr by blast
  have "P v" if "v \<in> set vs" for v
    using traverse_setD [OF b(3) that] assms(2) by (auto simp: wrap_Inr)
  with b traverse_length [OF b(3)] show ?thesis by simp
qed

lemma stream_names_distinct: "distinct [StreamCommon, StreamTechnical, StreamPlays, StreamProduct, StreamOutcome]"
  by code_simp

definition fresh_batch :: "validated_batch \<Rightarrow> bool" where
  "fresh_batch v \<longleftrightarrow>
     common_records v = [] \<and> technical_records v = [] \<and> plays_records v = []
     \<and> product_records v = [] \<and> outcome_records v = []"

lemma parse_stream_ok:
  assumes "parse_stream lib data (stream (header v)) v sp = Inr b" and "fresh_batch v"
  shows "header b = header v \<and> sent_at_time b = sent_at_time v \<and> product_key b = product_key v
    \<and> streams_ok lib sp b \<and> 1 \<le> record_count b \<and> record_count b \<le> 500"
proof -
  consider (common) rs where "stream (header v) = StreamCommon" "b = v\<lparr>common_records := rs\<rparr>"
      "parse_records common_fields zero_common
         (\<lambda>r. validate_common_record lib r (sent_at_time v)) data = Inr rs"
    | (technical) rs where "stream (header v) = StreamTechnical" "b = v\<lparr>technical_records := rs\<rparr>"
      "parse_records technical_fields zero_technical
         (\<lambda>r. validate_technical_record lib r (sent_at_time v)) data = Inr rs"
    | (plays) rs where "stream (header v) = StreamPlays" "b = v\<lparr>plays_records := rs\<rparr>"
      "parse_records plays_fields zero_plays
         (\<lambda>r. validate_plays_record lib r (sent_at_time v) sp) data = Inr rs"
    | (product) rs where "stream (header v) = StreamProduct" "b = v\<lparr>product_records := rs\<rparr>"
      "parse_records base_fields zero_base
         (\<lambda>r. validate_product_record lib r (sent_at_time v) sp) data = Inr rs"
    | (outcome) rs where "stream (header v) = StreamOutcome" "b = v\<lparr>outcome_records := rs\<rparr>"
      "parse_records outcome_fields zero_outcome
         (\<lambda>r. validate_outcome_record lib r (sent_at_time v) sp) data = Inr rs"
    using assms(1) by (auto simp: parse_stream_def andthen_Inr split: if_splits)
  note kinds = this
  note fresh = assms(2) [unfolded fresh_batch_def]
  show ?thesis
    using kinds
  proof cases
    case common
    from parse_records_Inr [OF this(3), of "\<lambda>w. base_ok lib (sent_at_time v) (the_record w) (occurred_at_time w)
        \<and> common_shape (the_record w)"] common fresh show ?thesis
      by (auto simp: streams_ok_def checked_def record_count_def validate_common_Inr)
  next
    case technical
    from parse_records_Inr [OF this(3), of "\<lambda>w. base_ok lib (sent_at_time v) (the_record w) (occurred_at_time w)
        \<and> technical_shape (the_record w)"] technical fresh show ?thesis
      by (auto simp: streams_ok_def checked_def record_count_def validate_technical_Inr)
  next
    case plays
    from parse_records_Inr [OF this(3), of "\<lambda>w. base_ok lib (sent_at_time v) (the_record w) (occurred_at_time w)
        \<and> plays_shape lib sp (the_record w)"] plays fresh show ?thesis
      by (auto simp: streams_ok_def checked_def record_count_def validate_plays_Inr)
  next
    case product
    from parse_records_Inr [OF this(3), of "\<lambda>w. base_ok lib (sent_at_time v) (the_record w) (occurred_at_time w)
        \<and> kind (the_record w) \<in> set (spec_product_kinds sp)"] product fresh show ?thesis
      by (auto simp: streams_ok_def checked_def record_count_def validate_product_Inr)
  next
    case outcome
    from parse_records_Inr [OF this(3), of "\<lambda>w. base_ok lib (sent_at_time v) (the_record w) (occurred_at_time w)
        \<and> outcome_shape sp (the_record w)"] outcome fresh show ?thesis
      by (auto simp: streams_ok_def checked_def record_count_def validate_outcome_Inr)
  qed
qed

lemma parse_batch_steps:
  assumes "parse_batch lib data now = Inr b"
  obtains env v sp where "length data \<le> MaxBatchBytes"
    "decode_object into_envelope data zero_envelope MaxJSONDepth = Inr env"
    "validate_header lib (batch_header.truncate env) now = Inr (v, sp)"
    "parse_stream lib data (stream env) v sp = Inr b" "distinct (record_ids b)"
  using assms that unfolding parse_batch_def reject_Inr andthen_Inr wrap_Inr
  by (auto simp: andthen_Inr unique_record_ids_Inr)

lemma parse_batch_valid: "parse_batch lib data now = Inr b \<Longrightarrow> valid_batch lib now b"
proof (erule parse_batch_steps)
  fix env v sp
  assume hd: "validate_header lib (batch_header.truncate env) now = Inr (v, sp)"
    and ps: "parse_stream lib data (stream env) v sp = Inr b" and uniq: "distinct (record_ids b)"
  from hd have v: "header_ok lib now (batch_header.truncate env) sp (sent_at_time v)"
    "header v = batch_header.truncate env" "product_key v = opaque_key_of sp" "fresh_batch v"
    unfolding validate_header_Inr fresh_batch_def by (auto elim: ssubst)
  then have "stream env = stream (header v)" by (simp add: batch_header.truncate_def)
  with ps v(4) have "header b = header v \<and> sent_at_time b = sent_at_time v \<and> product_key b = product_key v
    \<and> streams_ok lib sp b \<and> 1 \<le> record_count b \<and> record_count b \<le> 500"
    using parse_stream_ok by simp
  with v uniq show "valid_batch lib now b" by (auto simp: valid_batch_def)
qed

lemma parse_batch_strict:
  assumes "parse_batch lib data now = Inr b"
  shows "length data \<le> MaxBatchBytes \<and> (\<exists>ms. strict_json data MaxJSONDepth (JObj ms))"
proof -
  from assms obtain env where "length data \<le> MaxBatchBytes"
    "decode_object into_envelope data zero_envelope MaxJSONDepth = Inr env"
    by (rule parse_batch_steps)
  then show ?thesis by (blast elim: decode_object_strict)
qed

subsection \<open>The contract of ParsePrivacyRequest\<close>

definition valid_privacy_request :: "'u uuid_lib \<Rightarrow> time \<Rightarrow> validated_privacy_request \<Rightarrow> bool" where
  "valid_privacy_request lib now p \<longleftrightarrow>
     privacy_schema_version (the_request p) = SchemaVersion \<and> canonical_uuid lib (request_id (the_request p))
     \<and> scope_ok (privacy_scope (the_request p))
     \<and> (\<exists>sp. lookup_product (product_id (privacy_scope (the_request p))) = Some sp
          \<and> privacy_product_key p = opaque_key_of sp)
     \<and> privacy_action (the_request p) \<in> {PrivacyOptOut, PrivacyDelete}
     \<and> (\<exists>t. parse_rfc3339 (requested_at (the_request p)) = Some t
          \<and> requested_at_time p = truncate_to t millisecond)
     \<and> storable (requested_at_time p)
     \<and> now - day \<le> requested_at_time p \<and> requested_at_time p \<le> now + 5 * minute"

lemma parse_privacy_request_valid:
  "parse_privacy_request lib data now = Inr p \<Longrightarrow> valid_privacy_request lib now p"
proof -
  have "24 * hour = day" by (simp add: duration_defs)
  then show "parse_privacy_request lib data now = Inr p \<Longrightarrow> valid_privacy_request lib now p"
    by (auto simp: parse_privacy_request_def valid_privacy_request_def result_simps)
qed

end
