(* ===== verification/Contract_Fundraising.thy ===== *)
theory Contract_Fundraising
  imports Contract_Common
begin

section \<open>internal/contract/fundraising: payment events without personal data\<close>

text \<open>
  contract.go and parse.go. ParseBatch decodes the body twice: into a map of raw members, to see
  that every record names attribution_campaign, and into the typed batch. \<open>raw_records_of\<close> is
  the json.Unmarshal of the raw records into a slice of maps (a missing member is an error, null
  an empty slice). The closed form of a valid event is \<open>event_ok\<close>; \<open>amount_value\<close> reads an amount
  as a number of kopecks, to state that an accepted amount is a positive Decimal(18,2).
\<close>

record fr_event =
  event_id :: string
  event_occurred_at :: string
  event_kind :: string
  amount :: "string option"
  currency :: string
  frequency :: string
  attribution_source :: string
  attribution_campaign :: "string option"
  event_failure_code :: "string option"

record fr_batch =
  fr_schema_version :: int
  fr_batch_id :: string
  fr_sent_at :: string
  fr_records :: "fr_event list"

record fr_validated_batch =
  fr_batch :: fr_batch
  fr_sent_at_time :: time
  fr_events :: "fr_event validated list"

definition FrSchemaVersion :: int where "FrSchemaVersion = 1"
definition FrMaxBatchBytes :: nat where "FrMaxBatchBytes = 256 * 1024"
definition FrMaxJSONDepth :: nat where "FrMaxJSONDepth = 8"

definition FrErrIdempotencyConflict :: go_error where
  "FrErrIdempotencyConflict = Err ''idempotency key was already used with a different body''"

definition zero_event :: fr_event where
  "zero_event = \<lparr>event_id = [], event_occurred_at = [], event_kind = [], amount = None, currency = [],
     frequency = [], attribution_source = [], attribution_campaign = None, event_failure_code = None\<rparr>"

definition zero_fr_batch :: fr_batch where
  "zero_fr_batch = \<lparr>fr_schema_version = 0, fr_batch_id = [], fr_sent_at = [], fr_records = []\<rparr>"

definition event_fields :: "(string \<times> fr_event into) list" where
  "event_fields =
     [fld ''event_id'' event_id event_id_update into_string,
      fld ''occurred_at'' event_occurred_at event_occurred_at_update into_string,
      fld ''kind'' event_kind event_kind_update into_string,
      fld ''amount'' amount amount_update (into_ptr [] into_string),
      fld ''currency'' currency currency_update into_string,
      fld ''frequency'' frequency frequency_update into_string,
      fld ''attribution_source'' attribution_source attribution_source_update into_string,
      fld ''attribution_campaign'' attribution_campaign attribution_campaign_update (into_ptr [] into_string),
      fld ''failure_code'' event_failure_code event_failure_code_update (into_ptr [] into_string)]"

definition into_fr_batch :: "fr_batch into" where
  "into_fr_batch = into_struct
     [fld ''schema_version'' fr_schema_version fr_schema_version_update into_int64,
      fld ''batch_id'' fr_batch_id fr_batch_id_update into_string,
      fld ''sent_at'' fr_sent_at fr_sent_at_update into_string,
      fld ''records'' fr_records fr_records_update (into_slice zero_event (into_struct event_fields))]"

text \<open>Decoding into a map of raw messages; the keys of the value are distinct by then.\<close>

fun into_raw_map :: "(string \<times> json) list into" where
  "into_raw_map (JObj ms) old = Some (ms @ old)"
| "into_raw_map JNull old = Some []"
| "into_raw_map v old = None"

definition raw_records_of :: "(string \<times> json) list \<Rightarrow> (string \<times> json) list list option" where
  "raw_records_of raw =
     (case map_of raw ''records'' of
        None \<Rightarrow> None
      | Some v \<Rightarrow> into_slice [] into_raw_map v [])"

subsection \<open>Validation\<close>

definition amount_pattern :: "string \<Rightarrow> bool" where
  "amount_pattern s =
     (let n = length s - 3; whole = take n s; rest = drop n s
      in (whole = ''0'' \<or> ident_string (\<lambda>c. is_digit c \<and> c \<noteq> CHR ''0'') is_digit 15 whole)
         \<and> length rest = 3 \<and> hd rest = CHR ''.'' \<and> list_all is_digit (tl rest))"

definition campaign_pattern :: "string \<Rightarrow> bool" where
  "campaign_pattern = ident_string is_lower (\<lambda>c. is_lower c \<or> is_digit c \<or> c = CHR ''_'' \<or> c = CHR ''-'') 31"

definition event_kinds :: "string list" where
  "event_kinds =
     [''payment_created'', ''payment_succeeded'', ''payment_cancelled'', ''refund_recorded'',
      ''recurring_activated'', ''recurring_charge_succeeded'', ''recurring_charge_failed'',
      ''subscription_cancelled'']"

definition money_kinds :: "string list" where
  "money_kinds =
     [''payment_created'', ''payment_succeeded'', ''payment_cancelled'', ''refund_recorded'',
      ''recurring_charge_succeeded'', ''recurring_charge_failed'']"

definition failure_codes :: "string list" where
  "failure_codes =
     [''declined'', ''insufficient_funds'', ''expired'', ''temporary_unavailable'', ''processing_error'', ''unknown'']"

definition attribution_sources :: "string list" where
  "attribution_sources = [''direct'', ''organic'', ''utm'', ''qr'', ''unknown'']"

definition validate_event :: "'u uuid_lib \<Rightarrow> fr_event \<Rightarrow> time \<Rightarrow> fr_event validated result" where
  "validate_event lib e sent =
     andthen (wrap ''event_id'' (validate_uuid lib (event_id e))) (\<lambda>_.
     andthen (wrap ''occurred_at'' (parse_timestamp (event_occurred_at e))) (\<lambda>occurred.
       reject (occurred < sent - 30 * 24 * hour \<or> occurred > sent + 5 * minute)
         (Err ''occurred_at is outside the allowed batch range'')
      (reject (\<not> one_of (event_kind e) event_kinds) (Err ''unknown fundraising kind'')
      (reject (\<not> one_of (frequency e) [''one_time'', ''monthly'']) (Err ''unknown frequency'')
      (reject (\<not> one_of (attribution_source e) attribution_sources) (Err ''unknown attribution_source'')
      (reject (\<not> opt_all campaign_pattern (attribution_campaign e))
         (Err ''attribution_campaign must be a bounded safe campaign code'')
      (andthen
         (if one_of (event_kind e) money_kinds then
            reject (\<not> (case amount e of None \<Rightarrow> False | Some a \<Rightarrow> amount_pattern a \<and> a \<noteq> ''0.00'')
                \<or> currency e \<noteq> ''RUB'')
              (Err ''monetary event requires a positive Decimal(18,2) RUB amount'') (Inr ())
          else
            reject (amount e \<noteq> None \<or> currency e \<noteq> [])
              (Err ''non-monetary event cannot contain amount or currency'') (Inr ())) (\<lambda>_.
       andthen
         (if event_kind e = ''recurring_charge_failed'' then
            reject (\<not> opt_in (event_failure_code e) failure_codes)
              (Err ''recurring_charge_failed requires an allowed failure_code'') (Inr ())
          else
            reject (event_failure_code e \<noteq> None)
              (Err ''failure_code is only allowed for recurring_charge_failed'') (Inr ())) (\<lambda>_.
         Inr \<lparr>the_record = e, occurred_at_time = occurred\<rparr>)))))))))"

text \<open>The loop of ParseBatch: the seen set, then the event, at each index.\<close>

fun validate_events ::
  "'u uuid_lib \<Rightarrow> time \<Rightarrow> string set \<Rightarrow> fr_event list \<Rightarrow> fr_event validated list result" where
  "validate_events lib sent seen [] = Inr []"
| "validate_events lib sent seen (e # es) =
     reject (event_id e \<in> seen) (Err ''duplicate event_id in batch'')
       (andthen (wrap ''records'' (validate_event lib e sent)) (\<lambda>v.
        andthen (validate_events lib sent (insert (event_id e) seen) es) (\<lambda>vs. Inr (v # vs))))"

definition fr_parse_batch :: "'u uuid_lib \<Rightarrow> string \<Rightarrow> time \<Rightarrow> fr_validated_batch result" where
  "fr_parse_batch lib data now =
     reject (length data > FrMaxBatchBytes) (Err ''batch exceeds maximum size'')
    (andthen (wrap ''decode fundraising batch'' (decode_object into_raw_map data [] FrMaxJSONDepth)) (\<lambda>raw.
     andthen (from_option (Err ''records must be an array'') (raw_records_of raw)) (\<lambda>raw_records.
       reject (list_ex (\<lambda>r. map_of r ''attribution_campaign'' = None) raw_records)
         (Err ''attribution_campaign is required and may be null'')
      (andthen (wrap ''decode fundraising batch''
          (decode_object into_fr_batch data zero_fr_batch FrMaxJSONDepth)) (\<lambda>batch.
         reject (fr_schema_version batch \<noteq> FrSchemaVersion) (Err ''unsupported schema_version'')
        (andthen (wrap ''batch_id'' (validate_uuid lib (fr_batch_id batch))) (\<lambda>_.
         andthen (wrap ''sent_at'' (parse_timestamp (fr_sent_at batch))) (\<lambda>sent.
           reject (sent < now - 7 * 24 * hour \<or> sent > now + 5 * minute)
             (Err ''sent_at is outside the allowed range'')
          (andthen (validate_record_count (length (fr_records batch))) (\<lambda>_.
           andthen (validate_events lib sent {} (fr_records batch)) (\<lambda>vs.
             Inr \<lparr>fr_batch = batch, fr_sent_at_time = sent, fr_events = vs\<rparr>)))))))))))"

subsection \<open>The contract of ParseBatch\<close>

definition amount_value :: "string \<Rightarrow> int" where
  "amount_value s = digits_value 0 (filter is_digit s)"

definition money_ok :: "fr_event \<Rightarrow> bool" where
  "money_ok e \<longleftrightarrow>
     (if event_kind e \<in> set money_kinds
      then currency e = ''RUB'' \<and> (\<exists>a. amount e = Some a \<and> amount_pattern a \<and> 0 < amount_value a \<and> amount_value a < 10 ^ 18)
      else currency e = [] \<and> amount e = None)"

definition event_ok :: "'u uuid_lib \<Rightarrow> time \<Rightarrow> fr_event \<Rightarrow> time \<Rightarrow> bool" where
  "event_ok lib sent e t \<longleftrightarrow>
     canonical_uuid lib (event_id e) \<and> parse_rfc3339 (event_occurred_at e) = Some t \<and> storable t
     \<and> sent - 30 * day \<le> t \<and> t \<le> sent + 5 * minute
     \<and> event_kind e \<in> set event_kinds \<and> frequency e \<in> {''one_time'', ''monthly''}
     \<and> attribution_source e \<in> set attribution_sources
     \<and> opt_all campaign_pattern (attribution_campaign e) \<and> money_ok e
     \<and> (if event_kind e = ''recurring_charge_failed'' then event_failure_code e \<in> Some ` set failure_codes
        else event_failure_code e = None)"

lemma filter_digits: "list_all is_digit s \<Longrightarrow> filter is_digit s = s"
  by (auto simp: list_all_iff filter_id_conv)

lemma digit_val_range: "is_digit c \<Longrightarrow> 0 \<le> digit_val c \<and> digit_val c \<le> 9"
proof -
  assume "is_digit c"
  then have "48 \<le> int (of_char c) \<and> int (of_char c) \<le> 57" by (simp add: is_digit_def Let_def)
  then show ?thesis by (simp add: digit_val_def of_nat_of_char)
qed

lemma digit_val_zero: "digit_val c = 0 \<Longrightarrow> c = CHR ''0''"
proof -
  assume "digit_val c = 0"
  then have "(of_char c :: int) = of_char (CHR ''0'')" by (simp add: digit_val_def)
  then show ?thesis by (simp only: of_char_eq_iff)
qed

lemma digits_value_bounds:
  "0 \<le> acc \<Longrightarrow> list_all is_digit s \<Longrightarrow>
     acc \<le> digits_value acc s \<and> digits_value acc s < (acc + 1) * 10 ^ length s"
proof (induction acc s rule: digits_value.induct)
  case (2 acc c cs)
  have c: "0 \<le> digit_val c \<and> digit_val c \<le> 9" using 2(3) digit_val_range by simp
  with 2 have ih: "digits_value (10 * acc + digit_val c) cs < (10 * acc + digit_val c + 1) * 10 ^ length cs
      \<and> 10 * acc + digit_val c \<le> digits_value (10 * acc + digit_val c) cs" by simp
  have "(10 * acc + digit_val c + 1) * 10 ^ length cs \<le> (10 * acc + 10) * (10 ^ length cs :: int)"
    using c by (intro mult_right_mono) auto
  also have "\<dots> = (acc + 1) * 10 ^ length (c # cs)" by (simp add: algebra_simps)
  finally show ?case using ih c 2(2) by (auto intro: less_le_trans order_trans [of _ "10 * acc + digit_val c"])
qed simp

text \<open>Digits all zero are the only ones with value zero.\<close>

lemma digits_value_zero:
  "0 \<le> acc \<Longrightarrow> list_all is_digit s \<Longrightarrow> digits_value acc s = 0 \<Longrightarrow> acc = 0 \<and> (\<forall>c \<in> set s. c = CHR ''0'')"
proof (induction acc s rule: digits_value.induct)
  case (2 acc c cs)
  have c: "0 \<le> digit_val c" using 2(3) digit_val_range by simp
  with 2 have "10 * acc + digit_val c = 0 \<and> (\<forall>c \<in> set cs. c = CHR ''0'')" by simp
  moreover from this have "digit_val c = 0 \<and> acc = 0" using 2(2) c by linarith
  ultimately show ?case using digit_val_zero [of c] by simp
qed simp

lemma amount_pattern_shape:
  assumes "amount_pattern s"
  obtains whole a b where "s = whole @ [CHR ''.'', a, b]" "list_all is_digit (whole @ [a, b])"
    "length whole \<le> 16" "whole = ''0'' \<or> whole \<noteq> [] \<and> hd whole \<noteq> CHR ''0''"
proof -
  define whole where "whole = take (length s - 3) s"
  define rest where "rest = drop (length s - 3) s"
  from assms have w: "whole = ''0'' \<or> ident_string (\<lambda>c. is_digit c \<and> c \<noteq> CHR ''0'') is_digit 15 whole"
    and r: "length rest = 3" "hd rest = CHR ''.''" "list_all is_digit (tl rest)"
    by (simp_all add: amount_pattern_def whole_def rest_def Let_def)
  from r obtain a b where ab: "rest = [CHR ''.'', a, b]" "is_digit a" "is_digit b"
    by (auto simp: numeral_3_eq_3 length_Suc_conv)
  have "is_digit (CHR ''0'')" by code_simp
  with w have wd: "list_all is_digit whole" "length whole \<le> 16"
      "whole = ''0'' \<or> whole \<noteq> [] \<and> hd whole \<noteq> CHR ''0''"
    by (auto simp: ident_string_def class_string_def split: list.splits)
  have "s = whole @ rest" by (simp add: whole_def rest_def)
  with that [of whole a b] ab wd show thesis by simp
qed

lemma amount_pattern_value:
  assumes "amount_pattern s" and "s \<noteq> ''0.00''"
  shows "0 < amount_value s \<and> amount_value s < 10 ^ 18"
proof -
  from amount_pattern_shape [OF assms(1)] obtain whole a b where
    s: "s = whole @ [CHR ''.'', a, b]" and d: "list_all is_digit (whole @ [a, b])"
    and l: "length whole \<le> 16" and z: "whole = ''0'' \<or> whole \<noteq> [] \<and> hd whole \<noteq> CHR ''0''" .
  have "filter is_digit s = whole @ [a, b]" using d by (simp add: s filter_digits)
  then have v: "amount_value s = digits_value 0 (whole @ [a, b])" by (simp add: amount_value_def)
  have "(10 :: int) ^ (length whole + 2) \<le> 10 ^ 18" using l by (intro power_increasing) auto
  moreover have "0 \<le> amount_value s \<and> amount_value s < 10 ^ (length whole + 2)"
    using digits_value_bounds [OF _ d, of 0] by (simp add: v)
  moreover have "amount_value s \<noteq> 0"
  proof
    assume "amount_value s = 0"
    with digits_value_zero [OF _ d, of 0] have "\<forall>c \<in> set (whole @ [a, b]). c = CHR ''0''"
      by (simp add: v)
    with z have "whole = ''0'' \<and> a = CHR ''0'' \<and> b = CHR ''0''"
      by (metis append_is_Nil_conv hd_in_set in_set_conv_decomp list.set_intros(1,2) set_append Un_iff)
    with s assms(2) show False by simp
  qed
  ultimately show ?thesis by linarith
qed

lemma amount_zero_value: "amount_value ''0.00'' = 0"
  by code_simp

lemma validate_event_Inr [result_simps]:
  "validate_event lib e sent = Inr v \<longleftrightarrow> the_record v = e \<and> event_ok lib sent e (occurred_at_time v)"
proof -
  have m: "(case amount e of None \<Rightarrow> False | Some a \<Rightarrow> amount_pattern a \<and> a \<noteq> ''0.00'') \<and> currency e = ''RUB''
      \<longleftrightarrow> currency e = ''RUB'' \<and> (\<exists>a. amount e = Some a \<and> amount_pattern a \<and> 0 < amount_value a \<and> amount_value a < 10 ^ 18)"
    using amount_pattern_value amount_zero_value by (auto split: option.splits)
  have d: "30 * 24 * hour = 30 * day" by (simp add: duration_defs)
  show ?thesis
    unfolding validate_event_def event_ok_def money_ok_def m [symmetric] d
    by (cases v) (auto simp: result_simps split: if_splits)
qed

lemma validate_events_Inr:
  "validate_events lib sent seen es = Inr vs \<Longrightarrow>
     map the_record vs = es \<and> distinct (map event_id es) \<and> event_id ` set es \<inter> seen = {}
     \<and> (\<forall>v \<in> set vs. event_ok lib sent (the_record v) (occurred_at_time v))"
proof (induction es arbitrary: seen vs)
  case (Cons e es)
  then obtain v ws where "event_id e \<notin> seen" "the_record v = e" "event_ok lib sent e (occurred_at_time v)"
    "validate_events lib sent (insert (event_id e) seen) es = Inr ws" "vs = v # ws"
    by (auto simp: result_simps)
  with Cons.IH [of "insert (event_id e) seen" ws] show ?case by auto
qed simp

definition fr_valid_batch :: "'u uuid_lib \<Rightarrow> time \<Rightarrow> fr_validated_batch \<Rightarrow> bool" where
  "fr_valid_batch lib now b \<longleftrightarrow>
     fr_schema_version (fr_batch b) = FrSchemaVersion \<and> canonical_uuid lib (fr_batch_id (fr_batch b))
     \<and> parse_rfc3339 (fr_sent_at (fr_batch b)) = Some (fr_sent_at_time b) \<and> storable (fr_sent_at_time b)
     \<and> now - 7 * day \<le> fr_sent_at_time b \<and> fr_sent_at_time b \<le> now + 5 * minute
     \<and> map the_record (fr_events b) = fr_records (fr_batch b)
     \<and> 1 \<le> length (fr_events b) \<and> length (fr_events b) \<le> 500
     \<and> distinct (map (event_id \<circ> the_record) (fr_events b))
     \<and> (\<forall>v \<in> set (fr_events b). event_ok lib (fr_sent_at_time b) (the_record v) (occurred_at_time v))"

lemma fr_parse_batch_valid:
  assumes "fr_parse_batch lib data now = Inr b"
  shows "fr_valid_batch lib now b"
proof -
  have d: "7 * 24 * hour = 7 * day" by (simp add: duration_defs)
  from assms obtain batch sent vs where b: "b = \<lparr>fr_batch = batch, fr_sent_at_time = sent, fr_events = vs\<rparr>"
    and h: "fr_schema_version batch = FrSchemaVersion" "canonical_uuid lib (fr_batch_id batch)"
      "parse_rfc3339 (fr_sent_at batch) = Some sent" "storable sent"
      "now - 7 * day \<le> sent" "sent \<le> now + 5 * minute"
      "1 \<le> length (fr_records batch)" "length (fr_records batch) \<le> 500"
    and v: "validate_events lib sent {} (fr_records batch) = Inr vs"
    unfolding fr_parse_batch_def d by (auto simp: result_simps)
  from validate_events_Inr [OF v] have m: "fr_records batch = map the_record vs"
    and "distinct (map event_id (fr_records batch))"
    and "\<forall>v \<in> set vs. event_ok lib sent (the_record v) (occurred_at_time v)" by simp_all
  with h b show ?thesis by (simp add: fr_valid_batch_def)
qed

text \<open>The map in the first pass has the members as the body has them, spelled exactly so.\<close>

lemma fr_parse_batch_raw:
  assumes "fr_parse_batch lib data now = Inr b"
  obtains ms raws where "length data \<le> FrMaxBatchBytes" "strict_json data FrMaxJSONDepth (JObj ms)"
    "raw_records_of ms = Some raws" "\<forall>r \<in> set raws. map_of r ''attribution_campaign'' \<noteq> None"
    "into_fr_batch (JObj ms) zero_fr_batch = Some (fr_batch b)"
proof -
  from assms obtain raw raws batch where *: "length data \<le> FrMaxBatchBytes"
    "decode_object into_raw_map data [] FrMaxJSONDepth = Inr raw" "raw_records_of raw = Some raws"
    "\<not> list_ex (\<lambda>r. map_of r ''attribution_campaign'' = None) raws"
    "decode_object into_fr_batch data zero_fr_batch FrMaxJSONDepth = Inr batch" "fr_batch b = batch"
    unfolding fr_parse_batch_def by (auto simp: result_simps)
  from decode_object_strict [OF *(2)] obtain ms where ms: "strict_json data FrMaxJSONDepth (JObj ms)"
    "raw = ms" by (metis into_raw_map.simps(1) append_Nil2 option.inject)
  from decode_object_strict [OF *(5)] obtain ms' where ms': "strict_json data FrMaxJSONDepth (JObj ms')"
    "into_fr_batch (JObj ms') zero_fr_batch = Some batch" by blast
  from ms(1) ms'(1) have "ms = ms'" using render_inject [of "JObj ms" "JObj ms'"]
    by (auto simp: strict_json_def)
  with that [OF *(1) ms(1)] * ms ms' show thesis by (auto simp: list_ex_iff)
qed

end
