(* ===== verification/Contract_V1.thy ===== *)
theory Contract_V1
  imports Contract_Common Go_Float
begin

section \<open>internal/contract/v1: the first telemetry contract\<close>

text \<open>
  contract.go, validate.go and privacy.go. A V1 body is decoded by the package's own
  decodeStrict, which does not look for repeated keys; the properties of an event stay raw JSON
  until validateProperties decodes them into the struct of the event's name and copies what it
  validated into \<open>dimensions\<close>, the columns of the events table. The closed forms say what the
  validators let through: \<open>dimensions_ok\<close> (every string is a bounded identifier, a fingerprint or
  one of an enumeration, so no free text reaches the store), \<open>event_v1_ok\<close> and \<open>summary_ok\<close>.
\<close>

record app_v1 =
  av_version :: string
  av_build :: string
  av_platform :: string
  av_os_version :: string
  av_locale :: string

record event_v1 =
  ev_id :: string
  ev_name :: string
  ev_occurred_at :: string
  ev_installation_id :: string
  ev_app_session_id :: string
  ev_game_session_id :: "string option"
  ev_app :: app_v1
  ev_properties :: "json option"

record session_summary =
  su_session_id :: string
  su_session_type :: string
  su_installation_id :: string
  su_app_session_id :: string
  su_game_session_id :: "string option"
  su_game_id :: "string option"
  su_started_at :: string
  su_ended_at :: string
  su_duration_ms :: "64 word"
  su_paused_ms :: "64 word"
  su_menu_mode :: string
  su_game_category :: string
  su_input_method :: string
  su_finish_reason :: string
  su_steps_completed :: "32 word"
  su_max_steps :: "32 word"
  su_success_count :: "32 word"
  su_mistake_count :: "32 word"
  su_hint_count :: "32 word"
  su_target_cancel_count :: "32 word"
  su_gaze_lost_count :: "32 word"
  su_difficulty_changes :: "32 word"
  su_gaze_sample_count :: "64 word"
  su_mouse_sample_count :: "64 word"
  su_valid_gaze_ratio :: "float64 option"
  su_mean_dwell_ms :: "float64 option"
  su_configured_dwell_ms :: "32 word"
  su_result :: string
  su_interruption_reason :: string
  su_app :: app_v1

record dimensions =
  d_page :: "string option"
  d_mode :: "string option"
  d_game_category :: "string option"
  d_setting_key :: "string option"
  d_setting_enabled :: "bool option"
  d_setting_number :: "float64 option"
  d_game_id :: "string option"
  d_level_index :: "32 word option"
  d_target_kind :: "string option"
  d_input_method :: "string option"
  d_elapsed_ms :: "32 word option"
  d_response_ms :: "32 word option"
  d_result :: "string option"
  d_reason :: "string option"
  d_hint_kind :: "string option"
  d_difficulty :: "8 word option"
  d_tobii_state :: "string option"
  d_updater_state :: "string option"
  d_updater_version :: "string option"
  d_error_fingerprint :: "string option"
  d_error_component :: "string option"
  d_dropped_count :: "64 word option"

record batch_v1 =
  bv_schema_version :: int
  bv_events :: "event_v1 list"
  bv_summaries :: "session_summary list"

record validated_event_v1 =
  ve_event :: event_v1
  ve_occurred_at :: time
  ve_dimensions :: dimensions

record validated_summary =
  vs_summary :: session_summary
  vs_started_at :: time
  vs_ended_at :: time

record validated_batch_v1 =
  vb_events :: "validated_event_v1 list"
  vb_summaries :: "validated_summary list"

record privacy_request_v1 =
  pv_schema_version :: int
  pv_request_id :: string
  pv_action :: string
  pv_requested_at :: string

record internal_privacy_request = privacy_request_v1 +
  pv_installation_id :: string

record validated_privacy_v1 =
  vp_request :: internal_privacy_request
  vp_requested_at :: time

record page_properties =
  pp_page :: string

record mode_properties =
  mp_mode :: string

record settings_properties =
  sp_setting_key :: string
  sp_enabled :: "bool option"
  sp_number :: "float64 option"

record game_properties =
  gp_game_id :: string
  gp_mode :: string
  gp_game_category :: string

record game_finished_properties =
  fp_game_id :: string
  fp_result :: string
  fp_reason :: string

record game_interrupted_properties =
  ip_game_id :: string
  ip_reason :: string

record level_properties =
  lp_game_id :: string
  lp_level_index :: "32 word option"

record target_properties =
  tp_game_id :: string
  tp_level_index :: "32 word option"
  tp_target_kind :: string
  tp_input_method :: string
  tp_elapsed_ms :: "32 word option"
  tp_reason :: string

record outcome_properties =
  op_game_id :: string
  op_level_index :: "32 word option"
  op_target_kind :: string
  op_input_method :: string
  op_response_ms :: "32 word option"

record hint_properties =
  hp_game_id :: string
  hp_level_index :: "32 word option"
  hp_hint_kind :: string

record difficulty_properties =
  dp_game_id :: string
  dp_difficulty :: "8 word"

record tobii_properties =
  bp_state :: string

record updater_properties =
  up_state :: string
  up_version :: string

record error_properties =
  er_fingerprint :: string
  er_component :: string

record queue_dropped_properties =
  qp_dropped_count :: "64 word"
  qp_reason :: string

definition SchemaVersionV1 :: int where "SchemaVersionV1 = 1"
definition MaxBatchRecordsV1 :: nat where "MaxBatchRecordsV1 = 500"

subsection \<open>The JSON shape of the structs\<close>

definition into_raw_v1 :: "json option into" where
  "into_raw_v1 v old = Some (Some v)"

definition zero_app_v1 :: app_v1 where
  "zero_app_v1 = \<lparr>av_version = [], av_build = [], av_platform = [], av_os_version = [], av_locale = []\<rparr>"

definition app_v1_fields :: "(string \<times> app_v1 into) list" where
  "app_v1_fields =
     [fld ''version'' av_version av_version_update into_string,
      fld ''build'' av_build av_build_update into_string,
      fld ''platform'' av_platform av_platform_update into_string,
      fld ''os_version'' av_os_version av_os_version_update into_string,
      fld ''locale'' av_locale av_locale_update into_string]"

definition zero_event_v1 :: event_v1 where
  "zero_event_v1 = \<lparr>ev_id = [], ev_name = [], ev_occurred_at = [], ev_installation_id = [], ev_app_session_id =
     [], ev_game_session_id = None, ev_app = zero_app_v1, ev_properties = None\<rparr>"

definition event_v1_fields :: "(string \<times> event_v1 into) list" where
  "event_v1_fields =
     [fld ''event_id'' ev_id ev_id_update into_string,
      fld ''event_name'' ev_name ev_name_update into_string,
      fld ''occurred_at'' ev_occurred_at ev_occurred_at_update into_string,
      fld ''installation_id'' ev_installation_id ev_installation_id_update into_string,
      fld ''app_session_id'' ev_app_session_id ev_app_session_id_update into_string,
      fld ''game_session_id'' ev_game_session_id ev_game_session_id_update (into_ptr [] into_string),
      fld ''app'' ev_app ev_app_update (into_struct app_v1_fields),
      fld ''properties'' ev_properties ev_properties_update into_raw_v1]"

definition zero_summary :: session_summary where
  "zero_summary = \<lparr>su_session_id = [], su_session_type = [], su_installation_id = [], su_app_session_id = [],
     su_game_session_id = None, su_game_id = None, su_started_at = [], su_ended_at = [],
     su_duration_ms = 0, su_paused_ms = 0, su_menu_mode = [], su_game_category = [],
     su_input_method = [], su_finish_reason = [], su_steps_completed = 0, su_max_steps = 0,
     su_success_count = 0, su_mistake_count = 0, su_hint_count = 0, su_target_cancel_count = 0,
     su_gaze_lost_count = 0, su_difficulty_changes = 0, su_gaze_sample_count = 0,
     su_mouse_sample_count = 0, su_valid_gaze_ratio = None, su_mean_dwell_ms = None,
     su_configured_dwell_ms = 0, su_result = [], su_interruption_reason = [], su_app =
     zero_app_v1\<rparr>"

definition summary_fields :: "(string \<times> session_summary into) list" where
  "summary_fields =
     [fld ''session_id'' su_session_id su_session_id_update into_string,
      fld ''session_type'' su_session_type su_session_type_update into_string,
      fld ''installation_id'' su_installation_id su_installation_id_update into_string,
      fld ''app_session_id'' su_app_session_id su_app_session_id_update into_string,
      fld ''game_session_id'' su_game_session_id su_game_session_id_update (into_ptr [] into_string),
      fld ''game_id'' su_game_id su_game_id_update (into_ptr [] into_string),
      fld ''started_at'' su_started_at su_started_at_update into_string,
      fld ''ended_at'' su_ended_at su_ended_at_update into_string,
      fld ''duration_ms'' su_duration_ms su_duration_ms_update into_word,
      fld ''paused_ms'' su_paused_ms su_paused_ms_update into_word,
      fld ''menu_mode'' su_menu_mode su_menu_mode_update into_string,
      fld ''game_category'' su_game_category su_game_category_update into_string,
      fld ''input_method'' su_input_method su_input_method_update into_string,
      fld ''finish_reason'' su_finish_reason su_finish_reason_update into_string,
      fld ''steps_completed'' su_steps_completed su_steps_completed_update into_word,
      fld ''max_steps'' su_max_steps su_max_steps_update into_word,
      fld ''success_count'' su_success_count su_success_count_update into_word,
      fld ''mistake_count'' su_mistake_count su_mistake_count_update into_word,
      fld ''hint_count'' su_hint_count su_hint_count_update into_word,
      fld ''target_cancel_count'' su_target_cancel_count su_target_cancel_count_update into_word,
      fld ''gaze_lost_count'' su_gaze_lost_count su_gaze_lost_count_update into_word,
      fld ''difficulty_changes'' su_difficulty_changes su_difficulty_changes_update into_word,
      fld ''gaze_sample_count'' su_gaze_sample_count su_gaze_sample_count_update into_word,
      fld ''mouse_sample_count'' su_mouse_sample_count su_mouse_sample_count_update into_word,
      fld ''valid_gaze_ratio'' su_valid_gaze_ratio su_valid_gaze_ratio_update (into_ptr (Fin 0 0) into_float),
      fld ''mean_dwell_ms'' su_mean_dwell_ms su_mean_dwell_ms_update (into_ptr (Fin 0 0) into_float),
      fld ''configured_dwell_ms'' su_configured_dwell_ms su_configured_dwell_ms_update into_word,
      fld ''result'' su_result su_result_update into_string,
      fld ''interruption_reason'' su_interruption_reason su_interruption_reason_update into_string,
      fld ''app'' su_app su_app_update (into_struct app_v1_fields)]"

definition no_dimensions :: dimensions where
  "no_dimensions = \<lparr>d_page = None, d_mode = None, d_game_category = None, d_setting_key = None,
     d_setting_enabled = None, d_setting_number = None, d_game_id = None, d_level_index = None,
     d_target_kind = None, d_input_method = None, d_elapsed_ms = None, d_response_ms = None,
     d_result = None, d_reason = None, d_hint_kind = None, d_difficulty = None, d_tobii_state =
     None, d_updater_state = None, d_updater_version = None, d_error_fingerprint = None,
     d_error_component = None, d_dropped_count = None\<rparr>"

definition into_batch_v1 :: "batch_v1 into" where
  "into_batch_v1 = into_struct
     [fld ''schema_version'' bv_schema_version bv_schema_version_update into_int64,
      fld ''events'' bv_events bv_events_update (into_slice zero_event_v1 (into_struct event_v1_fields)),
      fld ''session_summaries'' bv_summaries bv_summaries_update
        (into_slice zero_summary (into_struct summary_fields))]"

definition zero_batch_v1 :: batch_v1 where
  "zero_batch_v1 = \<lparr>bv_schema_version = 0, bv_events = [], bv_summaries = []\<rparr>"

definition privacy_v1_fields :: "(string \<times> 'z privacy_request_v1_scheme into) list" where
  "privacy_v1_fields =
     [fld ''schema_version'' pv_schema_version pv_schema_version_update into_int64,
      fld ''request_id'' pv_request_id pv_request_id_update into_string,
      fld ''action'' pv_action pv_action_update into_string,
      fld ''requested_at'' pv_requested_at pv_requested_at_update into_string]"

definition zero_privacy_v1 :: privacy_request_v1 where
  "zero_privacy_v1 = \<lparr>pv_schema_version = 0, pv_request_id = [], pv_action = [], pv_requested_at = []\<rparr>"

definition zero_internal_privacy :: internal_privacy_request where
  "zero_internal_privacy = privacy_request_v1.extend zero_privacy_v1 (internal_privacy_request.fields [])"

definition into_internal_privacy :: "internal_privacy_request into" where
  "into_internal_privacy = into_struct (privacy_v1_fields @
     [fld ''installation_id'' pv_installation_id pv_installation_id_update into_string])"

definition zero_page_properties :: page_properties where
  "zero_page_properties = \<lparr>pp_page = []\<rparr>"

definition page_properties_fields :: "(string \<times> page_properties into) list" where
  "page_properties_fields =
     [fld ''page'' pp_page pp_page_update into_string]"

definition zero_mode_properties :: mode_properties where
  "zero_mode_properties = \<lparr>mp_mode = []\<rparr>"

definition mode_properties_fields :: "(string \<times> mode_properties into) list" where
  "mode_properties_fields =
     [fld ''mode'' mp_mode mp_mode_update into_string]"

definition zero_settings_properties :: settings_properties where
  "zero_settings_properties = \<lparr>sp_setting_key = [], sp_enabled = None, sp_number = None\<rparr>"

definition settings_properties_fields :: "(string \<times> settings_properties into) list" where
  "settings_properties_fields =
     [fld ''setting_key'' sp_setting_key sp_setting_key_update into_string,
      fld ''enabled'' sp_enabled sp_enabled_update (into_ptr False into_bool),
      fld ''number'' sp_number sp_number_update (into_ptr (Fin 0 0) into_float)]"

definition zero_game_properties :: game_properties where
  "zero_game_properties = \<lparr>gp_game_id = [], gp_mode = [], gp_game_category = []\<rparr>"

definition game_properties_fields :: "(string \<times> game_properties into) list" where
  "game_properties_fields =
     [fld ''game_id'' gp_game_id gp_game_id_update into_string,
      fld ''mode'' gp_mode gp_mode_update into_string,
      fld ''game_category'' gp_game_category gp_game_category_update into_string]"

definition zero_game_finished_properties :: game_finished_properties where
  "zero_game_finished_properties = \<lparr>fp_game_id = [], fp_result = [], fp_reason = []\<rparr>"

definition game_finished_properties_fields :: "(string \<times> game_finished_properties into) list" where
  "game_finished_properties_fields =
     [fld ''game_id'' fp_game_id fp_game_id_update into_string,
      fld ''result'' fp_result fp_result_update into_string,
      fld ''reason'' fp_reason fp_reason_update into_string]"

definition zero_game_interrupted_properties :: game_interrupted_properties where
  "zero_game_interrupted_properties = \<lparr>ip_game_id = [], ip_reason = []\<rparr>"

definition game_interrupted_properties_fields :: "(string \<times> game_interrupted_properties into) list" where
  "game_interrupted_properties_fields =
     [fld ''game_id'' ip_game_id ip_game_id_update into_string,
      fld ''reason'' ip_reason ip_reason_update into_string]"

definition zero_level_properties :: level_properties where
  "zero_level_properties = \<lparr>lp_game_id = [], lp_level_index = None\<rparr>"

definition level_properties_fields :: "(string \<times> level_properties into) list" where
  "level_properties_fields =
     [fld ''game_id'' lp_game_id lp_game_id_update into_string,
      fld ''level_index'' lp_level_index lp_level_index_update (into_ptr 0 into_word)]"

definition zero_target_properties :: target_properties where
  "zero_target_properties = \<lparr>tp_game_id = [], tp_level_index = None, tp_target_kind = [], tp_input_method = [],
     tp_elapsed_ms = None, tp_reason = []\<rparr>"

definition target_properties_fields :: "(string \<times> target_properties into) list" where
  "target_properties_fields =
     [fld ''game_id'' tp_game_id tp_game_id_update into_string,
      fld ''level_index'' tp_level_index tp_level_index_update (into_ptr 0 into_word),
      fld ''target_kind'' tp_target_kind tp_target_kind_update into_string,
      fld ''input_method'' tp_input_method tp_input_method_update into_string,
      fld ''elapsed_ms'' tp_elapsed_ms tp_elapsed_ms_update (into_ptr 0 into_word),
      fld ''reason'' tp_reason tp_reason_update into_string]"

definition zero_outcome_properties :: outcome_properties where
  "zero_outcome_properties = \<lparr>op_game_id = [], op_level_index = None, op_target_kind = [], op_input_method = [],
     op_response_ms = None\<rparr>"

definition outcome_properties_fields :: "(string \<times> outcome_properties into) list" where
  "outcome_properties_fields =
     [fld ''game_id'' op_game_id op_game_id_update into_string,
      fld ''level_index'' op_level_index op_level_index_update (into_ptr 0 into_word),
      fld ''target_kind'' op_target_kind op_target_kind_update into_string,
      fld ''input_method'' op_input_method op_input_method_update into_string,
      fld ''response_ms'' op_response_ms op_response_ms_update (into_ptr 0 into_word)]"

definition zero_hint_properties :: hint_properties where
  "zero_hint_properties = \<lparr>hp_game_id = [], hp_level_index = None, hp_hint_kind = []\<rparr>"

definition hint_properties_fields :: "(string \<times> hint_properties into) list" where
  "hint_properties_fields =
     [fld ''game_id'' hp_game_id hp_game_id_update into_string,
      fld ''level_index'' hp_level_index hp_level_index_update (into_ptr 0 into_word),
      fld ''hint_kind'' hp_hint_kind hp_hint_kind_update into_string]"

definition zero_difficulty_properties :: difficulty_properties where
  "zero_difficulty_properties = \<lparr>dp_game_id = [], dp_difficulty = 0\<rparr>"

definition difficulty_properties_fields :: "(string \<times> difficulty_properties into) list" where
  "difficulty_properties_fields =
     [fld ''game_id'' dp_game_id dp_game_id_update into_string,
      fld ''difficulty'' dp_difficulty dp_difficulty_update into_word]"

definition zero_tobii_properties :: tobii_properties where
  "zero_tobii_properties = \<lparr>bp_state = []\<rparr>"

definition tobii_properties_fields :: "(string \<times> tobii_properties into) list" where
  "tobii_properties_fields =
     [fld ''state'' bp_state bp_state_update into_string]"

definition zero_updater_properties :: updater_properties where
  "zero_updater_properties = \<lparr>up_state = [], up_version = []\<rparr>"

definition updater_properties_fields :: "(string \<times> updater_properties into) list" where
  "updater_properties_fields =
     [fld ''state'' up_state up_state_update into_string,
      fld ''version'' up_version up_version_update into_string]"

definition zero_error_properties :: error_properties where
  "zero_error_properties = \<lparr>er_fingerprint = [], er_component = []\<rparr>"

definition error_properties_fields :: "(string \<times> error_properties into) list" where
  "error_properties_fields =
     [fld ''fingerprint'' er_fingerprint er_fingerprint_update into_string,
      fld ''component'' er_component er_component_update into_string]"

definition zero_queue_dropped_properties :: queue_dropped_properties where
  "zero_queue_dropped_properties = \<lparr>qp_dropped_count = 0, qp_reason = []\<rparr>"

definition queue_dropped_properties_fields :: "(string \<times> queue_dropped_properties into) list" where
  "queue_dropped_properties_fields =
     [fld ''dropped_count'' qp_dropped_count qp_dropped_count_update into_word,
      fld ''reason'' qp_reason qp_reason_update into_string]"

subsection \<open>Validation\<close>

definition safe_v1_pattern :: "string \<Rightarrow> bool" where
  "safe_v1_pattern = ident_string is_alnum (\<lambda>c. is_alnum c \<or> List.member ''._:+-'' c) 95"

definition fingerprint_v1_pattern :: "string \<Rightarrow> bool" where
  "fingerprint_v1_pattern s =
     (class_string is_any_hex 16 96 s
      \<or> has_prefix s ''sha256:'' \<and> class_string is_any_hex 64 64 (drop 7 s))"

definition known_event_names :: "string list" where
  "known_event_names =
     [''installation_created'', ''app_started'', ''app_backgrounded'', ''app_foregrounded'', ''app_closed'',
      ''page_viewed'', ''mode_changed'', ''settings_changed'', ''game_session_started'',
      ''game_session_paused'', ''game_session_resumed'', ''game_session_finished'',
      ''game_session_interrupted'', ''level_entered'', ''level_cancelled'', ''level_clicked'',
      ''target_entered'', ''target_cancelled'', ''target_clicked'', ''success'', ''mistake'', ''hint_used'',
      ''difficulty_changed'', ''tobii_state_changed'', ''updater_state_changed'', ''error'', ''queue_dropped'']"

definition validate_safe :: "string \<Rightarrow> unit result" where
  "validate_safe v = reject (\<not> safe_v1_pattern v) (Err ''contains an unsafe or empty value'') (Inr ())"

definition validate_optional_safe :: "string \<Rightarrow> unit result" where
  "validate_optional_safe v = (if v = [] then Inr () else validate_safe v)"

fun validate_safe_values :: "string list \<Rightarrow> unit result" where
  "validate_safe_values [] = Inr ()"
| "validate_safe_values (v # vs) = andthen (validate_safe v) (\<lambda>_. validate_safe_values vs)"

definition optional_string :: "string \<Rightarrow> string option" where
  "optional_string v = (if v = [] then None else Some v)"

fun validate_uuids :: "'u uuid_lib \<Rightarrow> string list \<Rightarrow> unit result" where
  "validate_uuids lib [] = Inr ()"
| "validate_uuids lib (v # vs) =
     (case uuid_parse lib v of None \<Rightarrow> Inl (Err ''invalid UUID'') | Some _ \<Rightarrow> validate_uuids lib vs)"

definition parse_millisecond_time :: "string \<Rightarrow> time result" where
  "parse_millisecond_time v =
     andthen (from_option (Err ''must be RFC3339'') (parse_rfc3339 v)) (\<lambda>parsed.
       reject (nanosecond parsed mod millisecond \<noteq> 0)
         (Err ''precision must not exceed milliseconds'') (Inr parsed))"

definition decode_strict :: "'r into \<Rightarrow> string \<Rightarrow> 'r \<Rightarrow> 'r result" where
  "decode_strict into data destination =
     (let trimmed = trim_space data
      in reject (trimmed = [] \<or> hd trimmed \<noteq> CHR ''{'') (Err ''expected JSON object'')
        (andthen (from_option (Err ''unexpected data after JSON object'')
            (Option.bind (lex trimmed) json_decode)) (\<lambda>v.
           from_option (Err ''json: cannot decode'') (into v destination))))"

text \<open>decodeStrict on the raw properties, already one JSON value; absent ones have no bytes.\<close>

definition decode_properties :: "(string \<times> 'r into) list \<Rightarrow> json option \<Rightarrow> 'r \<Rightarrow> 'r result" where
  "decode_properties tbl raw destination =
     (case raw of
        Some (JObj ms) \<Rightarrow> from_option (Err ''json: cannot decode'') (into_struct tbl (JObj ms) destination)
      | _ \<Rightarrow> Inl (Err ''expected JSON object''))"

definition validate_target :: "string \<Rightarrow> string \<Rightarrow> string \<Rightarrow> bool \<Rightarrow> unit result" where
  "validate_target game target method required =
     andthen (validate_safe game) (\<lambda>_.
     andthen (if required then validate_safe target else validate_optional_safe target) (\<lambda>_.
       reject (\<not> one_of method [''mouse'', ''touch'', ''gaze'', ''keyboard'']) (Err ''unknown input_method'')
         (Inr ())))"

definition validate_app_v1 :: "app_v1 \<Rightarrow> unit result" where
  "validate_app_v1 a =
     andthen (validate_safe_values [av_version a, av_build a, av_os_version a, av_locale a]) (\<lambda>_.
       reject (\<not> one_of (av_platform a) [''windows'', ''macos'', ''linux''])
         (Err ''app.platform must be windows, macos, or linux'') (Inr ()))"

definition tobii_states :: "string list" where
  "tobii_states =
     [''unsupported'', ''service_starting'', ''service_unavailable'', ''connecting'', ''waiting_device'',
      ''connected'', ''tracking'', ''reconnecting'', ''error'']"

definition updater_states :: "string list" where
  "updater_states =
     [''idle'', ''checking'', ''available'', ''downloading'', ''downloaded'', ''installing'', ''error'']"

definition queue_reasons :: "string list" where
  "queue_reasons = [''capacity'', ''expired'', ''invalid'', ''shutdown'']"

subsection \<open>validateProperties, one branch of the switch at a time\<close>

definition page_dimensions :: "json option \<Rightarrow> dimensions result" where
  "page_dimensions raw =
     andthen (decode_properties page_properties_fields raw zero_page_properties) (\<lambda>p.
     andthen (validate_safe (pp_page p)) (\<lambda>_. Inr (no_dimensions\<lparr>d_page := Some (pp_page p)\<rparr>)))"

definition mode_dimensions :: "json option \<Rightarrow> dimensions result" where
  "mode_dimensions raw =
     andthen (decode_properties mode_properties_fields raw zero_mode_properties) (\<lambda>p.
     andthen (validate_safe (mp_mode p)) (\<lambda>_. Inr (no_dimensions\<lparr>d_mode := Some (mp_mode p)\<rparr>)))"

definition settings_dimensions :: "json option \<Rightarrow> dimensions result" where
  "settings_dimensions raw =
     andthen (decode_properties settings_properties_fields raw zero_settings_properties) (\<lambda>p.
     andthen (validate_safe (sp_setting_key p)) (\<lambda>_.
       reject ((sp_enabled p = None) = (sp_number p = None))
         (Err ''exactly one of enabled or number is required'')
      (reject (\<not> opt_all (\<lambda>x. \<not> (float_lt x 0 \<or> float_gt x 100000)) (sp_number p))
         (Err ''number is outside the safe range'')
         (Inr (no_dimensions\<lparr>d_setting_key := Some (sp_setting_key p),
                 d_setting_enabled := sp_enabled p, d_setting_number := sp_number p\<rparr>)))))"

definition game_dimensions :: "json option \<Rightarrow> dimensions result" where
  "game_dimensions raw =
     andthen (decode_properties game_properties_fields raw zero_game_properties) (\<lambda>p.
     andthen (validate_safe (gp_game_id p)) (\<lambda>_.
     andthen (validate_optional_safe (gp_mode p)) (\<lambda>_.
     andthen (validate_optional_safe (gp_game_category p)) (\<lambda>_.
       Inr (no_dimensions\<lparr>d_game_id := Some (gp_game_id p), d_mode := optional_string (gp_mode p),
              d_game_category := optional_string (gp_game_category p)\<rparr>)))))"

definition game_finished_dimensions :: "json option \<Rightarrow> dimensions result" where
  "game_finished_dimensions raw =
     andthen (decode_properties game_finished_properties_fields raw zero_game_finished_properties) (\<lambda>p.
     andthen (validate_safe (fp_game_id p)) (\<lambda>_.
     andthen (validate_optional_safe (fp_result p)) (\<lambda>_.
     andthen (validate_safe (fp_reason p)) (\<lambda>_.
       Inr (no_dimensions\<lparr>d_game_id := Some (fp_game_id p), d_result := optional_string (fp_result p),
              d_reason := Some (fp_reason p)\<rparr>)))))"

definition game_interrupted_dimensions :: "json option \<Rightarrow> dimensions result" where
  "game_interrupted_dimensions raw =
     andthen (decode_properties game_interrupted_properties_fields raw zero_game_interrupted_properties) (\<lambda>p.
     andthen (validate_safe (ip_game_id p)) (\<lambda>_.
     andthen (validate_safe (ip_reason p)) (\<lambda>_.
       Inr (no_dimensions\<lparr>d_game_id := Some (ip_game_id p), d_reason := Some (ip_reason p)\<rparr>))))"

definition level_required :: "32 word option \<Rightarrow> 'a result \<Rightarrow> 'a result" where
  "level_required level k = reject (level = None) (Err ''level_index is required'') k"

definition level_dimensions :: "json option \<Rightarrow> dimensions result" where
  "level_dimensions raw =
     andthen (decode_properties level_properties_fields raw zero_level_properties) (\<lambda>p.
     andthen (validate_safe (lp_game_id p)) (\<lambda>_.
       level_required (lp_level_index p)
         (Inr (no_dimensions\<lparr>d_game_id := Some (lp_game_id p), d_level_index := lp_level_index p\<rparr>))))"

definition target_dimensions :: "json option \<Rightarrow> dimensions result" where
  "target_dimensions raw =
     andthen (decode_properties target_properties_fields raw zero_target_properties) (\<lambda>p.
     andthen (validate_target (tp_game_id p) (tp_target_kind p) (tp_input_method p) True) (\<lambda>_.
       level_required (tp_level_index p)
      (reject (\<not> opt_all (\<lambda>n. n \<le> 60000) (tp_elapsed_ms p)) (Err ''elapsed_ms exceeds one minute'')
      (andthen (validate_optional_safe (tp_reason p)) (\<lambda>_.
         Inr (no_dimensions\<lparr>d_game_id := Some (tp_game_id p), d_level_index := tp_level_index p,
                d_target_kind := Some (tp_target_kind p), d_input_method := Some (tp_input_method p),
                d_elapsed_ms := tp_elapsed_ms p, d_reason := optional_string (tp_reason p)\<rparr>))))))"

definition outcome_dimensions :: "json option \<Rightarrow> dimensions result" where
  "outcome_dimensions raw =
     andthen (decode_properties outcome_properties_fields raw zero_outcome_properties) (\<lambda>p.
     andthen (validate_target (op_game_id p) (op_target_kind p) (op_input_method p) False) (\<lambda>_.
       level_required (op_level_index p)
      (reject (\<not> opt_all (\<lambda>n. n \<le> 24 * 60 * 60 * 1000) (op_response_ms p)) (Err ''response_ms exceeds one day'')
         (Inr (no_dimensions\<lparr>d_game_id := Some (op_game_id p), d_level_index := op_level_index p,
                 d_target_kind := optional_string (op_target_kind p),
                 d_input_method := Some (op_input_method p), d_response_ms := op_response_ms p\<rparr>)))))"

definition hint_dimensions :: "json option \<Rightarrow> dimensions result" where
  "hint_dimensions raw =
     andthen (decode_properties hint_properties_fields raw zero_hint_properties) (\<lambda>p.
     andthen (validate_safe_values [hp_game_id p, hp_hint_kind p]) (\<lambda>_.
       level_required (hp_level_index p)
         (Inr (no_dimensions\<lparr>d_game_id := Some (hp_game_id p), d_level_index := hp_level_index p,
                 d_hint_kind := Some (hp_hint_kind p)\<rparr>))))"

definition difficulty_dimensions :: "json option \<Rightarrow> dimensions result" where
  "difficulty_dimensions raw =
     andthen (decode_properties difficulty_properties_fields raw zero_difficulty_properties) (\<lambda>p.
     andthen (validate_safe (dp_game_id p)) (\<lambda>_.
       reject (dp_difficulty p < 1 \<or> dp_difficulty p > 10) (Err ''difficulty must be between 1 and 10'')
         (Inr (no_dimensions\<lparr>d_game_id := Some (dp_game_id p), d_difficulty := Some (dp_difficulty p)\<rparr>))))"

definition tobii_dimensions :: "json option \<Rightarrow> dimensions result" where
  "tobii_dimensions raw =
     andthen (decode_properties tobii_properties_fields raw zero_tobii_properties) (\<lambda>p.
       reject (\<not> one_of (bp_state p) tobii_states) (Err ''unknown Tobii state'')
         (Inr (no_dimensions\<lparr>d_tobii_state := Some (bp_state p)\<rparr>)))"

definition updater_dimensions :: "json option \<Rightarrow> dimensions result" where
  "updater_dimensions raw =
     andthen (decode_properties updater_properties_fields raw zero_updater_properties) (\<lambda>p.
       reject (\<not> one_of (up_state p) updater_states) (Err ''unknown updater state'')
      (andthen (validate_optional_safe (up_version p)) (\<lambda>_.
         Inr (no_dimensions\<lparr>d_updater_state := Some (up_state p),
                d_updater_version := optional_string (up_version p)\<rparr>))))"

definition error_dimensions :: "json option \<Rightarrow> dimensions result" where
  "error_dimensions raw =
     andthen (decode_properties error_properties_fields raw zero_error_properties) (\<lambda>p.
       reject (\<not> fingerprint_v1_pattern (er_fingerprint p))
         (Err ''fingerprint must be a stable hexadecimal hash'')
      (andthen (validate_safe (er_component p)) (\<lambda>_.
         Inr (no_dimensions\<lparr>d_error_fingerprint := Some (er_fingerprint p),
                d_error_component := Some (er_component p)\<rparr>))))"

definition queue_dimensions :: "json option \<Rightarrow> dimensions result" where
  "queue_dimensions raw =
     andthen (decode_properties queue_dropped_properties_fields raw zero_queue_dropped_properties) (\<lambda>p.
       reject (qp_dropped_count p = 0) (Err ''dropped_count must be positive'')
      (reject (\<not> one_of (qp_reason p) queue_reasons) (Err ''unknown queue drop reason'')
         (Inr (no_dimensions\<lparr>d_dropped_count := Some (qp_dropped_count p),
                 d_reason := Some (qp_reason p)\<rparr>))))"

definition lifecycle_events :: "string list" where
  "lifecycle_events =
     [''installation_created'', ''app_started'', ''app_backgrounded'', ''app_foregrounded'', ''app_closed'']"

text \<open>The switch: the dimensions and whether the event belongs to a game session.\<close>

definition game_event :: "dimensions result \<Rightarrow> (dimensions \<times> bool) result" where
  "game_event r = andthen r (\<lambda>d. Inr (d, True))"

definition app_event :: "dimensions result \<Rightarrow> (dimensions \<times> bool) result" where
  "app_event r = andthen r (\<lambda>d. Inr (d, False))"

definition validate_properties :: "string \<Rightarrow> json option \<Rightarrow> (dimensions \<times> bool) result" where
  "validate_properties name raw =
     (if one_of name lifecycle_events then
        app_event (andthen (decode_properties [] raw ()) (\<lambda>_. Inr no_dimensions))
      else if name = ''page_viewed'' then app_event (page_dimensions raw)
      else if name = ''mode_changed'' then app_event (mode_dimensions raw)
      else if name = ''settings_changed'' then app_event (settings_dimensions raw)
      else if one_of name [''game_session_started'', ''game_session_paused'', ''game_session_resumed''] then
        game_event (game_dimensions raw)
      else if name = ''game_session_finished'' then game_event (game_finished_dimensions raw)
      else if name = ''game_session_interrupted'' then game_event (game_interrupted_dimensions raw)
      else if one_of name [''level_entered'', ''level_cancelled'', ''level_clicked''] then
        game_event (level_dimensions raw)
      else if one_of name [''target_entered'', ''target_cancelled'', ''target_clicked''] then
        game_event (target_dimensions raw)
      else if one_of name [''success'', ''mistake''] then game_event (outcome_dimensions raw)
      else if name = ''hint_used'' then game_event (hint_dimensions raw)
      else if name = ''difficulty_changed'' then game_event (difficulty_dimensions raw)
      else if name = ''tobii_state_changed'' then app_event (tobii_dimensions raw)
      else if name = ''updater_state_changed'' then app_event (updater_dimensions raw)
      else if name = ''error'' then app_event (error_dimensions raw)
      else if name = ''queue_dropped'' then app_event (queue_dimensions raw)
      else Inl (Err ''unknown event_name''))"

subsection \<open>Events, summaries, batches and privacy requests\<close>

definition validate_event_v1 :: "'u uuid_lib \<Rightarrow> event_v1 \<Rightarrow> validated_event_v1 result" where
  "validate_event_v1 lib e =
     andthen (validate_uuids lib [ev_id e, ev_installation_id e, ev_app_session_id e]) (\<lambda>_.
     andthen (case ev_game_session_id e of
                None \<Rightarrow> Inr () | Some g \<Rightarrow> wrap ''game_session_id'' (validate_uuids lib [g])) (\<lambda>_.
       reject (\<not> one_of (ev_name e) known_event_names) (Err ''unknown event_name'')
      (andthen (validate_app_v1 (ev_app e)) (\<lambda>_.
       andthen (wrap ''occurred_at'' (parse_millisecond_time (ev_occurred_at e))) (\<lambda>occurred.
       andthen (wrap ''properties'' (validate_properties (ev_name e) (ev_properties e))) (\<lambda>(d, game).
         reject (game \<and> ev_game_session_id e = None) (Err ''game_session_id is required for game events'')
           (Inr \<lparr>ve_event = e, ve_occurred_at = occurred, ve_dimensions = d\<rparr>)))))))"

definition validate_summary :: "'u uuid_lib \<Rightarrow> session_summary \<Rightarrow> validated_summary result" where
  "validate_summary lib s =
     andthen (validate_uuids lib [su_session_id s, su_installation_id s, su_app_session_id s]) (\<lambda>_.
     andthen (validate_app_v1 (su_app s)) (\<lambda>_.
     andthen (wrap ''started_at'' (parse_millisecond_time (su_started_at s))) (\<lambda>started.
     andthen (wrap ''ended_at'' (parse_millisecond_time (su_ended_at s))) (\<lambda>ended.
       reject (ended < started) (Err ''ended_at precedes started_at'')
      (reject (su_duration_ms s > word_of_int (7 * 24 * hour div millisecond))
         (Err ''duration_ms exceeds seven days'')
      (andthen (validate_optional_safe (su_result s)) (\<lambda>_.
       andthen (validate_optional_safe (su_interruption_reason s)) (\<lambda>_.
       andthen (validate_optional_safe (su_menu_mode s)) (\<lambda>_.
       andthen (validate_optional_safe (su_game_category s)) (\<lambda>_.
       andthen (validate_optional_safe (su_input_method s)) (\<lambda>_.
       andthen (validate_optional_safe (su_finish_reason s)) (\<lambda>_.
         reject (\<not> opt_all (\<lambda>x. \<not> (float_lt x 0 \<or> float_gt x 1)) (su_valid_gaze_ratio s))
           (Err ''valid_gaze_ratio must be between zero and one'')
        (reject (\<not> opt_all (\<lambda>x. \<not> (float_lt x 0 \<or> float_gt x 60000)) (su_mean_dwell_ms s))
           (Err ''mean_dwell_ms is outside the safe range'')
        (reject (su_configured_dwell_ms s > 60000) (Err ''configured_dwell_ms exceeds one minute'')
        (andthen
          (if su_session_type s = ''app'' then
             reject (su_session_id s \<noteq> su_app_session_id s \<or> su_game_session_id s \<noteq> None \<or> su_game_id s \<noteq> None)
               (Err ''invalid app session identifiers'') (Inr ())
           else if su_session_type s = ''game'' then
             (case (su_game_session_id s, su_game_id s) of
                (Some g, Some i) \<Rightarrow>
                  reject (su_session_id s \<noteq> g) (Err ''invalid game session identifiers'')
                    (andthen (wrap ''game_session_id'' (validate_uuids lib [g])) (\<lambda>_. validate_safe i))
              | _ \<Rightarrow> Inl (Err ''invalid game session identifiers''))
           else Inl (Err ''session_type must be app or game'')) (\<lambda>_.
           Inr \<lparr>vs_summary = s, vs_started_at = started, vs_ended_at = ended\<rparr>))))))))))))))))"

definition parse_batch_v1 :: "'u uuid_lib \<Rightarrow> string \<Rightarrow> validated_batch_v1 result" where
  "parse_batch_v1 lib data =
     andthen (wrap ''decode batch'' (decode_strict into_batch_v1 data zero_batch_v1)) (\<lambda>batch.
       reject (bv_schema_version batch \<noteq> SchemaVersionV1) (Err ''unsupported schema_version'')
      (let n = length (bv_events batch) + length (bv_summaries batch)
       in reject (n = 0 \<or> n > MaxBatchRecordsV1) (Err ''batch must contain between 1 and 500 records'')
         (andthen (traverse (\<lambda>e. wrap ''events'' (validate_event_v1 lib e)) (bv_events batch)) (\<lambda>es.
          andthen (traverse (\<lambda>s. wrap ''session_summaries'' (validate_summary lib s)) (bv_summaries batch)) (\<lambda>ss.
            Inr \<lparr>vb_events = es, vb_summaries = ss\<rparr>)))))"

definition validate_privacy_v1 ::
  "'u uuid_lib \<Rightarrow> internal_privacy_request \<Rightarrow> time \<Rightarrow> validated_privacy_v1 result" where
  "validate_privacy_v1 lib r now =
     reject (pv_schema_version r \<noteq> SchemaVersionV1 \<or> pv_action r \<noteq> ''delete'')
       (Err ''invalid V1 privacy request'')
    (andthen (validate_uuids lib [pv_request_id r, pv_installation_id r]) (\<lambda>_.
     let outside = Err ''requested_at is outside the allowed range''
     in (case parse_millisecond_time (pv_requested_at r) of
           Inl _ \<Rightarrow> Inl outside
         | Inr requested \<Rightarrow>
             reject (requested < now - 24 * hour \<or> requested > now + 5 * minute) outside
               (Inr \<lparr>vp_request = r, vp_requested_at = requested\<rparr>))))"

definition parse_public_privacy_request ::
  "'u uuid_lib \<Rightarrow> string \<Rightarrow> string \<Rightarrow> time \<Rightarrow> validated_privacy_v1 result" where
  "parse_public_privacy_request lib data installation now =
     andthen (decode_object (into_struct privacy_v1_fields) data zero_privacy_v1 8) (\<lambda>r.
       validate_privacy_v1 lib
         (privacy_request_v1.extend r (internal_privacy_request.fields installation)) now)"

definition parse_internal_privacy_request ::
  "'u uuid_lib \<Rightarrow> string \<Rightarrow> time \<Rightarrow> validated_privacy_v1 result" where
  "parse_internal_privacy_request lib data now =
     andthen (decode_object into_internal_privacy data zero_internal_privacy 8) (\<lambda>r.
       validate_privacy_v1 lib r now)"

subsection \<open>What the validators let through\<close>

definition number_ok :: "int \<Rightarrow> float64 \<Rightarrow> bool" where
  "number_ok hi x \<longleftrightarrow> \<not> float_lt x 0 \<and> \<not> float_gt x hi"

definition dimensions_ok :: "dimensions \<Rightarrow> bool" where
  "dimensions_ok d \<longleftrightarrow>
     (\<forall>v \<in> {d_page d, d_mode d, d_game_category d, d_setting_key d, d_game_id d, d_target_kind d,
             d_result d, d_reason d, d_hint_kind d, d_updater_version d, d_error_component d}.
        opt_all safe_v1_pattern v)
     \<and> opt_all (\<lambda>m. m \<in> {''mouse'', ''touch'', ''gaze'', ''keyboard''}) (d_input_method d)
     \<and> opt_all (\<lambda>s. s \<in> set tobii_states) (d_tobii_state d)
     \<and> opt_all (\<lambda>s. s \<in> set updater_states) (d_updater_state d)
     \<and> opt_all fingerprint_v1_pattern (d_error_fingerprint d)
     \<and> opt_all (number_ok 100000) (d_setting_number d)
     \<and> opt_all (\<lambda>n. uint n \<le> 60000) (d_elapsed_ms d)
     \<and> opt_all (\<lambda>n. uint n \<le> 86400000) (d_response_ms d)
     \<and> opt_all (\<lambda>n. 1 \<le> uint n \<and> uint n \<le> 10) (d_difficulty d)
     \<and> opt_all (\<lambda>n. 1 \<le> uint n) (d_dropped_count d)"

definition app_v1_ok :: "app_v1 \<Rightarrow> bool" where
  "app_v1_ok a \<longleftrightarrow>
     safe_v1_pattern (av_version a) \<and> safe_v1_pattern (av_build a) \<and> safe_v1_pattern (av_os_version a)
     \<and> safe_v1_pattern (av_locale a) \<and> av_platform a \<in> {''windows'', ''macos'', ''linux''}"

definition parses_uuid :: "'u uuid_lib \<Rightarrow> string \<Rightarrow> bool" where
  "parses_uuid lib v \<longleftrightarrow> uuid_parse lib v \<noteq> None"

definition timestamp_v1 :: "string \<Rightarrow> time \<Rightarrow> bool" where
  "timestamp_v1 v t \<longleftrightarrow> parse_rfc3339 v = Some t \<and> t mod millisecond = 0"

definition game_event_names :: "string list" where
  "game_event_names =
     [''game_session_started'', ''game_session_paused'', ''game_session_resumed'',
      ''game_session_finished'', ''game_session_interrupted'', ''level_entered'', ''level_cancelled'',
      ''level_clicked'', ''target_entered'', ''target_cancelled'', ''target_clicked'', ''success'',
      ''mistake'', ''hint_used'', ''difficulty_changed'']"

definition event_v1_ok :: "'u uuid_lib \<Rightarrow> validated_event_v1 \<Rightarrow> bool" where
  "event_v1_ok lib v \<longleftrightarrow>
     (let e = ve_event v in
       parses_uuid lib (ev_id e) \<and> parses_uuid lib (ev_installation_id e) \<and> parses_uuid lib (ev_app_session_id e)
       \<and> opt_all (parses_uuid lib) (ev_game_session_id e)
       \<and> ev_name e \<in> set known_event_names \<and> app_v1_ok (ev_app e)
       \<and> timestamp_v1 (ev_occurred_at e) (ve_occurred_at v) \<and> dimensions_ok (ve_dimensions v)
       \<and> (ev_name e \<in> set game_event_names \<longrightarrow> ev_game_session_id e \<noteq> None \<and> d_game_id (ve_dimensions v) \<noteq> None))"

definition optional_safe :: "string \<Rightarrow> bool" where
  "optional_safe v \<longleftrightarrow> v = [] \<or> safe_v1_pattern v"

definition summary_ok :: "'u uuid_lib \<Rightarrow> validated_summary \<Rightarrow> bool" where
  "summary_ok lib v \<longleftrightarrow>
     (let s = vs_summary v in
       parses_uuid lib (su_session_id s) \<and> parses_uuid lib (su_installation_id s)
       \<and> parses_uuid lib (su_app_session_id s) \<and> app_v1_ok (su_app s)
       \<and> timestamp_v1 (su_started_at s) (vs_started_at v) \<and> timestamp_v1 (su_ended_at s) (vs_ended_at v)
       \<and> vs_started_at v \<le> vs_ended_at v \<and> uint (su_duration_ms s) \<le> 604800000
       \<and> (\<forall>x \<in> {su_result s, su_interruption_reason s, su_menu_mode s, su_game_category s,
                 su_input_method s, su_finish_reason s}. optional_safe x)
       \<and> opt_all (number_ok 1) (su_valid_gaze_ratio s) \<and> opt_all (number_ok 60000) (su_mean_dwell_ms s)
       \<and> uint (su_configured_dwell_ms s) \<le> 60000
       \<and> (su_session_type s = ''app'' \<and> su_session_id s = su_app_session_id s
            \<and> su_game_session_id s = None \<and> su_game_id s = None
        \<or> su_session_type s = ''game'' \<and> su_game_session_id s = Some (su_session_id s)
            \<and> (\<exists>g. su_game_id s = Some g \<and> safe_v1_pattern g)))"

definition valid_batch_v1 :: "'u uuid_lib \<Rightarrow> validated_batch_v1 \<Rightarrow> bool" where
  "valid_batch_v1 lib b \<longleftrightarrow>
     1 \<le> length (vb_events b) + length (vb_summaries b) \<and> length (vb_events b) + length (vb_summaries b) \<le> 500
     \<and> (\<forall>v \<in> set (vb_events b). event_v1_ok lib v) \<and> (\<forall>v \<in> set (vb_summaries b). summary_ok lib v)"

lemma validate_safe_Inr [result_simps]: "validate_safe v = Inr u \<longleftrightarrow> safe_v1_pattern v"
  by (auto simp: validate_safe_def result_simps)

lemma validate_optional_safe_Inr [result_simps]: "validate_optional_safe v = Inr u \<longleftrightarrow> optional_safe v"
  by (auto simp: validate_optional_safe_def optional_safe_def result_simps)

lemma validate_safe_values_Inr [result_simps]:
  "validate_safe_values vs = Inr u \<longleftrightarrow> (\<forall>v \<in> set vs. safe_v1_pattern v)"
  by (induction vs) (auto simp: result_simps)

lemma validate_uuids_Inr [result_simps]:
  "validate_uuids lib vs = Inr u \<longleftrightarrow> (\<forall>v \<in> set vs. parses_uuid lib v)"
  by (induction vs) (auto simp: parses_uuid_def split: option.splits)

declare validate_uuids.simps [simp del] validate_safe_values.simps [simp del]

lemma parse_millisecond_time_Inr [result_simps]: "parse_millisecond_time v = Inr t \<longleftrightarrow> timestamp_v1 v t"
  by (auto simp: parse_millisecond_time_def timestamp_v1_def result_simps nanosecond_millisecond)

lemma validate_app_v1_Inr [result_simps]: "validate_app_v1 a = Inr u \<longleftrightarrow> app_v1_ok a"
  by (auto simp: validate_app_v1_def app_v1_ok_def result_simps)

lemma validate_target_Inr [result_simps]:
  "validate_target g t m r = Inr u \<longleftrightarrow>
     safe_v1_pattern g \<and> (if r then safe_v1_pattern t else optional_safe t)
     \<and> m \<in> {''mouse'', ''touch'', ''gaze'', ''keyboard''}"
  by (auto simp: validate_target_def result_simps)

lemma level_required_Inr [result_simps]: "level_required l k = Inr d \<longleftrightarrow> l \<noteq> None \<and> k = Inr d"
  by (auto simp: level_required_def result_simps)

lemma optional_string_safe [simp]: "opt_all safe_v1_pattern (optional_string v) \<longleftrightarrow> optional_safe v"
  by (auto simp: optional_string_def optional_safe_def)

lemma optional_string_None [simp]: "optional_string v = None \<longleftrightarrow> v = []"
  by (simp add: optional_string_def)

lemma optional_string_Some: "optional_string v = Some x \<longleftrightarrow> v \<noteq> [] \<and> x = v"
  by (auto simp: optional_string_def)

lemma queue_reasons_safe: "list_all safe_v1_pattern queue_reasons"
  by code_simp

lemma queue_reason_safe: "r \<in> set queue_reasons \<Longrightarrow> safe_v1_pattern r"
  using queue_reasons_safe by (simp add: list_all_iff)

lemma uint_pos_iff: "c \<noteq> 0 \<longleftrightarrow> 1 \<le> uint c"
proof -
  have "c = 0 \<longleftrightarrow> uint c = 0" by (simp add: uint_0_iff)
  with uint_ge_0 [of c] show ?thesis by presburger
qed

lemma word_bounds:
  "n \<le> (60000 :: 32 word) \<longleftrightarrow> uint n \<le> 60000"
  "n \<le> (24 * 60 * 60 * 1000 :: 32 word) \<longleftrightarrow> uint n \<le> 86400000"
  "n > (60000 :: 32 word) \<longleftrightarrow> \<not> uint n \<le> 60000"
  "d < (1 :: 8 word) \<longleftrightarrow> \<not> 1 \<le> uint d"
  "d > (10 :: 8 word) \<longleftrightarrow> \<not> uint d \<le> 10"
  "m > (word_of_int (7 * 24 * hour div millisecond) :: 64 word) \<longleftrightarrow> \<not> uint m \<le> 604800000"
  by (auto simp: word_le_def word_less_def not_less duration_defs)

lemmas dimension_defs = dimensions_ok_def no_dimensions_def number_ok_def result_simps

lemma branch_dimensions:
  "page_dimensions raw = Inr d \<Longrightarrow> dimensions_ok d"
  "mode_dimensions raw = Inr d \<Longrightarrow> dimensions_ok d"
  "settings_dimensions raw = Inr d \<Longrightarrow> dimensions_ok d"
  "tobii_dimensions raw = Inr d \<Longrightarrow> dimensions_ok d"
  "updater_dimensions raw = Inr d \<Longrightarrow> dimensions_ok d"
  "error_dimensions raw = Inr d \<Longrightarrow> dimensions_ok d"
  "queue_dimensions raw = Inr d \<Longrightarrow> dimensions_ok d"
  unfolding page_dimensions_def mode_dimensions_def settings_dimensions_def tobii_dimensions_def
    updater_dimensions_def error_dimensions_def queue_dimensions_def
  by (auto simp: dimension_defs optional_string_Some optional_safe_def opt_all_iff uint_pos_iff
      queue_reason_safe)

lemma game_branch_dimensions:
  "game_dimensions raw = Inr d \<Longrightarrow> dimensions_ok d \<and> d_game_id d \<noteq> None"
  "game_finished_dimensions raw = Inr d \<Longrightarrow> dimensions_ok d \<and> d_game_id d \<noteq> None"
  "game_interrupted_dimensions raw = Inr d \<Longrightarrow> dimensions_ok d \<and> d_game_id d \<noteq> None"
  "level_dimensions raw = Inr d \<Longrightarrow> dimensions_ok d \<and> d_game_id d \<noteq> None"
  "target_dimensions raw = Inr d \<Longrightarrow> dimensions_ok d \<and> d_game_id d \<noteq> None"
  "outcome_dimensions raw = Inr d \<Longrightarrow> dimensions_ok d \<and> d_game_id d \<noteq> None"
  "hint_dimensions raw = Inr d \<Longrightarrow> dimensions_ok d \<and> d_game_id d \<noteq> None"
  "difficulty_dimensions raw = Inr d \<Longrightarrow> dimensions_ok d \<and> d_game_id d \<noteq> None"
  unfolding game_dimensions_def game_finished_dimensions_def game_interrupted_dimensions_def
    level_dimensions_def target_dimensions_def outcome_dimensions_def hint_dimensions_def
    difficulty_dimensions_def word_bounds
  by (auto simp: dimension_defs)

lemma events_Inr [result_simps]:
  "game_event r = Inr (d, g) \<longleftrightarrow> r = Inr d \<and> g"
  "app_event r = Inr (d, g) \<longleftrightarrow> r = Inr d \<and> \<not> g"
  by (auto simp: game_event_def app_event_def result_simps)

lemmas event_name_lists = known_event_names_def lifecycle_events_def game_event_names_def

lemma properties_branch:
  "n \<in> set lifecycle_events \<Longrightarrow> validate_properties n raw =
     app_event (andthen (decode_properties [] raw ()) (\<lambda>_. Inr no_dimensions))"
  "validate_properties ''page_viewed'' raw = app_event (page_dimensions raw)"
  "validate_properties ''mode_changed'' raw = app_event (mode_dimensions raw)"
  "validate_properties ''settings_changed'' raw = app_event (settings_dimensions raw)"
  "validate_properties ''tobii_state_changed'' raw = app_event (tobii_dimensions raw)"
  "validate_properties ''updater_state_changed'' raw = app_event (updater_dimensions raw)"
  "validate_properties ''error'' raw = app_event (error_dimensions raw)"
  "validate_properties ''queue_dropped'' raw = app_event (queue_dimensions raw)"
  "validate_properties ''game_session_started'' raw = game_event (game_dimensions raw)"
  "validate_properties ''game_session_paused'' raw = game_event (game_dimensions raw)"
  "validate_properties ''game_session_resumed'' raw = game_event (game_dimensions raw)"
  "validate_properties ''game_session_finished'' raw = game_event (game_finished_dimensions raw)"
  "validate_properties ''game_session_interrupted'' raw = game_event (game_interrupted_dimensions raw)"
  "validate_properties ''level_entered'' raw = game_event (level_dimensions raw)"
  "validate_properties ''level_cancelled'' raw = game_event (level_dimensions raw)"
  "validate_properties ''level_clicked'' raw = game_event (level_dimensions raw)"
  "validate_properties ''target_entered'' raw = game_event (target_dimensions raw)"
  "validate_properties ''target_cancelled'' raw = game_event (target_dimensions raw)"
  "validate_properties ''target_clicked'' raw = game_event (target_dimensions raw)"
  "validate_properties ''success'' raw = game_event (outcome_dimensions raw)"
  "validate_properties ''mistake'' raw = game_event (outcome_dimensions raw)"
  "validate_properties ''hint_used'' raw = game_event (hint_dimensions raw)"
  "validate_properties ''difficulty_changed'' raw = game_event (difficulty_dimensions raw)"
  by (simp_all add: validate_properties_def lifecycle_events_def)

lemma validate_properties_ok:
  assumes "validate_properties name raw = Inr (d, g)" and "name \<in> set known_event_names"
  shows "dimensions_ok d \<and> (g \<longleftrightarrow> name \<in> set game_event_names) \<and> (g \<longrightarrow> d_game_id d \<noteq> None)"
proof (cases "name \<in> set lifecycle_events")
  case True
  have "set lifecycle_events \<inter> set game_event_names = {}" by code_simp
  moreover have "dimensions_ok no_dimensions" by (simp add: dimension_defs)
  ultimately show ?thesis
    using assms(1) True by (auto simp: properties_branch(1) events_Inr andthen_Inr)
next
  case False
  with assms(2) have "name \<in> {''page_viewed'', ''mode_changed'', ''settings_changed'',
      ''tobii_state_changed'', ''updater_state_changed'', ''error'', ''queue_dropped''}
    \<or> name \<in> set game_event_names" by (auto simp: event_name_lists)
  then show ?thesis
  proof
    assume n: "name \<in> {''page_viewed'', ''mode_changed'', ''settings_changed'',
      ''tobii_state_changed'', ''updater_state_changed'', ''error'', ''queue_dropped''}"
    moreover from n have "name \<notin> set game_event_names" by (auto simp: game_event_names_def)
    ultimately show ?thesis
      using assms(1) by (auto simp: properties_branch(2-8) events_Inr dest: branch_dimensions)
  next
    assume n: "name \<in> set game_event_names"
    with assms(1) have "g \<and> dimensions_ok d \<and> d_game_id d \<noteq> None"
      unfolding game_event_names_def
      by (auto simp del: not_None_eq simp: properties_branch(9-23) events_Inr
          dest!: game_branch_dimensions)
    with n show ?thesis by simp
  qed
qed

lemma validate_event_v1_ok:
  assumes "validate_event_v1 lib e = Inr v"
  shows "ve_event v = e \<and> event_v1_ok lib v"
proof -
  have o: "(case ev_game_session_id e of None \<Rightarrow> Inr () | Some g \<Rightarrow> wrap ''game_session_id'' (validate_uuids lib [g])) = Inr u
      \<longleftrightarrow> opt_all (parses_uuid lib) (ev_game_session_id e)" for u
    by (auto simp: result_simps split: option.splits)
  from assms obtain d g where "validate_properties (ev_name e) (ev_properties e) = Inr (d, g)"
    "g \<longrightarrow> ev_game_session_id e \<noteq> None" "ve_dimensions v = d" "ve_event v = e"
    "\<forall>x \<in> {ev_id e, ev_installation_id e, ev_app_session_id e}. parses_uuid lib x"
    "opt_all (parses_uuid lib) (ev_game_session_id e)" "ev_name e \<in> set known_event_names"
    "app_v1_ok (ev_app e)" "timestamp_v1 (ev_occurred_at e) (ve_occurred_at v)"
    unfolding validate_event_v1_def o by (auto simp: result_simps o)
  with validate_properties_ok [of "ev_name e" "ev_properties e" d g] show ?thesis
    by (auto simp: event_v1_ok_def Let_def)
qed

lemma validate_summary_ok:
  assumes "validate_summary lib s = Inr v"
  shows "vs_summary v = s \<and> summary_ok lib v"
  using assms unfolding validate_summary_def word_bounds
  by (auto simp: summary_ok_def number_ok_def opt_all_iff word_bounds Let_def result_simps
      split: if_splits option.splits)

lemma parse_batch_v1_valid:
  assumes "parse_batch_v1 lib data = Inr b"
  shows "valid_batch_v1 lib b"
proof -
  from assms obtain batch :: batch_v1 and es ss where n: "\<not> (length (bv_events batch) + length (bv_summaries batch) = 0
        \<or> 500 < length (bv_events batch) + length (bv_summaries batch))"
    and b: "b = \<lparr>vb_events = es, vb_summaries = ss\<rparr>"
    and e': "traverse (\<lambda>e. wrap ''events'' (validate_event_v1 lib e)) (bv_events batch) = Inr es"
    and s': "traverse (\<lambda>s. wrap ''session_summaries'' (validate_summary lib s)) (bv_summaries batch) = Inr ss"
    unfolding parse_batch_v1_def Let_def MaxBatchRecordsV1_def andthen_Inr reject_Inr sum.inject by blast
  from e' s' b have e: "traverse (\<lambda>e. wrap ''events'' (validate_event_v1 lib e)) (bv_events batch) = Inr (vb_events b)"
    and s: "traverse (\<lambda>s. wrap ''session_summaries'' (validate_summary lib s)) (bv_summaries batch) = Inr (vb_summaries b)"
    by simp_all
  have "event_v1_ok lib v" if "v \<in> set (vb_events b)" for v
    by (rule traverse_setD [OF e that]) (auto simp: wrap_Inr dest: validate_event_v1_ok)
  moreover have "summary_ok lib v" if "v \<in> set (vb_summaries b)" for v
    by (rule traverse_setD [OF s that]) (auto simp: wrap_Inr dest: validate_summary_ok)
  moreover have "1 \<le> length (vb_events b) + length (vb_summaries b)"
    "length (vb_events b) + length (vb_summaries b) \<le> 500"
    using n traverse_length [OF e] traverse_length [OF s] by linarith+
  ultimately show ?thesis by (simp add: valid_batch_v1_def)
qed

definition valid_privacy_v1 :: "'u uuid_lib \<Rightarrow> time \<Rightarrow> validated_privacy_v1 \<Rightarrow> bool" where
  "valid_privacy_v1 lib now p \<longleftrightarrow>
     (let r = vp_request p in
       pv_schema_version r = SchemaVersionV1 \<and> pv_action r = ''delete''
       \<and> parses_uuid lib (pv_request_id r) \<and> parses_uuid lib (pv_installation_id r)
       \<and> timestamp_v1 (pv_requested_at r) (vp_requested_at p)
       \<and> now - day \<le> vp_requested_at p \<and> vp_requested_at p \<le> now + 5 * minute)"

lemma validate_privacy_v1_Inr [result_simps]:
  "validate_privacy_v1 lib r now = Inr p \<longleftrightarrow> vp_request p = r \<and> valid_privacy_v1 lib now p"
proof -
  have "24 * hour = day" by (simp add: duration_defs)
  then show ?thesis
    by (cases p) (auto simp: validate_privacy_v1_def valid_privacy_v1_def Let_def result_simps)
qed

text \<open>The installation of a public request is the caller's, whatever the body says.\<close>

lemma public_privacy_installation:
  assumes "parse_public_privacy_request lib data i now = Inr p"
  shows "pv_installation_id (vp_request p) = i \<and> valid_privacy_v1 lib now p"
  using assms by (auto simp: parse_public_privacy_request_def result_simps
      privacy_request_v1.defs internal_privacy_request.defs)

lemma internal_privacy_valid:
  "parse_internal_privacy_request lib data now = Inr p \<Longrightarrow> valid_privacy_v1 lib now p"
  by (auto simp: parse_internal_privacy_request_def result_simps)

end
