(* ===== verification/Samples.thy ===== *)
theory Samples
  imports Contract_V2 Contract_Fundraising Contract_V1
begin

section \<open>Concrete inputs\<close>

text \<open>
  A UUID library for examples (36 characters are a UUID, String is the identity) and bodies that
  the contracts accept, with the JSON values that they hold. The lemmas evaluate the parsers on
  them in two steps: the text to its JSON value, the value to the batch.
\<close>

definition plain_uuids :: "string uuid_lib" where
  "plain_uuids = \<lparr>uuid_parse = (\<lambda>s. if length s = 36 then Some s else None), uuid_string = id,
     uuid_nil = ''00000000-0000-0000-0000-000000000000''\<rparr>"

definition sample_now :: time where
  "sample_now = 1784635200000000000"

definition sample_subject :: string where
  "sample_subject = ''a1fd852a6ad52468c6ad95b47df33966052a4fc3ff44334e5bcfc4f03e24c372''"

definition v2_body :: string where
  "v2_body = ''{\"schema_version\":2,\"batch_id\":\"10000000-0000-4000-8000-000000000001\",\"scope\":{\"product\":\"linka-site\",\"subject_key\":\"a1fd852a6ad52468c6ad95b47df33966052a4fc3ff44334e5bcfc4f03e24c372\"},\"stream\":\"product\",\"sent_at\":\"2026-07-21T12:00:00Z\",\"records\":[{\"record_id\":\"20000000-0000-4000-8000-000000000002\",\"occurred_at\":\"2026-07-21T11:59:00Z\",\"kind\":\"page_view\",\"app_session_id\":\"30000000-0000-4000-8000-000000000003\",\"app\":{\"version\":\"1.0\",\"build\":\"7\",\"platform\":\"web\",\"os_version\":\"x\",\"locale\":\"ru\"}}]}''"

definition v2_json :: json where
  "v2_json = JObj
    [(''schema_version'', JNum ''2''), (''batch_id'', JStr ''10000000-0000-4000-8000-000000000001''),
     (''scope'', JObj [(''product'', JStr ''linka-site''), (''subject_key'', JStr sample_subject)]),
     (''stream'', JStr ''product''), (''sent_at'', JStr ''2026-07-21T12:00:00Z''),
     (''records'', JArr [JObj
       [(''record_id'', JStr ''20000000-0000-4000-8000-000000000002''),
        (''occurred_at'', JStr ''2026-07-21T11:59:00Z''), (''kind'', JStr ''page_view''),
        (''app_session_id'', JStr ''30000000-0000-4000-8000-000000000003''),
        (''app'', JObj [(''version'', JStr ''1.0''), (''build'', JStr ''7''), (''platform'', JStr ''web''),
           (''os_version'', JStr ''x''), (''locale'', JStr ''ru'')])]])]"

lemma v2_body_lex: "lex (trim_space v2_body) = Some (render v2_json)"
  by code_simp

lemma decode_object_of_strict:
  assumes "lex (trim_space data) = Some (render v)" and "trim_space data \<noteq> []"
    and "hd (trim_space data) = CHR ''{''" and "jdepth v \<le> m" and "unique_keys v"
  shows "decode_object into data r m = from_option (Err ''json: cannot decode'') (into v r)"
proof -
  from lex_brace [OF assms(1-3)] obtain ms where ms: "v = JObj ms" by blast
  have "validate (render v) m = Inr ()"
    using assms(4,5) by (subst validate_accepts) blast
  moreover have "json_decode (render v) = Some v" by (simp add: json_decode_iff)
  moreover have "\<not> m < 1" using jdepth_pos [of v] assms(4) by simp
  ultimately show ?thesis
    using assms(1-3) by (auto simp: decode_object_def Let_def)
qed

lemma v2_body_decodes:
  "decode_object into v2_body r MaxJSONDepth = from_option (Err ''json: cannot decode'') (into v2_json r)"
  by (rule decode_object_of_strict [OF v2_body_lex]) code_simp+

definition v2_header :: batch_header where
  "v2_header = \<lparr>schema_version = 2, batch_id = ''10000000-0000-4000-8000-000000000001'',
     header_scope = \<lparr>product_id = ''linka-site'', subject_key = sample_subject,
       person_key = None, org_key = None\<rparr>,
     stream = ''product'', sent_at = ''2026-07-21T12:00:00Z''\<rparr>"

definition v2_record :: product_record where
  "v2_record = \<lparr>record_id = ''20000000-0000-4000-8000-000000000002'',
     occurred_at = ''2026-07-21T11:59:00Z'', kind = ''page_view'',
     app_session_id = ''30000000-0000-4000-8000-000000000003'',
     app = \<lparr>app_version = ''1.0'', app_build = ''7'', app_platform = ''web'',
       app_os_version = ''x'', app_locale = ''ru''\<rparr>\<rparr>"

definition v2_spec :: spec where
  "v2_spec = \<lparr>spec_id = ''linka-site'', opaque_key_of = sample_subject, spec_streams = [''product''],
     spec_game_ids = [], spec_product_kinds = [''page_view''], spec_outcome_rules = []\<rparr>"

definition v2_validated :: "product_record validated list \<Rightarrow> validated_batch" where
  "v2_validated rs = \<lparr>header = v2_header, sent_at_time = sample_now, product_key = sample_subject,
     common_records = [], technical_records = [], plays_records = [], product_records = rs,
     outcome_records = []\<rparr>"

lemma v2_into_envelope: "\<exists>raw. into_envelope v2_json zero_envelope
    = Some (batch_header.extend v2_header (envelope.fields raw))"
  by (rule exI [of _ "Some (the (map_of (case v2_json of JObj ms \<Rightarrow> ms) ''records''))"]) code_simp

lemma v2_into_batch:
  "into_batch base_fields zero_base v2_json (batch_header.extend zero_header (batch.fields []))
     = Some (batch_header.extend v2_header (batch.fields [v2_record]))"
  by code_simp

lemma v2_validate_header:
  "validate_header plain_uuids v2_header sample_now = Inr (v2_validated [], v2_spec)"
  by code_simp

lemma v2_validate_record:
  "validate_product_record plain_uuids v2_record sample_now v2_spec
     = Inr \<lparr>the_record = v2_record, occurred_at_time = sample_now - minute\<rparr>"
  by code_simp

lemma v2_stream: "stream v2_header = StreamProduct" "StreamProduct \<noteq> StreamCommon"
  "StreamProduct \<noteq> StreamTechnical" "StreamProduct \<noteq> StreamPlays"
  by code_simp+

lemma v2_parse_records:
  "parse_records base_fields zero_base
     (\<lambda>r. validate_product_record plain_uuids r sample_now v2_spec) v2_body
   = Inr [\<lparr>the_record = v2_record, occurred_at_time = sample_now - minute\<rparr>]"
  by (simp add: parse_records_def v2_body_decodes validate_record_count_def v2_validate_record
      v2_into_batch [unfolded batch_header.defs batch.defs] batch_header.defs batch.defs)

lemma v2_body_length: "length v2_body \<le> MaxBatchBytes"
proof -
  have "length v2_body = 497" by code_simp
  then show ?thesis by (simp add: MaxBatchBytes_def)
qed

lemma v2_batch_parses:
  "parse_batch plain_uuids v2_body sample_now
     = Inr (v2_validated [\<lparr>the_record = v2_record, occurred_at_time = sample_now - minute\<rparr>])"
proof -
  define e where "e raw = batch_header.extend v2_header (envelope.fields raw)" for raw
  have e: "batch_header.truncate (e raw) = v2_header" "stream (e raw) = StreamProduct" for raw
    by (simp_all add: e_def batch_header.defs v2_stream(1))
  have "sent_at_time (v2_validated []) = sample_now"
    "(v2_validated [])\<lparr>product_records := rs\<rparr> = v2_validated rs"
    "validate_unique_record_ids (v2_validated [r]) = Inr ()" for rs r
    by (simp_all add: v2_validated_def validate_unique_record_ids_def)
  then show ?thesis
    using v2_into_envelope v2_body_length unfolding e_def [symmetric]
    by (auto simp: parse_batch_def parse_stream_def v2_body_decodes v2_validate_header v2_stream(2-)
        v2_parse_records e)
qed

definition privacy_body :: string where
  "privacy_body = ''{\"schema_version\":2,\"request_id\":\"10000000-0000-4000-8000-000000000001\",\"scope\":{\"product\":\"linka-site\",\"subject_key\":\"a1fd852a6ad52468c6ad95b47df33966052a4fc3ff44334e5bcfc4f03e24c372\"},\"action\":\"delete\",\"requested_at\":\"2026-07-21T12:00:00Z\"}''"

definition privacy_members :: "(string \<times> json) list" where
  "privacy_members =
    [(''schema_version'', JNum ''2''), (''request_id'', JStr ''10000000-0000-4000-8000-000000000001''), (''scope'', JObj
    [(''product'', JStr ''linka-site''), (''subject_key'', JStr ''a1fd852a6ad52468c6ad95b47df33966052a4fc3ff44334e5bcfc4f03e24c372'')]), (''action'', JStr ''delete''), (''requested_at'', JStr ''2026-07-21T12:00:00Z'')]"

definition privacy_json :: json where
  "privacy_json = JObj privacy_members"

lemma privacy_body_decodes:
  "decode_object into privacy_body r MaxJSONDepth = from_option (Err ''json: cannot decode'') (into privacy_json r)"
  by (rule decode_object_of_strict) code_simp+

lemma privacy_body_length: "length privacy_body = 242"
  by code_simp

definition fr_body :: string where
  "fr_body = ''{\"schema_version\":1,\"batch_id\":\"10000000-0000-4000-8000-000000000001\",\"sent_at\":\"2026-07-21T12:00:00Z\",\"records\":[{\"event_id\":\"20000000-0000-4000-8000-000000000002\",\"occurred_at\":\"2026-07-21T11:59:00Z\",\"kind\":\"payment_succeeded\",\"amount\":\"150.00\",\"currency\":\"RUB\",\"frequency\":\"one_time\",\"attribution_source\":\"direct\",\"attribution_campaign\":null}]}''"

definition fr_json :: json where
  "fr_json = JObj
    [(''schema_version'', JNum ''1''), (''batch_id'', JStr ''10000000-0000-4000-8000-000000000001''), (''sent_at'', JStr ''2026-07-21T12:00:00Z''), (''records'', JArr [JObj
    [(''event_id'', JStr ''20000000-0000-4000-8000-000000000002''), (''occurred_at'', JStr ''2026-07-21T11:59:00Z''), (''kind'', JStr ''payment_succeeded''), (''amount'', JStr ''150.00''), (''currency'', JStr ''RUB''), (''frequency'', JStr ''one_time''), (''attribution_source'', JStr ''direct''), (''attribution_campaign'', JNull)]])]"

lemma fr_body_decodes:
  "decode_object into fr_body r FrMaxJSONDepth = from_option (Err ''json: cannot decode'') (into fr_json r)"
  by (rule decode_object_of_strict) code_simp+

lemma fr_body_length: "length fr_body = 347"
  by code_simp

definition evasive_body :: string where
  "evasive_body = ''{\"schema_version\":1,\"batch_id\":\"10000000-0000-4000-8000-000000000001\",\"sent_at\":\"2026-07-21T12:00:00Z\",\"records\":[],\"Records\":[{\"event_id\":\"20000000-0000-4000-8000-000000000002\",\"occurred_at\":\"2026-07-21T11:59:00Z\",\"kind\":\"payment_succeeded\",\"amount\":\"150.00\",\"currency\":\"RUB\",\"frequency\":\"one_time\",\"attribution_source\":\"direct\"}]}''"

definition evasive_json :: json where
  "evasive_json = JObj
    [(''schema_version'', JNum ''1''), (''batch_id'', JStr ''10000000-0000-4000-8000-000000000001''), (''sent_at'', JStr ''2026-07-21T12:00:00Z''), (''records'', JArr []), (''Records'', JArr [JObj
    [(''event_id'', JStr ''20000000-0000-4000-8000-000000000002''), (''occurred_at'', JStr ''2026-07-21T11:59:00Z''), (''kind'', JStr ''payment_succeeded''), (''amount'', JStr ''150.00''), (''currency'', JStr ''RUB''), (''frequency'', JStr ''one_time''), (''attribution_source'', JStr ''direct'')]])]"

lemma evasive_body_decodes:
  "decode_object into evasive_body r FrMaxJSONDepth = from_option (Err ''json: cannot decode'') (into evasive_json r)"
  by (rule decode_object_of_strict) code_simp+

lemma evasive_body_length: "length evasive_body = 332"
  by code_simp

definition v1_body :: string where
  "v1_body = ''{\"schema_version\":1,\"events\":[{\"event_id\":\"10000000-0000-4000-8000-000000000001\",\"event_name\":\"page_viewed\",\"occurred_at\":\"2026-07-21T12:00:00Z\",\"installation_id\":\"20000000-0000-4000-8000-000000000002\",\"app_session_id\":\"30000000-0000-4000-8000-000000000003\",\"app\":{\"version\":\"1.0\",\"build\":\"7\",\"platform\":\"windows\",\"os_version\":\"10\",\"locale\":\"ru\"},\"properties\":{\"page\":\"home\"}}]}''"

definition v1_json :: json where
  "v1_json = JObj
    [(''schema_version'', JNum ''1''), (''events'', JArr [JObj
    [(''event_id'', JStr ''10000000-0000-4000-8000-000000000001''), (''event_name'', JStr ''page_viewed''), (''occurred_at'', JStr ''2026-07-21T12:00:00Z''), (''installation_id'', JStr ''20000000-0000-4000-8000-000000000002''), (''app_session_id'', JStr ''30000000-0000-4000-8000-000000000003''), (''app'', JObj
    [(''version'', JStr ''1.0''), (''build'', JStr ''7''), (''platform'', JStr ''windows''), (''os_version'', JStr ''10''), (''locale'', JStr ''ru'')]), (''properties'', JObj
    [(''page'', JStr ''home'')])]])]"

lemma v1_body_decodes:
  "decode_strict into v1_body r = from_option (Err ''json: cannot decode'') (into v1_json r)"
proof -
  have "lex (trim_space v1_body) = Some (render v1_json)" "trim_space v1_body \<noteq> []"
    "hd (trim_space v1_body) = CHR ''{''" by code_simp+
  moreover have "json_decode (render v1_json) = Some v1_json" by (simp only: json_decode_iff)
  ultimately show ?thesis by (simp add: decode_strict_def Let_def)
qed

lemma v1_body_length: "length v1_body = 378"
  by code_simp

definition v1_privacy_body :: string where
  "v1_privacy_body = ''{\"schema_version\":1,\"request_id\":\"10000000-0000-4000-8000-000000000001\",\"action\":\"delete\",\"requested_at\":\"2026-07-21T12:00:00Z\"}''"

definition v1_privacy_json :: json where
  "v1_privacy_json = JObj
    [(''schema_version'', JNum ''1''), (''request_id'', JStr ''10000000-0000-4000-8000-000000000001''), (''action'', JStr ''delete''), (''requested_at'', JStr ''2026-07-21T12:00:00Z'')]"

lemma v1_privacy_body_decodes:
  "decode_object into v1_privacy_body r 8 = from_option (Err ''json: cannot decode'') (into v1_privacy_json r)"
  by (rule decode_object_of_strict) code_simp+

lemma v1_privacy_body_length: "length v1_privacy_body = 128"
  by code_simp

definition twice_body :: string where
  "twice_body = ''{\"schema_version\":2,\"request_id\":\"10000000-0000-4000-8000-000000000001\",\"scope\":{\"product\":\"linka-site\",\"subject_key\":\"a1fd852a6ad52468c6ad95b47df33966052a4fc3ff44334e5bcfc4f03e24c372\"},\"action\":\"delete\",\"requested_at\":\"2026-07-21T12:00:00Z\",\"REQUEST_ID\":\"20000000-0000-4000-8000-000000000002\"}''"

definition twice_json :: json where
  "twice_json = JObj (privacy_members @ [(''REQUEST_ID'', JStr ''20000000-0000-4000-8000-000000000002'')])"

lemma twice_body_lexes: "lex (trim_space twice_body) = Some (render twice_json)" "hd (trim_space twice_body) = CHR ''{''"
  by code_simp+

lemma twice_body_length: "length twice_body = 294"
  by code_simp

definition privacy_value :: privacy_request where
  "privacy_value = \<lparr>privacy_schema_version = 2, request_id = ''10000000-0000-4000-8000-000000000001'',
     privacy_scope = \<lparr>product_id = ''linka-site'', subject_key = sample_subject, person_key = None,
       org_key = None\<rparr>, privacy_action = ''delete'', requested_at = ''2026-07-21T12:00:00Z''\<rparr>"

definition privacy_validated :: validated_privacy_request where
  "privacy_validated = \<lparr>the_request = privacy_value, privacy_product_key = sample_subject,
     requested_at_time = sample_now\<rparr>"

lemma privacy_parses: "parse_privacy_request plain_uuids privacy_body sample_now = Inr privacy_validated"
proof -
  have "into_privacy privacy_json zero_privacy = Some privacy_value" by code_simp
  moreover have "validate_uuid plain_uuids (request_id privacy_value) = Inr ()" by code_simp
  moreover have "validate_scope (privacy_scope privacy_value) = Inr v2_spec" by code_simp
  moreover have "parse_privacy_timestamp (requested_at privacy_value) = Inr sample_now" by code_simp
  ultimately show ?thesis
    unfolding parse_privacy_request_def privacy_body_length privacy_body_decodes
    by (simp add: MaxPrivacyBytes_def SchemaVersion_def privacy_value_def privacy_validated_def
      PrivacyDelete_def v2_spec_def duration_defs)
qed

definition fr_event_of :: "string option \<Rightarrow> fr_event" where
  "fr_event_of campaign = \<lparr>event_id = ''20000000-0000-4000-8000-000000000002'',
     event_occurred_at = ''2026-07-21T11:59:00Z'', event_kind = ''payment_succeeded'',
     amount = Some ''150.00'', currency = ''RUB'', frequency = ''one_time'',
     attribution_source = ''direct'', attribution_campaign = campaign, event_failure_code = None\<rparr>"

definition fr_value :: fr_batch where
  "fr_value = \<lparr>fr_schema_version = 1, fr_batch_id = ''10000000-0000-4000-8000-000000000001'',
     fr_sent_at = ''2026-07-21T12:00:00Z'', fr_records = [fr_event_of None]\<rparr>"

definition fr_validated :: fr_validated_batch where
  "fr_validated = \<lparr>fr_batch = fr_value, fr_sent_at_time = sample_now,
     fr_events = [\<lparr>the_record = fr_event_of None, occurred_at_time = sample_now - minute\<rparr>]\<rparr>"

lemma fr_value_checks:
  "validate_uuid plain_uuids (fr_batch_id fr_value) = Inr ()"
  "parse_timestamp (fr_sent_at fr_value) = Inr sample_now"
  "validate_record_count (length (fr_records fr_value)) = Inr ()"
  "validate_events plain_uuids sample_now {} (fr_records fr_value) = Inr (fr_events fr_validated)"
  by code_simp+

lemma fr_parses: "fr_parse_batch plain_uuids fr_body sample_now = Inr fr_validated"
  and evasive_parses: "fr_parse_batch plain_uuids evasive_body sample_now = Inr fr_validated"
proof -
  have "\<exists>r. into_raw_map fr_json [] = Some r \<and> (\<exists>rs. raw_records_of r = Some rs
      \<and> \<not> list_ex (\<lambda>r. map_of r ''attribution_campaign'' = None) rs)"
    by (intro exI [of _ "the (into_raw_map fr_json [])"] conjI
         exI [of _ "the (raw_records_of (the (into_raw_map fr_json [])))"]) code_simp+
  moreover have "\<exists>r. into_raw_map evasive_json [] = Some r \<and> raw_records_of r = Some []"
    by (intro exI [of _ "the (into_raw_map evasive_json [])"] conjI) code_simp+
  moreover have "into_fr_batch fr_json zero_fr_batch = Some fr_value" by code_simp
  moreover have "into_fr_batch evasive_json zero_fr_batch = Some fr_value" by code_simp
  moreover have "fr_schema_version fr_value = FrSchemaVersion" by code_simp
  moreover have "\<not> (sample_now < sample_now - 7 * 24 * hour \<or> sample_now > sample_now + 5 * minute)"
    by (simp add: duration_defs)
  moreover have "FrMaxBatchBytes = 262144" by (simp add: FrMaxBatchBytes_def)
  ultimately show "fr_parse_batch plain_uuids fr_body sample_now = Inr fr_validated"
    "fr_parse_batch plain_uuids evasive_body sample_now = Inr fr_validated"
    unfolding fr_parse_batch_def fr_body_length evasive_body_length fr_body_decodes evasive_body_decodes
    by (auto simp: fr_value_checks) (simp_all add: fr_validated_def)
qed

definition v1_event :: event_v1 where
  "v1_event = \<lparr>ev_id = ''10000000-0000-4000-8000-000000000001'', ev_name = ''page_viewed'',
     ev_occurred_at = ''2026-07-21T12:00:00Z'', ev_installation_id = ''20000000-0000-4000-8000-000000000002'',
     ev_app_session_id = ''30000000-0000-4000-8000-000000000003'', ev_game_session_id = None,
     ev_app = \<lparr>av_version = ''1.0'', av_build = ''7'', av_platform = ''windows'', av_os_version = ''10'',
       av_locale = ''ru''\<rparr>, ev_properties = Some (JObj [(''page'', JStr ''home'')])\<rparr>"

definition v1_validated :: validated_batch_v1 where
  "v1_validated = \<lparr>vb_events = [\<lparr>ve_event = v1_event, ve_occurred_at = sample_now,
     ve_dimensions = no_dimensions\<lparr>d_page := Some ''home''\<rparr>\<rparr>], vb_summaries = []\<rparr>"

lemma v1_parses: "parse_batch_v1 plain_uuids v1_body = Inr v1_validated"
proof -
  have "into_batch_v1 v1_json zero_batch_v1
      = Some \<lparr>bv_schema_version = 1, bv_events = [v1_event], bv_summaries = []\<rparr>" by code_simp
  moreover have "validate_event_v1 plain_uuids v1_event = Inr (hd (vb_events v1_validated))" by code_simp
  ultimately show ?thesis
    unfolding parse_batch_v1_def v1_body_decodes
    by (simp add: SchemaVersionV1_def MaxBatchRecordsV1_def v1_validated_def)
qed

definition v1_privacy_value :: privacy_request_v1 where
  "v1_privacy_value = \<lparr>pv_schema_version = 1, pv_request_id = ''10000000-0000-4000-8000-000000000001'',
     pv_action = ''delete'', pv_requested_at = ''2026-07-21T12:00:00Z''\<rparr>"

definition sample_installation :: string where
  "sample_installation = ''40000000-0000-4000-8000-000000000004''"

lemma v1_privacy_parses:
  "\<exists>p. parse_public_privacy_request plain_uuids v1_privacy_body sample_installation sample_now = Inr p"
proof -
  have "into_struct privacy_v1_fields v1_privacy_json zero_privacy_v1 = Some v1_privacy_value" by code_simp
  moreover have "validate_privacy_v1 plain_uuids (privacy_request_v1.extend v1_privacy_value
        (internal_privacy_request.fields sample_installation)) sample_now
      = Inr \<lparr>vp_request = privacy_request_v1.extend v1_privacy_value
        (internal_privacy_request.fields sample_installation), vp_requested_at = sample_now\<rparr>"
    by code_simp
  ultimately show ?thesis
    unfolding parse_public_privacy_request_def v1_privacy_body_decodes by simp
qed

end
