(* ===== verification/Intake_Properties.thy ===== *)
theory Intake_Properties
  imports Samples "HOL-Library.Sublist"
begin

section \<open>Properties of the intake contracts\<close>

text \<open>
  What the parsers of the three contracts guarantee about anything they accept, on top of the
  strict JSON decoder, and two inputs on which the decoder is looser than it means to be: object
  keys are compared exactly when duplicates are looked for, and without regard to case when they
  are matched with struct fields. Each property with a hypothesis is followed by an accepted body.
\<close>

text \<open>
  C1. DecodeObject returns a value for exactly the bodies that are one JSON object, without a
  repeated key at any level and within the depth bound, and the value is what json.Unmarshal puts
  into the destination; every other body is rejected. The object is unique.
\<close>

theorem decode_object_contract:
  "decode_object into data r m = Inr x \<longleftrightarrow>
     trim_space data \<noteq> [] \<and> hd (trim_space data) = CHR ''{'' \<and>
     (\<exists>!v. strict_json data m v) \<and> (\<exists>v. strict_json data m v \<and> into v r = Some x)"
proof -
  have "strict_json data m v \<Longrightarrow> strict_json data m w \<Longrightarrow> v = w" for v w
    by (auto simp: strict_json_def simp del: render.simps dest: render_inject [THEN iffD1])
  then show ?thesis by (auto simp: decode_object_Inr)
qed

text \<open>
  C24. The walk of validateValue over the tokens returns for every input and every bound, complete
  or not: 2n + 1 nested calls are enough for n lexemes, with any more fuel the result is the same,
  and it is never that of a walk cut short. So it decides whether the lexemes are one value within
  the depth bound without a repeated key.
\<close>

theorem validation_terminates:
  "validate_value (2 * length ls + 1 + k) (new_decoder ls) 1 m
       = validate_value (2 * length ls + 1) (new_decoder ls) 1 m
     \<and> validate_value (2 * length ls + 1) (new_decoder ls) 1 m \<noteq> Inl out_of_fuel
     \<and> (returned (validate ls m) \<longleftrightarrow> (\<exists>v. ls = render v \<and> jdepth v \<le> m \<and> unique_keys v))"
  by (intro conjI walk_terminates) (auto simp: returned_iff validate_accepts)

text \<open>
  C2. A V2 batch that ParseBatch accepts has a body within 512 KiB that is strict JSON, a known
  schema version, canonical UUIDs, the scope of a registered product whose opaque key it carries,
  a stream the registry allows for that product, timestamps inside their windows at storable
  precision, between one and 500 records of exactly that stream, each of the shape of its kind,
  and no record ID twice.
\<close>

theorem accepted_batch_valid:
  assumes "parse_batch lib data now = Inr b"
  shows "valid_batch lib now b \<and> length data \<le> MaxBatchBytes
    \<and> (\<exists>ms. strict_json data MaxJSONDepth (JObj ms))"
  using parse_batch_valid [OF assms] parse_batch_strict [OF assms] by blast

theorem accepted_batch_valid_witness:
  "\<exists>b. parse_batch plain_uuids v2_body sample_now = Inr b \<and> valid_batch plain_uuids sample_now b
     \<and> record_count b = 1"
  using accepted_batch_valid [OF v2_batch_parses]
  by (intro exI [of _ "v2_validated [\<lparr>the_record = v2_record, occurred_at_time = sample_now - minute\<rparr>]"])
    (simp add: v2_batch_parses record_count_def v2_validated_def)

text \<open>
  C15. A fundraising batch that ParseBatch accepts has between one and 500 events with distinct
  canonical IDs, all in their time windows; a money event carries RUB and an amount that is a
  positive Decimal(18,2), any other event neither; a failure code is there exactly for a failed
  recurring charge and is one of the list.
\<close>

theorem accepted_fundraising_valid:
  assumes "fr_parse_batch lib data now = Inr b"
  shows "fr_valid_batch lib now b"
  using assms by (rule fr_parse_batch_valid)

theorem accepted_fundraising_valid_witness:
  "fr_parse_batch plain_uuids fr_body sample_now = Inr fr_validated
     \<and> fr_valid_batch plain_uuids sample_now fr_validated"
  using accepted_fundraising_valid [OF fr_parses] fr_parses by blast

text \<open>
  C16. A V1 batch that ParseBatch accepts has between one and 500 events and summaries; every
  string dimension of an event is a safe token, a fingerprint, a version or one of a list (no free
  text), every number is in its range, a game event names its game session, and a summary has
  consistent identifiers, ends no earlier than it starts and lasts at most seven days.
\<close>

theorem accepted_v1_valid:
  assumes "parse_batch_v1 lib data = Inr b"
  shows "valid_batch_v1 lib b"
  using assms by (rule parse_batch_v1_valid)

theorem accepted_v1_valid_witness:
  "parse_batch_v1 plain_uuids v1_body = Inr v1_validated \<and> valid_batch_v1 plain_uuids v1_validated"
  using accepted_v1_valid [OF v1_parses] v1_parses by blast

text \<open>
  A V2 privacy request that ParsePrivacyRequest accepts names a registered product by a valid
  scope, asks for one of the two actions, and was made within the last day and at most five
  minutes ahead of the clock, at a storable time.
\<close>

theorem accepted_privacy_valid:
  assumes "parse_privacy_request lib data now = Inr p"
  shows "valid_privacy_request lib now p"
  using assms by (rule parse_privacy_request_valid)

theorem accepted_privacy_valid_witness:
  "parse_privacy_request plain_uuids privacy_body sample_now = Inr privacy_validated
     \<and> valid_privacy_request plain_uuids sample_now privacy_validated"
  using accepted_privacy_valid [OF privacy_parses] privacy_parses by blast

text \<open>
  A public V1 privacy request deletes the data of the installation that the caller is
  authenticated as: whatever the body says, the installation of the validated request is the
  argument of ParsePublicPrivacyRequest, and the request is fresh.
\<close>

theorem public_privacy_own_installation:
  assumes "parse_public_privacy_request lib data i now = Inr p"
  shows "pv_installation_id (vp_request p) = i \<and> valid_privacy_v1 lib now p"
  using assms by (rule public_privacy_installation)

theorem public_privacy_own_installation_witness:
  "\<exists>p. parse_public_privacy_request plain_uuids v1_privacy_body sample_installation sample_now = Inr p
     \<and> pv_installation_id (vp_request p) = sample_installation"
  using v1_privacy_parses public_privacy_own_installation by blast

text \<open>
  The product registry is consistent: product IDs and opaque keys are distinct, so that an
  opaque key names one product; an opaque key is a lowercase SHA-256 value; games are named only
  where the plays stream is allowed, kinds and outcome rules only where their streams are; every
  outcome rule can be met by some record.
\<close>

theorem registry_consistent:
  "distinct (map fst registry) \<and> distinct (map (opaque_key_of \<circ> snd) registry)
   \<and> list_all spec_ok registry
   \<and> (\<forall>i s. lookup_product i = Some s \<longrightarrow> spec_id s = i \<and> opaque_key_pattern (opaque_key_of s)
        \<and> spec_ok (i, s))"
  using registry_distinct registry_entries_ok lookup_spec_id lookup_opaque lookup_spec_ok by blast

theorem registry_consistent_witness:
  "lookup_product ''linka-site'' = Some v2_spec \<and> opaque_key_pattern (opaque_key_of v2_spec)"
proof -
  have "lookup_product ''linka-site'' = Some v2_spec" by code_simp
  with registry_consistent show ?thesis by blast
qed

text \<open>
  C28. The duplicate check of jsonstrict compares keys exactly, encoding/json matches them to
  fields without regard to case. So for every request type, every body that DecodeObject accepts and
  every field that it sets, the body with one more member under a case variant of that field's key is
  not refused as having a key twice: the member is decoded into the same field on top of what the
  body had put there.
\<close>

theorem case_variant_keys_accepted:
  assumes "decode_object (into_struct tbl) data r m = Inr x" and "strict_json data m (JObj ms)"
    and "n \<in> fst ` set ms" and "map_of tbl n = Some d" and "distinct (map (fold_name \<circ> fst) tbl)"
    and "k \<notin> fst ` set ms" and "k \<notin> fst ` set tbl" and "fold_name k = fold_name n"
    and "unique_keys y" and "jdepth y < m"
    and "lex (trim_space data') = Some (render (JObj (ms @ [(k, y)])))" and "hd (trim_space data') = CHR ''{''"
  shows "decode_object (into_struct tbl) data' r m = from_option (Err ''json: cannot decode'') (d y x)"
proof -
  let ?v = "JObj (ms @ [(k, y)])"
  from assms(1,2) have x: "into_members tbl ms r = Some x"
    by (auto simp: decode_object_Inr strict_json_def render_inject simp del: render.simps)
  from assms(2,6,9,10) have "validate (render ?v) m = Inr ()"
    unfolding validate_accepts strict_json_def
    by (cases m; intro exI [of _ ?v]) (auto simp: jdepth_Obj simp del: jdepth.simps render.simps)
  moreover have "trim_space data' \<noteq> []" using assms(11) by (auto dest: sym)
  moreover have "into_struct tbl ?v r = d y x"
    using x find_field_variant [OF assms(4,5,7,8)] by (simp add: into_members_append split: option.splits)
  ultimately show ?thesis
    using assms(10-12) json_decode_iff [of "render ?v" ?v]
    by (simp add: decode_object_def Let_def del: render.simps into_struct.simps)
qed

theorem case_variant_keys_accepted_witness:
  "decode_object into_privacy twice_body zero_privacy MaxJSONDepth
     = Inr (privacy_value\<lparr>request_id := ''20000000-0000-4000-8000-000000000002''\<rparr>)
   \<and> request_id privacy_value = ''10000000-0000-4000-8000-000000000001''"
proof -
  let ?fields = "[fld ''schema_version'' privacy_schema_version privacy_schema_version_update into_int64,
      fld ''request_id'' request_id request_id_update into_string,
      fld ''scope'' privacy_scope privacy_scope_update (into_struct scope_fields),
      fld ''action'' privacy_action privacy_action_update into_string,
      fld ''requested_at'' requested_at requested_at_update into_string]"
  have "into_privacy privacy_json zero_privacy = Some privacy_value" by code_simp
  then have a: "decode_object into_privacy privacy_body zero_privacy MaxJSONDepth = Inr privacy_value"
    by (simp add: privacy_body_decodes)
  have b: "strict_json privacy_body MaxJSONDepth (JObj privacy_members)"
    unfolding strict_json_def
  proof (intro conjI)
    show "lex (trim_space privacy_body) = Some (render (JObj privacy_members))" by code_simp
    show "\<exists>ms. JObj privacy_members = JObj ms" by blast
    show "unique_keys (JObj privacy_members)" by code_simp
    show "jdepth (JObj privacy_members) \<le> MaxJSONDepth" by code_simp
  qed
  have names: "map fst ?fields = [''schema_version'', ''request_id'', ''scope'', ''action'', ''requested_at'']"
    by (simp add: fld_def)
  have f1: "map_of ?fields ''request_id'' = Some (snd (fld ''request_id'' request_id request_id_update into_string))"
    by (simp add: fld_def)
  have "distinct (map fold_name [''schema_version'', ''request_id'', ''scope'', ''action'', ''requested_at''])" by code_simp
  then have f2: "distinct (map (fold_name \<circ> fst) ?fields)" by (simp only: map_map [symmetric] names)
  have f3: "''REQUEST_ID'' \<notin> fst ` set ?fields" by (simp only: set_map [symmetric] names) simp
  have "''request_id'' \<in> fst ` set privacy_members" "''REQUEST_ID'' \<notin> fst ` set privacy_members"
    by (simp_all add: privacy_members_def)
  moreover have "fold_name ''REQUEST_ID'' = fold_name ''request_id''" by code_simp
  ultimately have "decode_object (into_struct ?fields) twice_body zero_privacy MaxJSONDepth
      = from_option (Err ''json: cannot decode'')
          (snd (fld ''request_id'' request_id request_id_update into_string)
            (JStr ''20000000-0000-4000-8000-000000000002'') privacy_value)"
    using twice_body_lexes
    by (intro case_variant_keys_accepted [OF a [unfolded into_privacy_def] b _ f1 f2 _ f3])
      (simp_all add: twice_json_def MaxJSONDepth_def del: render.simps)
  then show ?thesis
    by (simp add: into_privacy_def fld_def privacy_value_def)
qed

text \<open>
  C29. The check that every fundraising record names attribution_campaign looks at the member
  spelled "records" only, the batch is decoded from "Records" too: a body without the word
  anywhere is accepted, with one event.
\<close>

theorem campaign_check_evaded:
  "\<not> sublist ''attribution_campaign'' evasive_body
   \<and> (\<exists>b. fr_parse_batch plain_uuids evasive_body sample_now = Inr b \<and> length (fr_events b) = 1)"
proof -
  have "\<not> sublist ''attribution_campaign'' evasive_body"
    by (simp add: evasive_body_def sublist_Cons_right)
  moreover have "length (fr_events fr_validated) = 1" by (simp add: fr_validated_def)
  ultimately show ?thesis using evasive_parses by blast
qed

end
