(* ===== verification/Go_Http.thy ===== *)
theory Go_Http
  imports Go_Strings
begin

section \<open>Requests, responses and headers of net/http\<close>

text \<open>
  An http.Header is an association list of names and value lists. Get, Set, Add and Del make
  their name canonical, so that case is irrelevant; here every name is stored in lower case.
  A handler reads a \<open>request\<close> and answers with a \<open>response\<close>: the status, the headers and the body
  that it wrote (the JSON bodies of the program as \<open>reply\<close> values, see Httpx).
\<close>

type_synonym http_header = "(string \<times> string list) list"

definition header_get :: "http_header \<Rightarrow> string \<Rightarrow> string" where
  "header_get h name =
     (case map_of h (to_lower name) of Some (v # _) \<Rightarrow> v | _ \<Rightarrow> [])"

definition header_set :: "string \<Rightarrow> string \<Rightarrow> http_header \<Rightarrow> http_header" where
  "header_set name v h = (to_lower name, [v]) # filter (\<lambda>e. fst e \<noteq> to_lower name) h"

definition header_add :: "string \<Rightarrow> string \<Rightarrow> http_header \<Rightarrow> http_header" where
  "header_add name v h =
     (case map_of h (to_lower name) of
        None \<Rightarrow> (to_lower name, [v]) # h
      | Some vs \<Rightarrow> (to_lower name, vs @ [v]) # filter (\<lambda>e. fst e \<noteq> to_lower name) h)"

record request =
  req_method :: string
  req_path :: string
  req_header :: http_header
  req_body :: string

lemma map_of_filter_other: "m \<noteq> n \<Longrightarrow> map_of (filter (\<lambda>e. fst e \<noteq> n) h) m = map_of h m"
  by (induction h) auto

lemma header_get_set:
  "header_get (header_set n v h) m = (if to_lower m = to_lower n then v else header_get h m)"
  by (simp add: header_get_def header_set_def map_of_filter_other)

lemma header_get_add_other:
  "to_lower m \<noteq> to_lower n \<Longrightarrow> header_get (header_add n v h) m = header_get h m"
  by (simp add: header_get_def header_add_def map_of_filter_other split: option.split)

end
