(* ===== verification/Auth_Service.thy ===== *)
theory Auth_Service
  imports Go_Http Go_Crypto Go_Patterns Go_Time
begin

section \<open>internal/auth/service.go: signed service requests\<close>

text \<open>
  The HMAC that the collector puts on its requests to the writer, and the donation and TTS
  services on theirs to the collector. The clock is an argument of Sign and Verify. The lemmas:
  a request signed with one of the verifier's keys verifies within the skew (\<open>verify_sign_service\<close>); what
  a verified request carries (\<open>verify_service_Inr\<close>); and the signed text determines every field
  (\<open>service_text_inj\<close>), so that a signature cannot be moved to another method, path, caller, key,
  request ID, time or body digest. Cloning of keys and secrets is the identity on values.
\<close>

record service_key =
  key_id :: string
  key_secret :: string

record service_signer =
  signer_key :: service_key
  signer_caller :: string

record service_verifier =
  verifier_active :: service_key
  verifier_previous :: "service_key option"
  allowed_caller :: string
  max_skew :: duration

record service_headers =
  sh_version :: string
  sh_key_id :: string
  sh_caller :: string
  sh_request_id :: string
  sh_timestamp :: string
  sh_body_sha :: string
  sh_signature :: string

definition ServiceSignatureVersion :: string where "ServiceSignatureVersion = ''v2''"

definition service_name_pattern :: "string \<Rightarrow> bool" where
  "service_name_pattern = ident_string is_lower (\<lambda>c. is_lower c \<or> is_digit c \<or> c = CHR ''-'') 31"

definition validate_service_key :: "service_key \<Rightarrow> unit result" where
  "validate_service_key k =
     reject (\<not> service_name_pattern (key_id k)) (Err ''invalid service key ID'')
    (reject (length (key_secret k) < 32) (Err ''service secret must contain at least 32 bytes'') (Inr ()))"

definition new_service_signer :: "service_key \<Rightarrow> string \<Rightarrow> service_signer result" where
  "new_service_signer k caller =
     andthen (validate_service_key k) (\<lambda>_.
       reject (\<not> service_name_pattern caller) (Err ''invalid service caller'')
         (Inr \<lparr>signer_key = k, signer_caller = caller\<rparr>))"

definition new_service_verifier ::
  "service_key \<Rightarrow> service_key option \<Rightarrow> string \<Rightarrow> duration \<Rightarrow> service_verifier result" where
  "new_service_verifier active previous caller skew =
     andthen (wrap ''active service key'' (validate_service_key active)) (\<lambda>_.
     andthen
       (case previous of
          None \<Rightarrow> Inr ()
        | Some p \<Rightarrow>
            andthen (wrap ''previous service key'' (validate_service_key p)) (\<lambda>_.
              reject (key_id p = key_id active)
                (Err ''active and previous service key IDs must differ'') (Inr ()))) (\<lambda>_.
       reject (\<not> service_name_pattern caller \<or> skew \<le> 0) (Err ''invalid service verifier configuration'')
         (Inr \<lparr>verifier_active = active, verifier_previous = previous,
               allowed_caller = caller, max_skew = skew\<rparr>)))"

definition service_text :: "string \<Rightarrow> string \<Rightarrow> service_headers \<Rightarrow> string" where
  "service_text meth path h =
     join [CHR 0x0A]
       [''LINKA-HMAC-V2'', sh_version h, to_upper meth, path, sh_caller h, sh_key_id h,
        sh_request_id h, sh_timestamp h, sh_body_sha h]"

definition service_mac :: "string \<Rightarrow> string \<Rightarrow> string \<Rightarrow> service_headers \<Rightarrow> string" where
  "service_mac secret meth path h = hmac_sha256 secret (service_text meth path h)"

definition bad_request_id :: "string \<Rightarrow> bool" where
  "bad_request_id r = (r = [] \<or> length r > 128 \<or> contains_any r [CHR 0x0D, CHR 0x0A])"

definition sign_service ::
  "service_signer \<Rightarrow> time \<Rightarrow> string \<Rightarrow> string \<Rightarrow> string \<Rightarrow> string \<Rightarrow> service_headers result" where
  "sign_service s now meth path rid body =
     reject (meth = [] \<or> path = [] \<or> bad_request_id rid) (Err ''invalid service request metadata'')
       (let h = \<lparr>sh_version = ServiceSignatureVersion, sh_key_id = key_id (signer_key s),
                 sh_caller = signer_caller s, sh_request_id = rid,
                 sh_timestamp = format_int (unix_seconds now),
                 sh_body_sha = hex_encode (sha256 body), sh_signature = []\<rparr>
        in Inr (h\<lparr>sh_signature := b64_encode (service_mac (key_secret (signer_key s)) meth path h)\<rparr>))"

definition find_service_key :: "service_verifier \<Rightarrow> string \<Rightarrow> service_key option" where
  "find_service_key v i =
     (if i = key_id (verifier_active v) then Some (verifier_active v)
      else case verifier_previous v of
             Some p \<Rightarrow> if i = key_id p then Some p else None
           | None \<Rightarrow> None)"

definition verify_service ::
  "service_verifier \<Rightarrow> time \<Rightarrow> string \<Rightarrow> string \<Rightarrow> string \<Rightarrow> service_headers \<Rightarrow> unit result" where
  "verify_service v now meth path body h =
     reject (sh_version h \<noteq> ServiceSignatureVersion \<or> sh_caller h \<noteq> allowed_caller v
         \<or> bad_request_id (sh_request_id h)) (Err ''invalid service signature metadata'')
    (andthen (from_option (Err ''unknown service key ID'') (find_service_key v (sh_key_id h))) (\<lambda>k.
     andthen (from_option (Err ''invalid service timestamp'') (parse_int64 (sh_timestamp h))) (\<lambda>ts.
       let delta = time_sub now (unix_time ts)
       in reject (delta < - max_skew v \<or> delta > max_skew v)
            (Err ''service timestamp outside allowed skew'')
         (reject (\<not> (case hex_decode (sh_body_sha h) of
                       None \<Rightarrow> False
                     | Some d \<Rightarrow> sh_body_sha h = hex_encode (sha256 body) \<and> d = sha256 body))
            (Err ''invalid service body digest'')
         (reject (\<not> (case b64_decode (sh_signature h) of
                       None \<Rightarrow> False
                     | Some provided \<Rightarrow> provided = service_mac (key_secret k) meth path h))
            (Err ''invalid service signature'') (Inr ()))))))"

definition service_headers_from_request :: "request \<Rightarrow> service_headers" where
  "service_headers_from_request r =
     (let g = header_get (req_header r)
      in \<lparr>sh_version = g ''X-Linka-Signature-Version'', sh_key_id = g ''X-Linka-Key-ID'',
          sh_caller = g ''X-Linka-Caller'', sh_request_id = g ''X-Linka-Request-ID'',
          sh_timestamp = g ''X-Linka-Timestamp'', sh_body_sha = g ''X-Linka-Body-SHA256'',
          sh_signature = g ''X-Linka-Signature''\<rparr>)"

definition apply_service_headers :: "service_headers \<Rightarrow> http_header \<Rightarrow> http_header" where
  "apply_service_headers h hdr =
     header_set ''X-Linka-Signature'' (sh_signature h)
    (header_set ''X-Linka-Body-SHA256'' (sh_body_sha h)
    (header_set ''X-Linka-Timestamp'' (sh_timestamp h)
    (header_set ''X-Linka-Request-ID'' (sh_request_id h)
    (header_set ''X-Linka-Caller'' (sh_caller h)
    (header_set ''X-Linka-Key-ID'' (sh_key_id h)
    (header_set ''X-Linka-Signature-Version'' (sh_version h) hdr))))))"

subsection \<open>Keys\<close>

definition key_ok :: "service_key \<Rightarrow> bool" where
  "key_ok k \<longleftrightarrow> service_name_pattern (key_id k) \<and> 32 \<le> length (key_secret k)"

definition verifier_ok :: "service_verifier \<Rightarrow> bool" where
  "verifier_ok v \<longleftrightarrow>
     key_ok (verifier_active v)
     \<and> opt_all (\<lambda>p. key_ok p \<and> key_id p \<noteq> key_id (verifier_active v)) (verifier_previous v)
     \<and> service_name_pattern (allowed_caller v) \<and> 0 < max_skew v"

lemma validate_service_key_Inr [result_simps]: "validate_service_key k = Inr u \<longleftrightarrow> key_ok k"
  by (auto simp: validate_service_key_def key_ok_def result_simps)

lemma new_service_signer_Inr [result_simps]:
  "new_service_signer k c = Inr s \<longleftrightarrow>
     key_ok k \<and> service_name_pattern c \<and> s = \<lparr>signer_key = k, signer_caller = c\<rparr>"
  by (auto simp: new_service_signer_def result_simps)

lemma new_service_verifier_Inr [result_simps]:
  "new_service_verifier a p c skew = Inr v \<longleftrightarrow>
     verifier_ok v \<and> v = \<lparr>verifier_active = a, verifier_previous = p, allowed_caller = c, max_skew = skew\<rparr>"
  by (auto simp: new_service_verifier_def verifier_ok_def result_simps not_le split: option.splits)

lemma not_name_chars:
  "\<not> is_lower (CHR 0x0A)" "\<not> is_digit (CHR 0x0A)" "\<not> is_lower (CHR ''.'')"
  by code_simp+

lemma service_name_no_newline: "service_name_pattern s \<Longrightarrow> CHR 0x0A \<notin> set s"
  using not_name_chars(1,2) by (auto simp: service_name_pattern_def dest: ident_string_notin)

lemma service_name_no_dot: "service_name_pattern s \<Longrightarrow> CHR ''.'' \<notin> set s"
  using not_name_chars(3) by (auto simp: service_name_pattern_def dest: ident_string_notin)

lemma find_service_key_ok:
  "verifier_ok v \<Longrightarrow> find_service_key v i = Some k \<Longrightarrow> key_ok k \<and> key_id k = i"
  by (auto simp: find_service_key_def verifier_ok_def split: if_splits option.splits)

lemma find_service_key_iff:
  "verifier_ok v \<Longrightarrow>
     find_service_key v i = Some k \<longleftrightarrow>
       key_id k = i \<and> (k = verifier_active v \<or> verifier_previous v = Some k)"
  by (auto simp: find_service_key_def verifier_ok_def split: if_splits option.splits)

subsection \<open>What a verified request carries\<close>

definition timely :: "duration \<Rightarrow> time \<Rightarrow> string \<Rightarrow> bool" where
  "timely skew now ts \<longleftrightarrow>
     (\<exists>n. parse_int64 ts = Some n \<and> - skew \<le> time_sub now (unix_time n) \<and> time_sub now (unix_time n) \<le> skew)"

definition signed_by :: "service_key \<Rightarrow> string \<Rightarrow> string \<Rightarrow> service_headers \<Rightarrow> bool" where
  "signed_by k meth path h \<longleftrightarrow>
     b64_decode (sh_signature h) = Some (hmac_sha256 (key_secret k) (service_text meth path h))"

lemma verify_service_Inr [result_simps]:
  "verify_service v now meth path body h = Inr u \<longleftrightarrow>
     sh_version h = ServiceSignatureVersion \<and> sh_caller h = allowed_caller v
     \<and> \<not> bad_request_id (sh_request_id h)
     \<and> (\<exists>k. find_service_key v (sh_key_id h) = Some k \<and> signed_by k meth path h)
     \<and> timely (max_skew v) now (sh_timestamp h)
     \<and> sh_body_sha h = hex_encode (sha256 body)"
  by (auto simp: verify_service_def signed_by_def timely_def service_mac_def result_simps Let_def
      not_less split: option.splits)

text \<open>Signing and verifying agree, for either key, as long as the clocks are within the skew.\<close>

lemma verify_sign_service:
  assumes "sign_service s now meth path rid body = Inr h"
    and "find_service_key v (key_id (signer_key s)) = Some (signer_key s)"
    and "signer_caller s = allowed_caller v"
    and "representable now" and "max_skew v < 2 ^ 63 - 1" and "0 \<le> max_skew v"
    and "\<bar>later - truncate_to now second\<bar> \<le> max_skew v"
  shows "verify_service v later meth path body h = Inr ()"
proof -
  from assms(1) have h: "sh_version h = ServiceSignatureVersion" "sh_caller h = signer_caller s"
    "sh_request_id h = rid" "sh_key_id h = key_id (signer_key s)" "\<not> bad_request_id rid"
    "sh_timestamp h = format_int (unix_seconds now)" "sh_body_sha h = hex_encode (sha256 body)"
    and sg: "signed_by (signer_key s) meth path h"
    by (auto simp: sign_service_def signed_by_def service_mac_def service_text_def result_simps Let_def)
  have "timely (max_skew v) later (sh_timestamp h)"
    using assms(4-7) time_sub_within [of "max_skew v" later "unix_time (unix_seconds now)"]
    by (simp add: timely_def h(6) representable_in_int64 unix_time_seconds)
  with h sg assms(2,3) show ?thesis by (auto simp: verify_service_Inr)
qed

subsection \<open>The signed text determines its fields\<close>

lemma parse_int64_no_newline: "parse_int64 s = Some i \<Longrightarrow> CHR 0x0A \<notin> set s"
  using parse_int64_chars [of s i "CHR 0x0A"] by auto

lemma hex_encode_no_newline: "CHR 0x0A \<notin> set (hex_encode s)"
  using hex_encode_lower [of s] by (auto simp: list_all_iff is_lower_hex_def)

lemma request_id_no_newline: "\<not> bad_request_id r \<Longrightarrow> CHR 0x0A \<notin> set r"
  by (auto simp: bad_request_id_def contains_any_def list_ex_iff)

lemma to_upper_no_newline: "CHR 0x0A \<notin> set (to_upper s) \<longleftrightarrow> CHR 0x0A \<notin> set s"
proof -
  have "ascii_upper c = CHR 0x0A \<longleftrightarrow> c = CHR 0x0A" for c
  proof -
    have "ascii_upper c = CHR 0x0A \<Longrightarrow> c = CHR 0x0A"
    proof (cases "97 \<le> (of_char c :: nat) \<and> (of_char c :: nat) \<le> 122")
      case True
      assume "ascii_upper c = CHR 0x0A"
      with True have "of_char (char_of ((of_char c :: nat) - 32) :: char) = (of_char (CHR 0x0A) :: nat)"
        by (simp add: ascii_upper_def Let_def)
      moreover have "((of_char c :: nat) - 32) mod 256 = of_char c - 32"
        using True by (intro mod_less) linarith
      ultimately have "(of_char c :: nat) - 32 = 10" by simp
      with True show ?thesis by linarith
    qed (simp add: ascii_upper_def Let_def)
    moreover have "ascii_upper (CHR 0x0A) = CHR 0x0A" by code_simp
    ultimately show ?thesis by auto
  qed
  then have "CHR 0x0A = ascii_upper c \<longleftrightarrow> CHR 0x0A = c" for c by metis
  then show ?thesis by (induction s) (simp_all add: to_upper_def)
qed

lemma join_middle_inj:
  assumes "join [c] (as @ p # bs) = join [c] (as' @ p' # bs')"
    and "length as = length as'" "length bs = length bs'"
    and "\<forall>x \<in> set (as @ bs) \<union> set (as' @ bs'). c \<notin> set x"
  shows "as = as' \<and> p = p' \<and> bs = bs'"
proof -
  have split: "split_on c (join [c] (as @ p # bs)) = as @ split_on c p @ bs"
    if "\<forall>x \<in> set (as @ bs). c \<notin> set x" for as bs :: "string list" and p
    using that
  proof (induction as)
    case Nil
    show ?case
    proof (cases "bs = []")
      case False
      with Nil have "split_on c (p @ c # join [c] bs) = split_on c p @ split_on c (join [c] bs)"
        by (induction p) (auto split: list.splits)
      with False Nil show ?thesis by (simp add: split_on_join)
    qed simp
  next
    case (Cons a as)
    then show ?case by (simp add: split_on_append)
  qed
  from assms(1) have "as @ split_on c p @ bs = as' @ split_on c p' @ bs'"
    using split [of as bs p] split [of as' bs' p'] assms(4) by (metis Un_iff set_append)
  with assms(2,3) have "as = as'" "split_on c p = split_on c p'" "bs = bs'" by auto
  moreover from this(2) have "p = p'" by (metis join_split_on)
  ultimately show ?thesis by simp
qed

definition clean_headers :: "service_headers \<Rightarrow> bool" where
  "clean_headers h \<longleftrightarrow>
     (\<forall>x \<in> {sh_version h, sh_caller h, sh_key_id h, sh_request_id h, sh_timestamp h, sh_body_sha h}.
        CHR 0x0A \<notin> set x)"

lemma verified_clean:
  assumes "verify_service v now meth path body h = Inr ()" and "verifier_ok v"
  shows "clean_headers h"
proof -
  from assms obtain k n where *: "sh_version h = ServiceSignatureVersion" "sh_caller h = allowed_caller v"
    "\<not> bad_request_id (sh_request_id h)" "find_service_key v (sh_key_id h) = Some k"
    "parse_int64 (sh_timestamp h) = Some n" "sh_body_sha h = hex_encode (sha256 body)"
    by (auto simp: verify_service_Inr timely_def)
  have "CHR 0x0A \<notin> set ServiceSignatureVersion" by (simp add: ServiceSignatureVersion_def)
  moreover have "service_name_pattern (allowed_caller v)" using assms(2) by (simp add: verifier_ok_def)
  moreover have "service_name_pattern (sh_key_id h)"
    using find_service_key_ok [OF assms(2) *(4)] by (auto simp: key_ok_def)
  ultimately show ?thesis
    using * service_name_no_newline request_id_no_newline parse_int64_no_newline hex_encode_no_newline
    by (auto simp: clean_headers_def)
qed

lemma service_text_inj:
  assumes "service_text m p h = service_text m' p' h'"
    and "clean_headers h" "clean_headers h'" "CHR 0x0A \<notin> set m" "CHR 0x0A \<notin> set m'"
  shows "to_upper m = to_upper m' \<and> p = p' \<and> h\<lparr>sh_signature := []\<rparr> = h'\<lparr>sh_signature := []\<rparr>"
proof -
  have "CHR 0x0A \<notin> set ''LINKA-HMAC-V2''" by simp
  then have "[''LINKA-HMAC-V2'', sh_version h, to_upper m] = [''LINKA-HMAC-V2'', sh_version h', to_upper m'] \<and> p = p'
    \<and> [sh_caller h, sh_key_id h, sh_request_id h, sh_timestamp h, sh_body_sha h]
      = [sh_caller h', sh_key_id h', sh_request_id h', sh_timestamp h', sh_body_sha h']"
    using assms unfolding service_text_def clean_headers_def
    by (intro join_middle_inj [where c = "CHR 0x0A"]) (auto simp: to_upper_no_newline)
  then show ?thesis by (cases h; cases h') simp
qed

text \<open>The headers that Apply writes are the ones that FromRequest reads.\<close>

lemma headers_round_trip:
  "service_headers_from_request (r\<lparr>req_header := apply_service_headers h hs\<rparr>) = h"
proof -
  have "distinct (map to_lower [''X-Linka-Signature-Version'', ''X-Linka-Key-ID'', ''X-Linka-Caller'',
    ''X-Linka-Request-ID'', ''X-Linka-Timestamp'', ''X-Linka-Body-SHA256'', ''X-Linka-Signature''])"
    by code_simp
  then show ?thesis
    by (simp add: service_headers_from_request_def apply_service_headers_def header_get_set Let_def)
qed

end
