(* ===== verification/Auth_Tokens.thy ===== *)
theory Auth_Tokens
  imports Auth_Service Contract_Common Product_Registry
begin

section \<open>internal/auth: writer signatures, installation and product tokens\<close>

text \<open>
  writer.go, installation.go, product.go and internal/app/keyring.go. The three formats share the
  shape "text, then base64 of an HMAC of the text". The lemmas are the round trips (what is issued
  verifies until it expires, also after the key has become the previous one), what an accepted
  token says (its fields, its age, the key that signed it), and the separation of the signed
  texts: no text signed for one purpose is also one for another (\<open>mac_texts_separate\<close>), which
  matters because HMACKeyring falls back to one shared secret. The random source of Issue is the
  UUID it yields.
\<close>

subsection \<open>Signed writer requests (V1)\<close>

definition writer_text :: "string \<Rightarrow> string \<Rightarrow> string" where
  "writer_text ts body_sha = ts @ [CHR 0x0A] @ body_sha"

definition sign_writer_request :: "string \<Rightarrow> string \<Rightarrow> time \<Rightarrow> string \<times> string \<times> string" where
  "sign_writer_request secret body timestamp =
     (let ts = format_int (unix_seconds timestamp); body_sha = hex_encode (sha256 body)
      in (ts, body_sha, b64_encode (hmac_sha256 secret (writer_text ts body_sha))))"

definition verify_writer_request ::
  "string \<Rightarrow> string \<Rightarrow> time \<Rightarrow> duration \<Rightarrow> string \<Rightarrow> string \<Rightarrow> string \<Rightarrow> unit result" where
  "verify_writer_request secret body now skew timestamp body_sha signature =
     andthen (from_option (Err ''invalid writer timestamp'') (parse_int64 timestamp)) (\<lambda>ts.
       let request_time = unix_time ts; delta = time_sub now request_time
       in reject (delta < - skew \<or> delta > skew) (Err ''writer timestamp outside allowed skew'')
         (reject (hex_decode body_sha \<noteq> Some (sha256 body)) (Err ''invalid writer body digest'')
         (andthen (from_option (Err ''invalid writer signature'') (b64_decode signature)) (\<lambda>provided.
            case sign_writer_request secret body request_time of
              (_, _, expected_signature) \<Rightarrow>
                reject (Some provided \<noteq> b64_decode expected_signature) (Err ''invalid writer signature'')
                  (Inr ())))))"

lemma verify_writer_request_Inr [result_simps]:
  "verify_writer_request secret body now skew ts body_sha sg = Inr u \<longleftrightarrow>
     timely skew now ts \<and> hex_decode body_sha = Some (sha256 body)
     \<and> (\<exists>n. parse_int64 ts = Some n \<and> b64_decode sg = Some (hmac_sha256 secret
           (writer_text (format_int (unix_seconds (unix_time n))) (hex_encode (sha256 body)))))"
  by (auto simp: verify_writer_request_def sign_writer_request_def timely_def result_simps Let_def
      not_less)

lemma verify_sign_writer:
  assumes "sign_writer_request secret body now = (ts, body_sha, sg)"
    and "representable now" and "skew < 2 ^ 63 - 1" and "0 \<le> skew"
    and "\<bar>later - truncate_to now second\<bar> \<le> skew"
  shows "verify_writer_request secret body later skew ts body_sha sg = Inr ()"
proof -
  have ts: "ts = format_int (unix_seconds now)" "body_sha = hex_encode (sha256 body)"
    "sg = b64_encode (hmac_sha256 secret (writer_text ts body_sha))"
    using assms(1) by (auto simp: sign_writer_request_def Let_def)
  moreover have "timely skew later ts"
    using assms(2-5) time_sub_within [of skew later "unix_time (unix_seconds now)"]
    by (simp add: timely_def ts(1) representable_in_int64 unix_time_seconds)
  ultimately show ?thesis
    using assms(2) by (simp add: verify_writer_request_Inr representable_in_int64 unix_time_seconds)
qed

subsection \<open>Installation tokens\<close>

record installation_claims =
  installation_id :: string
  issued_at :: time

record installation_tokens =
  active_secret :: string
  previous_secret :: "string option"
  max_age :: duration

definition installation_text :: "string \<Rightarrow> string \<Rightarrow> string" where
  "installation_text i issued = ''v1'' @ [CHR 0x0A] @ i @ [CHR 0x0A] @ issued"

definition new_installation_tokens ::
  "string \<Rightarrow> string option \<Rightarrow> duration \<Rightarrow> installation_tokens result" where
  "new_installation_tokens active previous age =
     reject (length active < 32 \<or> \<not> opt_all (\<lambda>p. 32 \<le> length p) previous)
       (Err ''installation HMAC secret must contain at least 32 bytes'')
    (reject (age < hour \<or> age > 365 * 24 * hour)
       (Err ''installation token max age must be between one hour and one year'')
       (Inr \<lparr>active_secret = active, previous_secret = previous, max_age = age\<rparr>))"

definition issue_installation ::
  "installation_tokens \<Rightarrow> time \<Rightarrow> string \<Rightarrow> installation_claims \<times> string" where
  "issue_installation t now i =
     (let at_time = truncate_to now second; issued = format_int (unix_seconds at_time)
      in (\<lparr>installation_id = i, issued_at = at_time\<rparr>,
          join ''.'' [''v1'', i, issued, b64_encode (hmac_sha256 (active_secret t) (installation_text i issued))]))"

definition verify_installation ::
  "'u uuid_lib \<Rightarrow> installation_tokens \<Rightarrow> time \<Rightarrow> string \<Rightarrow> installation_claims result" where
  "verify_installation lib t now token =
     (let bad = Err ''invalid installation token'' in
      case split_on (CHR ''.'') token of
        [version, i, issued, sg] \<Rightarrow>
          reject (version \<noteq> ''v1'') bad
         (reject (uuid_parse lib i = None) bad
         (andthen (from_option bad (parse_int64 issued)) (\<lambda>issued_unix.
          andthen (from_option bad (b64_decode sg)) (\<lambda>provided.
            reject (\<not> (provided = hmac_sha256 (active_secret t) (installation_text i issued)
                \<or> (\<exists>p \<in> set_option (previous_secret t). provided = hmac_sha256 p (installation_text i issued)))) bad
           (let at_time = unix_time issued_unix
            in reject (at_time > now + 5 * minute \<or> at_time < now - max_age t) bad
                 (Inr \<lparr>installation_id = i, issued_at = at_time\<rparr>))))))
      | _ \<Rightarrow> Inl bad)"

definition renew_installation ::
  "'u uuid_lib \<Rightarrow> installation_tokens \<Rightarrow> time \<Rightarrow> string \<Rightarrow> (installation_claims \<times> string) result" where
  "renew_installation lib t now token =
     andthen (verify_installation lib t now token) (\<lambda>claims.
       Inr (issue_installation t now (installation_id claims)))"

definition installation_signed :: "string \<Rightarrow> string \<Rightarrow> installation_claims \<Rightarrow> bool" where
  "installation_signed secret token c \<longleftrightarrow>
     (\<exists>issued n sg. token = join ''.'' [''v1'', installation_id c, issued, sg]
        \<and> parse_int64 issued = Some n \<and> issued_at c = unix_time n
        \<and> b64_decode sg = Some (hmac_sha256 secret (installation_text (installation_id c) issued)))"

lemma verify_installation_sound:
  assumes "verify_installation lib t now token = Inr c"
  shows "(\<exists>secret \<in> insert (active_secret t) (set_option (previous_secret t)). installation_signed secret token c)
    \<and> uuid_parse lib (installation_id c) \<noteq> None
    \<and> now - max_age t \<le> issued_at c \<and> issued_at c \<le> now + 5 * minute"
proof -
  have token: "token = join ''.'' (split_on (CHR ''.'') token)" by (simp add: join_split_on)
  from assms obtain i issued sg n provided secret where
    parts: "split_on (CHR ''.'') token = [''v1'', i, issued, sg]"
    and "uuid_parse lib i \<noteq> None" "parse_int64 issued = Some n" "b64_decode sg = Some provided"
    and "secret \<in> insert (active_secret t) (set_option (previous_secret t))"
      "provided = hmac_sha256 secret (installation_text i issued)"
    and "c = \<lparr>installation_id = i, issued_at = unix_time n\<rparr>"
      "\<not> unix_time n > now + 5 * minute" "\<not> unix_time n < now - max_age t"
    unfolding verify_installation_def Let_def
    by (auto simp: result_simps split: list.splits)
  with token show ?thesis by (auto simp: installation_signed_def not_less)
qed

lemma verify_installation_complete:
  assumes "CHR ''.'' \<notin> set i" "uuid_parse lib i \<noteq> None" "representable now"
    and "secret = active_secret t \<or> previous_secret t = Some secret"
    and "later - max_age t \<le> truncate_to now second" "truncate_to now second \<le> later + 5 * minute"
    and "issued = format_int (unix_seconds now)"
    and "token = join ''.'' [''v1'', i, issued, b64_encode (hmac_sha256 secret (installation_text i issued))]"
  shows "verify_installation lib t later token = Inr \<lparr>installation_id = i, issued_at = truncate_to now second\<rparr>"
proof -
  have "split_on (CHR ''.'') token
      = [''v1'', i, issued, b64_encode (hmac_sha256 secret (installation_text i issued))]"
    unfolding assms(8) by (rule split_on_join) (use assms(1,7) b64_encode_no_dot in auto)
  moreover have "parse_int64 issued = Some (unix_seconds now)"
    using assms(3,7) by (simp add: representable_in_int64)
  ultimately show ?thesis
    using assms(2-6) by (auto simp: verify_installation_def Let_def unix_time_seconds)
qed

text \<open>
  A token verifies for its whole life, with the ID and the time of issue that it was given, also
  with the next keyring, where its secret is the previous one.
\<close>

lemma installation_round_trip:
  assumes "issue_installation t now i = (c, token)"
    and "CHR ''.'' \<notin> set i" "uuid_parse lib i \<noteq> None" "representable now"
    and "active_secret t' = active_secret t \<or> previous_secret t' = Some (active_secret t)"
    and "later - max_age t' \<le> issued_at c" "issued_at c \<le> later + 5 * minute"
  shows "verify_installation lib t' later token = Inr c"
  using assms verify_installation_complete [of i lib now "active_secret t" t' later
      "format_int (unix_seconds now)" token]
  by (auto simp: issue_installation_def Let_def)

text \<open>Renewing keeps the installation ID and restarts the age.\<close>

lemma renew_installation_Inr [result_simps]:
  "renew_installation lib t now token = Inr (c, token') \<longleftrightarrow>
     (\<exists>old. verify_installation lib t now token = Inr old
        \<and> issue_installation t now (installation_id old) = (c, token'))"
  by (auto simp: renew_installation_def result_simps)

lemma issue_installation_claims:
  "issue_installation t now i = (c, token) \<Longrightarrow> installation_id c = i \<and> issued_at c = truncate_to now second"
  by (auto simp: issue_installation_def Let_def)

lemma verified_id_no_dot:
  assumes "verify_installation lib t now token = Inr c"
  shows "CHR ''.'' \<notin> set (installation_id c)"
proof -
  from assms obtain v i issued sg where parts: "split_on (CHR ''.'') token = [v, i, issued, sg]"
    and "installation_id c = i"
    unfolding verify_installation_def Let_def by (auto simp: result_simps split: list.splits)
  with split_on_pieces [of i "CHR ''.''" token] show ?thesis by simp
qed

subsection \<open>Product tokens\<close>

record product_claims =
  pc_product :: string
  pc_subject_key :: string
  pc_person_key :: "string option"
  pc_org_key :: "string option"
  pc_issued_at :: time
  pc_expires_at :: time

record product_tokens =
  pt_active :: service_key
  pt_previous :: "service_key option"
  subject_secret :: string
  pt_ttl :: duration

definition new_product_tokens ::
  "service_key \<Rightarrow> service_key option \<Rightarrow> string \<Rightarrow> duration \<Rightarrow> product_tokens result" where
  "new_product_tokens active previous secret ttl =
     andthen (wrap ''active product token key'' (validate_service_key active)) (\<lambda>_.
     andthen
       (case previous of
          None \<Rightarrow> Inr ()
        | Some p \<Rightarrow>
            andthen (wrap ''previous product token key'' (validate_service_key p)) (\<lambda>_.
              reject (key_id p = key_id active)
                (Err ''active and previous product token key IDs must differ'') (Inr ()))) (\<lambda>_.
       reject (ttl \<le> 0 \<or> ttl > 365 * 24 * hour) (Err ''product token TTL must be between zero and one year'')
      (reject (length secret < 32) (Err ''subject HMAC secret must contain at least 32 bytes'')
        (Inr \<lparr>pt_active = active, pt_previous = previous, subject_secret = secret, pt_ttl = ttl\<rparr>))))"

definition opaque_key :: "string \<Rightarrow> bool" where
  "opaque_key v =
     (length v = 64 \<and> (case hex_decode v of None \<Rightarrow> False | Some d \<Rightarrow> hex_encode d = v))"

definition encode_optional_opaque :: "string option \<Rightarrow> string" where
  "encode_optional_opaque v = (case v of None \<Rightarrow> ''-'' | Some k \<Rightarrow> k)"

definition decode_optional_opaque :: "string \<Rightarrow> string option result" where
  "decode_optional_opaque v =
     (if v = ''-'' then Inr None
      else reject (\<not> opaque_key v) (Err ''invalid opaque key'') (Inr (Some v)))"

definition product_text :: "string \<Rightarrow> string" where
  "product_text unsigned_token = ''linka-product-token-v2'' @ [CHR 0x0A] @ unsigned_token"

definition subject_text :: "string \<Rightarrow> string \<Rightarrow> string" where
  "subject_text p i = ''linka-product-subject-v2'' @ [CHR 0x0A] @ p @ [CHR 0x0A] @ i"

definition unsigned_parts :: "string \<Rightarrow> product_claims \<Rightarrow> string list" where
  "unsigned_parts kid c =
     [''v2'', kid, pc_product c, pc_subject_key c, encode_optional_opaque (pc_person_key c),
      encode_optional_opaque (pc_org_key c), format_int (unix_seconds (pc_issued_at c)),
      format_int (unix_seconds (pc_expires_at c))]"

definition issue_scope ::
  "product_tokens \<Rightarrow> time \<Rightarrow> product_claims \<Rightarrow> (product_claims \<times> string) result" where
  "issue_scope t now claims =
     reject (lookup_product (pc_product claims) = None \<or> \<not> opaque_key (pc_subject_key claims))
       (Err ''invalid product token scope'')
    (reject (\<not> opt_all opaque_key (pc_person_key claims) \<or> \<not> opt_all opaque_key (pc_org_key claims))
       (Err ''identity scope keys must be opaque lowercase SHA-256 values'')
       (let c = claims\<lparr>pc_issued_at := truncate_to now second,
                       pc_expires_at := truncate_to now second + pt_ttl t\<rparr>;
            unsigned_token = join ''.'' (unsigned_parts (key_id (pt_active t)) c)
        in Inr (c, unsigned_token @ ''.'' @
                   b64_encode (hmac_sha256 (key_secret (pt_active t)) (product_text unsigned_token)))))"

definition issue_anonymous ::
  "product_tokens \<Rightarrow> time \<Rightarrow> string \<Rightarrow> string \<Rightarrow> (product_claims \<times> string) result" where
  "issue_anonymous t now p i =
     reject (lookup_product p = None) (Err ''unknown product'')
       (issue_scope t now
         \<lparr>pc_product = p, pc_subject_key = hex_encode (hmac_sha256 (subject_secret t) (subject_text p i)),
          pc_person_key = None, pc_org_key = None, pc_issued_at = 0, pc_expires_at = 0\<rparr>)"

definition find_product_key :: "product_tokens \<Rightarrow> string \<Rightarrow> service_key option" where
  "find_product_key t i =
     (if i = key_id (pt_active t) then Some (pt_active t)
      else case pt_previous t of
             Some p \<Rightarrow> if i = key_id p then Some p else None
           | None \<Rightarrow> None)"

definition verify_product :: "product_tokens \<Rightarrow> time \<Rightarrow> string \<Rightarrow> product_claims result" where
  "verify_product t now token =
     (let bad = Err ''invalid product token'' in
      case split_on (CHR ''.'') token of
        [version, kid, p, subject, person, org, issued, expires, sg] \<Rightarrow>
          reject (version \<noteq> ''v2'') bad
         (andthen (from_option bad (find_product_key t kid)) (\<lambda>k.
          andthen (from_option bad (b64_decode sg)) (\<lambda>provided.
            reject (provided \<noteq> hmac_sha256 (key_secret k)
                (product_text (join ''.'' [version, kid, p, subject, person, org, issued, expires]))) bad
           (reject (lookup_product p = None \<or> \<not> opaque_key subject) bad
           (case (decode_optional_opaque person, decode_optional_opaque org) of
              (Inr person_key, Inr org_key) \<Rightarrow>
                andthen (from_option bad (parse_int64 issued)) (\<lambda>issued_unix.
                andthen (from_option bad (parse_int64 expires)) (\<lambda>expires_unix.
                  let issued_time = unix_time issued_unix; expires_time = unix_time expires_unix
                  in reject (issued_time > now + 5 * minute \<or> \<not> expires_time > now
                         \<or> \<not> expires_time > issued_time) bad
                       (Inr \<lparr>pc_product = p, pc_subject_key = subject, pc_person_key = person_key,
                             pc_org_key = org_key, pc_issued_at = issued_time,
                             pc_expires_at = expires_time\<rparr>)))
            | _ \<Rightarrow> Inl bad)))))
      | _ \<Rightarrow> Inl bad)"

text \<open>opaqueKey and the regular expression of the contract accept the same strings.\<close>

lemma opaque_key_iff: "opaque_key v \<longleftrightarrow> opaque_key_pattern v"
proof
  assume "opaque_key v"
  then obtain d where "length v = 64" "hex_encode d = v" by (auto simp: opaque_key_def split: option.splits)
  then show "opaque_key_pattern v"
    using hex_encode_lower [of d] by (simp add: opaque_key_pattern_def class_string_def)
next
  assume v: "opaque_key_pattern v"
  then obtain d where "hex_decode v = Some d"
    using hex_decode_total [of v] by (auto simp: opaque_key_pattern_def class_string_def)
  with v show "opaque_key v"
    using hex_encode_decode [of v d] by (auto simp: opaque_key_def opaque_key_pattern_def class_string_def)
qed

lemma opaque_key_eq: "opaque_key = opaque_key_pattern"
  by (rule ext) (rule opaque_key_iff)

lemma decode_optional_opaque_Inr [result_simps]:
  "decode_optional_opaque v = Inr k \<longleftrightarrow> v = encode_optional_opaque k \<and> opt_all opaque_key_pattern k"
  using opaque_key_not_dash
  by (cases k) (auto simp: decode_optional_opaque_def encode_optional_opaque_def opaque_key_iff result_simps)

definition claims_ok :: "product_claims \<Rightarrow> bool" where
  "claims_ok c \<longleftrightarrow>
     lookup_product (pc_product c) \<noteq> None \<and> opaque_key_pattern (pc_subject_key c)
     \<and> opt_all opaque_key_pattern (pc_person_key c) \<and> opt_all opaque_key_pattern (pc_org_key c)"

definition product_signed :: "service_key \<Rightarrow> string \<Rightarrow> product_claims \<Rightarrow> bool" where
  "product_signed k token c \<longleftrightarrow>
     (\<exists>issued expires n m sg.
        let unsigned_token = join ''.'' [''v2'', key_id k, pc_product c, pc_subject_key c,
              encode_optional_opaque (pc_person_key c), encode_optional_opaque (pc_org_key c), issued, expires]
        in token = unsigned_token @ ''.'' @ sg \<and> b64_decode sg = Some (hmac_sha256 (key_secret k) (product_text unsigned_token))
           \<and> parse_int64 issued = Some n \<and> pc_issued_at c = unix_time n
           \<and> parse_int64 expires = Some m \<and> pc_expires_at c = unix_time m)"

lemma verify_product_sound:
  assumes "verify_product t now token = Inr c"
  shows "(\<exists>k. find_product_key t (key_id k) = Some k \<and> product_signed k token c) \<and> claims_ok c
    \<and> pc_issued_at c \<le> now + 5 * minute \<and> now < pc_expires_at c \<and> pc_issued_at c < pc_expires_at c"
proof -
  have token: "token = join ''.'' (split_on (CHR ''.'') token)" by (simp add: join_split_on)
  have kid: "find_product_key t i = Some k \<Longrightarrow> key_id k = i" for i k
    by (auto simp: find_product_key_def split: if_splits option.splits)
  from assms obtain i subject person org issued expires sg k n m where
    parts: "split_on (CHR ''.'') token
        = [''v2'', i, pc_product c, subject, person, org, issued, expires, sg]"
    and k: "find_product_key t i = Some k" "b64_decode sg = Some (hmac_sha256 (key_secret k)
        (product_text (join ''.'' [''v2'', i, pc_product c, subject, person, org, issued, expires])))"
    and c: "lookup_product (pc_product c) \<noteq> None" "opaque_key_pattern subject" "subject = pc_subject_key c"
      "decode_optional_opaque person = Inr (pc_person_key c)" "decode_optional_opaque org = Inr (pc_org_key c)"
    and w: "parse_int64 issued = Some n" "parse_int64 expires = Some m"
      "pc_issued_at c = unix_time n" "pc_expires_at c = unix_time m"
      "pc_issued_at c \<le> now + 5 * minute" "now < pc_expires_at c" "pc_issued_at c < pc_expires_at c"
    unfolding verify_product_def Let_def
    by (auto simp: reject_Inr andthen_Inr from_option_Inr opaque_key_iff not_less
        split: list.splits sum.splits)
  have p: "person = encode_optional_opaque (pc_person_key c)" "opt_all opaque_key_pattern (pc_person_key c)"
    "org = encode_optional_opaque (pc_org_key c)" "opt_all opaque_key_pattern (pc_org_key c)"
    using c(4,5) by (simp_all add: decode_optional_opaque_Inr)
  have "product_signed k token c"
    unfolding product_signed_def Let_def
    by (rule exI [of _ issued], rule exI [of _ expires], rule exI [of _ n], rule exI [of _ m],
        rule exI [of _ sg]) (use token parts k kid [OF k(1)] p c(3) w in simp)
  with c p w k kid [OF k(1)] show ?thesis by (auto simp: claims_ok_def)
qed

lemma encode_optional_no_dot: "opt_all opaque_key_pattern k \<Longrightarrow> CHR ''.'' \<notin> set (encode_optional_opaque k)"
  using opaque_key_no_dot by (cases k) (auto simp: encode_optional_opaque_def)

lemma issue_scope_Inr [result_simps]:
  "issue_scope t now claims = Inr (c, token) \<longleftrightarrow>
     claims_ok claims
     \<and> c = claims\<lparr>pc_issued_at := truncate_to now second, pc_expires_at := truncate_to now second + pt_ttl t\<rparr>
     \<and> token = join ''.'' (unsigned_parts (key_id (pt_active t)) c
         @ [b64_encode (hmac_sha256 (key_secret (pt_active t))
              (product_text (join ''.'' (unsigned_parts (key_id (pt_active t)) c))))])"
  by (auto simp: issue_scope_def claims_ok_def opaque_key_eq result_simps Let_def join_snoc
      unsigned_parts_def)

text \<open>
  An issued token verifies until it expires, for any keyring that still has its key, and gives
  back the claims; the expiry is rounded down to the second that the token carries.
\<close>

lemma product_round_trip:
  assumes "issue_scope t now claims = Inr (c, token)"
    and "find_product_key t' (key_id (pt_active t)) = Some (pt_active t)" "key_ok (pt_active t)"
    and "representable now" "representable (truncate_to now second + pt_ttl t)" "second \<le> pt_ttl t"
    and "pc_issued_at c \<le> later + 5 * minute" "later < truncate_to (pc_expires_at c) second"
  shows "verify_product t' later token = Inr (c\<lparr>pc_expires_at := truncate_to (pc_expires_at c) second\<rparr>)"
proof -
  define sg where "sg = b64_encode (hmac_sha256 (key_secret (pt_active t))
      (product_text (join ''.'' (unsigned_parts (key_id (pt_active t)) c))))"
  have c: "claims_ok c" "pc_issued_at c = truncate_to now second"
    "pc_expires_at c = truncate_to now second + pt_ttl t"
    and token: "token = join ''.'' (unsigned_parts (key_id (pt_active t)) c @ [sg])"
    using assms(1) by (auto simp: issue_scope_Inr sg_def claims_ok_def)
  have "CHR ''.'' \<notin> set (key_id (pt_active t))"
    using assms(3) service_name_no_dot by (simp add: key_ok_def)
  moreover have "CHR ''.'' \<notin> set (pc_product c)" "CHR ''.'' \<notin> set (pc_subject_key c)"
    using c(1) lookup_no_dot opaque_key_no_dot by (auto simp: claims_ok_def)
  moreover have "CHR ''.'' \<notin> set (encode_optional_opaque (pc_person_key c))"
    "CHR ''.'' \<notin> set (encode_optional_opaque (pc_org_key c))"
    using c(1) encode_optional_no_dot by (auto simp: claims_ok_def)
  ultimately have "split_on (CHR ''.'') token = unsigned_parts (key_id (pt_active t)) c @ [sg]"
    unfolding token by (intro split_on_join) (simp_all add: unsigned_parts_def sg_def b64_encode_no_dot)
  moreover have "decode_optional_opaque (encode_optional_opaque (pc_person_key c)) = Inr (pc_person_key c)"
    "decode_optional_opaque (encode_optional_opaque (pc_org_key c)) = Inr (pc_org_key c)"
    using c(1) by (auto simp: decode_optional_opaque_Inr claims_ok_def)
  moreover have "parse_int64 (format_int (unix_seconds (pc_issued_at c))) = Some (unix_seconds now)"
    "parse_int64 (format_int (unix_seconds (pc_expires_at c))) = Some (unix_seconds (pc_expires_at c))"
    using assms(4,5) c by (simp_all add: representable_in_int64)
  moreover have e: "unix_time (unix_seconds (pc_expires_at c)) = truncate_to (pc_expires_at c) second"
    "unix_time (unix_seconds now) = pc_issued_at c"
    using assms(4,5) c by (simp_all add: unix_time_seconds)
  moreover have "pc_issued_at c < truncate_to (pc_expires_at c) second"
    using truncate_to_gt [of second "pc_expires_at c"] assms(6) c by (simp add: second_def)
  ultimately show ?thesis
    using assms(2,7,8) c(1)
    by (auto simp: verify_product_def unsigned_parts_def Let_def claims_ok_def opaque_key_iff sg_def)
qed

lemma issue_anonymous_Inr:
  "issue_anonymous t now p i = Inr (c, token) \<Longrightarrow>
     pc_product c = p \<and> pc_subject_key c = hex_encode (hmac_sha256 (subject_secret t) (subject_text p i))
     \<and> pc_person_key c = None \<and> pc_org_key c = None \<and> claims_ok c
     \<and> pc_issued_at c = truncate_to now second \<and> pc_expires_at c = truncate_to now second + pt_ttl t"
  by (auto simp: issue_anonymous_def result_simps claims_ok_def)

text \<open>Anonymous tokens are issued for every registered product.\<close>

lemma issue_anonymous_total:
  "lookup_product p \<noteq> None \<Longrightarrow> \<exists>c token. issue_anonymous t now p i = Inr (c, token)"
  by (auto simp: issue_anonymous_def issue_scope_def opaque_key_iff opaque_key_hex_encode Let_def)

subsection \<open>The signed texts are pairwise disjoint\<close>

definition writer_texts :: "string set" where
  "writer_texts = {writer_text (format_int n) sha | n sha. True}"
definition service_texts :: "string set" where
  "service_texts = {service_text m p h | m p h. True}"
definition installation_texts :: "string set" where
  "installation_texts = {installation_text i t | i t. True}"
definition product_texts :: "string set" where
  "product_texts = range product_text"
definition subject_texts :: "string set" where
  "subject_texts = {subject_text p i | p i. True}"

lemma format_int_not_Nil: "format_int n \<noteq> []"
  using format_digits_hd [of n] format_digits_hd [of "- n"] by (cases "n < 0") (auto simp: format_int_def)

lemma writer_text_hd: "hd (writer_text (format_int n) sha) \<in> insert (CHR ''-'') (Collect is_digit)"
  using format_int_chars [of "hd (format_int n)" n] format_int_not_Nil [of n]
  by (auto simp: writer_text_def)

lemma mac_text_heads:
  "hd (service_text m p h) = CHR ''L''" "hd (installation_text i t) = CHR ''v''"
  "hd (product_text u) = CHR ''l''" "hd (subject_text q j) = CHR ''l''"
  "product_text u \<noteq> subject_text q j"
  by (simp_all add: service_text_def installation_text_def product_text_def subject_text_def)

lemma mac_texts_separate:
  "writer_texts \<inter> service_texts = {}" "writer_texts \<inter> installation_texts = {}"
  "writer_texts \<inter> product_texts = {}" "writer_texts \<inter> subject_texts = {}"
  "service_texts \<inter> installation_texts = {}" "service_texts \<inter> product_texts = {}"
  "service_texts \<inter> subject_texts = {}" "installation_texts \<inter> product_texts = {}"
  "installation_texts \<inter> subject_texts = {}" "product_texts \<inter> subject_texts = {}"
proof -
  have digits: "\<not> is_digit (CHR ''L'')" "\<not> is_digit (CHR ''v'')" "\<not> is_digit (CHR ''l'')" by code_simp+
  have w: "hd x \<in> insert (CHR ''-'') (Collect is_digit)" if "x \<in> writer_texts" for x
    using that writer_text_hd by (auto simp: writer_texts_def)
  have s: "hd x = CHR ''L''" if "x \<in> service_texts" for x
    using that mac_text_heads by (auto simp: service_texts_def)
  have i: "hd x = CHR ''v''" if "x \<in> installation_texts" for x
    using that mac_text_heads by (auto simp: installation_texts_def)
  have p: "hd x = CHR ''l''" if "x \<in> product_texts \<union> subject_texts" for x
    using that mac_text_heads by (auto simp: product_texts_def subject_texts_def)
  show "writer_texts \<inter> service_texts = {}" using w s digits by fastforce
  show "writer_texts \<inter> installation_texts = {}" using w i digits by fastforce
  show "writer_texts \<inter> product_texts = {}" using w p digits by fastforce
  show "writer_texts \<inter> subject_texts = {}" using w p digits by fastforce
  show "service_texts \<inter> installation_texts = {}" using s i by fastforce
  show "service_texts \<inter> product_texts = {}" using s p by fastforce
  show "service_texts \<inter> subject_texts = {}" using s p by fastforce
  show "installation_texts \<inter> product_texts = {}" using i p by fastforce
  show "installation_texts \<inter> subject_texts = {}" using i p by fastforce
  show "product_texts \<inter> subject_texts = {}"
    using mac_text_heads(5) by (auto simp: product_texts_def subject_texts_def)
qed

text \<open>Within a purpose the text determines the fields.\<close>

lemma subject_text_inj:
  assumes "subject_text p i = subject_text q j" "CHR 0x0A \<notin> set p" "CHR 0x0A \<notin> set q"
  shows "p = q \<and> i = j"
proof -
  from assms(1) have "p @ CHR 0x0A # i = q @ CHR 0x0A # j" by (simp add: subject_text_def)
  then have "takeWhile (\<lambda>c. c \<noteq> CHR 0x0A) (p @ CHR 0x0A # i) = takeWhile (\<lambda>c. c \<noteq> CHR 0x0A) (q @ CHR 0x0A # j)"
    by simp
  moreover have "takeWhile (\<lambda>c. c \<noteq> CHR 0x0A) (p @ CHR 0x0A # i) = p" if "CHR 0x0A \<notin> set p" for p i
    using that by (induction p) auto
  ultimately have "p = q" using assms(2,3) by simp
  with \<open>p @ CHR 0x0A # i = q @ CHR 0x0A # j\<close> show ?thesis by simp
qed

subsection \<open>The keyring\<close>

definition hmac_keyring ::
  "(string \<Rightarrow> string) \<Rightarrow> string \<Rightarrow> string \<Rightarrow> (service_key \<times> service_key option) result" where
  "hmac_keyring env prefix fallback =
     (let active_id = env (prefix @ ''_ACTIVE_KEY_ID''); active = env (prefix @ ''_ACTIVE_SECRET'');
          active_key = \<lparr>key_id = (if active_id = [] then ''default'' else active_id),
                        key_secret = (if active = [] then fallback else active)\<rparr>;
          previous_id = env (prefix @ ''_PREVIOUS_KEY_ID''); previous = env (prefix @ ''_PREVIOUS_SECRET'')
      in if previous_id = [] \<and> previous = [] then Inr (active_key, None)
         else reject (previous_id = [] \<or> previous = [])
           (Err ''previous key ID and secret must be configured together'')
           (Inr (active_key, Some \<lparr>key_id = previous_id, key_secret = previous\<rparr>)))"

end
