(* ===== verification/Auth_Identity.thy ===== *)
theory Auth_Identity
  imports Auth_Tokens
begin

section \<open>internal/auth/identity_jwt.go: Identity JWTs and the JWKS cache\<close>

text \<open>
  Verify of IdentityJWTVerifier over the interface JWKSKeySource, and HTTPJWKS, which implements
  it. Ed25519 is an argument (\<open>ed\<close>: public key, message, signature); ed25519.Verify panics on a key
  of the wrong length, which the model keeps as an error of its own (\<open>ed25519_panic\<close>). A source of
  keys is a state and a function \<open>keys force\<close> on it; the locale \<open>key_source\<close> states what Verify
  relies on, that keys have 32 bytes, and proves that Verify then never panics. It is interpreted
  on the HTTP cache. What happens around it is a list of \<open>fetch\<close> events, one per call: the
  clock before and after a request and its outcome. The cache lemmas: what it serves is never older than
  an hour, and a forced refresh serves what it has just fetched.
\<close>

record jwt_header =
  jh_algorithm :: string
  jh_type :: string
  jh_key_id :: string

record identity_claims =
  ic_issuer :: string
  ic_subject :: string
  ic_audience :: string
  ic_product :: string
  ic_subject_type :: string
  ic_scopes :: "string list"
  ic_person_key :: "string option"
  ic_org_key :: "string option"
  ic_issued_at :: int
  ic_expires_at :: int
  ic_token_id :: string

record identity_verifier =
  iv_issuer :: string
  iv_audiences :: "(string \<times> string) list"
  iv_max_lifetime :: duration
  iv_max_skew :: duration

type_synonym ed25519 = "string \<Rightarrow> string \<Rightarrow> string \<Rightarrow> bool"
type_synonym key_map = "(string \<times> string) list"
type_synonym 's keys_fun = "bool \<Rightarrow> 's \<Rightarrow> key_map result \<times> 's"

definition jwt_header_fields :: "(string \<times> jwt_header into) list" where
  "jwt_header_fields =
     [fld ''alg'' jh_algorithm jh_algorithm_update into_string,
      fld ''typ'' jh_type jh_type_update into_string,
      fld ''kid'' jh_key_id jh_key_id_update into_string]"

definition identity_claims_fields :: "(string \<times> identity_claims into) list" where
  "identity_claims_fields =
     [fld ''iss'' ic_issuer ic_issuer_update into_string,
      fld ''sub'' ic_subject ic_subject_update into_string,
      fld ''aud'' ic_audience ic_audience_update into_string,
      fld ''product'' ic_product ic_product_update into_string,
      fld ''subject_type'' ic_subject_type ic_subject_type_update into_string,
      fld ''scope'' ic_scopes ic_scopes_update (into_slice [] into_string),
      fld ''person_key'' ic_person_key ic_person_key_update (into_ptr [] into_string),
      fld ''org_key'' ic_org_key ic_org_key_update (into_ptr [] into_string),
      fld ''iat'' ic_issued_at ic_issued_at_update into_int64,
      fld ''exp'' ic_expires_at ic_expires_at_update into_int64,
      fld ''jti'' ic_token_id ic_token_id_update into_string]"

definition zero_jwt_header :: jwt_header where
  "zero_jwt_header = \<lparr>jh_algorithm = [], jh_type = [], jh_key_id = []\<rparr>"

definition zero_identity_claims :: identity_claims where
  "zero_identity_claims = \<lparr>ic_issuer = [], ic_subject = [], ic_audience = [], ic_product = [],
     ic_subject_type = [], ic_scopes = [], ic_person_key = None, ic_org_key = None,
     ic_issued_at = 0, ic_expires_at = 0, ic_token_id = []\<rparr>"

definition decode_jwt_part :: "(string \<times> 'r into) list \<Rightarrow> string \<Rightarrow> 'r \<Rightarrow> 'r option" where
  "decode_jwt_part tbl data destination =
     Option.bind (json_first data) (\<lambda>v. into_struct tbl v destination)"

definition new_identity_verifier ::
  "string \<Rightarrow> (string \<times> string) list \<Rightarrow> duration \<Rightarrow> identity_verifier result" where
  "new_identity_verifier issuer audiences lifetime =
     reject (issuer = [] \<or> audiences = [] \<or> lifetime \<le> 0 \<or> lifetime > hour)
       (Err ''invalid Identity JWT verifier configuration'')
    (reject (\<not> list_all (\<lambda>a. lookup_product (fst a) \<noteq> None \<and> trim_space (snd a) \<noteq> []) audiences)
       (Err ''invalid Identity JWT product audience'')
       (Inr \<lparr>iv_issuer = issuer, iv_audiences = audiences, iv_max_lifetime = lifetime,
             iv_max_skew = 30 * second\<rparr>))"

definition contains_scope :: "string list \<Rightarrow> string \<Rightarrow> bool" where
  "contains_scope scopes required = list_ex (\<lambda>s. s = required) scopes"

definition canonical_token_id :: "'u uuid_lib \<Rightarrow> string \<Rightarrow> bool" where
  "canonical_token_id lib v =
     (case uuid_parse lib v of None \<Rightarrow> False | Some u \<Rightarrow> uuid_string lib u = v)"

definition valid_subject_type :: "string \<Rightarrow> bool" where
  "valid_subject_type s = (s = ''account'' \<or> s = ''installation'' \<or> s = ''service'')"

definition ed25519_panic :: go_error where
  "ed25519_panic = Err ''panic: ed25519: bad public key length''"

definition check_signature :: "ed25519 \<Rightarrow> string \<Rightarrow> string \<Rightarrow> string \<Rightarrow> unit result" where
  "check_signature ed pk message sg =
     (if length pk \<noteq> 32 then Inl ed25519_panic
      else reject (\<not> ed pk message sg) (Err ''invalid Identity JWT signature'') (Inr ()))"

text \<open>The lookup of the key: the cached set first, a forced refresh if the key is not in it.\<close>

definition find_public_key ::
  "'s keys_fun \<Rightarrow> string \<Rightarrow> 's \<Rightarrow> string option result \<times> 's" where
  "find_public_key keys kid s =
     (case keys False s of
        (Inl e, s) \<Rightarrow> (Inl (Wrapped ''load Identity JWKS'' e), s)
      | (Inr m, s) \<Rightarrow>
          (case map_of m kid of
             Some pk \<Rightarrow> (Inr (Some pk), s)
           | None \<Rightarrow>
               (case keys True s of
                  (Inl e, s) \<Rightarrow> (Inl (Wrapped ''refresh Identity JWKS'' e), s)
                | (Inr m, s) \<Rightarrow> (Inr (map_of m kid), s))))"

definition check_claims ::
  "'u uuid_lib \<Rightarrow> identity_verifier \<Rightarrow> time \<Rightarrow> string \<Rightarrow> identity_claims \<Rightarrow> identity_claims result" where
  "check_claims lib v now required c =
     (let issued = unix_time (ic_issued_at c); expires = unix_time (ic_expires_at c) in
      reject (ic_issuer c \<noteq> iv_issuer v \<or> ic_subject c = [] \<or> \<not> opaque_key (ic_subject c)
          \<or> ic_token_id c = [] \<or> \<not> canonical_token_id lib (ic_token_id c)
          \<or> issued > now + iv_max_skew v \<or> \<not> expires > now \<or> \<not> expires > issued
          \<or> time_sub expires issued > iv_max_lifetime v
          \<or> \<not> contains_scope (ic_scopes c) required \<or> \<not> valid_subject_type (ic_subject_type c))
        (Err ''invalid Identity JWT claims'')
     (reject (lookup_product (ic_product c) = None) (Err ''unknown Identity JWT product'')
     (reject (map_of (iv_audiences v) (ic_product c) \<noteq> Some (ic_audience c))
        (Err ''invalid Identity JWT audience for product'')
     (reject (\<not> opt_all opaque_key (ic_person_key c) \<or> \<not> opt_all opaque_key (ic_org_key c))
        (Err ''invalid Identity JWT opaque scope'') (Inr c)))))"

definition jwt_key_id :: "string \<Rightarrow> string option" where
  "jwt_key_id header_part =
     Option.bind (b64_decode header_part) (\<lambda>b.
     Option.bind (decode_jwt_part jwt_header_fields b zero_jwt_header) (\<lambda>h.
       if jh_algorithm h \<noteq> ''EdDSA'' \<or> jh_type h \<noteq> ''JWT'' \<or> jh_key_id h = [] then None
       else Some (jh_key_id h)))"

text \<open>What Verify does once it has looked up the key: the signature, the payload, the claims.\<close>

definition check_token ::
  "ed25519 \<Rightarrow> 'u uuid_lib \<Rightarrow> identity_verifier \<Rightarrow> time \<Rightarrow> string \<Rightarrow> string \<Rightarrow> string \<Rightarrow> string \<Rightarrow> string option
    \<Rightarrow> identity_claims result" where
  "check_token ed lib v now required header_part payload_part signature_part found =
     (case (b64_decode signature_part, found) of
        (Some sg, Some pk) \<Rightarrow>
          andthen (check_signature ed pk (header_part @ ''.'' @ payload_part) sg) (\<lambda>_.
          andthen (from_option (Err ''invalid Identity JWT payload'') (b64_decode payload_part)) (\<lambda>payload.
          andthen (from_option (Err ''invalid Identity JWT claims'')
              (decode_jwt_part identity_claims_fields payload zero_identity_claims)) (\<lambda>c.
            check_claims lib v now required c)))
      | _ \<Rightarrow> Inl (Err ''invalid Identity JWT signature''))"

definition verify_identity ::
  "ed25519 \<Rightarrow> 'u uuid_lib \<Rightarrow> 's keys_fun \<Rightarrow> identity_verifier \<Rightarrow> time \<Rightarrow> string \<Rightarrow> string \<Rightarrow> 's
    \<Rightarrow> identity_claims result \<times> 's" where
  "verify_identity ed lib keys v now encoded required s =
     (case split_on (CHR ''.'') encoded of
        [header_part, payload_part, signature_part] \<Rightarrow>
          if length encoded > 8192 then (Inl (Err ''invalid Identity JWT''), s)
          else (case jwt_key_id header_part of
             None \<Rightarrow> (Inl (Err ''invalid Identity JWT header''), s)
           | Some kid \<Rightarrow>
               (case find_public_key keys kid s of
                  (Inl e, s) \<Rightarrow> (Inl e, s)
                | (Inr found, s) \<Rightarrow>
                    (check_token ed lib v now required header_part payload_part signature_part found, s)))
      | _ \<Rightarrow> (Inl (Err ''invalid Identity JWT''), s))"

subsection \<open>The HTTP source of keys\<close>

record jwk =
  jwk_kty :: string
  jwk_crv :: string
  jwk_use :: string
  jwk_alg :: string
  jwk_kid :: string
  jwk_x :: string
  jwk_state :: string

definition zero_jwk :: jwk where
  "zero_jwk = \<lparr>jwk_kty = [], jwk_crv = [], jwk_use = [], jwk_alg = [], jwk_kid = [], jwk_x = [], jwk_state = []\<rparr>"

definition jwk_fields :: "(string \<times> jwk into) list" where
  "jwk_fields =
     [fld ''kty'' jwk_kty jwk_kty_update into_string,
      fld ''crv'' jwk_crv jwk_crv_update into_string,
      fld ''use'' jwk_use jwk_use_update into_string,
      fld ''alg'' jwk_alg jwk_alg_update into_string,
      fld ''kid'' jwk_kid jwk_kid_update into_string,
      fld ''x'' jwk_x jwk_x_update into_string,
      fld ''x-linka-state'' jwk_state jwk_state_update into_string]"

definition jwks_fields :: "(string \<times> jwk list into) list" where
  "jwks_fields = [(''keys'', into_slice zero_jwk (into_struct jwk_fields))]"

text \<open>
  One call of Keys: the clock at its start and after its request, if it makes one, and the status
  and body of the answer, or a transport error.
\<close>

record fetch =
  before_fetch :: time
  after_fetch :: time
  fetched :: "(nat \<times> string) result"

record jwks_cache =
  cached :: key_map
  fetched_at :: time
  network :: "fetch list"

definition cache_ttl :: duration where "cache_ttl = 5 * minute"
definition max_stale :: duration where "max_stale = hour"

definition public_key :: "jwk \<Rightarrow> string option" where
  "public_key k =
     (case b64_decode (jwk_x k) of
        None \<Rightarrow> None
      | Some d \<Rightarrow>
          if length d \<noteq> 32 \<or> jwk_kty k \<noteq> ''OKP'' \<or> jwk_crv k \<noteq> ''Ed25519'' \<or> jwk_use k \<noteq> ''sig''
             \<or> jwk_alg k \<noteq> ''EdDSA'' \<or> jwk_kid k = [] \<or> (jwk_state k \<noteq> ''active'' \<and> jwk_state k \<noteq> ''retiring'')
          then None else Some d)"

fun collect_keys :: "jwk list \<Rightarrow> key_map \<Rightarrow> key_map result" where
  "collect_keys [] m = Inr m"
| "collect_keys (k # ks) m =
     andthen (from_option (Err ''invalid Identity JWKS key'') (public_key k)) (\<lambda>d.
       reject (map_of m (jwk_kid k) \<noteq> None) (Err ''duplicate Identity JWKS key ID'')
         (collect_keys ks ((jwk_kid k, d) # m)))"

definition parse_jwks :: "(nat \<times> string) result \<Rightarrow> key_map result" where
  "parse_jwks outcome =
     andthen outcome (\<lambda>(status, body).
       reject (status \<noteq> 200) (Err ''JWKS returned HTTP'')
      (andthen (from_option (Err ''invalid Identity JWKS'')
          (decode_jwt_part jwks_fields (take (64 * 1024) body) [])) (\<lambda>ks.
         reject (ks = []) (Err ''invalid Identity JWKS'') (collect_keys ks []))))"

text \<open>Keys; when the model runs out of events the request fails.\<close>

definition no_network :: fetch where
  "no_network = \<lparr>before_fetch = 0, after_fetch = 0, fetched = Inl (Err ''network'')\<rparr>"

definition next_fetch :: "jwks_cache \<Rightarrow> fetch" where
  "next_fetch s = (case network s of [] \<Rightarrow> no_network | f # _ \<Rightarrow> f)"

definition http_keys :: "jwks_cache keys_fun" where
  "http_keys force s0 =
     (let f = next_fetch s0; s = s0\<lparr>network := tl (network s0)\<rparr> in
      if \<not> force \<and> cached s \<noteq> [] \<and> time_sub (before_fetch f) (fetched_at s) < cache_ttl
      then (Inr (cached s), s)
      else
        case parse_jwks (fetched f) of
          Inr m \<Rightarrow> (Inr m, s\<lparr>cached := m, fetched_at := after_fetch f\<rparr>)
        | Inl e \<Rightarrow>
            if \<not> force \<and> cached s \<noteq> [] \<and> time_sub (after_fetch f) (fetched_at s) < max_stale
            then (Inr (cached s), s)
            else (Inl e, s))"

subsection \<open>Verify over any source of keys\<close>

lemma check_token_no_panic:
  assumes "\<forall>pk. found = Some pk \<longrightarrow> length pk = 32"
  shows "check_token ed lib v now required a b c found \<noteq> Inl ed25519_panic"
proof -
  have claims: "check_claims lib v now required x \<noteq> Inl ed25519_panic" for x
    by (simp add: check_claims_def Let_def reject_def ed25519_panic_def)
  show ?thesis
  proof (cases "b64_decode c")
    case (Some sg)
    show ?thesis
    proof (cases found)
      case (Some pk)
      with \<open>b64_decode c = Some sg\<close> assms claims show ?thesis
        by (auto simp: check_token_def check_signature_def reject_def andthen_def from_option_def
            ed25519_panic_def split: option.splits)
    qed (simp add: check_token_def ed25519_panic_def split: option.splits)
  qed (simp add: check_token_def ed25519_panic_def)
qed

locale key_source =
  fixes keys :: "'s keys_fun" and inv :: "'s \<Rightarrow> bool"
  assumes keys_inv: "inv s \<Longrightarrow> inv (snd (keys force s))"
    and keys_size: "inv s \<Longrightarrow> keys force s = (Inr m, s') \<Longrightarrow> map_of m kid = Some pk \<Longrightarrow> length pk = 32"
begin

lemma find_public_key_inv:
  assumes "inv s" and "find_public_key keys kid s = (r, s')"
  shows "inv s' \<and> (\<forall>pk. r = Inr (Some pk) \<longrightarrow> length pk = 32)"
proof (cases "keys False s")
  case (Pair r1 s1)
  then have i1: "inv s1" using keys_inv [OF assms(1), of False] by simp
  show ?thesis
  proof (cases r1)
    case (Inr m)
    show ?thesis
    proof (cases "map_of m kid")
      case None
      obtain r2 s2 where k2: "keys True s1 = (r2, s2)" by force
      then have "inv s2" using keys_inv [OF i1, of True] by simp
      with k2 i1 None Pair Inr assms(2) show ?thesis
        by (cases r2) (auto simp: find_public_key_def dest: keys_size)
    qed (use Pair Inr i1 assms in \<open>auto simp: find_public_key_def dest: keys_size\<close>)
  qed (use Pair i1 assms(2) in \<open>auto simp: find_public_key_def\<close>)
qed

lemma find_public_key_no_panic:
  "find_public_key keys kid s = (Inl e, s') \<Longrightarrow> e \<noteq> ed25519_panic"
  by (auto simp: find_public_key_def ed25519_panic_def split: prod.splits sum.splits option.splits)

lemma verify_no_panic:
  assumes "inv s"
  shows "fst (verify_identity ed lib keys v now encoded required s) \<noteq> Inl ed25519_panic
    \<and> inv (snd (verify_identity ed lib keys v now encoded required s))"
proof (cases "\<exists>a b c kid r s'. split_on (CHR ''.'') encoded = [a, b, c] \<and> length encoded \<le> 8192
    \<and> jwt_key_id a = Some kid \<and> find_public_key keys kid s = (r, s')")
  case True
  then obtain a b c kid r s' where *: "split_on (CHR ''.'') encoded = [a, b, c]" "length encoded \<le> 8192"
    "jwt_key_id a = Some kid" "find_public_key keys kid s = (r, s')" by blast
  from find_public_key_inv [OF assms *(4)] have i: "inv s'" "\<forall>pk. r = Inr (Some pk) \<longrightarrow> length pk = 32"
    by auto
  show ?thesis
  proof (cases r)
    case (Inl e)
    with * find_public_key_no_panic i show ?thesis by (auto simp: verify_identity_def)
  next
    case (Inr found)
    with i have "check_token ed lib v now required a b c found \<noteq> Inl ed25519_panic"
      by (intro check_token_no_panic) auto
    with * i Inr show ?thesis by (simp add: verify_identity_def)
  qed
next
  case False
  have bad: "Err ''invalid Identity JWT'' \<noteq> ed25519_panic" "Err ''invalid Identity JWT header'' \<noteq> ed25519_panic"
    by (simp_all add: ed25519_panic_def)
  show ?thesis
  proof (cases "\<exists>a b c. split_on (CHR ''.'') encoded = [a, b, c]")
    case True
    then obtain a b c where "split_on (CHR ''.'') encoded = [a, b, c]" by blast
    with False bad assms show ?thesis
      by (cases "jwt_key_id a"; cases "find_public_key keys (the (jwt_key_id a)) s")
        (auto simp: verify_identity_def)
  next
    case False
    then have "verify_identity ed lib keys v now encoded required s = (Inl (Err ''invalid Identity JWT''), s)"
      unfolding verify_identity_def by (split list.split; auto split: list.splits)
    with bad assms show ?thesis by simp
  qed
qed

end

subsection \<open>What the HTTP cache serves\<close>

definition cache_ok :: "jwks_cache \<Rightarrow> bool" where
  "cache_ok s \<longleftrightarrow> (\<forall>kid pk. map_of (cached s) kid = Some pk \<longrightarrow> length pk = 32)"

lemma collect_keys_size:
  "collect_keys ks m = Inr m' \<Longrightarrow> \<forall>kid pk. map_of m kid = Some pk \<longrightarrow> length pk = 32 \<Longrightarrow>
     map_of m' kid = Some pk \<Longrightarrow> length pk = 32"
proof (induction ks arbitrary: m)
  case (Cons k ks)
  then obtain d where d: "public_key k = Some d" "collect_keys ks ((jwk_kid k, d) # m) = Inr m'"
    by (auto simp: result_simps)
  from d(1) have "length d = 32" by (auto simp: public_key_def split: option.splits if_splits)
  with Cons.prems(2) have "\<forall>kid pk. map_of ((jwk_kid k, d) # m) kid = Some pk \<longrightarrow> length pk = 32" by simp
  from Cons.IH [OF d(2) this Cons.prems(3)] show ?case .
qed auto

lemma parse_jwks_size: "parse_jwks r = Inr m \<Longrightarrow> map_of m kid = Some pk \<Longrightarrow> length pk = 32"
  by (auto simp: parse_jwks_def result_simps dest: collect_keys_size)

lemma http_keys_disj:
  assumes "http_keys force s = (r, s')" and "parse_jwks (fetched (next_fetch s)) = outcome"
  shows "(r = Inr (cached s) \<and> \<not> force \<and> s' = s\<lparr>network := tl (network s)\<rparr>
      \<and> (time_sub (before_fetch (next_fetch s)) (fetched_at s) < cache_ttl
         \<or> time_sub (after_fetch (next_fetch s)) (fetched_at s) < max_stale))
    \<or> (\<exists>m. r = Inr m \<and> outcome = Inr m
        \<and> s' = s\<lparr>network := tl (network s), cached := m, fetched_at := after_fetch (next_fetch s)\<rparr>)
    \<or> (\<exists>e. r = Inl e \<and> outcome = Inl e \<and> s' = s\<lparr>network := tl (network s)\<rparr>)"
  using assms by (cases outcome) (auto simp: http_keys_def Let_def split: if_splits)

lemma http_keys_cases:
  assumes "http_keys force s = (r, s')"
  obtains
    (kept) "r = Inr (cached s)" "\<not> force" "s' = s\<lparr>network := tl (network s)\<rparr>"
      "time_sub (before_fetch (next_fetch s)) (fetched_at s) < cache_ttl
       \<or> time_sub (after_fetch (next_fetch s)) (fetched_at s) < max_stale"
  | (fetched) m where "r = Inr m" "parse_jwks (fetched (next_fetch s)) = Inr m"
      "s' = s\<lparr>network := tl (network s), cached := m, fetched_at := after_fetch (next_fetch s)\<rparr>"
  | (error) e where "r = Inl e" "parse_jwks (fetched (next_fetch s)) = Inl e"
      "s' = s\<lparr>network := tl (network s)\<rparr>"
  using http_keys_disj [OF assms refl] by blast

interpretation http_jwks: key_source http_keys cache_ok
proof
  fix s force
  assume s: "cache_ok s"
  obtain r s' where k: "http_keys force s = (r, s')" by force
  show "cache_ok (snd (http_keys force s))"
    by (rule http_keys_cases [OF k]) (use s k in \<open>auto simp: cache_ok_def dest: parse_jwks_size\<close>)
next
  fix s force m s' kid pk
  assume s: "cache_ok s" and k: "http_keys force s = (Inr m, s')" and pk: "map_of m kid = Some pk"
  show "length pk = 32"
    by (rule http_keys_cases [OF k]) (use s pk in \<open>auto simp: cache_ok_def dest: parse_jwks_size\<close>)
qed

text \<open>
  What a call serves was fetched by it, or is the cached set: less than five minutes old, or less
  than an hour when the request failed. A forced refresh serves nothing but what it fetched, and
  no call loses the cached set by failing.
\<close>

definition age :: "jwks_cache \<Rightarrow> duration" where
  "age s = time_sub (after_fetch (next_fetch s)) (fetched_at s)"

lemma http_keys_served:
  assumes "http_keys force s = (Inr m, s')"
    and "before_fetch (next_fetch s) \<le> after_fetch (next_fetch s)"
    and "after_fetch (next_fetch s) \<le> before_fetch (next_fetch s) + 5 * second"
  shows "cached s' = m \<and> (parse_jwks (fetched (next_fetch s)) = Inr m \<and> fetched_at s' = after_fetch (next_fetch s)
      \<or> \<not> force \<and> m = cached s \<and> fetched_at s' = fetched_at s \<and> age s < max_stale)"
  using assms
proof (rule_tac http_keys_cases [OF assms(1)])
  assume *: "Inr m = Inr (cached s)" "\<not> force" "s' = s\<lparr>network := tl (network s)\<rparr>"
    "time_sub (before_fetch (next_fetch s)) (fetched_at s) < cache_ttl
     \<or> time_sub (after_fetch (next_fetch s)) (fetched_at s) < max_stale"
  from *(4) assms(3) have "age s < max_stale"
    by (auto simp: age_def time_sub_def saturate64_def cache_ttl_def max_stale_def duration_defs)
  with * show ?thesis by simp
qed (auto simp: age_def)

lemma http_keys_failure:
  "http_keys force s = (Inl e, s') \<Longrightarrow> cached s' = cached s \<and> fetched_at s' = fetched_at s"
  by (rule http_keys_cases) auto

subsection \<open>What an accepted token says\<close>

definition identity_claims_ok :: "'u uuid_lib \<Rightarrow> identity_verifier \<Rightarrow> time \<Rightarrow> string \<Rightarrow> identity_claims \<Rightarrow> bool" where
  "identity_claims_ok lib v now required c \<longleftrightarrow>
     ic_issuer c = iv_issuer v \<and> opaque_key_pattern (ic_subject c) \<and> canonical_token_id lib (ic_token_id c)
     \<and> map_of (iv_audiences v) (ic_product c) = Some (ic_audience c) \<and> lookup_product (ic_product c) \<noteq> None
     \<and> required \<in> set (ic_scopes c) \<and> valid_subject_type (ic_subject_type c)
     \<and> opt_all opaque_key_pattern (ic_person_key c) \<and> opt_all opaque_key_pattern (ic_org_key c)
     \<and> unix_time (ic_issued_at c) \<le> now + iv_max_skew v \<and> now < unix_time (ic_expires_at c)
     \<and> unix_time (ic_issued_at c) < unix_time (ic_expires_at c)
     \<and> time_sub (unix_time (ic_expires_at c)) (unix_time (ic_issued_at c)) \<le> iv_max_lifetime v"

lemma check_claims_Inr [result_simps]:
  "check_claims lib v now required c = Inr c' \<longleftrightarrow>
     c' = c \<and> ic_token_id c \<noteq> [] \<and> identity_claims_ok lib v now required c"
  using opaque_key_not_Nil
  by (auto simp: check_claims_def identity_claims_ok_def contains_scope_def list_ex_iff opaque_key_eq
      result_simps Let_def not_less)

lemma check_token_Inr:
  assumes "check_token ed lib v now required a b c found = Inr claims"
  obtains pk sg payload where "found = Some pk" "b64_decode c = Some sg" "length pk = 32"
    "ed pk (a @ ''.'' @ b) sg" "b64_decode b = Some payload"
    "decode_jwt_part identity_claims_fields payload zero_identity_claims = Some claims"
    "identity_claims_ok lib v now required claims"
  using assms
  by (auto simp: check_token_def check_signature_def result_simps split: option.splits if_splits)

lemma verify_identity_sound:
  assumes "verify_identity ed lib keys v now encoded required s = (Inr c, s')"
  shows "\<exists>a b sg_part sg kid pk. encoded = join ''.'' [a, b, sg_part] \<and> length encoded \<le> 8192
    \<and> jwt_key_id a = Some kid \<and> find_public_key keys kid s = (Inr (Some pk), s')
    \<and> b64_decode sg_part = Some sg \<and> ed pk (a @ ''.'' @ b) sg
    \<and> Option.bind (b64_decode b) (\<lambda>p. decode_jwt_part identity_claims_fields p zero_identity_claims) = Some c
    \<and> identity_claims_ok lib v now required c"
proof -
  have e: "encoded = join ''.'' (split_on (CHR ''.'') encoded)" by (simp add: join_split_on)
  from assms obtain a b sp kid found where *: "split_on (CHR ''.'') encoded = [a, b, sp]"
    "length encoded \<le> 8192" "jwt_key_id a = Some kid" "find_public_key keys kid s = (Inr found, s')"
    "check_token ed lib v now required a b sp found = Inr c"
    unfolding verify_identity_def
    by (auto split: list.splits if_splits option.splits prod.splits sum.splits)
  from check_token_Inr [OF *(5)] obtain pk sg payload where "found = Some pk" "b64_decode sp = Some sg"
    "ed pk (a @ ''.'' @ b) sg" "b64_decode b = Some payload"
    "decode_jwt_part identity_claims_fields payload zero_identity_claims = Some c"
    "identity_claims_ok lib v now required c" by blast
  with * e show ?thesis
    by (rule_tac exI [of _ a], rule_tac exI [of _ b], rule_tac exI [of _ sp], rule_tac exI [of _ sg],
        rule_tac exI [of _ kid], rule_tac exI [of _ pk]) simp
qed

end
