(* ===== verification/Auth_Properties.thy ===== *)
theory Auth_Properties
  imports Samples Auth_Identity Auth_Tokens "HOL-Library.Disjoint_Sets"
begin

section \<open>Properties of the signatures and tokens\<close>

text \<open>
  What the collector and the writer may conclude from a signature or a token they accept, and
  what they accept of what was issued. The witnesses use a key of 32 equal bytes; they do not
  evaluate a digest, only the rules around it.
\<close>

definition sample_key :: service_key where
  "sample_key = \<lparr>key_id = ''k1'', key_secret = replicate 32 (CHR ''s'')\<rparr>"

definition sample_signer :: service_signer where
  "sample_signer = \<lparr>signer_key = sample_key, signer_caller = ''collector''\<rparr>"

definition sample_verifier :: service_verifier where
  "sample_verifier = \<lparr>verifier_active = \<lparr>key_id = ''k2'', key_secret = replicate 32 (CHR ''t'')\<rparr>,
     verifier_previous = Some sample_key, allowed_caller = ''collector'', max_skew = 5 * minute\<rparr>"

definition sample_signed :: service_headers where
  "sample_signed = (case sign_service sample_signer sample_now ''POST'' ''/v2/batches'' ''r1'' ''{}'' of Inr h \<Rightarrow> h)"

definition sample_installations :: installation_tokens where
  "sample_installations = \<lparr>active_secret = replicate 32 (CHR ''i''), previous_secret = None, max_age = hour\<rparr>"

definition sample_products :: product_tokens where
  "sample_products = \<lparr>pt_active = sample_key, pt_previous = None,
     subject_secret = replicate 32 (CHR ''u''), pt_ttl = hour\<rparr>"

definition sample_identity :: identity_verifier where
  "sample_identity = \<lparr>iv_issuer = ''https://id'', iv_audiences = [(''linka-site'', ''site'')],
     iv_max_lifetime = hour, iv_max_skew = 30 * second\<rparr>"

definition sample_cache :: jwks_cache where
  "sample_cache = \<lparr>cached = [(''k'', replicate 32 (CHR ''p''))], fetched_at = sample_now - 10 * minute,
     network = [\<lparr>before_fetch = sample_now, after_fetch = sample_now + second,
       fetched = Inl (Err ''timeout'')\<rparr>]\<rparr>"

definition sample_jwt_header :: string where
  "sample_jwt_header = ''eyJhbGciOiJFZERTQSIsInR5cCI6IkpXVCIsImtpZCI6ImsifQ''"

definition sample_jwt_json :: string where
  "sample_jwt_json = ''{\"iss\":\"https://id\",\"sub\":\"a1fd852a6ad52468c6ad95b47df33966052a4fc3ff44334e5bcfc4f03e24c372\",\"aud\":\"site\",\"product\":\"linka-site\",\"subject_type\":\"account\",\"scope\":[\"metrics\"],\"iat\":1784635199,\"exp\":1784635799,\"jti\":\"10000000-0000-4000-8000-000000000001\"}''"

definition sample_jwt_object :: json where
  "sample_jwt_object = JObj
    [(''iss'', JStr ''https://id''), (''sub'', JStr sample_subject), (''aud'', JStr ''site''),
     (''product'', JStr ''linka-site''), (''subject_type'', JStr ''account''),
     (''scope'', JArr [JStr ''metrics'']), (''iat'', JNum ''1784635199''), (''exp'', JNum ''1784635799''),
     (''jti'', JStr ''10000000-0000-4000-8000-000000000001'')]"

definition sample_jwt_payload :: string where
  "sample_jwt_payload = ''eyJpc3MiOiJodHRwczovL2lkIiwic3ViIjoiYTFmZDg1MmE2YWQ1MjQ2OGM2YWQ5NWI0N2RmMzM5NjYwNTJhNGZjM2ZmNDQzMzRlNWJjZmM0ZjAzZTI0YzM3MiIsImF1ZCI6InNpdGUiLCJwcm9kdWN0IjoibGlua2Etc2l0ZSIsInN1YmplY3RfdHlwZSI6ImFjY291bnQiLCJzY29wZSI6WyJtZXRyaWNzIl0sImlhdCI6MTc4NDYzNTE5OSwiZXhwIjoxNzg0NjM1Nzk5LCJqdGkiOiIxMDAwMDAwMC0wMDAwLTQwMDAtODAwMC0wMDAwMDAwMDAwMDEifQ''"

definition sample_jwt :: string where
  "sample_jwt = join ''.'' [sample_jwt_header, sample_jwt_payload, ''c2ln'']"

definition sample_claims :: identity_claims where
  "sample_claims = \<lparr>ic_issuer = ''https://id'', ic_subject = sample_subject, ic_audience = ''site'',
     ic_product = ''linka-site'', ic_subject_type = ''account'', ic_scopes = [''metrics''],
     ic_person_key = None, ic_org_key = None, ic_issued_at = 1784635199, ic_expires_at = 1784635799,
     ic_token_id = ''10000000-0000-4000-8000-000000000001''\<rparr>"

lemma sample_http_keys:
  "http_keys False sample_cache = (Inr [(''k'', replicate 32 (CHR ''p''))], sample_cache\<lparr>network := []\<rparr>)"
  by (simp add: http_keys_def next_fetch_def sample_cache_def cache_ttl_def max_stale_def duration_defs
        time_sub_def saturate64_def parse_jwks_def)

text \<open>The example takes every signature for good; the rules around it are the code's.\<close>

lemma sample_jwt_accepted:
  "verify_identity (\<lambda>_ _ _. True) plain_uuids http_keys sample_identity sample_now sample_jwt ''metrics'' sample_cache
     = (Inr sample_claims, sample_cache\<lparr>network := []\<rparr>)"
proof -
  have "split_on (CHR ''.'') sample_jwt = [sample_jwt_header, sample_jwt_payload, ''c2ln'']"
    "length sample_jwt \<le> 8192" by code_simp+
  moreover have "jwt_key_id sample_jwt_header = Some ''k''"
  proof -
    have "b64_decode sample_jwt_header = Some ''{\"alg\":\"EdDSA\",\"typ\":\"JWT\",\"kid\":\"k\"}''" by code_simp
    moreover have "json_first ''{\"alg\":\"EdDSA\",\"typ\":\"JWT\",\"kid\":\"k\"}''
        = Some (JObj [(''alg'', JStr ''EdDSA''), (''typ'', JStr ''JWT''), (''kid'', JStr ''k'')])" by code_simp
    moreover have "into_struct jwt_header_fields
        (JObj [(''alg'', JStr ''EdDSA''), (''typ'', JStr ''JWT''), (''kid'', JStr ''k'')]) zero_jwt_header
        = Some \<lparr>jh_algorithm = ''EdDSA'', jh_type = ''JWT'', jh_key_id = ''k''\<rparr>" by code_simp
    ultimately show ?thesis by (simp add: jwt_key_id_def decode_jwt_part_def)
  qed
  moreover have "find_public_key http_keys ''k'' sample_cache
      = (Inr (Some (replicate 32 (CHR ''p''))), sample_cache\<lparr>network := []\<rparr>)"
    by (simp add: find_public_key_def sample_http_keys)
  moreover have "b64_decode sample_jwt_payload = Some sample_jwt_json" by code_simp
  moreover have "decode_jwt_part identity_claims_fields sample_jwt_json zero_identity_claims = Some sample_claims"
  proof -
    have "lex sample_jwt_json = Some (render sample_jwt_object)" by code_simp
    then have "json_first sample_jwt_json = Some sample_jwt_object" by (rule json_first_lex)
    moreover have "into_struct identity_claims_fields sample_jwt_object zero_identity_claims = Some sample_claims"
      by code_simp
    ultimately show ?thesis by (simp add: decode_jwt_part_def)
  qed
  moreover have "check_claims plain_uuids sample_identity sample_now ''metrics'' sample_claims = Inr sample_claims"
    "b64_decode ''c2ln'' = Some ''sig''" by code_simp+
  ultimately show ?thesis
    by (simp add: verify_identity_def check_token_def check_signature_def)
qed

lemma sample_signs: "sign_service sample_signer sample_now ''POST'' ''/v2/batches'' ''r1'' ''{}'' = Inr sample_signed"
proof -
  have "\<not> bad_request_id ''r1''" by code_simp
  then have "\<exists>h. sign_service sample_signer sample_now ''POST'' ''/v2/batches'' ''r1'' ''{}'' = Inr h"
    by (simp add: sign_service_def Let_def)
  then show ?thesis by (auto simp: sample_signed_def)
qed

lemma sample_verifier_ok: "verifier_ok sample_verifier"
  "find_service_key sample_verifier (key_id (signer_key sample_signer)) = Some (signer_key sample_signer)"
  "signer_caller sample_signer = allowed_caller sample_verifier"
  by code_simp+

lemma sample_now_exact: "representable sample_now" "truncate_to sample_now second = sample_now"
  by code_simp+

lemma sample_verifies:
  "verify_service sample_verifier sample_now ''POST'' ''/v2/batches'' ''{}'' sample_signed = Inr ()"
  by (rule verify_sign_service [OF sample_signs])
    (simp_all add: sample_verifier_ok sample_now_exact, simp_all add: sample_verifier_def duration_defs)

lemma sample_installation_token:
  assumes "issue_installation sample_installations sample_now sample_installation = (c, token)"
  shows "verify_installation plain_uuids sample_installations sample_now token = Inr c"
proof (rule installation_round_trip [OF assms])
  show "CHR ''.'' \<notin> set sample_installation" "uuid_parse plain_uuids sample_installation \<noteq> None" by code_simp+
qed (use issue_installation_claims [OF assms] in
    \<open>simp_all add: sample_now_exact, simp_all add: sample_installations_def duration_defs\<close>)

lemma sample_product_token:
  assumes "issue_anonymous sample_products sample_now ''linka-site'' sample_installation = Inr (c, token)"
  shows "verify_product sample_products sample_now token = Inr (c\<lparr>pc_expires_at := sample_now + hour\<rparr>)"
proof -
  from assms obtain claims where i: "issue_scope sample_products sample_now claims = Inr (c, token)"
    unfolding issue_anonymous_def reject_Inr by blast
  have e: "pc_issued_at c = sample_now" "pc_expires_at c = sample_now + hour"
    using issue_anonymous_Inr [OF assms] by (simp_all add: sample_now_exact sample_products_def)
  have t: "truncate_to (sample_now + hour) second = sample_now + hour" "representable (sample_now + hour)"
    by code_simp+
  have "find_product_key sample_products (key_id (pt_active sample_products)) = Some (pt_active sample_products)"
    "key_ok (pt_active sample_products)" "pt_ttl sample_products = hour" by code_simp+
  then show ?thesis
    using product_round_trip [OF i, of sample_products sample_now] e t
    by (simp add: sample_now_exact) (simp add: duration_defs)
qed

text \<open>
  C31. A request that a signer signs is accepted by every verifier that has the signing key as its
  active or its previous one and allows the caller, as long as the verifier's clock is within the
  allowed skew of the second of signing.
\<close>

theorem service_signature_accepted:
  assumes "sign_service s now meth path rid body = Inr h"
    and "find_service_key v (key_id (signer_key s)) = Some (signer_key s)"
    and "signer_caller s = allowed_caller v"
    and "representable now" and "max_skew v < 2 ^ 63 - 1" and "0 \<le> max_skew v"
    and "\<bar>later - truncate_to now second\<bar> \<le> max_skew v"
  shows "verify_service v later meth path body h = Inr ()"
  using assms by (rule verify_sign_service)

theorem service_signature_accepted_witness:
  "sign_service sample_signer sample_now ''POST'' ''/v2/batches'' ''r1'' ''{}'' = Inr sample_signed
   \<and> verify_service sample_verifier (sample_now + minute) ''POST'' ''/v2/batches'' ''{}'' sample_signed = Inr ()"
  using service_signature_accepted [OF sample_signs sample_verifier_ok(2,3) sample_now_exact(1),
      of "sample_now + minute"] sample_signs sample_now_exact(2)
  by (simp add: sample_verifier_def duration_defs)

text \<open>
  C32. A signature cannot be moved: a request that the verifier accepts carries the MAC, under one
  of its keys, of a text that determines the method, the path and every signed header, and the
  digest header is that of the body. Two accepted requests with the same signed text agree in all
  of them.
\<close>

theorem service_signature_binds:
  assumes "verify_service v now m p body h = Inr ()"
    and "verify_service v now' m' p' body' h' = Inr ()" and "verifier_ok v"
    and "service_text m p h = service_text m' p' h'"
    and "CHR 0x0A \<notin> set m" and "CHR 0x0A \<notin> set m'"
  shows "to_upper m = to_upper m' \<and> p = p' \<and> h\<lparr>sh_signature := []\<rparr> = h'\<lparr>sh_signature := []\<rparr>
    \<and> sha256 body = sha256 body' \<and> sh_caller h = allowed_caller v
    \<and> (\<exists>k. find_service_key v (sh_key_id h) = Some k
         \<and> b64_decode (sh_signature h) = Some (hmac_sha256 (key_secret k) (service_text m p h)))"
proof -
  have "clean_headers h" "clean_headers h'" using verified_clean assms(1-3) by blast+
  then have eq: "to_upper m = to_upper m'" "p = p'" "h\<lparr>sh_signature := []\<rparr> = h'\<lparr>sh_signature := []\<rparr>"
    using service_text_inj [OF assms(4)] assms(5,6) by blast+
  then have "sh_body_sha h = sh_body_sha h'" by (cases h; cases h') simp
  with assms(1,2) have "hex_encode (sha256 body) = hex_encode (sha256 body')"
    by (auto simp: verify_service_Inr)
  then have "sha256 body = sha256 body'" by (metis hex_decode_encode option.inject)
  with eq assms(1) show ?thesis by (auto simp: verify_service_Inr signed_by_def service_mac_def)
qed

theorem service_signature_binds_witness:
  "sha256 ''{}'' = sha256 ''{}'' \<and> sh_caller sample_signed = allowed_caller sample_verifier
   \<and> (\<exists>k. find_service_key sample_verifier (sh_key_id sample_signed) = Some k
        \<and> b64_decode (sh_signature sample_signed)
          = Some (hmac_sha256 (key_secret k) (service_text ''POST'' ''/v2/batches'' sample_signed)))"
  using service_signature_binds [OF sample_verifies sample_verifies sample_verifier_ok(1)] by simp

text \<open>
  C22. The seven signature headers survive the HTTP header map: what Apply writes over whatever was
  there is what HeadersFromRequest reads.
\<close>

theorem service_headers_round_trip:
  "service_headers_from_request (r\<lparr>req_header := apply_service_headers h hs\<rparr>) = h"
  by (rule headers_round_trip)

text \<open>
  A V1 writer request verifies with the same secret while the writer's clock is within the
  allowed skew of the second of signing.
\<close>

theorem writer_signature_accepted:
  assumes "sign_writer_request secret body now = (ts, body_sha, sg)"
    and "representable now" and "skew < 2 ^ 63 - 1" and "0 \<le> skew"
    and "\<bar>later - truncate_to now second\<bar> \<le> skew"
  shows "verify_writer_request secret body later skew ts body_sha sg = Inr ()"
  using assms by (rule verify_sign_writer)

theorem writer_signature_accepted_witness:
  "\<exists>ts body_sha sg. sign_writer_request ''secret'' ''{}'' sample_now = (ts, body_sha, sg)
     \<and> verify_writer_request ''secret'' ''{}'' (sample_now + minute) (5 * minute) ts body_sha sg = Inr ()"
proof -
  obtain ts body_sha sg where "sign_writer_request ''secret'' ''{}'' sample_now = (ts, body_sha, sg)"
    by (metis prod_cases3)
  with writer_signature_accepted [OF this sample_now_exact(1), of "5 * minute" "sample_now + minute"]
  show ?thesis by (auto simp: sample_now_exact(2)) (simp_all add: duration_defs)
qed

text \<open>
  C33. An installation token that VerifyInstallation accepts was made with the active or the previous
  secret for exactly its ID and time, its ID is a UUID, and it is neither older than the maximal
  age nor more than five minutes ahead of the clock.
\<close>

theorem installation_token_sound:
  assumes "verify_installation lib t now token = Inr c"
  shows "(\<exists>secret \<in> insert (active_secret t) (set_option (previous_secret t)). installation_signed secret token c)
    \<and> uuid_parse lib (installation_id c) \<noteq> None
    \<and> now - max_age t \<le> issued_at c \<and> issued_at c \<le> now + 5 * minute"
  using assms by (rule verify_installation_sound)

theorem installation_token_sound_witness:
  "\<exists>c token. verify_installation plain_uuids sample_installations sample_now token = Inr c
     \<and> sample_now - hour \<le> issued_at c \<and> installation_signed (active_secret sample_installations) token c"
proof -
  obtain c token where i: "issue_installation sample_installations sample_now sample_installation = (c, token)"
    by (metis surj_pair)
  from installation_token_sound [OF sample_installation_token [OF i]] sample_installation_token [OF i]
  show ?thesis by (auto simp: sample_installations_def)
qed

text \<open>
  An installation token is accepted until it reaches the maximal age, also by a service whose
  previous secret is the one that issued it; the claims are the issued ones.
\<close>

theorem installation_token_accepted:
  assumes "issue_installation t now i = (c, token)"
    and "CHR ''.'' \<notin> set i" "uuid_parse lib i \<noteq> None" "representable now"
    and "active_secret t' = active_secret t \<or> previous_secret t' = Some (active_secret t)"
    and "later - max_age t' \<le> issued_at c" "issued_at c \<le> later + 5 * minute"
  shows "verify_installation lib t' later token = Inr c"
  using assms by (rule installation_round_trip)

theorem installation_token_accepted_witness:
  "\<exists>c token. issue_installation sample_installations sample_now sample_installation = (c, token)
     \<and> verify_installation plain_uuids (sample_installations\<lparr>active_secret := replicate 32 (CHR ''n''),
          previous_secret := Some (active_secret sample_installations)\<rparr>) (sample_now + minute) token = Inr c"
proof -
  obtain c token where i: "issue_installation sample_installations sample_now sample_installation = (c, token)"
    by (metis surj_pair)
  have "CHR ''.'' \<notin> set sample_installation" "uuid_parse plain_uuids sample_installation \<noteq> None" by code_simp+
  note d = this
  from issue_installation_claims [OF i]
  have c: "issued_at c = sample_now" by (simp add: sample_now_exact(2))
  have "verify_installation plain_uuids (sample_installations\<lparr>active_secret := replicate 32 (CHR ''n''),
          previous_secret := Some (active_secret sample_installations)\<rparr>) (sample_now + minute) token = Inr c"
    using d by (rule installation_token_accepted [OF i _ _ sample_now_exact(1)])
      (simp_all add: c, simp_all add: sample_installations_def duration_defs)
  with i show ?thesis by blast
qed

text \<open>
  C34. A product token that VerifyProduct accepts was signed with the key that its key ID names, for
  exactly its claims; the product is registered, the subject key is opaque, person and
  organisation keys are opaque when present, and it is not expired nor issued in the future.
\<close>

theorem product_token_sound:
  assumes "verify_product t now token = Inr c"
  shows "(\<exists>k. find_product_key t (key_id k) = Some k \<and> product_signed k token c) \<and> claims_ok c
    \<and> pc_issued_at c \<le> now + 5 * minute \<and> now < pc_expires_at c \<and> pc_issued_at c < pc_expires_at c"
  using assms by (rule verify_product_sound)

theorem product_token_sound_witness:
  "\<exists>c token. verify_product sample_products sample_now token = Inr c \<and> claims_ok c
     \<and> pc_product c = ''linka-site'' \<and> sample_now < pc_expires_at c"
proof -
  have "lookup_product ''linka-site'' \<noteq> None" by code_simp
  then obtain c token where i: "issue_anonymous sample_products sample_now ''linka-site'' sample_installation = Inr (c, token)"
    using issue_anonymous_total by blast
  from product_token_sound [OF sample_product_token [OF i]] sample_product_token [OF i] issue_anonymous_Inr [OF i]
  show ?thesis by auto
qed

text \<open>
  A product token that lives at least a second is accepted until the second in which it
  expires, by every service that knows the signing key; the claims are the issued ones, with the
  expiry cut to the second.
\<close>

theorem product_token_accepted:
  assumes "issue_scope t now claims = Inr (c, token)"
    and "find_product_key t' (key_id (pt_active t)) = Some (pt_active t)" "key_ok (pt_active t)"
    and "representable now" "representable (truncate_to now second + pt_ttl t)" "second \<le> pt_ttl t"
    and "pc_issued_at c \<le> later + 5 * minute" "later < truncate_to (pc_expires_at c) second"
  shows "verify_product t' later token = Inr (c\<lparr>pc_expires_at := truncate_to (pc_expires_at c) second\<rparr>)"
  using assms by (rule product_round_trip)

theorem product_token_accepted_witness:
  "\<exists>claims c token. issue_scope sample_products sample_now claims = Inr (c, token)
     \<and> pc_product c = ''linka-site''
     \<and> verify_product sample_products sample_now token = Inr (c\<lparr>pc_expires_at := sample_now + hour\<rparr>)"
proof -
  have "lookup_product ''linka-site'' \<noteq> None" by code_simp
  then obtain c token where a: "issue_anonymous sample_products sample_now ''linka-site'' sample_installation = Inr (c, token)"
    using issue_anonymous_total by blast
  then obtain claims where i: "issue_scope sample_products sample_now claims = Inr (c, token)"
    unfolding issue_anonymous_def reject_Inr by blast
  have e: "pc_issued_at c = sample_now" "pc_expires_at c = sample_now + hour" "pc_product c = ''linka-site''"
    using issue_anonymous_Inr [OF a] by (simp_all add: sample_now_exact sample_products_def)
  have t: "truncate_to (sample_now + hour) second = sample_now + hour" "representable (sample_now + hour)"
    "find_product_key sample_products (key_id (pt_active sample_products)) = Some (pt_active sample_products)"
    "key_ok (pt_active sample_products)" "pt_ttl sample_products = hour" by code_simp+
  have "second \<le> hour" "sample_now < sample_now + hour" "sample_now \<le> sample_now + 5 * minute"
    by (simp_all add: duration_defs)
  with product_token_accepted [OF i t(3,4) sample_now_exact(1), of sample_now] e t(1,2,5)
  have "verify_product sample_products sample_now token = Inr (c\<lparr>pc_expires_at := sample_now + hour\<rparr>)"
    by (simp add: sample_now_exact(2))
  with i e(3) show ?thesis by blast
qed

text \<open>
  C35. No text is signed for two purposes: the texts under the MACs of V1 writer requests, service
  requests, installation tokens, product tokens and subject keys are pairwise disjoint, so that
  one shared secret (to which HMACKeyring falls back) does not let one kind stand for another.
\<close>

theorem mac_purposes_separate:
  "disjoint_family_on (\<lambda>i. [writer_texts, service_texts, installation_texts, product_texts, subject_texts] ! i) {..<5}"
proof -
  have "{..<5::nat} = {0, 1, 2, 3, 4}" by auto
  then show ?thesis
    using mac_texts_separate by (auto simp: disjoint_family_on_def Int_commute)
qed

text \<open>
  A subject key identifies one installation in one product: the text under its MAC determines
  both, for the registered products.
\<close>

theorem subject_keys_separate:
  assumes "subject_text p i = subject_text q j" and "lookup_product p \<noteq> None" and "lookup_product q \<noteq> None"
  shows "p = q \<and> i = j"
  using assms(1) lookup_no_newline assms(2,3) by (intro subject_text_inj) auto

theorem subject_keys_separate_witness:
  "subject_text ''linka-site'' ''a'' \<noteq> subject_text ''linka-looks'' ''a''"
proof
  assume "subject_text ''linka-site'' ''a'' = subject_text ''linka-looks'' ''a''"
  moreover have "lookup_product ''linka-site'' \<noteq> None" "lookup_product ''linka-looks'' \<noteq> None" by code_simp+
  ultimately have "''linka-site'' = ''linka-looks''" using subject_keys_separate by blast
  then show False by simp
qed

text \<open>
  C36. An Identity JWT that Verify accepts has three parts within 8 KiB, names an EdDSA key that the
  key source yields, and that key's signature of exactly the first two parts; its claims, decoded
  from the signed payload, have the configured issuer, the audience of their product, opaque keys,
  the required scope, a canonical token ID, and a lifetime within the limit that includes now.
\<close>

theorem identity_token_sound:
  assumes "verify_identity ed lib keys v now encoded required s = (Inr c, s')"
  shows "\<exists>a b sg_part sg kid pk. encoded = join ''.'' [a, b, sg_part] \<and> length encoded \<le> 8192
    \<and> jwt_key_id a = Some kid \<and> find_public_key keys kid s = (Inr (Some pk), s')
    \<and> b64_decode sg_part = Some sg \<and> ed pk (a @ ''.'' @ b) sg
    \<and> Option.bind (b64_decode b) (\<lambda>p. decode_jwt_part identity_claims_fields p zero_identity_claims) = Some c
    \<and> identity_claims_ok lib v now required c"
  using assms by (rule verify_identity_sound)

theorem identity_token_sound_witness:
  "verify_identity (\<lambda>_ _ _. True) plain_uuids http_keys sample_identity sample_now sample_jwt ''metrics'' sample_cache
     = (Inr sample_claims, sample_cache\<lparr>network := []\<rparr>)
   \<and> identity_claims_ok plain_uuids sample_identity sample_now ''metrics'' sample_claims"
  using identity_token_sound [OF sample_jwt_accepted] sample_jwt_accepted by blast

text \<open>
  C38. ed25519.Verify panics on a key that does not have 32 bytes, and Verify calls it with what the
  HTTP key source returns; whatever the network answers, that never happens, and the cache keeps
  only keys of 32 bytes.
\<close>

theorem identity_never_panics:
  assumes "cache_ok s"
  shows "fst (verify_identity ed lib http_keys v now encoded required s) \<noteq> Inl ed25519_panic
    \<and> cache_ok (snd (verify_identity ed lib http_keys v now encoded required s))"
  using assms by (rule http_jwks.verify_no_panic)

theorem identity_never_panics_witness:
  "fst (verify_identity (\<lambda>_ _ _. True) plain_uuids http_keys sample_identity sample_now ''a.b.c'' ''x'' sample_cache)
     \<noteq> Inl ed25519_panic"
proof -
  have "cache_ok sample_cache" by (simp add: cache_ok_def sample_cache_def)
  then show ?thesis using identity_never_panics by blast
qed

text \<open>
  C39. Keys served without an error are those just fetched and parsed, or, when no refresh is
  forced, the cached ones, fetched less than an hour before the call; a failed call leaves
  the cache as it was. (The request takes at most the client's five seconds.)
\<close>

theorem jwks_staleness:
  assumes "before_fetch (next_fetch s) \<le> after_fetch (next_fetch s)"
    and "after_fetch (next_fetch s) \<le> before_fetch (next_fetch s) + 5 * second"
  shows "case http_keys force s of
      (Inr m, s') \<Rightarrow> cached s' = m
        \<and> (parse_jwks (fetched (next_fetch s)) = Inr m \<and> fetched_at s' = after_fetch (next_fetch s)
          \<or> \<not> force \<and> m = cached s \<and> fetched_at s' = fetched_at s \<and> age s < max_stale)
    | (Inl e, s') \<Rightarrow> cached s' = cached s \<and> fetched_at s' = fetched_at s"
proof (cases "http_keys force s")
  case (Pair r s')
  then show ?thesis
    using http_keys_served [OF _ assms, of force _ s'] http_keys_failure [of force s _ s'] by (cases r) auto
qed

theorem jwks_staleness_witness:
  "http_keys False sample_cache = (Inr [(''k'', replicate 32 (CHR ''p''))], sample_cache\<lparr>network := []\<rparr>)
     \<and> age sample_cache < max_stale"
proof -
  have n: "before_fetch (next_fetch sample_cache) \<le> after_fetch (next_fetch sample_cache)"
    "after_fetch (next_fetch sample_cache) \<le> before_fetch (next_fetch sample_cache) + 5 * second"
    "fetched_at sample_cache \<noteq> after_fetch (next_fetch sample_cache)" by code_simp+
  have "fetched_at (sample_cache\<lparr>network := []\<rparr>) = fetched_at sample_cache" by simp
  with jwks_staleness [OF n(1,2), of False] n(3) have "age sample_cache < max_stale"
    unfolding sample_http_keys prod.case sum.case by metis
  with sample_http_keys show ?thesis by blast
qed

end
