(* ===== verification/Go_Effects.thy ===== *)
theory Go_Effects
  imports Metric_Prelude Go_Time
begin

section \<open>Go code with effects: actions, database calls, clock\<close>

text \<open>
  A method that talks to a server is an action: a function from the state to a result and the next
  state. \<open>seq\<close> is \<open>x, err := m(); if err != nil { return err }\<close>, \<open>ignoring\<close> is \<open>_ = m()\<close>.
  \<open>conn\<close> is the state behind a database connection: the data, the clock that \<open>time.Now\<close> reads, and
  a schedule that says for each call in turn whether it is served or breaks; a call that
  breaks reports an error, and a write that breaks may have been applied to any number of rows
  first (\<open>Broken n\<close>). \<open>valid P m Q E\<close> is the triple of an action: from a state with P it either
  returns a value with Q or fails with E; its rules are in the collection \<open>triples\<close>.
\<close>

type_synonym ('s, 'a) action = "'s \<Rightarrow> 'a result \<times> 's"

definition ret :: "'a \<Rightarrow> ('s, 'a) action" where
  "ret x s = (Inr x, s)"

definition fail :: "go_error \<Rightarrow> ('s, 'a) action" where
  "fail e s = (Inl e, s)"

definition seq :: "('s, 'a) action \<Rightarrow> ('a \<Rightarrow> ('s, 'b) action) \<Rightarrow> ('s, 'b) action" where
  "seq m k s = (case m s of (Inl e, s') \<Rightarrow> (Inl e, s') | (Inr x, s') \<Rightarrow> k x s')"

definition wrapping :: "string \<Rightarrow> ('s, 'a) action \<Rightarrow> ('s, 'a) action" where
  "wrapping msg m s = (case m s of (r, s') \<Rightarrow> (wrap msg r, s'))"

definition fail_if :: "bool \<Rightarrow> go_error \<Rightarrow> ('s, unit) action" where
  "fail_if c e = (if c then fail e else ret ())"

definition lift :: "'a result \<Rightarrow> ('s, 'a) action" where
  "lift r s = (r, s)"

definition ignoring :: "('s, 'a) action \<Rightarrow> ('s, unit) action" where
  "ignoring m s = (Inr (), snd (m s))"

fun each :: "('a \<Rightarrow> ('s, unit) action) \<Rightarrow> 'a list \<Rightarrow> ('s, unit) action" where
  "each f [] = ret ()"
| "each f (x # xs) = seq (f x) (\<lambda>_. each f xs)"

subsection \<open>A database connection\<close>

datatype fault = Served | Broken nat

record 'd conn =
  db :: 'd
  calls :: nat
  faults :: "nat \<Rightarrow> fault"
  ticks :: nat
  clock :: "nat \<Rightarrow> time"

definition db_error :: go_error where "db_error = Err ''clickhouse''"

definition time_now :: "('d conn, time) action" where
  "time_now s = (Inr (clock s (ticks s)), s\<lparr>ticks := Suc (ticks s)\<rparr>)"

definition query :: "('d \<Rightarrow> 'a) \<Rightarrow> ('d conn, 'a) action" where
  "query q s =
     (case faults s (calls s) of
        Served \<Rightarrow> (Inr (q (db s)), s\<lparr>calls := Suc (calls s)\<rparr>)
      | Broken _ \<Rightarrow> (Inl db_error, s\<lparr>calls := Suc (calls s)\<rparr>))"

definition exec :: "(nat option \<Rightarrow> 'd \<Rightarrow> 'd) \<Rightarrow> ('d conn, unit) action" where
  "exec w s =
     (case faults s (calls s) of
        Served \<Rightarrow> (Inr (), s\<lparr>calls := Suc (calls s), db := w None (db s)\<rparr>)
      | Broken n \<Rightarrow> (Inl db_error, s\<lparr>calls := Suc (calls s), db := w (Some n) (db s)\<rparr>))"

text \<open>What a write leaves in a table when it is served, or breaks after n rows.\<close>

definition insert_rows :: "'r list \<Rightarrow> nat option \<Rightarrow> 'r list \<Rightarrow> 'r list" where
  "insert_rows rows part t = t @ (case part of None \<Rightarrow> rows | Some n \<Rightarrow> take n rows)"

definition delete_rows :: "('r \<Rightarrow> bool) \<Rightarrow> nat option \<Rightarrow> 'r list \<Rightarrow> 'r list" where
  "delete_rows c part t =
     (case part of
        None \<Rightarrow> filter (\<lambda>r. \<not> c r) t
      | Some n \<Rightarrow> filter (\<lambda>r. \<not> c r) (take n t) @ drop n t)"

subsection \<open>Triples\<close>

definition valid ::
  "('s \<Rightarrow> bool) \<Rightarrow> ('s, 'a) action \<Rightarrow> ('a \<Rightarrow> 's \<Rightarrow> bool) \<Rightarrow> (go_error \<Rightarrow> 's \<Rightarrow> bool) \<Rightarrow> bool" where
  "valid P m Q E \<longleftrightarrow>
     (\<forall>s. P s \<longrightarrow> (case m s of (Inr x, s') \<Rightarrow> Q x s' | (Inl e, s') \<Rightarrow> E e s'))"

named_theorems triples

lemma validI: "(\<And>s. P s \<Longrightarrow> case m s of (Inr x, s') \<Rightarrow> Q x s' | (Inl e, s') \<Rightarrow> E e s') \<Longrightarrow> valid P m Q E"
  by (simp add: valid_def)

lemma validD: "valid P m Q E \<Longrightarrow> P s \<Longrightarrow> m s = (Inr x, s') \<Longrightarrow> Q x s'"
  by (auto simp: valid_def)

lemma validE: "valid P m Q E \<Longrightarrow> P s \<Longrightarrow> m s = (Inl e, s') \<Longrightarrow> E e s'"
  by (auto simp: valid_def)

lemma valid_conseq:
  "valid P m Q E \<Longrightarrow> (\<And>s. P' s \<Longrightarrow> P s) \<Longrightarrow> (\<And>x s. Q x s \<Longrightarrow> Q' x s) \<Longrightarrow> (\<And>e s. E e s \<Longrightarrow> E' e s)
    \<Longrightarrow> valid P' m Q' E'"
  by (fastforce simp: valid_def split: prod.splits sum.splits)

lemma valid_pre: "valid P m Q E \<Longrightarrow> (\<And>s. P' s \<Longrightarrow> P s) \<Longrightarrow> valid P' m Q E"
  by (simp add: valid_def)

lemma valid_post:
  "valid P m Q E \<Longrightarrow> (\<And>x s. Q x s \<Longrightarrow> Q' x s) \<Longrightarrow> (\<And>e s. E e s \<Longrightarrow> E' e s) \<Longrightarrow> valid P m Q' E'"
  by (erule valid_conseq) auto

lemma valid_ret [triples]: "valid (Q x) (ret x) Q E"
  by (simp add: valid_def ret_def)

lemma valid_fail [triples]: "valid (E e) (fail e) Q E"
  by (simp add: valid_def fail_def)

lemma valid_seq [triples]:
  "(\<And>x. valid (R x) (k x) Q E) \<Longrightarrow> valid P m R E \<Longrightarrow> valid P (seq m k) Q E"
  unfolding valid_def seq_def by (fastforce split: prod.splits sum.splits)

lemma valid_wrapping [triples]:
  "valid P m Q (\<lambda>e. E (Wrapped msg e)) \<Longrightarrow> valid P (wrapping msg m) Q E"
  by (fastforce simp: valid_def wrapping_def wrap_def split: prod.splits sum.splits)

lemma valid_fail_if [triples]: "valid (\<lambda>s. if c then E e s else Q () s) (fail_if c e) Q E"
  by (simp add: fail_if_def valid_def ret_def fail_def)

lemma valid_lift [triples]: "valid (\<lambda>s. case r of Inl e \<Rightarrow> E e s | Inr x \<Rightarrow> Q x s) (lift r) Q E"
  by (simp add: lift_def valid_def split: sum.splits)

lemma valid_ignoring [triples]: "valid P m (\<lambda>_. Q ()) (\<lambda>_. Q ()) \<Longrightarrow> valid P (ignoring m) Q E"
proof (rule validI)
  fix s
  assume v: "valid P m (\<lambda>_. Q ()) (\<lambda>_. Q ())" and P: "P s"
  obtain r t where m: "m s = (r, t)" by (cases "m s")
  then have "Q () t" using validD [OF v P] validE [OF v P] by (cases r) auto
  with m show "case ignoring m s of (Inr x, s') \<Rightarrow> Q x s' | (Inl e, s') \<Rightarrow> E e s'"
    by (simp add: ignoring_def)
qed

lemma valid_time_now [triples]:
  "valid (\<lambda>s. Q (clock s (ticks s)) (s\<lparr>ticks := Suc (ticks s)\<rparr>)) time_now Q E"
  by (simp add: valid_def time_now_def)

lemma valid_query [triples]:
  "valid (\<lambda>s. Q (q (db s)) (s\<lparr>calls := Suc (calls s)\<rparr>) \<and> E db_error (s\<lparr>calls := Suc (calls s)\<rparr>))
     (query q) Q E"
  by (simp add: valid_def query_def split: fault.splits)

lemma valid_exec [triples]:
  "valid (\<lambda>s. Q () (s\<lparr>calls := Suc (calls s), db := w None (db s)\<rparr>)
       \<and> (\<forall>n. E db_error (s\<lparr>calls := Suc (calls s), db := w (Some n) (db s)\<rparr>)))
     (exec w) Q E"
  by (simp add: valid_def exec_def split: fault.splits)

lemma valid_if [triples]:
  "(c \<Longrightarrow> valid P m Q E) \<Longrightarrow> (\<not> c \<Longrightarrow> valid P' m' Q E) \<Longrightarrow>
     valid (\<lambda>s. if c then P s else P' s) (if c then m else m') Q E"
  by simp

lemma valid_each:
  "(\<And>x. x \<in> set xs \<Longrightarrow> valid P (f x) (\<lambda>_. P) E) \<Longrightarrow> valid P (each f xs) (\<lambda>_. P) E"
  by (induction xs) (auto intro!: valid_seq valid_conseq [OF valid_ret])

text \<open>What every action keeps, whether it returns or fails.\<close>

definition keeps :: "('s \<Rightarrow> bool) \<Rightarrow> ('s, 'a) action \<Rightarrow> bool" where
  "keeps P m \<longleftrightarrow> valid P m (\<lambda>_. P) (\<lambda>_. P)"

lemma keepsD: "keeps P m \<Longrightarrow> P s \<Longrightarrow> P (snd (m s))"
  by (cases "m s"; cases "fst (m s)") (fastforce simp: keeps_def valid_def)+

lemma keepsI: "(\<And>s. P s \<Longrightarrow> P (snd (m s))) \<Longrightarrow> keeps P m"
  by (fastforce simp: keeps_def valid_def split: prod.splits sum.splits)

lemma keeps_seq [triples]: "keeps P m \<Longrightarrow> (\<And>x. keeps P (k x)) \<Longrightarrow> keeps P (seq m k)"
  unfolding keeps_def by (rule valid_seq)

lemma keeps_simps [triples]:
  "keeps P (ret x)" "keeps P (fail e)" "keeps P (fail_if c e)" "keeps P (lift r)"
  by (auto simp: keeps_def valid_def ret_def fail_def fail_if_def lift_def split: sum.splits)

lemma keeps_wrapping [triples]: "keeps P m \<Longrightarrow> keeps P (wrapping msg m)"
  by (fastforce simp: keeps_def valid_def wrapping_def wrap_def split: prod.splits sum.splits)

lemma keeps_ignoring [triples]: "keeps P m \<Longrightarrow> keeps P (ignoring m)"
  by (auto simp: ignoring_def intro!: keepsI dest: keepsD)

lemma keeps_time_now [triples]: "keeps (\<lambda>s. P (db s)) time_now"
  by (simp add: keeps_def valid_def time_now_def)

lemma keeps_query [triples]: "keeps (\<lambda>s. P (db s)) (query q)"
  by (simp add: keeps_def valid_def query_def split: fault.splits)

lemma keeps_exec [triples]: "(\<And>part d. P d \<Longrightarrow> P (w part d)) \<Longrightarrow> keeps (\<lambda>s. P (db s)) (exec w)"
  by (simp add: keeps_def valid_def exec_def split: fault.splits)

lemma keeps_each [triples]: "(\<And>x. x \<in> set xs \<Longrightarrow> keeps P (f x)) \<Longrightarrow> keeps P (each f xs)"
  unfolding keeps_def by (rule valid_each)

subsection \<open>When an action returned a value\<close>

lemma seq_Inr [result_simps]:
  "seq m k s = (Inr y, s') \<longleftrightarrow> (\<exists>x t. m s = (Inr x, t) \<and> k x t = (Inr y, s'))"
  by (auto simp: seq_def split: prod.splits sum.splits)

lemma action_simps [simp]:
  "seq (ret x) k = k x" "seq (fail e) k = fail e" "ret x s = (Inr x, s)" "fail e s = (Inl e, s)"
  "fail_if True e = fail e" "fail_if False e = ret ()"
  "lift (Inr x) = ret x" "lift (Inl e) = fail e"
  by (auto simp: seq_def ret_def fail_def fail_if_def lift_def)

lemma wrapping_Inr [result_simps]: "wrapping msg m s = (Inr x, s') \<longleftrightarrow> m s = (Inr x, s')"
  by (auto simp: wrapping_def wrap_def split: prod.splits sum.splits)

lemma fail_if_Inr [result_simps]: "fail_if c e s = (Inr u, s') \<longleftrightarrow> \<not> c \<and> s' = s"
  by (auto simp: fail_if_def)

lemma lift_Inr [result_simps]: "lift r s = (Inr x, s') \<longleftrightarrow> r = Inr x \<and> s' = s"
  by (auto simp: lift_def)

subsection \<open>Rows of a write that may have broken\<close>

lemma insert_rows_set: "set (insert_rows rows part t) \<subseteq> set t \<union> set rows"
  by (auto simp: insert_rows_def dest: in_set_takeD split: option.splits)

lemma insert_rows_keeps: "set t \<subseteq> set (insert_rows rows part t)"
  by (auto simp: insert_rows_def)

lemma insert_rows_None [simp]: "insert_rows rows None t = t @ rows"
  by (simp add: insert_rows_def)

lemma delete_rows_set: "set (delete_rows c part t) \<subseteq> set t"
  by (auto simp: delete_rows_def dest: in_set_takeD in_set_dropD split: option.splits)

lemma delete_rows_keeps: "r \<in> set t \<Longrightarrow> \<not> c r \<Longrightarrow> r \<in> set (delete_rows c part t)"
proof (cases part)
  case (Some n)
  assume "r \<in> set t" "\<not> c r"
  moreover have "set t = set (take n t) \<union> set (drop n t)" by (metis append_take_drop_id set_append)
  ultimately show ?thesis using Some by (auto simp: delete_rows_def)
qed (simp add: delete_rows_def)

lemma delete_rows_None [simp]: "delete_rows c None t = filter (\<lambda>r. \<not> c r) t"
  by (simp add: delete_rows_def)

subsection \<open>Tables that keep the newest version of a key\<close>

text \<open>
  SELECT ... FINAL on a ReplacingMergeTree: for each key the row of the highest version, the last
  inserted of them when versions tie.
\<close>

definition newest :: "('r \<Rightarrow> 'k) \<Rightarrow> ('r \<Rightarrow> time) \<Rightarrow> 'r list \<Rightarrow> 'k \<Rightarrow> 'r option" where
  "newest key ver rows k =
     fold (\<lambda>r best. if key r = k \<and> (case best of None \<Rightarrow> True | Some b \<Rightarrow> ver b \<le> ver r) then Some r else best)
       rows None"

definition final_rows :: "('r \<Rightarrow> 'k) \<Rightarrow> ('r \<Rightarrow> time) \<Rightarrow> 'r list \<Rightarrow> 'r list" where
  "final_rows key ver rows = List.map_filter (newest key ver rows) (remdups (map key rows))"

lemma newest_append:
  "newest key ver (rows @ [r]) k =
     (if key r = k \<and> (case newest key ver rows k of None \<Rightarrow> True | Some b \<Rightarrow> ver b \<le> ver r)
      then Some r else newest key ver rows k)"
  by (simp add: newest_def)

lemma newest_Nil [simp]: "newest key ver [] k = None"
  by (simp add: newest_def)

lemma newest_None: "newest key ver rows k = None \<longleftrightarrow> k \<notin> key ` set rows"
  by (induction rows rule: rev_induct) (auto simp: newest_append split: option.splits)

lemma newest_Some:
  "newest key ver rows k = Some r \<Longrightarrow> r \<in> set rows \<and> key r = k \<and> (\<forall>x \<in> set rows. key x = k \<longrightarrow> ver x \<le> ver r)"
proof (induction rows arbitrary: r rule: rev_induct)
  case (snoc x rows)
  then show ?case
    by (fastforce simp: newest_append newest_None image_iff split: if_splits option.splits)
qed simp

lemma newest_append_other:
  "k \<notin> key ` set new \<Longrightarrow> newest key ver (rows @ new) k = newest key ver rows k"
  by (induction new rule: rev_induct) (auto simp: newest_append simp flip: append_assoc)

lemma newest_only:
  assumes "r \<in> set rows" "key r = k" "\<And>x. x \<in> set rows \<Longrightarrow> key x = k \<Longrightarrow> x = r"
  shows "newest key ver rows k = Some r"
proof (cases "newest key ver rows k")
  case None
  with assms(1,2) show ?thesis by (auto simp: newest_None)
next
  case (Some x)
  with newest_Some [OF Some] assms(3) show ?thesis by simp
qed

lemma map_filter_iff: "y \<in> set (List.map_filter f xs) \<longleftrightarrow> (\<exists>x \<in> set xs. f x = Some y)"
  by (force simp: List.map_filter_def)

lemma final_rows_iff: "r \<in> set (final_rows key ver rows) \<longleftrightarrow> newest key ver rows (key r) = Some r"
proof -
  have "newest key ver rows k = Some r \<Longrightarrow> k = key r \<and> k \<in> set (remdups (map key rows))" for k
    using newest_Some [of key ver rows k r] by auto
  then show ?thesis unfolding final_rows_def map_filter_iff by blast
qed

lemma final_rows_subset: "set (final_rows key ver rows) \<subseteq> set rows"
  by (auto simp: final_rows_iff dest: newest_Some)

end
