(* ===== verification/ClickHouse_Tables.thy ===== *)
theory ClickHouse_Tables
  imports Go_Effects Contract_V2 Contract_Fundraising Contract_V1
begin

section \<open>internal/clickhouse: tables, rows and configuration\<close>

text \<open>
  The tables that the store reads and writes (their columns are those of the INSERT statements,
  their keys and version columns those of the migrations) and the helpers of the four files. The
  five columns of a scope come first in every V2 table, so that the condition by which a privacy
  request selects rows (\<open>scope_match\<close>) is one definition for all of them.

  The driver (clickhouse-go v2.30.0) is not part of the repository. \<open>exec_time\<close> is what a time bound
  to a placeholder of Exec becomes in a DateTime64(3) column, \<open>column_time\<close> what a time appended to a
  prepared batch becomes. The driver writes a bound time as toDateTime with whole seconds and keeps
  the milliseconds of an appended one (\<open>second_driver\<close>). Most theorems ask for less: that binding keeps
  the order of times and leaves alone a time that it produced (\<open>ordered_driver\<close>), which holds of any
  precision and of the limits of DateTime.
\<close>

record scope_columns =
  col_product :: string
  col_product_key :: "string option"
  col_subject_key :: "string option"
  col_person_key :: "string option"
  col_org_key :: "string option"

record 'u ledger_row = scope_columns +
  lr_batch_id :: 'u
  lr_idempotency_key :: 'u
  lr_stream :: string
  lr_body_sha :: string
  lr_record_count :: "16 word"
  lr_sent_at :: time
  lr_ingested_at :: time
  lr_expires_at :: "time option"
  lr_status :: string

record 'u registry_row = scope_columns +
  rr_record_id :: 'u
  rr_batch_id :: 'u
  rr_stream :: string
  rr_body_sha :: string
  rr_registered_at :: time

record 'u event_row = scope_columns +
  er_batch_id :: 'u
  er_record_id :: 'u
  er_occurred_at :: time
  er_kind :: string
  er_app_session_id :: 'u
  er_app :: app_metadata
  er_ingested_at :: time
  er_expires_at :: "time option"

record 'u common_row = "'u event_row" +
  cr_page :: "string option"
  cr_mode :: "string option"

record 'u technical_row = "'u event_row" +
  tr_component :: string
  tr_state :: "string option"
  tr_error_fingerprint :: "string option"
  tr_dropped_count :: "64 word option"
  tr_drop_reason :: "string option"

record 'u plays_row = "'u event_row" +
  pr_game_session_id :: 'u
  pr_game_id :: string
  pr_game_category :: string
  pr_input_method :: string
  pr_level_index :: "32 word option"
  pr_outcome :: "string option"
  pr_duration_ms :: "64 word option"
  pr_success_count :: "32 word option"
  pr_mistake_count :: "32 word option"
  pr_hint_count :: "32 word option"
  pr_valid_gaze_ratio :: "float64 option"

record 'u outcome_row = "'u event_row" +
  or_result :: "string option"
  or_source :: "string option"
  or_mode :: "string option"
  or_count_bucket :: "string option"
  or_duration_bucket :: "string option"
  or_failure_code :: "string option"

record 'u suppression_row = scope_columns +
  sr_request_id :: 'u
  sr_action :: string
  sr_status :: string
  sr_body_sha :: string
  sr_requested_at :: time
  sr_ingested_at :: time
  sr_updated_at :: time
  sr_active :: bool
  sr_failure_code :: "string option"
  sr_expires_at :: "time option"
  sr_attempts :: "16 word"
  sr_available_at :: time
  sr_lease_until :: "time option"
  sr_legacy_installation :: "'u option"

record 'u progress_row =
  gr_request_id :: 'u
  gr_product :: string
  gr_table :: string
  gr_status :: string
  gr_attempts :: "16 word"
  gr_available_at :: time
  gr_lease_until :: "time option"
  gr_last_error :: "string option"
  gr_updated_at :: time
  gr_completed_at :: "time option"

text \<open>The V1 rows keep the validated record; the columns are its fields, the dimensions and the UUIDs.\<close>

record 'u v1_event_row =
  v1e_event_id :: 'u
  v1e_installation :: 'u
  v1e_app_session :: 'u
  v1e_game_session :: "'u option"
  v1e_name :: string
  v1e_occurred_at :: time
  v1e_app :: app_v1
  v1e_dimensions :: dimensions
  v1e_ingested_at :: time

record 'u v1_summary_row =
  v1s_session_id :: 'u
  v1s_installation :: 'u
  v1s_app_session :: 'u
  v1s_game_session :: "'u option"
  v1s_started_at :: time
  v1s_ended_at :: time
  v1s_numbers :: session_summary
  v1s_menu_mode :: "string option"
  v1s_game_category :: "string option"
  v1s_input_method :: "string option"
  v1s_finish_reason :: "string option"
  v1s_result :: "string option"
  v1s_interruption_reason :: "string option"
  v1s_ingested_at :: time

record 'u fr_ledger_row =
  fl_batch_id :: 'u
  fl_body_sha :: string
  fl_record_count :: "16 word"
  fl_sent_at :: time
  fl_ingested_at :: time
  fl_status :: string

record 'u fr_event_row =
  fe_batch_id :: 'u
  fe_event_id :: 'u
  fe_occurred_at :: time
  fe_kind :: string
  fe_amount :: "string option"
  fe_currency :: "string option"
  fe_frequency :: string
  fe_attribution_source :: string
  fe_attribution_campaign :: "string option"
  fe_failure_code :: "string option"
  fe_ingested_at :: time

record 'u tables =
  ingest_batches :: "'u ledger_row list"
  record_registry :: "'u registry_row list"
  common_events :: "'u common_row list"
  technical_events :: "'u technical_row list"
  plays_events :: "'u plays_row list"
  product_events :: "'u event_row list"
  product_outcomes :: "'u outcome_row list"
  suppressions :: "'u suppression_row list"
  deletion_progress :: "'u progress_row list"
  v1_events :: "'u v1_event_row list"
  v1_summaries :: "'u v1_summary_row list"
  fundraising_ledger :: "'u fr_ledger_row list"
  fundraising_events :: "'u fr_event_row list"

type_synonym ('u, 'a) store_action = "('u tables conn, 'a) action"

record retention =
  keep_batches :: duration
  keep_common :: duration
  keep_technical :: duration
  keep_plays :: duration
  keep_product :: duration
  keep_outcome :: duration
  keep_privacy :: duration

record 'u store_config =
  uuids :: "'u uuid_lib"
  retentions :: retention
  exec_time :: "time \<Rightarrow> time"
  column_time :: "time \<Rightarrow> time"

definition second_driver :: "'u store_config \<Rightarrow> bool" where
  "second_driver cfg \<longleftrightarrow>
     (\<forall>t. exec_time cfg t = truncate_to t second \<and> column_time cfg t = truncate_to t millisecond)"

definition ordered_driver :: "'u store_config \<Rightarrow> bool" where
  "ordered_driver cfg \<longleftrightarrow> mono (exec_time cfg) \<and> (\<forall>t. exec_time cfg (exec_time cfg t) = exec_time cfg t)"

lemma ordered_driverD:
  assumes "ordered_driver cfg"
  shows "t \<le> t' \<Longrightarrow> exec_time cfg t \<le> exec_time cfg t'" "exec_time cfg (exec_time cfg t) = exec_time cfg t"
  using assms by (auto simp: ordered_driver_def dest: monoD)

lemma truncate_to_mono: "0 < u \<Longrightarrow> t \<le> t' \<Longrightarrow> truncate_to t u \<le> truncate_to t' u"
  using zdiv_mono1 [of t t' u] by (simp add: truncate_to_def minus_mod_eq_mult_div)

lemma second_driver_ordered: "second_driver cfg \<Longrightarrow> ordered_driver cfg"
  by (auto simp: second_driver_def ordered_driver_def truncate_to_idem duration_defs intro!: monoI truncate_to_mono)

subsection \<open>Helpers\<close>

definition uuid_panic :: go_error where
  "uuid_panic = Err ''panic: uuid: Parse''"

definition must_parse :: "'u store_config \<Rightarrow> string \<Rightarrow> 'u result" where
  "must_parse cfg s = from_option uuid_panic (uuid_parse (uuids cfg) s)"

definition nullable_uuid :: "'u store_config \<Rightarrow> string option \<Rightarrow> 'u option result" where
  "nullable_uuid cfg v =
     (case v of None \<Rightarrow> Inr None | Some s \<Rightarrow> andthen (must_parse cfg s) (\<lambda>u. Inr (Some u)))"

definition nullable_string :: "string \<Rightarrow> string option" where
  "nullable_string v = (if v = [] then None else Some v)"

definition string_value :: "string option \<Rightarrow> string" where
  "string_value v = (case v of None \<Rightarrow> [] | Some s \<Rightarrow> s)"

definition expires_at :: "time \<Rightarrow> duration \<Rightarrow> time option" where
  "expires_at from_time keep = (if keep \<le> 0 then None else Some (from_time + keep))"

text \<open>The WHERE clause of a scope: of isSuppressed on requests, of the deletions on telemetry.\<close>

definition scope_match ::
  "string \<Rightarrow> string \<Rightarrow> string \<Rightarrow> string option \<Rightarrow> string option \<Rightarrow> 'z scope_columns_scheme \<Rightarrow> bool" where
  "scope_match p pkey subject person org r \<longleftrightarrow>
     col_product r = p \<and> col_product_key r = Some pkey
     \<and> (col_subject_key r = Some subject
        \<or> string_value person \<noteq> [] \<and> string_value (col_person_key r) = string_value person
        \<or> string_value org \<noteq> [] \<and> string_value (col_org_key r) = string_value org)"

text \<open>PrepareBatch is a call of its own, then the rows are appended and sent in one block.\<close>

definition prepare_and_send ::
  "string \<Rightarrow> string \<Rightarrow> 'r list result \<Rightarrow> (('r list \<Rightarrow> 'r list) \<Rightarrow> 'd \<Rightarrow> 'd) \<Rightarrow> ('d conn, unit) action" where
  "prepare_and_send prepare_msg send_msg rows upd =
     seq (wrapping prepare_msg (query (\<lambda>_. ()))) (\<lambda>_.
     seq (lift rows) (\<lambda>rs.
       wrapping send_msg (exec (\<lambda>part. upd (insert_rows rs part)))))"

lemma must_parse_Inr [result_simps]: "must_parse cfg s = Inr u \<longleftrightarrow> uuid_parse (uuids cfg) s = Some u"
  by (simp add: must_parse_def result_simps)

lemma canonical_must_parse: "canonical_uuid lib s \<Longrightarrow> uuids cfg = lib \<Longrightarrow> \<exists>u. must_parse cfg s = Inr u"
  by (auto simp: canonical_uuid_def must_parse_Inr)

lemma keeps_prepare_and_send [triples]:
  "(\<And>rs part d. rows = Inr rs \<Longrightarrow> P d \<Longrightarrow> P (upd (insert_rows rs part) d)) \<Longrightarrow>
     keeps (\<lambda>s. P (db s)) (prepare_and_send pm sm rows upd)"
  unfolding prepare_and_send_def by (cases rows) (auto intro!: triples)

subsection \<open>What a sequence of inserts appends\<close>

definition no_rows :: "'u tables" where
  "no_rows = \<lparr>ingest_batches = [], record_registry = [], common_events = [], technical_events = [],
     plays_events = [], product_events = [], product_outcomes = [], suppressions = [],
     deletion_progress = [], v1_events = [], v1_summaries = [], fundraising_ledger = [],
     fundraising_events = []\<rparr>"

definition appended :: "'u tables \<Rightarrow> 'u tables \<Rightarrow> 'u tables" where
  "appended d w = \<lparr>ingest_batches = ingest_batches d @ ingest_batches w,
     record_registry = record_registry d @ record_registry w,
     common_events = common_events d @ common_events w,
     technical_events = technical_events d @ technical_events w,
     plays_events = plays_events d @ plays_events w,
     product_events = product_events d @ product_events w,
     product_outcomes = product_outcomes d @ product_outcomes w,
     suppressions = suppressions d @ suppressions w,
     deletion_progress = deletion_progress d @ deletion_progress w,
     v1_events = v1_events d @ v1_events w, v1_summaries = v1_summaries d @ v1_summaries w,
     fundraising_ledger = fundraising_ledger d @ fundraising_ledger w,
     fundraising_events = fundraising_events d @ fundraising_events w\<rparr>"

lemma appended_simps [simp]: "appended d no_rows = d" "appended no_rows d = d"
  by (simp_all add: appended_def no_rows_def)

lemma appended_assoc: "appended (appended d v) w = appended d (appended v w)"
  by (simp add: appended_def)

text \<open>An action adds rows: what it may have added when it returned, and when it failed.\<close>

definition adds ::
  "'u tables \<Rightarrow> ('u, 'a) store_action \<Rightarrow> ('a \<Rightarrow> 'u tables \<Rightarrow> bool) \<Rightarrow> ('u tables \<Rightarrow> bool) \<Rightarrow> bool" where
  "adds d m Q E \<longleftrightarrow>
     valid (\<lambda>s. db s = d) m (\<lambda>x s. \<exists>w. db s = appended d w \<and> Q x w) (\<lambda>_ s. \<exists>w. db s = appended d w \<and> E w)"

lemma adds_seq:
  fixes d :: "'u tables"
  assumes "adds d m Q E" and "\<And>x w. Q x w \<Longrightarrow> adds (appended d w) (k x) (Q' x w) (E' x w)"
    and "\<And>x w y w'. Q x w \<Longrightarrow> Q' x w y w' \<Longrightarrow> R y (appended w w')"
    and "\<And>w. E w \<Longrightarrow> F w" and "\<And>x w w'. Q x w \<Longrightarrow> E' x w w' \<Longrightarrow> F (appended w w')"
  shows "adds d (seq m k) R F"
  unfolding adds_def
proof (rule validI)
  fix s :: "'u tables conn" assume s: "db s = d"
  obtain r t where m: "m s = (r, t)" by (cases "m s")
  show "case seq m k s of (Inr y, s') \<Rightarrow> \<exists>w. db s' = appended d w \<and> R y w
      | (Inl e, s') \<Rightarrow> \<exists>w. db s' = appended d w \<and> F w"
  proof (cases r)
    case (Inl e)
    with validE [OF assms(1) [unfolded adds_def]] s m assms(4) show ?thesis by (fastforce simp: seq_def)
  next
    case (Inr x)
    with validD [OF assms(1) [unfolded adds_def]] s m obtain w where w: "db t = appended d w" "Q x w" by blast
    note k = assms(2) [OF w(2), unfolded adds_def]
    obtain r' u where u: "k x t = (r', u)" by (cases "k x t")
    show ?thesis
    proof (cases r')
      case (Inl e)
      with validE [OF k w(1)] u obtain w' where "db u = appended (appended d w) w'" "E' x w w'" by blast
      with assms(5) [OF w(2)] Inl Inr m u show ?thesis by (auto simp: seq_def appended_assoc)
    next
      case (Inr y)
      with validD [OF k w(1)] u obtain w' where "db u = appended (appended d w) w'" "Q' x w y w'" by blast
      with assms(3) [OF w(2)] Inr \<open>r = Inr x\<close> m u show ?thesis by (auto simp: seq_def appended_assoc)
    qed
  qed
qed

lemma adds_post:
  "adds d m Q E \<Longrightarrow> (\<And>x w. Q x w \<Longrightarrow> Q' x w) \<Longrightarrow> (\<And>w. E w \<Longrightarrow> E' w) \<Longrightarrow> adds d m Q' E'"
  unfolding adds_def by (erule valid_post) blast+

lemma adds_nothing:
  "adds d (ret x) (\<lambda>y w. y = x \<and> w = no_rows) E" "adds d (fail e) Q (\<lambda>w. w = no_rows)"
  "adds d time_now (\<lambda>_ w. w = no_rows) (\<lambda>_. False)"
  "adds d (query q) (\<lambda>x w. x = q d \<and> w = no_rows) (\<lambda>w. w = no_rows)"
  "adds d (fail_if c e) (\<lambda>_ w. \<not> c \<and> w = no_rows) (\<lambda>w. c \<and> w = no_rows)"
  "adds d (lift r) (\<lambda>x w. r = Inr x \<and> w = no_rows) (\<lambda>w. w = no_rows)"
  by (auto simp: adds_def valid_def ret_def fail_def time_now_def query_def fail_if_def lift_def
      split: fault.splits sum.splits intro: exI [of _ no_rows])

lemma adds_wrapping: "adds d m Q E \<Longrightarrow> adds d (wrapping msg m) Q E"
  unfolding adds_def by (rule valid_wrapping) simp

lemma adds_exec:
  assumes "\<And>part. w part d = appended d (v part)"
  shows "adds d (exec w) (\<lambda>_ x. x = v None) (\<lambda>x. \<exists>n. x = v (Some n))"
  using assms by (auto simp: adds_def valid_def exec_def split: fault.splits)

lemma adds_prepare_and_send:
  assumes "\<And>rs. upd (\<lambda>t. t @ rs) d = appended d (tab rs)" and "tab [] = no_rows"
  shows "adds d (prepare_and_send pm sm rows upd) (\<lambda>_ w. \<exists>R. rows = Inr R \<and> w = tab R)
    (\<lambda>w. \<exists>R. (rows = Inr R \<or> R = []) \<and> (\<exists>n. w = tab (take n R)))"
proof -
  have ins: "upd (insert_rows R part) d = appended d (tab (case part of None \<Rightarrow> R | Some n \<Rightarrow> take n R))" for R part
    using assms(1) unfolding insert_rows_def by simp
  show ?thesis
    unfolding prepare_and_send_def
    by (auto simp: adds_def valid_def seq_def wrapping_def wrap_def query_def exec_def lift_def ins assms(2)
        split: fault.splits sum.splits prod.splits intro: exI [of _ no_rows])
      (metis (no_types) assms(2) appended_simps(1) take_Nil)+
qed

text \<open>A relation between the tables before and after: rows with P were appended, none removed.\<close>

definition grown :: "('u tables \<Rightarrow> bool) \<Rightarrow> 'u tables \<Rightarrow> 'u tables \<Rightarrow> bool" where
  "grown P d d' \<longleftrightarrow> (\<exists>w. d' = appended d w \<and> P w)"

lemma grown_refl: "P no_rows \<Longrightarrow> grown P d d"
  unfolding grown_def by (rule exI [of _ no_rows]) simp

lemma insert_rows_part:
  obtains xs where "insert_rows rs part = (\<lambda>t. t @ xs)" "set xs \<subseteq> set rs"
proof (cases part)
  case None
  with that [of rs] show thesis by (simp add: insert_rows_def fun_eq_iff)
next
  case (Some n)
  with that [of "take n rs"] set_take_subset [of n rs] show thesis by (simp add: insert_rows_def fun_eq_iff)
qed

lemma update_appended:
  "ingest_batches_update (insert_rows r1 part) (appended d w) = appended d (ingest_batches_update (insert_rows r1 part) w)"
  "record_registry_update (insert_rows r2 part) (appended d w) = appended d (record_registry_update (insert_rows r2 part) w)"
  "common_events_update (insert_rows r3 part) (appended d w) = appended d (common_events_update (insert_rows r3 part) w)"
  "technical_events_update (insert_rows r4 part) (appended d w) = appended d (technical_events_update (insert_rows r4 part) w)"
  "plays_events_update (insert_rows r5 part) (appended d w) = appended d (plays_events_update (insert_rows r5 part) w)"
  "product_events_update (insert_rows r6 part) (appended d w) = appended d (product_events_update (insert_rows r6 part) w)"
  "product_outcomes_update (insert_rows r7 part) (appended d w) = appended d (product_outcomes_update (insert_rows r7 part) w)"
  "suppressions_update (insert_rows r8 part) (appended d w) = appended d (suppressions_update (insert_rows r8 part) w)"
  "deletion_progress_update (insert_rows r9 part) (appended d w) = appended d (deletion_progress_update (insert_rows r9 part) w)"
  "v1_events_update (insert_rows r10 part) (appended d w) = appended d (v1_events_update (insert_rows r10 part) w)"
  "v1_summaries_update (insert_rows r11 part) (appended d w) = appended d (v1_summaries_update (insert_rows r11 part) w)"
  "fundraising_ledger_update (insert_rows r12 part) (appended d w) = appended d (fundraising_ledger_update (insert_rows r12 part) w)"
  "fundraising_events_update (insert_rows r13 part) (appended d w) = appended d (fundraising_events_update (insert_rows r13 part) w)"
  by (simp_all add: appended_def insert_rows_def)

lemma grown_update:
  assumes "grown P d d'" and "\<And>w. upd (appended d w) = appended d (upd w)" and "\<And>w. P w \<Longrightarrow> P (upd w)"
  shows "grown P d (upd d')"
  using assms unfolding grown_def by metis

end
