(* ===== verification/Privacy_Worker.thy ===== *)
theory Privacy_Worker
  imports ClickHouse_Tables
begin

section \<open>internal/privacy/worker.go: carrying out privacy requests\<close>

text \<open>
  RunOnce lists the requests that are due and takes them one by one: claim, delete when the action
  is to delete, then mark completed, or retry when the deletion failed. The interfaces Repository
  and Deleter are the record \<open>privacy_backend\<close>; the locale \<open>privacy_repository\<close> says what the worker
  needs of them, and shows that a request is marked completed only when what it names is erased.
\<close>

record privacy_work =
  pq_request_id :: string
  pq_scope :: scope
  pq_product_key :: string
  pq_action :: string
  pq_body_sha :: string
  pq_requested_at :: time
  pq_ingested_at :: time
  pq_expires_at :: "time option"
  pq_attempts :: "16 word"
  pq_legacy :: "string option"

text \<open>An error that the caller looks at; a panic is not an error value and passes through.\<close>

definition attempting :: "('s, 'a) action \<Rightarrow> ('s, 'a result) action" where
  "attempting m s =
     (case m s of (Inl e, s') \<Rightarrow> if e = uuid_panic then (Inl e, s') else (Inr (Inl e), s')
      | (Inr x, s') \<Rightarrow> (Inr (Inr x), s'))"

record 's privacy_backend =
  list_pending :: "nat \<Rightarrow> ('s, privacy_work list) action"
  claim_request :: "privacy_work \<Rightarrow> ('s, bool) action"
  complete_request :: "privacy_work \<Rightarrow> ('s, unit) action"
  retry_request :: "privacy_work \<Rightarrow> string \<Rightarrow> int \<Rightarrow> ('s, unit) action"
  delete_telemetry :: "privacy_work \<Rightarrow> ('s, unit) action"

record worker_limits =
  worker_limit :: int
  worker_max_attempts :: int

definition new_worker_with_max_attempts :: "int \<Rightarrow> int \<Rightarrow> worker_limits result" where
  "new_worker_with_max_attempts limit max_attempts =
     reject (limit < 1 \<or> limit > 1000 \<or> max_attempts < 1 \<or> max_attempts > 100)
       (Err ''invalid privacy worker configuration'')
       (Inr \<lparr>worker_limit = limit, worker_max_attempts = max_attempts\<rparr>)"

definition new_worker :: "int \<Rightarrow> worker_limits result" where
  "new_worker limit = new_worker_with_max_attempts limit 10"

fun error_text :: "go_error \<Rightarrow> string" where
  "error_text (Err m) = m"
| "error_text (Wrapped m e) = m @ '': '' @ error_text e"

definition perform_request :: "'s privacy_backend \<Rightarrow> privacy_work \<Rightarrow> ('s, unit) action" where
  "perform_request be q =
     (if pq_action q = PrivacyOptOut then ret ()
      else if pq_action q = PrivacyDelete then delete_telemetry be q
      else fail (Err ''unsupported privacy action''))"

text \<open>The body of the loop; it returns the errors that it adds to the failures.\<close>

definition handle_request :: "'s privacy_backend \<Rightarrow> int \<Rightarrow> privacy_work \<Rightarrow> ('s, go_error list) action" where
  "handle_request be max_attempts listed_q =
     seq (attempting (claim_request be listed_q)) (\<lambda>claim.
     case claim of
       Inl e \<Rightarrow> ret [Wrapped (''claim privacy request '' @ pq_request_id listed_q) e]
     | Inr claimed \<Rightarrow>
         if \<not> claimed then ret []
         else
           let q = listed_q\<lparr>pq_attempts := pq_attempts listed_q + 1\<rparr>; name = ''privacy request '' @ pq_request_id q
           in
           seq (attempting (perform_request be q)) (\<lambda>outcome.
           case outcome of
             Inl e \<Rightarrow>
               seq (attempting (retry_request be q ''processing_failed'' max_attempts)) (\<lambda>mark.
               case mark of
                 Inl mark_err \<Rightarrow> ret [Wrapped (name @ '' failed: '' @ error_text e @ ''; persist failure'') mark_err]
               | Inr _ \<Rightarrow> ret [Wrapped (name @ '' failed'') e])
           | Inr _ \<Rightarrow>
               seq (attempting (complete_request be q)) (\<lambda>mark.
               case mark of
                 Inl e \<Rightarrow> ret [Wrapped (''complete '' @ name) e]
               | Inr _ \<Rightarrow> ret [])))"

fun handle_requests :: "'s privacy_backend \<Rightarrow> int \<Rightarrow> privacy_work list \<Rightarrow> ('s, go_error list) action" where
  "handle_requests be max_attempts [] = ret []"
| "handle_requests be max_attempts (q # qs) =
     seq (handle_request be max_attempts q) (\<lambda>es.
     seq (handle_requests be max_attempts qs) (\<lambda>es'. ret (es @ es')))"

fun join_lines :: "string list \<Rightarrow> string" where
  "join_lines [] = []"
| "join_lines [l] = l"
| "join_lines (l # ls) = l @ [CHR 0x0A] @ join_lines ls"

definition run_once :: "'s privacy_backend \<Rightarrow> worker_limits \<Rightarrow> ('s, unit) action" where
  "run_once be w =
     seq (wrapping ''list privacy requests'' (list_pending be (nat (worker_limit w)))) (\<lambda>qs.
     seq (handle_requests be (worker_max_attempts w) qs) (\<lambda>failures.
       if failures = [] then ret () else fail (Err (join_lines (map error_text failures)))))"

subsection \<open>What the worker needs of the store\<close>

lemma valid_attempting [triples]:
  assumes "valid P m (\<lambda>x. Q (Inr x)) (\<lambda>e s. if e = uuid_panic then E e s else Q (Inl e) s)"
  shows "valid P (attempting m) Q E"
proof (rule validI)
  fix s assume P: "P s"
  obtain r t where m: "m s = (r, t)" by (cases "m s")
  show "case attempting m s of (Inr x, s') \<Rightarrow> Q x s' | (Inl e, s') \<Rightarrow> E e s'"
  proof (cases r)
    case (Inl e)
    with validE [OF assms P] m show ?thesis by (auto simp: attempting_def split: if_splits)
  next
    case (Inr x)
    with validD [OF assms P] m show ?thesis by (auto simp: attempting_def)
  qed
qed

lemma keeps_attempting [triples]: "keeps P m \<Longrightarrow> keeps P (attempting m)"
  unfolding keeps_def by (rule valid_attempting) (simp cong: if_cong)

text \<open>
  \<open>inv\<close> is an invariant of the store, \<open>known q\<close> says that q is a request that the store lists,
  \<open>erased q\<close> that nothing of what q names is left.
\<close>

locale privacy_repository =
  fixes be :: "'s privacy_backend"
    and inv :: "'s \<Rightarrow> bool"
    and known :: "privacy_work \<Rightarrow> 's \<Rightarrow> bool"
    and erased :: "privacy_work \<Rightarrow> 's \<Rightarrow> bool"
  assumes lists: "valid inv (list_pending be n) (\<lambda>qs s. inv s \<and> (\<forall>q \<in> set qs. known q s)) (\<lambda>_. inv)"
    and claims: "keeps (\<lambda>s. inv s \<and> known q s \<and> (\<forall>q' \<in> set qs. known q' s)) (claim_request be q)"
    and retries: "keeps (\<lambda>s. inv s \<and> known q s \<and> (\<forall>q' \<in> set qs. known q' s)) (retry_request be q code max_attempts)"
    and deletes: "pq_action q = PrivacyDelete \<Longrightarrow>
      valid (\<lambda>s. inv s \<and> known q s \<and> (\<forall>q' \<in> set qs. known q' s)) (delete_telemetry be q)
        (\<lambda>_ s. inv s \<and> known q s \<and> (\<forall>q' \<in> set qs. known q' s) \<and> erased q s)
        (\<lambda>_ s. inv s \<and> known q s \<and> (\<forall>q' \<in> set qs. known q' s))"
    and completes: "valid (\<lambda>s. inv s \<and> known q s \<and> (\<forall>q' \<in> set qs. known q' s)
          \<and> (pq_action q = PrivacyOptOut \<or> pq_action q = PrivacyDelete \<and> erased q s)) (complete_request be q)
        (\<lambda>_ s. inv s \<and> (\<forall>q' \<in> set qs. known q' s)) (\<lambda>_ s. inv s \<and> (\<forall>q' \<in> set qs. known q' s))"
    and attempts_free: "known (q\<lparr>pq_attempts := a\<rparr>) s = known q s"
begin

lemma performs:
  "valid (\<lambda>s. inv s \<and> known q s \<and> (\<forall>q' \<in> set qs. known q' s)) (perform_request be q)
     (\<lambda>_ s. inv s \<and> known q s \<and> (\<forall>q' \<in> set qs. known q' s)
        \<and> (pq_action q = PrivacyOptOut \<or> pq_action q = PrivacyDelete \<and> erased q s))
     (\<lambda>_ s. inv s \<and> known q s \<and> (\<forall>q' \<in> set qs. known q' s))"
proof -
  consider "pq_action q = PrivacyOptOut" | "pq_action q = PrivacyDelete" "pq_action q \<noteq> PrivacyOptOut"
    | "pq_action q \<notin> {PrivacyOptOut, PrivacyDelete}" by blast
  then show ?thesis
  proof cases
    case 1
    then show ?thesis by (auto simp: perform_request_def intro: valid_pre [OF valid_ret])
  next
    case 2
    then show ?thesis by (auto simp: perform_request_def intro: valid_post [OF deletes])
  next
    case 3
    then show ?thesis by (auto simp: perform_request_def intro: valid_pre [OF valid_fail])
  qed
qed

lemma handles:
  "valid (\<lambda>s. inv s \<and> known q s \<and> (\<forall>q' \<in> set qs. known q' s)) (handle_request be n q)
     (\<lambda>_ s. inv s \<and> (\<forall>q' \<in> set qs. known q' s)) (\<lambda>_. inv)"
proof -
  let ?K = "\<lambda>s. inv s \<and> known q s \<and> (\<forall>q' \<in> set qs. known q' s)"
  let ?R = "\<lambda>s. inv s \<and> (\<forall>q' \<in> set qs. known q' s)"
  let ?q = "q\<lparr>pq_attempts := pq_attempts q + 1\<rparr>"
  have known: "known ?q s = known q s" for s by (rule attempts_free)
  have post: "valid P (case r of Inl e \<Rightarrow> ret (f e) | Inr (_ :: unit) \<Rightarrow> ret g) (\<lambda>_. ?R) (\<lambda>_. inv)"
    if "\<And>s. P s \<Longrightarrow> ?R s" for P r f g
    using that by (cases r) (auto intro: valid_pre [OF valid_ret])
  have claimed: "valid ?K (attempting (claim_request be q)) (\<lambda>_. ?K) (\<lambda>_. inv)"
    by (rule valid_attempting, rule valid_post [OF claims [unfolded keeps_def]]) auto
  have retried: "valid ?K (attempting (retry_request be ?q c n)) (\<lambda>_. ?R) (\<lambda>_. inv)" for c
    using retries [of ?q qs c n] unfolding keeps_def known
    by (intro valid_attempting) (erule valid_post, auto)
  have completed: "valid (\<lambda>s. ?K s \<and> (pq_action q = PrivacyOptOut \<or> pq_action q = PrivacyDelete \<and> erased ?q s))
      (attempting (complete_request be ?q)) (\<lambda>_. ?R) (\<lambda>_. inv)"
    using completes [of ?q qs] unfolding known
    by (intro valid_attempting) (erule valid_conseq, auto)
  have performed: "valid ?K (attempting (perform_request be ?q))
      (\<lambda>r s. ?K s \<and> (\<forall>u. r = Inr u \<longrightarrow> pq_action q = PrivacyOptOut \<or> pq_action q = PrivacyDelete \<and> erased ?q s)) (\<lambda>_. inv)"
    using performs [of ?q qs] unfolding known
    by (intro valid_attempting) (erule valid_post, auto)
  show ?thesis
    unfolding handle_request_def Let_def
  proof (rule valid_seq [OF _ claimed])
    fix c
    show "valid ?K (case c of
        Inl e \<Rightarrow> ret [Wrapped (''claim privacy request '' @ pq_request_id q) e]
      | Inr claimed \<Rightarrow> if \<not> claimed then ret [] else seq (attempting (perform_request be ?q)) (\<lambda>outcome.
          case outcome of
            Inl e \<Rightarrow> seq (attempting (retry_request be ?q ''processing_failed'' n)) (\<lambda>mark. case mark of
                Inl mark_err \<Rightarrow> ret [Wrapped ((''privacy request '' @ pq_request_id ?q) @ '' failed: '' @ error_text e @ ''; persist failure'') mark_err]
              | Inr _ \<Rightarrow> ret [Wrapped ((''privacy request '' @ pq_request_id ?q) @ '' failed'') e])
          | Inr _ \<Rightarrow> seq (attempting (complete_request be ?q)) (\<lambda>mark. case mark of
                Inl e \<Rightarrow> ret [Wrapped (''complete '' @ (''privacy request '' @ pq_request_id ?q)) e]
              | Inr _ \<Rightarrow> ret []))) (\<lambda>_. ?R) (\<lambda>_. inv)"
    proof (cases c)
      case (Inl e)
      then show ?thesis by (auto intro: valid_pre [OF valid_ret])
    next
      case (Inr claimed)
      have "valid (\<lambda>s. ?K s \<and> (\<forall>u. r = Inr u \<longrightarrow> pq_action q = PrivacyOptOut \<or> pq_action q = PrivacyDelete \<and> erased ?q s))
        (case r of
            Inl e \<Rightarrow> seq (attempting (retry_request be ?q ''processing_failed'' n)) (\<lambda>mark. case mark of
                Inl mark_err \<Rightarrow> ret [Wrapped ((''privacy request '' @ pq_request_id ?q) @ '' failed: '' @ error_text e @ ''; persist failure'') mark_err]
              | Inr _ \<Rightarrow> ret [Wrapped ((''privacy request '' @ pq_request_id ?q) @ '' failed'') e])
          | Inr _ \<Rightarrow> seq (attempting (complete_request be ?q)) (\<lambda>mark. case mark of
                Inl e \<Rightarrow> ret [Wrapped (''complete '' @ (''privacy request '' @ pq_request_id ?q)) e]
              | Inr _ \<Rightarrow> ret [])) (\<lambda>_. ?R) (\<lambda>_. inv)" for r :: "unit result"
        by (cases r; simp only: sum.case; rule valid_seq, rule post, assumption?)
          (auto intro: valid_pre [OF retried] valid_pre [OF completed] post)
      note act = valid_seq [OF this performed]
      show ?thesis
      proof (cases claimed)
        case True
        then show ?thesis by (simp only: Inr sum.case not_True_eq_False if_False act)
      next
        case False
        then show ?thesis
          by (simp only: Inr sum.case not_False_eq_True if_True) (rule valid_pre [OF valid_ret], blast)
      qed
    qed
  qed
qed

lemma handles_all:
  "valid (\<lambda>s. inv s \<and> (\<forall>q \<in> set qs. known q s)) (handle_requests be n qs) (\<lambda>_. inv) (\<lambda>_. inv)"
proof (induction qs)
  case Nil
  show ?case by (simp add: valid_def)
next
  case (Cons q qs)
  have "valid (\<lambda>s. inv s \<and> (\<forall>q \<in> set qs. known q s))
      (seq (handle_requests be n qs) (\<lambda>es'. ret (es @ es'))) (\<lambda>_. inv) (\<lambda>_. inv)" for es
    by (rule valid_seq [OF _ Cons.IH]) (auto intro: valid_pre [OF valid_ret])
  from valid_seq [OF this handles] show ?case by simp
qed

theorem run_once_keeps: "keeps inv (run_once be w)"
  unfolding keeps_def run_once_def
proof (rule valid_seq)
  show "valid inv (wrapping ''list privacy requests'' (list_pending be (nat (worker_limit w))))
      (\<lambda>qs s. inv s \<and> (\<forall>q \<in> set qs. known q s)) (\<lambda>_. inv)"
    by (rule valid_wrapping [OF lists])
  fix qs
  show "valid (\<lambda>s. inv s \<and> (\<forall>q \<in> set qs. known q s))
      (seq (handle_requests be (worker_max_attempts w) qs) (\<lambda>failures.
         if failures = [] then ret () else fail (Err (join_lines (map error_text failures))))) (\<lambda>_. inv) (\<lambda>_. inv)"
    by (rule valid_seq [OF _ handles_all]) (auto simp: valid_def)
qed

end

end
