(* ===== verification/Store_Privacy.thy ===== *)
theory Store_Privacy
  imports Privacy_Worker Go_Crypto Go_Codec
begin

section \<open>internal/clickhouse/store_privacy.go: privacy requests and deletions\<close>

text \<open>
  A privacy request is a row of the suppression table; every change of its status appends another
  row with the same key and a version of its attempt and phase (\<open>privacy_status_version\<close>), and the
  newest version, of equal ones the row inserted last, is the request's state: pending, processing under a lease, retry, failed or completed. A deletion
  keeps the same kind of record for each table in the progress table, so that a request that is
  taken up again skips what is done.

  now64(3) is the clock of the server: PendingPrivacyRequests reads it through the clock of the
  connection, cut to milliseconds. Requests asked at the same time are listed in table order.
\<close>

record privacy_result =
  privacy_replayed :: bool
  privacy_status :: string

definition suppression_key :: "'u suppression_row \<Rightarrow> string \<times> 'u" where
  "suppression_key r = (col_product r, sr_request_id r)"

definition progress_key :: "'u progress_row \<Rightarrow> string \<times> 'u \<times> string" where
  "progress_key r = (gr_product r, gr_request_id r, gr_table r)"

definition privacy_request_row :: "string \<Rightarrow> 'u \<Rightarrow> 'u tables \<Rightarrow> 'u suppression_row option" where
  "privacy_request_row p rid d = newest suppression_key sr_updated_at (suppressions d) (p, rid)"

definition no_rows_error :: go_error where
  "no_rows_error = Err ''sql: no rows in result set''"

subsection \<open>New requests\<close>

definition lookup_request ::
  "'u store_config \<Rightarrow> string \<Rightarrow> string \<Rightarrow> string \<Rightarrow> ('u, (string \<times> string) option) store_action" where
  "lookup_request cfg msg p i =
     seq (lift (must_parse cfg i)) (\<lambda>rid.
     wrapping msg (query (\<lambda>d. map_option (\<lambda>r. (sr_body_sha r, sr_status r)) (privacy_request_row p rid d))))"

definition pending_row ::
  "'u store_config \<Rightarrow> scope_columns \<Rightarrow> string \<Rightarrow> string \<Rightarrow> time \<Rightarrow> time \<Rightarrow> 'u \<Rightarrow> 'u option \<Rightarrow> 'u suppression_row" where
  "pending_row cfg cols action sha requested t rid legacy =
     scope_columns.extend cols
       (suppression_row.fields rid action ''pending'' sha (exec_time cfg requested) (exec_time cfg t)
         (exec_time cfg t) True None (map_option (exec_time cfg) (expires_at t (keep_privacy (retentions cfg))))
         0 (exec_time cfg t) None legacy)"

definition create_privacy_request ::
  "'u store_config \<Rightarrow> validated_privacy_request \<Rightarrow> string \<Rightarrow> ('u, privacy_result) store_action" where
  "create_privacy_request cfg p sha =
     (let q = the_request p; sc = privacy_scope q;
          cols = \<lparr>col_product = product_id sc, col_product_key = Some (privacy_product_key p),
            col_subject_key = Some (subject_key sc), col_person_key = person_key sc, col_org_key = org_key sc\<rparr>
      in
      seq (lookup_request cfg ''query privacy idempotency ledger'' (product_id sc) (request_id q)) (\<lambda>found.
        case found of
          Some (existing_sha, status) \<Rightarrow>
            if existing_sha \<noteq> sha then fail ErrIdempotencyConflict
            else ret \<lparr>privacy_replayed = True, privacy_status = status\<rparr>
        | None \<Rightarrow>
            seq time_now (\<lambda>t.
            seq (lift (must_parse cfg (request_id q))) (\<lambda>rid.
            seq (wrapping ''insert privacy request'' (exec (\<lambda>part. suppressions_update (insert_rows
              [pending_row cfg cols (privacy_action q) sha (requested_at_time p) t rid None] part)))) (\<lambda>_.
            ret \<lparr>privacy_replayed = False, privacy_status = ''pending''\<rparr>)))))"

definition legacy_columns :: "string \<Rightarrow> scope_columns" where
  "legacy_columns installation =
     \<lparr>col_product = LinkaPlays,
      col_product_key = Some (case lookup_product LinkaPlays of Some sp \<Rightarrow> opaque_key_of sp | None \<Rightarrow> []),
      col_subject_key = Some (hex_encode (sha256 installation)), col_person_key = None, col_org_key = None\<rparr>"

definition create_legacy_privacy_request ::
  "'u store_config \<Rightarrow> validated_privacy_v1 \<Rightarrow> string \<Rightarrow> ('u, privacy_result) store_action" where
  "create_legacy_privacy_request cfg p sha =
     (let q = vp_request p in
      seq (lookup_request cfg ''query V1 privacy idempotency ledger'' LinkaPlays (pv_request_id q)) (\<lambda>found.
        case found of
          Some (existing_sha, status) \<Rightarrow>
            if existing_sha \<noteq> sha then fail ErrIdempotencyConflict
            else ret \<lparr>privacy_replayed = True, privacy_status = status\<rparr>
        | None \<Rightarrow>
            seq time_now (\<lambda>t.
            seq (lift (must_parse cfg (pv_request_id q))) (\<lambda>rid.
            seq (lift (must_parse cfg (pv_installation_id q))) (\<lambda>inst.
            seq (wrapping ''insert V1 privacy request'' (exec (\<lambda>part. suppressions_update (insert_rows
              [pending_row cfg (legacy_columns (pv_installation_id q)) ''delete'' sha (vp_requested_at p) t rid (Some inst)]
              part)))) (\<lambda>_.
            ret \<lparr>privacy_replayed = False, privacy_status = ''pending''\<rparr>))))))"

subsection \<open>Versions and delays\<close>

definition status_phase :: "string \<Rightarrow> int" where
  "status_phase status =
     (if status = ''retry'' \<or> status = ''failed'' then 2 else if status = ''completed'' then 3 else 1)"

definition privacy_status_version :: "privacy_work \<Rightarrow> string \<Rightarrow> 16 word \<Rightarrow> time" where
  "privacy_status_version q status attempts =
     pq_ingested_at q + (uint attempts * 4 + status_phase status) * millisecond"

definition privacy_retry_delay :: "16 word \<Rightarrow> duration" where
  "privacy_retry_delay attempt =
     (let a = (if attempt < 1 then 1 else attempt); b = (if a > 8 then 8 else a)
      in int (push_bit (unat (b - 1)) 1) * second)"

subsection \<open>The life of a request\<close>

definition due :: "time \<Rightarrow> 'u suppression_row \<Rightarrow> bool" where
  "due t r \<longleftrightarrow>
     (sr_status r = ''pending'' \<or> sr_status r = ''retry'') \<and> sr_available_at r \<le> t
     \<or> sr_status r = ''processing'' \<and> (case sr_lease_until r of None \<Rightarrow> False | Some l \<Rightarrow> l < t)"

definition pending_rows :: "time \<Rightarrow> nat \<Rightarrow> 'u tables \<Rightarrow> 'u suppression_row list" where
  "pending_rows t limit d =
     take limit (sort_key sr_requested_at
       (filter (due t) (final_rows suppression_key sr_updated_at (suppressions d))))"

definition scan_request :: "'u store_config \<Rightarrow> 'u suppression_row \<Rightarrow> privacy_work result" where
  "scan_request cfg r =
     (case col_product_key r of
        None \<Rightarrow> Inl (Err ''pending privacy request has no product key'')
      | Some key \<Rightarrow>
          Inr \<lparr>pq_request_id = uuid_string (uuids cfg) (sr_request_id r),
            pq_scope = \<lparr>product_id = col_product r, subject_key = string_value (col_subject_key r),
              person_key = col_person_key r, org_key = col_org_key r\<rparr>,
            pq_product_key = key, pq_action = sr_action r, pq_body_sha = sr_body_sha r,
            pq_requested_at = sr_requested_at r, pq_ingested_at = sr_ingested_at r,
            pq_expires_at = sr_expires_at r, pq_attempts = sr_attempts r,
            pq_legacy = map_option (uuid_string (uuids cfg)) (sr_legacy_installation r)\<rparr>)"

definition pending_privacy_requests :: "'u store_config \<Rightarrow> nat \<Rightarrow> ('u, privacy_work list) store_action" where
  "pending_privacy_requests cfg limit =
     seq time_now (\<lambda>t.
     seq (wrapping ''query pending privacy requests'' (query (pending_rows (truncate_to t millisecond) limit))) (\<lambda>rows.
     lift (traverse (scan_request cfg) rows)))"

definition work_columns :: "privacy_work \<Rightarrow> scope_columns" where
  "work_columns q =
     (let sc = pq_scope q
      in \<lparr>col_product = product_id sc, col_product_key = Some (pq_product_key q),
          col_subject_key = Some (subject_key sc), col_person_key = person_key sc, col_org_key = org_key sc\<rparr>)"

definition status_row ::
  "'u store_config \<Rightarrow> privacy_work \<Rightarrow> string \<Rightarrow> string option \<Rightarrow> 16 word \<Rightarrow> time \<Rightarrow> time option \<Rightarrow> 'u \<Rightarrow> 'u option
   \<Rightarrow> 'u suppression_row" where
  "status_row cfg q status failure attempts available lease rid legacy =
     scope_columns.extend (work_columns q)
       (suppression_row.fields rid (pq_action q) status (pq_body_sha q) (exec_time cfg (pq_requested_at q))
         (exec_time cfg (pq_ingested_at q)) (exec_time cfg (privacy_status_version q status attempts)) True failure
         (map_option (exec_time cfg) (pq_expires_at q)) attempts (exec_time cfg available)
         (map_option (exec_time cfg) lease) legacy)"

text \<open>The installation is bound as text and parsed by the server.\<close>

definition legacy_value :: "'u store_config \<Rightarrow> privacy_work \<Rightarrow> 'u option result" where
  "legacy_value cfg q =
     (case pq_legacy q of None \<Rightarrow> Inr None
      | Some i \<Rightarrow> andthen (from_option db_error (uuid_parse (uuids cfg) i)) (\<lambda>u. Inr (Some u)))"

definition insert_privacy_status ::
  "'u store_config \<Rightarrow> privacy_work \<Rightarrow> string \<Rightarrow> string option \<Rightarrow> 16 word \<Rightarrow> time \<Rightarrow> time option
   \<Rightarrow> ('u, unit) store_action" where
  "insert_privacy_status cfg q status failure attempts available lease =
     seq (lift (must_parse cfg (pq_request_id q))) (\<lambda>rid.
     wrapping (''insert privacy request status '' @ status)
       (seq (lift (legacy_value cfg q)) (\<lambda>legacy.
        exec (\<lambda>part. suppressions_update (insert_rows
          [status_row cfg q status failure attempts available lease rid legacy] part)))))"

definition claimable :: "time \<Rightarrow> 'u suppression_row \<Rightarrow> bool" where
  "claimable t r \<longleftrightarrow>
     (sr_status r = ''pending'' \<or> sr_status r = ''retry'') \<and> \<not> sr_available_at r > t
     \<or> sr_status r = ''processing'' \<and> (case sr_lease_until r of None \<Rightarrow> False | Some l \<Rightarrow> l < t)"

definition claim_privacy_request :: "'u store_config \<Rightarrow> privacy_work \<Rightarrow> ('u, bool) store_action" where
  "claim_privacy_request cfg q =
     seq (lift (must_parse cfg (pq_request_id q))) (\<lambda>rid.
     seq (wrapping ''query privacy request before claim''
       (seq (query (privacy_request_row (product_id (pq_scope q)) rid)) (\<lambda>found.
        lift (from_option no_rows_error found)))) (\<lambda>r.
     seq time_now (\<lambda>t.
       if \<not> claimable t r then ret False
       else
         seq (insert_privacy_status cfg (q\<lparr>pq_attempts := sr_attempts r\<rparr>) ''processing'' None
           (sr_attempts r + 1) t (Some (t + 5 * minute))) (\<lambda>_.
         ret True))))"

definition complete_privacy_request :: "'u store_config \<Rightarrow> privacy_work \<Rightarrow> ('u, unit) store_action" where
  "complete_privacy_request cfg q =
     seq time_now (\<lambda>t. insert_privacy_status cfg q ''completed'' None (pq_attempts q) t None)"

definition retry_privacy_request ::
  "'u store_config \<Rightarrow> privacy_work \<Rightarrow> string \<Rightarrow> int \<Rightarrow> ('u, unit) store_action" where
  "retry_privacy_request cfg q failure max_attempts =
     seq time_now (\<lambda>t.
       let status = (if uint (pq_attempts q) \<ge> max_attempts then ''failed'' else ''retry'')
       in insert_privacy_status cfg q status (Some failure) (pq_attempts q)
            (t + privacy_retry_delay (pq_attempts q)) None)"

subsection \<open>Deletions\<close>

definition telemetry_tables :: "string list" where
  "telemetry_tables = [''common_events_v2'', ''technical_events_v2'', ''plays_events_v2'', ''product_events_v2'',
     ''product_outcomes_v2'', ''record_registry_v2'', ''ingest_batches_v2'']"

definition legacy_tables :: "string list" where
  "legacy_tables = [''events'', ''session_summaries'']"

definition deletion_tables :: "privacy_work \<Rightarrow> string list" where
  "deletion_tables q = (if pq_legacy q \<noteq> None then legacy_tables else telemetry_tables)"

text \<open>ALTER TABLE ... DELETE WHERE: the condition of a request and the table it names.\<close>

definition work_match :: "privacy_work \<Rightarrow> 'z scope_columns_scheme \<Rightarrow> bool" where
  "work_match q =
     scope_match (product_id (pq_scope q)) (pq_product_key q) (subject_key (pq_scope q))
       (person_key (pq_scope q)) (org_key (pq_scope q))"

definition delete_scope :: "string \<Rightarrow> privacy_work \<Rightarrow> nat option \<Rightarrow> 'u tables \<Rightarrow> 'u tables" where
  "delete_scope tab q part d =
     (if tab = ''common_events_v2'' then d\<lparr>common_events := delete_rows (work_match q) part (common_events d)\<rparr>
     else if tab = ''technical_events_v2'' then d\<lparr>technical_events := delete_rows (work_match q) part (technical_events d)\<rparr>
     else if tab = ''plays_events_v2'' then d\<lparr>plays_events := delete_rows (work_match q) part (plays_events d)\<rparr>
     else if tab = ''product_events_v2'' then d\<lparr>product_events := delete_rows (work_match q) part (product_events d)\<rparr>
     else if tab = ''product_outcomes_v2'' then d\<lparr>product_outcomes := delete_rows (work_match q) part (product_outcomes d)\<rparr>
     else if tab = ''record_registry_v2'' then d\<lparr>record_registry := delete_rows (work_match q) part (record_registry d)\<rparr>
     else if tab = ''ingest_batches_v2'' then d\<lparr>ingest_batches := delete_rows (work_match q) part (ingest_batches d)\<rparr>
      else d)"

definition delete_installation :: "string \<Rightarrow> 'u \<Rightarrow> nat option \<Rightarrow> 'u tables \<Rightarrow> 'u tables" where
  "delete_installation tab inst part d =
     (if tab = ''events'' then d\<lparr>v1_events := delete_rows (\<lambda>r. v1e_installation r = inst) part (v1_events d)\<rparr>
      else if tab = ''session_summaries'' then d\<lparr>v1_summaries := delete_rows (\<lambda>r. v1s_installation r = inst) part (v1_summaries d)\<rparr>
      else d)"

definition deletion_progress_of ::
  "'u store_config \<Rightarrow> privacy_work \<Rightarrow> string \<Rightarrow> ('u, string \<times> 16 word) store_action" where
  "deletion_progress_of cfg q tab =
     seq (lift (must_parse cfg (pq_request_id q))) (\<lambda>rid.
     wrapping (''query privacy deletion progress for '' @ tab)
      (query (\<lambda>d. case newest progress_key gr_updated_at (deletion_progress d) (product_id (pq_scope q), rid, tab) of
         None \<Rightarrow> (''pending'', 0) | Some g \<Rightarrow> (gr_status g, gr_attempts g))))"

definition progress_row_of ::
  "'u store_config \<Rightarrow> privacy_work \<Rightarrow> string \<Rightarrow> string \<Rightarrow> 16 word \<Rightarrow> time \<Rightarrow> time option \<Rightarrow> string option \<Rightarrow> time option
   \<Rightarrow> 'u \<Rightarrow> 'u progress_row" where
  "progress_row_of cfg q tab status attempts available lease last_error completed rid =
     \<lparr>gr_request_id = rid, gr_product = product_id (pq_scope q), gr_table = tab, gr_status = status,
      gr_attempts = attempts, gr_available_at = exec_time cfg available,
      gr_lease_until = map_option (exec_time cfg) lease, gr_last_error = last_error,
      gr_updated_at = exec_time cfg (privacy_status_version q status attempts),
      gr_completed_at = map_option (exec_time cfg) completed\<rparr>"

definition insert_deletion_progress ::
  "'u store_config \<Rightarrow> privacy_work \<Rightarrow> string \<Rightarrow> string \<Rightarrow> 16 word \<Rightarrow> time \<Rightarrow> time option \<Rightarrow> string option \<Rightarrow> time option
   \<Rightarrow> ('u, unit) store_action" where
  "insert_deletion_progress cfg q tab status attempts available lease last_error completed =
     seq (lift (must_parse cfg (pq_request_id q))) (\<lambda>rid.
     wrapping (''insert privacy deletion progress for '' @ tab)
      (exec (\<lambda>part. deletion_progress_update (insert_rows
        [progress_row_of cfg q tab status attempts available lease last_error completed rid] part))))"

definition delete_rows_of ::
  "'u store_config \<Rightarrow> privacy_work \<Rightarrow> string \<Rightarrow> ('u, unit) store_action" where
  "delete_rows_of cfg q tab =
     (case pq_legacy q of
        Some i \<Rightarrow> seq (lift (must_parse cfg i)) (\<lambda>inst. exec (delete_installation tab inst))
      | None \<Rightarrow> exec (delete_scope tab q))"

definition delete_telemetry_table ::
  "'u store_config \<Rightarrow> privacy_work \<Rightarrow> string \<Rightarrow> ('u, unit) store_action" where
  "delete_telemetry_table cfg q tab =
     seq time_now (\<lambda>t.
     seq (deletion_progress_of cfg q tab) (\<lambda>(status, attempts).
       if status = ''completed'' then ret ()
       else
         seq (insert_deletion_progress cfg q tab ''processing'' (attempts + 1) t (Some (t + 5 * minute)) None None) (\<lambda>_.
         seq (attempting (delete_rows_of cfg q tab)) (\<lambda>outcome.
           case outcome of
             Inl e \<Rightarrow>
               seq (ignoring (insert_deletion_progress cfg q tab ''retry'' (attempts + 1)
                 (t + privacy_retry_delay (attempts + 1)) None (Some ''mutation_failed'') None)) (\<lambda>_.
               fail (Wrapped ((if pq_legacy q \<noteq> None then ''delete V1 privacy scope from '' else ''delete privacy scope from '')
                 @ tab) e))
           | Inr _ \<Rightarrow>
               insert_deletion_progress cfg q tab ''completed'' (attempts + 1) t None None (Some t)))))"

definition delete_telemetry_request :: "'u store_config \<Rightarrow> privacy_work \<Rightarrow> ('u, unit) store_action" where
  "delete_telemetry_request cfg q = each (delete_telemetry_table cfg q) (deletion_tables q)"

end
