(* ===== verification/Store_V2.thy ===== *)
theory Store_V2
  imports ClickHouse_Tables
begin

section \<open>internal/clickhouse/store_v2.go: idempotent ingestion of V2 batches\<close>

text \<open>
  InsertV2 reserves a batch in the ledger, registers its records, writes them to the table of
  their stream and marks the batch completed. The mutex v2Mu makes it one step of the state. The
  lemmas follow a batch through any number of attempts, each broken at any call: the writes of
  all of them together are a part of what one undisturbed attempt writes (\<open>batch_write\<close>, \<open>within\<close>), and
  all of it once an attempt has returned (\<open>retries_store_once\<close>); they are in Store_V2_Retries.
\<close>

record ingest_result =
  result_count :: nat
  result_replayed :: bool

definition ledger_key :: "'u ledger_row \<Rightarrow> string \<times> 'u" where
  "ledger_key r = (col_product r, lr_batch_id r)"

definition event_key :: "('u, 'z) event_row_scheme \<Rightarrow> string \<times> string option \<times> 'u" where
  "event_key r = (col_product r, col_subject_key r, er_record_id r)"

definition batch_ledger_v2 ::
  "'u store_config \<Rightarrow> string \<Rightarrow> string \<Rightarrow> ('u, (string \<times> string \<times> time) option) store_action" where
  "batch_ledger_v2 cfg p b =
     seq (lift (must_parse cfg b)) (\<lambda>u.
     wrapping ''query v2 batch ledger''
      (query (\<lambda>d. map_option (\<lambda>r. (lr_body_sha r, lr_status r, lr_ingested_at r))
        (newest ledger_key lr_ingested_at (ingest_batches d) (p, u)))))"

definition suppressed_v2 :: "scope \<Rightarrow> string \<Rightarrow> 'u tables \<Rightarrow> bool" where
  "suppressed_v2 sc pkey d =
     list_ex (\<lambda>r. sr_active r \<and> scope_match (product_id sc) pkey (subject_key sc) (person_key sc) (org_key sc) r)
       (final_rows (\<lambda>r. (col_product r, sr_request_id r)) sr_updated_at (suppressions d))"

definition is_suppressed :: "scope \<Rightarrow> string \<Rightarrow> ('u, bool) store_action" where
  "is_suppressed sc pkey = wrapping ''query privacy suppression'' (query (suppressed_v2 sc pkey))"

definition batch_columns :: "validated_batch \<Rightarrow> scope_columns" where
  "batch_columns b =
     (let sc = header_scope (header b)
      in \<lparr>col_product = product_id sc, col_product_key = Some (product_key b),
          col_subject_key = Some (subject_key sc), col_person_key = person_key sc,
          col_org_key = org_key sc\<rparr>)"

definition ledger_row_of ::
  "'u store_config \<Rightarrow> validated_batch \<Rightarrow> string \<Rightarrow> time \<Rightarrow> string \<Rightarrow> 'u \<Rightarrow> 'u ledger_row" where
  "ledger_row_of cfg b sha t status u =
     scope_columns.extend (batch_columns b)
       (ledger_row.fields u u (stream (header b)) sha (of_nat (record_count b))
         (exec_time cfg (sent_at_time b)) (exec_time cfg t)
         (map_option (exec_time cfg) (expires_at t (keep_batches (retentions cfg)))) status)"

definition insert_batch_ledger_v2 ::
  "'u store_config \<Rightarrow> validated_batch \<Rightarrow> string \<Rightarrow> time \<Rightarrow> string \<Rightarrow> ('u, unit) store_action" where
  "insert_batch_ledger_v2 cfg b sha t status =
     seq (lift (must_parse cfg (batch_id (header b)))) (\<lambda>u.
     wrapping ''insert v2 batch ledger''
      (exec (\<lambda>part. ingest_batches_update (insert_rows [ledger_row_of cfg b sha t status u] part))))"

subsection \<open>The rows of the five streams\<close>

definition event_row_of ::
  "'u store_config \<Rightarrow> validated_batch \<Rightarrow> time \<Rightarrow> duration \<Rightarrow> 'z base_record_scheme validated \<Rightarrow> 'u event_row result" where
  "event_row_of cfg b t keep v =
     (let r = the_record v in
      andthen (must_parse cfg (batch_id (header b))) (\<lambda>batch.
      andthen (must_parse cfg (record_id r)) (\<lambda>rid.
      andthen (must_parse cfg (app_session_id r)) (\<lambda>session.
        Inr (scope_columns.extend (batch_columns b)
          (event_row.fields batch rid (column_time cfg (occurred_at_time v)) (kind r) session (app r)
            (column_time cfg t) (map_option (column_time cfg) (expires_at t keep))))))))"

definition common_row_of ::
  "'u store_config \<Rightarrow> validated_batch \<Rightarrow> time \<Rightarrow> common_record validated \<Rightarrow> 'u common_row result" where
  "common_row_of cfg b t v =
     andthen (event_row_of cfg b t (keep_common (retentions cfg)) v) (\<lambda>e.
       Inr (event_row.extend e (common_row.fields (page (the_record v)) (mode (the_record v)))))"

definition technical_row_of ::
  "'u store_config \<Rightarrow> validated_batch \<Rightarrow> time \<Rightarrow> technical_record validated \<Rightarrow> 'u technical_row result" where
  "technical_row_of cfg b t v =
     (let r = the_record v in
      andthen (event_row_of cfg b t (keep_technical (retentions cfg)) v) (\<lambda>e.
       Inr (event_row.extend e (technical_row.fields (technical_component r) (technical_state r)
         (error_fingerprint r) (dropped_count r) (drop_reason r)))))"

definition plays_row_of ::
  "'u store_config \<Rightarrow> validated_batch \<Rightarrow> time \<Rightarrow> plays_record validated \<Rightarrow> 'u plays_row result" where
  "plays_row_of cfg b t v =
     (let r = the_record v in
      andthen (event_row_of cfg b t (keep_plays (retentions cfg)) v) (\<lambda>e.
      andthen (must_parse cfg (game_session_id r)) (\<lambda>g.
       Inr (event_row.extend e (plays_row.fields g (game_id r) (game_category r) (input_method r)
         (level_index r) (outcome r) (duration_ms r) (success_count r) (mistake_count r) (hint_count r)
         (valid_gaze_ratio r))))))"

definition product_row_of ::
  "'u store_config \<Rightarrow> validated_batch \<Rightarrow> time \<Rightarrow> product_record validated \<Rightarrow> 'u event_row result" where
  "product_row_of cfg b t v = event_row_of cfg b t (keep_product (retentions cfg)) v"

definition outcome_row_of ::
  "'u store_config \<Rightarrow> validated_batch \<Rightarrow> time \<Rightarrow> outcome_record validated \<Rightarrow> 'u outcome_row result" where
  "outcome_row_of cfg b t v =
     (let r = the_record v in
      andthen (event_row_of cfg b t (keep_outcome (retentions cfg)) v) (\<lambda>e.
       Inr (event_row.extend e (outcome_row.fields (outcome_result r) (outcome_source r) (outcome_mode r)
         (count_bucket r) (duration_bucket r) (failure_code r)))))"

definition insert_common_v2 :: "'u store_config \<Rightarrow> validated_batch \<Rightarrow> time \<Rightarrow> ('u, unit) store_action" where
  "insert_common_v2 cfg b t =
     prepare_and_send ''prepare common v2 batch'' ''send common v2 batch''
       (traverse (common_row_of cfg b t) (common_records b)) common_events_update"

definition insert_technical_v2 :: "'u store_config \<Rightarrow> validated_batch \<Rightarrow> time \<Rightarrow> ('u, unit) store_action" where
  "insert_technical_v2 cfg b t =
     prepare_and_send ''prepare technical v2 batch'' ''send technical v2 batch''
       (traverse (technical_row_of cfg b t) (technical_records b)) technical_events_update"

definition insert_plays_v2 :: "'u store_config \<Rightarrow> validated_batch \<Rightarrow> time \<Rightarrow> ('u, unit) store_action" where
  "insert_plays_v2 cfg b t =
     prepare_and_send ''prepare plays v2 batch'' ''send plays v2 batch''
       (traverse (plays_row_of cfg b t) (plays_records b)) plays_events_update"

definition insert_product_v2 :: "'u store_config \<Rightarrow> validated_batch \<Rightarrow> time \<Rightarrow> ('u, unit) store_action" where
  "insert_product_v2 cfg b t =
     prepare_and_send ''prepare product v2 batch'' ''send product v2 batch''
       (traverse (product_row_of cfg b t) (product_records b)) product_events_update"

definition insert_outcome_v2 :: "'u store_config \<Rightarrow> validated_batch \<Rightarrow> time \<Rightarrow> ('u, unit) store_action" where
  "insert_outcome_v2 cfg b t =
     prepare_and_send ''prepare outcome v2 batch'' ''send outcome v2 batch''
       (traverse (outcome_row_of cfg b t) (outcome_records b)) product_outcomes_update"

subsection \<open>The registry of record IDs\<close>

definition registry_row_of ::
  "validated_batch \<Rightarrow> string \<Rightarrow> time \<Rightarrow> 'u \<Rightarrow> 'u \<Rightarrow> 'u registry_row" where
  "registry_row_of b sha t batch rid =
     scope_columns.extend (batch_columns b) (registry_row.fields rid batch (stream (header b)) sha t)"

definition registered_rows :: "string \<Rightarrow> 'u list \<Rightarrow> 'u tables \<Rightarrow> ('u \<times> string) list" where
  "registered_rows p ids d =
     map (\<lambda>r. (rr_batch_id r, rr_body_sha r))
       (filter (\<lambda>r. col_product r = p \<and> rr_record_id r \<in> set ids) (record_registry d))"

definition register_records_v2 ::
  "'u store_config \<Rightarrow> validated_batch \<Rightarrow> string \<Rightarrow> time \<Rightarrow> ('u, unit) store_action" where
  "register_records_v2 cfg b sha t =
     seq (lift (traverse (must_parse cfg) (record_ids b))) (\<lambda>ids.
     seq (wrapping ''query v2 record registry''
       (query (registered_rows (product_id (header_scope (header b))) ids))) (\<lambda>rows.
     seq (lift (must_parse cfg (batch_id (header b)))) (\<lambda>batch.
     seq (fail_if (list_ex (\<lambda>(existing_batch, existing_sha). existing_batch \<noteq> batch \<or> existing_sha \<noteq> sha) rows)
       ErrDuplicateRecord) (\<lambda>_.
     prepare_and_send ''prepare v2 record registry'' ''send v2 record registry''
       (Inr (map (registry_row_of b sha (column_time cfg t) batch) ids)) record_registry_update))))"

subsection \<open>InsertV2\<close>

definition insert_stream_v2 :: "'u store_config \<Rightarrow> validated_batch \<Rightarrow> time \<Rightarrow> ('u, unit) store_action" where
  "insert_stream_v2 cfg b t =
     (let strm = stream (header b) in
      if strm = ''common'' then insert_common_v2 cfg b t
      else if strm = ''technical'' then insert_technical_v2 cfg b t
      else if strm = ''plays'' then insert_plays_v2 cfg b t
      else if strm = ''product'' then insert_product_v2 cfg b t
      else if strm = ''outcome'' then insert_outcome_v2 cfg b t
      else fail (Err ''unsupported validated stream''))"

definition complete_batch_v2 ::
  "'u store_config \<Rightarrow> validated_batch \<Rightarrow> string \<Rightarrow> time \<Rightarrow> ('u, ingest_result) store_action" where
  "complete_batch_v2 cfg b sha ingested =
     seq (register_records_v2 cfg b sha ingested) (\<lambda>_.
     seq (insert_stream_v2 cfg b ingested) (\<lambda>_.
     seq time_now (\<lambda>t.
       let now_ms = truncate_to t millisecond;
           completed = (if \<not> now_ms > ingested then ingested + millisecond else now_ms)
       in seq (insert_batch_ledger_v2 cfg b sha completed ''completed'') (\<lambda>_.
            ret \<lparr>result_count = record_count b, result_replayed = False\<rparr>))))"

definition insert_v2 ::
  "'u store_config \<Rightarrow> validated_batch \<Rightarrow> string \<Rightarrow> ('u, ingest_result) store_action" where
  "insert_v2 cfg b sha =
     (let sc = header_scope (header b) in
      seq (batch_ledger_v2 cfg (product_id sc) (batch_id (header b))) (\<lambda>found.
        case found of
          Some (existing_sha, status, reserved_at) \<Rightarrow>
            if existing_sha \<noteq> sha then fail ErrIdempotencyConflict
            else if status = ''completed'' then
              ret \<lparr>result_count = record_count b, result_replayed = True\<rparr>
            else if status \<noteq> ''reserved'' then fail (Err ''invalid v2 batch ledger status'')
            else
              seq (is_suppressed sc (product_key b)) (\<lambda>suppressed.
                if suppressed then fail ErrSuppressed else complete_batch_v2 cfg b sha reserved_at)
        | None \<Rightarrow>
            seq (is_suppressed sc (product_key b)) (\<lambda>suppressed.
              if suppressed then fail ErrSuppressed
              else
                seq time_now (\<lambda>t.
                  let ingested = truncate_to t millisecond
                  in seq (insert_batch_ledger_v2 cfg b sha ingested ''reserved'') (\<lambda>_.
                       complete_batch_v2 cfg b sha ingested)))))"

end
