(* ===== verification/Store_V2_Retries.thy ===== *)
theory Store_V2_Retries
  imports Store_V2
begin

section \<open>InsertV2 through retries\<close>

text \<open>
  What an undisturbed InsertV2 writes for a batch reserved at a time (\<open>batch_write\<close>), and that the
  rows which attempts of it append, broken or not, are always among those; an attempt that returns
  has appended all of them. \<open>attempted\<close> is the state between attempts, \<open>finished\<close> the state after.
\<close>

definition batch_write ::
  "'u store_config \<Rightarrow> validated_batch \<Rightarrow> string \<Rightarrow> time \<Rightarrow> 'u tables result" where
  "batch_write cfg b sha t =
     andthen (must_parse cfg (batch_id (header b))) (\<lambda>u.
     andthen (traverse (must_parse cfg) (record_ids b)) (\<lambda>ids.
     andthen (traverse (common_row_of cfg b t) (common_records b)) (\<lambda>cs.
     andthen (traverse (technical_row_of cfg b t) (technical_records b)) (\<lambda>ts.
     andthen (traverse (plays_row_of cfg b t) (plays_records b)) (\<lambda>ps.
     andthen (traverse (product_row_of cfg b t) (product_records b)) (\<lambda>es.
     andthen (traverse (outcome_row_of cfg b t) (outcome_records b)) (\<lambda>os.
       Inr (no_rows\<lparr>record_registry := map (registry_row_of b sha (column_time cfg t) u) ids,
         common_events := cs, technical_events := ts, plays_events := ps, product_events := es,
         product_outcomes := os\<rparr>))))))))"

text \<open>Rows of the six tables that an attempt fills; no other table is touched but the ledger.\<close>

definition within :: "'u tables \<Rightarrow> 'u tables \<Rightarrow> bool" where
  "within v w \<longleftrightarrow>
     set (record_registry v) \<subseteq> set (record_registry w) \<and> set (common_events v) \<subseteq> set (common_events w)
     \<and> set (technical_events v) \<subseteq> set (technical_events w) \<and> set (plays_events v) \<subseteq> set (plays_events w)
     \<and> set (product_events v) \<subseteq> set (product_events w) \<and> set (product_outcomes v) \<subseteq> set (product_outcomes w)"

definition telemetry_only :: "'u tables \<Rightarrow> bool" where
  "telemetry_only v \<longleftrightarrow>
     suppressions v = [] \<and> deletion_progress v = [] \<and> v1_events v = [] \<and> v1_summaries v = []
     \<and> fundraising_ledger v = [] \<and> fundraising_events v = []"

lemma within_refl [simp]: "within v v"
  by (simp add: within_def)

lemma within_no_rows [simp]: "within no_rows w"
  by (simp add: within_def no_rows_def)

lemma within_appended: "within (appended v v') w \<longleftrightarrow> within v w \<and> within v' w"
  by (auto simp: within_def appended_def)

lemma within_appendedI: "within w v \<or> within w v' \<Longrightarrow> within w (appended v v')"
  by (auto simp: within_def appended_def)

lemma within_trans: "within u v \<Longrightarrow> within v w \<Longrightarrow> within u w"
  by (auto simp: within_def)

lemma telemetry_only_appended [simp]: "telemetry_only (appended v w) \<longleftrightarrow> telemetry_only v \<and> telemetry_only w"
  by (auto simp: telemetry_only_def appended_def)

lemma telemetry_only_no_rows [simp]: "telemetry_only no_rows"
  by (simp add: telemetry_only_def no_rows_def)

subsection \<open>One stream\<close>

definition one_stream :: "validated_batch \<Rightarrow> bool" where
  "one_stream b \<longleftrightarrow>
     stream (header b) \<in> {StreamCommon, StreamTechnical, StreamPlays, StreamProduct, StreamOutcome}
     \<and> (stream (header b) \<noteq> StreamCommon \<longrightarrow> common_records b = [])
     \<and> (stream (header b) \<noteq> StreamTechnical \<longrightarrow> technical_records b = [])
     \<and> (stream (header b) \<noteq> StreamPlays \<longrightarrow> plays_records b = [])
     \<and> (stream (header b) \<noteq> StreamProduct \<longrightarrow> product_records b = [])
     \<and> (stream (header b) \<noteq> StreamOutcome \<longrightarrow> outcome_records b = [])"

definition events_of :: "'u tables \<Rightarrow> 'u tables" where
  "events_of w = w\<lparr>record_registry := []\<rparr>"

definition registry_of :: "'u tables \<Rightarrow> 'u tables" where
  "registry_of w = no_rows\<lparr>record_registry := record_registry w\<rparr>"

lemma write_parts: "within (registry_of w) w" "within (events_of w) w"
  by (simp_all add: within_def registry_of_def events_of_def no_rows_def)

lemma send_adds:
  assumes "\<And>rs. upd (\<lambda>t. t @ rs) d = appended d (tab rs)" and "tab [] = no_rows" and "rows = Inr R"
    and "\<And>rs. set rs \<subseteq> set R \<Longrightarrow> E (tab rs)"
  shows "adds d (prepare_and_send pm sm rows upd) (\<lambda>_ v. v = tab R) E"
proof (rule adds_post [OF adds_prepare_and_send [where tab = tab and upd = upd]])
  have "E (tab [])" using assms(4) [of "[]"] by simp
  then show "\<exists>R. (rows = Inr R \<or> R = []) \<and> (\<exists>n. w = tab (take n R)) \<Longrightarrow> E w" for w
    using assms(3) assms(4) [OF set_take_subset] by auto
qed (use assms in auto)

lemma insert_stream_adds:
  assumes "one_stream b" and "batch_write cfg b sha t = Inr w"
  shows "adds d (insert_stream_v2 cfg b t)
    (\<lambda>_ v. v = events_of w) (\<lambda>v. within v w \<and> telemetry_only v \<and> ingest_batches v = [])"
proof -
  have w: "traverse (common_row_of cfg b t) (common_records b) = Inr (common_events w)"
    "traverse (technical_row_of cfg b t) (technical_records b) = Inr (technical_events w)"
    "traverse (plays_row_of cfg b t) (plays_records b) = Inr (plays_events w)"
    "traverse (product_row_of cfg b t) (product_records b) = Inr (product_events w)"
    "traverse (outcome_row_of cfg b t) (outcome_records b) = Inr (product_outcomes w)"
    and e: "ingest_batches w = []" "suppressions w = []" "deletion_progress w = []" "v1_events w = []"
      "v1_summaries w = []" "fundraising_ledger w = []" "fundraising_events w = []"
    using assms(2) by (auto simp: batch_write_def andthen_Inr no_rows_def)
  have empty: "rs = []" if "traverse f [] = Inr rs" for f :: "'x \<Rightarrow> 'y result" and rs using that by simp
  note names = StreamCommon_def StreamTechnical_def StreamPlays_def StreamProduct_def StreamOutcome_def
  consider "stream (header b) = ''common''" | "stream (header b) = ''technical''"
    | "stream (header b) = ''plays''" | "stream (header b) = ''product''" | "stream (header b) = ''outcome''"
    using assms(1) by (auto simp: one_stream_def names)
  then show ?thesis
  proof cases
    case 1
    with assms(1) w have "technical_events w = []" "plays_events w = []" "product_events w = []"
      "product_outcomes w = []" by (auto simp: one_stream_def names)
    then have ev: "events_of w = no_rows\<lparr>common_events := common_events w\<rparr>"
      using e by (cases w) (simp add: events_of_def no_rows_def)
    show ?thesis unfolding insert_stream_v2_def 1 insert_common_v2_def w(1) ev
      by (simp, rule send_adds [where tab = "\<lambda>rs. no_rows\<lparr>common_events := rs\<rparr>"])
        (auto simp: appended_def no_rows_def within_def telemetry_only_def)
  next
    case 2
    with assms(1) w have "common_events w = []" "plays_events w = []" "product_events w = []"
      "product_outcomes w = []" by (auto simp: one_stream_def names)
    then have ev: "events_of w = no_rows\<lparr>technical_events := technical_events w\<rparr>"
      using e by (cases w) (simp add: events_of_def no_rows_def)
    show ?thesis unfolding insert_stream_v2_def 2 insert_technical_v2_def w(2) ev
      by (simp, rule send_adds [where tab = "\<lambda>rs. no_rows\<lparr>technical_events := rs\<rparr>"])
        (auto simp: appended_def no_rows_def within_def telemetry_only_def)
  next
    case 3
    with assms(1) w have "common_events w = []" "technical_events w = []" "product_events w = []"
      "product_outcomes w = []" by (auto simp: one_stream_def names)
    then have ev: "events_of w = no_rows\<lparr>plays_events := plays_events w\<rparr>"
      using e by (cases w) (simp add: events_of_def no_rows_def)
    show ?thesis unfolding insert_stream_v2_def 3 insert_plays_v2_def w(3) ev
      by (simp, rule send_adds [where tab = "\<lambda>rs. no_rows\<lparr>plays_events := rs\<rparr>"])
        (auto simp: appended_def no_rows_def within_def telemetry_only_def)
  next
    case 4
    with assms(1) w have "common_events w = []" "technical_events w = []" "plays_events w = []"
      "product_outcomes w = []" by (auto simp: one_stream_def names)
    then have ev: "events_of w = no_rows\<lparr>product_events := product_events w\<rparr>"
      using e by (cases w) (simp add: events_of_def no_rows_def)
    show ?thesis unfolding insert_stream_v2_def 4 insert_product_v2_def w(4) ev
      by (simp, rule send_adds [where tab = "\<lambda>rs. no_rows\<lparr>product_events := rs\<rparr>"])
        (auto simp: appended_def no_rows_def within_def telemetry_only_def)
  next
    case 5
    with assms(1) w have "common_events w = []" "technical_events w = []" "plays_events w = []"
      "product_events w = []" by (auto simp: one_stream_def names)
    then have ev: "events_of w = no_rows\<lparr>product_outcomes := product_outcomes w\<rparr>"
      using e by (cases w) (simp add: events_of_def no_rows_def)
    show ?thesis unfolding insert_stream_v2_def 5 insert_outcome_v2_def w(5) ev
      by (simp, rule send_adds [where tab = "\<lambda>rs. no_rows\<lparr>product_outcomes := rs\<rparr>"])
        (auto simp: appended_def no_rows_def within_def telemetry_only_def)
  qed
qed

subsection \<open>The steps of an attempt\<close>

text \<open>The check of the registry: the IDs of the batch are its own or unused.\<close>

definition free_ids :: "'u tables \<Rightarrow> string \<Rightarrow> 'u list \<Rightarrow> 'u \<Rightarrow> string \<Rightarrow> bool" where
  "free_ids d p ids u sha \<longleftrightarrow>
     (\<forall>r \<in> set (record_registry d). col_product r = p \<and> rr_record_id r \<in> set ids
        \<longrightarrow> rr_batch_id r = u \<and> rr_body_sha r = sha)"

lemma free_ids_registered:
  "list_ex (\<lambda>(x, y). x \<noteq> u \<or> y \<noteq> sha) (registered_rows p ids d) \<longleftrightarrow> \<not> free_ids d p ids u sha"
  by (auto simp: list_ex_iff registered_rows_def free_ids_def)

lemma free_ids_appended: "free_ids (appended d v) p ids u sha \<Longrightarrow> free_ids d p ids u sha"
  by (auto simp: free_ids_def appended_def)

definition own_ids :: "'u store_config \<Rightarrow> validated_batch \<Rightarrow> 'u \<Rightarrow> string \<Rightarrow> 'u tables \<Rightarrow> bool" where
  "own_ids cfg b u sha d \<longleftrightarrow>
     (\<exists>ids. traverse (must_parse cfg) (record_ids b) = Inr ids
        \<and> free_ids d (product_id (header_scope (header b))) ids u sha)"

lemma register_adds:
  fixes d :: "'u tables"
  assumes "batch_write cfg b sha t = Inr w" and u: "must_parse cfg (batch_id (header b)) = Inr u"
  shows "adds d (register_records_v2 cfg b sha t) (\<lambda>_ v. v = registry_of w \<and> own_ids cfg b u sha d)
    (\<lambda>v. within v w \<and> telemetry_only v \<and> ingest_batches v = [])"
proof -
  from assms obtain ids where ids: "traverse (must_parse cfg) (record_ids b) = Inr ids"
    and reg: "record_registry w = map (registry_row_of b sha (column_time cfg t) u) ids"
    by (auto simp: batch_write_def andthen_Inr no_rows_def)
  let ?p = "product_id (header_scope (header b))"
  have send: "adds d (prepare_and_send pm sm (Inr (record_registry w)) record_registry_update)
      (\<lambda>_ v. v = registry_of w) (\<lambda>v. within v w \<and> telemetry_only v \<and> ingest_batches v = [])" for pm sm
    unfolding registry_of_def
    by (rule send_adds [where tab = "\<lambda>rs. no_rows\<lparr>record_registry := rs\<rparr>"])
      (auto simp: appended_def no_rows_def within_def telemetry_only_def)
  have none: "within no_rows w \<and> telemetry_only no_rows \<and> ingest_batches no_rows = []"
    by (simp add: no_rows_def within_def telemetry_only_def)
  show ?thesis
    unfolding register_records_v2_def ids u action_simps reg [symmetric]
  proof (rule adds_seq [OF adds_wrapping [OF adds_nothing(4)]])
    fix x and v :: "'u tables" assume x: "x = registered_rows ?p ids d \<and> v = no_rows"
    then have v: "appended d v = d" by simp
    show "adds (appended d v) (seq (fail_if (list_ex (\<lambda>(existing_batch, existing_sha).
        existing_batch \<noteq> u \<or> existing_sha \<noteq> sha) x) ErrDuplicateRecord) (\<lambda>_. prepare_and_send
          ''prepare v2 record registry'' ''send v2 record registry'' (Inr (record_registry w)) record_registry_update))
      (\<lambda>_ v. v = registry_of w \<and> own_ids cfg b u sha d)
      (\<lambda>v. within v w \<and> telemetry_only v \<and> ingest_batches v = [])"
      unfolding v
    proof (rule adds_seq [OF adds_nothing(5)])
      fix y and v' :: "'u tables"
      assume "\<not> list_ex (\<lambda>(existing_batch, existing_sha). existing_batch \<noteq> u \<or> existing_sha \<noteq> sha) x \<and> v' = no_rows"
      with x have "free_ids d ?p ids u sha" "appended d v' = d"
        by (simp_all only: free_ids_registered not_not appended_simps)
      with ids have "own_ids cfg b u sha d" "appended d v' = d" by (auto simp: own_ids_def)
      then show "adds (appended d v') (prepare_and_send ''prepare v2 record registry''
          ''send v2 record registry'' (Inr (record_registry w)) record_registry_update)
        (\<lambda>_ v. v = registry_of w \<and> own_ids cfg b u sha d)
        (\<lambda>v. within v w \<and> telemetry_only v \<and> ingest_batches v = [])"
        using adds_post [OF send] by simp
    qed (use none in auto)
  qed (use none in auto)
qed

text \<open>What completing an attempt at a time appends to the ledger, and when.\<close>

definition ledger_part ::
  "'u store_config \<Rightarrow> validated_batch \<Rightarrow> string \<Rightarrow> 'u \<Rightarrow> time \<Rightarrow> 'u tables \<Rightarrow> bool \<Rightarrow> 'u tables \<Rightarrow> bool" where
  "ledger_part cfg b sha u t w free v \<longleftrightarrow>
     (\<forall>l \<in> set (ingest_batches v). \<exists>t2 > t. l = ledger_row_of cfg b sha t2 ''completed'' u \<and> within w v \<and> free)"

text \<open>
  The first attempt writes its rows at the time t of the reservation. A retry reads that time back
  from the ledger, as binding left it, so its rows are those of \<open>exec_time cfg t\<close>: w and x are what
  one insert writes at either time.
\<close>

definition writes_at ::
  "'u store_config \<Rightarrow> validated_batch \<Rightarrow> string \<Rightarrow> time \<Rightarrow> 'u tables \<Rightarrow> 'u tables \<Rightarrow> bool" where
  "writes_at cfg b sha t w x \<longleftrightarrow>
     batch_write cfg b sha t = Inr w \<and> batch_write cfg b sha (exec_time cfg t) = Inr x"

definition completion_row ::
  "'u store_config \<Rightarrow> validated_batch \<Rightarrow> string \<Rightarrow> 'u \<Rightarrow> time \<Rightarrow> 'u ledger_row \<Rightarrow> bool" where
  "completion_row cfg b sha u t l \<longleftrightarrow>
     (\<exists>t2. exec_time cfg t \<le> exec_time cfg t2 \<and> l = ledger_row_of cfg b sha t2 ''completed'' u)"

definition attempted ::
  "'u store_config \<Rightarrow> validated_batch \<Rightarrow> string \<Rightarrow> 'u \<Rightarrow> time \<Rightarrow> 'u tables \<Rightarrow> 'u tables \<Rightarrow> bool \<Rightarrow> 'u tables \<Rightarrow> bool" where
  "attempted cfg b sha u t w x free v \<longleftrightarrow>
     writes_at cfg b sha t w x \<and> within v (appended w x) \<and> telemetry_only v
     \<and> (\<exists>cs. ingest_batches v = ledger_row_of cfg b sha t ''reserved'' u # cs
          \<and> (\<forall>l \<in> set cs. completion_row cfg b sha u t l)
          \<and> (cs \<noteq> [] \<longrightarrow> (within w v \<or> within x v) \<and> free))"

definition finished ::
  "'u store_config \<Rightarrow> validated_batch \<Rightarrow> string \<Rightarrow> 'u \<Rightarrow> time \<Rightarrow> 'u tables \<Rightarrow> 'u tables \<Rightarrow> bool \<Rightarrow> 'u tables \<Rightarrow> bool" where
  "finished cfg b sha u t w x free v \<longleftrightarrow>
     attempted cfg b sha u t w x free v \<and> (within w v \<or> within x v) \<and> free
     \<and> (\<exists>l \<in> set (ingest_batches v). lr_status l = ''completed'')"

lemma attempted_appended:
  assumes "ordered_driver cfg" and a: "attempted cfg b sha u t w x free v"
    and "(s, y) = (t, w) \<or> (s, y) = (exec_time cfg t, x)"
    and v': "within v' y" "telemetry_only v'" "ledger_part cfg b sha u s y free v'"
  shows "attempted cfg b sha u t w x free (appended v v')"
proof -
  have s: "exec_time cfg s = exec_time cfg t" and y: "within y (appended w x)" "within y v'' \<Longrightarrow> within w v'' \<or> within x v''" for v''
    using assms(3) ordered_driverD(2) [OF assms(1)] by (auto intro: within_appendedI)
  from a obtain cs where w: "writes_at cfg b sha t w x" "within v (appended w x)" "telemetry_only v"
    and cs: "ingest_batches v = ledger_row_of cfg b sha t ''reserved'' u # cs" "\<forall>l \<in> set cs. completion_row cfg b sha u t l"
      "cs \<noteq> [] \<longrightarrow> (within w v \<or> within x v) \<and> free"
    by (auto simp: attempted_def)
  have new: "completion_row cfg b sha u t l \<and> within y v' \<and> free" if "l \<in> set (ingest_batches v')" for l
  proof -
    from v'(3) that obtain t2 where t2: "s < t2" "l = ledger_row_of cfg b sha t2 ''completed'' u" "within y v'" free
      by (auto simp: ledger_part_def)
    with ordered_driverD(1) [OF assms(1), of s t2] s show ?thesis by (auto simp: completion_row_def)
  qed
  have "(within w (appended v v') \<or> within x (appended v v')) \<and> free" if "cs @ ingest_batches v' \<noteq> []"
  proof (cases "cs = []")
    case True
    with that obtain l where "l \<in> set (ingest_batches v')" by (cases "ingest_batches v'") auto
    from new [OF this] y(2) [of "appended v v'"] show ?thesis by (simp add: within_appendedI)
  next
    case False
    with cs(3) show ?thesis by (auto intro: within_appendedI)
  qed
  moreover have "\<forall>l \<in> set (cs @ ingest_batches v'). completion_row cfg b sha u t l" using cs(2) new by auto
  moreover have "ingest_batches (appended v v') = ledger_row_of cfg b sha t ''reserved'' u # (cs @ ingest_batches v')"
    by (simp add: appended_def cs(1))
  moreover have "within (appended v v') (appended w x)"
    using w(2) within_trans [OF v'(1) y(1)] by (simp add: within_appended)
  ultimately show ?thesis using w v'(2) unfolding attempted_def by auto
qed

lemma insert_ledger_adds:
  assumes "must_parse cfg (batch_id (header b)) = Inr u"
  shows "adds d (insert_batch_ledger_v2 cfg b sha t status)
    (\<lambda>_ v. v = no_rows\<lparr>ingest_batches := [ledger_row_of cfg b sha t status u]\<rparr>)
    (\<lambda>v. v = no_rows \<or> v = no_rows\<lparr>ingest_batches := [ledger_row_of cfg b sha t status u]\<rparr>)"
proof -
  let ?l = "ledger_row_of cfg b sha t status u"
  have "adds d (exec (\<lambda>part. ingest_batches_update (insert_rows [?l] part)))
    (\<lambda>_ x. x = no_rows\<lparr>ingest_batches := insert_rows [?l] None []\<rparr>)
    (\<lambda>x. \<exists>n. x = no_rows\<lparr>ingest_batches := insert_rows [?l] (Some n) []\<rparr>)"
    by (rule adds_exec) (auto simp: appended_def no_rows_def insert_rows_def)
  then show ?thesis
    unfolding insert_batch_ledger_v2_def assms action_simps
    by (intro adds_wrapping) (erule adds_post, auto simp: insert_rows_def no_rows_def take_Cons' split: if_splits)
qed

text \<open>The time of completion is later than that of the reservation.\<close>

definition completion_time :: "time \<Rightarrow> time \<Rightarrow> time" where
  "completion_time t x =
     (if \<not> truncate_to x millisecond > t then t + millisecond else truncate_to x millisecond)"

lemma completion_time_later: "t < completion_time t x"
  by (simp add: completion_time_def) (simp add: duration_defs)

definition completed_only :: "'u store_config \<Rightarrow> validated_batch \<Rightarrow> string \<Rightarrow> 'u \<Rightarrow> time \<Rightarrow> 'u tables" where
  "completed_only cfg b sha u t2 = no_rows\<lparr>ingest_batches := [ledger_row_of cfg b sha t2 ''completed'' u]\<rparr>"

lemma mark_completed_adds:
  fixes d :: "'u tables"
  assumes "must_parse cfg (batch_id (header b)) = Inr u"
  shows "adds d (seq time_now (\<lambda>x. seq (insert_batch_ledger_v2 cfg b sha (completion_time t x) ''completed'') (\<lambda>_. ret res)))
    (\<lambda>r v. r = res \<and> (\<exists>t2 > t. v = completed_only cfg b sha u t2))
    (\<lambda>v. v = no_rows \<or> (\<exists>t2 > t. v = completed_only cfg b sha u t2))"
proof (rule adds_seq [OF adds_nothing(3)])
  fix x and v :: "'u tables"
  show "adds (appended d v) (seq (insert_batch_ledger_v2 cfg b sha (completion_time t x) ''completed'') (\<lambda>_. ret res))
    (\<lambda>r v. r = res \<and> v = completed_only cfg b sha u (completion_time t x))
    (\<lambda>v. v = no_rows \<or> v = completed_only cfg b sha u (completion_time t x))"
    unfolding completed_only_def
    by (rule adds_seq [OF insert_ledger_adds [OF assms(1)] adds_nothing(1) [of _ _ "\<lambda>_. False"]]) auto
qed (use completion_time_later in auto)

lemma complete_adds:
  fixes d :: "'u tables"
  assumes w: "batch_write cfg b sha t = Inr w" and u: "must_parse cfg (batch_id (header b)) = Inr u"
    and "one_stream b" and free: "own_ids cfg b u sha d \<longrightarrow> free"
  shows "adds d (complete_batch_v2 cfg b sha t)
    (\<lambda>r v. r = \<lparr>result_count = record_count b, result_replayed = False\<rparr> \<and> within v w \<and> within w v
       \<and> telemetry_only v \<and> ledger_part cfg b sha u t w free v \<and> free
       \<and> (\<exists>l \<in> set (ingest_batches v). lr_status l = ''completed''))
    (\<lambda>v. within v w \<and> telemetry_only v \<and> ledger_part cfg b sha u t w free v)"
    (is "adds d _ ?Q ?E")
proof -
  have e: "ingest_batches w = []" "telemetry_only w"
    using w by (auto simp: batch_write_def andthen_Inr no_rows_def telemetry_only_def)
  have parts: "within (registry_of w) w" "within (events_of w) w" "telemetry_only (registry_of w)"
      "telemetry_only (events_of w)" "ingest_batches (registry_of w) = []" "ingest_batches (events_of w) = []"
      "within w (appended (registry_of w) (appended (events_of w) x))" for x
    using e by (auto simp: within_def telemetry_only_def registry_of_def events_of_def no_rows_def appended_def)
  have nol: "ingest_batches v = [] \<Longrightarrow> ledger_part cfg b sha u t w free v" for v
    by (simp add: ledger_part_def)
  let ?l = "completed_only cfg b sha u"
  let ?res = "\<lparr>result_count = record_count b, result_replayed = False\<rparr>"
  have l: "within (?l t2) w \<and> telemetry_only (?l t2)" for t2
    by (simp add: within_def telemetry_only_def no_rows_def completed_only_def)
  have whole: "?Q ?res (appended (registry_of w) (appended (events_of w) (?l t2)))"
    if "t2 > t" free for t2
  proof -
    have i: "ingest_batches (appended (registry_of w) (appended (events_of w) (?l t2)))
        = [ledger_row_of cfg b sha t2 ''completed'' u]"
      using parts(5,6) by (simp add: appended_def completed_only_def no_rows_def)
    moreover have "lr_status (ledger_row_of cfg b sha t2 ''completed'' u) = ''completed''"
      by (simp add: ledger_row_of_def scope_columns.defs ledger_row.defs)
    ultimately show ?thesis
      using that parts l [of t2] by (auto simp: within_appended ledger_part_def)
  qed
  show ?thesis
    unfolding complete_batch_v2_def Let_def completion_time_def [symmetric]
  proof (rule adds_seq [OF register_adds [OF w u]])
    fix x and v :: "'u tables" assume v: "v = registry_of w \<and> own_ids cfg b u sha d"
    show "adds (appended d v) (seq (insert_stream_v2 cfg b t) (\<lambda>_. seq time_now (\<lambda>x.
        seq (insert_batch_ledger_v2 cfg b sha (completion_time t x) ''completed'') (\<lambda>_. ret ?res))))
      (\<lambda>r v'. ?Q r (appended (registry_of w) v'))
      (\<lambda>v'. (within v' w \<and> telemetry_only v' \<and> ingest_batches v' = [])
        \<or> (\<exists>t2 > t. v' = appended (events_of w) (?l t2)))"
    proof (rule adds_seq [OF insert_stream_adds [OF assms(3) w] mark_completed_adds [OF u]])
      fix y v' r v''
      assume "v' = events_of w" and "r = ?res \<and> (\<exists>t2 > t. v'' = ?l t2)"
      then obtain t2 where t2: "t2 > t" "v'' = ?l t2" "v' = events_of w" "r = ?res"
        by (elim conjE exE) simp
      have free using v free by blast
      then show "?Q r (appended (registry_of w) (appended v' v''))"
        unfolding t2(2-4) by (rule whole [OF t2(1)])
    next
      fix x and v' v'' :: "'u tables"
      assume "v' = events_of w" and "v'' = no_rows \<or> (\<exists>t2 > t. v'' = ?l t2)"
      then show "(within (appended v' v'') w \<and> telemetry_only (appended v' v'') \<and> ingest_batches (appended v' v'') = [])
        \<or> (\<exists>t2 > t. appended v' v'' = appended (events_of w) (?l t2))"
        using parts(2,4,6) by auto
    qed simp
  next
    fix x and v v' :: "'u tables"
    assume v: "v = registry_of w \<and> own_ids cfg b u sha d"
      and "(within v' w \<and> telemetry_only v' \<and> ingest_batches v' = [])
        \<or> (\<exists>t2 > t. v' = appended (events_of w) (?l t2))"
    from this(2) show "?E (appended v v')"
    proof (elim disjE exE conjE)
      assume 1: "within v' w" "telemetry_only v'" "ingest_batches v' = []"
      with v parts(5) have "ingest_batches (appended v v') = []" by (simp add: appended_def)
      with 1 v parts(1,3) nol show ?thesis by (simp add: within_appended)
    next
      fix t2 assume 2: "t2 > t" "v' = appended (events_of w) (?l t2)"
      from v free have free by blast
      from whole [OF 2(1) this] v show ?thesis unfolding 2(2) by blast
    qed
  qed (use nol in auto)
qed

subsection \<open>An attempt\<close>

definition tried :: "'u store_config \<Rightarrow> validated_batch \<Rightarrow> string \<Rightarrow> 'u \<Rightarrow> 'u tables \<Rightarrow> 'u tables \<Rightarrow> bool" where
  "tried cfg b sha u d0 d \<longleftrightarrow>
     d = d0 \<or> (\<exists>t w x v. d = appended d0 v \<and> attempted cfg b sha u t w x (own_ids cfg b u sha d0) v)"

definition stored :: "'u store_config \<Rightarrow> validated_batch \<Rightarrow> string \<Rightarrow> 'u \<Rightarrow> 'u tables \<Rightarrow> 'u tables \<Rightarrow> bool" where
  "stored cfg b sha u d0 d \<longleftrightarrow>
     (\<exists>t w x v. d = appended d0 v \<and> finished cfg b sha u t w x (own_ids cfg b u sha d0) v)"

lemma stored_tried: "stored cfg b sha u d0 d \<Longrightarrow> tried cfg b sha u d0 d"
  unfolding stored_def tried_def finished_def by blast

definition unreserved :: "validated_batch \<Rightarrow> 'u \<Rightarrow> 'u tables \<Rightarrow> bool" where
  "unreserved b u d \<longleftrightarrow>
     newest ledger_key lr_ingested_at (ingest_batches d) (product_id (header_scope (header b)), u) = None"

lemma ledger_row_simps [simp]:
  "ledger_key (ledger_row_of cfg b sha t status u) = (product_id (header_scope (header b)), u)"
  "lr_body_sha (ledger_row_of cfg b sha t status u) = sha"
  "lr_status (ledger_row_of cfg b sha t status u) = status"
  "lr_ingested_at (ledger_row_of cfg b sha t status u) = exec_time cfg t"
  by (simp_all add: ledger_row_of_def ledger_key_def scope_columns.defs ledger_row.defs batch_columns_def Let_def)

lemma newest_run:
  assumes "k \<notin> key ` set rows" and "key r = k" and "\<forall>c \<in> set cs. key c = k \<and> ver r \<le> ver c"
  shows "\<exists>l. newest key ver (rows @ r # cs) k = Some l \<and> (if cs = [] then l = r else l \<in> set cs)"
  using assms(3)
proof (induction cs rule: rev_induct)
  case Nil
  from assms(1) have "newest key ver rows k = None" by (simp add: newest_None)
  with assms(2) show ?case by (simp add: newest_append)
next
  case (snoc c cs)
  then obtain l where "newest key ver (rows @ r # cs) k = Some l" "if cs = [] then l = r else l \<in> set cs" by auto
  with snoc.prems newest_append [of key ver "rows @ r # cs" c k] show ?case by (auto split: if_splits)
qed

lemma ledger_read:
  assumes "ordered_driver cfg" and fresh: "unreserved b u d0" and a: "attempted cfg b sha u t w x free v"
  obtains l where "newest ledger_key lr_ingested_at (ingest_batches (appended d0 v))
        (product_id (header_scope (header b)), u) = Some l" "lr_body_sha l = sha"
    "lr_status l = ''reserved'' \<and> lr_ingested_at l = exec_time cfg t \<and> (\<forall>c \<in> set (ingest_batches v). lr_status c \<noteq> ''completed'')
     \<or> lr_status l = ''completed'' \<and> (within w v \<or> within x v) \<and> free"
proof -
  let ?k = "(product_id (header_scope (header b)), u)" and ?r = "ledger_row_of cfg b sha t ''reserved'' u"
  from a obtain cs where cs: "ingest_batches v = ?r # cs" "\<forall>l \<in> set cs. completion_row cfg b sha u t l"
      "cs \<noteq> [] \<longrightarrow> (within w v \<or> within x v) \<and> free" by (auto simp: attempted_def)
  from cs(2) have all: "\<forall>c \<in> set cs. ledger_key c = ?k \<and> lr_ingested_at ?r \<le> lr_ingested_at c"
    and c: "\<forall>c \<in> set cs. lr_body_sha c = sha \<and> lr_status c = ''completed''"
    by (auto simp: completion_row_def)
  have "ledger_key ?r = ?k" "?k \<notin> ledger_key ` set (ingest_batches d0)"
    using fresh by (simp_all add: unreserved_def newest_None)
  from newest_run [OF this(2,1) all] obtain l where
    "newest ledger_key lr_ingested_at (ingest_batches (appended d0 v)) ?k = Some l" "if cs = [] then l = ?r else l \<in> set cs"
    by (auto simp: appended_def cs(1))
  with that c cs(1,3) show thesis by (auto split: if_splits)
qed

lemma own_ids_appended: "own_ids cfg b u sha (appended d v) \<Longrightarrow> own_ids cfg b u sha d"
  by (auto simp: own_ids_def dest: free_ids_appended)

lemma resume_attempt:
  assumes drv: "ordered_driver cfg" and u: "must_parse cfg (batch_id (header b)) = Inr u" and "one_stream b"
    and a: "attempted cfg b sha u t w x (own_ids cfg b u sha d0) v"
    and at: "(t', y) = (t, w) \<or> (t', y) = (exec_time cfg t, x)"
  shows "valid (\<lambda>s. db s = appended d0 v) (complete_batch_v2 cfg b sha t')
    (\<lambda>r s. stored cfg b sha u d0 (db s) \<and> r = \<lparr>result_count = record_count b, result_replayed = False\<rparr>)
    (\<lambda>_ s. tried cfg b sha u d0 (db s))"
proof -
  from a at have w: "batch_write cfg b sha t' = Inr y" by (auto simp: attempted_def writes_at_def)
  have free: "own_ids cfg b u sha (appended d0 v) \<longrightarrow> own_ids cfg b u sha d0"
    by (intro impI, erule own_ids_appended)
  note part = attempted_appended [OF drv a at]
  show ?thesis
  proof (rule valid_post [OF complete_adds [OF w u assms(3) free, unfolded adds_def]], goal_cases)
    case (1 r s)
    then obtain v' where v': "db s = appended (appended d0 v) v'" "within v' y" "within y v'" "telemetry_only v'"
        "ledger_part cfg b sha u t' y (own_ids cfg b u sha d0) v'" "own_ids cfg b u sha d0"
        "\<exists>l \<in> set (ingest_batches v'). lr_status l = ''completed''"
        "r = \<lparr>result_count = record_count b, result_replayed = False\<rparr>" by (elim exE conjE) simp
    have "\<exists>l \<in> set (ingest_batches (appended v v')). lr_status l = ''completed''"
      using v'(7) by (auto simp: appended_def)
    moreover have "within w (appended v v') \<or> within x (appended v v')"
      using v'(3) at by (auto intro: within_appendedI)
    ultimately have "finished cfg b sha u t w x (own_ids cfg b u sha d0) (appended v v')"
      using part [OF v'(2,4,5)] v'(6) by (simp add: finished_def)
    with v'(1,8) show ?case unfolding stored_def appended_assoc by blast
  next
    case (2 e s)
    then obtain v' where "db s = appended (appended d0 v) v'" "within v' y" "telemetry_only v'"
        "ledger_part cfg b sha u t' y (own_ids cfg b u sha d0) v'" by (elim exE conjE) simp
    with part [of v'] show ?case unfolding tried_def appended_assoc by blast
  qed
qed

lemma reserve_attempt:
  assumes drv: "ordered_driver cfg" and u: "must_parse cfg (batch_id (header b)) = Inr u" and "one_stream b"
    and w: "writes_at cfg b sha t w x"
  shows "valid (\<lambda>s. db s = d0) (seq (insert_batch_ledger_v2 cfg b sha t ''reserved'') (\<lambda>_. complete_batch_v2 cfg b sha t))
    (\<lambda>r s. stored cfg b sha u d0 (db s) \<and> r = \<lparr>result_count = record_count b, result_replayed = False\<rparr>)
    (\<lambda>_ s. tried cfg b sha u d0 (db s))"
proof -
  let ?v = "no_rows\<lparr>ingest_batches := [ledger_row_of cfg b sha t ''reserved'' u]\<rparr>"
  have a: "attempted cfg b sha u t w x (own_ids cfg b u sha d0) ?v"
    using w by (auto simp: attempted_def within_def telemetry_only_def no_rows_def)
  show ?thesis
  proof (rule valid_seq [where R = "\<lambda>_ s. db s = appended d0 ?v"])
    show "valid (\<lambda>s. db s = d0) (insert_batch_ledger_v2 cfg b sha t ''reserved'') (\<lambda>_ s. db s = appended d0 ?v)
      (\<lambda>_ s. tried cfg b sha u d0 (db s))"
      by (rule valid_post [OF insert_ledger_adds [OF u, unfolded adds_def]])
        (use a in \<open>auto simp: tried_def\<close>)
  qed (rule resume_attempt [OF drv u assms(3) a disjI1 [OF refl]])
qed

definition read_ledger :: "validated_batch \<Rightarrow> 'u \<Rightarrow> 'u tables \<Rightarrow> (string \<times> string \<times> time) option" where
  "read_ledger b u d = map_option (\<lambda>r. (lr_body_sha r, lr_status r, lr_ingested_at r))
     (newest ledger_key lr_ingested_at (ingest_batches d) (product_id (header_scope (header b)), u))"

lemma read_cases:
  assumes "ordered_driver cfg" and unres: "unreserved b u d0" and "tried cfg b sha u d0 d"
  obtains (fresh) "d = d0" "read_ledger b u d = None"
    | (reserved) t w x v where "d = appended d0 v" "attempted cfg b sha u t w x (own_ids cfg b u sha d0) v"
        "read_ledger b u d = Some (sha, ''reserved'', exec_time cfg t)"
    | (completed) t where "stored cfg b sha u d0 d" "read_ledger b u d = Some (sha, ''completed'', t)"
proof (cases "d = d0")
  case True
  from that(1) [OF this] unres True show thesis by (simp add: read_ledger_def unreserved_def)
next
  case False
  with assms(3) obtain t w x v where a: "d = appended d0 v" "attempted cfg b sha u t w x (own_ids cfg b u sha d0) v"
    by (auto simp: tried_def)
  from ledger_read [OF assms(1) unres a(2)] obtain l where l: "newest ledger_key lr_ingested_at (ingest_batches d)
        (product_id (header_scope (header b)), u) = Some l" "lr_body_sha l = sha"
    "lr_status l = ''reserved'' \<and> lr_ingested_at l = exec_time cfg t
     \<or> lr_status l = ''completed'' \<and> (within w v \<or> within x v) \<and> own_ids cfg b u sha d0"
    unfolding a(1) by blast
  from l(3) show thesis
  proof (elim disjE [where P = "_ \<and> lr_ingested_at l = _"] conjE)
    assume "lr_status l = ''reserved''" "lr_ingested_at l = exec_time cfg t"
    with that(2) [OF a] l(1,2) show thesis by (simp add: read_ledger_def)
  next
    assume c: "lr_status l = ''completed''" "within w v \<or> within x v" "own_ids cfg b u sha d0"
    from newest_Some [OF l(1)] unres have "l \<in> set (ingest_batches v)"
      by (auto simp: a(1) appended_def unreserved_def newest_None image_iff)
    with c a have "stored cfg b sha u d0 d" unfolding stored_def finished_def by blast
    with that(3) c(1) l(1,2) show thesis by (simp add: read_ledger_def)
  qed
qed

lemma insert_v2_attempt:
  assumes "ordered_driver cfg" and u: "must_parse cfg (batch_id (header b)) = Inr u" and "one_stream b"
    and w: "\<And>t. \<exists>w. batch_write cfg b sha t = Inr w" and fresh: "unreserved b u d0"
  shows "valid (\<lambda>s. tried cfg b sha u d0 (db s)) (insert_v2 cfg b sha)
    (\<lambda>r s. stored cfg b sha u d0 (db s) \<and> result_count r = record_count b)
    (\<lambda>_ s. tried cfg b sha u d0 (db s))" (is "valid ?P _ ?Q ?E")
proof -
  let ?sup = "is_suppressed (header_scope (header b)) (product_key b)"
  have unsuppressed: "valid (\<lambda>s. db s = d) (seq ?sup (\<lambda>x. if x then fail ErrSuppressed else m)) ?Q ?E"
    if "valid (\<lambda>s. db s = d) m ?Q ?E" "tried cfg b sha u d0 d" for d m
    by (rule valid_seq [where R = "\<lambda>_ s. db s = d"], rule valid_pre [OF valid_if [OF valid_fail that(1)]])
      (use that(2) in \<open>auto simp: is_suppressed_def intro!: valid_wrapping valid_pre [OF valid_query]\<close>)
  show ?thesis
    unfolding insert_v2_def Let_def
  proof (rule valid_seq [where R = "\<lambda>x s. x = read_ledger b u (db s) \<and> tried cfg b sha u d0 (db s)"])
    show "valid ?P (batch_ledger_v2 cfg (product_id (header_scope (header b))) (batch_id (header b)))
        (\<lambda>x s. x = read_ledger b u (db s) \<and> tried cfg b sha u d0 (db s)) ?E"
      unfolding batch_ledger_v2_def u action_simps
      by (intro valid_wrapping valid_pre [OF valid_query]) (simp add: read_ledger_def)
  next
    fix x
    let ?m = "case x of
          Some (existing_sha, status, reserved_at) \<Rightarrow>
            if existing_sha \<noteq> sha then fail ErrIdempotencyConflict
            else if status = ''completed'' then ret \<lparr>result_count = record_count b, result_replayed = True\<rparr>
            else if status \<noteq> ''reserved'' then fail (Err ''invalid v2 batch ledger status'')
            else seq ?sup (\<lambda>x. if x then fail ErrSuppressed else complete_batch_v2 cfg b sha reserved_at)
        | None \<Rightarrow>
            seq ?sup (\<lambda>x. if x then fail ErrSuppressed else seq time_now (\<lambda>t.
              seq (insert_batch_ledger_v2 cfg b sha (truncate_to t millisecond) ''reserved'')
                (\<lambda>_. complete_batch_v2 cfg b sha (truncate_to t millisecond))))"
    have "valid (\<lambda>s. db s = d) ?m ?Q ?E" if x: "x = read_ledger b u d" and d: "tried cfg b sha u d0 d" for d
      using assms(1) fresh d
    proof (cases rule: read_cases)
      case fresh
      have "valid (\<lambda>s. db s = d) (seq time_now (\<lambda>t.
              seq (insert_batch_ledger_v2 cfg b sha (truncate_to t millisecond) ''reserved'')
                (\<lambda>_. complete_batch_v2 cfg b sha (truncate_to t millisecond)))) ?Q ?E"
      proof (rule valid_seq [where R = "\<lambda>_ s. db s = d"])
        fix t
        obtain w x where "writes_at cfg b sha (truncate_to t millisecond) w x" using w unfolding writes_at_def by blast
        from reserve_attempt [OF assms(1) u assms(3) this, of d0]
        show "valid (\<lambda>s. db s = d) (seq (insert_batch_ledger_v2 cfg b sha (truncate_to t millisecond) ''reserved'')
                (\<lambda>_. complete_batch_v2 cfg b sha (truncate_to t millisecond))) ?Q ?E"
          unfolding fresh(1) by (rule valid_post) auto
      qed (auto intro: valid_pre [OF valid_time_now])
      with x fresh(2) unsuppressed d show ?thesis by simp
    next
      case (reserved t w y v)
      from resume_attempt [OF assms(1) u assms(3) reserved(2) disjI2 [OF refl]]
      have "valid (\<lambda>s. db s = d) (complete_batch_v2 cfg b sha (exec_time cfg t)) ?Q ?E"
        unfolding reserved(1) by (rule valid_post) auto
      with x reserved(3) unsuppressed d show ?thesis by simp
    next
      case (completed t)
      with x show ?thesis by (auto intro: valid_pre [OF valid_ret])
    qed
    then show "valid (\<lambda>s. x = read_ledger b u (db s) \<and> tried cfg b sha u d0 (db s)) ?m ?Q ?E"
      by (auto simp: valid_def)
  qed
qed

subsection \<open>What the tables show afterwards\<close>

text \<open>
  Every row of a write is shown, as it is written at one of the two times, and nothing else changed.
\<close>

definition keyed :: "('r \<Rightarrow> 'k) \<Rightarrow> 'r list \<Rightarrow> 'k \<Rightarrow> 'r option" where
  "keyed key rows = map_of (map (\<lambda>r. (key r, r)) rows)"

definition shows_rows ::
  "('r \<Rightarrow> 'k) \<Rightarrow> ('r \<Rightarrow> time) \<Rightarrow> 'r list \<Rightarrow> 'r list \<Rightarrow> 'r list \<Rightarrow> 'r list \<Rightarrow> bool" where
  "shows_rows key ver rows rows' t t' \<longleftrightarrow>
     (\<forall>k. if k \<in> key ` set rows
          then newest key ver t' k \<noteq> None \<and> (newest key ver t' k = keyed key rows k \<or> newest key ver t' k = keyed key rows' k)
          else newest key ver t' k = newest key ver t k)"

lemma keyed_Some: "inj_on key (set rows) \<Longrightarrow> r \<in> set rows \<Longrightarrow> keyed key rows (key r) = Some r"
  unfolding keyed_def by (induction rows) (auto simp: inj_on_def image_iff)

lemma shows_rowsI:
  assumes "inj_on key (set rows)" and "inj_on key (set rows')" and same: "key ` set rows' = key ` set rows"
    and "key ` set rows \<inter> key ` set t = {}" and "set xs \<subseteq> set rows \<union> set rows'"
    and "set rows \<subseteq> set xs \<or> set rows' \<subseteq> set xs"
  shows "shows_rows key ver rows rows' t (t @ xs)"
  unfolding shows_rows_def
proof (intro allI)
  fix k
  from assms(5,6) same have keys: "key ` set xs = key ` set rows" by blast
  show "if k \<in> key ` set rows
        then newest key ver (t @ xs) k \<noteq> None
          \<and> (newest key ver (t @ xs) k = keyed key rows k \<or> newest key ver (t @ xs) k = keyed key rows' k)
        else newest key ver (t @ xs) k = newest key ver t k"
  proof (cases "k \<in> key ` set rows")
    case False
    then show ?thesis using keys by (simp add: newest_append_other)
  next
    case True
    with keys obtain r where r: "newest key ver (t @ xs) k = Some r"
      by (cases "newest key ver (t @ xs) k") (auto simp: newest_None)
    from newest_Some [OF r] have "r \<in> set t \<union> set xs" "key r = k" by simp_all
    with True assms(4,5) have "r \<in> set rows \<union> set rows'" by blast
    then have "keyed key rows k = Some r \<or> keyed key rows' k = Some r"
      using keyed_Some [OF assms(1), of r] keyed_Some [OF assms(2), of r] \<open>key r = k\<close> by auto
    with r True show ?thesis by auto
  qed
qed

text \<open>The rows of every stream, cut to the columns they share.\<close>

definition event_rows :: "'u tables \<Rightarrow> 'u event_row list" where
  "event_rows d = map event_row.truncate (common_events d) @ map event_row.truncate (technical_events d)
     @ map event_row.truncate (plays_events d) @ product_events d @ map event_row.truncate (product_outcomes d)"

definition same_scope :: "'y scope_columns_scheme \<Rightarrow> 'z scope_columns_scheme \<Rightarrow> bool" where
  "same_scope x y \<longleftrightarrow> scope_columns.truncate x = scope_columns.truncate y"

text \<open>Every event has a registry row, every registry row a ledger row, with the same scope.\<close>

definition linked :: "'u tables \<Rightarrow> bool" where
  "linked d \<longleftrightarrow>
     (\<forall>e \<in> set (event_rows d). \<exists>g \<in> set (record_registry d).
        same_scope e g \<and> rr_record_id g = er_record_id e \<and> rr_batch_id g = er_batch_id e)
     \<and> (\<forall>g \<in> set (record_registry d). \<exists>l \<in> set (ingest_batches d).
        same_scope g l \<and> lr_batch_id l = rr_batch_id g)"

lemma same_scope_product: "same_scope x y \<Longrightarrow> col_product x = col_product y"
  by (cases x; cases y) (simp add: same_scope_def scope_columns.defs)

definition registry_key :: "'u registry_row \<Rightarrow> string \<times> 'u" where
  "registry_key r = (col_product r, rr_record_id r)"

definition batch_visible :: "'u tables \<Rightarrow> 'u tables \<Rightarrow> 'u tables \<Rightarrow> 'u tables \<Rightarrow> bool" where
  "batch_visible w x d d' \<longleftrightarrow>
     shows_rows registry_key rr_registered_at (record_registry w) (record_registry x) (record_registry d) (record_registry d')
     \<and> shows_rows event_key er_ingested_at (common_events w) (common_events x) (common_events d) (common_events d')
     \<and> shows_rows event_key er_ingested_at (technical_events w) (technical_events x) (technical_events d) (technical_events d')
     \<and> shows_rows event_key er_ingested_at (plays_events w) (plays_events x) (plays_events d) (plays_events d')
     \<and> shows_rows event_key er_ingested_at (product_events w) (product_events x) (product_events d) (product_events d')
     \<and> shows_rows event_key er_ingested_at (product_outcomes w) (product_outcomes x) (product_outcomes d) (product_outcomes d')
     \<and> suppressions d' = suppressions d \<and> deletion_progress d' = deletion_progress d
     \<and> v1_events d' = v1_events d \<and> v1_summaries d' = v1_summaries d
     \<and> fundraising_ledger d' = fundraising_ledger d \<and> fundraising_events d' = fundraising_events d"

text \<open>The keys of a batch: its records parse to different UUIDs, its rows carry them.\<close>

lemma canonical_inj:
  "canonical_uuid lib s \<Longrightarrow> canonical_uuid lib s' \<Longrightarrow> uuid_parse lib s = Some u \<Longrightarrow> uuid_parse lib s' = Some u \<Longrightarrow> s = s'"
  by (auto simp: canonical_uuid_def)

lemma event_row_fields:
  assumes "event_row_of cfg b t keep v = Inr e"
  shows "uuid_parse (uuids cfg) (record_id (the_record v)) = Some (er_record_id e)
    \<and> uuid_parse (uuids cfg) (batch_id (header b)) = Some (er_batch_id e)
    \<and> scope_columns.truncate e = batch_columns b"
  using assms
  by (auto simp: event_row_of_def andthen_Inr must_parse_Inr Let_def scope_columns.defs event_row.defs batch_columns_def)

lemma extended_row_fields:
  "er_record_id (event_row.extend e x) = er_record_id e" "er_batch_id (event_row.extend e x) = er_batch_id e"
  "scope_columns.truncate (event_row.extend e x) = scope_columns.truncate e"
  "event_row.truncate (event_row.extend e x) = e"
  by (cases e; simp add: event_row.defs scope_columns.defs)+

lemma all2_right: "list_all2 P xs ys \<Longrightarrow> y \<in> set ys \<Longrightarrow> \<exists>x \<in> set xs. P x y"
  by (induction xs ys rule: list_all2_induct) auto

lemma distinct_parsed:
  assumes "list_all2 (\<lambda>s u. uuid_parse lib s = Some u) ss us" and "\<forall>s \<in> set ss. canonical_uuid lib s" and "distinct ss"
  shows "distinct us"
  using assms
proof (induction ss us rule: list_all2_induct)
  case (Cons s ss u us)
  have "u \<notin> set us"
  proof
    assume "u \<in> set us"
    with all2_right [OF Cons.hyps(2)] obtain s' where "s' \<in> set ss" "uuid_parse lib s' = Some u" by blast
    with Cons.hyps(1) Cons.prems canonical_inj [of lib s s' u] show False by auto
  qed
  with Cons show ?case by simp
qed simp

lemma parsed_rows:
  assumes "traverse f vs = Inr rows"
    and "\<And>v r. f v = Inr r \<Longrightarrow> uuid_parse lib (record_id (the_record v)) = Some (er_record_id r)"
  shows "list_all2 (\<lambda>s u. uuid_parse lib s = Some u) (map (record_id \<circ> the_record) vs) (map er_record_id rows)"
  using assms by (auto simp: traverse_Inr list_all2_map1 list_all2_map2 elim: list_all2_mono)

text \<open>The keys of the rows of a stream are different, and new to the table when its rows have none of the record IDs.\<close>

lemma stream_keys:
  assumes rows: "list_all2 (\<lambda>s u. uuid_parse lib s = Some u) ss (map er_record_id rows)"
    and "\<forall>s \<in> set ss. canonical_uuid lib s" and "distinct ss"
    and "\<And>r. r \<in> set rows \<Longrightarrow> col_product r = p"
    and "\<And>x s. x \<in> set t \<Longrightarrow> col_product x = p \<Longrightarrow> s \<in> set ss \<Longrightarrow> uuid_parse lib s \<noteq> Some (er_record_id x)"
  shows "inj_on event_key (set rows)" "event_key ` set rows \<inter> event_key ` set t = {}"
proof -
  have "distinct (map er_record_id rows)" by (rule distinct_parsed [OF rows assms(2,3)])
  then have "inj_on er_record_id (set rows)" by (simp add: distinct_map)
  then show "inj_on event_key (set rows)" by (auto simp: inj_on_def event_key_def)
  show "event_key ` set rows \<inter> event_key ` set t = {}"
  proof (rule ccontr)
    assume "event_key ` set rows \<inter> event_key ` set t \<noteq> {}"
    then obtain k where "k \<in> event_key ` set rows \<inter> event_key ` set t" by blast
    then obtain r x where *: "r \<in> set rows" "x \<in> set t" "event_key r = event_key x" by (elim IntE imageE) auto
    then have "er_record_id r = er_record_id x" by (simp add: event_key_def)
    with *(1) have "er_record_id x \<in> set (map er_record_id rows)" by (metis image_eqI set_map)
    with all2_right [OF rows] obtain s where "s \<in> set ss" "uuid_parse lib s = Some (er_record_id x)" by blast
    with assms(5) [OF *(2)] assms(4) [OF *(1)] *(3) show False by (auto simp: event_key_def)
  qed
qed

lemma unused_ids:
  assumes "linked d" and "unreserved b u d" and "own_ids cfg b u sha d"
    and "col_product g = product_id (header_scope (header b))" and "g \<in> set (record_registry d)"
    and "s \<in> set (record_ids b)"
  shows "uuid_parse (uuids cfg) s \<noteq> Some (rr_record_id g)"
proof
  assume s: "uuid_parse (uuids cfg) s = Some (rr_record_id g)"
  from assms(3) obtain ids where ids: "traverse (must_parse cfg) (record_ids b) = Inr ids"
    and free: "free_ids d (product_id (header_scope (header b))) ids u sha" by (auto simp: own_ids_def)
  from ids assms(6) s have "rr_record_id g \<in> set ids"
    by (fastforce simp: traverse_Inr list_all2_conv_all_nth in_set_conv_nth must_parse_Inr)
  with free assms(4,5) have "rr_batch_id g = u" by (auto simp: free_ids_def)
  moreover from assms(1,5) obtain l where "l \<in> set (ingest_batches d)" "same_scope g l" "lr_batch_id l = rr_batch_id g"
    by (auto simp: linked_def)
  ultimately show False
    using assms(2,4) by (auto simp: unreserved_def newest_None ledger_key_def image_iff dest!: same_scope_product)
qed

lemma unused_event_ids:
  assumes "linked d" and "unreserved b u d" and "own_ids cfg b u sha d"
    and "event_row.truncate x \<in> set (event_rows d)" and "col_product x = product_id (header_scope (header b))"
    and "s \<in> set (record_ids b)"
  shows "uuid_parse (uuids cfg) s \<noteq> Some (er_record_id x)"
proof -
  have t: "scope_columns.truncate (event_row.truncate x) = scope_columns.truncate x"
    "er_record_id (event_row.truncate x) = er_record_id x"
    by (simp_all add: event_row.defs scope_columns.defs)
  from assms(1,4) obtain g where g: "g \<in> set (record_registry d)" "same_scope (event_row.truncate x) g"
      "rr_record_id g = er_record_id x"
    unfolding linked_def using t(2) by fastforce
  then have "col_product g = col_product x"
    using t(1) same_scope_product [of x g] by (simp add: same_scope_def)
  with unused_ids [OF assms(1-3) _ g(1) assms(6)] g(3) assms(5) show ?thesis by simp
qed

lemma registry_shown:
  assumes "linked d" "unreserved b u d" "own_ids cfg b u sha d"
    and ids: "traverse (must_parse cfg) (record_ids b) = Inr ids"
    and canon: "\<forall>s \<in> set (record_ids b). canonical_uuid (uuids cfg) s" "distinct (record_ids b)"
    and rows: "rows = map (registry_row_of b sha t u) ids" "rows' = map (registry_row_of b sha t' u) ids"
    and xs: "set xs \<subseteq> set rows \<union> set rows'" "set rows \<subseteq> set xs \<or> set rows' \<subseteq> set xs"
  shows "shows_rows registry_key rr_registered_at rows rows' (record_registry d) (record_registry d @ xs)"
proof (rule shows_rowsI [OF _ _ _ _ xs])
  have key: "registry_key (registry_row_of b sha t u i) = (product_id (header_scope (header b)), i)" for i t
    by (simp add: registry_key_def registry_row_of_def scope_columns.defs registry_row.defs batch_columns_def Let_def)
  have all2: "list_all2 (\<lambda>s u. uuid_parse (uuids cfg) s = Some u) (record_ids b) ids"
    using ids by (simp add: traverse_Inr must_parse_Inr)
  show "inj_on registry_key (set rows)" "inj_on registry_key (set rows')" "registry_key ` set rows' = registry_key ` set rows"
    by (auto simp: inj_on_def rows key image_image)
  show "registry_key ` set rows \<inter> registry_key ` set (record_registry d) = {}"
  proof (rule ccontr)
    assume "registry_key ` set rows \<inter> registry_key ` set (record_registry d) \<noteq> {}"
    then obtain k where "k \<in> registry_key ` set rows \<inter> registry_key ` set (record_registry d)" by blast
    then obtain i g where g: "i \<in> set ids" "g \<in> set (record_registry d)"
        "registry_key (registry_row_of b sha t u i) = registry_key g"
      unfolding rows set_map by (elim IntE imageE) simp
    then have *: "i \<in> set ids" "g \<in> set (record_registry d)"
        "col_product g = product_id (header_scope (header b))" "rr_record_id g = i"
      unfolding key by (simp_all add: registry_key_def)
    with all2_right [OF all2 *(1)] obtain s where "s \<in> set (record_ids b)" "uuid_parse (uuids cfg) s = Some i"
      by blast
    with unused_ids [OF assms(1-3) *(3,2)] *(4) show False by blast
  qed
qed

subsection \<open>A batch that the contract accepts\<close>

lemma registry_streams:
  "list_all (\<lambda>e. list_all (\<lambda>x. List.member [StreamCommon, StreamTechnical, StreamPlays, StreamProduct, StreamOutcome] x)
     (spec_streams (snd e))) registry"
  by code_simp

lemma valid_batch_facts:
  assumes "valid_batch (uuids cfg) now b"
  shows "one_stream b" "\<forall>s \<in> set (record_ids b). canonical_uuid (uuids cfg) s" "distinct (record_ids b)"
    "canonical_uuid (uuids cfg) (batch_id (header b))" "\<exists>w. batch_write cfg b sha t = Inr w"
proof -
  from assms obtain sp where sp: "header_ok (uuids cfg) now (header b) sp (sent_at_time b)"
    "streams_ok (uuids cfg) sp b" "distinct (record_ids b)" by (auto simp: valid_batch_def)
  from sp(1) have "(product_id (header_scope (header b)), sp) \<in> set registry"
      and s: "stream (header b) \<in> set (spec_streams sp)"
    by (auto simp: header_ok_def dest: lookup_in_registry)
  with registry_streams have "stream (header b) \<in> {StreamCommon, StreamTechnical, StreamPlays, StreamProduct, StreamOutcome}"
    by (fastforce simp: list_all_iff)
  with sp(2) show "one_stream b" by (auto simp: one_stream_def streams_ok_def)
  show canon: "\<forall>s \<in> set (record_ids b). canonical_uuid (uuids cfg) s"
    using sp(2) by (auto simp: record_ids_def streams_ok_def checked_def base_ok_def)
  show batch: "canonical_uuid (uuids cfg) (batch_id (header b))" using sp(1) by (simp add: header_ok_def)
  have parse: "\<exists>u. must_parse cfg s = Inr u" if "canonical_uuid (uuids cfg) s" for s
    using that by (auto simp: canonical_uuid_def must_parse_Inr)
  have row: "\<exists>e. event_row_of cfg b t keep v = Inr e" if "base_ok (uuids cfg) sent (the_record v) x" for keep sent x
      and v :: "'z base_record_scheme validated"
    using that parse [OF batch] by (auto simp: base_ok_def event_row_of_def Let_def dest!: parse)
  have total: "\<exists>rs. traverse f vs = Inr rs" if "\<And>v. v \<in> set vs \<Longrightarrow> \<exists>r. f v = Inr r" for f :: "'x \<Rightarrow> 'y result" and vs
    using traverse_total [of vs f "\<lambda>v. projr (f v)"] that by (metis sum.sel(2))
  have ext: "\<exists>e. m = Inr e \<Longrightarrow> \<exists>r. andthen m (\<lambda>e. Inr (g e)) = Inr r" for m :: "'x result" and g :: "'x \<Rightarrow> 'y"
    by auto
  have base: "v \<in> set (common_records b) \<Longrightarrow> base_ok (uuids cfg) (sent_at_time b) (the_record v) (occurred_at_time v)"
    "v2 \<in> set (technical_records b) \<Longrightarrow> base_ok (uuids cfg) (sent_at_time b) (the_record v2) (occurred_at_time v2)"
    "v3 \<in> set (plays_records b) \<Longrightarrow> base_ok (uuids cfg) (sent_at_time b) (the_record v3) (occurred_at_time v3)
       \<and> canonical_uuid (uuids cfg) (game_session_id (the_record v3))"
    "v4 \<in> set (product_records b) \<Longrightarrow> base_ok (uuids cfg) (sent_at_time b) (the_record v4) (occurred_at_time v4)"
    "v5 \<in> set (outcome_records b) \<Longrightarrow> base_ok (uuids cfg) (sent_at_time b) (the_record v5) (occurred_at_time v5)"
    for v v2 v3 v4 v5
    using sp(2) by (auto simp: streams_ok_def checked_def plays_shape_def)
  have "\<exists>rs. traverse (must_parse cfg) (record_ids b) = Inr rs" using canon parse by (intro total) auto
  moreover have "\<exists>rs. traverse (common_row_of cfg b t) (common_records b) = Inr rs"
    by (rule total) (simp only: common_row_of_def, rule ext, rule row, erule base)
  moreover have "\<exists>rs. traverse (technical_row_of cfg b t) (technical_records b) = Inr rs"
    by (rule total) (simp only: technical_row_of_def Let_def, rule ext, rule row, erule base)
  moreover have "\<exists>rs. traverse (plays_row_of cfg b t) (plays_records b) = Inr rs"
  proof (rule total)
    fix v assume "v \<in> set (plays_records b)"
    from base(3) [OF this] obtain e g where "event_row_of cfg b t (keep_plays (retentions cfg)) v = Inr e"
      "must_parse cfg (game_session_id (the_record v)) = Inr g" using row parse by blast
    then show "\<exists>r. plays_row_of cfg b t v = Inr r" by (simp add: plays_row_of_def Let_def)
  qed
  moreover have "\<exists>rs. traverse (product_row_of cfg b t) (product_records b) = Inr rs"
    by (rule total) (simp only: product_row_of_def, rule row, erule base)
  moreover have "\<exists>rs. traverse (outcome_row_of cfg b t) (outcome_records b) = Inr rs"
    by (rule total) (simp only: outcome_row_of_def Let_def, rule ext, rule row, erule base)
  ultimately show "\<exists>w. batch_write cfg b sha t = Inr w"
    using parse [OF batch] by (auto simp: batch_write_def)
qed (use assms in \<open>simp add: valid_batch_def\<close>)

text \<open>The write of a batch, table by table.\<close>

lemma batch_write_rows:
  assumes "batch_write cfg b sha t = Inr w" and u: "must_parse cfg (batch_id (header b)) = Inr u"
  obtains ids where "traverse (must_parse cfg) (record_ids b) = Inr ids"
    "record_registry w = map (registry_row_of b sha (column_time cfg t) u) ids"
    "traverse (common_row_of cfg b t) (common_records b) = Inr (common_events w)"
    "traverse (technical_row_of cfg b t) (technical_records b) = Inr (technical_events w)"
    "traverse (plays_row_of cfg b t) (plays_records b) = Inr (plays_events w)"
    "traverse (product_row_of cfg b t) (product_records b) = Inr (product_events w)"
    "traverse (outcome_row_of cfg b t) (outcome_records b) = Inr (product_outcomes w)"
  using assms by (auto simp: batch_write_def andthen_Inr no_rows_def)

definition row_of_batch :: "'u store_config \<Rightarrow> validated_batch \<Rightarrow> 'z base_record_scheme validated \<Rightarrow> ('u, 'y) event_row_scheme \<Rightarrow> bool" where
  "row_of_batch cfg b v r \<longleftrightarrow>
     uuid_parse (uuids cfg) (record_id (the_record v)) = Some (er_record_id r)
     \<and> uuid_parse (uuids cfg) (batch_id (header b)) = Some (er_batch_id r)
     \<and> scope_columns.truncate r = batch_columns b"

lemma row_of_batch:
  "common_row_of cfg b t v1 = Inr r1 \<Longrightarrow> row_of_batch cfg b v1 r1"
  "technical_row_of cfg b t v2 = Inr r2 \<Longrightarrow> row_of_batch cfg b v2 r2"
  "plays_row_of cfg b t v3 = Inr r3 \<Longrightarrow> row_of_batch cfg b v3 r3"
  "product_row_of cfg b t v4 = Inr r4 \<Longrightarrow> row_of_batch cfg b v4 r4"
  "outcome_row_of cfg b t v5 = Inr r5 \<Longrightarrow> row_of_batch cfg b v5 r5"
  by (auto simp: common_row_of_def technical_row_of_def plays_row_of_def product_row_of_def outcome_row_of_def
      row_of_batch_def Let_def andthen_Inr extended_row_fields dest!: event_row_fields)

lemma row_of_batch_product: "row_of_batch cfg b v r \<Longrightarrow> col_product r = product_id (header_scope (header b))"
  by (cases r) (auto simp: row_of_batch_def batch_columns_def Let_def scope_columns.defs)

lemma traverse_agree:
  assumes "\<And>v r r'. f v = Inr r \<Longrightarrow> g v = Inr r' \<Longrightarrow> h r' = h r"
  shows "traverse f vs = Inr rows \<Longrightarrow> traverse g vs = Inr rows' \<Longrightarrow> map h rows' = map h rows"
proof (induction vs arbitrary: rows rows')
  case (Cons v vs)
  then obtain r rs r' rs' where "rows = r # rs" "f v = Inr r" "traverse f vs = Inr rs"
    "rows' = r' # rs'" "g v = Inr r'" "traverse g vs = Inr rs'"
    by (auto simp: andthen_Inr)
  with Cons.IH assms show ?case by simp
qed simp

lemma same_event_keys:
  fixes rows rows' :: "('u, 'y) event_row_scheme list"
  assumes "traverse f vs = Inr rows" "\<And>v r. f v = Inr r \<Longrightarrow> row_of_batch cfg b v r"
    and "traverse g vs = Inr rows'" "\<And>v r. g v = Inr r \<Longrightarrow> row_of_batch cfg b v r"
  shows "map event_key rows' = map event_key rows"
proof (rule traverse_agree [OF _ assms(1,3)])
  fix v and r r' :: "('u, 'y) event_row_scheme"
  assume "f v = Inr r" "g v = Inr r'"
  from assms(2) [OF this(1)] assms(4) [OF this(2)]
  have "scope_columns.truncate r' = scope_columns.truncate r" "er_record_id r' = er_record_id r"
    by (simp_all add: row_of_batch_def)
  then show "event_key r' = event_key r" by (simp add: event_key_def scope_columns.defs)
qed

text \<open>Two writes of a batch differ in nothing but the columns that hold the time of the reservation.\<close>

definition untimed :: "('u, 'y) event_row_scheme \<Rightarrow> ('u, 'y) event_row_scheme" where
  "untimed r = r\<lparr>er_ingested_at := 0, er_expires_at := None\<rparr>"

definition same_but_times :: "'u tables \<Rightarrow> 'u tables \<Rightarrow> bool" where
  "same_but_times w x \<longleftrightarrow>
     map (rr_registered_at_update (\<lambda>_. 0)) (record_registry x) = map (rr_registered_at_update (\<lambda>_. 0)) (record_registry w)
     \<and> map untimed (common_events x) = map untimed (common_events w)
     \<and> map untimed (technical_events x) = map untimed (technical_events w)
     \<and> map untimed (plays_events x) = map untimed (plays_events w)
     \<and> map untimed (product_events x) = map untimed (product_events w)
     \<and> map untimed (product_outcomes x) = map untimed (product_outcomes w)"

lemma untimed_event_row:
  assumes "event_row_of cfg b t keep v = Inr r" and "event_row_of cfg b t' keep v = Inr r'"
  shows "untimed r' = untimed r" "untimed (event_row.extend r' y) = untimed (event_row.extend r y)"
  using assms by (auto simp: event_row_of_def Let_def andthen_Inr untimed_def scope_columns.defs event_row.defs)

lemma untimed_rows:
  "common_row_of cfg b t v1 = Inr r1 \<Longrightarrow> common_row_of cfg b t' v1 = Inr r1' \<Longrightarrow> untimed r1' = untimed r1"
  "technical_row_of cfg b t v2 = Inr r2 \<Longrightarrow> technical_row_of cfg b t' v2 = Inr r2' \<Longrightarrow> untimed r2' = untimed r2"
  "plays_row_of cfg b t v3 = Inr r3 \<Longrightarrow> plays_row_of cfg b t' v3 = Inr r3' \<Longrightarrow> untimed r3' = untimed r3"
  "product_row_of cfg b t v4 = Inr r4 \<Longrightarrow> product_row_of cfg b t' v4 = Inr r4' \<Longrightarrow> untimed r4' = untimed r4"
  "outcome_row_of cfg b t v5 = Inr r5 \<Longrightarrow> outcome_row_of cfg b t' v5 = Inr r5' \<Longrightarrow> untimed r5' = untimed r5"
  unfolding common_row_of_def technical_row_of_def plays_row_of_def product_row_of_def outcome_row_of_def
    Let_def andthen_Inr
  by (clarsimp?, rule untimed_event_row, assumption+)+

lemma writes_same_but_times:
  assumes "writes_at cfg b sha t w x" and "must_parse cfg (batch_id (header b)) = Inr u"
  shows "same_but_times w x"
proof -
  from assms(1) have w: "batch_write cfg b sha t = Inr w" "batch_write cfg b sha (exec_time cfg t) = Inr x"
    by (simp_all add: writes_at_def)
  obtain ids where a: "traverse (must_parse cfg) (record_ids b) = Inr ids"
    "record_registry w = map (registry_row_of b sha (column_time cfg t) u) ids"
    "traverse (common_row_of cfg b t) (common_records b) = Inr (common_events w)"
    "traverse (technical_row_of cfg b t) (technical_records b) = Inr (technical_events w)"
    "traverse (plays_row_of cfg b t) (plays_records b) = Inr (plays_events w)"
    "traverse (product_row_of cfg b t) (product_records b) = Inr (product_events w)"
    "traverse (outcome_row_of cfg b t) (outcome_records b) = Inr (product_outcomes w)"
    by (rule batch_write_rows [OF w(1) assms(2)])
  obtain ids' where b: "traverse (must_parse cfg) (record_ids b) = Inr ids'"
    "record_registry x = map (registry_row_of b sha (column_time cfg (exec_time cfg t)) u) ids'"
    "traverse (common_row_of cfg b (exec_time cfg t)) (common_records b) = Inr (common_events x)"
    "traverse (technical_row_of cfg b (exec_time cfg t)) (technical_records b) = Inr (technical_events x)"
    "traverse (plays_row_of cfg b (exec_time cfg t)) (plays_records b) = Inr (plays_events x)"
    "traverse (product_row_of cfg b (exec_time cfg t)) (product_records b) = Inr (product_events x)"
    "traverse (outcome_row_of cfg b (exec_time cfg t)) (outcome_records b) = Inr (product_outcomes x)"
    by (rule batch_write_rows [OF w(2) assms(2)])
  have "map (rr_registered_at_update (\<lambda>_. 0)) (record_registry x) = map (rr_registered_at_update (\<lambda>_. 0)) (record_registry w)"
    using a(1,2) b(1,2) by (simp add: registry_row_of_def scope_columns.defs registry_row.defs)
  moreover have "map untimed (common_events x) = map untimed (common_events w)"
    by (rule traverse_agree [OF untimed_rows(1) a(3) b(3)])
  moreover have "map untimed (technical_events x) = map untimed (technical_events w)"
    by (rule traverse_agree [OF untimed_rows(2) a(4) b(4)])
  moreover have "map untimed (plays_events x) = map untimed (plays_events w)"
    by (rule traverse_agree [OF untimed_rows(3) a(5) b(5)])
  moreover have "map untimed (product_events x) = map untimed (product_events w)"
    by (rule traverse_agree [OF untimed_rows(4) a(6) b(6)])
  moreover have "map untimed (product_outcomes x) = map untimed (product_outcomes w)"
    by (rule traverse_agree [OF untimed_rows(5) a(7) b(7)])
  ultimately show ?thesis by (simp add: same_but_times_def)
qed

lemma stream_visible:
  fixes rows rows' :: "('u, 'y) event_row_scheme list"
  assumes "linked d" "unreserved b u d" "own_ids cfg b u sha d"
    and canon: "\<forall>s \<in> set (record_ids b). canonical_uuid (uuids cfg) s" and "distinct (record_ids b)"
    and rows: "traverse f vs = Inr rows" "\<And>v r. f v = Inr r \<Longrightarrow> row_of_batch cfg b v r"
    and rows': "traverse g vs = Inr rows'" "\<And>v r. g v = Inr r \<Longrightarrow> row_of_batch cfg b v r"
    and ids: "\<exists>xs ys. record_ids b = xs @ map (record_id \<circ> the_record) vs @ ys"
    and t: "\<And>x. x \<in> set tab \<Longrightarrow> event_row.truncate x \<in> set (event_rows d)"
    and xs: "set xs \<subseteq> set rows \<union> set rows'" "set rows \<subseteq> set xs \<or> set rows' \<subseteq> set xs"
  shows "shows_rows event_key er_ingested_at rows rows' tab (tab @ xs)"
proof -
  have keys: "inj_on event_key (set rs)" "event_key ` set rs \<inter> event_key ` set tab = {}"
    if rs: "traverse h vs = Inr rs" "\<And>v r. h v = Inr r \<Longrightarrow> row_of_batch cfg b v r"
    for h and rs :: "('u, 'y) event_row_scheme list"
  proof -
    have *: "list_all2 (\<lambda>s u. uuid_parse (uuids cfg) s = Some u) (map (record_id \<circ> the_record) vs) (map er_record_id rs)"
      by (rule parsed_rows [OF rs(1)]) (auto dest: rs(2) simp: row_of_batch_def)
    have "\<forall>s \<in> set (map (record_id \<circ> the_record) vs). canonical_uuid (uuids cfg) s"
      "distinct (map (record_id \<circ> the_record) vs)"
      using ids canon assms(5) by (auto simp del: set_map)
    note keys = stream_keys [OF * this, of "product_id (header_scope (header b))" tab]
    have p: "col_product r = product_id (header_scope (header b))" if "r \<in> set rs" for r
      using traverse_setD [OF rs(1) that] rs(2) row_of_batch_product by metis
    have n: "uuid_parse (uuids cfg) s \<noteq> Some (er_record_id x)"
      if "x \<in> set tab" "col_product x = product_id (header_scope (header b))" "s \<in> set (map (record_id \<circ> the_record) vs)" for x s
      using unused_event_ids [OF assms(1-3) t [OF that(1)] that(2)] that(3) ids by fastforce
    show "inj_on event_key (set rs)" "event_key ` set rs \<inter> event_key ` set tab = {}"
      by (rule keys; (rule p | rule n); assumption)+
  qed
  have "event_key ` set rows' = event_key ` set rows"
    using same_event_keys [OF rows rows'] by (metis set_map)
  then show ?thesis
    by (intro shows_rowsI [OF keys(1) [OF rows] keys(1) [OF rows'] _ keys(2) [OF rows] xs])
qed

lemma record_ids_parts:
  "\<exists>xs ys. record_ids b = xs @ map (record_id \<circ> the_record) (common_records b) @ ys"
  "\<exists>xs ys. record_ids b = xs @ map (record_id \<circ> the_record) (technical_records b) @ ys"
  "\<exists>xs ys. record_ids b = xs @ map (record_id \<circ> the_record) (plays_records b) @ ys"
  "\<exists>xs ys. record_ids b = xs @ map (record_id \<circ> the_record) (product_records b) @ ys"
  "\<exists>xs ys. record_ids b = xs @ map (record_id \<circ> the_record) (outcome_records b) @ ys"
  unfolding record_ids_def by (metis append_Nil append_Nil2 append_assoc)+

lemma finished_visible:
  assumes "valid_batch (uuids cfg) now b" and u: "must_parse cfg (batch_id (header b)) = Inr u"
    and d: "linked d" "unreserved b u d" and f: "finished cfg b sha u t w x (own_ids cfg b u sha d) v"
  shows "batch_visible w x d (appended d v)"
proof -
  note facts = valid_batch_facts [OF assms(1)]
  from f have w: "batch_write cfg b sha t = Inr w" "batch_write cfg b sha (exec_time cfg t) = Inr x"
    "within v (appended w x)" "within w v \<or> within x v" "telemetry_only v" and own: "own_ids cfg b u sha d"
    by (simp_all add: finished_def attempted_def writes_at_def)
  obtain ids where rows: "traverse (must_parse cfg) (record_ids b) = Inr ids"
    "record_registry w = map (registry_row_of b sha (column_time cfg t) u) ids"
    "traverse (common_row_of cfg b t) (common_records b) = Inr (common_events w)"
    "traverse (technical_row_of cfg b t) (technical_records b) = Inr (technical_events w)"
    "traverse (plays_row_of cfg b t) (plays_records b) = Inr (plays_events w)"
    "traverse (product_row_of cfg b t) (product_records b) = Inr (product_events w)"
    "traverse (outcome_row_of cfg b t) (outcome_records b) = Inr (product_outcomes w)"
    by (rule batch_write_rows [OF w(1) u])
  obtain ids' where rows': "traverse (must_parse cfg) (record_ids b) = Inr ids'"
    "record_registry x = map (registry_row_of b sha (column_time cfg (exec_time cfg t)) u) ids'"
    "traverse (common_row_of cfg b (exec_time cfg t)) (common_records b) = Inr (common_events x)"
    "traverse (technical_row_of cfg b (exec_time cfg t)) (technical_records b) = Inr (technical_events x)"
    "traverse (plays_row_of cfg b (exec_time cfg t)) (plays_records b) = Inr (plays_events x)"
    "traverse (product_row_of cfg b (exec_time cfg t)) (product_records b) = Inr (product_events x)"
    "traverse (outcome_row_of cfg b (exec_time cfg t)) (outcome_records b) = Inr (product_outcomes x)"
    by (rule batch_write_rows [OF w(2) u])
  from rows(1) rows'(1) have ids: "ids' = ids" by simp
  have part: "set (record_registry v) \<subseteq> set (record_registry w) \<union> set (record_registry x)"
    "set (common_events v) \<subseteq> set (common_events w) \<union> set (common_events x)"
    "set (technical_events v) \<subseteq> set (technical_events w) \<union> set (technical_events x)"
    "set (plays_events v) \<subseteq> set (plays_events w) \<union> set (plays_events x)"
    "set (product_events v) \<subseteq> set (product_events w) \<union> set (product_events x)"
    "set (product_outcomes v) \<subseteq> set (product_outcomes w) \<union> set (product_outcomes x)"
    using w(3) by (simp_all add: within_def appended_def)
  have all: "set (record_registry w) \<subseteq> set (record_registry v) \<or> set (record_registry x) \<subseteq> set (record_registry v)"
    "set (common_events w) \<subseteq> set (common_events v) \<or> set (common_events x) \<subseteq> set (common_events v)"
    "set (technical_events w) \<subseteq> set (technical_events v) \<or> set (technical_events x) \<subseteq> set (technical_events v)"
    "set (plays_events w) \<subseteq> set (plays_events v) \<or> set (plays_events x) \<subseteq> set (plays_events v)"
    "set (product_events w) \<subseteq> set (product_events v) \<or> set (product_events x) \<subseteq> set (product_events v)"
    "set (product_outcomes w) \<subseteq> set (product_outcomes v) \<or> set (product_outcomes x) \<subseteq> set (product_outcomes v)"
    using w(4) by (auto simp: within_def)
  note vis = stream_visible [OF d own facts(2,3)]
  have trunc: "event_row.truncate x = x" for x :: "'a event_row" by (cases x) (simp add: event_row.defs)
  have "shows_rows event_key er_ingested_at (common_events w) (common_events x) (common_events d) (common_events d @ common_events v)"
    by (rule vis [OF rows(3) row_of_batch(1) rows'(3) row_of_batch(1) record_ids_parts(1) _ part(2) all(2)]) (auto simp: event_rows_def)
  moreover have "shows_rows event_key er_ingested_at (technical_events w) (technical_events x) (technical_events d) (technical_events d @ technical_events v)"
    by (rule vis [OF rows(4) row_of_batch(2) rows'(4) row_of_batch(2) record_ids_parts(2) _ part(3) all(3)]) (auto simp: event_rows_def)
  moreover have "shows_rows event_key er_ingested_at (plays_events w) (plays_events x) (plays_events d) (plays_events d @ plays_events v)"
    by (rule vis [OF rows(5) row_of_batch(3) rows'(5) row_of_batch(3) record_ids_parts(3) _ part(4) all(4)]) (auto simp: event_rows_def)
  moreover have "shows_rows event_key er_ingested_at (product_events w) (product_events x) (product_events d) (product_events d @ product_events v)"
    by (rule vis [OF rows(6) row_of_batch(4) rows'(6) row_of_batch(4) record_ids_parts(4) _ part(5) all(5)]) (auto simp: event_rows_def trunc)
  moreover have "shows_rows event_key er_ingested_at (product_outcomes w) (product_outcomes x) (product_outcomes d) (product_outcomes d @ product_outcomes v)"
    by (rule vis [OF rows(7) row_of_batch(5) rows'(7) row_of_batch(5) record_ids_parts(5) _ part(6) all(6)]) (auto simp: event_rows_def)
  moreover have "shows_rows registry_key rr_registered_at (record_registry w) (record_registry x) (record_registry d) (record_registry d @ record_registry v)"
    by (rule registry_shown [OF d own rows(1) facts(2,3) rows(2) rows'(2) [unfolded ids] part(1) all(1)])
  ultimately show ?thesis
    using w(5) by (simp add: batch_visible_def appended_def telemetry_only_def)
qed

lemma stored_completed:
  assumes "ordered_driver cfg" and "unreserved b u d0" and "stored cfg b sha u d0 d"
  shows "\<exists>t. read_ledger b u d = Some (sha, ''completed'', t)"
proof -
  from assms(3) obtain t w x v where d: "d = appended d0 v"
    and a: "attempted cfg b sha u t w x (own_ids cfg b u sha d0) v" "\<exists>l \<in> set (ingest_batches v). lr_status l = ''completed''"
    unfolding stored_def finished_def by blast
  from ledger_read [OF assms(1,2) a(1)] a(2) obtain l where "newest ledger_key lr_ingested_at (ingest_batches d)
        (product_id (header_scope (header b)), u) = Some l" "lr_body_sha l = sha" "lr_status l = ''completed''"
    unfolding d by metis
  then show ?thesis by (simp add: read_ledger_def)
qed

text \<open>Any number of attempts, then one that returns.\<close>

definition after_attempts :: "'u store_config \<Rightarrow> validated_batch \<Rightarrow> string \<Rightarrow> nat \<Rightarrow> 'u tables conn \<Rightarrow> 'u tables conn" where
  "after_attempts cfg b sha n = (\<lambda>s. snd (insert_v2 cfg b sha s)) ^^ n"

lemma retries_store_once:
  assumes "ordered_driver cfg" and "valid_batch (uuids cfg) now b"
    and u: "must_parse cfg (batch_id (header b)) = Inr u"
    and d: "linked (db s)" "unreserved b u (db s)"
    and r: "insert_v2 cfg b sha (after_attempts cfg b sha n s) = (Inr r, s')"
  shows "result_count r = record_count b
    \<and> (\<exists>t w x. writes_at cfg b sha t w x \<and> same_but_times w x \<and> batch_visible w x (db s) (db s'))
    \<and> (\<exists>t. read_ledger b u (db s') = Some (sha, ''completed'', t))"
proof -
  note facts = valid_batch_facts [OF assms(2)]
  note attempt = insert_v2_attempt [OF assms(1) u facts(1) facts(5) d(2)]
  have step: "keeps (\<lambda>x. tried cfg b sha u (db s) (db x)) (insert_v2 cfg b sha)"
    unfolding keeps_def by (rule valid_post [OF attempt]) (auto dest: stored_tried)
  have "tried cfg b sha u (db s) (db (after_attempts cfg b sha n s))"
    by (induction n) (auto simp: after_attempts_def tried_def [of _ _ _ _ "db s" "db s"] dest: keepsD [OF step])
  from validD [OF attempt this r] have st: "stored cfg b sha u (db s) (db s')" and "result_count r = record_count b"
    by auto
  moreover from st obtain t w x v where "db s' = appended (db s) v" "finished cfg b sha u t w x (own_ids cfg b u sha (db s)) v"
    by (auto simp: stored_def)
  moreover from this(2) have "writes_at cfg b sha t w x" by (simp add: finished_def attempted_def)
  ultimately show ?thesis
    using finished_visible [OF assms(2) u d] stored_completed [OF assms(1) d(2) st] writes_same_but_times [OF _ u] by metis
qed

end
