(* ===== verification/Erasure_Invariant.thy ===== *)
theory Erasure_Invariant
  imports Store_Privacy Store_V2_Retries
begin

section \<open>The invariant of the store under privacy requests\<close>

text \<open>
  \<open>erasure_inv\<close> is what the tables satisfy between any two operations: all rows of a request agree
  on what it is, a table whose deletion is recorded as completed holds no row that the request
  names, a deletion request is completed only when all its tables are, every event has its
  registry row and every registry row its ledger row, and a ledger row carries the scope of the
  batch whose digest it holds. \<open>content\<close> gives the batch of a digest: two bodies with one SHA-256
  are not considered. The last parts show that the writes of a status, of a deletion and of an
  insert keep it. The retention times of the tables (TTL) are the server's and are not modelled.
\<close>

subsection \<open>Requests\<close>

definition uuid_round_trip :: "'u uuid_lib \<Rightarrow> bool" where
  "uuid_round_trip lib \<longleftrightarrow> (\<forall>u. uuid_parse lib (uuid_string lib u) = Some u)"

definition known_work :: "'u store_config \<Rightarrow> privacy_work \<Rightarrow> 'u tables \<Rightarrow> bool" where
  "known_work cfg q d \<longleftrightarrow>
     (\<exists>r \<in> set (suppressions d). scan_request cfg r = Inr (q\<lparr>pq_attempts := sr_attempts r\<rparr>))"

text \<open>
  A time in a column is one that binding produces. The version of a status row is the one of
  privacyStatusVersion after binding: with whole seconds, the attempts within one second of versions
  have the same.
\<close>

definition stored_time :: "'u store_config \<Rightarrow> time \<Rightarrow> bool" where
  "stored_time cfg t \<longleftrightarrow> exec_time cfg t = t"

definition row_version :: "'u store_config \<Rightarrow> 'u suppression_row \<Rightarrow> time" where
  "row_version cfg r =
     (if sr_status r = ''pending'' then sr_ingested_at r
      else exec_time cfg (sr_ingested_at r + (uint (sr_attempts r) * 4 + status_phase (sr_status r)) * millisecond))"

definition request_ok :: "'u store_config \<Rightarrow> 'u suppression_row \<Rightarrow> bool" where
  "request_ok cfg r \<longleftrightarrow>
     sr_active r \<and> col_product_key r \<noteq> None \<and> col_subject_key r \<noteq> None
     \<and> stored_time cfg (sr_requested_at r) \<and> stored_time cfg (sr_ingested_at r) \<and> opt_all (stored_time cfg) (sr_expires_at r)
     \<and> (sr_status r = ''pending'' \<longrightarrow> sr_attempts r = 0) \<and> sr_updated_at r = row_version cfg r"

definition requests_ok :: "'u store_config \<Rightarrow> 'u tables \<Rightarrow> bool" where
  "requests_ok cfg d \<longleftrightarrow>
     (\<forall>r \<in> set (suppressions d). request_ok cfg r)
     \<and> (\<forall>r \<in> set (suppressions d). \<forall>r' \<in> set (suppressions d). suppression_key r = suppression_key r' \<longrightarrow>
          (\<forall>q q'. scan_request cfg r = Inr q \<longrightarrow> scan_request cfg r' = Inr q' \<longrightarrow> q' = q\<lparr>pq_attempts := pq_attempts q'\<rparr>))"

definition erased_from :: "'u store_config \<Rightarrow> privacy_work \<Rightarrow> string \<Rightarrow> 'u tables \<Rightarrow> bool" where
  "erased_from cfg q tab d \<longleftrightarrow>
     (case pq_legacy q of
        None \<Rightarrow>
          (tab = ''common_events_v2'' \<longrightarrow> (\<forall>r \<in> set (common_events d). \<not> work_match q r))
          \<and> (tab = ''technical_events_v2'' \<longrightarrow> (\<forall>r \<in> set (technical_events d). \<not> work_match q r))
          \<and> (tab = ''plays_events_v2'' \<longrightarrow> (\<forall>r \<in> set (plays_events d). \<not> work_match q r))
          \<and> (tab = ''product_events_v2'' \<longrightarrow> (\<forall>r \<in> set (product_events d). \<not> work_match q r))
          \<and> (tab = ''product_outcomes_v2'' \<longrightarrow> (\<forall>r \<in> set (product_outcomes d). \<not> work_match q r))
          \<and> (tab = ''record_registry_v2'' \<longrightarrow> (\<forall>r \<in> set (record_registry d). \<not> work_match q r))
          \<and> (tab = ''ingest_batches_v2'' \<longrightarrow> (\<forall>r \<in> set (ingest_batches d). \<not> work_match q r))
      | Some i \<Rightarrow>
          (tab = ''events'' \<longrightarrow> (\<forall>r \<in> set (v1_events d). uuid_parse (uuids cfg) i \<noteq> Some (v1e_installation r)))
          \<and> (tab = ''session_summaries'' \<longrightarrow>
               (\<forall>r \<in> set (v1_summaries d). uuid_parse (uuids cfg) i \<noteq> Some (v1s_installation r))))"

definition work_key :: "'u store_config \<Rightarrow> privacy_work \<Rightarrow> string \<times> 'u option" where
  "work_key cfg q = (product_id (pq_scope q), uuid_parse (uuids cfg) (pq_request_id q))"

definition table_done :: "'u store_config \<Rightarrow> privacy_work \<Rightarrow> 'u tables \<Rightarrow> string \<Rightarrow> bool" where
  "table_done cfg q d tab \<longleftrightarrow>
     (\<exists>g \<in> set (deletion_progress d). gr_status g = ''completed'' \<and> gr_table g = tab
        \<and> (gr_product g, Some (gr_request_id g)) = work_key cfg q)"

definition progress_done :: "'u store_config \<Rightarrow> privacy_work \<Rightarrow> 'u tables \<Rightarrow> bool" where
  "progress_done cfg q d \<longleftrightarrow> (\<forall>tab \<in> set (deletion_tables q). table_done cfg q d tab)"

definition progress_ok :: "'u store_config \<Rightarrow> 'u tables \<Rightarrow> bool" where
  "progress_ok cfg d \<longleftrightarrow>
     (\<forall>g \<in> set (deletion_progress d). gr_status g = ''completed'' \<longrightarrow>
        (\<exists>q. known_work cfg q d \<and> (gr_product g, Some (gr_request_id g)) = work_key cfg q
           \<and> erased_from cfg q (gr_table g) d))"

definition completed_ok :: "'u store_config \<Rightarrow> 'u tables \<Rightarrow> bool" where
  "completed_ok cfg d \<longleftrightarrow>
     (\<forall>r \<in> set (suppressions d). \<forall>q. sr_status r = ''completed'' \<longrightarrow> scan_request cfg r = Inr q \<longrightarrow>
        pq_action q = PrivacyDelete \<longrightarrow> progress_done cfg q d)"

definition ledger_ok :: "(string \<Rightarrow> validated_batch) \<Rightarrow> 'u tables \<Rightarrow> bool" where
  "ledger_ok content d \<longleftrightarrow>
     (\<forall>l \<in> set (ingest_batches d). scope_columns.truncate l = batch_columns (content (lr_body_sha l)))"

definition erasure_inv :: "'u store_config \<Rightarrow> (string \<Rightarrow> validated_batch) \<Rightarrow> 'u tables \<Rightarrow> bool" where
  "erasure_inv cfg content d \<longleftrightarrow>
     requests_ok cfg d \<and> progress_ok cfg d \<and> completed_ok cfg d \<and> linked d \<and> ledger_ok content d"

lemma erasure_inv_no_rows: "erasure_inv cfg content no_rows"
  by (simp add: erasure_inv_def requests_ok_def progress_ok_def completed_ok_def linked_def ledger_ok_def
      no_rows_def event_rows_def)

text \<open>Nothing here depends on the number of attempts.\<close>

lemma work_match_attempts [simp]: "work_match (q\<lparr>pq_attempts := a\<rparr>) = work_match q"
  by (simp add: work_match_def)

lemma attempts_free_simps [simp]:
  "known_work cfg (q\<lparr>pq_attempts := a\<rparr>) d = known_work cfg q d"
  "erased_from cfg (q\<lparr>pq_attempts := a\<rparr>) tab d = erased_from cfg q tab d"
  "work_key cfg (q\<lparr>pq_attempts := a\<rparr>) = work_key cfg q"
  "deletion_tables (q\<lparr>pq_attempts := a\<rparr>) = deletion_tables q"
  "work_columns (q\<lparr>pq_attempts := a\<rparr>) = work_columns q"
  by (simp_all add: known_work_def erased_from_def work_key_def deletion_tables_def
      work_columns_def Let_def cong: option.case_cong)

lemma table_done_attempts [simp]:
  "table_done cfg (q\<lparr>pq_attempts := a\<rparr>) d tab = table_done cfg q d tab"
  "progress_done cfg (q\<lparr>pq_attempts := a\<rparr>) d = progress_done cfg q d"
  by (simp_all add: table_done_def progress_done_def)

subsection \<open>A known request and its row\<close>

lemma scan_request_ok:
  "request_ok cfg r \<Longrightarrow> \<exists>q. scan_request cfg r = Inr q \<and> pq_attempts q = sr_attempts r"
  by (auto simp: request_ok_def scan_request_def)

lemma scan_request_fields:
  assumes "scan_request cfg r = Inr q" and "request_ok cfg r"
  shows "work_columns q = scope_columns.truncate r" "product_id (pq_scope q) = col_product r"
    "pq_request_id q = uuid_string (uuids cfg) (sr_request_id r)" "pq_action q = sr_action r"
    "pq_legacy q = map_option (uuid_string (uuids cfg)) (sr_legacy_installation r)"
    "pq_attempts q = sr_attempts r" "pq_ingested_at q = sr_ingested_at r" "pq_requested_at q = sr_requested_at r"
    "pq_expires_at q = sr_expires_at r" "pq_body_sha q = sr_body_sha r"
    "col_product_key r = Some (pq_product_key q)" "col_subject_key r = Some (subject_key (pq_scope q))"
    "col_person_key r = person_key (pq_scope q)" "col_org_key r = org_key (pq_scope q)"
  using assms
  by (cases r; auto simp: scan_request_def request_ok_def work_columns_def Let_def string_value_def
      scope_columns.defs split: option.splits)+

lemma known_workE:
  assumes "requests_ok cfg d" and "known_work cfg q d"
  obtains r where "r \<in> set (suppressions d)" "request_ok cfg r"
    "scan_request cfg r = Inr (q\<lparr>pq_attempts := sr_attempts r\<rparr>)"
  using assms by (auto simp: known_work_def requests_ok_def)

lemma work_key_row:
  assumes "uuid_round_trip (uuids cfg)" and "scan_request cfg r = Inr q"
  shows "work_key cfg q = (fst (suppression_key r), Some (snd (suppression_key r)))"
  using assms by (auto simp: work_key_def scan_request_def suppression_key_def uuid_round_trip_def split: option.splits)

lemma known_unique:
  assumes "uuid_round_trip (uuids cfg)" and ok: "requests_ok cfg d"
    and "known_work cfg q d" "known_work cfg q' d" "work_key cfg q = work_key cfg q'"
  shows "q' = q\<lparr>pq_attempts := pq_attempts q'\<rparr>"
proof -
  from ok assms(3) obtain r where r: "r \<in> set (suppressions d)" "scan_request cfg r = Inr (q\<lparr>pq_attempts := sr_attempts r\<rparr>)"
    by (rule known_workE)
  from ok assms(4) obtain r' where r': "r' \<in> set (suppressions d)" "scan_request cfg r' = Inr (q'\<lparr>pq_attempts := sr_attempts r'\<rparr>)"
    by (rule known_workE)
  from assms(5) work_key_row [OF assms(1) r(2)] work_key_row [OF assms(1) r'(2)] have "suppression_key r = suppression_key r'"
    by (simp add: prod_eq_iff)
  with ok r r' have "q'\<lparr>pq_attempts := sr_attempts r'\<rparr> = q\<lparr>pq_attempts := sr_attempts r, pq_attempts := sr_attempts r'\<rparr>"
    unfolding requests_ok_def by fastforce
  then show ?thesis by (cases q; cases q') simp
qed

lemma known_row:
  assumes lib: "uuid_round_trip (uuids cfg)" and ok: "requests_ok cfg d" and "known_work cfg q d"
  obtains r where "r \<in> set (suppressions d)" "request_ok cfg r" "scan_request cfg r = Inr (q\<lparr>pq_attempts := sr_attempts r\<rparr>)"
    "must_parse cfg (pq_request_id q) = Inr (sr_request_id r)" "legacy_value cfg q = Inr (sr_legacy_installation r)"
    "suppression_key r = (product_id (pq_scope q), sr_request_id r)" "pq_action q = sr_action r"
    "newest suppression_key sr_updated_at (suppressions d) (suppression_key r) = Some r"
proof -
  from ok assms(3) obtain r0 where r0: "r0 \<in> set (suppressions d)" "scan_request cfg r0 = Inr (q\<lparr>pq_attempts := sr_attempts r0\<rparr>)"
    by (rule known_workE)
  let ?new = "newest suppression_key sr_updated_at (suppressions d) (suppression_key r0)"
  from r0(1) have "?new \<noteq> None" by (auto simp: newest_None)
  then obtain r where new: "?new = Some r" by auto
  from newest_Some [OF this] have r: "r \<in> set (suppressions d)" "suppression_key r = suppression_key r0" by auto
  from ok r(1) have rok: "request_ok cfg r" by (simp add: requests_ok_def)
  from scan_request_ok [OF this] obtain q' where q': "scan_request cfg r = Inr q'" "pq_attempts q' = sr_attempts r" by blast
  from ok r r0 q'(1) have "q' = q\<lparr>pq_attempts := sr_attempts r0, pq_attempts := pq_attempts q'\<rparr>"
    unfolding requests_ok_def by metis
  with q' have scan: "scan_request cfg r = Inr (q\<lparr>pq_attempts := sr_attempts r\<rparr>)" by simp
  note f = scan_request_fields [OF scan rok]
  show thesis
  proof (rule that [OF r(1) rok scan])
    from lib f(3) show "must_parse cfg (pq_request_id q) = Inr (sr_request_id r)"
      by (simp add: must_parse_Inr uuid_round_trip_def)
    from lib f(5) show "legacy_value cfg q = Inr (sr_legacy_installation r)"
      by (cases "sr_legacy_installation r") (simp_all add: legacy_value_def uuid_round_trip_def)
    from f(2) show "suppression_key r = (product_id (pq_scope q), sr_request_id r)" by (simp add: suppression_key_def)
    from f(4) show "pq_action q = sr_action r" by simp
    from new r(2) show "newest suppression_key sr_updated_at (suppressions d) (suppression_key r) = Some r" by simp
  qed
qed

subsection \<open>Writing a status\<close>

lemma erased_from_other [simp]:
  "erased_from cfg q tab (suppressions_update f d) = erased_from cfg q tab d"
  "erased_from cfg q tab (deletion_progress_update g d) = erased_from cfg q tab d"
  by (simp_all add: erased_from_def cong: option.case_cong)

lemma event_rows_other [simp]:
  "event_rows (suppressions_update f d) = event_rows d" "event_rows (deletion_progress_update g d) = event_rows d"
  by (simp_all add: event_rows_def)

lemma known_work_mono:
  "known_work cfg q d \<Longrightarrow> set (suppressions d) \<subseteq> set (suppressions d') \<Longrightarrow> known_work cfg q d'"
  by (auto simp: known_work_def)

lemma exec_time_stored: "ordered_driver cfg \<Longrightarrow> stored_time cfg (exec_time cfg t)"
  by (simp add: ordered_driverD(2) stored_time_def)

lemma status_row_facts:
  fixes failure :: "string option" and att :: "16 word" and available :: time and lease :: "time option"
  assumes lib: "uuid_round_trip (uuids cfg)" and r: "request_ok cfg r"
    "scan_request cfg r = Inr (q\<lparr>pq_attempts := sr_attempts r\<rparr>)" and st: "status \<noteq> ''pending''"
  defines "x \<equiv> status_row cfg q status failure att available lease (sr_request_id r) (sr_legacy_installation r)"
  shows "request_ok cfg x" "scan_request cfg x = Inr (q\<lparr>pq_attempts := att\<rparr>)" "sr_status x = status"
    "suppression_key x = suppression_key r" "sr_updated_at x = exec_time cfg (privacy_status_version q status att)"
    "sr_attempts x = att" "sr_lease_until x = map_option (exec_time cfg) lease"
proof -
  note f = scan_request_fields [OF r(2,1), simplified]
  from r(1) have t: "stored_time cfg (pq_requested_at q)" "stored_time cfg (pq_ingested_at q)"
      "opt_all (stored_time cfg) (pq_expires_at q)"
    unfolding f(7-9) by (simp_all add: request_ok_def)
  then have e: "exec_time cfg (pq_requested_at q) = pq_requested_at q" "exec_time cfg (pq_ingested_at q) = pq_ingested_at q"
    by (simp_all add: stored_time_def)
  have ex: "map_option (exec_time cfg) (pq_expires_at q) = pq_expires_at q"
    using t(3) by (cases "pq_expires_at q") (simp_all add: stored_time_def)
  have scope: "scope_columns.truncate r = work_columns q" using f(1) by simp
  from r(1) have "col_product_key r \<noteq> None" "col_subject_key r \<noteq> None" by (simp_all add: request_ok_def)
  then show "request_ok cfg x"
    using t st unfolding x_def status_row_def
    by (simp add: request_ok_def scope_columns.defs suppression_row.defs work_columns_def Let_def e ex row_version_def
        privacy_status_version_def)
  show "scan_request cfg x = Inr (q\<lparr>pq_attempts := att\<rparr>)"
    unfolding x_def status_row_def
    by (simp add: scan_request_def scope_columns.defs suppression_row.defs work_columns_def Let_def e ex
        string_value_def)
      (use f(3,5) in \<open>cases q; cases "pq_scope q"; simp\<close>)
  show "sr_status x = status" "sr_attempts x = att" "sr_lease_until x = map_option (exec_time cfg) lease"
    by (simp_all add: x_def status_row_def scope_columns.defs suppression_row.defs)
  show "suppression_key x = suppression_key r"
    using f(2) by (simp add: x_def status_row_def suppression_key_def scope_columns.defs suppression_row.defs
        work_columns_def Let_def)
  show "sr_updated_at x = exec_time cfg (privacy_status_version q status att)"
    by (simp add: x_def status_row_def scope_columns.defs suppression_row.defs)
qed

lemma add_request_row:
  assumes inv: "erasure_inv cfg content d" and x: "request_ok cfg x" "scan_request cfg x = Inr q"
    and same: "\<And>r q'. r \<in> set (suppressions d) \<Longrightarrow> suppression_key r = suppression_key x \<Longrightarrow>
      scan_request cfg r = Inr q' \<Longrightarrow> q' = q\<lparr>pq_attempts := pq_attempts q'\<rparr>"
    and fin: "sr_status x = ''completed'' \<Longrightarrow> pq_action q = PrivacyDelete \<Longrightarrow> progress_done cfg q d"
    and sub: "set (suppressions d) \<subseteq> set xs" "set xs \<subseteq> insert x (set (suppressions d))"
  shows "erasure_inv cfg content (d\<lparr>suppressions := xs\<rparr>)"
proof -
  let ?d = "d\<lparr>suppressions := xs\<rparr>"
  have upd: "?d = suppressions_update (\<lambda>_. xs) d" by simp
  from inv have ok: "requests_ok cfg d" "progress_ok cfg d" "completed_ok cfg d" "linked d" "ledger_ok content d"
    by (simp_all add: erasure_inv_def)
  have known: "known_work cfg q' d \<Longrightarrow> known_work cfg q' ?d" for q'
    by (erule known_work_mono) (simp add: sub(1))
  have swap: "q = q'\<lparr>pq_attempts := pq_attempts q\<rparr>" if "q' = q\<lparr>pq_attempts := pq_attempts q'\<rparr>" for q'
    using that by (cases q; cases q') simp
  have "requests_ok cfg ?d"
    unfolding requests_ok_def
  proof (intro conjI ballI impI allI)
    fix r assume "r \<in> set (suppressions ?d)"
    with sub(2) ok(1) x(1) show "request_ok cfg r" by (auto simp: requests_ok_def)
  next
    fix r r' p p' assume *: "r \<in> set (suppressions ?d)" "r' \<in> set (suppressions ?d)"
      "suppression_key r = suppression_key r'" "scan_request cfg r = Inr p" "scan_request cfg r' = Inr p'"
    with sub(2) consider "r = x" "r' = x" | "r = x" "r' \<in> set (suppressions d)" | "r \<in> set (suppressions d)" "r' = x"
      | "r \<in> set (suppressions d)" "r' \<in> set (suppressions d)" by auto
    then show "p' = p\<lparr>pq_attempts := pq_attempts p'\<rparr>"
    proof cases
      case 1
      with * show ?thesis by (cases p) simp
    next
      case 2
      with same [of r' p'] * x(2) show ?thesis by simp
    next
      case 3
      with same [of r p] * x(2) swap [of p] show ?thesis by simp
    next
      case 4
      with * ok(1) show ?thesis unfolding requests_ok_def by blast
    qed
  qed
  moreover have "progress_ok cfg ?d"
  proof -
    have "erased_from cfg q' tab ?d = erased_from cfg q' tab d" for q' tab
      by (simp add: erased_from_def cong: option.case_cong)
    moreover have "deletion_progress ?d = deletion_progress d" by simp
    ultimately show ?thesis using ok(2) known unfolding progress_ok_def by metis
  qed
  moreover have prog: "progress_done cfg q' ?d = progress_done cfg q' d" for q'
    by (simp add: progress_done_def table_done_def)
  have "completed_ok cfg ?d"
    unfolding completed_ok_def prog
  proof (intro ballI allI impI)
    fix r p assume "r \<in> set (suppressions ?d)" "sr_status r = ''completed''" "scan_request cfg r = Inr p"
      "pq_action p = PrivacyDelete"
    with sub(2) ok(3) x(2) fin show "progress_done cfg p d" by (auto simp: completed_ok_def)
  qed
  moreover have "linked ?d" "ledger_ok content ?d"
    using ok(4,5) event_rows_other(1) [of "\<lambda>_. xs" d] by (simp_all add: linked_def ledger_ok_def)
  ultimately show ?thesis by (simp add: erasure_inv_def)
qed

lemma add_status:
  assumes lib: "uuid_round_trip (uuids cfg)" and inv: "erasure_inv cfg content d"
    and r: "r \<in> set (suppressions d)" "request_ok cfg r" "scan_request cfg r = Inr (q\<lparr>pq_attempts := sr_attempts r\<rparr>)"
    and st: "status \<noteq> ''pending''"
    and fin: "status = ''completed'' \<Longrightarrow> pq_action q = PrivacyDelete \<Longrightarrow> progress_done cfg q d"
  shows "erasure_inv cfg content (suppressions_update (insert_rows
      [status_row cfg q status failure att available lease (sr_request_id r) (sr_legacy_installation r)] part) d)"
proof -
  let ?x = "status_row cfg q status failure att available lease (sr_request_id r) (sr_legacy_installation r)"
  note f = status_row_facts [OF lib r(2,3) st]
  obtain xs where xs: "insert_rows [?x] part = (\<lambda>t. t @ xs)" "set xs \<subseteq> set [?x]" by (rule insert_rows_part)
  have "erasure_inv cfg content (d\<lparr>suppressions := suppressions d @ xs\<rparr>)"
  proof (rule add_request_row [OF inv f(1,2)])
    fix r' q' assume r': "r' \<in> set (suppressions d)" "suppression_key r' = suppression_key ?x" "scan_request cfg r' = Inr q'"
    with inv r f(4) have "q' = q\<lparr>pq_attempts := sr_attempts r, pq_attempts := pq_attempts q'\<rparr>"
      unfolding erasure_inv_def requests_ok_def by metis
    then show "q' = q\<lparr>pq_attempts := att, pq_attempts := pq_attempts q'\<rparr>" by simp
  qed (use fin f(3) xs(2) in auto)
  moreover have "suppressions_update (\<lambda>t. t @ xs) d = d\<lparr>suppressions := suppressions d @ xs\<rparr>" by (cases d) simp
  ultimately show ?thesis by (simp only: xs(1))
qed

subsection \<open>Deleting rows\<close>

definition shrunk :: "'u tables \<Rightarrow> 'u tables \<Rightarrow> bool" where
  "shrunk d' d \<longleftrightarrow>
     suppressions d' = suppressions d \<and> deletion_progress d' = deletion_progress d
     \<and> set (common_events d') \<subseteq> set (common_events d) \<and> set (technical_events d') \<subseteq> set (technical_events d)
     \<and> set (plays_events d') \<subseteq> set (plays_events d) \<and> set (product_events d') \<subseteq> set (product_events d)
     \<and> set (product_outcomes d') \<subseteq> set (product_outcomes d) \<and> set (record_registry d') \<subseteq> set (record_registry d)
     \<and> set (ingest_batches d') \<subseteq> set (ingest_batches d) \<and> set (v1_events d') \<subseteq> set (v1_events d)
     \<and> set (v1_summaries d') \<subseteq> set (v1_summaries d)"

lemma erased_from_shrunk: "erased_from cfg q tab d \<Longrightarrow> shrunk d' d \<Longrightarrow> erased_from cfg q tab d'"
  by (cases "pq_legacy q") (auto simp: erased_from_def shrunk_def subset_iff)

lemma erasure_inv_shrunk:
  assumes "erasure_inv cfg content d" and s: "shrunk d' d" and "linked d'"
  shows "erasure_inv cfg content d'"
proof -
  from s have same: "suppressions d' = suppressions d" "deletion_progress d' = deletion_progress d"
    and sub: "set (ingest_batches d') \<subseteq> set (ingest_batches d)" by (simp_all add: shrunk_def)
  have "known_work cfg q d' = known_work cfg q d" "progress_done cfg q d' = progress_done cfg q d" for q
    by (simp_all add: known_work_def progress_done_def table_done_def same)
  with assms(1,3) sub erased_from_shrunk [OF _ s] show ?thesis
    unfolding erasure_inv_def requests_ok_def progress_ok_def completed_ok_def ledger_ok_def same by blast
qed

lemma work_match_truncate: "work_match q x \<longleftrightarrow> work_match q (scope_columns.truncate x)"
  by (cases x) (simp add: work_match_def scope_match_def scope_columns.defs)

lemma work_match_same: "same_scope x y \<Longrightarrow> work_match q x = work_match q y"
  unfolding same_scope_def using work_match_truncate [of q x] work_match_truncate [of q y] by simp

lemma work_match_event: "work_match q (event_row.truncate x) = work_match q x"
  by (cases x) (simp add: work_match_def scope_match_def event_row.defs)

definition event_tables :: "string list" where
  "event_tables = [''common_events_v2'', ''technical_events_v2'', ''plays_events_v2'', ''product_events_v2'', ''product_outcomes_v2'']"

lemma erased_events:
  assumes "pq_legacy q = None" and "\<forall>tab \<in> set event_tables. erased_from cfg q tab d" and "e \<in> set (event_rows d)"
  shows "\<not> work_match q e"
  using assms by (auto simp: erased_from_def event_tables_def event_rows_def work_match_event)

lemma delete_scope_simps [simp]:
  "common_events (delete_scope tab q part d) =
     (if tab = ''common_events_v2'' then delete_rows (work_match q) part (common_events d) else common_events d)"
  "technical_events (delete_scope tab q part d) =
     (if tab = ''technical_events_v2'' then delete_rows (work_match q) part (technical_events d) else technical_events d)"
  "plays_events (delete_scope tab q part d) =
     (if tab = ''plays_events_v2'' then delete_rows (work_match q) part (plays_events d) else plays_events d)"
  "product_events (delete_scope tab q part d) =
     (if tab = ''product_events_v2'' then delete_rows (work_match q) part (product_events d) else product_events d)"
  "product_outcomes (delete_scope tab q part d) =
     (if tab = ''product_outcomes_v2'' then delete_rows (work_match q) part (product_outcomes d) else product_outcomes d)"
  "record_registry (delete_scope tab q part d) =
     (if tab = ''record_registry_v2'' then delete_rows (work_match q) part (record_registry d) else record_registry d)"
  "ingest_batches (delete_scope tab q part d) =
     (if tab = ''ingest_batches_v2'' then delete_rows (work_match q) part (ingest_batches d) else ingest_batches d)"
  "suppressions (delete_scope tab q part d) = suppressions d"
  "deletion_progress (delete_scope tab q part d) = deletion_progress d"
  "v1_events (delete_scope tab q part d) = v1_events d" "v1_summaries (delete_scope tab q part d) = v1_summaries d"
  by (simp_all add: delete_scope_def)

lemma delete_shrunk: "shrunk (delete_scope tab q part d) d" "shrunk (delete_installation tab u part d) d"
  by (simp_all add: shrunk_def delete_installation_def delete_rows_set)

lemma event_rows_shrunk: "shrunk d' d \<Longrightarrow> set (event_rows d') \<subseteq> set (event_rows d)"
  by (auto simp: shrunk_def event_rows_def)

lemma linked_delete_scope:
  assumes l: "linked d" and q: "pq_legacy q = None"
    and events: "tab = ''record_registry_v2'' \<Longrightarrow> \<forall>t \<in> set event_tables. erased_from cfg q t d"
    and registry: "tab = ''ingest_batches_v2'' \<Longrightarrow> erased_from cfg q ''record_registry_v2'' d"
  shows "linked (delete_scope tab q part d)"
proof -
  let ?d = "delete_scope tab q part d"
  have ev: "e \<in> set (event_rows ?d) \<Longrightarrow> e \<in> set (event_rows d)" for e
    using event_rows_shrunk [OF delete_shrunk(1)] by blast
  have reg: "g \<in> set (record_registry ?d) \<Longrightarrow> g \<in> set (record_registry d)" for g
    using delete_shrunk(1) [of tab q part d] unfolding shrunk_def by blast
  have reg_kept: "g \<in> set (record_registry ?d)"
    if "g \<in> set (record_registry d)" "tab = ''record_registry_v2'' \<longrightarrow> \<not> work_match q g" for g
    using that by (auto intro: delete_rows_keeps)
  have led_kept: "g \<in> set (ingest_batches ?d)"
    if "g \<in> set (ingest_batches d)" "tab = ''ingest_batches_v2'' \<longrightarrow> \<not> work_match q g" for g
    using that by (auto intro: delete_rows_keeps)
  show ?thesis
    unfolding linked_def
  proof (intro conjI ballI)
    fix e assume "e \<in> set (event_rows ?d)"
    then have e: "e \<in> set (event_rows d)" by (rule ev)
    with l obtain g where g: "g \<in> set (record_registry d)" "same_scope e g" "rr_record_id g = er_record_id e"
      "rr_batch_id g = er_batch_id e" by (auto simp: linked_def)
    have "tab = ''record_registry_v2'' \<longrightarrow> \<not> work_match q g"
      using erased_events [OF q events e] work_match_same [OF g(2)] by simp
    from reg_kept [OF g(1) this] g(2-4) show "\<exists>g \<in> set (record_registry ?d).
        same_scope e g \<and> rr_record_id g = er_record_id e \<and> rr_batch_id g = er_batch_id e" by blast
  next
    fix g assume "g \<in> set (record_registry ?d)"
    then have g: "g \<in> set (record_registry d)" by (rule reg)
    with l obtain b where b: "b \<in> set (ingest_batches d)" "same_scope g b" "lr_batch_id b = rr_batch_id g"
      by (auto simp: linked_def)
    have "tab = ''ingest_batches_v2'' \<longrightarrow> \<not> work_match q b"
    proof
      assume "tab = ''ingest_batches_v2''"
      from registry [OF this] g q have "\<not> work_match q g" by (simp add: erased_from_def)
      then show "\<not> work_match q b" using work_match_same [OF b(2)] by simp
    qed
    from led_kept [OF b(1) this] b(2,3) show "\<exists>l \<in> set (ingest_batches ?d). same_scope g l \<and> lr_batch_id l = rr_batch_id g"
      by blast
  qed
qed

lemma delete_erases:
  "pq_legacy q = None \<Longrightarrow> erased_from cfg q tab (delete_scope tab q None d)"
  "pq_legacy q = Some i \<Longrightarrow> must_parse cfg i = Inr u \<Longrightarrow> erased_from cfg q tab (delete_installation tab u None d)"
  by (auto simp: erased_from_def delete_installation_def must_parse_Inr)

lemma linked_delete_installation: "linked d \<Longrightarrow> linked (delete_installation tab u part d)"
  by (simp add: linked_def delete_installation_def event_rows_def)

end
