(* ===== verification/Store_V1_Fundraising.thy ===== *)
theory Store_V1_Fundraising
  imports ClickHouse_Tables
begin

section \<open>internal/clickhouse: V1 batches and fundraising batches\<close>

text \<open>
  store.go (Insert with its two tables and the suppression check) and store_fundraising.go (the
  ledger of reservations and the events). V1 has no ledger: the tables keep the newest version of
  an event or session, and a suppressed installation stops the whole batch
  (\<open>insert_v1_suppressed\<close>). InsertFundraising is the scheme of InsertV2 without a registry.
\<close>

subsection \<open>V1\<close>

definition v1_installations :: "'u store_config \<Rightarrow> validated_batch_v1 \<Rightarrow> 'u list result" where
  "v1_installations cfg b =
     traverse (must_parse cfg)
       (map (\<lambda>e. ev_installation_id (ve_event e)) (vb_events b)
        @ map (\<lambda>s. su_installation_id (vs_summary s)) (vb_summaries b))"

definition suppressed_installation :: "'u list \<Rightarrow> 'u tables \<Rightarrow> bool" where
  "suppressed_installation ids d =
     list_ex (\<lambda>r. sr_active r \<and> (case sr_legacy_installation r of None \<Rightarrow> False | Some i \<Rightarrow> i \<in> set ids))
       (final_rows (\<lambda>r. (col_product r, sr_request_id r)) sr_updated_at (suppressions d))"

definition v1_batch_suppressed :: "'u store_config \<Rightarrow> validated_batch_v1 \<Rightarrow> ('u, bool) store_action" where
  "v1_batch_suppressed cfg b =
     seq (lift (v1_installations cfg b)) (\<lambda>ids.
       if ids = [] then ret False
       else wrapping ''query V1 privacy suppression'' (query (suppressed_installation ids)))"

definition v1_event_row_of ::
  "'u store_config \<Rightarrow> time \<Rightarrow> validated_event_v1 \<Rightarrow> 'u v1_event_row result" where
  "v1_event_row_of cfg t v =
     (let e = ve_event v in
      andthen (must_parse cfg (ev_id e)) (\<lambda>i.
      andthen (must_parse cfg (ev_installation_id e)) (\<lambda>inst.
      andthen (must_parse cfg (ev_app_session_id e)) (\<lambda>session.
      andthen (nullable_uuid cfg (ev_game_session_id e)) (\<lambda>game.
        Inr \<lparr>v1e_event_id = i, v1e_installation = inst, v1e_app_session = session,
             v1e_game_session = game, v1e_name = ev_name e,
             v1e_occurred_at = column_time cfg (ve_occurred_at v), v1e_app = ev_app e,
             v1e_dimensions = ve_dimensions v, v1e_ingested_at = column_time cfg t\<rparr>)))))"

definition v1_summary_row_of ::
  "'u store_config \<Rightarrow> time \<Rightarrow> validated_summary \<Rightarrow> 'u v1_summary_row result" where
  "v1_summary_row_of cfg t v =
     (let s = vs_summary v in
      andthen (must_parse cfg (su_session_id s)) (\<lambda>i.
      andthen (must_parse cfg (su_installation_id s)) (\<lambda>inst.
      andthen (must_parse cfg (su_app_session_id s)) (\<lambda>session.
      andthen (nullable_uuid cfg (su_game_session_id s)) (\<lambda>game.
        Inr \<lparr>v1s_session_id = i, v1s_installation = inst, v1s_app_session = session,
             v1s_game_session = game, v1s_started_at = column_time cfg (vs_started_at v),
             v1s_ended_at = column_time cfg (vs_ended_at v), v1s_numbers = s,
             v1s_menu_mode = nullable_string (su_menu_mode s),
             v1s_game_category = nullable_string (su_game_category s),
             v1s_input_method = nullable_string (su_input_method s),
             v1s_finish_reason = nullable_string (su_finish_reason s),
             v1s_result = nullable_string (su_result s),
             v1s_interruption_reason = nullable_string (su_interruption_reason s),
             v1s_ingested_at = column_time cfg t\<rparr>)))))"

definition insert_events_v1 :: "'u store_config \<Rightarrow> validated_event_v1 list \<Rightarrow> time \<Rightarrow> ('u, unit) store_action" where
  "insert_events_v1 cfg es t =
     prepare_and_send ''prepare events batch'' ''send events batch''
       (traverse (v1_event_row_of cfg t) es) v1_events_update"

definition insert_summaries_v1 :: "'u store_config \<Rightarrow> validated_summary list \<Rightarrow> time \<Rightarrow> ('u, unit) store_action" where
  "insert_summaries_v1 cfg ss t =
     prepare_and_send ''prepare session summaries batch'' ''send session summaries batch''
       (traverse (v1_summary_row_of cfg t) ss) v1_summaries_update"

definition insert_v1 :: "'u store_config \<Rightarrow> validated_batch_v1 \<Rightarrow> ('u, unit) store_action" where
  "insert_v1 cfg b =
     seq (v1_batch_suppressed cfg b) (\<lambda>suppressed.
       if suppressed then fail ErrSuppressed
       else
         seq time_now (\<lambda>t.
         seq (if vb_events b \<noteq> [] then insert_events_v1 cfg (vb_events b) t else ret ()) (\<lambda>_.
         if vb_summaries b \<noteq> [] then insert_summaries_v1 cfg (vb_summaries b) t else ret ())))"

subsection \<open>Fundraising\<close>

record fr_result =
  fr_result_count :: nat
  fr_result_replayed :: bool

definition fr_ledger_row_of ::
  "'u store_config \<Rightarrow> fr_validated_batch \<Rightarrow> string \<Rightarrow> time \<Rightarrow> string \<Rightarrow> 'u \<Rightarrow> 'u fr_ledger_row" where
  "fr_ledger_row_of cfg b sha t status u =
     \<lparr>fl_batch_id = u, fl_body_sha = sha, fl_record_count = of_nat (length (fr_events b)),
      fl_sent_at = exec_time cfg (fr_sent_at_time b), fl_ingested_at = exec_time cfg t, fl_status = status\<rparr>"

definition insert_fundraising_ledger ::
  "'u store_config \<Rightarrow> fr_validated_batch \<Rightarrow> string \<Rightarrow> time \<Rightarrow> string \<Rightarrow> ('u, unit) store_action" where
  "insert_fundraising_ledger cfg b sha t status =
     seq (lift (must_parse cfg (fr_batch_id (fr_batch b)))) (\<lambda>u.
     wrapping ''insert fundraising batch ledger''
      (exec (\<lambda>part. fundraising_ledger_update (insert_rows [fr_ledger_row_of cfg b sha t status u] part))))"

definition fr_event_row_of ::
  "'u store_config \<Rightarrow> fr_validated_batch \<Rightarrow> time \<Rightarrow> fr_event validated \<Rightarrow> 'u fr_event_row result" where
  "fr_event_row_of cfg b t v =
     (let e = the_record v in
      andthen (must_parse cfg (fr_batch_id (fr_batch b))) (\<lambda>batch.
      andthen (must_parse cfg (event_id e)) (\<lambda>i.
        Inr \<lparr>fe_batch_id = batch, fe_event_id = i, fe_occurred_at = column_time cfg (occurred_at_time v),
             fe_kind = event_kind e, fe_amount = amount e, fe_currency = nullable_string (currency e),
             fe_frequency = frequency e, fe_attribution_source = attribution_source e,
             fe_attribution_campaign = attribution_campaign e, fe_failure_code = event_failure_code e,
             fe_ingested_at = column_time cfg t\<rparr>)))"

definition insert_fundraising_events ::
  "'u store_config \<Rightarrow> fr_validated_batch \<Rightarrow> time \<Rightarrow> ('u, unit) store_action" where
  "insert_fundraising_events cfg b t =
     prepare_and_send ''prepare fundraising events batch'' ''send fundraising events batch''
       (traverse (fr_event_row_of cfg b t) (fr_events b)) fundraising_events_update"

definition fundraising_ledger_read ::
  "'u store_config \<Rightarrow> fr_validated_batch \<Rightarrow> ('u, (string \<times> string \<times> time) option) store_action" where
  "fundraising_ledger_read cfg b =
     seq (lift (must_parse cfg (fr_batch_id (fr_batch b)))) (\<lambda>u.
     wrapping ''query fundraising batch ledger''
      (query (\<lambda>d. map_option (\<lambda>r. (fl_body_sha r, fl_status r, fl_ingested_at r))
        (newest fl_batch_id fl_ingested_at (fundraising_ledger d) u))))"

definition complete_fundraising ::
  "'u store_config \<Rightarrow> fr_validated_batch \<Rightarrow> string \<Rightarrow> time \<Rightarrow> ('u, fr_result) store_action" where
  "complete_fundraising cfg b sha ingested =
     seq (insert_fundraising_events cfg b ingested) (\<lambda>_.
     seq time_now (\<lambda>t.
       let now_ms = truncate_to t millisecond;
           completed = (if \<not> now_ms > ingested then ingested + millisecond else now_ms)
       in seq (insert_fundraising_ledger cfg b sha completed ''completed'') (\<lambda>_.
            ret \<lparr>fr_result_count = length (fr_events b), fr_result_replayed = False\<rparr>)))"

definition insert_fundraising ::
  "'u store_config \<Rightarrow> fr_validated_batch \<Rightarrow> string \<Rightarrow> ('u, fr_result) store_action" where
  "insert_fundraising cfg b sha =
     seq (fundraising_ledger_read cfg b) (\<lambda>found.
       case found of
         Some (existing_sha, status, reserved_at) \<Rightarrow>
           if existing_sha \<noteq> sha then fail FrErrIdempotencyConflict
           else if status = ''completed'' then
             ret \<lparr>fr_result_count = length (fr_events b), fr_result_replayed = True\<rparr>
           else if status \<noteq> ''reserved'' then fail (Err ''invalid fundraising batch ledger status'')
           else complete_fundraising cfg b sha reserved_at
       | None \<Rightarrow>
           seq time_now (\<lambda>t.
             let ingested = truncate_to t millisecond
             in seq (insert_fundraising_ledger cfg b sha ingested ''reserved'') (\<lambda>_.
                  complete_fundraising cfg b sha ingested)))"

subsection \<open>What the two operations do\<close>

text \<open>A suppressed installation anywhere in a V1 batch stops all of it.\<close>

lemma insert_v1_suppressed:
  assumes "v1_installations cfg b = Inr ids" and "suppressed_installation ids (db s)"
  shows "\<exists>e s'. insert_v1 cfg b s = (Inl e, s') \<and> db s' = db s
    \<and> (faults s (calls s) = Served \<longrightarrow> e = ErrSuppressed)"
proof -
  have "ids \<noteq> []"
  proof
    assume "ids = []"
    with assms(2) show False by (auto simp: suppressed_installation_def list_ex_iff split: option.splits)
  qed
  with assms show ?thesis
    by (auto simp: insert_v1_def v1_batch_suppressed_def seq_def wrapping_def wrap_def query_def split: fault.splits)
qed

text \<open>
  V1 inserts append to the two V1 tables, rows of the batch's installations only, and fundraising
  inserts append to the two fundraising tables; neither touches any other.
\<close>

definition v1_rows :: "'u list \<Rightarrow> 'u tables \<Rightarrow> bool" where
  "v1_rows ids w \<longleftrightarrow>
     w = no_rows\<lparr>v1_events := v1_events w, v1_summaries := v1_summaries w\<rparr>
     \<and> v1e_installation ` set (v1_events w) \<subseteq> set ids \<and> v1s_installation ` set (v1_summaries w) \<subseteq> set ids"

definition fundraising_rows :: "'u tables \<Rightarrow> bool" where
  "fundraising_rows w \<longleftrightarrow>
     w = no_rows\<lparr>fundraising_ledger := fundraising_ledger w, fundraising_events := fundraising_events w\<rparr>"

lemma no_rows_rows: "v1_rows ids no_rows" "fundraising_rows no_rows"
  by (simp_all add: v1_rows_def fundraising_rows_def no_rows_def)

lemma v1_rows_update:
  assumes "v1_rows ids w"
  shows "v1e_installation ` set rs \<subseteq> set ids \<Longrightarrow> v1_rows ids (v1_events_update (insert_rows rs part) w)"
    and "v1s_installation ` set ss \<subseteq> set ids \<Longrightarrow> v1_rows ids (v1_summaries_update (insert_rows ss part) w)"
proof -
  show "v1_rows ids (v1_events_update (insert_rows rs part) w)" if "v1e_installation ` set rs \<subseteq> set ids"
    by (rule insert_rows_part [of rs part]) (use assms that in \<open>cases w; auto simp: v1_rows_def no_rows_def\<close>)
  show "v1_rows ids (v1_summaries_update (insert_rows ss part) w)" if "v1s_installation ` set ss \<subseteq> set ids"
    by (rule insert_rows_part [of ss part]) (use assms that in \<open>cases w; auto simp: v1_rows_def no_rows_def\<close>)
qed

lemma fundraising_rows_update:
  assumes "fundraising_rows w"
  shows "fundraising_rows (fundraising_ledger_update f w)" "fundraising_rows (fundraising_events_update g w)"
  using assms by (cases w; simp add: fundraising_rows_def no_rows_def)+

lemma v1_rows_installations:
  assumes "v1_installations cfg b = Inr ids"
  shows "traverse (v1_event_row_of cfg t) (vb_events b) = Inr es \<Longrightarrow> v1e_installation ` set es \<subseteq> set ids"
    and "traverse (v1_summary_row_of cfg t) (vb_summaries b) = Inr ss \<Longrightarrow> v1s_installation ` set ss \<subseteq> set ids"
proof -
  have ids: "u \<in> set ids" if u: "uuid_parse (uuids cfg) x = Some u"
    and x: "x \<in> set (map (\<lambda>e. ev_installation_id (ve_event e)) (vb_events b) @ map (\<lambda>s. su_installation_id (vs_summary s)) (vb_summaries b))"
    for u x
  proof -
    from assms have "list_all2 (\<lambda>x y. must_parse cfg x = Inr y) (map (\<lambda>e. ev_installation_id (ve_event e)) (vb_events b)
        @ map (\<lambda>s. su_installation_id (vs_summary s)) (vb_summaries b)) ids"
      by (simp only: v1_installations_def traverse_Inr)
    moreover obtain i where "i < length (map (\<lambda>e. ev_installation_id (ve_event e)) (vb_events b)
        @ map (\<lambda>s. su_installation_id (vs_summary s)) (vb_summaries b))"
      "x = (map (\<lambda>e. ev_installation_id (ve_event e)) (vb_events b)
        @ map (\<lambda>s. su_installation_id (vs_summary s)) (vb_summaries b)) ! i"
      using x by (metis in_set_conv_nth)
    ultimately have "must_parse cfg x = Inr (ids ! i)" "ids ! i \<in> set ids"
      by (auto dest: list_all2_nthD list_all2_lengthD)
    with u show ?thesis by (simp add: must_parse_Inr)
  qed
  show "v1e_installation ` set es \<subseteq> set ids" if es: "traverse (v1_event_row_of cfg t) (vb_events b) = Inr es"
  proof safe
    fix r assume "r \<in> set es"
    then obtain v where "v \<in> set (vb_events b)" "v1_event_row_of cfg t v = Inr r" by (rule traverse_setD [OF es])
    then show "v1e_installation r \<in> set ids"
      by (auto simp: v1_event_row_of_def Let_def andthen_Inr must_parse_Inr intro: ids)
  qed
  show "v1s_installation ` set ss \<subseteq> set ids" if ss: "traverse (v1_summary_row_of cfg t) (vb_summaries b) = Inr ss"
  proof safe
    fix r assume "r \<in> set ss"
    then obtain v where "v \<in> set (vb_summaries b)" "v1_summary_row_of cfg t v = Inr r" by (rule traverse_setD [OF ss])
    then show "v1s_installation r \<in> set ids"
      by (auto simp: v1_summary_row_of_def Let_def andthen_Inr must_parse_Inr intro: ids)
  qed
qed

lemma v1_inserts_add:
  assumes "v1_installations cfg b = Inr ids"
  shows "keeps (\<lambda>s. grown (v1_rows ids) d (db s)) (insert_events_v1 cfg (vb_events b) t)"
    and "keeps (\<lambda>s. grown (v1_rows ids) d (db s)) (insert_summaries_v1 cfg (vb_summaries b) t)"
proof -
  note rows = v1_rows_installations [OF assms]
  show "keeps (\<lambda>s. grown (v1_rows ids) d (db s)) (insert_events_v1 cfg (vb_events b) t)"
    unfolding insert_events_v1_def
    by (rule keeps_prepare_and_send, erule grown_update) (simp_all add: update_appended v1_rows_update rows)
  show "keeps (\<lambda>s. grown (v1_rows ids) d (db s)) (insert_summaries_v1 cfg (vb_summaries b) t)"
    unfolding insert_summaries_v1_def
    by (rule keeps_prepare_and_send, erule grown_update) (simp_all add: update_appended v1_rows_update rows)
qed

lemma insert_v1_adds:
  assumes "v1_installations cfg b = Inr ids"
  shows "keeps (\<lambda>s. grown (v1_rows ids) d (db s)) (insert_v1 cfg b)"
  using v1_inserts_add [OF assms]
  unfolding insert_v1_def v1_batch_suppressed_def assms by (auto intro!: triples)

lemma fundraising_inserts_add:
  "keeps (\<lambda>s. grown fundraising_rows d (db s)) (insert_fundraising_ledger cfg b sha t status)"
  "keeps (\<lambda>s. grown fundraising_rows d (db s)) (insert_fundraising_events cfg b t)"
proof -
  show "keeps (\<lambda>s. grown fundraising_rows d (db s)) (insert_fundraising_ledger cfg b sha t status)"
    unfolding insert_fundraising_ledger_def
    by (intro triples, erule grown_update) (simp_all add: update_appended fundraising_rows_update)
  show "keeps (\<lambda>s. grown fundraising_rows d (db s)) (insert_fundraising_events cfg b t)"
    unfolding insert_fundraising_events_def
    by (rule keeps_prepare_and_send, erule grown_update) (simp_all add: update_appended fundraising_rows_update)
qed

lemma insert_fundraising_adds: "keeps (\<lambda>s. grown fundraising_rows d (db s)) (insert_fundraising cfg b sha)"
proof -
  note add = fundraising_inserts_add
  have complete: "keeps (\<lambda>s. grown fundraising_rows d (db s)) (complete_fundraising cfg b sha t)" for t
    unfolding complete_fundraising_def Let_def by (intro triples add)
  show ?thesis
    unfolding insert_fundraising_def fundraising_ledger_read_def Let_def
    by (auto intro!: triples add complete split: option.splits)
qed

end
