(* ===== verification/Store_Erasure.thy ===== *)
theory Store_Erasure
  imports Erasure_Invariant Store_V1_Fundraising
begin

section \<open>The operations of the store keep the invariant\<close>

text \<open>
  \<open>safe S d\<close> is the invariant with the rows S among the requests: requests are never forgotten, so
  what is known stays known. Each operation keeps it whatever calls break; the deletions of a
  request also establish that its tables are done, which is what CompletePrivacyRequest needs. The
  worker's interface is interpreted on these operations.
\<close>

definition safe :: "'u store_config \<Rightarrow> (string \<Rightarrow> validated_batch) \<Rightarrow> 'u suppression_row set \<Rightarrow> 'u tables \<Rightarrow> bool" where
  "safe cfg content S d \<longleftrightarrow> erasure_inv cfg content d \<and> S \<subseteq> set (suppressions d)"

definition known_in :: "'u store_config \<Rightarrow> privacy_work \<Rightarrow> 'u suppression_row set \<Rightarrow> bool" where
  "known_in cfg q S \<longleftrightarrow> (\<exists>r \<in> S. scan_request cfg r = Inr (q\<lparr>pq_attempts := sr_attempts r\<rparr>))"

definition good_driver :: "'u store_config \<Rightarrow> bool" where
  "good_driver cfg \<longleftrightarrow> ordered_driver cfg \<and> uuid_round_trip (uuids cfg)"

lemma known_in_work: "known_work cfg q d \<longleftrightarrow> known_in cfg q (set (suppressions d))"
  by (simp add: known_work_def known_in_def)

lemma safe_known: "safe cfg content S d \<Longrightarrow> known_in cfg q S \<Longrightarrow> known_work cfg q d"
  by (auto simp: safe_def known_in_def known_work_def)

lemma known_in_attempts [simp]: "known_in cfg (q\<lparr>pq_attempts := a\<rparr>) S = known_in cfg q S"
  by (simp add: known_in_def)

lemma keeps_seq_lift: "(\<And>x. r = Inr x \<Longrightarrow> keeps P (k x)) \<Longrightarrow> keeps P (seq (lift r) k)"
  by (cases r) (simp_all add: keeps_simps)

subsection \<open>Statuses\<close>

definition done_tables :: "'u store_config \<Rightarrow> privacy_work \<Rightarrow> string set \<Rightarrow> 'u tables \<Rightarrow> bool" where
  "done_tables cfg q D d \<longleftrightarrow> (\<forall>tab \<in> D. table_done cfg q d tab)"

lemma done_tables_simps [simp]:
  "done_tables cfg q D (suppressions_update f d) = done_tables cfg q D d"
  "done_tables cfg q {} d" "done_tables cfg (q\<lparr>pq_attempts := a\<rparr>) D d = done_tables cfg q D d"
  by (simp_all add: done_tables_def table_done_def)

lemma progress_done_tables: "progress_done cfg q d = done_tables cfg q (set (deletion_tables q)) d"
  by (simp add: progress_done_def done_tables_def)

lemma keeps_insert_privacy_status:
  assumes good: "good_driver cfg" and q: "known_in cfg q S" and st: "status \<noteq> ''pending''"
    and D: "status = ''completed'' \<Longrightarrow> pq_action q = PrivacyDelete \<Longrightarrow> set (deletion_tables q) \<subseteq> D"
  shows "keeps (\<lambda>s. safe cfg content S (db s) \<and> done_tables cfg q D (db s))
    (insert_privacy_status cfg q status failure att available lease)"
  unfolding insert_privacy_status_def
proof (intro keeps_seq_lift keeps_wrapping keeps_exec)
  fix rid legacy part d
  assume rid: "must_parse cfg (pq_request_id q) = Inr rid" and legacy: "legacy_value cfg q = Inr legacy"
    and d: "safe cfg content S d \<and> done_tables cfg q D d"
  from good have lib: "uuid_round_trip (uuids cfg)" by (simp add: good_driver_def)
  from d have inv: "erasure_inv cfg content d" and ok: "requests_ok cfg d" and S: "S \<subseteq> set (suppressions d)"
    by (simp_all add: safe_def erasure_inv_def)
  from d q have "known_work cfg q d" by (blast intro: safe_known)
  from known_row [OF lib ok this] obtain r where r: "r \<in> set (suppressions d)" "request_ok cfg r"
      "scan_request cfg r = Inr (q\<lparr>pq_attempts := sr_attempts r\<rparr>)" "rid = sr_request_id r" "legacy = sr_legacy_installation r"
    by (metis rid legacy sum.inject(2))
  have fin: "status = ''completed'' \<Longrightarrow> pq_action q = PrivacyDelete \<Longrightarrow> progress_done cfg q d"
    using d D unfolding progress_done_tables done_tables_def by blast
  have "erasure_inv cfg content (suppressions_update (insert_rows
      [status_row cfg q status failure att available lease rid legacy] part) d)"
    unfolding r(4,5) by (rule add_status [OF lib inv r(1-3) st fin])
  with S d show "safe cfg content S (suppressions_update (insert_rows
        [status_row cfg q status failure att available lease rid legacy] part) d)
      \<and> done_tables cfg q D (suppressions_update (insert_rows
        [status_row cfg q status failure att available lease rid legacy] part) d)"
    using insert_rows_keeps by (fastforce simp: safe_def)
qed

lemmas keeps_status = keeps_insert_privacy_status [where D = "{}", simplified]

lemma keeps_claim:
  assumes "good_driver cfg" and "known_in cfg q S"
  shows "keeps (\<lambda>s. safe cfg content S (db s)) (claim_privacy_request cfg q)"
  unfolding claim_privacy_request_def using assms
  by (auto intro!: triples keeps_status)

lemma keeps_retry:
  assumes "good_driver cfg" and "known_in cfg q S"
  shows "keeps (\<lambda>s. safe cfg content S (db s)) (retry_privacy_request cfg q failure n)"
  unfolding retry_privacy_request_def Let_def using assms
  by (auto intro!: triples keeps_status)

lemma keeps_complete:
  assumes "good_driver cfg" and "known_in cfg q S" and "pq_action q = PrivacyDelete \<Longrightarrow> set (deletion_tables q) \<subseteq> D"
  shows "keeps (\<lambda>s. safe cfg content S (db s) \<and> done_tables cfg q D (db s)) (complete_privacy_request cfg q)"
  unfolding complete_privacy_request_def
  by (intro keeps_seq keeps_time_now keeps_insert_privacy_status) (use assms in auto)

subsection \<open>Deletions\<close>

lemma table_done_erased:
  assumes "uuid_round_trip (uuids cfg)" and "erasure_inv cfg content d" and "known_work cfg q d" and "table_done cfg q d tab"
  shows "erased_from cfg q tab d"
proof -
  from assms(4) obtain g where g: "g \<in> set (deletion_progress d)" "gr_status g = ''completed''" "gr_table g = tab"
    "(gr_product g, Some (gr_request_id g)) = work_key cfg q" by (auto simp: table_done_def)
  with assms(2) obtain q' where q': "known_work cfg q' d" "work_key cfg q = work_key cfg q'" "erased_from cfg q' tab d"
    unfolding erasure_inv_def progress_ok_def by metis
  from assms(2) have ok: "requests_ok cfg d" by (simp add: erasure_inv_def)
  from known_unique [OF assms(1) ok assms(3) q'(1,2)] have "q' = q\<lparr>pq_attempts := pq_attempts q'\<rparr>" .
  then have "erased_from cfg q' tab d = erased_from cfg q tab d" by (metis attempts_free_simps(2))
  with q'(3) show ?thesis by simp
qed

lemma add_progress_row:
  assumes "safe cfg content S d" and "known_in cfg q S"
    and fin: "gr_status g = ''completed'' \<Longrightarrow>
      (gr_product g, Some (gr_request_id g)) = work_key cfg q \<and> erased_from cfg q (gr_table g) d"
    and "set (deletion_progress d) \<subseteq> set gs" and gs: "set gs \<subseteq> insert g (set (deletion_progress d))"
  shows "safe cfg content S (d\<lparr>deletion_progress := gs\<rparr>)"
    and "done_tables cfg q D d \<Longrightarrow> done_tables cfg q D (d\<lparr>deletion_progress := gs\<rparr>)"
proof -
  let ?d = "d\<lparr>deletion_progress := gs\<rparr>"
  have upd: "?d = deletion_progress_update (\<lambda>_. gs) d" by simp
  have known: "known_work cfg q d" using assms(1,2) by (rule safe_known)
  have mono: "table_done cfg q' d tab \<Longrightarrow> table_done cfg q' ?d tab" for q' tab
    using assms(4) by (auto simp: table_done_def)
  then show "done_tables cfg q D d \<Longrightarrow> done_tables cfg q D ?d" by (simp add: done_tables_def)
  have same: "known_work cfg q' ?d = known_work cfg q' d" "erased_from cfg q' tab ?d = erased_from cfg q' tab d"
    "event_rows ?d = event_rows d" for q' tab
    using erased_from_other(2) [of cfg q' tab "\<lambda>_. gs" d] event_rows_other(2) [of "\<lambda>_. gs" d]
    by (simp_all add: known_work_def)
  from assms(1) have inv: "erasure_inv cfg content d" and S: "S \<subseteq> set (suppressions d)" by (simp_all add: safe_def)
  have "progress_ok cfg ?d"
    unfolding progress_ok_def same
  proof (intro ballI impI)
    fix x assume "x \<in> set (deletion_progress ?d)" "gr_status x = ''completed''"
    with gs inv fin known show "\<exists>q. known_work cfg q d \<and> (gr_product x, Some (gr_request_id x)) = work_key cfg q
        \<and> erased_from cfg q (gr_table x) d"
      unfolding erasure_inv_def progress_ok_def by auto
  qed
  moreover have "completed_ok cfg ?d"
    using inv mono unfolding erasure_inv_def completed_ok_def progress_done_def by simp
  moreover have "requests_ok cfg ?d" "linked ?d" "ledger_ok content ?d"
    using inv same(3) by (simp_all add: erasure_inv_def requests_ok_def linked_def ledger_ok_def)
  ultimately show "safe cfg content S ?d" using S by (simp add: safe_def erasure_inv_def)
qed

lemma add_progress:
  fixes att :: "16 word" and available :: time and lease completed :: "time option" and err :: "string option"
  assumes "safe cfg content S d" and "known_in cfg q S" and rid: "must_parse cfg (pq_request_id q) = Inr rid"
    and fin: "status = ''completed'' \<Longrightarrow> erased_from cfg q tab d"
  defines "upd part \<equiv> deletion_progress_update (insert_rows
      [progress_row_of cfg q tab status att available lease err completed rid] part)"
  shows "safe cfg content S (upd part d)" "done_tables cfg q D d \<Longrightarrow> done_tables cfg q D (upd part d)"
    "status = ''completed'' \<Longrightarrow> table_done cfg q (upd None d) tab"
proof -
  let ?g = "progress_row_of cfg q tab status att available lease err completed rid"
  obtain gs where gs: "insert_rows [?g] part = (\<lambda>t. t @ gs)" "set gs \<subseteq> set [?g]" by (rule insert_rows_part)
  have upd: "upd part d = d\<lparr>deletion_progress := deletion_progress d @ gs\<rparr>"
    unfolding upd_def gs(1) by (cases d) simp
  have key: "(gr_product ?g, Some (gr_request_id ?g)) = work_key cfg q" "gr_table ?g = tab" "gr_status ?g = status"
    using rid by (simp_all add: progress_row_of_def work_key_def must_parse_Inr)
  note add = add_progress_row [OF assms(1,2), where g = ?g and gs = "deletion_progress d @ gs"]
  show "safe cfg content S (upd part d)"
    unfolding upd by (rule add(1)) (use key fin gs(2) in auto)
  show "done_tables cfg q D (upd part d)" if "done_tables cfg q D d"
    unfolding upd by (rule add(2)) (use key fin gs(2) that in auto)
  show "table_done cfg q (upd None d) tab" if "status = ''completed''"
    using key that by (auto simp: table_done_def upd_def)
qed

lemma valid_seq_lift:
  "(\<And>x. r = Inr x \<Longrightarrow> valid P (k x) Q E) \<Longrightarrow> (\<And>s e. P s \<Longrightarrow> E e s) \<Longrightarrow> valid P (seq (lift r) k) Q E"
  by (cases r) (auto intro: valid_pre [OF valid_fail])

lemma insert_progress:
  assumes q: "known_in cfg q S"
  shows "status \<noteq> ''completed'' \<Longrightarrow> keeps (\<lambda>s. safe cfg content S (db s) \<and> done_tables cfg q D (db s))
      (insert_deletion_progress cfg q tab status att available lease err completed)"
    and "valid (\<lambda>s. safe cfg content S (db s) \<and> done_tables cfg q D (db s) \<and> erased_from cfg q tab (db s))
      (insert_deletion_progress cfg q tab ''completed'' att available lease err completed)
      (\<lambda>_ s. safe cfg content S (db s) \<and> done_tables cfg q (insert tab D) (db s))
      (\<lambda>_ s. safe cfg content S (db s) \<and> done_tables cfg q D (db s))"
proof -
  show "keeps (\<lambda>s. safe cfg content S (db s) \<and> done_tables cfg q D (db s))
      (insert_deletion_progress cfg q tab status att available lease err completed)" if "status \<noteq> ''completed''"
    unfolding insert_deletion_progress_def
    by (intro keeps_seq_lift keeps_wrapping keeps_exec)
      (auto intro: add_progress(1,2) [OF _ q] simp: that)
  show "valid (\<lambda>s. safe cfg content S (db s) \<and> done_tables cfg q D (db s) \<and> erased_from cfg q tab (db s))
      (insert_deletion_progress cfg q tab ''completed'' att available lease err completed)
      (\<lambda>_ s. safe cfg content S (db s) \<and> done_tables cfg q (insert tab D) (db s))
      (\<lambda>_ s. safe cfg content S (db s) \<and> done_tables cfg q D (db s))"
    unfolding insert_deletion_progress_def
  proof (intro valid_seq_lift valid_wrapping valid_pre [OF valid_exec])
    fix rid and s :: "'a tables conn"
    let ?upd = "\<lambda>part. deletion_progress_update (insert_rows
        [progress_row_of cfg q tab ''completed'' att available lease err completed rid] part)"
    assume rid: "must_parse cfg (pq_request_id q) = Inr rid"
      and s: "safe cfg content S (db s) \<and> done_tables cfg q D (db s) \<and> erased_from cfg q tab (db s)"
    then have "safe cfg content S (db s)" "done_tables cfg q D (db s)" and e: "erased_from cfg q tab (db s)" by simp_all
    with add_progress [OF this(1) q rid e] show "(safe cfg content S (db (s\<lparr>calls := Suc (calls s), db := ?upd None (db s)\<rparr>))
          \<and> done_tables cfg q (insert tab D) (db (s\<lparr>calls := Suc (calls s), db := ?upd None (db s)\<rparr>)))
        \<and> (\<forall>n. safe cfg content S (db (s\<lparr>calls := Suc (calls s), db := ?upd (Some n) (db s)\<rparr>))
          \<and> done_tables cfg q D (db (s\<lparr>calls := Suc (calls s), db := ?upd (Some n) (db s)\<rparr>)))"
      by (simp add: done_tables_def)
  qed simp
qed

text \<open>The order of the tables: events before the registry, the registry before the ledger.\<close>

definition ready :: "privacy_work \<Rightarrow> string \<Rightarrow> string set \<Rightarrow> bool" where
  "ready q tab D \<longleftrightarrow> pq_legacy q = None \<longrightarrow>
     (tab = ''record_registry_v2'' \<longrightarrow> set event_tables \<subseteq> D) \<and> (tab = ''ingest_batches_v2'' \<longrightarrow> ''record_registry_v2'' \<in> D)"

lemma done_tables_erased:
  assumes "good_driver cfg" and "safe cfg content S d" and "known_in cfg q S" and "done_tables cfg q D d" and "tab \<in> D"
  shows "erased_from cfg q tab d"
  using assms table_done_erased [of cfg content d q tab] safe_known [OF assms(2,3)]
  by (simp add: good_driver_def safe_def done_tables_def)

lemma delete_safe:
  assumes good: "good_driver cfg" and q: "known_in cfg q S" and r: "ready q tab D"
    and d: "safe cfg content S d" "done_tables cfg q D d"
  shows "pq_legacy q = None \<Longrightarrow> safe cfg content S (delete_scope tab q part d)"
    and "safe cfg content S (delete_installation tab u part d)"
proof -
  from d have inv: "erasure_inv cfg content d" and S: "S \<subseteq> set (suppressions d)" and l: "linked d"
    by (simp_all add: safe_def erasure_inv_def)
  note er = done_tables_erased [OF good d(1) q d(2)]
  show "safe cfg content S (delete_scope tab q part d)" if n: "pq_legacy q = None"
  proof -
    have "linked (delete_scope tab q part d)"
      by (rule linked_delete_scope [OF l n]) (use r n er in \<open>auto simp: ready_def\<close>)
    from erasure_inv_shrunk [OF inv delete_shrunk(1) this] S show ?thesis by (simp add: safe_def)
  qed
  from erasure_inv_shrunk [OF inv delete_shrunk(2) linked_delete_installation [OF l]] S
  show "safe cfg content S (delete_installation tab u part d)"
    by (simp add: safe_def delete_installation_def)
qed

lemma done_tables_deleted [simp]:
  "done_tables cfg q D (delete_scope tab q' part d) = done_tables cfg q D d"
  "done_tables cfg q D (delete_installation tab u part d) = done_tables cfg q D d"
  by (simp_all add: done_tables_def table_done_def delete_installation_def)

lemma valid_delete_rows:
  assumes good: "good_driver cfg" and q: "known_in cfg q S" and r: "ready q tab D"
  shows "valid (\<lambda>s. safe cfg content S (db s) \<and> done_tables cfg q D (db s)) (delete_rows_of cfg q tab)
      (\<lambda>_ s. safe cfg content S (db s) \<and> done_tables cfg q D (db s) \<and> erased_from cfg q tab (db s))
      (\<lambda>_ s. safe cfg content S (db s) \<and> done_tables cfg q D (db s))"
proof (cases "pq_legacy q")
  case None
  note safe = delete_safe(1) [OF good q r _ _ None]
  show ?thesis
    unfolding delete_rows_of_def None option.case
    by (rule valid_pre [OF valid_exec]) (auto intro: safe delete_erases(1) [OF None])
next
  case (Some i)
  note safe = delete_safe(2) [OF good q r]
  show ?thesis
    unfolding delete_rows_of_def Some option.case
    by (intro valid_seq_lift valid_pre [OF valid_exec]) (auto intro: safe delete_erases(2) [OF Some])
qed

lemma valid_keeps: "keeps P m \<Longrightarrow> valid P m (\<lambda>_. P) (\<lambda>_. P)"
  by (simp add: keeps_def)

lemma valid_delete_table:
  assumes good: "good_driver cfg" and q: "known_in cfg q S" and r: "ready q tab D"
  shows "valid (\<lambda>s. safe cfg content S (db s) \<and> done_tables cfg q D (db s)) (delete_telemetry_table cfg q tab)
      (\<lambda>_ s. safe cfg content S (db s) \<and> done_tables cfg q (insert tab D) (db s))
      (\<lambda>_ s. safe cfg content S (db s) \<and> done_tables cfg q D (db s))" (is "valid ?P _ ?Q (\<lambda>_. ?P)")
proof -
  let ?R = "\<lambda>x s. ?P s \<and> (fst x = ''completed'' \<longrightarrow> table_done cfg q (db s) tab)"
  have read: "valid ?P (deletion_progress_of cfg q tab) ?R (\<lambda>_. ?P)"
    unfolding deletion_progress_of_def
  proof (intro valid_seq_lift valid_wrapping valid_pre [OF valid_query], goal_cases)
    case (1 rid s)
    have "table_done cfg q (db s) tab"
      if "newest progress_key gr_updated_at (deletion_progress (db s)) (product_id (pq_scope q), rid, tab) = Some g"
        "gr_status g = ''completed''" for g
      using newest_Some [OF that(1)] that(2) 1(1)
      by (auto simp: table_done_def work_key_def must_parse_Inr progress_key_def)
    with 1(2) show ?case by (auto split: option.splits)
  qed simp
  have body: "valid (?R (status, att)) (if status = ''completed'' then ret () else
      seq (insert_deletion_progress cfg q tab ''processing'' (att + 1) t (Some (t + 5 * minute)) None None) (\<lambda>_.
      seq (attempting (delete_rows_of cfg q tab)) (\<lambda>outcome. case outcome of
          Inl e \<Rightarrow> seq (ignoring (insert_deletion_progress cfg q tab ''retry'' (att + 1)
              (t + privacy_retry_delay (att + 1)) None (Some ''mutation_failed'') None)) (\<lambda>_.
            fail (Wrapped ((if pq_legacy q \<noteq> None then ''delete V1 privacy scope from '' else ''delete privacy scope from '') @ tab) e))
        | Inr _ \<Rightarrow> insert_deletion_progress cfg q tab ''completed'' (att + 1) t None None (Some t)))) ?Q (\<lambda>_. ?P)"
    for status att t
  proof (cases "status = ''completed''")
    case True
    then show ?thesis by (auto intro: valid_pre [OF valid_ret] simp: done_tables_def)
  next
    case False
    have start: "valid ?P (insert_deletion_progress cfg q tab ''processing'' (att + 1) t (Some (t + 5 * minute)) None None)
        (\<lambda>_. ?P) (\<lambda>_. ?P)"
      by (rule valid_keeps [OF insert_progress(1) [OF q]]) simp
    have del: "valid ?P (attempting (delete_rows_of cfg q tab))
        (\<lambda>r s. ?P s \<and> (\<forall>u. r = Inr u \<longrightarrow> erased_from cfg q tab (db s))) (\<lambda>_. ?P)"
      by (rule valid_attempting, rule valid_post [OF valid_delete_rows [OF assms]]) auto
    have failed: "valid ?P (seq (ignoring (insert_deletion_progress cfg q tab ''retry'' (att + 1) t2 None
        (Some ''mutation_failed'') None)) (\<lambda>_. fail e)) ?Q (\<lambda>_. ?P)" for t2 e
      by (rule valid_seq [OF valid_fail], rule valid_ignoring, rule valid_keeps [OF insert_progress(1) [OF q]]) simp
    have after: "valid (\<lambda>s. ?P s \<and> (\<forall>u. r = Inr u \<longrightarrow> erased_from cfg q tab (db s))) (case r of
          Inl e \<Rightarrow> seq (ignoring (insert_deletion_progress cfg q tab ''retry'' (att + 1)
              (t + privacy_retry_delay (att + 1)) None (Some ''mutation_failed'') None)) (\<lambda>_.
            fail (Wrapped ((if pq_legacy q \<noteq> None then ''delete V1 privacy scope from '' else ''delete privacy scope from '') @ tab) e))
        | Inr _ \<Rightarrow> insert_deletion_progress cfg q tab ''completed'' (att + 1) t None None (Some t)) ?Q (\<lambda>_. ?P)"
      for r :: "unit result"
      by (cases r) (auto intro: valid_pre [OF failed] valid_pre [OF insert_progress(2) [OF q]])
    from False show ?thesis
      by (simp only: if_False) (rule valid_pre [OF valid_seq [OF valid_seq [OF after del] start]], simp)
  qed
  show ?thesis
    unfolding delete_telemetry_table_def
  proof (intro valid_seq [where R = "\<lambda>_. ?P" and m = time_now] valid_seq [OF _ read])
    show "valid ?P time_now (\<lambda>_. ?P) (\<lambda>_. ?P)" by (rule valid_pre [OF valid_time_now]) simp
  qed (simp only: split_paired_all prod.case, rule body)
qed

lemma valid_each_prefix:
  assumes "\<And>pre x post. xs = pre @ x # post \<Longrightarrow> valid (P (set pre)) (f x) (\<lambda>_. P (insert x (set pre))) (\<lambda>_ s. E s)"
    and "\<And>D s. P D s \<Longrightarrow> E s"
  shows "valid (P {}) (each f xs) (\<lambda>_. P (set xs)) (\<lambda>_ s. E s)"
proof -
  have "xs = pre @ post \<Longrightarrow> valid (P (set pre)) (each f post) (\<lambda>_. P (set xs)) (\<lambda>_ s. E s)" for pre post
  proof (induction post arbitrary: pre)
    case Nil
    then show ?case by (simp add: valid_def)
  next
    case (Cons x post)
    from Cons.IH [of "pre @ [x]"] Cons.prems
    have "valid (P (insert x (set pre))) (each f post) (\<lambda>_. P (set xs)) (\<lambda>_ s. E s)" by simp
    from valid_seq [OF this assms(1) [OF Cons.prems]] show ?case by simp
  qed
  from this [of "[]"] show ?thesis by simp
qed

lemma deletion_order: "deletion_tables q = pre @ tab # post \<Longrightarrow> ready q tab (set pre)"
proof (cases "pq_legacy q")
  case None
  assume "deletion_tables q = pre @ tab # post"
  with None have "telemetry_tables = pre @ tab # post" by (simp add: deletion_tables_def)
  then show ?thesis
    by (auto simp: ready_def telemetry_tables_def event_tables_def append_eq_Cons_conv Cons_eq_append_conv)
qed (simp add: ready_def)

lemma valid_delete_telemetry:
  assumes "good_driver cfg" and "known_in cfg q S"
  shows "valid (\<lambda>s. safe cfg content S (db s)) (delete_telemetry_request cfg q)
      (\<lambda>_ s. safe cfg content S (db s) \<and> progress_done cfg q (db s)) (\<lambda>_ s. safe cfg content S (db s))"
  unfolding delete_telemetry_request_def progress_done_tables
  using valid_each_prefix [of "deletion_tables q" "\<lambda>D s. safe cfg content S (db s) \<and> done_tables cfg q D (db s)"
      "delete_telemetry_table cfg q" "\<lambda>s. safe cfg content S (db s)"]
    valid_post [OF valid_delete_table [OF assms deletion_order]]
  by simp

end
