(* ===== verification/Erasure_Inserts.thy ===== *)
theory Erasure_Inserts
  imports Store_Erasure
begin

section \<open>Inserts and new requests keep the invariant\<close>

text \<open>
  A new row never falls under a known request: the check for suppressions that precedes the insert
  compares the scope of the batch with the newest row of each request, and that comparison is the
  condition of the deletions read the other way round. For V2 the order of the writes keeps every
  event linked to its registry row and its ledger row, also when a call breaks.
\<close>

lemma erasure_inv_grown:
  assumes inv: "erasure_inv cfg content d"
    and same: "suppressions d' = suppressions d" "deletion_progress d' = deletion_progress d"
    and "\<And>q tab. known_work cfg q d \<Longrightarrow> erased_from cfg q tab d \<Longrightarrow> erased_from cfg q tab d'"
    and "linked d'" "ledger_ok content d'"
  shows "erasure_inv cfg content d'"
proof -
  have "known_work cfg q d' = known_work cfg q d" "progress_done cfg q d' = progress_done cfg q d" for q
    by (simp_all add: known_work_def progress_done_def table_done_def same)
  moreover from this(1) inv assms(4) same(2) have "progress_ok cfg d'"
    unfolding erasure_inv_def progress_ok_def by simp blast
  ultimately show ?thesis
    using inv assms(5,6) unfolding erasure_inv_def requests_ok_def completed_ok_def same by blast
qed

subsection \<open>Listing and creating requests\<close>

lemma valid_pending:
  "valid (\<lambda>s. safe cfg content S (db s)) (pending_privacy_requests cfg n)
     (\<lambda>qs s. safe cfg content S (db s) \<and> (\<forall>q \<in> set qs. known_work cfg q (db s))) (\<lambda>_ s. safe cfg content S (db s))"
  unfolding pending_privacy_requests_def
proof (rule valid_seq [where R = "\<lambda>_ s. safe cfg content S (db s)"])
  show "valid (\<lambda>s. safe cfg content S (db s)) time_now (\<lambda>_ s. safe cfg content S (db s)) (\<lambda>_ s. safe cfg content S (db s))"
    by (rule valid_pre [OF valid_time_now]) simp
  fix t
  let ?rows = "pending_rows (truncate_to t millisecond) n"
  show "valid (\<lambda>s. safe cfg content S (db s))
      (seq (wrapping ''query pending privacy requests'' (query ?rows)) (\<lambda>rows. lift (traverse (scan_request cfg) rows)))
      (\<lambda>qs s. safe cfg content S (db s) \<and> (\<forall>q \<in> set qs. known_work cfg q (db s))) (\<lambda>_ s. safe cfg content S (db s))"
  proof (rule valid_seq [where R = "\<lambda>rows s. safe cfg content S (db s) \<and> set rows \<subseteq> set (suppressions (db s))"])
    have "set (?rows d) \<subseteq> set (suppressions d)" for d
      using final_rows_subset [of suppression_key sr_updated_at "suppressions d"] set_take_subset
      by (fastforce simp: pending_rows_def dest: in_set_takeD)
    then show "valid (\<lambda>s. safe cfg content S (db s)) (wrapping ''query pending privacy requests'' (query ?rows))
        (\<lambda>rows s. safe cfg content S (db s) \<and> set rows \<subseteq> set (suppressions (db s))) (\<lambda>_ s. safe cfg content S (db s))"
      by (intro valid_wrapping valid_pre [OF valid_query]) simp
  next
    fix rows
    have "known_work cfg q d" if ok: "safe cfg content S d" and rows: "set rows \<subseteq> set (suppressions d)"
      and qs: "traverse (scan_request cfg) rows = Inr qs" and q: "q \<in> set qs" for d qs q
    proof -
      obtain r where r: "r \<in> set rows" "scan_request cfg r = Inr q" by (rule traverse_setD [OF qs q])
      with ok rows have "request_ok cfg r" by (auto simp: safe_def erasure_inv_def requests_ok_def)
      from scan_request_ok [OF this] r(2) have "q = q\<lparr>pq_attempts := sr_attempts r\<rparr>" by (cases q) auto
      with r(2) have "scan_request cfg r = Inr (q\<lparr>pq_attempts := sr_attempts r\<rparr>)" by simp
      with r(1) rows show ?thesis unfolding known_work_def by blast
    qed
    then show "valid (\<lambda>s. safe cfg content S (db s) \<and> set rows \<subseteq> set (suppressions (db s)))
        (lift (traverse (scan_request cfg) rows))
        (\<lambda>qs s. safe cfg content S (db s) \<and> (\<forall>q \<in> set qs. known_work cfg q (db s))) (\<lambda>_ s. safe cfg content S (db s))"
      by (intro valid_pre [OF valid_lift]) (auto split: sum.splits)
  qed
qed

lemma pending_row_facts:
  fixes action :: string and sha :: string and requested :: time and t :: time and rid :: 'u and legacy :: "'u option"
  assumes "ordered_driver cfg" and "col_product_key cols \<noteq> None" "col_subject_key cols \<noteq> None"
  defines "x \<equiv> pending_row cfg cols action sha requested t rid legacy"
  shows "request_ok cfg x" "sr_status x = ''pending''" "suppression_key x = (col_product cols, rid)"
  using assms(2,3) exec_time_stored [OF assms(1)] unfolding x_def
  by (cases cols; cases "expires_at t (keep_privacy (retentions cfg))";
      simp add: request_ok_def pending_row_def scope_columns.defs suppression_row.defs row_version_def
        suppression_key_def)+

lemma add_pending:
  assumes ms: "ordered_driver cfg" and d: "safe cfg content S d"
    and fresh: "privacy_request_row (col_product cols) rid d = None"
    and cols: "col_product_key cols \<noteq> None" "col_subject_key cols \<noteq> None"
  shows "safe cfg content S (suppressions_update (insert_rows
      [pending_row cfg cols action sha requested t rid legacy] part) d)"
proof -
  let ?x = "pending_row cfg cols action sha requested t rid legacy"
  note f = pending_row_facts [OF ms cols]
  from scan_request_ok [OF f(1)] obtain q where q: "scan_request cfg ?x = Inr q" by blast
  obtain xs where xs: "insert_rows [?x] part = (\<lambda>t. t @ xs)" "set xs \<subseteq> set [?x]" by (rule insert_rows_part)
  from d have inv: "erasure_inv cfg content d" and S: "S \<subseteq> set (suppressions d)" by (simp_all add: safe_def)
  from fresh have "suppression_key r \<noteq> (col_product cols, rid)" if "r \<in> set (suppressions d)" for r
    using that unfolding privacy_request_row_def newest_None by (metis image_eqI)
  then have "erasure_inv cfg content (d\<lparr>suppressions := suppressions d @ xs\<rparr>)"
    by (intro add_request_row [OF inv f(1) q]) (use f(2,3) xs(2) in auto)
  with S have "safe cfg content S (d\<lparr>suppressions := suppressions d @ xs\<rparr>)" by (auto simp: safe_def)
  moreover have "suppressions_update (\<lambda>t. t @ xs) d = d\<lparr>suppressions := suppressions d @ xs\<rparr>" by (cases d) simp
  ultimately show ?thesis by (simp only: xs(1))
qed

lemma valid_lookup:
  "valid (\<lambda>s. safe cfg content S (db s)) (lookup_request cfg msg p i)
     (\<lambda>x s. safe cfg content S (db s) \<and> (x = None \<longrightarrow> (\<forall>rid. must_parse cfg i = Inr rid \<longrightarrow>
        privacy_request_row p rid (db s) = None))) (\<lambda>_ s. safe cfg content S (db s))"
  unfolding lookup_request_def
  by (intro valid_seq_lift valid_wrapping valid_pre [OF valid_query]) auto

lemma keeps_create:
  assumes ms: "ordered_driver cfg"
  shows "keeps (\<lambda>s. safe cfg content S (db s)) (create_privacy_request cfg p sha)"
  unfolding keeps_def create_privacy_request_def Let_def
proof (rule valid_seq [OF _ valid_lookup], goal_cases)
  case (1 found)
  let ?fresh = "\<lambda>s. safe cfg content S (db s) \<and> (\<forall>rid. must_parse cfg (request_id (the_request p)) = Inr rid \<longrightarrow>
        privacy_request_row (product_id (privacy_scope (the_request p))) rid (db s) = None)"
  show ?case
  proof (cases found)
    case None
    have "valid ?fresh (seq time_now m) (\<lambda>_ s. safe cfg content S (db s)) (\<lambda>_ s. safe cfg content S (db s))"
      if "\<And>t. valid ?fresh (m t) (\<lambda>_ s. safe cfg content S (db s)) (\<lambda>_ s. safe cfg content S (db s))"
      for m :: "time \<Rightarrow> ('a, privacy_result) store_action"
      by (rule valid_seq [OF that valid_pre [OF valid_time_now]]) simp
    then show ?thesis
      unfolding None option.case simp_thms
    proof (rule valid_pre, goal_cases)
      case (1 t)
      show ?case
        by (intro valid_seq_lift valid_seq [OF valid_ret] valid_wrapping valid_pre [OF valid_exec])
          (auto intro!: add_pending [OF ms])
    qed blast
  next
    case (Some x)
    then show ?thesis by (cases x) (auto simp: valid_def)
  qed
qed

lemma keeps_create_legacy:
  assumes ms: "ordered_driver cfg"
  shows "keeps (\<lambda>s. safe cfg content S (db s)) (create_legacy_privacy_request cfg p sha)"
  unfolding keeps_def create_legacy_privacy_request_def Let_def
proof (rule valid_seq [OF _ valid_lookup], goal_cases)
  case (1 found)
  let ?fresh = "\<lambda>s. safe cfg content S (db s) \<and> (\<forall>rid. must_parse cfg (pv_request_id (vp_request p)) = Inr rid \<longrightarrow>
        privacy_request_row LinkaPlays rid (db s) = None)"
  show ?case
  proof (cases found)
    case None
    have "valid ?fresh (seq time_now m) (\<lambda>_ s. safe cfg content S (db s)) (\<lambda>_ s. safe cfg content S (db s))"
      if "\<And>t. valid ?fresh (m t) (\<lambda>_ s. safe cfg content S (db s)) (\<lambda>_ s. safe cfg content S (db s))"
      for m :: "time \<Rightarrow> ('a, privacy_result) store_action"
      by (rule valid_seq [OF that valid_pre [OF valid_time_now]]) simp
    then show ?thesis
      unfolding None option.case simp_thms
    proof (rule valid_pre, goal_cases)
      case (1 t)
      show ?case
        by (intro valid_seq_lift valid_seq [OF valid_ret] valid_wrapping valid_pre [OF valid_exec])
          (auto intro!: add_pending [OF ms] simp: legacy_columns_def)
    qed blast
  next
    case (Some x)
    then show ?thesis by (cases x) (auto simp: valid_def)
  qed
qed

subsection \<open>V1 and fundraising\<close>

lemma newest_final:
  "newest suppression_key sr_updated_at (suppressions d) (suppression_key r) = Some r \<Longrightarrow>
     r \<in> set (final_rows (\<lambda>r. (col_product r, sr_request_id r)) sr_updated_at (suppressions d))"
  by (simp add: final_rows_iff suppression_key_def [abs_def])

lemma unsuppressed_installation:
  assumes good: "good_driver cfg" and ok: "requests_ok cfg d" and q: "known_work cfg q d" "pq_legacy q = Some i"
    and "uuid_parse (uuids cfg) i = Some u" and "\<not> suppressed_installation ids d"
  shows "u \<notin> set ids"
proof
  assume u: "u \<in> set ids"
  from good have lib: "uuid_round_trip (uuids cfg)" by (simp add: good_driver_def)
  from known_row [OF lib ok q(1)] obtain r where r: "request_ok cfg r" "legacy_value cfg q = Inr (sr_legacy_installation r)"
    "newest suppression_key sr_updated_at (suppressions d) (suppression_key r) = Some r" by metis
  from r(2) q(2) assms(5) have "sr_legacy_installation r = Some u" by (simp add: legacy_value_def)
  with r(1) u newest_final [OF r(3)] have "suppressed_installation ids d"
    by (auto simp: suppressed_installation_def list_ex_iff request_ok_def)
  with assms(6) show False by simp
qed

lemma linked_same:
  assumes "linked d" and "event_rows d' = event_rows d" "record_registry d' = record_registry d" "ingest_batches d' = ingest_batches d"
  shows "linked d'"
  using assms by (simp add: linked_def)

lemma v1_grown_safe:
  assumes good: "good_driver cfg" and d: "safe cfg content S d" and un: "\<not> suppressed_installation ids d"
    and g: "grown (v1_rows ids) d d'"
  shows "safe cfg content S d'" and "suppressions d' = suppressions d" and "deletion_progress d' = deletion_progress d"
    and "ingest_batches d' = ingest_batches d" and "record_registry d' = record_registry d"
    and "known_work cfg q d \<Longrightarrow> erased_from cfg q tab d \<Longrightarrow> erased_from cfg q tab d'"
proof -
  from d have inv: "erasure_inv cfg content d" and S: "S \<subseteq> set (suppressions d)" and ok: "requests_ok cfg d"
    and l: "linked d" and b: "ledger_ok content d"
    by (simp_all add: safe_def erasure_inv_def)
  from g obtain w where w: "d' = appended d w" "v1_rows ids w" by (auto simp: grown_def)
  then have "w = no_rows\<lparr>v1_events := v1_events w, v1_summaries := v1_summaries w\<rparr>" by (simp add: v1_rows_def)
  then obtain es ss where es: "w = no_rows\<lparr>v1_events := es, v1_summaries := ss\<rparr>" by blast
  have same: "suppressions d' = suppressions d" "deletion_progress d' = deletion_progress d"
    "common_events d' = common_events d" "technical_events d' = technical_events d" "plays_events d' = plays_events d"
    "product_events d' = product_events d" "product_outcomes d' = product_outcomes d" "record_registry d' = record_registry d"
    "ingest_batches d' = ingest_batches d" "v1_events d' = v1_events d @ es" "v1_summaries d' = v1_summaries d @ ss"
    by (simp_all add: w(1) es appended_def no_rows_def)
  then show "suppressions d' = suppressions d" "deletion_progress d' = deletion_progress d"
    "ingest_batches d' = ingest_batches d" "record_registry d' = record_registry d" by simp_all
  have ids: "v1e_installation ` set es \<subseteq> set ids" "v1s_installation ` set ss \<subseteq> set ids"
    using w(2) by (simp_all add: v1_rows_def es no_rows_def)
  have er: "erased_from cfg q tab d'" if q: "known_work cfg q d" and e: "erased_from cfg q tab d" for q tab
  proof (cases "pq_legacy q")
    case None
    with e show ?thesis by (simp add: erased_from_def same)
  next
    case (Some i)
    note un = unsuppressed_installation [OF good ok q Some _ un]
    from e Some show ?thesis using un ids by (auto simp: erased_from_def same)
  qed
  then show "known_work cfg q d \<Longrightarrow> erased_from cfg q tab d \<Longrightarrow> erased_from cfg q tab d'" .
  have "linked d'" by (rule linked_same [OF l]) (simp_all add: same event_rows_def)
  moreover have "ledger_ok content d'" using b by (simp add: ledger_ok_def same)
  ultimately have "erasure_inv cfg content d'" by (intro erasure_inv_grown [OF inv same(1,2)] er)
  with S show "safe cfg content S d'" by (simp add: safe_def same)
qed

lemma keeps_insert_v1:
  assumes good: "good_driver cfg"
  shows "keeps (\<lambda>s. safe cfg content S (db s)) (insert_v1 cfg b)"
proof (rule keepsI)
  fix s :: "'a tables conn" assume s: "safe cfg content S (db s)"
  show "safe cfg content S (db (snd (insert_v1 cfg b s)))"
  proof (cases "v1_installations cfg b")
    case (Inl e)
    then have "snd (insert_v1 cfg b s) = s" by (simp add: insert_v1_def v1_batch_suppressed_def seq_def lift_def)
    with s show ?thesis by simp
  next
    case (Inr ids)
    show ?thesis
    proof (cases "suppressed_installation ids (db s)")
      case True
      from insert_v1_suppressed [OF Inr this] s show ?thesis by auto
    next
      case False
      have "grown (v1_rows ids) (db s) (db s)" by (rule grown_refl [where P = "v1_rows ids"]) (rule no_rows_rows)
      then have "grown (v1_rows ids) (db s) (db (snd (insert_v1 cfg b s)))" by (rule keepsD [OF insert_v1_adds [OF Inr]])
      with v1_grown_safe(1) [OF good s False] show ?thesis .
    qed
  qed
qed

lemma fundraising_grown_safe:
  assumes d: "safe cfg content S d" and g: "grown fundraising_rows d d'"
  shows "safe cfg content S d'" and "suppressions d' = suppressions d" and "deletion_progress d' = deletion_progress d"
    and "ingest_batches d' = ingest_batches d" and "record_registry d' = record_registry d"
    and "erased_from cfg q tab d' = erased_from cfg q tab d"
proof -
  from g obtain w where w: "d' = appended d w" "fundraising_rows w" by (auto simp: grown_def)
  then obtain ls es where ls: "w = no_rows\<lparr>fundraising_ledger := ls, fundraising_events := es\<rparr>"
    unfolding fundraising_rows_def by blast
  have same: "suppressions d' = suppressions d" "deletion_progress d' = deletion_progress d"
    "common_events d' = common_events d" "technical_events d' = technical_events d" "plays_events d' = plays_events d"
    "product_events d' = product_events d" "product_outcomes d' = product_outcomes d" "record_registry d' = record_registry d"
    "ingest_batches d' = ingest_batches d" "v1_events d' = v1_events d" "v1_summaries d' = v1_summaries d"
    by (simp_all add: w(1) ls appended_def no_rows_def)
  then show "suppressions d' = suppressions d" "deletion_progress d' = deletion_progress d"
    "ingest_batches d' = ingest_batches d" "record_registry d' = record_registry d" by simp_all
  from d have inv: "erasure_inv cfg content d" and l: "linked d" and b: "ledger_ok content d"
    by (simp_all add: safe_def erasure_inv_def)
  have er: "erased_from cfg q tab d' = erased_from cfg q tab d" for q tab
    by (simp add: erased_from_def same cong: option.case_cong)
  then show "erased_from cfg q tab d' = erased_from cfg q tab d" .
  have "linked d'" by (rule linked_same [OF l]) (simp_all add: same event_rows_def)
  moreover have "ledger_ok content d'" using b by (simp add: ledger_ok_def same)
  ultimately have "erasure_inv cfg content d'" by (intro erasure_inv_grown [OF inv same(1,2)]) (simp_all add: er)
  with d show "safe cfg content S d'" by (simp add: safe_def same)
qed

lemma keeps_insert_fundraising: "keeps (\<lambda>s. safe cfg content S (db s)) (insert_fundraising cfg b sha)"
proof (rule keepsI)
  fix s :: "'a tables conn" assume s: "safe cfg content S (db s)"
  have "grown fundraising_rows (db s) (db s)" by (rule grown_refl) (rule no_rows_rows)
  from fundraising_grown_safe(1) [OF s keepsD [OF insert_fundraising_adds this]]
  show "safe cfg content S (db (snd (insert_fundraising cfg b sha s)))" .
qed

subsection \<open>V2\<close>

lemma unsuppressed_scope:
  assumes good: "good_driver cfg" and ok: "requests_ok cfg d" and q: "known_work cfg q d"
    and un: "\<not> suppressed_v2 (header_scope (header b)) (product_key b) d"
    and x: "scope_columns.truncate x = batch_columns b"
  shows "\<not> work_match q x"
proof
  assume m: "work_match q x"
  from good have lib: "uuid_round_trip (uuids cfg)" by (simp add: good_driver_def)
  from known_row [OF lib ok q] obtain r where r: "request_ok cfg r" "scan_request cfg r = Inr (q\<lparr>pq_attempts := sr_attempts r\<rparr>)"
    "newest suppression_key sr_updated_at (suppressions d) (suppression_key r) = Some r" by metis
  note f = scan_request_fields [OF r(2,1), simplified]
  have cols: "col_product x = product_id (header_scope (header b))" "col_product_key x = Some (product_key b)"
    "col_subject_key x = Some (subject_key (header_scope (header b)))" "col_person_key x = person_key (header_scope (header b))"
    "col_org_key x = org_key (header_scope (header b))"
    using x by (cases x; simp add: batch_columns_def Let_def scope_columns.defs)+
  have "scope_match (product_id (header_scope (header b))) (product_key b) (subject_key (header_scope (header b)))
      (person_key (header_scope (header b))) (org_key (header_scope (header b))) r"
    using m f(2,11-14) cols by (auto simp: work_match_def scope_match_def)
  moreover have "sr_active r" using r(1) by (simp add: request_ok_def)
  ultimately have "suppressed_v2 (header_scope (header b)) (product_key b) d"
    using newest_final [OF r(3)] by (auto simp: suppressed_v2_def list_ex_iff)
  with un show False by simp
qed

definition scoped :: "validated_batch \<Rightarrow> string \<Rightarrow> 'u tables \<Rightarrow> bool" where
  "scoped b sha w \<longleftrightarrow> telemetry_only w
     \<and> (\<forall>r \<in> set (ingest_batches w). scope_columns.truncate r = batch_columns b \<and> lr_body_sha r = sha)
     \<and> (\<forall>r \<in> set (record_registry w). scope_columns.truncate r = batch_columns b)
     \<and> (\<forall>r \<in> set (common_events w). scope_columns.truncate r = batch_columns b)
     \<and> (\<forall>r \<in> set (technical_events w). scope_columns.truncate r = batch_columns b)
     \<and> (\<forall>r \<in> set (plays_events w). scope_columns.truncate r = batch_columns b)
     \<and> (\<forall>r \<in> set (product_events w). scope_columns.truncate r = batch_columns b)
     \<and> (\<forall>r \<in> set (product_outcomes w). scope_columns.truncate r = batch_columns b)"

lemma scoped_no_rows: "scoped b sha no_rows"
  by (simp add: scoped_def telemetry_only_def no_rows_def)

lemma scoped_update:
  assumes "scoped b sha w"
  shows "\<forall>r \<in> set r1. scope_columns.truncate r = batch_columns b \<and> lr_body_sha r = sha
      \<Longrightarrow> scoped b sha (ingest_batches_update (insert_rows r1 part) w)"
    and "\<forall>r \<in> set r2. scope_columns.truncate r = batch_columns b \<Longrightarrow> scoped b sha (record_registry_update (insert_rows r2 part) w)"
    and "\<forall>r \<in> set r3. scope_columns.truncate r = batch_columns b \<Longrightarrow> scoped b sha (common_events_update (insert_rows r3 part) w)"
    and "\<forall>r \<in> set r4. scope_columns.truncate r = batch_columns b \<Longrightarrow> scoped b sha (technical_events_update (insert_rows r4 part) w)"
    and "\<forall>r \<in> set r5. scope_columns.truncate r = batch_columns b \<Longrightarrow> scoped b sha (plays_events_update (insert_rows r5 part) w)"
    and "\<forall>r \<in> set r6. scope_columns.truncate r = batch_columns b \<Longrightarrow> scoped b sha (product_events_update (insert_rows r6 part) w)"
    and "\<forall>r \<in> set r7. scope_columns.truncate r = batch_columns b \<Longrightarrow> scoped b sha (product_outcomes_update (insert_rows r7 part) w)"
  using assms insert_rows_set [of r1 part "ingest_batches w"] insert_rows_set [of r2 part "record_registry w"]
    insert_rows_set [of r3 part "common_events w"] insert_rows_set [of r4 part "technical_events w"]
    insert_rows_set [of r5 part "plays_events w"] insert_rows_set [of r6 part "product_events w"]
    insert_rows_set [of r7 part "product_outcomes w"]
  by (auto simp: scoped_def telemetry_only_def subset_iff)

text \<open>What an attempt has established: its ledger row, then its registry rows.\<close>

definition inserting :: "validated_batch \<Rightarrow> string \<Rightarrow> 'u tables \<Rightarrow> 'u tables \<Rightarrow> bool" where
  "inserting b sha d0 d \<longleftrightarrow> grown (scoped b sha) d0 d \<and> linked d"

definition reserved_in :: "validated_batch \<Rightarrow> 'u \<Rightarrow> 'u tables \<Rightarrow> bool" where
  "reserved_in b u d \<longleftrightarrow> (\<exists>l \<in> set (ingest_batches d). scope_columns.truncate l = batch_columns b \<and> lr_batch_id l = u)"

definition registered_in :: "'u store_config \<Rightarrow> validated_batch \<Rightarrow> 'u \<Rightarrow> 'u tables \<Rightarrow> bool" where
  "registered_in cfg b u d \<longleftrightarrow>
     (\<forall>s \<in> set (record_ids b). \<exists>g \<in> set (record_registry d). scope_columns.truncate g = batch_columns b
        \<and> rr_batch_id g = u \<and> uuid_parse (uuids cfg) s = Some (rr_record_id g))"

lemma valid_prepare_and_send:
  assumes "\<And>rs d. rows = Inr rs \<Longrightarrow> P d \<Longrightarrow> Q (upd (insert_rows rs None) d)"
    and "\<And>rs part d. rows = Inr rs \<Longrightarrow> P d \<Longrightarrow> E (upd (insert_rows rs part) d)"
    and "\<And>d. P d \<Longrightarrow> E d"
  shows "valid (\<lambda>s. P (db s)) (prepare_and_send pm sm rows upd) (\<lambda>_ s. Q (db s)) (\<lambda>_ s. E (db s))"
  unfolding prepare_and_send_def
proof (rule valid_seq [where R = "\<lambda>_ s. P (db s)"])
  show "valid (\<lambda>s. P (db s)) (wrapping pm (query (\<lambda>_. ()))) (\<lambda>_ s. P (db s)) (\<lambda>_ s. E (db s))"
    by (intro valid_wrapping valid_pre [OF valid_query]) (simp add: assms(3))
  show "valid (\<lambda>s. P (db s)) (seq (lift rows) (\<lambda>rs. wrapping sm (exec (\<lambda>part. upd (insert_rows rs part)))))
      (\<lambda>_ s. Q (db s)) (\<lambda>_ s. E (db s))"
    by (intro valid_seq_lift valid_wrapping valid_pre [OF valid_exec]) (simp_all add: assms)
qed

lemma linked_more_ledger:
  "linked d \<Longrightarrow> linked (ingest_batches_update (insert_rows rs part) d)"
  using insert_rows_keeps [of "ingest_batches d" rs part]
  by (fastforce simp: linked_def event_rows_def)

lemma ledger_row_columns:
  "scope_columns.truncate (ledger_row_of cfg b sha t status u) = batch_columns b"
  "lr_batch_id (ledger_row_of cfg b sha t status u) = u"
  by (simp_all add: ledger_row_of_def batch_columns_def Let_def scope_columns.defs ledger_row.defs)

lemma ledger_step:
  assumes "must_parse cfg (batch_id (header b)) = Inr u"
  shows "valid (\<lambda>s. inserting b sha d0 (db s)) (insert_batch_ledger_v2 cfg b sha t status)
    (\<lambda>_ s. inserting b sha d0 (db s) \<and> reserved_in b u (db s)) (\<lambda>_ s. inserting b sha d0 (db s))"
proof -
  let ?l = "ledger_row_of cfg b sha t status u"
  have ins: "inserting b sha d0 (ingest_batches_update (insert_rows [?l] part) d)" if "inserting b sha d0 d" for part d
    using that unfolding inserting_def
    by (auto intro!: grown_update [where upd = "ingest_batches_update (insert_rows [?l] part)"] update_appended scoped_update
        linked_more_ledger simp: ledger_row_columns)
  show ?thesis
    unfolding insert_batch_ledger_v2_def
    by (intro valid_seq_lift valid_wrapping valid_pre [OF valid_exec])
      (use assms ins in \<open>auto simp: reserved_in_def ledger_row_columns\<close>)
qed

lemma registry_row_columns:
  "scope_columns.truncate (registry_row_of b sha t u rid) = batch_columns b"
  "rr_batch_id (registry_row_of b sha t u rid) = u" "rr_record_id (registry_row_of b sha t u rid) = rid"
  by (simp_all add: registry_row_of_def batch_columns_def Let_def scope_columns.defs registry_row.defs)

lemma linked_more_registry:
  assumes l: "linked d" and r: "reserved_in b u d"
    and rs: "\<forall>g \<in> set rs. scope_columns.truncate g = batch_columns b \<and> rr_batch_id g = u"
  shows "linked (record_registry_update (insert_rows rs part) d)"
proof -
  obtain xs where xs: "insert_rows rs part = (\<lambda>t. t @ xs)" "set xs \<subseteq> set rs" by (rule insert_rows_part)
  have "\<exists>l \<in> set (ingest_batches d). same_scope g l \<and> lr_batch_id l = rr_batch_id g" if "g \<in> set xs" for g
  proof -
    from r obtain l where "l \<in> set (ingest_batches d)" "scope_columns.truncate l = batch_columns b" "lr_batch_id l = u"
      by (auto simp: reserved_in_def)
    with that xs(2) rs show ?thesis by (intro bexI [of _ l]) (auto simp: same_scope_def)
  qed
  with l show ?thesis unfolding xs(1) by (auto simp: linked_def event_rows_def)
qed

lemma registry_send_step:
  assumes u: "must_parse cfg (batch_id (header b)) = Inr u" and ids: "traverse (must_parse cfg) (record_ids b) = Inr ids"
  shows "valid (\<lambda>s. inserting b sha d0 (db s) \<and> reserved_in b u (db s)) (prepare_and_send pm sm
      (Inr (map (registry_row_of b sha (column_time cfg t) u) ids)) record_registry_update)
    (\<lambda>_ s. inserting b sha d0 (db s) \<and> registered_in cfg b u (db s)) (\<lambda>_ s. inserting b sha d0 (db s))"
proof -
  let ?rows = "map (registry_row_of b sha (column_time cfg t) u) ids"
  have keep: "inserting b sha d0 (record_registry_update (insert_rows ?rows part) d)"
    if "inserting b sha d0 d" "reserved_in b u d" for part d
    using that unfolding inserting_def
    by (auto intro!: grown_update [where upd = "record_registry_update (insert_rows ?rows part)"] update_appended scoped_update
        linked_more_registry simp: registry_row_columns)
  have reg: "registered_in cfg b u (record_registry_update (insert_rows ?rows None) d)" for d
    unfolding registered_in_def
  proof
    fix s assume "s \<in> set (record_ids b)"
    with ids obtain rid where "rid \<in> set ids" "uuid_parse (uuids cfg) s = Some rid"
      by (fastforce simp: traverse_Inr list_all2_conv_all_nth in_set_conv_nth must_parse_Inr)
    then show "\<exists>g \<in> set (record_registry (record_registry_update (insert_rows ?rows None) d)).
        scope_columns.truncate g = batch_columns b \<and> rr_batch_id g = u \<and> uuid_parse (uuids cfg) s = Some (rr_record_id g)"
      by (intro bexI [of _ "registry_row_of b sha (column_time cfg t) u rid"]) (simp_all add: registry_row_columns)
  qed
  show ?thesis
    by (rule valid_prepare_and_send [where P = "\<lambda>d. inserting b sha d0 d \<and> reserved_in b u d"])
      (use keep reg in \<open>auto simp del: insert_rows_None\<close>)
qed

lemma register_step:
  assumes u: "must_parse cfg (batch_id (header b)) = Inr u"
  shows "valid (\<lambda>s. inserting b sha d0 (db s) \<and> reserved_in b u (db s)) (register_records_v2 cfg b sha t)
    (\<lambda>_ s. inserting b sha d0 (db s) \<and> registered_in cfg b u (db s)) (\<lambda>_ s. inserting b sha d0 (db s))"
    (is "valid ?P _ ?Q ?E")
  unfolding register_records_v2_def
proof (intro valid_seq_lift, goal_cases)
  case (1 ids)
  have read: "valid ?P (wrapping m (query q)) (\<lambda>_. ?P) ?E"
    for m and q :: "'a tables \<Rightarrow> ('a \<times> string) list"
    by (intro valid_wrapping valid_pre [OF valid_query]) simp
  have check: "valid ?P (fail_if c e) (\<lambda>_. ?P) ?E" for c e
    by (rule valid_pre [OF valid_fail_if]) simp
  show ?case
    unfolding u action_simps
    by (rule valid_seq [OF valid_seq [OF registry_send_step [OF u 1] check] read])
qed simp

lemma linked_more_events:
  assumes "linked d" and "registered_in cfg b u d"
    and "record_registry d' = record_registry d" "ingest_batches d' = ingest_batches d"
    and "set (event_rows d') \<subseteq> set (event_rows d) \<union> set rows"
    and "\<And>e. e \<in> set rows \<Longrightarrow> scope_columns.truncate e = batch_columns b \<and> er_batch_id e = u
      \<and> (\<exists>s \<in> set (record_ids b). uuid_parse (uuids cfg) s = Some (er_record_id e))"
  shows "linked d'"
proof -
  have "\<exists>g \<in> set (record_registry d). same_scope e g \<and> rr_record_id g = er_record_id e \<and> rr_batch_id g = er_batch_id e"
    if "e \<in> set rows" for e
  proof -
    from assms(6) [OF that] obtain s where s: "s \<in> set (record_ids b)" "uuid_parse (uuids cfg) s = Some (er_record_id e)"
      "scope_columns.truncate e = batch_columns b" "er_batch_id e = u" by blast
    from assms(2) s(1) obtain g where "g \<in> set (record_registry d)" "scope_columns.truncate g = batch_columns b"
      "rr_batch_id g = u" "uuid_parse (uuids cfg) s = Some (rr_record_id g)" unfolding registered_in_def by blast
    with s show ?thesis by (intro bexI [of _ g]) (simp_all add: same_scope_def)
  qed
  note new = this
  show ?thesis
    unfolding linked_def assms(3,4)
  proof (intro conjI ballI)
    fix e assume "e \<in> set (event_rows d')"
    with assms(5) have "e \<in> set (event_rows d) \<or> e \<in> set rows" by blast
    then show "\<exists>g \<in> set (record_registry d). same_scope e g \<and> rr_record_id g = er_record_id e \<and> rr_batch_id g = er_batch_id e"
      using new assms(1) unfolding linked_def by blast
  next
    fix g assume "g \<in> set (record_registry d)"
    then show "\<exists>l \<in> set (ingest_batches d). same_scope g l \<and> lr_batch_id l = rr_batch_id g"
      using assms(1) unfolding linked_def by blast
  qed
qed

text \<open>The rows of a stream, as they are seen through the columns that all streams share.\<close>

definition batch_event :: "'u store_config \<Rightarrow> validated_batch \<Rightarrow> 'u \<Rightarrow> ('u, 'z) event_row_scheme \<Rightarrow> bool" where
  "batch_event cfg b u e \<longleftrightarrow> scope_columns.truncate e = batch_columns b \<and> er_batch_id e = u
     \<and> (\<exists>s \<in> set (record_ids b). uuid_parse (uuids cfg) s = Some (er_record_id e))"

lemma batch_event_truncate: "batch_event cfg b u (event_row.truncate e) = batch_event cfg b u e"
  by (cases e) (simp add: batch_event_def event_row.defs scope_columns.defs)

lemma stream_batch_events:
  assumes u: "must_parse cfg (batch_id (header b)) = Inr u" and rows: "traverse f vs = Inr rows"
    and row: "\<And>v r. f v = Inr r \<Longrightarrow> row_of_batch cfg b v r"
    and ids: "\<exists>xs ys. record_ids b = xs @ map (record_id \<circ> the_record) vs @ ys" and r: "r \<in> set rows"
  shows "batch_event cfg b u r"
proof -
  from rows r obtain v where v: "v \<in> set vs" "f v = Inr r" by (rule traverse_setD)
  with ids have "record_id (the_record v) \<in> set (record_ids b)" by auto
  with row [OF v(2)] u show ?thesis by (auto simp: row_of_batch_def batch_event_def must_parse_Inr)
qed

lemma event_step:
  assumes rows: "\<And>R r. rows = Inr R \<Longrightarrow> r \<in> set R \<Longrightarrow> batch_event cfg b u r"
    and grows: "\<And>R part d w. \<forall>r \<in> set R. scope_columns.truncate r = batch_columns b \<Longrightarrow>
      scoped b sha w \<Longrightarrow> upd (insert_rows R part) (appended d w) = appended d (upd (insert_rows R part) w)
      \<and> scoped b sha (upd (insert_rows R part) w)"
    and frame: "\<And>g d. record_registry (upd g d) = record_registry d \<and> ingest_batches (upd g d) = ingest_batches d"
    and events: "\<And>xs d. set (event_rows (upd (\<lambda>t. t @ xs) d)) \<subseteq> set (event_rows d) \<union> event_row.truncate ` set xs"
  shows "valid (\<lambda>s. inserting b sha d0 (db s) \<and> registered_in cfg b u (db s)) (prepare_and_send pm sm rows upd)
    (\<lambda>_ s. inserting b sha d0 (db s)) (\<lambda>_ s. inserting b sha d0 (db s))"
proof -
  have "inserting b sha d0 (upd (insert_rows R part) d)"
    if R: "rows = Inr R" and d: "inserting b sha d0 d" "registered_in cfg b u d" for R part d
  proof -
    obtain xs where xs: "insert_rows R part = (\<lambda>t. t @ xs)" "set xs \<subseteq> set R" by (rule insert_rows_part)
    note be = rows [OF R]
    have cols: "\<forall>r \<in> set R. scope_columns.truncate r = batch_columns b" using be by (auto simp: batch_event_def)
    from d(1) obtain w where w: "d = appended d0 w" "scoped b sha w" "linked d" by (auto simp: inserting_def grown_def)
    have "grown (scoped b sha) d0 (upd (insert_rows R part) d)"
      using grows [OF cols w(2)] unfolding w(1) grown_def by blast
    moreover have "linked (upd (insert_rows R part) d)"
      unfolding xs(1)
    proof (rule linked_more_events [OF w(3) d(2), where rows = "map event_row.truncate xs"])
      fix e assume "e \<in> set (map event_row.truncate xs)"
      then obtain x where "x \<in> set xs" "e = event_row.truncate x" by auto
      with xs(2) be [of x] batch_event_truncate [of cfg b u x] have "batch_event cfg b u e" by auto
      then show "scope_columns.truncate e = batch_columns b \<and> er_batch_id e = u
        \<and> (\<exists>s \<in> set (record_ids b). uuid_parse (uuids cfg) s = Some (er_record_id e))" by (simp add: batch_event_def)
    qed (use frame events in auto)
    ultimately show ?thesis by (simp add: inserting_def)
  qed
  then show ?thesis
    by (intro valid_prepare_and_send [where P = "\<lambda>d. inserting b sha d0 d \<and> registered_in cfg b u d"])
      (auto simp del: insert_rows_None)
qed

lemma valid_cond:
  "(c \<Longrightarrow> valid P m Q E) \<Longrightarrow> (\<not> c \<Longrightarrow> valid P m' Q E) \<Longrightarrow> valid P (if c then m else m') Q E"
  by simp

lemma stream_step:
  assumes u: "must_parse cfg (batch_id (header b)) = Inr u"
  shows "valid (\<lambda>s. inserting b sha d0 (db s) \<and> registered_in cfg b u (db s)) (insert_stream_v2 cfg b t)
    (\<lambda>_ s. inserting b sha d0 (db s)) (\<lambda>_ s. inserting b sha d0 (db s))"
proof -
  note be = stream_batch_events [OF u]
  have trunc: "event_row.truncate x = x" for x :: "'a event_row" by (cases x) (simp add: event_row.defs)
  note rules = insert_common_v2_def insert_technical_v2_def insert_plays_v2_def insert_product_v2_def insert_outcome_v2_def
  have "valid (\<lambda>s. inserting b sha d0 (db s) \<and> registered_in cfg b u (db s)) (insert_common_v2 cfg b t)
      (\<lambda>_ s. inserting b sha d0 (db s)) (\<lambda>_ s. inserting b sha d0 (db s))"
    unfolding rules
    by (rule event_step, erule be [OF _ row_of_batch(1) record_ids_parts(1)])
      (auto simp: update_appended scoped_update event_rows_def)
  moreover have "valid (\<lambda>s. inserting b sha d0 (db s) \<and> registered_in cfg b u (db s)) (insert_technical_v2 cfg b t)
      (\<lambda>_ s. inserting b sha d0 (db s)) (\<lambda>_ s. inserting b sha d0 (db s))"
    unfolding rules
    by (rule event_step, erule be [OF _ row_of_batch(2) record_ids_parts(2)])
      (auto simp: update_appended scoped_update event_rows_def)
  moreover have "valid (\<lambda>s. inserting b sha d0 (db s) \<and> registered_in cfg b u (db s)) (insert_plays_v2 cfg b t)
      (\<lambda>_ s. inserting b sha d0 (db s)) (\<lambda>_ s. inserting b sha d0 (db s))"
    unfolding rules
    by (rule event_step, erule be [OF _ row_of_batch(3) record_ids_parts(3)])
      (auto simp: update_appended scoped_update event_rows_def)
  moreover have "valid (\<lambda>s. inserting b sha d0 (db s) \<and> registered_in cfg b u (db s)) (insert_product_v2 cfg b t)
      (\<lambda>_ s. inserting b sha d0 (db s)) (\<lambda>_ s. inserting b sha d0 (db s))"
    unfolding rules
    by (rule event_step, erule be [OF _ row_of_batch(4) record_ids_parts(4)])
      (auto simp: update_appended scoped_update event_rows_def trunc)
  moreover have "valid (\<lambda>s. inserting b sha d0 (db s) \<and> registered_in cfg b u (db s)) (insert_outcome_v2 cfg b t)
      (\<lambda>_ s. inserting b sha d0 (db s)) (\<lambda>_ s. inserting b sha d0 (db s))"
    unfolding rules
    by (rule event_step, erule be [OF _ row_of_batch(5) record_ids_parts(5)])
      (auto simp: update_appended scoped_update event_rows_def)
  moreover have "valid (\<lambda>s. inserting b sha d0 (db s) \<and> registered_in cfg b u (db s))
      (fail (Err ''unsupported validated stream'')) (\<lambda>_ s. inserting b sha d0 (db s)) (\<lambda>_ s. inserting b sha d0 (db s))"
    by (rule valid_pre [OF valid_fail]) simp
  ultimately show ?thesis unfolding insert_stream_v2_def Let_def by (intro valid_cond) assumption+
qed

lemma complete_step:
  assumes u: "must_parse cfg (batch_id (header b)) = Inr u"
  shows "valid (\<lambda>s. inserting b sha d0 (db s) \<and> reserved_in b u (db s)) (complete_batch_v2 cfg b sha t)
    (\<lambda>_ s. inserting b sha d0 (db s)) (\<lambda>_ s. inserting b sha d0 (db s))"
proof -
  have close: "valid (\<lambda>s. inserting b sha d0 (db s)) (seq (insert_batch_ledger_v2 cfg b sha t2 st) (\<lambda>_. ret r)) (\<lambda>_ s. inserting b sha d0 (db s)) (\<lambda>_ s. inserting b sha d0 (db s))" for t2 st r
    by (rule valid_seq [OF valid_ret]) (rule valid_post [OF ledger_step [OF u]], simp_all)
  have time: "valid (\<lambda>s. inserting b sha d0 (db s)) time_now (\<lambda>_ s. inserting b sha d0 (db s)) (\<lambda>_ s. inserting b sha d0 (db s))"
    by (rule valid_pre [OF valid_time_now]) simp
  show ?thesis
    unfolding complete_batch_v2_def Let_def
    by (rule valid_seq [OF valid_seq [OF valid_seq [OF close time] stream_step [OF u]] register_step [OF u]])
qed

definition insert_outcome :: "validated_batch \<Rightarrow> string \<Rightarrow> 'u tables \<Rightarrow> 'u tables \<Rightarrow> bool" where
  "insert_outcome b sha d0 d \<longleftrightarrow>
     d = d0 \<or> \<not> suppressed_v2 (header_scope (header b)) (product_key b) d0 \<and> inserting b sha d0 d"

lemma insert_step:
  assumes l: "linked d0" and ledger: "ledger_ok content d0" and b: "b = content sha"
  shows "valid (\<lambda>s. db s = d0) (insert_v2 cfg b sha)
    (\<lambda>_ s. insert_outcome b sha d0 (db s)) (\<lambda>_ s. insert_outcome b sha d0 (db s))"
proof (cases "must_parse cfg (batch_id (header b))")
  case (Inl e)
  then show ?thesis
    by (auto simp: insert_v2_def batch_ledger_v2_def Let_def insert_outcome_def intro: valid_pre [OF valid_fail])
next
  case (Inr u)
  let ?P = "\<lambda>s. db s = d0" and ?Q = "\<lambda>s. insert_outcome b sha d0 (db s)"
  let ?sup = "suppressed_v2 (header_scope (header b)) (product_key b) d0"
  have start: "inserting b sha d0 d0"
    using grown_refl [where P = "scoped b sha", OF scoped_no_rows] l by (simp add: inserting_def)
  have same: "?P s \<Longrightarrow> ?Q s" for s by (simp add: insert_outcome_def)
  have unless: "valid ?P (seq (is_suppressed (header_scope (header b)) (product_key b))
      (\<lambda>x. if x then fail ErrSuppressed else m)) (\<lambda>_. ?Q) (\<lambda>_. ?Q)"
    if "\<not> ?sup \<Longrightarrow> valid ?P m (\<lambda>_ s. inserting b sha d0 (db s)) (\<lambda>_ s. inserting b sha d0 (db s))" for m
  proof (rule valid_seq [where R = "\<lambda>x s. ?P s \<and> x = ?sup"])
    show "valid ?P (is_suppressed (header_scope (header b)) (product_key b)) (\<lambda>x s. ?P s \<and> x = ?sup) (\<lambda>_. ?Q)"
      unfolding is_suppressed_def by (intro valid_wrapping valid_pre [OF valid_query]) (simp add: insert_outcome_def)
    fix x
    show "valid (\<lambda>s. ?P s \<and> x = ?sup) (if x then fail ErrSuppressed else m) (\<lambda>_. ?Q) (\<lambda>_. ?Q)"
    proof (cases "x = ?sup \<and> \<not> x")
      case True
      then have n: "\<not> ?sup" "\<not> x" by auto
      show ?thesis
        by (simp only: n(2) if_False) (rule valid_conseq [OF that [OF n(1)]]; use n in \<open>simp add: insert_outcome_def\<close>)
    next
      case False
      then show ?thesis by (auto simp: valid_def insert_outcome_def)
    qed
  qed
  have fresh: "valid ?P (seq time_now (\<lambda>t. seq (insert_batch_ledger_v2 cfg b sha (f t) st) (\<lambda>_. complete_batch_v2 cfg b sha (f t))))
      (\<lambda>_ s. inserting b sha d0 (db s)) (\<lambda>_ s. inserting b sha d0 (db s))" for f st
  proof (rule valid_seq [where R = "\<lambda>_ s. inserting b sha d0 (db s)"])
    show "valid ?P time_now (\<lambda>_ s. inserting b sha d0 (db s)) (\<lambda>_ s. inserting b sha d0 (db s))"
      by (rule valid_pre [OF valid_time_now]) (simp add: start)
  qed (rule valid_seq [OF complete_step [OF Inr] ledger_step [OF Inr]])
  have resume: "valid ?P (complete_batch_v2 cfg b sha t) (\<lambda>_ s. inserting b sha d0 (db s)) (\<lambda>_ s. inserting b sha d0 (db s))"
    if "reserved_in b u d0" for t
    by (rule valid_pre [OF complete_step [OF Inr]]) (use start that in simp)
  let ?read = "map_option (\<lambda>r. (lr_body_sha r, lr_status r, lr_ingested_at r))
      (newest ledger_key lr_ingested_at (ingest_batches d0) (product_id (header_scope (header b)), u))"
  have reserved: "reserved_in b u d0" if "?read = Some (sha, st, t)" for st t
  proof -
    from that obtain r where r: "newest ledger_key lr_ingested_at (ingest_batches d0) (product_id (header_scope (header b)), u) = Some r"
      "lr_body_sha r = sha" by auto
    from newest_Some [OF r(1)] r(2) ledger b show ?thesis by (auto simp: reserved_in_def ledger_ok_def ledger_key_def)
  qed
  show ?thesis
    unfolding insert_v2_def Let_def
  proof (rule valid_seq [where R = "\<lambda>x s. ?P s \<and> x = ?read"])
    show "valid ?P (batch_ledger_v2 cfg (product_id (header_scope (header b))) (batch_id (header b)))
        (\<lambda>x s. ?P s \<and> x = ?read) (\<lambda>_. ?Q)"
      unfolding batch_ledger_v2_def Inr action_simps
      by (intro valid_wrapping valid_pre [OF valid_query]) (simp add: insert_outcome_def)
    fix x
    show "valid (\<lambda>s. ?P s \<and> x = ?read) (case x of
          Some (existing_sha, status, reserved_at) \<Rightarrow>
            if existing_sha \<noteq> sha then fail ErrIdempotencyConflict
            else if status = ''completed'' then ret \<lparr>result_count = record_count b, result_replayed = True\<rparr>
            else if status \<noteq> ''reserved'' then fail (Err ''invalid v2 batch ledger status'')
            else seq (is_suppressed (header_scope (header b)) (product_key b))
              (\<lambda>suppressed. if suppressed then fail ErrSuppressed else complete_batch_v2 cfg b sha reserved_at)
        | None \<Rightarrow> seq (is_suppressed (header_scope (header b)) (product_key b)) (\<lambda>suppressed. if suppressed then fail ErrSuppressed
              else seq time_now (\<lambda>t. seq (insert_batch_ledger_v2 cfg b sha (truncate_to t millisecond) ''reserved'')
                (\<lambda>_. complete_batch_v2 cfg b sha (truncate_to t millisecond))))) (\<lambda>_. ?Q) (\<lambda>_. ?Q)"
    proof (cases x)
      case None
      then show ?thesis using valid_pre [OF unless [OF fresh], of "\<lambda>s. ?P s \<and> x = ?read"] by simp
    next
      case (Some y)
      obtain sha' st t where y: "y = (sha', st, t)" by (cases y)
      have skip: "valid (\<lambda>s. ?P s \<and> x = ?read) (fail e) (\<lambda>_. ?Q) (\<lambda>_. ?Q)" "valid (\<lambda>s. ?P s \<and> x = ?read) (ret r) (\<lambda>_. ?Q) (\<lambda>_. ?Q)"
        for e and r :: ingest_result
        by (auto simp: insert_outcome_def intro: valid_pre [OF valid_fail] valid_pre [OF valid_ret])
      have go: "valid (\<lambda>s. ?P s \<and> x = ?read) (seq (is_suppressed (header_scope (header b)) (product_key b))
              (\<lambda>suppressed. if suppressed then fail ErrSuppressed else complete_batch_v2 cfg b sha t)) (\<lambda>_. ?Q) (\<lambda>_. ?Q)"
        if "sha' = sha"
      proof (cases "x = ?read")
        case True
        with Some y that have "reserved_in b u d0" by (intro reserved [of st t]) simp
        show ?thesis by (rule valid_pre [OF unless [OF resume [OF \<open>reserved_in b u d0\<close>]]]) simp
      next
        case False
        then show ?thesis by (simp add: valid_def)
      qed
      show ?thesis unfolding Some y option.case prod.case using skip go unfolding Some y by (intro valid_cond) auto
    qed
  qed
qed

lemma v2_inserted_safe:
  assumes good: "good_driver cfg" and d: "safe cfg content S d"
    and un: "\<not> suppressed_v2 (header_scope (header (content sha))) (product_key (content sha)) d"
    and ins: "inserting (content sha) sha d d'"
  shows "safe cfg content S d'" and "suppressions d' = suppressions d" and "deletion_progress d' = deletion_progress d"
    and "set (ingest_batches d) \<subseteq> set (ingest_batches d')" and "set (record_registry d) \<subseteq> set (record_registry d')"
    and "known_work cfg q d \<Longrightarrow> erased_from cfg q tab d \<Longrightarrow> erased_from cfg q tab d'"
proof -
  from ins obtain w where w: "d' = appended d w" "scoped (content sha) sha w" and l: "linked d'"
    by (auto simp: inserting_def grown_def)
  from d have inv: "erasure_inv cfg content d" and S: "S \<subseteq> set (suppressions d)" and ok: "requests_ok cfg d"
    and ledger: "ledger_ok content d" by (simp_all add: safe_def erasure_inv_def)
  have same: "suppressions d' = suppressions d" "deletion_progress d' = deletion_progress d"
    "v1_events d' = v1_events d" "v1_summaries d' = v1_summaries d"
    using w(2) by (simp_all add: w(1) appended_def scoped_def telemetry_only_def)
  then show "suppressions d' = suppressions d" "deletion_progress d' = deletion_progress d" by simp_all
  show "set (ingest_batches d) \<subseteq> set (ingest_batches d')" "set (record_registry d) \<subseteq> set (record_registry d')"
    by (simp_all add: w(1) appended_def)
  have er: "erased_from cfg q tab d'" if q: "known_work cfg q d" and e: "erased_from cfg q tab d" for q tab
  proof (cases "pq_legacy q")
    case None
    note un = unsuppressed_scope [OF good ok q un]
    have "\<forall>r \<in> set (common_events w). \<not> work_match q r"
      "\<forall>r \<in> set (technical_events w). \<not> work_match q r"
      "\<forall>r \<in> set (plays_events w). \<not> work_match q r"
      "\<forall>r \<in> set (product_events w). \<not> work_match q r"
      "\<forall>r \<in> set (product_outcomes w). \<not> work_match q r"
      "\<forall>r \<in> set (record_registry w). \<not> work_match q r"
      "\<forall>r \<in> set (ingest_batches w). \<not> work_match q r"
      using w(2) un unfolding scoped_def by blast+
    with e None show ?thesis by (simp add: erased_from_def w(1) appended_def ball_Un)
  next
    case (Some i)
    with e same show ?thesis by (simp add: erased_from_def)
  qed
  then show "known_work cfg q d \<Longrightarrow> erased_from cfg q tab d \<Longrightarrow> erased_from cfg q tab d'" .
  have "ledger_ok content d'"
    using ledger w(2) by (auto simp: ledger_ok_def w(1) appended_def scoped_def)
  then have "erasure_inv cfg content d'" using l by (intro erasure_inv_grown [OF inv same(1,2)] er)
  with S show "safe cfg content S d'" by (simp add: safe_def same)
qed

lemma keeps_insert_v2:
  assumes good: "good_driver cfg"
  shows "keeps (\<lambda>s. safe cfg content S (db s)) (insert_v2 cfg (content sha) sha)"
proof (rule keepsI)
  fix s :: "'a tables conn" assume s: "safe cfg content S (db s)"
  then have "linked (db s)" "ledger_ok content (db s)" by (simp_all add: safe_def erasure_inv_def)
  from insert_step [OF this refl, of cfg sha]
  have "insert_outcome (content sha) sha (db s) (db (snd (insert_v2 cfg (content sha) sha s)))"
    by (cases "insert_v2 cfg (content sha) sha s"; cases "fst (insert_v2 cfg (content sha) sha s)")
      (auto dest: validD validE)
  then show "safe cfg content S (db (snd (insert_v2 cfg (content sha) sha s)))"
    using s v2_inserted_safe(1) [OF good s] by (auto simp: insert_outcome_def)
qed

end
