(* ===== verification/Store_Histories.thy ===== *)
theory Store_Histories
  imports Erasure_Inserts
begin

section \<open>Histories of the store\<close>

text \<open>
  The store is called by the writer and by any number of workers. \<open>store_call\<close> is one call of a
  method with its arguments, \<open>run_call\<close> what it does; \<open>history\<close> is the relation between the tables
  before and after any sequence of calls, each of which may be broken at any point. A worker hands
  back the requests that were listed to it, deletes for requests that ask for it, and completes a
  deletion when the store has reported success for all its tables (\<open>allowed\<close>); that RunOnce keeps
  to this is the interpretation of \<open>privacy_repository\<close> at the end. \<open>content\<close> names the batch of a
  digest.
\<close>

datatype store_call =
    IngestV2 string
  | IngestV1 validated_batch_v1
  | IngestFundraising fr_validated_batch string
  | CreatePrivacy validated_privacy_request string
  | CreateLegacyPrivacy validated_privacy_v1 string
  | ClaimRequest privacy_work
  | DeleteRequest privacy_work
  | CompleteRequest privacy_work
  | RetryRequest privacy_work string int

fun run_call :: "'u store_config \<Rightarrow> (string \<Rightarrow> validated_batch) \<Rightarrow> store_call \<Rightarrow> ('u, unit) store_action" where
  "run_call cfg content (IngestV2 sha) = ignoring (insert_v2 cfg (content sha) sha)"
| "run_call cfg content (IngestV1 b) = ignoring (insert_v1 cfg b)"
| "run_call cfg content (IngestFundraising b sha) = ignoring (insert_fundraising cfg b sha)"
| "run_call cfg content (CreatePrivacy p sha) = ignoring (create_privacy_request cfg p sha)"
| "run_call cfg content (CreateLegacyPrivacy p sha) = ignoring (create_legacy_privacy_request cfg p sha)"
| "run_call cfg content (ClaimRequest q) = ignoring (claim_privacy_request cfg q)"
| "run_call cfg content (DeleteRequest q) = ignoring (delete_telemetry_request cfg q)"
| "run_call cfg content (CompleteRequest q) = ignoring (complete_privacy_request cfg q)"
| "run_call cfg content (RetryRequest q code n) = ignoring (retry_privacy_request cfg q code n)"

fun allowed :: "'u store_config \<Rightarrow> store_call \<Rightarrow> 'u tables \<Rightarrow> bool" where
  "allowed cfg (ClaimRequest q) d = known_work cfg q d"
| "allowed cfg (DeleteRequest q) d = (known_work cfg q d \<and> pq_action q = PrivacyDelete)"
| "allowed cfg (CompleteRequest q) d =
     (known_work cfg q d \<and> (pq_action q = PrivacyDelete \<longrightarrow> progress_done cfg q d))"
| "allowed cfg (RetryRequest q code n) d = known_work cfg q d"
| "allowed cfg call d = True"

inductive history :: "'u store_config \<Rightarrow> (string \<Rightarrow> validated_batch) \<Rightarrow> 'u tables \<Rightarrow> 'u tables \<Rightarrow> bool"
  for cfg content d where
  start: "history cfg content d d"
| call: "history cfg content d (db s) \<Longrightarrow> allowed cfg c (db s) \<Longrightarrow>
    history cfg content d (db (snd (run_call cfg content c s)))"

inductive_cases historyE: "history cfg content d d'"

definition reachable :: "'u store_config \<Rightarrow> (string \<Rightarrow> validated_batch) \<Rightarrow> 'u tables \<Rightarrow> bool" where
  "reachable cfg content = history cfg content no_rows"

lemma history_trans:
  "history cfg content d' d'' \<Longrightarrow> history cfg content d d' \<Longrightarrow> history cfg content d d''"
  by (induction rule: history.induct) (auto intro: history.call)

lemma ignoring_snd [simp]: "snd (ignoring m s) = snd (m s)"
  by (simp add: ignoring_def)

lemma call_keeps_safe:
  assumes good: "good_driver cfg" and s: "safe cfg content S (db s)" and ok: "allowed cfg c (db s)"
  shows "safe cfg content S (db (snd (run_call cfg content c s)))"
proof -
  let ?T = "set (suppressions (db s))"
  from s have T: "safe cfg content ?T (db s)" and S: "S \<subseteq> ?T" by (simp_all add: safe_def)
  from good have ms: "ordered_driver cfg" by (simp add: good_driver_def)
  have "safe cfg content ?T (db (snd (run_call cfg content c s)))"
  proof (cases c)
    case (IngestV2 sha)
    then show ?thesis using keepsD [OF keeps_insert_v2 [OF good] T] by simp
  next
    case (IngestV1 b)
    then show ?thesis using keepsD [OF keeps_insert_v1 [OF good] T] by simp
  next
    case (IngestFundraising b sha)
    then show ?thesis using keepsD [OF keeps_insert_fundraising T] by simp
  next
    case (CreatePrivacy p sha)
    then show ?thesis using keepsD [OF keeps_create [OF ms] T] by simp
  next
    case (CreateLegacyPrivacy p sha)
    then show ?thesis using keepsD [OF keeps_create_legacy [OF ms] T] by simp
  next
    case (ClaimRequest q)
    with ok have "known_in cfg q ?T" by (simp add: known_in_work)
    with ClaimRequest show ?thesis using keepsD [OF keeps_claim [OF good] T] by simp
  next
    case (DeleteRequest q)
    with ok have "known_in cfg q ?T" by (simp add: known_in_work)
    from valid_delete_telemetry [OF good this, of content]
    have "keeps (\<lambda>s. safe cfg content ?T (db s)) (delete_telemetry_request cfg q)"
      unfolding keeps_def by (rule valid_post) auto
    from keepsD [OF this T] DeleteRequest show ?thesis by simp
  next
    case (CompleteRequest q)
    with ok have q: "known_in cfg q ?T" and p: "pq_action q = PrivacyDelete \<Longrightarrow> progress_done cfg q (db s)"
      by (simp_all add: known_in_work)
    let ?D = "if pq_action q = PrivacyDelete then set (deletion_tables q) else {}"
    have "safe cfg content ?T (db s) \<and> done_tables cfg q ?D (db s)"
      using T p by (simp add: progress_done_tables)
    from keepsD [OF keeps_complete [OF good q] this] CompleteRequest show ?thesis by simp
  next
    case (RetryRequest q code n)
    with ok have "known_in cfg q ?T" by (simp add: known_in_work)
    with RetryRequest show ?thesis using keepsD [OF keeps_retry [OF good] T] by simp
  qed
  with S show ?thesis by (auto simp: safe_def)
qed

lemma history_safe:
  assumes "good_driver cfg" and "history cfg content d d'" and "safe cfg content S d"
  shows "safe cfg content S d'"
  using assms(2) by (induction rule: history.induct) (auto intro: assms(3) call_keeps_safe [OF assms(1)])

lemma reachable_inv: "good_driver cfg \<Longrightarrow> reachable cfg content d \<Longrightarrow> erasure_inv cfg content d"
  using history_safe [of cfg content no_rows d "{}"] erasure_inv_no_rows [of cfg content]
  by (simp add: reachable_def safe_def)

subsection \<open>What a request names\<close>

definition named_by :: "'u suppression_row \<Rightarrow> 'z scope_columns_scheme \<Rightarrow> bool" where
  "named_by r =
     scope_match (col_product r) (string_value (col_product_key r)) (string_value (col_subject_key r))
       (col_person_key r) (col_org_key r)"

definition forgotten :: "'u suppression_row \<Rightarrow> 'u tables \<Rightarrow> bool" where
  "forgotten r d \<longleftrightarrow>
     (case sr_legacy_installation r of
        None \<Rightarrow> (\<forall>e \<in> set (event_rows d). \<not> named_by r e) \<and> (\<forall>g \<in> set (record_registry d). \<not> named_by r g)
          \<and> (\<forall>l \<in> set (ingest_batches d). \<not> named_by r l)
      | Some i \<Rightarrow> (\<forall>e \<in> set (v1_events d). v1e_installation e \<noteq> i) \<and> (\<forall>e \<in> set (v1_summaries d). v1s_installation e \<noteq> i))"

lemma scanned_match:
  assumes "scan_request cfg r = Inr q" and "request_ok cfg r"
  shows "work_match q = (named_by r :: 'z scope_columns_scheme \<Rightarrow> bool)"
  using scan_request_fields [OF assms] by (simp add: work_match_def named_by_def string_value_def)

lemma completed_forgotten:
  assumes good: "good_driver cfg" and inv: "erasure_inv cfg content d"
    and r: "r \<in> set (suppressions d)" "sr_status r = ''completed''" "sr_action r = PrivacyDelete"
  shows "forgotten r d"
proof -
  from good have lib: "uuid_round_trip (uuids cfg)" by (simp add: good_driver_def)
  from inv r(1) have ok: "request_ok cfg r" by (simp add: erasure_inv_def requests_ok_def)
  from scan_request_ok [OF this] obtain q where q: "scan_request cfg r = Inr q" "pq_attempts q = sr_attempts r" by blast
  note f = scan_request_fields [OF q(1) ok]
  from q have "q\<lparr>pq_attempts := sr_attempts r\<rparr> = q" by (cases q) simp
  with q r(1) have known: "known_work cfg q d" unfolding known_work_def by (metis)
  from inv r q(1) f(4) have "progress_done cfg q d" by (simp add: erasure_inv_def completed_ok_def)
  then have er: "erased_from cfg q tab d" if "tab \<in> set (deletion_tables q)" for tab
    using table_done_erased [OF lib inv known] that by (simp add: progress_done_def)
  show ?thesis
  proof (cases "sr_legacy_installation r")
    case None
    with f(5) have n: "pq_legacy q = None" by simp
    then have t: "deletion_tables q = telemetry_tables" by (simp add: deletion_tables_def)
    have "\<forall>tab \<in> set event_tables. erased_from cfg q tab d"
      by (rule ballI, rule er) (auto simp: t telemetry_tables_def event_tables_def)
    note ev = erased_events [OF n this]
    have "erased_from cfg q ''record_registry_v2'' d" "erased_from cfg q ''ingest_batches_v2'' d"
      by (rule er, simp add: t telemetry_tables_def)+
    with ev None n show ?thesis by (simp add: forgotten_def erased_from_def scanned_match [OF q(1) ok])
  next
    case (Some i)
    with f(5) have n: "pq_legacy q = Some (uuid_string (uuids cfg) i)" by simp
    then have t: "deletion_tables q = legacy_tables" by (simp add: deletion_tables_def)
    have "erased_from cfg q ''events'' d" "erased_from cfg q ''session_summaries'' d"
      by (rule er, simp add: t legacy_tables_def)+
    with n lib Some show ?thesis by (auto simp: forgotten_def erased_from_def uuid_round_trip_def)
  qed
qed

subsection \<open>The worker over the store\<close>

definition store_backend :: "'u store_config \<Rightarrow> 'u tables conn privacy_backend" where
  "store_backend cfg = \<lparr>list_pending = pending_privacy_requests cfg, claim_request = claim_privacy_request cfg,
     complete_request = complete_privacy_request cfg, retry_request = retry_privacy_request cfg,
     delete_telemetry = delete_telemetry_request cfg\<rparr>"

lemma call_known:
  assumes "good_driver cfg" and "reachable cfg content (db s)" and "allowed cfg c (db s)" and "known_work cfg q (db s)"
  shows "known_work cfg q (db (snd (run_call cfg content c s)))"
proof -
  from assms(1,2) have "safe cfg content (set (suppressions (db s))) (db s)" by (simp add: safe_def reachable_inv)
  from call_keeps_safe [OF assms(1) this assms(3)] assms(4) show ?thesis
    by (intro known_work_mono [OF assms(4)]) (simp add: safe_def)
qed

text \<open>The state of a worker: what the store can be in, and requests that it knows.\<close>

abbreviation worker_state :: "'u store_config \<Rightarrow> (string \<Rightarrow> validated_batch) \<Rightarrow> privacy_work set \<Rightarrow> 'u tables conn \<Rightarrow> bool" where
  "worker_state cfg content Q s \<equiv> good_driver cfg \<and> reachable cfg content (db s) \<and> (\<forall>q \<in> Q. known_work cfg q (db s))"

lemma worker_call:
  "valid (\<lambda>s. worker_state cfg content Q s \<and> allowed cfg c (db s)) (run_call cfg content c)
     (\<lambda>_. worker_state cfg content Q) (\<lambda>_. worker_state cfg content Q)"
proof (rule validI)
  fix s :: "'a tables conn"
  assume s: "worker_state cfg content Q s \<and> allowed cfg c (db s)"
  then have "reachable cfg content (db (snd (run_call cfg content c s)))"
    unfolding reachable_def by (blast intro: history.call)
  moreover have "\<forall>q \<in> Q. known_work cfg q (db (snd (run_call cfg content c s)))"
    using call_known s by blast
  ultimately show "case run_call cfg content c s of
      (Inr x, s') \<Rightarrow> worker_state cfg content Q s' | (Inl e, s') \<Rightarrow> worker_state cfg content Q s'"
    using s by (cases "run_call cfg content c s") (auto split: sum.splits)
qed

lemma unignore:
  assumes "valid P (ignoring m) (\<lambda>_. Q) (\<lambda>_. Q)"
  shows "valid P m (\<lambda>_. Q) (\<lambda>_. Q)"
proof (rule validI)
  fix s assume "P s"
  with validD [OF assms] have "Q (snd (m s))" by (simp add: ignoring_def)
  then show "case m s of (Inr x, s') \<Rightarrow> Q s' | (Inl e, s') \<Rightarrow> Q s'"
    by (cases "m s") (auto split: sum.splits)
qed

lemma worker_calls:
  "keeps (worker_state cfg content (insert q Q)) (claim_privacy_request cfg q)"
  "keeps (worker_state cfg content (insert q Q)) (retry_privacy_request cfg q code n)"
  "valid (\<lambda>s. worker_state cfg content (insert q Q) s \<and> (pq_action q = PrivacyDelete \<longrightarrow> progress_done cfg q (db s)))
     (complete_privacy_request cfg q) (\<lambda>_. worker_state cfg content Q) (\<lambda>_. worker_state cfg content Q)"
  "pq_action q = PrivacyDelete \<Longrightarrow> keeps (worker_state cfg content (insert q Q)) (delete_telemetry_request cfg q)"
proof -
  show "keeps (worker_state cfg content (insert q Q)) (claim_privacy_request cfg q)"
    unfolding keeps_def
    by (rule unignore, rule valid_conseq [OF worker_call [of cfg content "insert q Q" "ClaimRequest q", unfolded run_call.simps]]) auto
  show "keeps (worker_state cfg content (insert q Q)) (retry_privacy_request cfg q code n)"
    unfolding keeps_def
    by (rule unignore, rule valid_conseq [OF worker_call [of cfg content "insert q Q" "RetryRequest q code n", unfolded run_call.simps]]) auto
  show "keeps (worker_state cfg content (insert q Q)) (delete_telemetry_request cfg q)" if "pq_action q = PrivacyDelete"
    unfolding keeps_def
    by (rule unignore, rule valid_conseq [OF worker_call [of cfg content "insert q Q" "DeleteRequest q", unfolded run_call.simps]])
      (use that in auto)
  show "valid (\<lambda>s. worker_state cfg content (insert q Q) s \<and> (pq_action q = PrivacyDelete \<longrightarrow> progress_done cfg q (db s)))
     (complete_privacy_request cfg q) (\<lambda>_. worker_state cfg content Q) (\<lambda>_. worker_state cfg content Q)"
    by (rule unignore, rule valid_conseq [OF worker_call [of cfg content "insert q Q" "CompleteRequest q", unfolded run_call.simps]]) auto
qed

lemma worker_lists:
  "valid (worker_state cfg content {}) (pending_privacy_requests cfg n)
     (\<lambda>qs. worker_state cfg content (set qs)) (\<lambda>_. worker_state cfg content {})"
proof (rule validI)
  fix s :: "'a tables conn"
  assume s: "worker_state cfg content {} s"
  then have safe: "safe cfg content {} (db s)" by (simp add: safe_def reachable_inv)
  have same: "keeps (\<lambda>x. (\<lambda>d. d = db s) (db x)) (pending_privacy_requests cfg n)"
    unfolding pending_privacy_requests_def by (intro triples)
  have "db (snd (pending_privacy_requests cfg n s)) = db s" using keepsD [OF same] by simp
  moreover have "\<forall>q \<in> set qs. known_work cfg q (db s')" if "pending_privacy_requests cfg n s = (Inr qs, s')" for qs s'
    using validD [OF valid_pending safe that] by blast
  ultimately show "case pending_privacy_requests cfg n s of (Inr qs, s') \<Rightarrow> worker_state cfg content (set qs) s'
      | (Inl e, s') \<Rightarrow> worker_state cfg content {} s'"
    using s by (cases "pending_privacy_requests cfg n s") (auto split: sum.splits)
qed

lemma worker_deletes:
  assumes "pq_action q = PrivacyDelete"
  shows "valid (worker_state cfg content (insert q Q)) (delete_telemetry_request cfg q)
    (\<lambda>_ s. worker_state cfg content (insert q Q) s \<and> progress_done cfg q (db s)) (\<lambda>_. worker_state cfg content (insert q Q))"
proof (rule validI)
  fix s :: "'a tables conn"
  assume s: "worker_state cfg content (insert q Q) s"
  then have safe: "safe cfg content (set (suppressions (db s))) (db s)" and q: "known_in cfg q (set (suppressions (db s)))"
    by (simp_all add: safe_def reachable_inv known_in_work)
  from s have "good_driver cfg" by simp
  from validD [OF valid_delete_telemetry [OF this q] safe] keepsD [OF worker_calls(4) [OF assms] s]
  show "case delete_telemetry_request cfg q s of
      (Inr x, s') \<Rightarrow> worker_state cfg content (insert q Q) s' \<and> progress_done cfg q (db s')
    | (Inl e, s') \<Rightarrow> worker_state cfg content (insert q Q) s'"
    by (cases "delete_telemetry_request cfg q s") (auto split: sum.splits)
qed

interpretation store_worker: privacy_repository "store_backend cfg"
  "\<lambda>s. good_driver cfg \<and> reachable cfg content (db s)" "\<lambda>q s. known_work cfg q (db s)"
  "\<lambda>q s. progress_done cfg q (db s)" for cfg content
proof (unfold_locales, goal_cases)
  case (1 n)
  show ?case unfolding store_backend_def privacy_backend.simps
    by (rule valid_conseq [OF worker_lists [of cfg content n]]) auto
next
  case (2 q qs)
  show ?case using worker_calls(1) [of cfg content q "set qs"] by (simp add: store_backend_def conj_assoc)
next
  case (3 q qs code n)
  show ?case using worker_calls(2) [of cfg content q "set qs" code n] by (simp add: store_backend_def conj_assoc)
next
  case (4 q qs)
  show ?case using worker_deletes [OF 4, of cfg content "set qs"] by (simp add: store_backend_def conj_assoc)
next
  case (5 q qs)
  show ?case unfolding store_backend_def privacy_backend.simps
    by (rule valid_conseq [OF worker_calls(3) [of cfg content q "set qs"]]) (auto simp: PrivacyOptOut_def PrivacyDelete_def)
next
  case (6 q a s)
  show ?case by simp
qed

end
