(* ===== verification/Store_Leases.thy ===== *)
theory Store_Leases
  imports Store_Histories
begin

section \<open>Leases, versions and delays of privacy requests\<close>

text \<open>
  privacyStatusVersion is the time of the request plus four milliseconds for each attempt and one to
  three for the phase: a later attempt is later than an earlier one, and within an attempt the
  outcome than the claim. Binding keeps that order but may make two versions one, and FINAL then
  shows the row inserted last. From this: one claim excludes others until its lease ends, the
  outcome of the attempt that holds the lease is seen, and with times bound in whole seconds so is
  the outcome of an attempt whose lease was taken over.
\<close>

lemma query_Inr [result_simps]:
  "query q s = (Inr x, s') \<longleftrightarrow> faults s (calls s) = Served \<and> x = q (db s) \<and> s' = s\<lparr>calls := Suc (calls s)\<rparr>"
  by (auto simp: query_def split: fault.splits)

lemma exec_Inr [result_simps]:
  "exec w s = (Inr x, s') \<longleftrightarrow>
     faults s (calls s) = Served \<and> s' = s\<lparr>calls := Suc (calls s), db := w None (db s)\<rparr>"
  by (auto simp: exec_def split: fault.splits)

lemma time_now_Inr [result_simps]:
  "time_now s = (Inr t, s') \<longleftrightarrow> t = clock s (ticks s) \<and> s' = s\<lparr>ticks := Suc (ticks s)\<rparr>"
  by (auto simp: time_now_def)

subsection \<open>Versions\<close>

lemma status_phase_bounds: "1 \<le> status_phase status \<and> status_phase status \<le> 3"
  by (simp add: status_phase_def)

lemma version_attempts:
  assumes "a < b"
  shows "privacy_status_version q st a < privacy_status_version q st' b"
proof -
  have "uint a + 1 \<le> uint b" using assms by (simp add: word_less_def)
  then have "uint a * 4 + status_phase st < uint b * 4 + status_phase st'"
    using status_phase_bounds [of st] status_phase_bounds [of st'] by simp
  then show ?thesis by (simp add: privacy_status_version_def duration_defs)
qed

lemma word_Suc_less:
  fixes a :: "16 word"
  assumes "a \<noteq> 0xFFFF"
  shows "uint (a + 1) = uint a + 1" "a < a + 1"
proof -
  have "uint a < 65536" using uint_bounded [of a] by simp
  moreover have "uint a \<noteq> 65535" using assms by (simp add: word_uint_eq_iff)
  ultimately show "uint (a + 1) = uint a + 1" by (simp add: uint_word_ariths(1))
  then show "a < a + 1" by (simp add: word_less_def)
qed

lemma row_version_bound:
  assumes "ordered_driver cfg" and "request_ok cfg r" and "scan_request cfg r = Inr (q\<lparr>pq_attempts := sr_attempts r\<rparr>)"
  shows "sr_updated_at r \<le> exec_time cfg (privacy_status_version q ''completed'' (sr_attempts r))"
    and "sr_attempts r \<noteq> 0 \<Longrightarrow> sr_updated_at r = exec_time cfg (privacy_status_version q (sr_status r) (sr_attempts r))"
proof -
  from scan_request_fields(7) [OF assms(3,2)] have i: "pq_ingested_at q = sr_ingested_at r" by simp
  have "0 \<le> (uint (sr_attempts r) * 4 + status_phase ''completed'') * millisecond"
    "(uint (sr_attempts r) * 4 + status_phase (sr_status r)) * millisecond
      \<le> (uint (sr_attempts r) * 4 + status_phase ''completed'') * millisecond"
    using status_phase_bounds [of "sr_status r"] by (simp_all add: status_phase_def duration_defs)
  then have "sr_ingested_at r \<le> privacy_status_version q ''completed'' (sr_attempts r)"
    "sr_ingested_at r + (uint (sr_attempts r) * 4 + status_phase (sr_status r)) * millisecond
      \<le> privacy_status_version q ''completed'' (sr_attempts r)"
    by (simp_all add: privacy_status_version_def i)
  note le = this [THEN ordered_driverD(1) [OF assms(1)]]
  from assms(2) have "sr_ingested_at r = exec_time cfg (sr_ingested_at r)" "sr_updated_at r = row_version cfg r"
    by (simp_all add: request_ok_def stored_time_def)
  with le show "sr_updated_at r \<le> exec_time cfg (privacy_status_version q ''completed'' (sr_attempts r))"
    by (simp add: row_version_def)
  show "sr_updated_at r = exec_time cfg (privacy_status_version q (sr_status r) (sr_attempts r))" if "sr_attempts r \<noteq> 0"
    using assms(2) that by (auto simp: request_ok_def row_version_def privacy_status_version_def i)
qed

text \<open>The newest row of a known request, before and after another is written.\<close>

definition current :: "'u store_config \<Rightarrow> privacy_work \<Rightarrow> 'u tables \<Rightarrow> 'u suppression_row option" where
  "current cfg q d =
     (case uuid_parse (uuids cfg) (pq_request_id q) of
        None \<Rightarrow> None
      | Some rid \<Rightarrow> privacy_request_row (product_id (pq_scope q)) rid d)"

lemma current_attempts [simp]: "current cfg (q\<lparr>pq_attempts := a\<rparr>) d = current cfg q d"
  by (simp add: current_def cong: option.case_cong)

lemma current_known:
  assumes lib: "uuid_round_trip (uuids cfg)" and ok: "requests_ok cfg d" and "known_work cfg q d"
  obtains r where "current cfg q d = Some r" "r \<in> set (suppressions d)" "request_ok cfg r"
    "scan_request cfg r = Inr (q\<lparr>pq_attempts := sr_attempts r\<rparr>)"
    "must_parse cfg (pq_request_id q) = Inr (sr_request_id r)" "legacy_value cfg q = Inr (sr_legacy_installation r)"
    "suppression_key r = (product_id (pq_scope q), sr_request_id r)"
proof (rule known_row [OF assms])
  fix r
  assume r: "r \<in> set (suppressions d)" "request_ok cfg r" "scan_request cfg r = Inr (q\<lparr>pq_attempts := sr_attempts r\<rparr>)"
    "must_parse cfg (pq_request_id q) = Inr (sr_request_id r)" "legacy_value cfg q = Inr (sr_legacy_installation r)"
    "suppression_key r = (product_id (pq_scope q), sr_request_id r)"
    "newest suppression_key sr_updated_at (suppressions d) (suppression_key r) = Some r"
  then have "current cfg q d = Some r"
    by (simp add: current_def must_parse_Inr privacy_request_row_def)
  from that [OF this r(1-6)] show thesis .
qed

lemma current_append:
  assumes "current cfg q d = Some r" and key: "suppression_key x = suppression_key r"
  shows "current cfg q (d\<lparr>suppressions := suppressions d @ [x]\<rparr>) =
    (if sr_updated_at r \<le> sr_updated_at x then Some x else Some r)"
proof -
  from assms(1) obtain rid where rid: "uuid_parse (uuids cfg) (pq_request_id q) = Some rid"
    "newest suppression_key sr_updated_at (suppressions d) (product_id (pq_scope q), rid) = Some r"
    by (auto simp: current_def privacy_request_row_def split: option.splits)
  from newest_Some [OF rid(2)] key have "suppression_key x = (product_id (pq_scope q), rid)" by simp
  then show ?thesis using rid by (simp add: current_def privacy_request_row_def newest_append)
qed

lemma status_written:
  assumes good: "good_driver cfg" and inv: "erasure_inv cfg content (db s)" and known: "known_work cfg q (db s)"
    and r: "current cfg q (db s) = Some r" and st: "status \<noteq> ''pending''"
    and ret: "insert_privacy_status cfg q status failure att available lease s = (Inr u, s')"
  obtains x where "db s' = (db s)\<lparr>suppressions := suppressions (db s) @ [x]\<rparr>" "request_ok cfg x" "sr_status x = status"
    "suppression_key x = suppression_key r" "sr_updated_at x = exec_time cfg (privacy_status_version q status att)"
    "sr_attempts x = att" "sr_lease_until x = map_option (exec_time cfg) lease"
    "scan_request cfg x = Inr (q\<lparr>pq_attempts := att\<rparr>)"
proof -
  from good have lib: "uuid_round_trip (uuids cfg)" by (simp add: good_driver_def)
  from inv have ok: "requests_ok cfg (db s)" by (simp add: erasure_inv_def)
  from current_known [OF lib ok known] r have ra: "r \<in> set (suppressions (db s))" "request_ok cfg r"
    "scan_request cfg r = Inr (q\<lparr>pq_attempts := sr_attempts r\<rparr>)"
    "must_parse cfg (pq_request_id q) = Inr (sr_request_id r)" "legacy_value cfg q = Inr (sr_legacy_installation r)"
    "suppression_key r = (product_id (pq_scope q), sr_request_id r)" by (metis option.inject)+
  let ?x = "status_row cfg q status failure att available lease (sr_request_id r) (sr_legacy_installation r)"
  from ret have "db s' = suppressions_update (\<lambda>t. t @ [?x]) (db s)"
    unfolding insert_privacy_status_def ra(4,5) action_simps by (auto simp: result_simps insert_rows_None [abs_def])
  then have d: "db s' = (db s)\<lparr>suppressions := suppressions (db s) @ [?x]\<rparr>" by (cases "db s") simp
  note f = status_row_facts [OF lib ra(2,3) st]
  show thesis by (rule that [OF d f(1,3,4,5,6,7,2)])
qed

subsection \<open>Claims\<close>

lemma claim_won:
  assumes good: "good_driver cfg" and inv: "erasure_inv cfg content (db s)" and known: "known_work cfg q (db s)"
    and won: "claim_privacy_request cfg q s = (Inr True, s')"
  obtains r x where "current cfg q (db s) = Some r" "claimable (clock s (ticks s)) r"
    "db s' = (db s)\<lparr>suppressions := suppressions (db s) @ [x]\<rparr>" "request_ok cfg x" "sr_status x = ''processing''"
    "sr_attempts x = sr_attempts r + 1" "sr_lease_until x = Some (exec_time cfg (clock s (ticks s) + 5 * minute))"
    "scan_request cfg x = Inr (q\<lparr>pq_attempts := sr_attempts x\<rparr>)"
    "sr_attempts r \<noteq> 0xFFFF \<longrightarrow> current cfg q (db s') = Some x"
proof -
  from good have drv: "ordered_driver cfg" by (simp add: good_driver_def)
  from good have lib: "uuid_round_trip (uuids cfg)" by (simp add: good_driver_def)
  from inv have ok: "requests_ok cfg (db s)" by (simp add: erasure_inv_def)
  from current_known [OF lib ok known] obtain r where r: "current cfg q (db s) = Some r" "request_ok cfg r"
    "scan_request cfg r = Inr (q\<lparr>pq_attempts := sr_attempts r\<rparr>)" "must_parse cfg (pq_request_id q) = Inr (sr_request_id r)" by metis
  from r(1,4) have row: "privacy_request_row (product_id (pq_scope q)) (sr_request_id r) (db s) = Some r"
    by (simp add: current_def must_parse_Inr)
  let ?q = "q\<lparr>pq_attempts := sr_attempts r\<rparr>" and ?t = "clock s (ticks s)"
  let ?s = "s\<lparr>calls := Suc (calls s), ticks := Suc (ticks s)\<rparr>"
  have "claimable ?t r \<and> insert_privacy_status cfg ?q ''processing'' None (sr_attempts r + 1) ?t (Some (?t + 5 * minute)) ?s
      = (Inr (), s')"
    using won row unfolding claim_privacy_request_def r(4) action_simps
    by (auto simp: result_simps split: if_splits)
  then have c: "claimable ?t r" "db ?s = db s"
    "insert_privacy_status cfg ?q ''processing'' None (sr_attempts r + 1) ?t (Some (?t + 5 * minute)) ?s = (Inr (), s')"
    by simp_all
  have cur: "current cfg ?q (db ?s) = Some r" using r(1) by simp
  have "erasure_inv cfg content (db ?s)" "known_work cfg ?q (db ?s)" using inv known by simp_all
  from status_written [OF good this cur _ c(3)] obtain x where x: "db s' = (db s)\<lparr>suppressions := suppressions (db s) @ [x]\<rparr>"
    "request_ok cfg x" "sr_status x = ''processing''" "suppression_key x = suppression_key r"
    "sr_updated_at x = exec_time cfg (privacy_status_version ?q ''processing'' (sr_attempts r + 1))" "sr_attempts x = sr_attempts r + 1"
    "sr_lease_until x = Some (exec_time cfg (?t + 5 * minute))" "scan_request cfg x = Inr (?q\<lparr>pq_attempts := sr_attempts r + 1\<rparr>)"
    unfolding c(2) by auto
  show thesis
  proof (rule that [OF r(1) c(1) x(1-3,6,7)])
    show "scan_request cfg x = Inr (q\<lparr>pq_attempts := sr_attempts x\<rparr>)" using x(6,8) by simp
    show "sr_attempts r \<noteq> 0xFFFF \<longrightarrow> current cfg q (db s') = Some x"
    proof
      assume a: "sr_attempts r \<noteq> 0xFFFF"
      have "sr_updated_at r \<le> exec_time cfg (privacy_status_version q ''completed'' (sr_attempts r))"
        by (rule row_version_bound(1) [OF drv r(2,3)])
      also have "\<dots> \<le> exec_time cfg (privacy_status_version q ''processing'' (sr_attempts r + 1))"
        by (rule ordered_driverD(1) [OF drv less_imp_le [OF version_attempts [OF word_Suc_less(2) [OF a]]]])
      also have "\<dots> = sr_updated_at x" using x(5) by (simp add: privacy_status_version_def)
      finally have "sr_updated_at r \<le> sr_updated_at x" .
      with current_append [OF r(1) x(4)] x(1) show "current cfg q (db s') = Some x" by simp
    qed
  qed
qed

lemma claim_loses:
  assumes good: "good_driver cfg" and inv: "erasure_inv cfg content (db s)" and known: "known_work cfg q (db s)"
    and r: "current cfg q (db s) = Some r" and n: "\<not> claimable (clock s (ticks s)) r"
  shows "fst (claim_privacy_request cfg q s) \<noteq> Inr True" "db (snd (claim_privacy_request cfg q s)) = db s"
proof -
  from good have lib: "uuid_round_trip (uuids cfg)" by (simp add: good_driver_def)
  from inv have ok: "requests_ok cfg (db s)" by (simp add: erasure_inv_def)
  from current_known [OF lib ok known] r have rid: "must_parse cfg (pq_request_id q) = Inr (sr_request_id r)"
    by (metis option.inject)
  with r have row: "privacy_request_row (product_id (pq_scope q)) (sr_request_id r) (db s) = Some r"
    by (simp add: current_def must_parse_Inr)
  show "fst (claim_privacy_request cfg q s) \<noteq> Inr True" "db (snd (claim_privacy_request cfg q s)) = db s"
    unfolding claim_privacy_request_def rid action_simps
    using n row by (auto simp: seq_def wrapping_def wrap_def query_def time_now_def lift_def split: fault.splits)
qed

lemma claim_excludes:
  assumes good: "good_driver cfg" and inv: "erasure_inv cfg content (db s)" and known: "known_work cfg q (db s)"
    and won: "claim_privacy_request cfg q s = (Inr True, s')"
    and attempts: "\<And>r. current cfg q (db s) = Some r \<Longrightarrow> sr_attempts r \<noteq> 0xFFFF"
    and s2: "db s2 = db s'" and inv': "erasure_inv cfg content (db s')"
    and time: "clock s2 (ticks s2) \<le> exec_time cfg (clock s (ticks s) + 5 * minute)"
  shows "fst (claim_privacy_request cfg q s2) \<noteq> Inr True \<and> db (snd (claim_privacy_request cfg q s2)) = db s2"
proof -
  obtain r x where x: "current cfg q (db s) = Some r" "claimable (clock s (ticks s)) r"
    "db s' = (db s)\<lparr>suppressions := suppressions (db s) @ [x]\<rparr>" "request_ok cfg x" "sr_status x = ''processing''"
    "sr_attempts x = sr_attempts r + 1" "sr_lease_until x = Some (exec_time cfg (clock s (ticks s) + 5 * minute))"
    "scan_request cfg x = Inr (q\<lparr>pq_attempts := sr_attempts x\<rparr>)"
    "sr_attempts r \<noteq> 0xFFFF \<longrightarrow> current cfg q (db s') = Some x"
    by (rule claim_won [OF good inv known won])
  note r = x(1,3,5,7,9)
  from r(5) attempts [OF r(1)] have cur: "current cfg q (db s2) = Some x" by (simp add: s2)
  have "known_work cfg q (db s2)" by (rule known_work_mono [OF known]) (auto simp: s2 r(2))
  moreover have "\<not> claimable (clock s2 (ticks s2)) x" using time r(3,4) by (simp add: claimable_def)
  ultimately show ?thesis using claim_loses [OF good _ _ cur] inv' s2 by simp
qed

subsection \<open>Outcomes\<close>

text \<open>The calls by which a worker ends its attempt, and the status that each writes.\<close>

definition outcome_of :: "'u store_config \<Rightarrow> privacy_work \<Rightarrow> ('u, unit) store_action \<Rightarrow> string \<Rightarrow> bool" where
  "outcome_of cfg q m st \<longleftrightarrow>
     m = complete_privacy_request cfg q \<and> st = ''completed''
     \<or> (\<exists>code n. m = retry_privacy_request cfg q code n \<and> st = (if n \<le> uint (pq_attempts q) then ''failed'' else ''retry''))"

lemma outcome_status: "outcome_of cfg q m st \<Longrightarrow> st \<in> {''completed'', ''retry'', ''failed''}"
  by (auto simp: outcome_of_def)

lemma outcome_written:
  assumes good: "good_driver cfg" and inv: "erasure_inv cfg content (db s)" and known: "known_work cfg q (db s)"
    and r: "current cfg q (db s) = Some r" and o: "outcome_of cfg q m st" and ret: "m s = (Inr u, s')"
  obtains x where "db s' = (db s)\<lparr>suppressions := suppressions (db s) @ [x]\<rparr>" "suppression_key x = suppression_key r"
    "sr_updated_at x = exec_time cfg (privacy_status_version q st (pq_attempts q))" "sr_attempts x = pq_attempts q"
    "sr_status x = st"
proof -
  from o ret obtain f av s1 where m: "db s1 = db s" "insert_privacy_status cfg q st f (pq_attempts q) av None s1 = (Inr u, s')"
    unfolding outcome_of_def
  proof (elim disjE conjE exE)
    assume "m = complete_privacy_request cfg q" "st = ''completed''"
    with ret show ?thesis
      by (intro that [of "s\<lparr>ticks := Suc (ticks s)\<rparr>" None "clock s (ticks s)"])
        (auto simp: complete_privacy_request_def result_simps)
  next
    fix code n
    assume "m = retry_privacy_request cfg q code n" "st = (if n \<le> uint (pq_attempts q) then ''failed'' else ''retry'')"
    with ret show ?thesis
      by (intro that [of "s\<lparr>ticks := Suc (ticks s)\<rparr>" "Some code" "clock s (ticks s) + privacy_retry_delay (pq_attempts q)"])
        (auto simp: retry_privacy_request_def Let_def result_simps)
  qed
  from inv known r m(1) have "erasure_inv cfg content (db s1)" "known_work cfg q (db s1)" "current cfg q (db s1) = Some r"
    by simp_all
  moreover from outcome_status [OF o] have "st \<noteq> ''pending''" by auto
  ultimately show thesis using status_written [OF good _ _ _ _ m(2)] that m(1) by metis
qed

text \<open>
  Versions within one second are bound to the same time: for a request of a whole second, those of
  its first 249 attempts. An outcome then replaces any row of these attempts.
\<close>

lemma bound_version:
  assumes "second_driver cfg" and "stored_time cfg t" and "0 \<le> n" "n < 1000"
  shows "exec_time cfg (t + n * millisecond) = t"
proof -
  from assms(1,2) have "truncate_to t second = t" by (simp add: second_driver_def stored_time_def)
  then have t: "t mod second = 0" by (simp add: truncate_to_def)
  have "n * millisecond < second" "0 \<le> n * millisecond" using assms(3,4) by (simp_all add: duration_defs)
  then have "(t + n * millisecond) mod second = n * millisecond"
    using t by (simp add: mod_add_left_eq [symmetric])
  with assms(1) show ?thesis by (simp add: second_driver_def truncate_to_def)
qed

lemma few_attempts: "(a :: 16 word) < 250 \<Longrightarrow> uint a < 250"
  by (simp add: word_less_def)

lemma bound_versions:
  assumes "second_driver cfg" and "stored_time cfg (pq_ingested_at q)" and "a < 250"
  shows "exec_time cfg (privacy_status_version q st a) = pq_ingested_at q"
  unfolding privacy_status_version_def
  using few_attempts [OF assms(3)] status_phase_bounds [of st] by (intro bound_version [OF assms(1,2)]) simp_all

lemma outcome_replaces:
  assumes drv: "second_driver cfg" and good: "good_driver cfg" and inv: "erasure_inv cfg content (db s)" and known: "known_work cfg q (db s)"
    and r: "current cfg q (db s) = Some r" and few: "sr_attempts r < 250" "pq_attempts q < 250"
    and o: "outcome_of cfg q m st" and ret: "m s = (Inr u, s')"
  shows "\<exists>x. current cfg q (db s') = Some x \<and> sr_attempts x = pq_attempts q \<and> sr_status x = st"
proof -
  from good have lib: "uuid_round_trip (uuids cfg)" and ord: "ordered_driver cfg" by (simp_all add: good_driver_def)
  from inv have "requests_ok cfg (db s)" by (simp add: erasure_inv_def)
  from current_known [OF lib this known] r have ok: "request_ok cfg r"
    "scan_request cfg r = Inr (q\<lparr>pq_attempts := sr_attempts r\<rparr>)" by (metis option.inject)+
  from scan_request_fields(7) [OF ok(2,1)] ok(1) have i: "stored_time cfg (pq_ingested_at q)"
    by (simp add: request_ok_def)
  from outcome_written [OF good inv known r o ret] obtain x where x: "db s' = (db s)\<lparr>suppressions := suppressions (db s) @ [x]\<rparr>"
    "suppression_key x = suppression_key r" "sr_updated_at x = exec_time cfg (privacy_status_version q st (pq_attempts q))"
    "sr_attempts x = pq_attempts q" "sr_status x = st" by metis
  from row_version_bound(1) [OF ord ok] have "sr_updated_at r \<le> sr_updated_at x"
    unfolding x(3) bound_versions [OF drv i few(1)] bound_versions [OF drv i few(2)] .
  with current_append [OF r x(2)] x(1,4,5) show ?thesis by simp
qed

text \<open>The outcome of the attempt that holds the lease is seen.\<close>

lemma own_outcome:
  assumes good: "good_driver cfg" and inv: "erasure_inv cfg content (db s)" and known: "known_work cfg q (db s)"
    and r: "current cfg q (db s) = Some r" "sr_status r = ''processing''" "sr_attempts r = pq_attempts q" "pq_attempts q \<noteq> 0"
    and o: "outcome_of cfg q m st" and ret: "m s = (Inr u, s')"
  shows "\<exists>x. current cfg q (db s') = Some x \<and> sr_attempts x = pq_attempts q \<and> sr_status x = st"
proof -
  from good have lib: "uuid_round_trip (uuids cfg)" and drv: "ordered_driver cfg" by (simp_all add: good_driver_def)
  from inv have "requests_ok cfg (db s)" by (simp add: erasure_inv_def)
  from current_known [OF lib this known] r(1) have ok: "request_ok cfg r"
    "scan_request cfg r = Inr (q\<lparr>pq_attempts := sr_attempts r\<rparr>)" by (metis option.inject)+
  from outcome_written [OF good inv known r(1) o ret] obtain x where x: "db s' = (db s)\<lparr>suppressions := suppressions (db s) @ [x]\<rparr>"
    "suppression_key x = suppression_key r" "sr_updated_at x = exec_time cfg (privacy_status_version q st (pq_attempts q))"
    "sr_attempts x = pq_attempts q" "sr_status x = st" by metis
  from r(3,4) have "sr_attempts r \<noteq> 0" by simp
  have "privacy_status_version q ''processing'' (pq_attempts q) \<le> privacy_status_version q st (pq_attempts q)"
    using outcome_status [OF o] by (auto simp: privacy_status_version_def status_phase_def duration_defs)
  with row_version_bound(2) [OF drv ok \<open>sr_attempts r \<noteq> 0\<close>] have "sr_updated_at r \<le> sr_updated_at x"
    unfolding x(3) r(2,3) using ordered_driverD(1) [OF drv] by simp
  with current_append [OF r(1) x(2)] x(1,4,5) show ?thesis by simp
qed

subsection \<open>Delays\<close>

lemma retry_delay:
  "privacy_retry_delay a = 2 ^ (min (max (unat a) 1) 8 - 1) * second"
proof (cases "8 < a")
  case True
  then have "\<not> a < 1" "8 < unat a" by (simp_all add: word_less_nat_alt)
  with True show ?thesis by (simp add: privacy_retry_delay_def Let_def)
next
  case False
  then have "unat a \<le> 8" by (simp add: word_less_nat_alt)
  then have "unat a \<in> {0, 1, 2, 3, 4, 5, 6, 7, 8}" by auto
  moreover have "a = of_nat (unat a)" by simp
  ultimately have "a \<in> {0, 1, 2, 3, 4, 5, 6, 7, 8}" by (elim insertE emptyE) (simp_all only: of_nat_0 of_nat_1 of_nat_numeral, simp_all)
  then show ?thesis by (elim insertE emptyE) (simp_all add: privacy_retry_delay_def Let_def)
qed

end
