(* ===== verification/Store_Liveness.thy ===== *)
theory Store_Liveness
  imports Store_Leases
begin

section \<open>What the store does when no call breaks\<close>

text \<open>
  \<open>runs P m Q\<close>: from a state with P in which no further call breaks, m returns, with Q. The
  statements of this theory are the counterpart of those about broken calls: a batch that was left
  half stored by any number of failed attempts is stored by the next undisturbed one, and a worker
  that is left alone finishes every request that was due.
\<close>

definition undisturbed :: "'d conn \<Rightarrow> bool" where
  "undisturbed s \<longleftrightarrow> (\<forall>n \<ge> calls s. faults s n = Served)"

definition later :: "'d conn \<Rightarrow> 'd conn \<Rightarrow> bool" where
  "later s s' \<longleftrightarrow> clock s' = clock s \<and> ticks s \<le> ticks s' \<and> faults s' = faults s \<and> calls s \<le> calls s'"

definition runs :: "('d conn \<Rightarrow> bool) \<Rightarrow> ('d conn, 'a) action \<Rightarrow> ('a \<Rightarrow> 'd conn \<Rightarrow> bool) \<Rightarrow> bool" where
  "runs P m Q \<longleftrightarrow> (\<forall>s. P s \<longrightarrow> undisturbed s \<longrightarrow> (\<exists>x s'. m s = (Inr x, s') \<and> Q x s' \<and> later s s'))"

named_theorems run_rules

lemma later_refl [simp]: "later s s"
  by (simp add: later_def)

lemma later_trans: "later s s' \<Longrightarrow> later s' s'' \<Longrightarrow> later s s''"
  by (auto simp: later_def)

lemma later_undisturbed: "later s s' \<Longrightarrow> undisturbed s \<Longrightarrow> undisturbed s'"
  by (auto simp: later_def undisturbed_def)

lemma runsI: "(\<And>s. P s \<Longrightarrow> undisturbed s \<Longrightarrow> \<exists>x s'. m s = (Inr x, s') \<and> Q x s' \<and> later s s') \<Longrightarrow> runs P m Q"
  by (simp add: runs_def)

lemma runsE:
  assumes "runs P m Q" and "P s" and "undisturbed s"
  obtains x s' where "m s = (Inr x, s')" "Q x s'" "later s s'"
  using assms by (auto simp: runs_def)

lemma runs_pre: "runs P m Q \<Longrightarrow> (\<And>s. P' s \<Longrightarrow> P s) \<Longrightarrow> runs P' m Q"
  by (simp add: runs_def)

lemma runs_post: "runs P m Q \<Longrightarrow> (\<And>x s. Q x s \<Longrightarrow> Q' x s) \<Longrightarrow> runs P m Q'"
  unfolding runs_def by blast

lemma runs_ret [run_rules]: "runs (Q x) (ret x) Q"
  by (simp add: runs_def)

lemma runs_seq [run_rules]:
  assumes "\<And>x. runs (R x) (k x) Q" and "runs P m R"
  shows "runs P (seq m k) Q"
proof (rule runsI)
  fix s assume s: "P s" "undisturbed s"
  obtain x t where x: "m s = (Inr x, t)" "R x t" "later s t" by (rule runsE [OF assms(2) s])
  obtain y u where y: "k x t = (Inr y, u)" "Q y u" "later t u"
    by (rule runsE [OF assms(1) x(2) later_undisturbed [OF x(3) s(2)]])
  from x y later_trans show "\<exists>y u. seq m k s = (Inr y, u) \<and> Q y u \<and> later s u" by (auto simp: seq_def)
qed

lemma runs_wrapping [run_rules]: "runs P m Q \<Longrightarrow> runs P (wrapping msg m) Q"
  unfolding runs_def by (fastforce simp: wrapping_def wrap_def)

lemma runs_query [run_rules]: "runs (\<lambda>s. Q (q (db s)) (s\<lparr>calls := Suc (calls s)\<rparr>)) (query q) Q"
  by (auto simp: runs_def query_def undisturbed_def later_def)

lemma runs_exec [run_rules]: "runs (\<lambda>s. Q () (s\<lparr>calls := Suc (calls s), db := w None (db s)\<rparr>)) (exec w) Q"
  by (auto simp: runs_def exec_def undisturbed_def later_def)

lemma runs_time_now [run_rules]: "runs (\<lambda>s. Q (clock s (ticks s)) (s\<lparr>ticks := Suc (ticks s)\<rparr>)) time_now Q"
  by (auto simp: runs_def time_now_def later_def)

lemma runs_lift [run_rules]: "r = Inr x \<Longrightarrow> runs (Q x) (lift r) Q"
  by (simp add: runs_def)

lemma runs_seq_lift: "r = Inr x \<Longrightarrow> runs P (k x) Q \<Longrightarrow> runs P (seq (lift r) k) Q"
  by simp

lemma runs_attempting [run_rules]: "runs P m (\<lambda>x. Q (Inr x)) \<Longrightarrow> runs P (attempting m) Q"
  unfolding runs_def by (fastforce simp: attempting_def)

lemma runs_prepare_and_send:
  assumes "rows = Inr rs"
  shows "runs (\<lambda>s. Q (upd (\<lambda>t. t @ rs) (db s))) (prepare_and_send pm sm rows upd) (\<lambda>_ s. Q (db s))"
  unfolding prepare_and_send_def assms action_simps
  by (rule runs_seq [where R = "\<lambda>_ s. Q (upd (\<lambda>t. t @ rs) (db s))"])
    (auto intro!: runs_wrapping runs_pre [OF runs_exec] runs_pre [OF runs_query] simp: insert_rows_None [abs_def])

subsection \<open>A batch\<close>

lemma runs_insert_stream:
  assumes "one_stream b" and w: "batch_write cfg b sha t = Inr w"
  shows "runs (\<lambda>_. True) (insert_stream_v2 cfg b t) (\<lambda>_ _. True)"
proof -
  have rows: "\<exists>r. traverse (common_row_of cfg b t) (common_records b) = Inr r"
    "\<exists>r. traverse (technical_row_of cfg b t) (technical_records b) = Inr r"
    "\<exists>r. traverse (plays_row_of cfg b t) (plays_records b) = Inr r"
    "\<exists>r. traverse (product_row_of cfg b t) (product_records b) = Inr r"
    "\<exists>r. traverse (outcome_row_of cfg b t) (outcome_records b) = Inr r"
    using w by (auto simp: batch_write_def andthen_Inr)
  have send: "runs (\<lambda>_. True) (prepare_and_send pm sm rows upd) (\<lambda>_ _. True)" if "\<exists>r. rows = Inr r"
    for pm sm and rows :: "'r list result" and upd :: "('r list \<Rightarrow> 'r list) \<Rightarrow> 'a tables \<Rightarrow> 'a tables"
    using that by (elim exE) (rule runs_prepare_and_send [where Q = "\<lambda>_. True"])
  from assms(1) show ?thesis
    unfolding insert_stream_v2_def one_stream_def Let_def
    by (auto simp: StreamCommon_def StreamTechnical_def StreamPlays_def StreamProduct_def StreamOutcome_def
        insert_common_v2_def insert_technical_v2_def insert_plays_v2_def insert_product_v2_def insert_outcome_v2_def
        intro!: send rows)
qed

lemma runs_complete:
  assumes "one_stream b" and w: "batch_write cfg b sha t = Inr w" and u: "must_parse cfg (batch_id (header b)) = Inr u"
  shows "runs (\<lambda>s. own_ids cfg b u sha (db s)) (complete_batch_v2 cfg b sha t) (\<lambda>_ _. True)"
proof -
  from w u obtain ids where ids: "traverse (must_parse cfg) (record_ids b) = Inr ids"
    by (auto simp: batch_write_def andthen_Inr)
  let ?p = "product_id (header_scope (header b))"
  have ledger: "runs (\<lambda>_. True) (insert_batch_ledger_v2 cfg b sha t2 st) (\<lambda>_ _. True)" for t2 st
    unfolding insert_batch_ledger_v2_def u action_simps by (intro runs_wrapping runs_pre [OF runs_exec]) simp
  have register: "runs (\<lambda>s. own_ids cfg b u sha (db s)) (register_records_v2 cfg b sha t) (\<lambda>_ _. True)"
    unfolding register_records_v2_def ids u action_simps
  proof (rule runs_seq [where R = "\<lambda>rows _. \<not> list_ex (\<lambda>(x, y). x \<noteq> u \<or> y \<noteq> sha) rows"])
    show "runs (\<lambda>s. own_ids cfg b u sha (db s)) (wrapping ''query v2 record registry'' (query (registered_rows ?p ids)))
        (\<lambda>rows _. \<not> list_ex (\<lambda>(x, y). x \<noteq> u \<or> y \<noteq> sha) rows)"
      by (intro runs_wrapping runs_pre [OF runs_query]) (simp only: free_ids_registered not_not, auto simp: own_ids_def ids)
    fix rows
    have "runs (\<lambda>_. True) (prepare_and_send ''prepare v2 record registry'' ''send v2 record registry''
        (Inr (map (registry_row_of b sha (column_time cfg t) u) ids)) record_registry_update) (\<lambda>_ _. True)"
      by (rule runs_prepare_and_send [OF refl, where Q = "\<lambda>_. True"])
    then show "runs (\<lambda>_. \<not> list_ex (\<lambda>(x, y). x \<noteq> u \<or> y \<noteq> sha) rows)
        (seq (fail_if (list_ex (\<lambda>(x, y). x \<noteq> u \<or> y \<noteq> sha) rows) ErrDuplicateRecord) (\<lambda>_.
          prepare_and_send ''prepare v2 record registry'' ''send v2 record registry''
            (Inr (map (registry_row_of b sha (column_time cfg t) u) ids)) record_registry_update)) (\<lambda>_ _. True)"
      by (cases "list_ex (\<lambda>(x, y). x \<noteq> u \<or> y \<noteq> sha) rows") (auto simp: runs_def)
  qed
  have close: "runs (\<lambda>_. True) (seq time_now (\<lambda>x. seq (insert_batch_ledger_v2 cfg b sha (f x) st) (\<lambda>_. ret r))) (\<lambda>_ _. True)"
    for f st r
  proof (rule runs_seq [where R = "\<lambda>_ _. True"])
    show "runs (\<lambda>_. True) (seq (insert_batch_ledger_v2 cfg b sha (f x) st) (\<lambda>_. ret r)) (\<lambda>_ _. True)" for x
      by (rule runs_seq [where R = "\<lambda>_ _. True", OF _ ledger]) (simp add: runs_def)
  qed (rule runs_pre [OF runs_time_now], simp)
  show ?thesis
    unfolding complete_batch_v2_def Let_def
    by (rule runs_seq [OF runs_seq [OF close runs_insert_stream [OF assms(1,2)]] register])
qed

lemma write_registry:
  assumes "batch_write cfg b sha t = Inr w" and "must_parse cfg (batch_id (header b)) = Inr u"
    and "g \<in> set (record_registry w)"
  shows "rr_batch_id g = u \<and> rr_body_sha g = sha"
proof -
  from assms(1,2) obtain ids where "record_registry w = map (registry_row_of b sha (column_time cfg t) u) ids"
    by (auto simp: batch_write_def andthen_Inr no_rows_def)
  with assms(3) show ?thesis
    by (auto simp: registry_row_of_def scope_columns.defs registry_row.defs batch_columns_def Let_def)
qed

lemma attempts_keep_free:
  assumes "attempted cfg b sha u t w x f v" and u: "must_parse cfg (batch_id (header b)) = Inr u"
    and "own_ids cfg b u sha d"
  shows "own_ids cfg b u sha (appended d v)"
proof -
  from assms(1) have w: "batch_write cfg b sha t = Inr w" "batch_write cfg b sha (exec_time cfg t) = Inr x"
    and "set (record_registry v) \<subseteq> set (record_registry w) \<union> set (record_registry x)"
    by (simp_all add: attempted_def writes_at_def within_def appended_def)
  with write_registry [OF w(1) u] write_registry [OF w(2) u]
  have "\<forall>g \<in> set (record_registry v). rr_batch_id g = u \<and> rr_body_sha g = sha" by blast
  with assms(3) show ?thesis by (auto simp: own_ids_def free_ids_def appended_def)
qed

lemma suppressed_appended: "telemetry_only v \<Longrightarrow> suppressed_v2 sc k (appended d v) = suppressed_v2 sc k d"
  by (simp add: suppressed_v2_def appended_def telemetry_only_def)

lemma undisturbed_write:
  assumes "ordered_driver cfg" and one: "one_stream b" and w: "\<And>t. \<exists>w. batch_write cfg b sha t = Inr w"
    and u: "must_parse cfg (batch_id (header b)) = Inr u" and fresh: "unreserved b u (db s)"
    and own: "own_ids cfg b u sha (db s)" and un: "\<not> suppressed_v2 (header_scope (header b)) (product_key b) (db s)"
    and go: "undisturbed (after_attempts cfg b sha n s)"
  shows "\<exists>r s'. insert_v2 cfg b sha (after_attempts cfg b sha n s) = (Inr r, s') \<and> later (after_attempts cfg b sha n s) s'"
proof -
  let ?d = "db (after_attempts cfg b sha n s)"
  note attempt = insert_v2_attempt [OF assms(1) u one w fresh]
  have step: "keeps (\<lambda>x. tried cfg b sha u (db s) (db x)) (insert_v2 cfg b sha)"
    unfolding keeps_def by (rule valid_post [OF attempt]) (auto dest: stored_tried)
  have tried: "tried cfg b sha u (db s) ?d"
    by (induction n) (auto simp: after_attempts_def tried_def [of _ _ _ _ "db s" "db s"] dest: keepsD [OF step])
  let ?k = "product_id (header_scope (header b))"
  have read: "runs (\<lambda>x. db x = ?d) (batch_ledger_v2 cfg ?k (batch_id (header b))) (\<lambda>x s. x = read_ledger b u ?d \<and> db s = ?d)"
    unfolding batch_ledger_v2_def u action_simps
    by (intro runs_wrapping runs_pre [OF runs_query]) (simp add: read_ledger_def)
  have sup: "runs (\<lambda>x. db x = ?d) (is_suppressed (header_scope (header b)) (product_key b)) (\<lambda>x s. \<not> x \<and> db s = ?d)"
    if "\<not> suppressed_v2 (header_scope (header b)) (product_key b) ?d"
    unfolding is_suppressed_def by (intro runs_wrapping runs_pre [OF runs_query]) (simp add: that)
  have gone: "runs (\<lambda>x. db x = ?d) (seq (is_suppressed (header_scope (header b)) (product_key b))
      (\<lambda>x. if x then fail ErrSuppressed else m)) (\<lambda>_ _. True)"
    if "\<not> suppressed_v2 (header_scope (header b)) (product_key b) ?d" "runs (\<lambda>x. db x = ?d) m (\<lambda>_ _. True)"
    for m :: "('a, ingest_result) store_action"
    by (rule runs_seq [OF _ sup [OF that(1)]]) (use that(2) in \<open>auto simp: runs_def\<close>)
  have complete: "runs (\<lambda>x. own_ids cfg b u sha (db x)) (complete_batch_v2 cfg b sha t) (\<lambda>_ _. True)" for t
  proof -
    obtain w where "batch_write cfg b sha t = Inr w" using w by blast
    from runs_complete [OF one this u] show ?thesis .
  qed
  have "runs (\<lambda>x. db x = ?d) (insert_v2 cfg b sha) (\<lambda>_ _. True)"
    unfolding insert_v2_def Let_def
  proof (rule runs_seq [OF _ read], goal_cases)
    case (1 x)
    show ?case
      using assms(1) fresh tried
    proof (cases rule: read_cases)
      case fresh
      have "runs (\<lambda>x. db x = ?d) (seq time_now (\<lambda>t. seq (insert_batch_ledger_v2 cfg b sha (f t) st)
          (\<lambda>_. complete_batch_v2 cfg b sha (f t)))) (\<lambda>_ _. True)" for f st
      proof (rule runs_seq [OF runs_seq [OF complete]])
        show "runs (\<lambda>x. db x = ?d) (insert_batch_ledger_v2 cfg b sha (f t) st) (\<lambda>_ x. own_ids cfg b u sha (db x))" for t
          unfolding insert_batch_ledger_v2_def u action_simps
          by (intro runs_wrapping runs_pre [OF runs_exec]) (use own fresh in \<open>simp add: own_ids_def free_ids_def\<close>)
        show "runs (\<lambda>x. db x = ?d) time_now (\<lambda>_ x. db x = ?d)" by (rule runs_pre [OF runs_time_now]) simp
      qed
      from gone [OF _ this] un fresh show ?thesis
        by (cases "x = None") (auto intro: runs_pre simp: runs_def [of "\<lambda>_. False"])
    next
      case (reserved t w y v)
      have "own_ids cfg b u sha ?d" unfolding reserved(1) by (rule attempts_keep_free [OF reserved(2) u own])
      then have "runs (\<lambda>x. db x = ?d) (complete_batch_v2 cfg b sha (exec_time cfg t)) (\<lambda>_ _. True)" by (intro runs_pre [OF complete]) simp
      moreover have "\<not> suppressed_v2 (header_scope (header b)) (product_key b) ?d"
        using un reserved(2) unfolding reserved(1) by (simp add: suppressed_appended attempted_def)
      ultimately show ?thesis using reserved(3) runs_pre [OF gone]
        by (cases "x = Some (sha, ''reserved'', exec_time cfg t)") (auto simp: runs_def [of "\<lambda>_. False"])
    next
      case (completed t)
      then show ?thesis by (cases "x = Some (sha, ''completed'', t)") (auto simp: runs_def)
    qed
  qed
  from runsE [OF this refl go] show ?thesis by metis
qed

lemma undisturbed_attempt:
  assumes "ordered_driver cfg" and "valid_batch (uuids cfg) now b"
    and "must_parse cfg (batch_id (header b)) = Inr u" and "unreserved b u (db s)"
    and "own_ids cfg b u sha (db s)" and "\<not> suppressed_v2 (header_scope (header b)) (product_key b) (db s)"
    and "undisturbed (after_attempts cfg b sha n s)"
  shows "\<exists>r s'. insert_v2 cfg b sha (after_attempts cfg b sha n s) = (Inr r, s') \<and> later (after_attempts cfg b sha n s) s'"
  using undisturbed_write [OF assms(1) valid_batch_facts(1,5) [OF assms(2)] assms(3-7)] by blast

subsection \<open>A request\<close>

lemma runs_insert_status:
  assumes "must_parse cfg (pq_request_id q) = Inr rid" and "legacy_value cfg q = Inr legacy"
  shows "runs (\<lambda>_. True) (insert_privacy_status cfg q status failure att available lease) (\<lambda>_ _. True)"
  unfolding insert_privacy_status_def assms action_simps by (intro runs_wrapping runs_pre [OF runs_exec]) simp

lemma runs_insert_progress:
  assumes "must_parse cfg (pq_request_id q) = Inr rid"
  shows "runs (\<lambda>s. suppressions (db s) = ss) (insert_deletion_progress cfg q tab status att available lease err completed)
    (\<lambda>_ s. suppressions (db s) = ss)"
  unfolding insert_deletion_progress_def assms action_simps by (intro runs_wrapping runs_pre [OF runs_exec]) simp

lemma runs_delete_table:
  assumes rid: "must_parse cfg (pq_request_id q) = Inr rid" and legacy: "legacy_value cfg q = Inr legacy"
  shows "runs (\<lambda>s. suppressions (db s) = ss) (delete_telemetry_table cfg q tab) (\<lambda>_ s. suppressions (db s) = ss)"
    (is "runs ?P _ _")
proof -
  note progress = runs_insert_progress [OF rid, of ss]
  have del: "runs ?P (delete_rows_of cfg q tab) (\<lambda>_. ?P)"
  proof (cases "pq_legacy q")
    case None
    then show ?thesis unfolding delete_rows_of_def by (auto intro: runs_pre [OF runs_exec])
  next
    case (Some i)
    with legacy obtain u where "must_parse cfg i = Inr u" by (auto simp: legacy_value_def must_parse_Inr result_simps)
    with Some show ?thesis unfolding delete_rows_of_def
      by (auto intro: runs_pre [OF runs_exec] simp: delete_installation_def)
  qed
  have read: "runs ?P (deletion_progress_of cfg q tab) (\<lambda>_. ?P)"
    unfolding deletion_progress_of_def rid action_simps by (intro runs_wrapping runs_pre [OF runs_query]) simp
  have time: "runs ?P time_now (\<lambda>_. ?P)" by (rule runs_pre [OF runs_time_now]) simp
  have tried: "runs ?P (attempting (delete_rows_of cfg q tab)) (\<lambda>r s. ?P s \<and> (\<exists>u. r = Inr u))"
    by (rule runs_attempting, rule runs_post [OF del]) auto
  have after: "runs (\<lambda>s. ?P s \<and> (\<exists>u. r = Inr u)) (case r of Inl e \<Rightarrow> m e | Inr (_ :: unit) \<Rightarrow>
      insert_deletion_progress cfg q tab ''completed'' att t None None (Some t)) (\<lambda>_. ?P)" for r m att t
    using progress by (cases r) (auto simp: runs_def)
  show ?thesis
    unfolding delete_telemetry_table_def
  proof (rule runs_seq [OF runs_seq [OF _ read] time], goal_cases)
    case (1 t x)
    obtain st att where x: "x = (st, att)" by (cases x)
    show ?case
      unfolding x prod.case
      by (cases "st = ''completed''") (use runs_seq [OF runs_seq [OF after tried] progress] in \<open>auto simp: runs_def\<close>)
  qed
qed

lemma runs_delete:
  assumes "must_parse cfg (pq_request_id q) = Inr rid" and "legacy_value cfg q = Inr legacy"
  shows "runs (\<lambda>s. suppressions (db s) = ss) (delete_telemetry_request cfg q) (\<lambda>_ s. suppressions (db s) = ss)"
proof -
  have "runs (\<lambda>s. suppressions (db s) = ss) (each (delete_telemetry_table cfg q) ts) (\<lambda>_ s. suppressions (db s) = ss)" for ts
  proof (induction ts)
    case Nil
    show ?case by (simp add: runs_def)
  next
    case (Cons t ts)
    from runs_seq [OF Cons.IH runs_delete_table [OF assms]] show ?case by simp
  qed
  then show ?thesis unfolding delete_telemetry_request_def .
qed

definition ready_from :: "time \<Rightarrow> 'd conn \<Rightarrow> bool" where
  "ready_from t s \<longleftrightarrow> (\<forall>i \<ge> ticks s. t \<le> clock s i)"

lemma ready_later: "ready_from t s \<Longrightarrow> later s s' \<Longrightarrow> ready_from t s'"
  by (auto simp: ready_from_def later_def)

lemma due_claimable: "due t r \<Longrightarrow> ready_from t s \<Longrightarrow> claimable (clock s (ticks s)) r"
  by (fastforce simp: due_def claimable_def ready_from_def split: option.splits)

lemma claim_returns:
  assumes good: "good_driver cfg" and inv: "erasure_inv cfg content (db s)" and known: "known_work cfg q (db s)"
    and cur: "current cfg q (db s) = Some r" and c: "claimable (clock s (ticks s)) r" and go: "undisturbed s"
  shows "\<exists>s'. claim_privacy_request cfg q s = (Inr True, s') \<and> later s s'"
proof -
  from good have lib: "uuid_round_trip (uuids cfg)" by (simp add: good_driver_def)
  from inv have ok: "requests_ok cfg (db s)" by (simp add: erasure_inv_def)
  from current_known [OF lib ok known] cur have rid: "must_parse cfg (pq_request_id q) = Inr (sr_request_id r)"
    and legacy: "legacy_value cfg q = Inr (sr_legacy_installation r)" by (metis option.inject)+
  from rid cur have row: "privacy_request_row (product_id (pq_scope q)) (sr_request_id r) (db s) = Some r"
    by (simp add: current_def must_parse_Inr)
  have legacy': "legacy_value cfg (q\<lparr>pq_attempts := a\<rparr>) = Inr (sr_legacy_installation r)" for a
    using legacy by (simp add: legacy_value_def)
  from go have f: "faults s (calls s) = Served" "faults s (Suc (calls s)) = Served" by (simp_all add: undisturbed_def)
  show ?thesis
    unfolding claim_privacy_request_def rid action_simps
    using row c f
    by (simp add: seq_def wrapping_def query_def time_now_def insert_privacy_status_def rid legacy' exec_def later_def)
qed

text \<open>A lease that has ended is no hindrance.\<close>

lemma claim_regained:
  assumes good: "good_driver cfg" and inv: "erasure_inv cfg content (db s)" and known: "known_work cfg q (db s)"
    and won: "claim_privacy_request cfg q s = (Inr True, s')"
    and attempts: "\<And>r. current cfg q (db s) = Some r \<Longrightarrow> sr_attempts r \<noteq> 0xFFFF"
    and s2: "db s2 = db s'" and inv': "erasure_inv cfg content (db s')"
    and time: "exec_time cfg (clock s (ticks s) + 5 * minute) < clock s2 (ticks s2)" and go: "undisturbed s2"
  shows "fst (claim_privacy_request cfg q s2) = Inr True"
proof -
  obtain r x where r: "current cfg q (db s) = Some r" "db s' = (db s)\<lparr>suppressions := suppressions (db s) @ [x]\<rparr>"
    "sr_status x = ''processing''" "sr_lease_until x = Some (exec_time cfg (clock s (ticks s) + 5 * minute))"
    "sr_attempts r \<noteq> 0xFFFF \<longrightarrow> current cfg q (db s') = Some x"
    by (rule claim_won [OF good inv known won])
  from r(5) attempts [OF r(1)] have cur: "current cfg q (db s2) = Some x" by (simp add: s2)
  have "known_work cfg q (db s2)" by (rule known_work_mono [OF known]) (auto simp: s2 r(2))
  moreover have "claimable (clock s2 (ticks s2)) x" using time r(3,4) by (simp add: claimable_def)
  ultimately show ?thesis using claim_returns [OF good _ _ cur _ go] inv' s2 by fastforce
qed

definition finished :: "'u store_config \<Rightarrow> privacy_work \<Rightarrow> 'u tables \<Rightarrow> bool" where
  "finished cfg q d \<longleftrightarrow> (\<exists>x. current cfg q d = Some x \<and> sr_status x = ''completed'' \<and> sr_action x = pq_action q)"

definition frame :: "'u store_config \<Rightarrow> privacy_work \<Rightarrow> 'u tables \<Rightarrow> 'u tables \<Rightarrow> bool" where
  "frame cfg q d d' \<longleftrightarrow> (\<exists>xs. suppressions d' = suppressions d @ xs
     \<and> (\<forall>x \<in> set xs. (fst (suppression_key x), Some (snd (suppression_key x))) = work_key cfg q))"

lemma frame_current:
  assumes "frame cfg q d d'" and "work_key cfg q' \<noteq> work_key cfg q"
  shows "current cfg q' d' = current cfg q' d"
proof -
  from assms(1) obtain xs where xs: "suppressions d' = suppressions d @ xs"
    "\<forall>x \<in> set xs. (fst (suppression_key x), Some (snd (suppression_key x))) = work_key cfg q" by (auto simp: frame_def)
  have "(product_id (pq_scope q'), rid) \<notin> suppression_key ` set xs" if "uuid_parse (uuids cfg) (pq_request_id q') = Some rid" for rid
  proof
    assume "(product_id (pq_scope q'), rid) \<in> suppression_key ` set xs"
    then obtain x where "x \<in> set xs" "suppression_key x = (product_id (pq_scope q'), rid)" by auto
    with xs(2) that have "work_key cfg q = work_key cfg q'" by (auto simp: work_key_def)
    with assms(2) show False by simp
  qed
  then show ?thesis
    by (auto simp: current_def privacy_request_row_def xs(1) newest_append_other split: option.splits)
qed

lemma handle_completes:
  assumes good: "good_driver cfg" and inv: "erasure_inv cfg content (db s)" and known: "known_work cfg q (db s)"
    and cur: "current cfg q (db s) = Some r" and att: "pq_attempts q = sr_attempts r" "sr_attempts r \<noteq> 0xFFFF"
    and due: "due t r" "ready_from t s" and go: "undisturbed s"
    and action: "pq_action q \<in> {PrivacyOptOut, PrivacyDelete}"
  shows "\<exists>s'. handle_request (store_backend cfg) n q s = (Inr [], s') \<and> later s s' \<and> erasure_inv cfg content (db s')
    \<and> finished cfg q (db s') \<and> frame cfg q (db s) (db s') \<and> set (suppressions (db s)) \<subseteq> set (suppressions (db s'))"
proof -
  from good have lib: "uuid_round_trip (uuids cfg)" by (simp add: good_driver_def)
  from inv have ok: "requests_ok cfg (db s)" by (simp add: erasure_inv_def)
  from current_known [OF lib ok known] cur have rid: "must_parse cfg (pq_request_id q) = Inr (sr_request_id r)"
    and legacy: "legacy_value cfg q = Inr (sr_legacy_installation r)"
    and key: "suppression_key r = (product_id (pq_scope q), sr_request_id r)" by (metis option.inject)+
  let ?q = "q\<lparr>pq_attempts := pq_attempts q + 1\<rparr>"
  from claim_returns [OF good inv known cur due_claimable [OF due] go] obtain s1 where s1: "claim_privacy_request cfg q s = (Inr True, s1)" "later s s1"
    by blast
  obtain r' x where x: "current cfg q (db s) = Some r'" "claimable (clock s (ticks s)) r'"
    "db s1 = (db s)\<lparr>suppressions := suppressions (db s) @ [x]\<rparr>" "request_ok cfg x" "sr_status x = ''processing''"
    "sr_attempts x = sr_attempts r' + 1" "sr_lease_until x = Some (exec_time cfg (clock s (ticks s) + 5 * minute))"
    "scan_request cfg x = Inr (q\<lparr>pq_attempts := sr_attempts x\<rparr>)"
    "sr_attempts r' \<noteq> 0xFFFF \<longrightarrow> current cfg q (db s1) = Some x"
    by (rule claim_won [OF good inv known s1(1)])
  with cur att have xa: "sr_attempts x = pq_attempts ?q" "current cfg ?q (db s1) = Some x" by simp_all
  have "uint (pq_attempts ?q) = uint (sr_attempts r) + 1" using word_Suc_less(1) [OF att(2)] att(1) by simp
  moreover have "0 \<le> uint (sr_attempts r)" by simp
  ultimately have nz: "pq_attempts ?q \<noteq> 0" by (metis unsigned_0 zle_add1_eq_le less_irrefl)
  let ?T = "set (suppressions (db s))"
  from known have q_in: "known_in cfg q ?T" "known_in cfg ?q ?T" by (simp_all add: known_in_work)
  from inv have "safe cfg content ?T (db s)" by (simp add: safe_def)
  from keepsD [OF keeps_claim [OF good q_in(1)] this] s1(1) have safe1: "safe cfg content ?T (db s1)" by simp
  have rid': "must_parse cfg (pq_request_id ?q) = Inr (sr_request_id r)" using rid by simp
  have legacy': "legacy_value cfg ?q = Inr (sr_legacy_installation r)" using legacy by (simp add: legacy_value_def)
  have go1: "undisturbed s1" by (rule later_undisturbed [OF s1(2) go])
  obtain s2 where s2: "perform_request (store_backend cfg) ?q s1 = (Inr (), s2)" "later s1 s2"
    "suppressions (db s2) = suppressions (db s1)" "safe cfg content ?T (db s2)"
    "pq_action q = PrivacyDelete \<Longrightarrow> progress_done cfg ?q (db s2)"
  proof (cases "pq_action q = PrivacyDelete")
    case True
    obtain u s2 where s2: "delete_telemetry_request cfg ?q s1 = (Inr u, s2)" "suppressions (db s2) = suppressions (db s1)" "later s1 s2"
      by (rule runsE [OF runs_delete [OF rid' legacy'] refl go1])
    from validD [OF valid_delete_telemetry [OF good q_in(2)] safe1 s2(1)]
    have "safe cfg content ?T (db s2)" "progress_done cfg ?q (db s2)" by simp_all
    with s2 True show thesis
      by (intro that [of s2]) (simp_all add: perform_request_def store_backend_def PrivacyOptOut_def PrivacyDelete_def)
  next
    case False
    with action safe1 show thesis by (intro that [of s1]) (simp_all add: perform_request_def)
  qed
  from s2(3) xa(2) have cur2: "current cfg ?q (db s2) = Some x"
    by (simp add: current_def privacy_request_row_def cong: option.case_cong)
  from s2(4) have inv2: "erasure_inv cfg content (db s2)" and known2: "known_work cfg ?q (db s2)"
    using safe_known [OF _ q_in(2)] by (simp_all add: safe_def)
  have go2: "undisturbed s2" by (rule later_undisturbed [OF s2(2) go1])
  have "runs (\<lambda>_. True) (complete_privacy_request cfg ?q) (\<lambda>_ _. True)"
    unfolding complete_privacy_request_def
    by (rule runs_seq [OF runs_insert_status [OF rid' legacy'] runs_pre [OF runs_time_now]]) simp
  from runsE [OF this TrueI go2] obtain s3 where s3: "complete_privacy_request cfg ?q s2 = (Inr (), s3)" "later s2 s3" by auto
  have o: "outcome_of cfg ?q (complete_privacy_request cfg ?q) ''completed''" by (simp add: outcome_of_def)
  from own_outcome [OF good inv2 known2 cur2 x(5) xa(1) nz o s3(1)] obtain z where
    z: "current cfg q (db s3) = Some z" "sr_status z = ''completed''" by auto
  obtain y where y: "db s3 = (db s2)\<lparr>suppressions := suppressions (db s2) @ [y]\<rparr>" "suppression_key y = suppression_key x"
    using outcome_written [OF good inv2 known2 cur2 o s3(1)] by metis
  have supp: "suppressions (db s3) = suppressions (db s) @ [x, y]" using y(1) s2(3) x(3) by simp
  let ?D = "if pq_action q = PrivacyDelete then set (deletion_tables ?q) else {}"
  have "safe cfg content ?T (db s2) \<and> done_tables cfg ?q ?D (db s2)"
    using s2(4,5) by (simp add: progress_done_tables)
  from keepsD [OF keeps_complete [OF good q_in(2)] this] s3(1) have inv3: "erasure_inv cfg content (db s3)"
    by (simp add: safe_def)
  have known3: "known_work cfg q (db s3)" by (rule known_work_mono [OF known]) (auto simp: supp)
  from inv3 have "requests_ok cfg (db s3)" by (simp add: erasure_inv_def)
  from current_known [OF lib this known3] z(1) have "request_ok cfg z" "scan_request cfg z = Inr (q\<lparr>pq_attempts := sr_attempts z\<rparr>)"
    by (metis option.inject)+
  from scan_request_fields(4) [OF this(2,1)] z have fin: "finished cfg q (db s3)" by (simp add: finished_def)
  from scan_request_fields(2,3) [OF x(8,4)] lib have kx: "(fst (suppression_key x), Some (snd (suppression_key x))) = work_key cfg q"
    by (simp add: suppression_key_def work_key_def uuid_round_trip_def)
  have fr: "frame cfg q (db s) (db s3)" using kx y(2) by (auto simp: frame_def supp)
  have "later s s3" using s1(2) s2(2) s3(2) later_trans by blast
  moreover have "handle_request (store_backend cfg) n q s = (Inr [], s3)"
    using s1(1) s2(1) s3(1) by (simp add: handle_request_def seq_def attempting_def Let_def store_backend_def)
  ultimately show ?thesis using inv3 fin fr supp by auto
qed

subsection \<open>An iteration of the worker\<close>

definition can_finish :: "'u store_config \<Rightarrow> time \<Rightarrow> privacy_work \<Rightarrow> 'u tables \<Rightarrow> bool" where
  "can_finish cfg t q d \<longleftrightarrow>
     known_work cfg q d \<and> pq_action q \<in> {PrivacyOptOut, PrivacyDelete}
     \<and> (\<exists>r. current cfg q d = Some r \<and> pq_attempts q = sr_attempts r \<and> sr_attempts r \<noteq> 0xFFFF \<and> due t r)"

lemma handle_all_completes:
  assumes good: "good_driver cfg"
  shows "\<lbrakk>erasure_inv cfg content (db s); ready_from t s; undisturbed s; distinct (map (work_key cfg) qs);
      \<forall>q \<in> set qs. can_finish cfg t q (db s)\<rbrakk> \<Longrightarrow>
    \<exists>s'. handle_requests (store_backend cfg) n qs s = (Inr [], s') \<and> later s s' \<and> erasure_inv cfg content (db s')
      \<and> (\<forall>q \<in> set qs. finished cfg q (db s'))
      \<and> (\<forall>q'. work_key cfg q' \<notin> work_key cfg ` set qs \<longrightarrow> current cfg q' (db s') = current cfg q' (db s))"
proof (induction qs arbitrary: s)
  case Nil
  then show ?case by simp
next
  case (Cons q qs)
  from Cons.prems(5) obtain r where q: "known_work cfg q (db s)" "pq_action q \<in> {PrivacyOptOut, PrivacyDelete}"
    "current cfg q (db s) = Some r" "pq_attempts q = sr_attempts r" "sr_attempts r \<noteq> 0xFFFF" "due t r"
    by (auto simp: can_finish_def)
  from handle_completes [OF good Cons.prems(1) q(1,3-6) Cons.prems(2,3) q(2)] obtain s1 where
    s1: "handle_request (store_backend cfg) n q s = (Inr [], s1)" "later s s1" "erasure_inv cfg content (db s1)"
      "finished cfg q (db s1)" "frame cfg q (db s) (db s1)" "set (suppressions (db s)) \<subseteq> set (suppressions (db s1))" by blast
  from Cons.prems(4) have other: "work_key cfg q' \<noteq> work_key cfg q" if "q' \<in> set qs" for q'
    using that by (metis distinct.simps(2) image_eqI list.set_map list.simps(9))
  have "can_finish cfg t q' (db s1)" if "q' \<in> set qs" for q'
    using Cons.prems(5) that frame_current [OF s1(5) other [OF that]] known_work_mono [OF _ s1(6)]
    by (auto simp: can_finish_def)
  with Cons.IH [OF s1(3) ready_later [OF Cons.prems(2) s1(2)] later_undisturbed [OF s1(2) Cons.prems(3)]] Cons.prems(4)
  obtain s2 where s2: "handle_requests (store_backend cfg) n qs s1 = (Inr [], s2)" "later s1 s2" "erasure_inv cfg content (db s2)"
      "\<forall>q \<in> set qs. finished cfg q (db s2)"
      "\<And>q'. work_key cfg q' \<notin> work_key cfg ` set qs \<Longrightarrow> current cfg q' (db s2) = current cfg q' (db s1)" by auto
  have "current cfg q (db s2) = current cfg q (db s1)" using s2(5) Cons.prems(4) by simp
  with s1(4) have "finished cfg q (db s2)" by (simp add: finished_def)
  moreover have "current cfg q' (db s2) = current cfg q' (db s)" if "work_key cfg q' \<notin> work_key cfg ` set (q # qs)" for q'
    using s2(5) [of q'] frame_current [OF s1(5)] that by simp
  moreover have "handle_requests (store_backend cfg) n (q # qs) s = (Inr [], s2)"
    using s1(1) s2(1) by (simp add: seq_def)
  ultimately show ?case using s2(3,4) later_trans [OF s1(2) s2(2)] by auto
qed

lemma final_keys: "map key (final_rows key ver rows) = remdups (map key rows)"
proof -
  have "map key (List.map_filter (newest key ver rows) ks) = ks" if "set ks \<subseteq> key ` set rows" for ks
    using that
  proof (induction ks)
    case (Cons k ks)
    then have "newest key ver rows k \<noteq> None" by (auto simp: newest_None)
    then obtain r where "newest key ver rows k = Some r" by blast
    with newest_Some [OF this] Cons show ?case by (simp add: List.map_filter_simps)
  qed (simp add: List.map_filter_simps)
  then show ?thesis by (simp add: final_rows_def)
qed

lemma pending_rows_facts:
  "distinct (map suppression_key (pending_rows t n d))"
  "r \<in> set (pending_rows t n d) \<Longrightarrow> due t r \<and> r \<in> set (suppressions d)
     \<and> newest suppression_key sr_updated_at (suppressions d) (suppression_key r) = Some r"
proof -
  let ?f = "final_rows suppression_key sr_updated_at (suppressions d)"
  have "distinct (map suppression_key ?f)" by (simp add: final_keys)
  then have f: "distinct ?f" "inj_on suppression_key (set ?f)" by (simp_all add: distinct_map)
  have sub: "set (pending_rows t n d) \<subseteq> {r \<in> set ?f. due t r}"
    by (auto simp: pending_rows_def dest: in_set_takeD)
  have "distinct (pending_rows t n d)" using f(1) by (simp add: pending_rows_def)
  moreover have "inj_on suppression_key (set (pending_rows t n d))" using f(2) sub by (auto intro: inj_on_subset)
  ultimately show "distinct (map suppression_key (pending_rows t n d))" by (simp add: distinct_map)
  show "due t r \<and> r \<in> set (suppressions d) \<and> newest suppression_key sr_updated_at (suppressions d) (suppression_key r) = Some r"
    if "r \<in> set (pending_rows t n d)"
    using that sub newest_Some [of suppression_key sr_updated_at "suppressions d" "suppression_key r" r]
    by (auto simp: final_rows_iff)
qed

lemma run_once_completes:
  assumes good: "good_driver cfg" and inv: "erasure_inv cfg content (db s)" and go: "undisturbed s"
    and clock: "\<And>i. ticks s \<le> i \<Longrightarrow> clock s (ticks s) \<le> clock s i"
    and rows: "\<And>r. r \<in> set (pending_rows (truncate_to (clock s (ticks s)) millisecond) (nat (worker_limit w)) (db s)) \<Longrightarrow>
      sr_action r \<in> {PrivacyOptOut, PrivacyDelete} \<and> sr_attempts r \<noteq> 0xFFFF"
  shows "\<exists>s'. run_once (store_backend cfg) w s = (Inr (), s')
    \<and> (\<forall>r \<in> set (pending_rows (truncate_to (clock s (ticks s)) millisecond) (nat (worker_limit w)) (db s)).
         \<exists>x. newest suppression_key sr_updated_at (suppressions (db s')) (suppression_key r) = Some x \<and> sr_status x = ''completed''
           \<and> sr_action x = sr_action r)"
proof -
  let ?t = "truncate_to (clock s (ticks s)) millisecond"
  let ?rows = "pending_rows ?t (nat (worker_limit w)) (db s)"
  from good have lib: "uuid_round_trip (uuids cfg)" by (simp add: good_driver_def)
  note pend = pending_rows_facts(1) [of ?t "nat (worker_limit w)" "db s"] pending_rows_facts(2) [of _ ?t "nat (worker_limit w)" "db s"]
  have ok: "request_ok cfg r" if "r \<in> set ?rows" for r
    using inv pend(2) [OF that] by (simp add: erasure_inv_def requests_ok_def)
  define qs where "qs = map (\<lambda>r. projr (scan_request cfg r)) ?rows"
  have scan: "scan_request cfg r = Inr (projr (scan_request cfg r))" "pq_attempts (projr (scan_request cfg r)) = sr_attempts r"
    if "r \<in> set ?rows" for r using scan_request_ok [OF ok [OF that]] by auto
  have qs: "traverse (scan_request cfg) ?rows = Inr qs" unfolding qs_def by (rule traverse_total) (rule scan)
  let ?s1 = "s\<lparr>ticks := Suc (ticks s), calls := Suc (calls s)\<rparr>"
  from go have f: "faults s (calls s) = Served" by (simp add: undisturbed_def)
  have list: "list_pending (store_backend cfg) (nat (worker_limit w)) s = (Inr qs, ?s1)"
    using f qs by (simp add: store_backend_def pending_privacy_requests_def seq_def time_now_def wrapping_def query_def lift_def)
  have later: "later s ?s1" by (simp add: later_def)
  have key: "work_key cfg (projr (scan_request cfg r)) = (fst (suppression_key r), Some (snd (suppression_key r)))" if "r \<in> set ?rows" for r
    by (rule work_key_row [OF lib scan(1) [OF that]])
  have can: "can_finish cfg ?t q (db ?s1)" if "q \<in> set qs" for q
  proof -
    from that obtain r where r: "r \<in> set ?rows" "q = projr (scan_request cfg r)" by (auto simp: qs_def)
    note sc = scan(1) [OF r(1), folded r(2)]
    have "q = q\<lparr>pq_attempts := sr_attempts r\<rparr>" using scan(2) [OF r(1)] r(2) by (cases q) simp
    with sc pend(2) [OF r(1)] have "known_work cfg q (db s)" unfolding known_work_def by metis
    moreover have "current cfg q (db s) = Some r"
      using key [OF r(1), folded r(2)] pend(2) [OF r(1)] by (simp add: work_key_def current_def privacy_request_row_def)
    moreover have "pq_action q = sr_action r" by (rule scan_request_fields(4) [OF sc ok [OF r(1)]])
    ultimately show ?thesis using rows [OF r(1)] pend(2) [OF r(1)] scan(2) [OF r(1)] r(2) by (auto simp: can_finish_def)
  qed
  have "map (work_key cfg) qs = map ((\<lambda>k. (fst k, Some (snd k))) \<circ> suppression_key) ?rows"
    using key by (simp add: qs_def)
  moreover have "inj (\<lambda>k :: string \<times> 'a. (fst k, Some (snd k)))" by (auto simp: inj_def prod_eq_iff)
  ultimately have dist: "distinct (map (work_key cfg) qs)"
    using pend(1) by (simp add: distinct_map comp_inj_on [OF _ inj_on_subset])
  have "ready_from ?t ?s1"
    using clock truncate_to_le [of millisecond "clock s (ticks s)"]
    by (auto simp: ready_from_def duration_defs intro: order_trans)
  from handle_all_completes [OF good _ this later_undisturbed [OF later go] dist, of content "worker_max_attempts w"] inv can
  obtain s2 where s2: "handle_requests (store_backend cfg) (worker_max_attempts w) qs ?s1 = (Inr [], s2)"
    "\<forall>q \<in> set qs. finished cfg q (db s2)" by auto
  have "run_once (store_backend cfg) w s = (Inr (), s2)"
    using list s2(1) by (simp add: run_once_def seq_def wrapping_def)
  moreover have "\<exists>x. newest suppression_key sr_updated_at (suppressions (db s2)) (suppression_key r) = Some x \<and> sr_status x = ''completed''
      \<and> sr_action x = sr_action r" if "r \<in> set ?rows" for r
  proof -
    from that s2(2) have "finished cfg (projr (scan_request cfg r)) (db s2)" by (simp add: qs_def)
    with key [OF that] scan_request_fields(4) [OF scan(1) [OF that] ok [OF that]] show ?thesis by (auto simp: finished_def current_def work_key_def privacy_request_row_def)
  qed
  ultimately show ?thesis by blast
qed

end
