(* ===== verification/Store_Properties.thy ===== *)
theory Store_Properties
  imports Store_Liveness Samples
begin

section \<open>Properties of the store and the privacy worker\<close>

text \<open>
  The statements are about histories: any sequence of calls of the writer and of workers, broken
  at any point. The samples are a store whose UUIDs are their texts, the batch of Samples, and a
  connection on which one call may break.
\<close>

subsection \<open>Samples\<close>

definition store_uuids :: "string uuid_lib" where
  "store_uuids = plain_uuids\<lparr>uuid_parse := Some\<rparr>"

definition store_cfg :: "string store_config" where
  "store_cfg = \<lparr>uuids = store_uuids, retentions = \<lparr>keep_batches = 0, keep_common = 0, keep_technical = 0,
     keep_plays = 0, keep_product = 0, keep_outcome = 0, keep_privacy = 0\<rparr>,
     exec_time = (\<lambda>t. truncate_to t second), column_time = (\<lambda>t. truncate_to t millisecond)\<rparr>"

definition sample_batch :: validated_batch where
  "sample_batch = v2_validated [\<lparr>the_record = v2_record, occurred_at_time = sample_now - minute\<rparr>]"

definition sample_sha :: string where
  "sample_sha = ''c0ffee''"

definition sample_conn :: "(nat \<Rightarrow> fault) \<Rightarrow> string tables conn" where
  "sample_conn fs = \<lparr>db = no_rows, calls = 0, faults = fs, ticks = 0, clock = (\<lambda>n. sample_now + int n * second)\<rparr>"

text \<open>The reservation of the first attempt breaks after its row was written.\<close>

definition one_fault :: "nat \<Rightarrow> fault" where
  "one_fault n = (if n = 2 then Broken 1 else Served)"

lemma store_cfg_seconds: "second_driver store_cfg"
  by (simp add: second_driver_def store_cfg_def)

lemma store_cfg_good: "good_driver store_cfg"
  using second_driver_ordered [OF store_cfg_seconds]
  by (simp add: good_driver_def uuid_round_trip_def store_cfg_def store_uuids_def plain_uuids_def)

lemma canonical_store: "canonical_uuid plain_uuids s \<Longrightarrow> canonical_uuid store_uuids s"
  by (auto simp: canonical_uuid_def store_uuids_def plain_uuids_def)

lemma sample_batch_valid: "valid_batch (uuids store_cfg) sample_now sample_batch"
proof -
  have "valid_batch plain_uuids sample_now sample_batch"
    unfolding sample_batch_def using parse_batch_valid [OF v2_batch_parses] .
  moreover have "header_ok plain_uuids n h sp t \<Longrightarrow> header_ok store_uuids n h sp t" for n h sp t
    by (auto simp: header_ok_def canonical_store)
  moreover have "streams_ok plain_uuids sp sample_batch \<Longrightarrow> streams_ok store_uuids sp sample_batch" for sp
    by (auto simp: streams_ok_def checked_def base_ok_def canonical_store sample_batch_def v2_validated_def)
  ultimately show ?thesis unfolding valid_batch_def store_cfg_def store_config.simps by blast
qed

lemma sample_batch_simps:
  "batch_id (header sample_batch) = ''10000000-0000-4000-8000-000000000001''"
  "header_scope (header sample_batch) = header_scope v2_header" "stream (header sample_batch) = ''product''"
  "record_count sample_batch = 1" "record_ids sample_batch = [''20000000-0000-4000-8000-000000000002'']"
  "product_key sample_batch = sample_subject"
  by (simp_all add: sample_batch_def v2_validated_def v2_header_def v2_record_def record_count_def record_ids_def)

lemma store_parse [simp]: "must_parse store_cfg s = Inr s"
  by (simp add: must_parse_def store_cfg_def store_uuids_def)

lemma sample_start:
  "reachable store_cfg content (db (sample_conn fs))" "unreserved b u no_rows" "db (sample_conn fs) = no_rows"
  "own_ids store_cfg b u sha no_rows" "\<not> suppressed_v2 sc k no_rows" "linked no_rows"
proof -
  show "own_ids store_cfg b u sha no_rows"
  proof -
    have "traverse (must_parse store_cfg) xs = Inr xs" for xs by (induction xs) simp_all
    then show ?thesis by (auto simp: own_ids_def free_ids_def no_rows_def)
  qed
qed (simp_all add: sample_conn_def reachable_def history.start unreserved_def suppressed_v2_def no_rows_def
    linked_def event_rows_def final_rows_def)

lemma first_attempt:
  "insert_v2 store_cfg sample_batch sample_sha (sample_conn one_fault)
   = (Inl (Wrapped ''insert v2 batch ledger'' db_error),
      (sample_conn one_fault)\<lparr>calls := 3, ticks := 1, db := no_rows\<lparr>ingest_batches :=
        [ledger_row_of store_cfg sample_batch sample_sha (truncate_to sample_now millisecond) ''reserved''
          ''10000000-0000-4000-8000-000000000001'']\<rparr>\<rparr>)"
proof -
  have "newest ledger_key lr_ingested_at (ingest_batches no_rows) k = None" for k :: "string \<times> string"
    by (simp add: no_rows_def)
  then show ?thesis
    using sample_start(5) [of "header_scope v2_header" sample_subject]
    by (simp add: insert_v2_def batch_ledger_v2_def is_suppressed_def insert_batch_ledger_v2_def Let_def seq_def
        wrapping_def wrap_def query_def exec_def time_now_def sample_conn_def one_fault_def sample_batch_simps
        insert_rows_def no_rows_def numeral_3_eq_3)
qed

lemma after_first:
  "undisturbed (after_attempts store_cfg sample_batch sample_sha (Suc 0) (sample_conn one_fault))"
proof -
  have "after_attempts store_cfg sample_batch sample_sha (Suc 0) (sample_conn one_fault)
      = snd (insert_v2 store_cfg sample_batch sample_sha (sample_conn one_fault))"
    by (simp add: after_attempts_def)
  also have "undisturbed \<dots>"
    unfolding first_attempt by (simp add: undisturbed_def sample_conn_def one_fault_def)
  finally show ?thesis .
qed

subsection \<open>Storing batches\<close>

text \<open>
  C8. Exactly once: in any state that the store can be in, after any number of attempts to insert
  an accepted batch that was not reserved before, each broken at any call, an attempt that returns
  reports the number of records of the batch, the tables show each row of one undisturbed insert on
  top of the state before the first attempt and nothing else, and the ledger says completed. The
  first attempt and its retries may write at different times, since the driver cuts the time of the
  reservation that they read back (to whole seconds): each row is one of the insert at the first time or
  of the insert at the cut one, which differ only in the columns of that time.
\<close>

theorem retries_refine_one_insert:
  assumes "good_driver cfg" and "reachable cfg content (db s)" and "valid_batch (uuids cfg) now b"
    and "must_parse cfg (batch_id (header b)) = Inr u" and "unreserved b u (db s)"
    and "insert_v2 cfg b sha (after_attempts cfg b sha n s) = (Inr r, s')"
  shows "result_count r = record_count b
    \<and> (\<exists>t w x. writes_at cfg b sha t w x \<and> same_but_times w x \<and> batch_visible w x (db s) (db s'))
    \<and> (\<exists>t. read_ledger b u (db s') = Some (sha, ''completed'', t))"
proof -
  from reachable_inv [OF assms(1,2)] have "linked (db s)" by (simp add: erasure_inv_def)
  moreover from assms(1) have "ordered_driver cfg" by (simp add: good_driver_def)
  ultimately show ?thesis using assms(3-6) by (intro retries_store_once) simp_all
qed

theorem retries_refine_one_insert_witness:
  "\<exists>r s'. insert_v2 store_cfg sample_batch sample_sha
      (after_attempts store_cfg sample_batch sample_sha 1 (sample_conn one_fault)) = (Inr r, s')
    \<and> result_count r = 1 \<and> (\<exists>w x. batch_visible w x no_rows (db s'))
    \<and> (\<exists>t. read_ledger sample_batch ''10000000-0000-4000-8000-000000000001'' (db s') = Some (sample_sha, ''completed'', t))"
proof -
  have p: "must_parse store_cfg (batch_id (header sample_batch)) = Inr ''10000000-0000-4000-8000-000000000001''"
    by (simp add: sample_batch_simps)
  from store_cfg_good have ms: "ordered_driver store_cfg" by (simp add: good_driver_def)
  from undisturbed_attempt [OF ms sample_batch_valid p, of "sample_conn one_fault" sample_sha 1] obtain r s'
    where r: "insert_v2 store_cfg sample_batch sample_sha
      (after_attempts store_cfg sample_batch sample_sha 1 (sample_conn one_fault)) = (Inr r, s')"
    by (auto simp: sample_start after_first)
  from retries_refine_one_insert [OF store_cfg_good sample_start(1) sample_batch_valid p _ r] r show ?thesis
    by (auto simp: sample_start sample_batch_simps)
qed

text \<open>
  C22. No attempt is lost: whatever the attempts before it broke at, an attempt at which no call
  breaks returns, for an accepted batch whose record IDs no other batch has registered and whose
  scope is not suppressed.
\<close>

theorem broken_attempts_recover:
  assumes "good_driver cfg" and "valid_batch (uuids cfg) now b" and "must_parse cfg (batch_id (header b)) = Inr u"
    and "unreserved b u (db s)" and "own_ids cfg b u sha (db s)"
    and "\<not> suppressed_v2 (header_scope (header b)) (product_key b) (db s)"
    and "undisturbed (after_attempts cfg b sha n s)"
  shows "\<exists>r s'. insert_v2 cfg b sha (after_attempts cfg b sha n s) = (Inr r, s')"
  using assms(1) undisturbed_attempt [OF _ assms(2-7)] by (auto simp: good_driver_def)

theorem broken_attempts_recover_witness:
  "fst (insert_v2 store_cfg sample_batch sample_sha (sample_conn one_fault)) = Inl (Wrapped ''insert v2 batch ledger'' db_error)
   \<and> (\<exists>r s'. insert_v2 store_cfg sample_batch sample_sha
      (after_attempts store_cfg sample_batch sample_sha 1 (sample_conn one_fault)) = (Inr r, s'))"
proof -
  have p: "must_parse store_cfg (batch_id (header sample_batch)) = Inr ''10000000-0000-4000-8000-000000000001''"
    by (simp add: sample_batch_simps)
  from broken_attempts_recover [OF store_cfg_good sample_batch_valid p, of "sample_conn one_fault" sample_sha 1]
  show ?thesis by (simp add: sample_start after_first first_attempt)
qed

text \<open>
  The ledger decides before anything is written: a batch ID that was reserved with another body
  is a conflict, one that is completed with this body is reported as a replay with its number of
  records, and neither changes the tables.
\<close>

theorem ledger_decides:
  assumes "must_parse cfg (batch_id (header b)) = Inr u" and "faults s (calls s) = Served"
    and "read_ledger b u (db s) = Some (old_sha, status, t)"
  shows "(old_sha \<noteq> sha \<longrightarrow> insert_v2 cfg b sha s = (Inl ErrIdempotencyConflict, s\<lparr>calls := Suc (calls s)\<rparr>))
    \<and> (old_sha = sha \<and> status = ''completed'' \<longrightarrow> insert_v2 cfg b sha s
        = (Inr \<lparr>result_count = record_count b, result_replayed = True\<rparr>, s\<lparr>calls := Suc (calls s)\<rparr>))"
  using assms by (auto simp: insert_v2_def batch_ledger_v2_def Let_def seq_def wrapping_def query_def read_ledger_def)

theorem ledger_decides_witness:
  "\<exists>s t. read_ledger sample_batch ''10000000-0000-4000-8000-000000000001'' (db s) = Some (sample_sha, ''completed'', t)
    \<and> fst (insert_v2 store_cfg sample_batch sample_sha s) = Inr \<lparr>result_count = 1, result_replayed = True\<rparr>
    \<and> fst (insert_v2 store_cfg sample_batch ''0ther'' s) = Inl ErrIdempotencyConflict"
proof -
  let ?s = "(sample_conn (\<lambda>_. Served))\<lparr>db := no_rows\<lparr>ingest_batches :=
    [ledger_row_of store_cfg sample_batch sample_sha sample_now ''completed'' ''10000000-0000-4000-8000-000000000001'']\<rparr>\<rparr>"
  have p: "must_parse store_cfg (batch_id (header sample_batch)) = Inr ''10000000-0000-4000-8000-000000000001''"
    by (simp add: sample_batch_simps)
  have r: "read_ledger sample_batch ''10000000-0000-4000-8000-000000000001'' (db ?s)
      = Some (sample_sha, ''completed'', exec_time store_cfg sample_now)"
    by (simp add: read_ledger_def newest_def)
  have f: "faults ?s (calls ?s) = Served" by (simp add: sample_conn_def)
  from r ledger_decides [OF p f r, of sample_sha] ledger_decides [OF p f r, of "''0ther''"] show ?thesis
    by (intro exI [of _ ?s] exI [of _ "exec_time store_cfg sample_now"]) (simp add: sample_batch_simps sample_sha_def)
qed

text \<open>
  C25. A record ID belongs to the batch that registered it: an undisturbed insert of a new,
  unsuppressed batch one of whose record IDs another batch of the product has registered fails with
  ErrDuplicateRecord, and no event and no registry row is written.
\<close>

theorem reused_record_rejected:
  assumes "must_parse cfg (batch_id (header b)) = Inr u" and "traverse (must_parse cfg) (record_ids b) = Inr ids"
    and "unreserved b u (db s)" and "\<not> own_ids cfg b u sha (db s)" and "undisturbed s"
    and "\<not> suppressed_v2 (header_scope (header b)) (product_key b) (db s)"
  shows "\<exists>s'. insert_v2 cfg b sha s = (Inl ErrDuplicateRecord, s')
    \<and> event_rows (db s') = event_rows (db s) \<and> record_registry (db s') = record_registry (db s)"
proof -
  have "faults s (calls s + k) = Served" for k using assms(5) by (simp add: undisturbed_def)
  from this [of 0] this [of 1] this [of 2] this [of 3] have f: "faults s (calls s) = Served" "faults s (Suc (calls s)) = Served"
    "faults s (Suc (Suc (calls s))) = Served" "faults s (Suc (Suc (Suc (calls s)))) = Served"
    by (simp_all add: numeral_2_eq_2 numeral_3_eq_3)
  have "list_ex (\<lambda>(x, y). x \<noteq> u \<or> y \<noteq> sha) (registered_rows (product_id (header_scope (header b))) ids (db s))"
    using assms(2,4) by (simp only: free_ids_registered) (auto simp: own_ids_def)
  then have dup: "list_ex (\<lambda>(x, y). x \<noteq> u \<or> y \<noteq> sha)
      (registered_rows (product_id (header_scope (header b))) ids (ingest_batches_update g (db s)))" for g
    by (simp add: registered_rows_def)
  have ev: "event_rows (ingest_batches_update g d) = event_rows d" for g and d :: "'a tables" by (simp add: event_rows_def)
  show ?thesis
    unfolding insert_v2_def batch_ledger_v2_def is_suppressed_def insert_batch_ledger_v2_def complete_batch_v2_def
      register_records_v2_def assms(1,2) action_simps Let_def
    using assms(3,6) f dup
    by (simp add: seq_def wrapping_def query_def exec_def time_now_def unreserved_def ev fail_if_def del: insert_rows_None)
qed

theorem reused_record_rejected_witness:
  "\<exists>s s'. insert_v2 store_cfg sample_batch sample_sha s = (Inl ErrDuplicateRecord, s') \<and> record_registry (db s) \<noteq> []"
proof -
  let ?s = "(sample_conn (\<lambda>_. Served))\<lparr>db := no_rows\<lparr>record_registry :=
    [registry_row_of sample_batch ''0ther'' sample_now ''another batch'' ''20000000-0000-4000-8000-000000000002'']\<rparr>\<rparr>"
  have p: "must_parse store_cfg (batch_id (header sample_batch)) = Inr ''10000000-0000-4000-8000-000000000001''"
    "traverse (must_parse store_cfg) (record_ids sample_batch) = Inr [''20000000-0000-4000-8000-000000000002'']"
    by (simp_all add: sample_batch_simps)
  have "\<not> own_ids store_cfg sample_batch ''10000000-0000-4000-8000-000000000001'' sample_sha (db ?s)"
    by (simp add: own_ids_def p(2) free_ids_def registry_row_of_def scope_columns.defs registry_row.defs batch_columns_def Let_def)
  moreover have "unreserved sample_batch u (db ?s)" "\<not> suppressed_v2 sc k (db ?s)" for u sc k
    using sample_start(2,5) by (simp_all add: unreserved_def suppressed_v2_def)
  moreover have "undisturbed ?s" by (simp add: undisturbed_def sample_conn_def)
  ultimately obtain s' where "insert_v2 store_cfg sample_batch sample_sha ?s = (Inl ErrDuplicateRecord, s')"
    using reused_record_rejected [OF p, of ?s sample_sha] by blast
  then show ?thesis by (intro exI [of _ ?s] exI [of _ s']) simp
qed

subsection \<open>Privacy requests\<close>

lemma named_suppressed:
  assumes good: "good_driver cfg" and reach: "reachable cfg content d" and r: "r \<in> set (suppressions d)"
    and named: "named_by r (batch_columns b)"
  shows "suppressed_v2 (header_scope (header b)) (product_key b) d"
proof (rule ccontr)
  assume un: "\<not> suppressed_v2 (header_scope (header b)) (product_key b) d"
  from reachable_inv [OF good reach] have ok: "requests_ok cfg d" by (simp add: erasure_inv_def)
  with r have "request_ok cfg r" by (simp add: requests_ok_def)
  from scan_request_ok [OF this] obtain q where q: "scan_request cfg r = Inr q" "pq_attempts q = sr_attempts r" by blast
  then have "q\<lparr>pq_attempts := sr_attempts r\<rparr> = q" by (cases q) simp
  with q r have "known_work cfg q d" unfolding known_work_def by metis
  moreover have "scope_columns.truncate (batch_columns b) = batch_columns b" by (simp add: batch_columns_def Let_def scope_columns.defs)
  ultimately have "\<not> work_match q (batch_columns b)" by (rule unsuppressed_scope [OF good ok _ un])
  with named show False by (simp add: scanned_match [OF q(1) \<open>request_ok cfg r\<close>])
qed

text \<open>
  C18. A scope under a privacy request, of any action and in any status, takes no telemetry: an
  insert of a V2 batch whose scope the request names leaves the tables as they are, and it reports
  success only as the replay of a batch that was completed before.
\<close>

theorem suppressed_scope_stores_nothing:
  assumes "good_driver cfg" and "reachable cfg content (db s)" and "r \<in> set (suppressions (db s))"
    and "named_by r (batch_columns b)"
  shows "db (snd (insert_v2 cfg b sha s)) = db s
    \<and> (\<forall>x. fst (insert_v2 cfg b sha s) = Inr x \<longrightarrow> result_replayed x)"
proof (cases "must_parse cfg (batch_id (header b))")
  case (Inl e)
  then show ?thesis by (simp add: insert_v2_def batch_ledger_v2_def Let_def)
next
  case (Inr u)
  have "suppressed_v2 (header_scope (header b)) (product_key b) (db s)" by (rule named_suppressed [OF assms])
  then show ?thesis
    unfolding insert_v2_def batch_ledger_v2_def is_suppressed_def Inr action_simps Let_def
    by (auto simp: seq_def wrapping_def wrap_def query_def split: fault.splits option.splits)
qed

definition sample_erasure :: validated_privacy_request where
  "sample_erasure = \<lparr>the_request = \<lparr>privacy_schema_version = 2, request_id = ''40000000-0000-4000-8000-000000000004'',
     privacy_scope = header_scope v2_header, privacy_action = ''delete'', requested_at = ''2026-07-21T12:00:00Z''\<rparr>,
     privacy_product_key = sample_subject, requested_at_time = sample_now\<rparr>"

text \<open>The history of the samples: a batch is stored, its scope is to be deleted, the worker runs.\<close>

definition sample_stored :: "string tables conn" where
  "sample_stored = snd (insert_v2 store_cfg sample_batch sample_sha (sample_conn (\<lambda>_. Served)))"

definition sample_requested :: "string tables conn" where
  "sample_requested = snd (create_privacy_request store_cfg sample_erasure ''beef'' sample_stored)"

definition sample_row :: "time \<Rightarrow> string suppression_row" where
  "sample_row t = pending_row store_cfg (batch_columns sample_batch) ''delete'' ''beef'' sample_now t
     ''40000000-0000-4000-8000-000000000004'' None"

lemma sample_stored_facts:
  "undisturbed sample_stored" "suppressions (db sample_stored) = []" "product_events (db sample_stored) \<noteq> []"
  "reachable store_cfg (\<lambda>_. sample_batch) (db sample_stored)" "clock sample_stored = (\<lambda>n. sample_now + int n * second)"
proof -
  let ?s = "sample_conn (\<lambda>_. Served)"
  have p: "must_parse store_cfg (batch_id (header sample_batch)) = Inr ''10000000-0000-4000-8000-000000000001''"
    by (simp add: sample_batch_simps)
  from store_cfg_good have ms: "ordered_driver store_cfg" by (simp add: good_driver_def)
  have go: "undisturbed ?s" by (simp add: undisturbed_def sample_conn_def)
  have zero: "after_attempts store_cfg sample_batch sample_sha 0 x = x" for x by (simp add: after_attempts_def)
  from undisturbed_attempt [OF ms sample_batch_valid p, of ?s sample_sha 0] go obtain r where
    r: "insert_v2 store_cfg sample_batch sample_sha ?s = (Inr r, sample_stored)" and l: "later ?s sample_stored"
    unfolding zero sample_stored_def by (auto simp: sample_start)
  show "undisturbed sample_stored" by (rule later_undisturbed [OF l go])
  show "clock sample_stored = (\<lambda>n. sample_now + int n * second)" using l by (simp add: later_def sample_conn_def)
  have "linked (db ?s)" "unreserved sample_batch u (db ?s)" for u by (simp_all add: sample_start)
  from retries_store_once [OF ms sample_batch_valid p this, of sample_sha 0 r sample_stored] r
  obtain t w x where w: "batch_write store_cfg sample_batch sample_sha t = Inr w" "batch_visible w x (db ?s) (db sample_stored)"
    unfolding zero writes_at_def by blast
  then show "suppressions (db sample_stored) = []" by (simp add: batch_visible_def sample_start no_rows_def)
  from w(1) have "length (product_events w) = 1"
    by (auto simp: batch_write_def andthen_Inr no_rows_def sample_batch_def v2_validated_def traverse_Inr
        list_all2_Cons1)
  then obtain e where e: "e \<in> set (product_events w)" by (cases "product_events w") auto
  from w(2) have "shows_rows event_key er_ingested_at (product_events w) (product_events x) (product_events (db ?s))
      (product_events (db sample_stored))" by (simp only: batch_visible_def)
  with e have "newest event_key er_ingested_at (product_events (db sample_stored)) (event_key e) \<noteq> None"
    unfolding shows_rows_def by (meson imageI)
  then show "product_events (db sample_stored) \<noteq> []" by auto
  have "reachable store_cfg (\<lambda>_. sample_batch) (db ?s)" by (rule sample_start)
  then have "reachable store_cfg (\<lambda>_. sample_batch) (db (snd (run_call store_cfg (\<lambda>_. sample_batch) (IngestV2 sample_sha) ?s)))"
    unfolding reachable_def by (rule history.call) simp
  then show "reachable store_cfg (\<lambda>_. sample_batch) (db sample_stored)" by (simp add: sample_stored_def)
qed

lemma sample_asks:
  assumes "undisturbed s" and "suppressions (db s) = []"
  shows "create_privacy_request store_cfg sample_erasure ''beef'' s =
      (Inr \<lparr>privacy_replayed = False, privacy_status = ''pending''\<rparr>,
       s\<lparr>calls := Suc (Suc (calls s)), ticks := Suc (ticks s),
         db := suppressions_update (\<lambda>t. t @ [sample_row (clock s (ticks s))]) (db s)\<rparr>)"
proof -
  have go: "faults s (calls s) = Served" "faults s (Suc (calls s)) = Served"
    using assms(1) by (simp_all add: undisturbed_def)
  have cols: "\<lparr>col_product = product_id (header_scope v2_header), col_product_key = Some sample_subject,
      col_subject_key = Some (subject_key (header_scope v2_header)), col_person_key = person_key (header_scope v2_header),
      col_org_key = org_key (header_scope v2_header)\<rparr> = batch_columns sample_batch"
    by (simp add: batch_columns_def Let_def sample_batch_simps)
  show ?thesis
    using assms(2) go
    by (simp add: create_privacy_request_def lookup_request_def sample_erasure_def Let_def seq_def wrapping_def query_def
        exec_def time_now_def privacy_request_row_def cols sample_row_def insert_rows_None [abs_def])
qed

lemma sample_requested_facts:
  "suppressions (db sample_requested) = [sample_row (clock sample_stored (ticks sample_stored))]"
  "undisturbed sample_requested" "reachable store_cfg (\<lambda>_. sample_batch) (db sample_requested)"
  "clock sample_requested = clock sample_stored" "ticks sample_requested = Suc (ticks sample_stored)"
proof -
  note f = sample_stored_facts
  note c = sample_asks [OF f(1,2)]
  show "suppressions (db sample_requested) = [sample_row (clock sample_stored (ticks sample_stored))]"
    "undisturbed sample_requested" "clock sample_requested = clock sample_stored" "ticks sample_requested = Suc (ticks sample_stored)"
    using f(1,2) by (simp_all add: sample_requested_def c undisturbed_def)
  from f(4) have "reachable store_cfg (\<lambda>_. sample_batch) (db (snd (run_call store_cfg (\<lambda>_. sample_batch)
      (CreatePrivacy sample_erasure ''beef'') sample_stored)))"
    unfolding reachable_def by (rule history.call) simp
  then show "reachable store_cfg (\<lambda>_. sample_batch) (db sample_requested)" by (simp add: sample_requested_def)
qed

theorem suppressed_scope_stores_nothing_witness:
  "db (snd (insert_v2 store_cfg sample_batch ''0ther'' sample_requested)) = db sample_requested"
proof -
  note f = sample_requested_facts
  have "named_by (sample_row t) (batch_columns sample_batch)" for t
    by (simp add: named_by_def sample_row_def pending_row_def scope_match_def batch_columns_def Let_def sample_batch_simps
        v2_header_def scope_columns.defs string_value_def)
  with suppressed_scope_stores_nothing [OF store_cfg_good f(3)] f(1) show ?thesis by simp
qed

text \<open>
  C3. Erasure: in every state that the store can be in, once a request to delete is marked
  completed, no event, no registry row and no ledger row that the request names is in any table
  (for a request about a V1 installation: no event and no summary of it), and since every later
  state can be reached too, none ever comes back.
\<close>

theorem completed_deletion_forgets:
  assumes "good_driver cfg" and "reachable cfg content d" and "r \<in> set (suppressions d)"
    and "sr_status r = ''completed''" and "sr_action r = PrivacyDelete"
  shows "forgotten r d"
  by (rule completed_forgotten [OF assms(1) reachable_inv [OF assms(1,2)] assms(3-5)])

definition sample_erased :: "string tables conn" where
  "sample_erased = snd (run_once (store_backend store_cfg) \<lparr>worker_limit = 100, worker_max_attempts = 10\<rparr> sample_requested)"

lemma sample_row_simps:
  "sr_status (sample_row t) = ''pending''" "sr_action (sample_row t) = PrivacyDelete" "sr_attempts (sample_row t) = 0"
  "sr_available_at (sample_row t) = truncate_to t second" "suppression_key (sample_row t) = suppression_key (sample_row t')"
  by (simp_all add: sample_row_def pending_row_def scope_columns.defs suppression_row.defs PrivacyDelete_def store_cfg_def
      suppression_key_def)

abbreviation sample_limits :: worker_limits where
  "sample_limits \<equiv> \<lparr>worker_limit = 100, worker_max_attempts = 10\<rparr>"

lemma sample_sweeps:
  assumes inv: "erasure_inv store_cfg content (db s)" and go: "undisturbed s" and clock: "clock s = (\<lambda>n. sample_now + int n * second)"
    and rows: "suppressions (db s) = [sample_row (clock s i)]" and i: "i \<le> ticks s"
  shows "\<And>j. ticks s \<le> j \<Longrightarrow> clock s (ticks s) \<le> clock s j"
    and "pending_rows (truncate_to (clock s (ticks s)) millisecond) 100 (db s) = [sample_row (clock s i)]"
    and "\<exists>x \<in> set (suppressions (db (snd (run_once (store_backend store_cfg) sample_limits s)))).
      suppression_key x = suppression_key (sample_row (clock s i)) \<and> sr_status x = ''completed'' \<and> sr_action x = PrivacyDelete"
proof -
  have mono: "clock s j \<le> clock s k" if "j \<le> k" for j k
    using that by (simp add: clock duration_defs)
  then show order: "ticks s \<le> j \<Longrightarrow> clock s (ticks s) \<le> clock s j" for j .
  have "millisecond dvd truncate_to t second" for t
    by (rule dvd_trans [of _ second]) (simp_all add: duration_defs truncate_to_def dvd_minus_mod)
  then have "truncate_to t second = truncate_to (truncate_to t second) millisecond" for t
    by (simp add: truncate_to_def [of _ millisecond] dvd_imp_mod_0)
  then have "truncate_to (clock s i) second \<le> truncate_to (truncate_to (clock s (ticks s)) second) millisecond"
    using truncate_to_mono [OF _ mono [OF i], of second] by (simp add: duration_defs)
  also have "\<dots> \<le> truncate_to (clock s (ticks s)) millisecond"
    by (intro truncate_to_mono truncate_to_le) (simp_all add: duration_defs)
  finally have "truncate_to (clock s i) second \<le> truncate_to (clock s (ticks s)) millisecond" .
  then have "due (truncate_to (clock s (ticks s)) millisecond) (sample_row (clock s i))"
    by (simp add: due_def sample_row_simps)
  then show due: "pending_rows (truncate_to (clock s (ticks s)) millisecond) 100 (db s) = [sample_row (clock s i)]"
    by (simp add: pending_rows_def rows final_rows_def newest_def List.map_filter_simps)
  have due': "pending_rows (truncate_to (clock s (ticks s)) millisecond) (nat (worker_limit sample_limits)) (db s) = [sample_row (clock s i)]"
    using due by simp
  have acts: "sr_action r \<in> {PrivacyOptOut, PrivacyDelete} \<and> sr_attempts r \<noteq> 0xFFFF"
    if "r \<in> set (pending_rows (truncate_to (clock s (ticks s)) millisecond) (nat (worker_limit sample_limits)) (db s))" for r
    using that unfolding due' by (simp add: sample_row_simps)
  from run_once_completes [where w = sample_limits, OF store_cfg_good inv go order acts, unfolded due'] obtain x where
    x: "newest suppression_key sr_updated_at (suppressions (db (snd (run_once (store_backend store_cfg) sample_limits s))))
        (suppression_key (sample_row (clock s i))) = Some x" "sr_status x = ''completed''" "sr_action x = PrivacyDelete"
    by (auto simp: sample_row_simps)
  with newest_Some [OF x(1)] show "\<exists>x \<in> set (suppressions (db (snd (run_once (store_backend store_cfg) sample_limits s)))).
      suppression_key x = suppression_key (sample_row (clock s i)) \<and> sr_status x = ''completed'' \<and> sr_action x = PrivacyDelete" by blast
qed

lemma sample_due:
  "ticks sample_requested \<le> i \<Longrightarrow> clock sample_requested (ticks sample_requested) \<le> clock sample_requested i"
  "pending_rows (truncate_to (clock sample_requested (ticks sample_requested)) millisecond) 100 (db sample_requested)
    = [sample_row (clock sample_stored (ticks sample_stored))]"
  "\<exists>x \<in> set (suppressions (db sample_erased)). sr_status x = ''completed'' \<and> sr_action x = PrivacyDelete"
proof -
  note f = sample_requested_facts
  have c: "clock sample_requested = (\<lambda>n. sample_now + int n * second)" using f(4) sample_stored_facts(5) by simp
  note s = sample_sweeps [OF reachable_inv [OF store_cfg_good f(3)] f(2) c, of "ticks sample_stored"]
  show "ticks sample_requested \<le> i \<Longrightarrow> clock sample_requested (ticks sample_requested) \<le> clock sample_requested i"
    "pending_rows (truncate_to (clock sample_requested (ticks sample_requested)) millisecond) 100 (db sample_requested)
      = [sample_row (clock sample_stored (ticks sample_stored))]"
    "\<exists>x \<in> set (suppressions (db sample_erased)). sr_status x = ''completed'' \<and> sr_action x = PrivacyDelete"
    using s f(1,4,5) by (auto simp: sample_erased_def)
qed

lemma sample_erased_facts:
  "reachable store_cfg (\<lambda>_. sample_batch) (db sample_erased)"
  "\<exists>x \<in> set (suppressions (db sample_erased)). sr_status x = ''completed'' \<and> sr_action x = PrivacyDelete"
  using keepsD [OF store_worker.run_once_keeps, of store_cfg "\<lambda>_. sample_batch" sample_requested sample_limits]
    store_cfg_good sample_requested_facts(3) sample_due(3)
  by (simp_all add: sample_erased_def)

theorem completed_deletion_forgets_witness:
  "product_events (db sample_stored) \<noteq> [] \<and> (\<exists>r \<in> set (suppressions (db sample_erased)). forgotten r (db sample_erased))"
  using completed_deletion_forgets [OF store_cfg_good sample_erased_facts(1)] sample_erased_facts(2) sample_stored_facts(3)
  by blast

text \<open>
  RunOnce is one of the histories: whatever calls break in an iteration of the worker, it takes
  a store that a history leads to into a store that a history leads to; so the worker claims only
  requests that exist, and completes a deletion only after the deletions of all its tables have
  been recorded.
\<close>

theorem worker_keeps_histories:
  assumes "good_driver cfg" and "reachable cfg content (db s)"
  shows "reachable cfg content (db (snd (run_once (store_backend cfg) w s)))"
  using keepsD [OF store_worker.run_once_keeps, of cfg content s w] assms by simp

theorem worker_keeps_histories_witness:
  "reachable store_cfg (\<lambda>_. sample_batch)
     (db (snd (run_once (store_backend store_cfg) \<lparr>worker_limit = 100, worker_max_attempts = 10\<rparr> sample_requested)))"
  by (rule worker_keeps_histories [OF store_cfg_good sample_requested_facts(3)])

text \<open>
  C17. The worker makes progress: an iteration in which no call breaks and that no other worker
  interferes with returns without an error, and every request that was due when it started ends as
  completed, up to the limit of the listing.
\<close>

theorem undisturbed_worker_finishes:
  assumes "good_driver cfg" and "reachable cfg content (db s)" and "undisturbed s"
    and "\<And>i. ticks s \<le> i \<Longrightarrow> clock s (ticks s) \<le> clock s i"
    and "\<And>r. r \<in> set (pending_rows (truncate_to (clock s (ticks s)) millisecond) (nat (worker_limit w)) (db s)) \<Longrightarrow>
      sr_action r \<in> {PrivacyOptOut, PrivacyDelete} \<and> sr_attempts r \<noteq> 0xFFFF"
  shows "\<exists>s'. run_once (store_backend cfg) w s = (Inr (), s')
    \<and> (\<forall>r \<in> set (pending_rows (truncate_to (clock s (ticks s)) millisecond) (nat (worker_limit w)) (db s)).
         \<exists>x. newest suppression_key sr_updated_at (suppressions (db s')) (suppression_key r) = Some x \<and> sr_status x = ''completed'')"
  using run_once_completes [OF assms(1) reachable_inv [OF assms(1,2)] assms(3-5)] by blast

theorem undisturbed_worker_finishes_witness:
  "\<exists>s' x. run_once (store_backend store_cfg) \<lparr>worker_limit = 100, worker_max_attempts = 10\<rparr> sample_requested = (Inr (), s')
    \<and> x \<in> set (suppressions (db s')) \<and> sr_status x = ''completed''"
proof -
  let ?w = "\<lparr>worker_limit = 100, worker_max_attempts = 10\<rparr>" and ?r = "sample_row (clock sample_stored (ticks sample_stored))"
  note f = sample_requested_facts
  have rows: "pending_rows (truncate_to (clock sample_requested (ticks sample_requested)) millisecond) (nat (worker_limit ?w))
      (db sample_requested) = [?r]" using sample_due(2) by simp
  have acts: "sr_action r \<in> {PrivacyOptOut, PrivacyDelete} \<and> sr_attempts r \<noteq> 0xFFFF"
    if "r \<in> set (pending_rows (truncate_to (clock sample_requested (ticks sample_requested)) millisecond)
      (nat (worker_limit ?w)) (db sample_requested))" for r
    using that unfolding rows by (simp add: sample_row_simps)
  from undisturbed_worker_finishes [where w = ?w, OF store_cfg_good f(3,2) sample_due(1) acts, unfolded rows] obtain s' x where
    s': "run_once (store_backend store_cfg) ?w sample_requested = (Inr (), s')" and
    x: "newest suppression_key sr_updated_at (suppressions (db s')) (suppression_key (sample_row (clock sample_stored (ticks sample_stored)))) = Some x"
      "sr_status x = ''completed''" by auto
  with newest_Some [OF x(1)] show ?thesis by (intro exI [of _ s'] exI [of _ x]) simp
qed

subsection \<open>Leases\<close>

text \<open>
  C26. A lease excludes until it ends, and it ends when the driver has cut it: after a worker has
  claimed a request, a claim of it on the same tables is refused and writes nothing up to the last
  whole second of the five minutes, and succeeds from then on, up to a second before their end.
\<close>

theorem lease_excludes:
  assumes "second_driver cfg" and "good_driver cfg" and "reachable cfg content (db s)" and "known_work cfg q (db s)"
    and "claim_privacy_request cfg q s = (Inr True, s1)"
    and "\<forall>r \<in> set (suppressions (db s)). sr_attempts r \<noteq> 0xFFFF" and "db s2 = db s1"
  shows "if clock s2 (ticks s2) \<le> truncate_to (clock s (ticks s) + 5 * minute) second
    then fst (claim_privacy_request cfg q s2) \<noteq> Inr True \<and> db (snd (claim_privacy_request cfg q s2)) = db s2
    else undisturbed s2 \<longrightarrow> fst (claim_privacy_request cfg q s2) = Inr True"
proof -
  have "reachable cfg content (db (snd (run_call cfg content (ClaimRequest q) s)))"
    using assms(3,4) unfolding reachable_def by (intro history.call) simp_all
  then have inv: "erasure_inv cfg content (db s1)" using assms(2,5) by (intro reachable_inv) simp_all
  have "sr_attempts r \<noteq> 0xFFFF" if "current cfg q (db s) = Some r" for r
  proof -
    from that have "r \<in> set (suppressions (db s))"
      by (auto simp: current_def privacy_request_row_def dest: newest_Some split: option.splits)
    with assms(6) show ?thesis by blast
  qed
  note lease = assms(2) reachable_inv [OF assms(2,3)] assms(4,5) this assms(7) inv
  from assms(1) have cut: "exec_time cfg t = truncate_to t second" for t by (simp add: second_driver_def)
  show ?thesis using claim_excludes [OF lease] claim_regained [OF lease] unfolding cut by auto
qed

lemma sample_claim:
  "\<exists>q s'. known_work store_cfg q (db sample_requested) \<and> claim_privacy_request store_cfg q sample_requested = (Inr True, s') \<and> undisturbed s'"
proof -
  let ?r = "sample_row (clock sample_stored (ticks sample_stored))"
  let ?t = "truncate_to (clock sample_requested (ticks sample_requested)) millisecond"
  note f = sample_requested_facts
  from reachable_inv [OF store_cfg_good f(3)] have inv: "erasure_inv store_cfg (\<lambda>_. sample_batch) (db sample_requested)" .
  then have ok: "requests_ok store_cfg (db sample_requested)" by (simp add: erasure_inv_def)
  then have "request_ok store_cfg ?r" by (simp add: requests_ok_def f(1))
  from scan_request_ok [OF this] obtain q where q: "scan_request store_cfg ?r = Inr q" "pq_attempts q = sr_attempts ?r" by blast
  have "q\<lparr>pq_attempts := pq_attempts q\<rparr> = q" by (cases q) simp
  with q have known: "known_work store_cfg q (db sample_requested)" unfolding known_work_def f(1) by simp
  have lib: "uuid_round_trip (uuids store_cfg)" using store_cfg_good by (simp add: good_driver_def)
  have cur: "current store_cfg q (db sample_requested) = Some ?r"
    by (rule current_known [OF lib ok known]) (simp add: f(1))
  have due: "due ?t ?r" using pending_rows_facts(2) [of ?r ?t 100 "db sample_requested"] unfolding sample_due(2) by simp
  have "0 < millisecond" by (simp add: duration_defs)
  from truncate_to_le [OF this] sample_due(1) have "ready_from ?t sample_requested"
    by (auto simp: ready_from_def intro: order_trans)
  from claim_returns [OF store_cfg_good inv known cur due_claimable [OF due this] f(2)] show ?thesis
    using known f(2) later_undisturbed by blast
qed

theorem lease_excludes_witness:
  "\<exists>q s'. claim_privacy_request store_cfg q sample_requested = (Inr True, s')
    \<and> fst (claim_privacy_request store_cfg q (sample_requested\<lparr>db := db s'\<rparr>)) \<noteq> Inr True
    \<and> fst (claim_privacy_request store_cfg q (sample_requested\<lparr>db := db s',
          clock := \<lambda>_. clock sample_requested (ticks sample_requested) + 5 * minute + 1\<rparr>)) = Inr True"
proof -
  note f = sample_requested_facts
  let ?t = "clock sample_requested (ticks sample_requested)"
  from sample_claim obtain q s' where q: "known_work store_cfg q (db sample_requested)"
    "claim_privacy_request store_cfg q sample_requested = (Inr True, s')" by blast
  have "\<forall>r \<in> set (suppressions (db sample_requested)). sr_attempts r \<noteq> 0xFFFF" by (simp add: f(1) sample_row_simps)
  note lease = lease_excludes [OF store_cfg_seconds store_cfg_good f(3) q this]
  have "?t \<le> truncate_to (?t + 5 * minute) second"
    using truncate_to_gt [of second "?t + 5 * minute"] by (simp add: duration_defs)
  then have "fst (claim_privacy_request store_cfg q (sample_requested\<lparr>db := db s'\<rparr>)) \<noteq> Inr True"
    using lease [of "sample_requested\<lparr>db := db s'\<rparr>"] by simp
  moreover have "\<not> ?t + 5 * minute + 1 \<le> truncate_to (?t + 5 * minute) second"
    using truncate_to_le [of second "?t + 5 * minute"] by (simp add: duration_defs)
  moreover have "undisturbed (sample_requested\<lparr>db := db s', clock := \<lambda>_. ?t + 5 * minute + 1\<rparr>)"
    using f(2) by (simp add: undisturbed_def)
  ultimately show ?thesis
    using q(2) lease [of "sample_requested\<lparr>db := db s', clock := \<lambda>_. ?t + 5 * minute + 1\<rparr>"] by fastforce
qed

text \<open>
  C27. The outcome written last is the state of the request, whatever attempt it is of: with times
  bound in whole seconds, a completion, retry or failure written for any of the first 249 attempts
  becomes the newest row, also in place of a later attempt that has been claimed or completed since.
  The order that privacyStatusVersion gives to attempts and phases does not reach the table.
\<close>

theorem last_outcome_wins:
  assumes "second_driver cfg" and "good_driver cfg" and "reachable cfg content (db s)" and "known_work cfg q (db s)"
    and "current cfg q (db s) = Some r" and "sr_attempts r < 250" and "pq_attempts q < 250"
    and "m = complete_privacy_request cfg q \<and> st = ''completed''
      \<or> (\<exists>code n. m = retry_privacy_request cfg q code n \<and> st = (if n \<le> uint (pq_attempts q) then ''failed'' else ''retry''))"
    and "m s = (Inr u, s')"
  shows "\<exists>x. current cfg q (db s') = Some x \<and> sr_attempts x = pq_attempts q \<and> sr_status x = st"
proof -
  from assms(8) have "outcome_of cfg q m st" by (simp add: outcome_of_def)
  from outcome_replaces [OF assms(1,2) reachable_inv [OF assms(2,3)] assms(4-7) this assms(9)] show ?thesis .
qed

text \<open>
  Two workers: the lease of the first ends, the second claims the request, and the retry of the first
  takes its place.
\<close>

lemma claim_reachable:
  assumes "reachable cfg content (db s)" and "known_work cfg q (db s)" and "claim_privacy_request cfg q s = (r, s')"
  shows "reachable cfg content (db s')"
proof -
  have "reachable cfg content (db (snd (run_call cfg content (ClaimRequest q) s)))"
    using assms(1,2) unfolding reachable_def by (intro history.call) simp_all
  with assms(3) show ?thesis by simp
qed

lemma claim_known:
  assumes "claim_privacy_request cfg q s = (r, s')" and "good_driver cfg" and "reachable cfg content (db s)"
    and known: "known_work cfg q (db s)"
  shows "known_work cfg q (db s')"
proof (rule known_work_mono [OF known])
  have "safe cfg content (set (suppressions (db s))) (db s)"
    using reachable_inv [OF assms(2,3)] by (simp add: safe_def)
  from keepsD [OF keeps_claim [OF assms(2) known [unfolded known_in_work]] this] assms(1)
  show "set (suppressions (db s)) \<subseteq> set (suppressions (db s'))" by (simp add: safe_def)
qed

lemma sample_two_claims:
  "\<exists>q s x. reachable store_cfg (\<lambda>_. sample_batch) (db s) \<and> known_work store_cfg q (db s) \<and> undisturbed s
    \<and> current store_cfg q (db s) = Some x \<and> sr_status x = ''processing'' \<and> sr_attempts x = 2"
proof -
  note f = sample_requested_facts
  from sample_claim obtain q s' where q: "known_work store_cfg q (db sample_requested)"
    "claim_privacy_request store_cfg q sample_requested = (Inr True, s')" "undisturbed s'" by blast
  let ?t = "clock sample_requested (ticks sample_requested)" and ?s = "s'\<lparr>clock := \<lambda>_. clock sample_requested (ticks sample_requested) + hour\<rparr>"
  from reachable_inv [OF store_cfg_good f(3)] have inv: "erasure_inv store_cfg (\<lambda>_. sample_batch) (db sample_requested)" .
  obtain r x where x: "current store_cfg q (db sample_requested) = Some r" "sr_status x = ''processing''"
    "sr_attempts x = sr_attempts r + 1" "sr_lease_until x = Some (exec_time store_cfg (?t + 5 * minute))"
    "sr_attempts r \<noteq> 0xFFFF \<longrightarrow> current store_cfg q (db s') = Some x"
    by (rule claim_won [OF store_cfg_good inv q(1,2)])
  from x(1) have "r \<in> set (suppressions (db sample_requested))"
    by (auto simp: current_def privacy_request_row_def dest: newest_Some split: option.splits)
  then have a: "sr_attempts r = 0" by (simp add: f(1) sample_row_simps)
  then have cur: "current store_cfg q (db ?s) = Some x" using x(5) by simp
  have reach: "reachable store_cfg (\<lambda>_. sample_batch) (db ?s)" and known: "known_work store_cfg q (db ?s)"
    using claim_reachable [OF f(3) q(1,2)] claim_known [OF q(2) store_cfg_good f(3) q(1)] by simp_all
  note inv' = reachable_inv [OF store_cfg_good reach]
  have "truncate_to (?t + 5 * minute) second \<le> ?t + 5 * minute" by (rule truncate_to_le) (simp add: duration_defs)
  then have due: "claimable (?t + hour) x" using x(2,4) by (simp add: claimable_def store_cfg_def) (simp add: duration_defs)
  have go: "undisturbed ?s" using q(3) by (simp add: undisturbed_def)
  obtain s2 where s2: "claim_privacy_request store_cfg q ?s = (Inr True, s2)" "later ?s s2"
    using claim_returns [OF store_cfg_good inv' known cur _ go] due by auto
  obtain r' x' where x': "current store_cfg q (db ?s) = Some r'" "sr_status x' = ''processing''"
    "sr_attempts x' = sr_attempts r' + 1" "sr_attempts r' \<noteq> 0xFFFF \<longrightarrow> current store_cfg q (db s2) = Some x'"
    by (rule claim_won [OF store_cfg_good inv' known s2(1)])
  from x'(1) cur have "sr_attempts r' = 1" using x(3) a by simp
  with x'(2-4) show ?thesis
    using claim_reachable [OF reach known s2(1)] claim_known [OF s2(1) store_cfg_good reach known] later_undisturbed [OF s2(2) go]
    by (intro exI [of _ q] exI [of _ s2] exI [of _ x']) simp
qed

theorem last_outcome_wins_witness:
  "\<exists>q s s' r x. current store_cfg q (db s) = Some r \<and> sr_status r = ''processing'' \<and> sr_attempts r = 2
    \<and> retry_privacy_request store_cfg q ''processing_failed'' 10 s = (Inr (), s')
    \<and> current store_cfg q (db s') = Some x \<and> sr_status x = ''retry'' \<and> sr_attempts x = 1"
proof -
  from sample_two_claims obtain q s r where s: "reachable store_cfg (\<lambda>_. sample_batch) (db s)" "known_work store_cfg q (db s)"
    "undisturbed s" "current store_cfg q (db s) = Some r" "sr_status r = ''processing''" "sr_attempts r = 2" by blast
  let ?q = "q\<lparr>pq_attempts := 1\<rparr>" and ?m = "retry_privacy_request store_cfg (q\<lparr>pq_attempts := 1\<rparr>) ''processing_failed'' 10"
  have known: "known_work store_cfg ?q (db s)" "current store_cfg ?q (db s) = Some r" using s(2,4) by simp_all
  from reachable_inv [OF store_cfg_good s(1)] have ok: "requests_ok store_cfg (db s)" by (simp add: erasure_inv_def)
  have lib: "uuid_round_trip (uuids store_cfg)" using store_cfg_good by (simp add: good_driver_def)
  obtain rid legacy where p: "must_parse store_cfg (pq_request_id ?q) = Inr rid" "legacy_value store_cfg ?q = Inr legacy"
    by (rule current_known [OF lib ok known(1)])
  have "runs (\<lambda>_. True) ?m (\<lambda>_ _. True)"
    unfolding retry_privacy_request_def Let_def
    by (rule runs_seq [OF runs_insert_status [OF p] runs_pre [OF runs_time_now]]) simp
  from runsE [OF this TrueI s(3)] obtain s' where m: "?m s = (Inr (), s')" by auto
  have "\<exists>x. current store_cfg ?q (db s') = Some x \<and> sr_attempts x = pq_attempts ?q \<and> sr_status x = ''retry''"
    by (rule last_outcome_wins [where m = ?m, OF store_cfg_seconds store_cfg_good s(1) known _ _ _ m])
      (use s(6) in \<open>auto intro!: exI [of _ "''processing_failed''"] exI [of _ "10 :: int"]\<close>)
  then obtain x where "current store_cfg q (db s') = Some x" "sr_attempts x = 1" "sr_status x = ''retry''" by auto
  with m known(2) s(5,6) show ?thesis
    by (intro exI [of _ ?q] exI [of _ s] exI [of _ s'] exI [of _ r] exI [of _ x]) simp
qed

text \<open>
  Before they are bound, the versions of the status rows of a request are ordered by the attempt
  first and by the phase (claimed, then retried or failed, then completed) second, for all 65536
  attempts: the time units of one attempt never reach into the next one.
\<close>

theorem versions_ordered:
  "privacy_status_version q st a < privacy_status_version q st' b \<longleftrightarrow>
     a < b \<or> a = b \<and> status_phase st < status_phase st'"
proof (cases a b rule: linorder_cases)
  case equal
  then show ?thesis by (simp add: privacy_status_version_def duration_defs)
next
  case less
  with version_attempts [OF this, of q st st'] show ?thesis by simp
next
  case greater
  with version_attempts [OF this, of q st' st] show ?thesis by (auto dest: less_asym)
qed

text \<open>
  C40. A retry waits a second after the first attempt and twice as long after each further one, up to
  the 128 seconds of the eighth, whatever the 16-bit attempt is: the shift never overflows.
\<close>

theorem retry_delay_bounds:
  "privacy_retry_delay a = 2 ^ (min (max (unat a) 1) 8 - 1) * second
   \<and> second \<le> privacy_retry_delay a \<and> privacy_retry_delay a \<le> 128 * second"
proof -
  have "min (max (unat a) 1) 8 - 1 \<le> 7" by simp
  then have "(1::int) \<le> 2 ^ (min (max (unat a) 1) 8 - 1)" "(2::int) ^ (min (max (unat a) 1) 8 - 1) \<le> 2 ^ 7"
    by (simp, intro power_increasing) simp_all
  moreover have "0 \<le> second" by (simp add: duration_defs)
  ultimately have "1 * second \<le> 2 ^ (min (max (unat a) 1) 8 - 1) * second \<and> 2 ^ (min (max (unat a) 1) 8 - 1) * second \<le> 2 ^ 7 * second"
    by (intro conjI mult_right_mono)
  then show ?thesis unfolding retry_delay by simp
qed

end
