(* ===== verification/Go_Json_Encode.thy ===== *)
theory Go_Json_Encode
  imports Go_Json
begin

section \<open>encoding/json: the encoder\<close>

text \<open>
  \<open>json_text\<close> is what json.Marshal writes for a value: no white space, strings quoted with the
  escapes of the default encoder, which also escapes the characters that matter to HTML. The
  members of a map come sorted by their keys, those of a struct in the order of its fields; here
  they are in the order in which the caller lists them. \<open>lex_json_text\<close>: for values of ASCII
  strings and integers (\<open>plain\<close>), the scanner reads back exactly the lexemes of the value.
\<close>

definition rune_escape :: "nat \<Rightarrow> string" where
  "rune_escape n = CHR 0x5C # ''u00'' @ [hex_digit (n div 16), hex_digit (n mod 16)]"

definition quoted_ascii :: "char \<Rightarrow> string" where
  "quoted_ascii c =
     (let n = of_char c :: nat in
      if c = CHR 0x22 \<or> c = CHR 0x5C then [CHR 0x5C, c]
      else if c = CHR 0x08 then (CHR 0x5C # ''b'') else if c = CHR 0x0C then (CHR 0x5C # ''f'')
      else if c = CHR 0x0A then (CHR 0x5C # ''n'') else if c = CHR 0x0D then (CHR 0x5C # ''r'') else if c = CHR 0x09 then (CHR 0x5C # ''t'')
      else if n < 32 \<or> c = CHR ''<'' \<or> c = CHR ''>'' \<or> c = CHR ''&'' then rune_escape n
      else [c])"

function quoted :: "string \<Rightarrow> string" where
  "quoted [] = []"
| "quoted (c # r) =
     (let n = utf8_length (c # r) in
      if (of_char c :: nat) < 128 then quoted_ascii c @ quoted r
      else if n = 0 then (CHR 0x5C # ''ufffd'') @ quoted r
      else if take n (c # r) = [CHR 0xE2, CHR 0x80, CHR 0xA8] then (CHR 0x5C # ''u2028'') @ quoted (drop (n - 1) r)
      else if take n (c # r) = [CHR 0xE2, CHR 0x80, CHR 0xA9] then (CHR 0x5C # ''u2029'') @ quoted (drop (n - 1) r)
      else take n (c # r) @ quoted (drop (n - 1) r))"
  by pat_completeness auto
termination
  by (relation "measure length") auto

definition json_string :: "string \<Rightarrow> string" where
  "json_string x = CHR 0x22 # quoted x @ [CHR 0x22]"

fun json_text :: "json \<Rightarrow> string"
  and json_elems_text :: "json list \<Rightarrow> string"
  and json_more_text :: "json list \<Rightarrow> string"
  and json_members_text :: "(string \<times> json) list \<Rightarrow> string"
  and json_more_members_text :: "(string \<times> json) list \<Rightarrow> string" where
  "json_text JNull = ''null''"
| "json_text (JBool b) = (if b then ''true'' else ''false'')"
| "json_text (JNum l) = l"
| "json_text (JStr x) = json_string x"
| "json_text (JArr vs) = ''['' @ json_elems_text vs @ '']''"
| "json_text (JObj ms) = ''{'' @ json_members_text ms @ ''}''"
| "json_elems_text [] = []"
| "json_elems_text (v # vs) = json_text v @ json_more_text vs"
| "json_more_text [] = []"
| "json_more_text (v # vs) = '','' @ json_text v @ json_more_text vs"
| "json_members_text [] = []"
| "json_members_text ((k, v) # ms) = json_string k @ '':'' @ json_text v @ json_more_members_text ms"
| "json_more_members_text [] = []"
| "json_more_members_text ((k, v) # ms) = '','' @ json_string k @ '':'' @ json_text v @ json_more_members_text ms"

subsection \<open>Reading back\<close>

definition ascii :: "string \<Rightarrow> bool" where
  "ascii s \<longleftrightarrow> list_all (\<lambda>c. (of_char c :: nat) < 128) s"

lemma ascii_Cons [simp]: "ascii (c # s) \<longleftrightarrow> (of_char c :: nat) < 128 \<and> ascii s"
  by (simp add: ascii_def)

lemma ascii_Nil [simp]: "ascii []"
  by (simp add: ascii_def)

lemma ascii_append: "ascii (x @ y) \<longleftrightarrow> ascii x \<and> ascii y"
  by (simp add: ascii_def)

fun plain :: "json \<Rightarrow> bool" where
  "plain (JNum l) = (\<exists>i. l = format_int i)"
| "plain (JStr x) = ascii x"
| "plain (JArr vs) = list_all plain vs"
| "plain (JObj ms) = list_all (\<lambda>m. ascii (fst m) \<and> plain (snd m)) ms"
| "plain v = True"

lemma rune_escape_lex:
  "n < 128 \<Longrightarrow> lex_string (rune_escape n @ s) = prepend [char_of n] (lex_string s)"
proof -
  assume n: "n < 128"
  have "hex4 (''00'' @ hex_digit (n div 16) # hex_digit (n mod 16) # s) = Some n"
    using n by (simp add: hex_val_def [of "CHR ''0''"])
  then show ?thesis using n by (simp add: rune_escape_def unicode_escape_def encode_rune_def)
qed

lemma quoted_ascii_lex:
  assumes "(of_char c :: nat) < 128"
  shows "lex_string (quoted_ascii c @ s) = prepend [c] (lex_string s)"
proof -
  let ?n = "of_char c :: nat"
  have esc: "lex_string (rune_escape ?n @ s) = prepend [c] (lex_string s)"
    using rune_escape_lex [OF assms] by simp
  consider "c \<in> {CHR 0x22, CHR 0x5C, CHR 0x08, CHR 0x0C, CHR 0x0A, CHR 0x0D, CHR 0x09}"
    | "c \<notin> {CHR 0x22, CHR 0x5C, CHR 0x08, CHR 0x0C, CHR 0x0A, CHR 0x0D, CHR 0x09}" by blast
  then show ?thesis
  proof cases
    case 1
    then show ?thesis by (auto simp: quoted_ascii_def simple_escape_def)
  next
    case 2
    then show ?thesis using esc assms by (auto simp: quoted_ascii_def Let_def)
  qed
qed

lemma quoted_lex: "ascii x \<Longrightarrow> lex_string (quoted x @ CHR 0x22 # r) = Some (x, r)"
proof (induction x)
  case (Cons c x)
  then have "(of_char c :: nat) < 128" "lex_string (quoted x @ CHR 0x22 # r) = Some (x, r)"
    by (simp_all add: ascii_def)
  then show ?case
    using quoted_ascii_lex [of c "quoted x @ CHR 0x22 # r"] by (simp add: Let_def prepend_def)
qed simp

definition delimited :: "string \<Rightarrow> bool" where
  "delimited r \<longleftrightarrow> r = [] \<or> List.member [CHR '','', CHR '']'', CHR ''}'', CHR 0x0A] (hd r)"

lemma delimited_not: "delimited r \<Longrightarrow> r \<noteq> [] \<Longrightarrow>
    \<not> is_digit (hd r) \<and> hd r \<noteq> CHR ''.'' \<and> hd r \<noteq> CHR ''e'' \<and> hd r \<noteq> CHR ''E''"
  by (auto simp: delimited_def is_digit_def)

lemma format_digits_zero: "0 \<le> n \<Longrightarrow> hd (format_digits n) = CHR ''0'' \<Longrightarrow> n = 0"
proof (induction n rule: format_digits.induct)
  case (1 n)
  show ?case
  proof (cases "n < 10")
    case True
    with 1(2,3) have "digit_char n = CHR ''0''" by (simp add: format_digits.simps [of n])
    then have "digit_val (digit_char n) = digit_val CHR ''0''" by simp
    also have "digit_val CHR ''0'' = 0" by code_simp
    finally show ?thesis using True 1(2) by simp
  next
    case False
    have pos: "0 \<le> n div 10" using 1(2) by (simp add: pos_imp_zdiv_nonneg_iff)
    from format_digits_hd [OF this] obtain d ds where d: "format_digits (n div 10) = d # ds" by blast
    with 1(3) False have "d = CHR ''0''" by (simp add: format_digits.simps [of n])
    with 1(1) [OF False pos] d have "n div 10 = 0" by simp
    with False 1(2) show ?thesis by simp
  qed
qed

lemma takeWhile_format: "0 \<le> n \<Longrightarrow> delimited r \<Longrightarrow> takeWhile is_digit (format_digits n @ r) = format_digits n"
  using format_digits_digits [of n] delimited_not [of r]
  by (cases r) (auto simp: takeWhile_append list_all_iff)

lemma number_format: "delimited r \<Longrightarrow> number_literal (format_int i @ r) = Some (format_int i)"
proof -
  assume r: "delimited r"
  have int: "integer_part (format_digits n @ r) = Some (format_digits n)" if n: "0 \<le> n" for n
  proof -
    have "take 1 (format_digits n) = format_digits n" if "hd (format_digits n) = CHR ''0''"
      using format_digits_zero [OF n that] by (simp add: format_digits.simps [of 0])
    then show ?thesis using format_digits_digits [OF n] by (auto simp: integer_part_def takeWhile_format [OF n r] Let_def)
  qed
  have tail: "fraction_part r = Some []" "exponent_part r = Some []"
    using delimited_not [OF r] by (auto simp: fraction_part_def exponent_part_def)
  have "hd (format_digits n @ r) \<noteq> CHR ''-''" "format_digits n \<noteq> []" if "0 \<le> n" for n
    using format_digits_hd [OF that] is_digit_signs by (auto simp: is_digit_def)
  then show ?thesis
    using int [of "- i"] int [of i] tail by (cases "i < 0") (simp_all add: number_literal_def format_int_def Let_def)
qed

lemma lex_step: "\<not> json_space c \<Longrightarrow> next_lexeme (c # s) = Some (l, r) \<Longrightarrow> lex (c # s) = map_option (Cons l) (lex r)"
  by simp

lemma not_space: "\<not> json_space c" if "c \<in> set ''{}[]:,tfn-'' \<union> {CHR 0x22}"
  using that by (auto simp: json_space_def)

lemma lex_marks:
  "lex (CHR ''{'' # r) = map_option (Cons LBrace) (lex r)" "lex (CHR ''}'' # r) = map_option (Cons RBrace) (lex r)"
  "lex (CHR ''['' # r) = map_option (Cons LBrack) (lex r)" "lex (CHR '']'' # r) = map_option (Cons RBrack) (lex r)"
  "lex (CHR '':'' # r) = map_option (Cons Colon) (lex r)" "lex (CHR '','' # r) = map_option (Cons Comma) (lex r)"
  by (rule lex_step; simp add: not_space next_lexeme_def)+

lemma lex_words:
  "lex (''true'' @ r) = map_option (Cons LTrue) (lex r)" "lex (''false'' @ r) = map_option (Cons LFalse) (lex r)"
  "lex (''null'' @ r) = map_option (Cons LNull) (lex r)"
  by (simp only: append_Cons append_Nil, rule lex_step; simp add: not_space next_lexeme_def has_prefix_def)+

lemma lex_json_string: "ascii x \<Longrightarrow> lex (json_string x @ r) = map_option (Cons (LStr x)) (lex r)"
  unfolding json_string_def append_Cons append_assoc
  by (rule lex_step) (simp_all add: not_space next_lexeme_def quoted_lex)

lemma format_int_hd: "\<exists>c s. format_int i = c # s \<and> (is_digit c \<or> c = CHR ''-'')"
  using format_digits_hd [of i] by (cases "i < 0") (auto simp: format_int_def)

lemma number_start:
  assumes "is_digit c \<or> c = CHR ''-''"
  shows "\<not> json_space c" "c \<notin> set ''{}[]:,tfn'' \<union> {CHR 0x22}"
  using assms by (auto simp: is_digit_def json_space_def)

lemma lex_format:
  assumes "delimited r"
  shows "lex (format_int i @ r) = map_option (Cons (LNum (format_int i))) (lex r)"
proof -
  obtain c s where c: "format_int i = c # s" "is_digit c \<or> c = CHR ''-''" using format_int_hd by blast
  note start = number_start [OF c(2)]
  have "next_lexeme (c # s @ r) = Some (LNum (c # s), r)"
    using start(2) number_format [OF assms, of i] by (simp add: next_lexeme_def has_prefix_def c(1))
  with start(1) show ?thesis by (simp add: c(1))
qed

lemma delimited_more: "delimited (json_more_text vs @ '']'' @ r)" "delimited (json_more_members_text ms @ ''}'' @ r)"
  by (cases vs; simp add: delimited_def) (cases ms; auto simp: delimited_def)

lemma lex_json_text:
  "plain v \<Longrightarrow> delimited r \<Longrightarrow> lex (json_text v @ r) = map_option (append (render v)) (lex r)"
  "list_all plain vs \<Longrightarrow> lex (json_elems_text vs @ '']'' @ r) = map_option (\<lambda>ls. render_elems vs @ RBrack # ls) (lex r)"
  "list_all plain vs \<Longrightarrow> lex (json_more_text vs @ '']'' @ r) = map_option (\<lambda>ls. render_more vs @ RBrack # ls) (lex r)"
  "list_all (\<lambda>m. ascii (fst m) \<and> plain (snd m)) ms \<Longrightarrow>
    lex (json_members_text ms @ ''}'' @ r) = map_option (\<lambda>ls. render_members ms @ RBrace # ls) (lex r)"
  "list_all (\<lambda>m. ascii (fst m) \<and> plain (snd m)) ms \<Longrightarrow>
    lex (json_more_members_text ms @ ''}'' @ r) = map_option (\<lambda>ls. render_more_members ms @ RBrace # ls) (lex r)"
proof (induction v and vs and vs and ms and ms arbitrary: r and r and r and r and r
    rule: json_text_json_elems_text_json_more_text_json_members_text_json_more_members_text.induct)
  case (2 b)
  then show ?case by (cases b) (simp_all only: json_text.simps lex_words if_True if_False, simp_all add: comp_def)
next
  case (3 l)
  then obtain i where "l = format_int i" by auto
  with 3(2) show ?case by (simp add: lex_format comp_def)
next
  case (4 x)
  then show ?case by (simp add: lex_json_string comp_def)
next
  case (5 vs)
  then show ?case by (simp add: lex_marks option.map_comp comp_def del: lex.simps(2))
next
  case (6 ms)
  then show ?case by (simp add: lex_marks option.map_comp comp_def del: lex.simps(2))
next
  case (8 v vs)
  then show ?case using delimited_more(1) [of vs r] by (simp add: option.map_comp comp_def)
next
  case (10 v vs)
  then show ?case using delimited_more(1) [of vs r] by (simp add: lex_marks option.map_comp comp_def del: lex.simps(2))
next
  case (12 k v ms)
  then show ?case using delimited_more(2) [of ms r] by (simp add: lex_json_string lex_marks option.map_comp comp_def del: lex.simps(2))
next
  case (14 k v ms)
  then show ?case using delimited_more(2) [of ms r] by (simp add: lex_json_string lex_marks option.map_comp comp_def del: lex.simps(2))
next
  case 1
  then show ?case by (simp only: json_text.simps lex_words) (simp add: comp_def)
qed (simp_all add: lex_marks comp_def del: lex.simps(2))

lemma lex_json: "plain v \<Longrightarrow> lex (json_text v) = Some (render v)"
  using lex_json_text(1) [of v "[]"] by (simp add: delimited_def)

end
