(* ===== verification/Go_Time_Format.thy ===== *)
theory Go_Time_Format
  imports Go_Time Go_Json
begin

section \<open>Instants as JSON text\<close>

text \<open>
  time.Time in UTC as encoding/json writes it: RFC 3339 with the fraction without trailing zeros,
  an error for a year that does not have four digits.
\<close>

text \<open>Year, month and day of a day since 1970-01-01, the inverse of \<open>days_from_civil\<close>.\<close>

definition civil_from_days :: "int \<Rightarrow> int \<times> int \<times> int" where
  "civil_from_days days =
     (let z = days + 719468; era = z div 146097; doe = z mod 146097;
          yoe = (doe - doe div 1460 + doe div 36524 - doe div 146096) div 365;
          doy = doe - (365 * yoe + yoe div 4 - yoe div 100); mp = (5 * doy + 2) div 153;
          m = (if mp < 10 then mp + 3 else mp - 9)
      in (yoe + era * 400 + (if m \<le> 2 then 1 else 0), m, doy - (153 * mp + 2) div 5 + 1))"

fun padded :: "nat \<Rightarrow> int \<Rightarrow> string" where
  "padded 0 n = []"
| "padded (Suc w) n = padded w (n div 10) @ [digit_char (n mod 10)]"

definition fraction_text :: "int \<Rightarrow> string" where
  "fraction_text ns = (if ns = 0 then [] else CHR ''.'' # rev (dropWhile (\<lambda>c. c = CHR ''0'') (rev (padded 9 ns))))"

definition format_rfc3339 :: "time \<Rightarrow> string option" where
  "format_rfc3339 t =
     (let days = t div day; rest = t mod day; (y, m, d) = civil_from_days days
      in if y < 0 \<or> y > 9999 then None
         else Some (padded 4 y @ ''-'' @ padded 2 m @ ''-'' @ padded 2 d @ ''T''
           @ padded 2 (rest div hour) @ '':'' @ padded 2 (rest mod hour div minute) @ '':''
           @ padded 2 (rest mod minute div second) @ fraction_text (rest mod second) @ ''Z''))"

lemma format_rfc3339_examples:
  "format_rfc3339 1784635200000000000 = Some ''2026-07-21T12:00:00Z''"
  "format_rfc3339 (1784635200000000000 + 120000000) = Some ''2026-07-21T12:00:00.12Z''"
  "format_rfc3339 (date_utc 2000 2 29 - 1) = Some ''2000-02-28T23:59:59.999999999Z''"
  by code_simp+

end
