(* ===== verification/Import_Legacy.thy ===== *)
theory Import_Legacy
  imports Store_V2 Go_Json_Encode Go_Time_Format
begin

section \<open>cmd/import-legacy: telemetry of the former products\<close>

text \<open>
  cmd/import-legacy/main.go. The importer reads one event per line, groups the events of a subject
  into batches and gives them to InsertV2. Its fields that change are the record \<open>importer\<close>, the
  others and what it does not own are \<open>import_config\<close>: the name-based UUIDs of google/uuid
  (\<open>new_sha1\<close>, of a namespace and a name), the store, and where the signal context is found
  cancelled (before a line, or while it pauses after a batch). The input is its bytes, which are
  read without an error. Where the source ranges over a Go map the order of the map literal is taken;
  it only decides which message is returned.
\<close>

definition max_import_batch :: nat where "max_import_batch = 500"

definition import_namespace :: string where
  "import_namespace = ''8a925f88-1ca2-4e34-a2af-745a3cc2e01f''"

definition safe_char :: "char \<Rightarrow> bool" where
  "safe_char c = (is_alnum c \<or> List.member ''._:+-'' c)"

definition safe_value :: "string \<Rightarrow> bool" where
  "safe_value = ident_string is_alnum safe_char 95"

definition safe_source_id :: "string \<Rightarrow> bool" where
  "safe_source_id = ident_string is_alnum safe_char 127"

definition source_products :: "(string \<times> string) list" where
  "source_products =
     [(''looks-sqlite'', LinkaLooks), (''firebase-pictures'', LinkaPictures), (''firebase-type'', LinkaType),
      (''yandex-metrika'', LinkaSite), (''tts-postgres'', LinkaTTS)]"

record source_event =
  se_source :: string
  se_source_record_id :: string
  se_source_subject :: string
  se_product :: string
  se_occurred_at :: string
  se_kind :: string
  se_app_version :: string
  se_app_build :: string
  se_platform :: string
  se_os_version :: string
  se_locale :: string
  se_occurred_at_time :: time

definition zero_source_event :: source_event where
  "zero_source_event = \<lparr>se_source = [], se_source_record_id = [], se_source_subject = [], se_product = [],
     se_occurred_at = [], se_kind = [], se_app_version = [], se_app_build = [], se_platform = [],
     se_os_version = [], se_locale = [], se_occurred_at_time = 0\<rparr>"

definition source_event_fields :: "(string \<times> source_event into) list" where
  "source_event_fields =
     [fld ''source'' se_source se_source_update into_string,
      fld ''source_record_id'' se_source_record_id se_source_record_id_update into_string,
      fld ''source_subject'' se_source_subject se_source_subject_update into_string,
      fld ''product'' se_product se_product_update into_string,
      fld ''occurred_at'' se_occurred_at se_occurred_at_update into_string,
      fld ''kind'' se_kind se_kind_update into_string,
      fld ''app_version'' se_app_version se_app_version_update into_string,
      fld ''app_build'' se_app_build se_app_build_update into_string,
      fld ''platform'' se_platform se_platform_update into_string,
      fld ''os_version'' se_os_version se_os_version_update into_string,
      fld ''locale'' se_locale se_locale_update into_string]"

text \<open>The layouts \<open>2006-01-02\<close> and \<open>2006-01-02T15:04:05.000Z07:00\<close>, of an instant in UTC.\<close>

definition format_date :: "time \<Rightarrow> string" where
  "format_date t = (case civil_from_days (t div day) of (y, m, d) \<Rightarrow> padded 4 y @ ''-'' @ padded 2 m @ ''-'' @ padded 2 d)"

definition format_millis :: "time \<Rightarrow> string" where
  "format_millis t =
     (let rest = t mod day
      in format_date t @ ''T'' @ padded 2 (rest div hour) @ '':'' @ padded 2 (rest mod hour div minute) @ '':''
         @ padded 2 (rest mod minute div second) @ ''.'' @ padded 3 (rest mod second div millisecond) @ ''Z'')"

subsection \<open>decodeEvent\<close>

text \<open>An empty optional field is replaced by its marker before it is checked.\<close>

definition or_marker :: "string \<Rightarrow> string \<Rightarrow> string" where
  "or_marker v marker = (if v = [] then marker else v)"

definition decode_event :: "string \<Rightarrow> source_event result" where
  "decode_event data =
     andthen (from_option (Err ''decode JSON'') (json_first data)) (\<lambda>v.
     andthen (from_option (Err ''decode JSON'') (into_struct source_event_fields v zero_source_event)) (\<lambda>event.
     andthen (from_option (Err ''unexpected data after JSON object'') (Option.bind (lex data) json_decode)) (\<lambda>_.
     reject (map_of source_products (se_source event) \<noteq> Some (se_product event)) (Err ''source is not registered for product'')
    (reject (\<not> safe_source_id (se_source_record_id event)
         \<or> length (se_source_subject event) < 1 \<or> length (se_source_subject event) > 256)
       (Err ''invalid source identifiers'')
    (reject (case lookup_product (se_product event) of None \<Rightarrow> True
         | Some sp \<Rightarrow> \<not> allows_stream sp StreamProduct \<or> \<not> allows_product_kind sp (se_kind event))
       (Err ''event kind is not registered for product'')
    (reject (\<not> safe_value (se_app_version event) \<or> \<not> safe_value (se_platform event)) (Err ''is unsafe or empty'')
    (let event = event\<lparr>se_app_build := or_marker (se_app_build event) (''import-'' @ se_source event),
         se_os_version := or_marker (se_os_version event) ''unknown'', se_locale := or_marker (se_locale event) ''unknown''\<rparr>
     in reject (\<not> safe_value (se_app_build event) \<or> \<not> safe_value (se_os_version event) \<or> \<not> safe_value (se_locale event))
          (Err ''is unsafe'')
    (case parse_rfc3339 (se_occurred_at event) of
       None \<Rightarrow> Inl (Err ''occurred_at is outside the supported RFC3339 range'')
     | Some parsed \<Rightarrow>
         reject (parsed < date_utc 2020 1 1 \<or> \<not> parsed < date_utc 2100 1 1)
           (Err ''occurred_at is outside the supported RFC3339 range'')
           (let t = truncate_to parsed millisecond
            in Inr (event\<lparr>se_occurred_at_time := t, se_occurred_at := format_millis t\<rparr>))))))))))"

subsection \<open>Identifiers\<close>

record 'u import_config =
  import_store :: "'u store_config"
  import_secret :: string
  dry_run :: bool
  batch_delay :: duration
  new_sha1 :: "string \<Rightarrow> string \<Rightarrow> string"
  cancelled_at :: "nat \<Rightarrow> bool"
  cancelled_pause :: "64 word \<Rightarrow> bool"

definition import_subject_key :: "'u import_config \<Rightarrow> string \<Rightarrow> string \<Rightarrow> string \<Rightarrow> string" where
  "import_subject_key cfg product source subject =
     hex_encode (hmac_sha256 (import_secret cfg) (product @ [CHR 0x00] @ source @ [CHR 0x00] @ subject))"

definition deterministic_id :: "'u import_config \<Rightarrow> string list \<Rightarrow> string" where
  "deterministic_id cfg parts = new_sha1 cfg import_namespace (join [CHR 0x00] parts)"

definition event_group :: "'u import_config \<Rightarrow> source_event \<Rightarrow> string" where
  "event_group cfg e = se_source e @ [CHR 0x00] @ se_product e @ [CHR 0x00]
     @ import_subject_key cfg (se_product e) (se_source e) (se_source_subject e)"

subsection \<open>buildBatch\<close>

text \<open>json.Marshal of a ProductBatch: the embedded header's fields first, absent keys left out.\<close>

definition app_json :: "app_metadata \<Rightarrow> json" where
  "app_json a = JObj [(''version'', JStr (app_version a)), (''build'', JStr (app_build a)), (''platform'', JStr (app_platform a)),
     (''os_version'', JStr (app_os_version a)), (''locale'', JStr (app_locale a))]"

definition product_record_json :: "product_record \<Rightarrow> json" where
  "product_record_json r = JObj [(''record_id'', JStr (record_id r)), (''occurred_at'', JStr (occurred_at r)),
     (''kind'', JStr (kind r)), (''app_session_id'', JStr (app_session_id r)), (''app'', app_json (app r))]"

definition optional_member :: "string \<Rightarrow> string option \<Rightarrow> (string \<times> json) list" where
  "optional_member name v = (case v of None \<Rightarrow> [] | Some s \<Rightarrow> [(name, JStr s)])"

definition scope_json :: "scope \<Rightarrow> json" where
  "scope_json sc = JObj ([(''product'', JStr (product_id sc)), (''subject_key'', JStr (subject_key sc))]
     @ optional_member ''person_key'' (person_key sc) @ optional_member ''org_key'' (org_key sc))"

definition product_batch_json :: "batch_header \<Rightarrow> product_record list \<Rightarrow> json" where
  "product_batch_json h records =
     JObj [(''schema_version'', JNum (format_int (schema_version h))), (''batch_id'', JStr (batch_id h)),
       (''scope'', scope_json (header_scope h)), (''stream'', JStr (stream h)), (''sent_at'', JStr (sent_at h)),
       (''records'', JArr (map product_record_json records))]"

definition import_record :: "'u import_config \<Rightarrow> source_event \<Rightarrow> product_record" where
  "import_record cfg e =
     \<lparr>record_id = deterministic_id cfg [''record'', se_source e, se_product e, se_source_record_id e],
      occurred_at = se_occurred_at e, kind = se_kind e,
      app_session_id = deterministic_id cfg
        [''session'', se_source e, se_product e, se_source_subject e, format_date (se_occurred_at_time e)],
      app = \<lparr>app_version = se_app_version e, app_build = se_app_build e, app_platform = se_platform e,
        app_os_version = se_os_version e, app_locale = se_locale e\<rparr>\<rparr>"

text \<open>The loop over the events: the records so far and the latest instant.\<close>

fun import_records :: "'u import_config \<Rightarrow> source_event \<Rightarrow> source_event list \<Rightarrow> time
    \<Rightarrow> (product_record validated list \<times> time) result" where
  "import_records cfg first [] sent = Inr ([], sent)"
| "import_records cfg first (e # es) sent =
     reject (se_source e \<noteq> se_source first \<or> se_product e \<noteq> se_product first \<or> se_source_subject e \<noteq> se_source_subject first)
       (Err ''batch contains multiple legacy subjects'')
     (let sent = (if se_occurred_at_time e > sent then se_occurred_at_time e else sent)
      in andthen (import_records cfg first es sent) (\<lambda>(vs, latest).
           Inr (\<lparr>the_record = import_record cfg e, occurred_at_time = se_occurred_at_time e\<rparr> # vs, latest)))"

definition build_batch :: "'u import_config \<Rightarrow> source_event list \<Rightarrow> (validated_batch \<times> string) result" where
  "build_batch cfg events =
     (case events of
        [] \<Rightarrow> Inl (Err ''cannot build an empty import batch'')
      | first # _ \<Rightarrow>
          let skey = import_subject_key cfg (se_product first) (se_source first) (se_source_subject first)
          in andthen (import_records cfg first events (se_occurred_at_time first)) (\<lambda>(vs, sent).
             let records = map the_record vs;
                 bid = deterministic_id cfg [''batch'', se_source first, se_product first, skey,
                   record_id (hd records), record_id (last records)];
                 h = \<lparr>schema_version = SchemaVersion, batch_id = bid,
                   header_scope = \<lparr>product_id = se_product first, subject_key = skey, person_key = None, org_key = None\<rparr>,
                   stream = StreamProduct, sent_at = format_millis sent\<rparr>
             in Inr (\<lparr>header = h, sent_at_time = sent,
                  product_key = (case lookup_product (se_product first) of None \<Rightarrow> [] | Some sp \<Rightarrow> opaque_key_of sp),
                  common_records = [], technical_records = [], plays_records = [], product_records = vs,
                  outcome_records = []\<rparr>, json_text (product_batch_json h records))))"

subsection \<open>flush and consume\<close>

record importer =
  imp_events :: "64 word"
  imp_batches :: "64 word"
  imp_replayed :: "64 word"
  current_key :: string
  current_events :: "source_event list"
  closed_keys :: "string list"

definition new_importer :: importer where
  "new_importer = \<lparr>imp_events = 0, imp_batches = 0, imp_replayed = 0, current_key = [], current_events = [], closed_keys = []\<rparr>"

definition context_canceled :: go_error where
  "context_canceled = Err ''context canceled''"

definition cleared :: "importer \<Rightarrow> importer" where
  "cleared i = i\<lparr>current_events := [], current_key := []\<rparr>"

definition flush_import :: "'u import_config \<Rightarrow> (importer \<times> 'u tables conn, unit) action" where
  "flush_import cfg = (\<lambda>(i, s).
     if current_events i = [] then (Inr (), (i, s))
     else (case build_batch cfg (current_events i) of
       Inl e \<Rightarrow> (Inl e, (i, s))
     | Inr (validated, body) \<Rightarrow>
         let i = i\<lparr>imp_batches := imp_batches i + 1\<rparr>
         in if dry_run cfg then (Inr (), (cleared i, s))
            else (case insert_v2 (import_store cfg) validated (body_sha256 body) s of
              (Inl e, s') \<Rightarrow> (Inl e, (i, s'))
            | (Inr r, s') \<Rightarrow>
                if result_replayed r then (Inr (), (cleared (i\<lparr>imp_replayed := imp_replayed i + 1\<rparr>), s'))
                else if batch_delay cfg > 0 \<and> cancelled_pause cfg (imp_batches i) then (Inl context_canceled, (i, s'))
                else (Inr (), (cleared i, s')))))"

text \<open>bufio.Scanner with ScanLines: the lines before one that does not fit the buffer, and whether there was one.\<close>

definition max_line :: nat where "max_line = 1024 * 1024"

definition drop_cr :: "string \<Rightarrow> string" where
  "drop_cr l = (if l \<noteq> [] \<and> last l = CHR 0x0D then butlast l else l)"

definition input_lines :: "string \<Rightarrow> string list" where
  "input_lines input = (let ls = split_on (CHR 0x0A) input in if last ls = [] then butlast ls else ls)"

definition scan_lines :: "string \<Rightarrow> string list \<times> bool" where
  "scan_lines input =
     (let ls = input_lines input; fits = takeWhile (\<lambda>l. length l < max_line) ls
      in (map drop_cr fits, length fits < length ls))"

text \<open>One turn of the loop, on the number of the line and its bytes.\<close>

definition close_group :: "'u import_config \<Rightarrow> string \<Rightarrow> (importer \<times> 'u tables conn, unit) action" where
  "close_group cfg key = (\<lambda>(i, s).
     if current_key i \<noteq> [] \<and> (key \<noteq> current_key i \<or> length (current_events i) = max_import_batch) then
       let previous = current_key i
       in seq (wrapping ''flush before line'' (flush_import cfg)) (\<lambda>_ (i, s).
            (Inr (), (if key \<noteq> previous then i\<lparr>closed_keys := previous # closed_keys i\<rparr> else i, s))) (i, s)
     else (Inr (), (i, s)))"

definition add_event :: "string \<Rightarrow> source_event \<Rightarrow> (importer \<times> 'u tables conn, unit) action" where
  "add_event key event = (\<lambda>(i, s).
     if List.member (closed_keys i) key then (Inl (Err ''input must be grouped by source_subject''), (i, s))
     else (Inr (), (i\<lparr>current_key := key, current_events := current_events i @ [event], imp_events := imp_events i + 1\<rparr>, s)))"

definition import_line :: "'u import_config \<Rightarrow> nat \<Rightarrow> string \<Rightarrow> (importer \<times> 'u tables conn, unit) action" where
  "import_line cfg line data =
     seq (fail_if (cancelled_at cfg line) context_canceled) (\<lambda>_.
     seq (wrapping ''line'' (lift (decode_event data))) (\<lambda>event.
     seq (close_group cfg (event_group cfg event)) (\<lambda>_.
     add_event (event_group cfg event) event)))"

fun import_lines :: "'u import_config \<Rightarrow> nat \<Rightarrow> string list \<Rightarrow> (importer \<times> 'u tables conn, unit) action" where
  "import_lines cfg line [] = ret ()"
| "import_lines cfg line (data # rest) =
     seq (import_line cfg (Suc line) data) (\<lambda>_. import_lines cfg (Suc line) rest)"

definition consume :: "'u import_config \<Rightarrow> string \<Rightarrow> (importer \<times> 'u tables conn, unit) action" where
  "consume cfg input =
     (case scan_lines input of (ls, too_long) \<Rightarrow>
        seq (import_lines cfg 0 ls) (\<lambda>_.
        seq (fail_if too_long (Wrapped ''scan input'' (Err ''bufio.Scanner: token too long''))) (\<lambda>_.
        flush_import cfg)))"

end
