(* ===== verification/Store_V2_Ledger.thy ===== *)
theory Store_V2_Ledger
  imports Store_V2_Retries
begin

section \<open>Completed batches stay completed\<close>

text \<open>
  InsertV2 on any store: once the newest ledger row of a batch ID says completed with a digest, no
  later call changes that, a call with that body replays it without a write, and a call that returns
  leaves its own batch completed. \<open>whole_ledger\<close>: the times of the ledger are such as binding produces,
  as those of every row that InsertV2 writes are.
\<close>

definition batch_completed :: "string \<Rightarrow> 'u \<Rightarrow> string \<Rightarrow> 'u tables \<Rightarrow> bool" where
  "batch_completed p u sha d \<longleftrightarrow>
     (\<exists>l. newest ledger_key lr_ingested_at (ingest_batches d) (p, u) = Some l
        \<and> lr_body_sha l = sha \<and> lr_status l = ''completed'')"

definition whole_ledger :: "'u store_config \<Rightarrow> 'u tables \<Rightarrow> bool" where
  "whole_ledger cfg d \<longleftrightarrow> (\<forall>l \<in> set (ingest_batches d). exec_time cfg (lr_ingested_at l) = lr_ingested_at l)"

subsection \<open>What the steps do to the ledger\<close>

lemma stream_keeps_ledger [triples]: "keeps (\<lambda>s. P (ingest_batches (db s))) (insert_stream_v2 cfg b t)"
  unfolding insert_stream_v2_def insert_common_v2_def insert_technical_v2_def insert_plays_v2_def
    insert_product_v2_def insert_outcome_v2_def Let_def
  by (auto intro!: triples keeps_prepare_and_send [where P = "\<lambda>d. P (ingest_batches d)"])

lemma register_keeps_ledger [triples]: "keeps (\<lambda>s. P (ingest_batches (db s))) (register_records_v2 cfg b sha t)"
  unfolding register_records_v2_def
  by (intro keeps_seq keeps_simps keeps_wrapping keeps_query [where P = "\<lambda>d. P (ingest_batches d)"]
      keeps_prepare_and_send [where P = "\<lambda>d. P (ingest_batches d)"]) auto

lemma other_key_kept:
  assumes "must_parse cfg (batch_id (header b)) = Inr v" and "(p, u) \<noteq> (product_id (header_scope (header b)), v)"
  shows "keeps (\<lambda>s. batch_completed p u sha (db s)) (insert_batch_ledger_v2 cfg b sha' t status)"
  unfolding insert_batch_ledger_v2_def assms(1) action_simps
  using assms(2)
  by (auto intro!: keeps_wrapping keeps_exec
      simp: batch_completed_def insert_rows_def newest_append take_Cons' split: option.splits)

lemma whole_kept:
  "ordered_driver cfg \<Longrightarrow> keeps (\<lambda>s. whole_ledger cfg (db s)) (insert_batch_ledger_v2 cfg b sha t status)"
  unfolding insert_batch_ledger_v2_def
  by (intro keeps_seq keeps_simps keeps_wrapping keeps_exec)
    (auto simp: whole_ledger_def ordered_driverD(2) dest!: subsetD [OF insert_rows_set])

lemma complete_kept:
  assumes "\<And>t status. keeps (\<lambda>s. P (ingest_batches (db s))) (insert_batch_ledger_v2 cfg b sha t status)"
  shows "keeps (\<lambda>s. P (ingest_batches (db s))) (complete_batch_v2 cfg b sha t)"
  unfolding complete_batch_v2_def Let_def
  by (intro triples assms keeps_time_now [where P = "\<lambda>d. P (ingest_batches d)"])

lemma insert_v2_kept:
  assumes "\<And>t status. keeps (\<lambda>s. P (ingest_batches (db s))) (insert_batch_ledger_v2 cfg b sha t status)"
  shows "keeps (\<lambda>s. P (ingest_batches (db s))) (insert_v2 cfg b sha)"
proof -
  note queries = keeps_query [where P = "\<lambda>d. P (ingest_batches d)"] keeps_time_now [where P = "\<lambda>d. P (ingest_batches d)"]
  have sup: "keeps (\<lambda>s. P (ingest_batches (db s))) (is_suppressed sc k)" for sc k
    unfolding is_suppressed_def by (intro triples queries)
  show ?thesis
    unfolding insert_v2_def batch_ledger_v2_def Let_def
    by (intro keeps_seq keeps_simps keeps_wrapping queries)
      (auto intro!: keeps_seq sup queries complete_kept assms keeps_simps split: option.splits)
qed

lemma seq_query:
  "seq (wrapping msg (query q)) k s =
     (case faults s (calls s) of
        Served \<Rightarrow> k (q (db s)) (s\<lparr>calls := Suc (calls s)\<rparr>)
      | Broken n \<Rightarrow> (Inl (Wrapped msg db_error), s\<lparr>calls := Suc (calls s)\<rparr>))"
  by (simp add: seq_def wrapping_def wrap_def query_def split: fault.splits)

subsection \<open>InsertV2 on a completed batch, and when it returns\<close>

lemma insert_v2_replays:
  assumes "must_parse cfg (batch_id (header b)) = Inr u"
    and "batch_completed (product_id (header_scope (header b))) u sha (db s)"
  shows "insert_v2 cfg b sha s =
    (case faults s (calls s) of
       Served \<Rightarrow> (Inr \<lparr>result_count = record_count b, result_replayed = True\<rparr>, s\<lparr>calls := Suc (calls s)\<rparr>)
     | Broken n \<Rightarrow> (Inl (Wrapped ''query v2 batch ledger'' db_error), s\<lparr>calls := Suc (calls s)\<rparr>))"
  using assms
  by (auto simp: insert_v2_def batch_ledger_v2_def Let_def seq_query batch_completed_def split: fault.splits)

lemma insert_v2_conflicts:
  assumes "must_parse cfg (batch_id (header b)) = Inr u"
    and "batch_completed (product_id (header_scope (header b))) u sha (db s)" and "sha \<noteq> sha'"
  shows "db (snd (insert_v2 cfg b sha' s)) = db s"
  using assms
  by (auto simp: insert_v2_def batch_ledger_v2_def Let_def seq_query batch_completed_def split: fault.splits)

lemma insert_v2_keeps_completed: "keeps (\<lambda>s. batch_completed p u sha (db s)) (insert_v2 cfg b sha')"
proof (cases "must_parse cfg (batch_id (header b))")
  case (Inl e)
  then show ?thesis by (auto intro!: keepsI simp: insert_v2_def batch_ledger_v2_def Let_def)
next
  case (Inr v)
  show ?thesis
  proof (cases "(p, u) = (product_id (header_scope (header b)), v)")
    case True
    have "db (snd (insert_v2 cfg b sha' s)) = db s" if "batch_completed p u sha (db s)" for s
      using that Inr True insert_v2_replays [of cfg b u sha s] insert_v2_conflicts [of cfg b u sha s sha']
      by (cases "sha = sha'") (auto split: fault.splits)
    then show ?thesis by (auto intro!: keepsI)
  next
    case False
    show ?thesis
      using insert_v2_kept [where P = "\<lambda>t. batch_completed p u sha (no_rows\<lparr>ingest_batches := t\<rparr>)" and cfg = cfg and b = b and sha = sha']
        other_key_kept [OF Inr False] by (simp add: batch_completed_def)
  qed
qed

lemma insert_v2_keeps_whole: "ordered_driver cfg \<Longrightarrow> keeps (\<lambda>s. whole_ledger cfg (db s)) (insert_v2 cfg b sha)"
  using insert_v2_kept [where P = "\<lambda>t. whole_ledger cfg (no_rows\<lparr>ingest_batches := t\<rparr>)" and cfg = cfg and b = b and sha = sha]
    whole_kept [of cfg b sha] by (simp add: whole_ledger_def)

definition reserved_by ::
  "'u store_config \<Rightarrow> validated_batch \<Rightarrow> 'u \<Rightarrow> time \<Rightarrow> 'u ledger_row list \<Rightarrow> bool" where
  "reserved_by cfg b u t rows \<longleftrightarrow>
     opt_all (\<lambda>l. lr_ingested_at l \<le> exec_time cfg t)
       (newest ledger_key lr_ingested_at rows (product_id (header_scope (header b)), u))"

lemma ledger_row_newest:
  assumes "ordered_driver cfg" and "must_parse cfg (batch_id (header b)) = Inr u" and "t \<le> t2"
  shows "valid (\<lambda>s. reserved_by cfg b u t (ingest_batches (db s)))
    (insert_batch_ledger_v2 cfg b sha t2 status)
    (\<lambda>_ s. reserved_by cfg b u t2 (ingest_batches (db s))
       \<and> (status = ''completed'' \<longrightarrow> batch_completed (product_id (header_scope (header b))) u sha (db s)))
    (\<lambda>_ _. True)"
  using ordered_driverD(1) [OF assms(1,3)]
  unfolding insert_batch_ledger_v2_def assms(2) action_simps
  by (intro valid_pre [OF valid_wrapping [OF valid_exec]])
    (auto simp: reserved_by_def batch_completed_def newest_append opt_all_def split: option.splits)

lemma valid_kept: "keeps P m \<Longrightarrow> valid P m (\<lambda>_. P) (\<lambda>_ _. True)"
  unfolding keeps_def by (erule valid_post) auto

lemma valid_unless: "valid P m Q (\<lambda>_ _. True) \<Longrightarrow> valid P (if x then fail e else m) Q (\<lambda>_ _. True)"
  by (cases x) (simp_all add: valid_def)

lemma complete_completes:
  assumes "ordered_driver cfg" and "must_parse cfg (batch_id (header b)) = Inr u"
  shows "valid (\<lambda>s. reserved_by cfg b u t (ingest_batches (db s))) (complete_batch_v2 cfg b sha t)
    (\<lambda>_ s. batch_completed (product_id (header_scope (header b))) u sha (db s)) (\<lambda>_ _. True)"
proof -
  have mark: "valid (\<lambda>s. reserved_by cfg b u t (ingest_batches (db s)))
      (insert_batch_ledger_v2 cfg b sha (completion_time t x) ''completed'')
      (\<lambda>_ s. batch_completed (product_id (header_scope (header b))) u sha (db s)) (\<lambda>_ _. True)" for x
    by (rule valid_post [OF ledger_row_newest [OF assms less_imp_le [OF completion_time_later]]]) simp_all
  show ?thesis
    unfolding complete_batch_v2_def Let_def completion_time_def [symmetric]
    by (intro valid_seq [OF _ valid_kept] valid_seq [OF _ mark] register_keeps_ledger stream_keeps_ledger
        keeps_time_now [where P = "\<lambda>d. reserved_by cfg b u t (ingest_batches d)"]) (simp add: valid_def)
qed

lemma insert_v2_completes:
  assumes ms: "ordered_driver cfg" and "whole_ledger cfg (db s)" and r: "insert_v2 cfg b sha s = (Inr r, s')"
  shows "\<exists>u. must_parse cfg (batch_id (header b)) = Inr u \<and> batch_completed (product_id (header_scope (header b))) u sha (db s')"
proof -
  let ?sup = "is_suppressed (header_scope (header b)) (product_key b)"
  from r obtain u where u: "must_parse cfg (batch_id (header b)) = Inr u"
    by (auto simp: insert_v2_def batch_ledger_v2_def Let_def result_simps)
  have sup: "valid (\<lambda>s. P (ingest_batches (db s))) ?sup (\<lambda>_ s. P (ingest_batches (db s))) (\<lambda>_ _. True)" for P
    unfolding is_suppressed_def
    by (intro valid_kept keeps_wrapping keeps_query [where P = "\<lambda>d. P (ingest_batches d)"])
  let ?Q = "\<lambda>_ s. batch_completed (product_id (header_scope (header b))) u sha (db s)"
  have resume: "valid (\<lambda>s. reserved_by cfg b u t (ingest_batches (db s)))
      (seq ?sup (\<lambda>x. if x then fail ErrSuppressed else complete_batch_v2 cfg b sha t)) ?Q (\<lambda>_ _. True)" for t
    by (intro valid_seq [OF _ sup] valid_unless complete_completes [OF ms u])
  let ?N = "\<lambda>t. newest ledger_key lr_ingested_at t (product_id (header_scope (header b)), u) = None"
  have fresh: "valid (\<lambda>s. ?N (ingest_batches (db s)))
      (seq ?sup (\<lambda>x. if x then fail ErrSuppressed else
         seq time_now (\<lambda>t. seq (insert_batch_ledger_v2 cfg b sha (truncate_to t millisecond) ''reserved'')
           (\<lambda>_. complete_batch_v2 cfg b sha (truncate_to t millisecond))))) ?Q (\<lambda>_ _. True)"
  proof (rule valid_seq [OF _ sup [of ?N]], rule valid_unless,
      rule valid_seq [OF _ valid_kept [OF keeps_time_now [where P = "\<lambda>d. ?N (ingest_batches d)"]]],
      rule valid_seq [OF complete_completes [OF ms u]])
    show "valid (\<lambda>s. ?N (ingest_batches (db s))) (insert_batch_ledger_v2 cfg b sha (truncate_to t millisecond) ''reserved'')
        (\<lambda>_ s. reserved_by cfg b u (truncate_to t millisecond) (ingest_batches (db s))) (\<lambda>_ _. True)" for t
      by (rule valid_conseq [OF ledger_row_newest [OF ms u order_refl]]) (simp_all add: reserved_by_def)
  qed
  let ?s = "s\<lparr>calls := Suc (calls s)\<rparr>"
  have served: "faults s (calls s) = Served"
    using r by (auto simp: insert_v2_def batch_ledger_v2_def Let_def u seq_query split: fault.splits)
  note read = insert_v2_def batch_ledger_v2_def Let_def u seq_query served
  show ?thesis
  proof (cases "newest ledger_key lr_ingested_at (ingest_batches (db s)) (product_id (header_scope (header b)), u)")
    case None
    with r have "seq ?sup (\<lambda>x. if x then fail ErrSuppressed else
         seq time_now (\<lambda>t. seq (insert_batch_ledger_v2 cfg b sha (truncate_to t millisecond) ''reserved'')
           (\<lambda>_. complete_batch_v2 cfg b sha (truncate_to t millisecond)))) ?s = (Inr r, s')"
      unfolding insert_v2_def Let_def by (simp add: batch_ledger_v2_def u seq_query served)
    from validD [OF fresh _ this] None u show ?thesis by auto
  next
    case (Some l)
    note l = newest_Some [OF Some]
    show ?thesis
    proof (cases "lr_status l = ''completed''")
      case True
      with r Some u show ?thesis by (auto simp: read batch_completed_def split: if_splits)
    next
      case False
      with r Some have "seq ?sup (\<lambda>x. if x then fail ErrSuppressed else complete_batch_v2 cfg b sha (lr_ingested_at l)) ?s = (Inr r, s')"
        by (simp add: read split: if_splits)
      from validD [OF resume _ this] assms(2) l Some u show ?thesis by (auto simp: reserved_by_def whole_ledger_def)
    qed
  qed
qed

end
