(* ===== verification/Import_Runs.thy ===== *)
theory Import_Runs
  imports Import_Legacy Store_V2_Ledger
begin

section \<open>Runs of the importer\<close>

subsection \<open>Importing the same input again\<close>

text \<open>
  \<open>repeats cfg m\<close>: a step that returned leaves what was completed completed, and done again by an
  importer in the same position, on a store in which everything is completed that was after the
  first time, it changes no table and either returns the same way, having counted every batch as
  replayed, or fails at a call that broke.
\<close>

definition all_replayed :: "importer \<Rightarrow> importer" where
  "all_replayed i = i\<lparr>imp_replayed := imp_batches i\<rparr>"

definition completed_within :: "'u tables \<Rightarrow> 'u tables \<Rightarrow> bool" where
  "completed_within d d' \<longleftrightarrow> (\<forall>p u sha. batch_completed p u sha d \<longrightarrow> batch_completed p u sha d')"

definition repeats :: "'u import_config \<Rightarrow> (importer \<times> 'u tables conn, 'a) action \<Rightarrow> bool" where
  "repeats cfg m \<longleftrightarrow>
     (\<forall>i s x i' s'. whole_ledger (import_store cfg) (db s) \<longrightarrow> m (i, s) = (Inr x, (i', s')) \<longrightarrow>
        whole_ledger (import_store cfg) (db s') \<and> completed_within (db s) (db s')
        \<and> (\<forall>t. completed_within (db s') (db t) \<longrightarrow>
            (\<exists>r j t'. m (all_replayed i, t) = (r, (j, t')) \<and> db t' = db t \<and> faults t' = faults t
               \<and> (r = Inr x \<and> j = all_replayed i' \<or> (\<exists>n. faults t n \<noteq> Served) \<and> (\<forall>y. r \<noteq> Inr y)))))"

lemma completed_within_refl [simp]: "completed_within d d"
  by (simp add: completed_within_def)

lemma completed_within_trans: "completed_within d d' \<Longrightarrow> completed_within d' d'' \<Longrightarrow> completed_within d d''"
  by (simp add: completed_within_def)

lemma repeatsD:
  assumes "repeats cfg m" and "whole_ledger (import_store cfg) (db s)" and "m (i, s) = (Inr x, (i', s'))"
  shows "whole_ledger (import_store cfg) (db s')" "completed_within (db s) (db s')"
    and "completed_within (db s') (db t) \<Longrightarrow> \<exists>r j t'. m (all_replayed i, t) = (r, (j, t')) \<and> db t' = db t
      \<and> faults t' = faults t \<and> (r = Inr x \<and> j = all_replayed i' \<or> (\<exists>n. faults t n \<noteq> Served) \<and> (\<forall>y. r \<noteq> Inr y))"
  using assms unfolding repeats_def by blast+

lemma repeats_simps: "repeats cfg (ret x)" "repeats cfg (fail_if c e)" "repeats cfg (lift v)"
  by (auto simp: repeats_def fail_if_def lift_def)

lemma repeats_wrapping: "repeats cfg m \<Longrightarrow> repeats cfg (wrapping msg m)"
  unfolding repeats_def wrapping_Inr
  by (fastforce simp: wrapping_def wrap_def split: prod.splits sum.splits)

lemma repeats_seq:
  assumes m: "repeats cfg m" and k: "\<And>x. repeats cfg (k x)"
  shows "repeats cfg (seq m k)"
  unfolding repeats_def
proof (intro allI impI)
  fix i s y i2 s2
  assume w: "whole_ledger (import_store cfg) (db s)" and "seq m k (i, s) = (Inr y, i2, s2)"
  then obtain x i1 s1 where m1: "m (i, s) = (Inr x, (i1, s1))" and k1: "k x (i1, s1) = (Inr y, (i2, s2))"
    by (auto simp: seq_Inr)
  note fst = repeatsD [OF m w m1] note snd = repeatsD [OF k fst(1) k1]
  have "\<exists>r j t'. seq m k (all_replayed i, t) = (r, (j, t')) \<and> db t' = db t \<and> faults t' = faults t
      \<and> (r = Inr y \<and> j = all_replayed i2 \<or> (\<exists>n. faults t n \<noteq> Served) \<and> (\<forall>y. r \<noteq> Inr y))"
    if t: "completed_within (db s2) (db t)" for t
  proof -
    from fst(3) [OF completed_within_trans [OF snd(2) t]] obtain r j t1 where
      a: "m (all_replayed i, t) = (r, (j, t1))" "db t1 = db t" "faults t1 = faults t"
      "r = Inr x \<and> j = all_replayed i1 \<or> (\<exists>n. faults t n \<noteq> Served) \<and> (\<forall>y. r \<noteq> Inr y)" by blast
    from snd(3) [of t1] t a(2) obtain r2 j2 t2 where
      b: "k x (all_replayed i1, t1) = (r2, (j2, t2))" "db t2 = db t1" "faults t2 = faults t1"
      "r2 = Inr y \<and> j2 = all_replayed i2 \<or> (\<exists>n. faults t1 n \<noteq> Served) \<and> (\<forall>y. r2 \<noteq> Inr y)" by auto
    show ?thesis
    proof (cases r)
      case (Inl e)
      with a show ?thesis by (simp add: seq_def)
    next
      case (Inr z)
      with a b show ?thesis by (auto simp: seq_def)
    qed
  qed
  with fst(2) snd(1,2) show "whole_ledger (import_store cfg) (db s2) \<and> completed_within (db s) (db s2)
      \<and> (\<forall>t. completed_within (db s2) (db t) \<longrightarrow> (\<exists>r j t'. seq m k (all_replayed i, t) = (r, j, t') \<and> db t' = db t
        \<and> faults t' = faults t \<and> (r = Inr y \<and> j = all_replayed i2 \<or> (\<exists>n. faults t n \<noteq> Served) \<and> (\<forall>y. r \<noteq> Inr y))))"
    by (blast intro: completed_within_trans)
qed

lemma all_replayed_simps [simp]:
  "current_key (all_replayed i) = current_key i" "current_events (all_replayed i) = current_events i"
  "closed_keys (all_replayed i) = closed_keys i" "imp_batches (all_replayed i) = imp_batches i"
  "imp_events (all_replayed i) = imp_events i"
  by (simp_all add: all_replayed_def)

lemma repeats_update:
  assumes "\<And>i. g (all_replayed i) = all_replayed (g i)"
  shows "repeats cfg (\<lambda>(i, s). (Inr x, (g i, s)))"
  using assms by (auto simp: repeats_def)

lemma flush_repeats:
  assumes "ordered_driver (import_store cfg)" and "\<not> dry_run cfg"
  shows "repeats cfg (flush_import cfg)"
  unfolding repeats_def
proof (intro allI impI)
  fix i s x i' and s' :: "'a tables conn"
  assume w: "whole_ledger (import_store cfg) (db s)" and f: "flush_import cfg (i, s) = (Inr x, (i', s'))"
  show "whole_ledger (import_store cfg) (db s') \<and> completed_within (db s) (db s')
      \<and> (\<forall>t. completed_within (db s') (db t) \<longrightarrow> (\<exists>r j t'. flush_import cfg (all_replayed i, t) = (r, j, t') \<and> db t' = db t
        \<and> faults t' = faults t \<and> (r = Inr x \<and> j = all_replayed i' \<or> (\<exists>n. faults t n \<noteq> Served) \<and> (\<forall>y. r \<noteq> Inr y))))"
  proof (cases "current_events i = []")
    case True
    with f w show ?thesis by (auto simp: flush_import_def)
  next
    case False
    from f False obtain b body where b: "build_batch cfg (current_events i) = Inr (b, body)"
      by (cases "build_batch cfg (current_events i)") (auto simp: flush_import_def)
    obtain q where q: "insert_v2 (import_store cfg) b (body_sha256 body) s = (Inr q, s')"
      and i': "i' = cleared (i\<lparr>imp_batches := imp_batches i + 1\<rparr>)
        \<or> i' = cleared (i\<lparr>imp_batches := imp_batches i + 1, imp_replayed := imp_replayed i + 1\<rparr>)"
      using f False assms(2) b
      by (cases "insert_v2 (import_store cfg) b (body_sha256 body) s"; cases "fst (insert_v2 (import_store cfg) b (body_sha256 body) s)")
        (auto simp: flush_import_def Let_def split: if_splits)
    from i' have all: "all_replayed i' = cleared (all_replayed i\<lparr>imp_batches := imp_batches i + 1, imp_replayed := imp_batches i + 1\<rparr>)"
      by (auto simp: all_replayed_def cleared_def)
    from insert_v2_completes [OF assms(1) w q] obtain u where u: "must_parse (import_store cfg) (batch_id (header b)) = Inr u"
      "batch_completed (product_id (header_scope (header b))) u (body_sha256 body) (db s')" by blast
    have kept: "whole_ledger (import_store cfg) (db s')" "completed_within (db s) (db s')"
      using keepsD [OF insert_v2_keeps_whole [OF assms(1)] w, of b "body_sha256 body"]
        keepsD [OF insert_v2_keeps_completed, of _ _ _ s "import_store cfg" b "body_sha256 body"] q
      by (simp_all add: completed_within_def)
    have "\<exists>r j t'. flush_import cfg (all_replayed i, t) = (r, j, t') \<and> db t' = db t \<and> faults t' = faults t
        \<and> (r = Inr x \<and> j = all_replayed i' \<or> (\<exists>n. faults t n \<noteq> Served) \<and> (\<forall>y. r \<noteq> Inr y))"
      if t: "completed_within (db s') (db t)" for t
    proof -
      from t u(2) have "batch_completed (product_id (header_scope (header b))) u (body_sha256 body) (db t)"
        by (simp add: completed_within_def)
      note again = insert_v2_replays [OF u(1) this]
      show ?thesis
      proof (cases "faults t (calls t)")
        case Served
        with again False b assms(2) show ?thesis
          by (simp add: flush_import_def Let_def all) (simp add: all_replayed_def)
      next
        case (Broken n)
        then have "\<exists>n. faults t n \<noteq> Served" by (metis fault.distinct(1))
        with again Broken False b assms(2) show ?thesis by (auto simp: flush_import_def Let_def)
      qed
    qed
    with kept show ?thesis by blast
  qed
qed

lemma close_group_repeats:
  assumes "repeats cfg (flush_import cfg)"
  shows "repeats cfg (close_group cfg key)"
proof -
  let ?close = "\<lambda>previous. seq (wrapping ''flush before line'' (flush_import cfg)) (\<lambda>_ (i, s).
            (Inr (), (if key \<noteq> previous then i\<lparr>closed_keys := previous # closed_keys i\<rparr> else i, s)))"
  have "repeats cfg (?close k)" for k
    by (intro repeats_seq repeats_wrapping assms repeats_update) (simp add: all_replayed_def)
  note close = repeatsD [OF this]
  show ?thesis unfolding repeats_def
  proof (intro allI impI)
    fix i s x i' and s' :: "'a tables conn"
    assume w: "whole_ledger (import_store cfg) (db s)" and c: "close_group cfg key (i, s) = (Inr x, i', s')"
    show "whole_ledger (import_store cfg) (db s') \<and> completed_within (db s) (db s')
      \<and> (\<forall>t. completed_within (db s') (db t) \<longrightarrow> (\<exists>r j t'. close_group cfg key (all_replayed i, t) = (r, j, t') \<and> db t' = db t
        \<and> faults t' = faults t \<and> (r = Inr x \<and> j = all_replayed i' \<or> (\<exists>n. faults t n \<noteq> Served) \<and> (\<forall>y. r \<noteq> Inr y))))"
    proof (cases "current_key i \<noteq> [] \<and> (key \<noteq> current_key i \<or> length (current_events i) = max_import_batch)")
      case True
      then have same: "close_group cfg key (i, t) = ?close (current_key i) (i, t)"
        "close_group cfg key (all_replayed i, t) = ?close (current_key i) (all_replayed i, t)" for t
        by (simp_all add: close_group_def Let_def)
      from close [OF w c [unfolded same]] show ?thesis unfolding same by blast
    next
      case False
      then have "close_group cfg key (i, t) = (Inr (), (i, t))"
        "close_group cfg key (all_replayed i, t) = (Inr (), (all_replayed i, t))" for t
        by (auto simp: close_group_def)
      with w c show ?thesis by auto
    qed
  qed
qed

lemma add_event_repeats: "repeats cfg (add_event key event)"
  unfolding add_event_def repeats_def by (auto simp: all_replayed_def)

lemma import_lines_repeats:
  "repeats cfg (flush_import cfg) \<Longrightarrow> repeats cfg (import_lines cfg n ls)"
  by (induction cfg n ls rule: import_lines.induct)
    (auto simp: import_line_def intro!: repeats_seq repeats_simps repeats_wrapping close_group_repeats add_event_repeats)

lemma consume_repeats:
  assumes "ordered_driver (import_store cfg)" and "\<not> dry_run cfg"
  shows "repeats cfg (consume cfg input)"
  unfolding consume_def
  by (auto intro!: repeats_seq repeats_simps import_lines_repeats flush_repeats [OF assms] split: prod.split)

end
