(* ===== verification/Import_Batches.thy ===== *)
theory Import_Batches
  imports Import_Runs
begin

section \<open>Which batches the importer stores\<close>

text \<open>
  The reference: the events of the lines, cut where the group changes and then into pieces of at
  most 500. \<open>plan\<close> and \<open>in_order\<close> follow the loop of consume, with the events that it holds back and
  the keys that it has closed; the last lemmas of this section relate them to the reference.
\<close>

function groups :: "('a \<Rightarrow> 'k) \<Rightarrow> 'a list \<Rightarrow> 'a list list" where
  "groups f [] = []"
| "groups f (x # xs) = (x # takeWhile (\<lambda>y. f y = f x) xs) # groups f (dropWhile (\<lambda>y. f y = f x) xs)"
  by pat_completeness auto
termination
  by (relation "measure (length \<circ> snd)") (auto simp: less_Suc_eq_le length_dropWhile_le)

function chunks :: "nat \<Rightarrow> 'a list \<Rightarrow> 'a list list" where
  "chunks n xs = (if xs = [] \<or> n = 0 then [] else take n xs # chunks n (drop n xs))"
  by pat_completeness auto
termination
  by (relation "measure (length \<circ> snd)") auto

declare chunks.simps [simp del]

definition reference_batches :: "'u import_config \<Rightarrow> source_event list \<Rightarrow> source_event list list" where
  "reference_batches cfg es = concat (map (chunks max_import_batch) (groups (event_group cfg) es))"

definition grouped :: "'u import_config \<Rightarrow> source_event list \<Rightarrow> bool" where
  "grouped cfg es = distinct (remdups_adj (map (event_group cfg) es))"

definition store_chunk :: "'u import_config \<Rightarrow> source_event list \<Rightarrow> ('u tables conn, unit) action" where
  "store_chunk cfg es =
     seq (lift (build_batch cfg es)) (\<lambda>(b, body).
       if dry_run cfg then ret () else seq (insert_v2 (import_store cfg) b (body_sha256 body)) (\<lambda>_. ret ()))"

subsection \<open>The loop\<close>

definition full :: "'u import_config \<Rightarrow> source_event list \<Rightarrow> source_event \<Rightarrow> bool" where
  "full cfg held e \<longleftrightarrow> held \<noteq> [] \<and> (event_group cfg e \<noteq> event_group cfg (hd held) \<or> length held = max_import_batch)"

fun plan :: "'u import_config \<Rightarrow> source_event list \<Rightarrow> source_event list \<Rightarrow> source_event list list" where
  "plan cfg held [] = (if held = [] then [] else [held])"
| "plan cfg held (e # es) = (if full cfg held e then held # plan cfg [e] es else plan cfg (held @ [e]) es)"

fun in_order :: "'u import_config \<Rightarrow> source_event list \<Rightarrow> string set \<Rightarrow> source_event list \<Rightarrow> bool" where
  "in_order cfg held closed [] = True"
| "in_order cfg held closed (e # es) =
     (let closed = (if held \<noteq> [] \<and> event_group cfg e \<noteq> event_group cfg (hd held)
        then insert (event_group cfg (hd held)) closed else closed)
      in event_group cfg e \<notin> closed \<and> in_order cfg (if full cfg held e then [e] else held @ [e]) closed es)"

definition held_back :: "source_event list \<Rightarrow> bool" where
  "held_back held \<longleftrightarrow> held \<noteq> [] \<and> length held \<le> max_import_batch"

lemma chunks_one: "xs \<noteq> [] \<Longrightarrow> length xs \<le> n \<Longrightarrow> chunks n xs = [xs]"
  by (subst chunks.simps) (cases xs; simp add: chunks.simps [of n "[]"])

lemma chunks_full: "length xs = n \<Longrightarrow> xs \<noteq> [] \<Longrightarrow> chunks n (xs @ ys) = xs # chunks n ys"
  by (subst chunks.simps) auto

lemma reference_Cons:
  "reference_batches cfg (e # es) = chunks max_import_batch (e # takeWhile (\<lambda>y. event_group cfg y = event_group cfg e) es)
     @ reference_batches cfg (dropWhile (\<lambda>y. event_group cfg y = event_group cfg e) es)"
  by (simp add: reference_batches_def)

lemma held_back_one [simp]: "held_back [e]"
  by (simp add: held_back_def max_import_batch_def)

lemma held_backD: "held_back held \<Longrightarrow> held \<noteq> [] \<and> length held \<le> max_import_batch"
  by (simp add: held_back_def)

lemma held_back_add:
  "held_back held \<Longrightarrow> length held \<noteq> max_import_batch \<Longrightarrow>
     held_back (held @ [e])"
  unfolding held_back_def by simp

lemma plan_held:
  "held_back held \<Longrightarrow> plan cfg held es =
     chunks max_import_batch (held @ takeWhile (\<lambda>y. event_group cfg y = event_group cfg (hd held)) es)
     @ reference_batches cfg (dropWhile (\<lambda>y. event_group cfg y = event_group cfg (hd held)) es)"
proof (induction es arbitrary: held)
  case Nil
  then show ?case by (simp add: held_backD chunks_one reference_batches_def)
next
  case (Cons e es)
  note held = held_backD [OF Cons.prems] and one = Cons.IH [OF held_back_one, of e]
  show ?case
  proof (cases "event_group cfg e = event_group cfg (hd held)")
    case False
    with held one show ?thesis by (simp add: full_def chunks_one reference_Cons)
  next
    case same: True
    show ?thesis
    proof (cases "length held = max_import_batch")
      case True
      with held one same show ?thesis by (simp add: full_def chunks_full)
    next
      case False
      with Cons.IH [OF held_back_add [OF Cons.prems False]] held same show ?thesis by (simp add: full_def)
    qed
  qed
qed

lemma plan_reference: "plan cfg [] es = reference_batches cfg es"
  by (cases es) (simp_all add: reference_batches_def full_def plan_held reference_Cons)

lemma in_order_held:
  "held_back held \<Longrightarrow> event_group cfg (hd held) \<notin> closed \<Longrightarrow>
     in_order cfg held closed es \<longleftrightarrow>
       grouped cfg (dropWhile (\<lambda>y. event_group cfg y = event_group cfg (hd held)) es)
       \<and> event_group cfg ` set (dropWhile (\<lambda>y. event_group cfg y = event_group cfg (hd held)) es)
         \<inter> insert (event_group cfg (hd held)) closed = {}"
proof (induction es arbitrary: held closed)
  case Nil
  then show ?case by (simp add: grouped_def)
next
  case (Cons e es)
  let ?k = "event_group cfg (hd held)"
  let ?rest = "dropWhile (\<lambda>y. event_group cfg y = event_group cfg e) es"
  note held = held_backD [OF Cons.prems(1)]
  show ?case
  proof (cases "event_group cfg e = ?k")
    case True
    let ?held = "if full cfg held e then [e] else held @ [e]"
    have "held_back ?held" "event_group cfg (hd ?held) = ?k"
      using held_back_add [OF Cons.prems(1)] held True by (simp_all add: full_def)
    with Cons.IH [of ?held closed] Cons.prems(2) True show ?thesis by (simp add: Let_def)
  next
    case False
    have "grouped cfg (e # es) \<longleftrightarrow> grouped cfg ?rest \<and> event_group cfg e \<notin> event_group cfg ` set ?rest"
      by (auto simp: grouped_def remdups_adj_Cons' dropWhile_map comp_def simp flip: set_map)
    moreover have "set es = set (takeWhile (\<lambda>y. event_group cfg y = event_group cfg e) es) \<union> set ?rest"
      by (metis set_append takeWhile_dropWhile_id)
    then have "insert (event_group cfg e) (event_group cfg ` set es) = insert (event_group cfg e) (event_group cfg ` set ?rest)"
      by (auto dest: set_takeWhileD)
    ultimately show ?thesis
      using Cons.IH [of "[e]" "insert ?k closed"] Cons.prems(2) held False by (simp add: full_def Let_def) blast
  qed
qed

lemma in_order_reference: "in_order cfg [] {} es \<longleftrightarrow> grouped cfg es"
proof (cases es)
  case (Cons e rest)
  have "in_order cfg [] {} es \<longleftrightarrow> in_order cfg [e] {} rest" by (simp add: Cons full_def)
  also have "\<dots> \<longleftrightarrow> grouped cfg es"
    using in_order_held [of "[e]" cfg "{}" rest]
    by (auto simp: Cons grouped_def remdups_adj_Cons' dropWhile_map comp_def simp flip: set_map)
  finally show ?thesis .
qed (simp add: grouped_def)

subsection \<open>The loop stores the plan\<close>

definition never_cancelled :: "'u import_config \<Rightarrow> bool" where
  "never_cancelled cfg \<longleftrightarrow> cancelled_at cfg = (\<lambda>_. False) \<and> cancelled_pause cfg = (\<lambda>_. False)"

text \<open>The position of an importer: what it holds back, under its key, and the keys it has closed.\<close>

definition position :: "'u import_config \<Rightarrow> source_event list \<Rightarrow> string set \<Rightarrow> importer \<Rightarrow> bool" where
  "position cfg held closed i \<longleftrightarrow> current_events i = held \<and> set (closed_keys i) = closed
     \<and> current_key i = (if held = [] then [] else event_group cfg (hd held))"

lemma event_group_not_Nil [simp]: "event_group cfg e \<noteq> []"
  by (simp add: event_group_def)

lemma flush_store:
  assumes "never_cancelled cfg" and "position cfg held closed i" and "held \<noteq> []"
  obtains i' where "flush_import cfg (i, s) = (fst (store_chunk cfg held s), (i', snd (store_chunk cfg held s)))"
    and "returned (fst (store_chunk cfg held s)) \<Longrightarrow>
      position cfg [] closed i' \<and> imp_batches i' = imp_batches i + 1 \<and> imp_events i' = imp_events i"
proof (cases "build_batch cfg held")
  case (Inl e)
  then show thesis
    using assms that [of i] by (simp add: flush_import_def store_chunk_def position_def)
next
  case (Inr v)
  obtain b body where v: "v = (b, body)" by (cases v)
  obtain x t where q: "insert_v2 (import_store cfg) b (body_sha256 body) s = (x, t)"
    by (cases "insert_v2 (import_store cfg) b (body_sha256 body) s")
  let ?i = "i\<lparr>imp_batches := imp_batches i + 1\<rparr>"
  note defs = flush_import_def store_chunk_def position_def never_cancelled_def cleared_def seq_def Let_def ret_def
  show thesis
  proof (cases "dry_run cfg")
    case True
    with assms that [of "cleared ?i"] Inr v show thesis by (simp add: defs)
  next
    case False
    show thesis
    proof (cases x)
      case (Inl e)
      with assms that [of ?i] Inr v q False show thesis by (simp add: defs)
    next
      case x: (Inr r)
      with assms that [of "cleared (if result_replayed r then ?i\<lparr>imp_replayed := imp_replayed i + 1\<rparr> else ?i)"] Inr v q False
      show thesis by (cases "result_replayed r") (simp_all add: defs)
    qed
  qed
qed

text \<open>
  The loop and the last flush from a position: if all lines are events in an order that the position
  allows, the store is left as by storing the plan, and the call returns when that does; otherwise
  it fails.
\<close>

definition import_rest :: "'u import_config \<Rightarrow> nat \<Rightarrow> string list \<Rightarrow> (importer \<times> 'u tables conn, unit) action" where
  "import_rest cfg n ls = seq (import_lines cfg n ls) (\<lambda>_. flush_import cfg)"

definition carries_out :: "'u import_config \<Rightarrow> source_event list list \<Rightarrow> importer \<Rightarrow> 64 word \<Rightarrow> 'u tables conn
    \<Rightarrow> unit result \<times> importer \<times> 'u tables conn \<Rightarrow> bool" where
  "carries_out cfg batches i events s out \<longleftrightarrow>
     snd (snd out) = snd (each (store_chunk cfg) batches s)
     \<and> (returned (fst out) \<longleftrightarrow> returned (fst (each (store_chunk cfg) batches s)))
     \<and> (returned (fst out) \<longrightarrow> imp_batches (fst (snd out)) = imp_batches i + of_nat (length batches)
          \<and> imp_events (fst (snd out)) = imp_events i + events)"

lemma import_rest_Cons:
  "import_rest cfg n (data # rest) = seq (import_line cfg (Suc n) data) (\<lambda>_. import_rest cfg (Suc n) rest)"
  by (rule ext) (simp add: import_rest_def seq_def split: prod.splits sum.splits)

lemma import_rest_Nil:
  assumes "never_cancelled cfg" and "position cfg held closed i"
  shows "carries_out cfg (plan cfg held []) i 0 s (import_rest cfg n [] (i, s))"
proof (cases "held = []")
  case True
  with assms(2) show ?thesis by (simp add: import_rest_def flush_import_def position_def carries_out_def)
next
  case False
  from flush_store [OF assms False, of s] obtain i' where
    "flush_import cfg (i, s) = (fst (store_chunk cfg held s), (i', snd (store_chunk cfg held s)))"
    "returned (fst (store_chunk cfg held s)) \<Longrightarrow> imp_batches i' = imp_batches i + 1 \<and> imp_events i' = imp_events i"
    by blast
  with False show ?thesis by (auto simp: import_rest_def carries_out_def seq_def ret_def split: prod.splits sum.splits)
qed

definition now_held :: "'u import_config \<Rightarrow> source_event list \<Rightarrow> source_event \<Rightarrow> source_event list" where
  "now_held cfg held e = (if full cfg held e then [e] else held @ [e])"

definition now_closed :: "'u import_config \<Rightarrow> source_event list \<Rightarrow> string set \<Rightarrow> source_event \<Rightarrow> string set" where
  "now_closed cfg held closed e = (if held \<noteq> [] \<and> event_group cfg e \<noteq> event_group cfg (hd held)
     then insert (event_group cfg (hd held)) closed else closed)"

lemma in_order_Cons: "in_order cfg held closed (e # es) \<longleftrightarrow>
    event_group cfg e \<notin> now_closed cfg held closed e
    \<and> in_order cfg (now_held cfg held e) (now_closed cfg held closed e) es"
  by (simp add: now_closed_def now_held_def Let_def)

lemma add_event_step:
  "add_event key e (i, s) = (if key \<in> set (closed_keys i) then (Inl (Err ''input must be grouped by source_subject''), (i, s))
     else (Inr (), (i\<lparr>current_key := key, current_events := current_events i @ [e], imp_events := imp_events i + 1\<rparr>, s)))"
  by (simp add: add_event_def)

lemma line_step:
  assumes "never_cancelled cfg" and pos: "position cfg held closed i" and e: "decode_event data = Inr e"
  obtains r i' t where "import_line cfg n data (i, s) = (r, (i', t))"
    and "t = (if full cfg held e then snd (store_chunk cfg held s) else s)"
    and "returned r \<longleftrightarrow> (full cfg held e \<longrightarrow> returned (fst (store_chunk cfg held s))) \<and> event_group cfg e \<notin> now_closed cfg held closed e"
    and "returned r \<Longrightarrow> position cfg (now_held cfg held e) (now_closed cfg held closed e) i'
      \<and> imp_events i' = imp_events i + 1 \<and> imp_batches i' = imp_batches i + (if full cfg held e then 1 else 0)"
proof -
  let ?k = "event_group cfg e"
  have line: "import_line cfg n data (i, s) = seq (close_group cfg ?k) (\<lambda>_. add_event ?k e) (i, s)"
    using assms(1) e by (simp add: import_line_def never_cancelled_def wrapping_def wrap_def seq_def lift_def)
  show thesis
  proof (cases "full cfg held e")
    case False
    with pos have "close_group cfg ?k (i, s) = (Inr (), (i, s))"
      by (auto simp: full_def position_def close_group_def)
    with line have add: "import_line cfg n data (i, s) = add_event ?k e (i, s)" by (simp add: seq_def)
    have now: "now_closed cfg held closed e = set (closed_keys i)" "now_held cfg held e = current_events i @ [e]"
      "event_group cfg (hd (current_events i @ [e])) = ?k"
      using False pos by (auto simp: full_def now_closed_def now_held_def position_def hd_append)
    show thesis
    proof (cases "?k \<in> set (closed_keys i)")
      case True
      with that [OF add [unfolded add_event_step if_P [OF True]]] False now show thesis by simp
    next
      case new: False
      with that [OF add [unfolded add_event_step if_not_P [OF new]]] False now show thesis by (simp add: position_def)
    qed
  next
    case True
    then have "held \<noteq> []" by (simp add: full_def)
    from flush_store [OF assms(1) pos this, of s] obtain i1 where
      f: "flush_import cfg (i, s) = (fst (store_chunk cfg held s), (i1, snd (store_chunk cfg held s)))"
      "returned (fst (store_chunk cfg held s)) \<Longrightarrow>
        position cfg [] closed i1 \<and> imp_batches i1 = imp_batches i + 1 \<and> imp_events i1 = imp_events i" by blast
    let ?i2 = "if ?k \<noteq> event_group cfg (hd held) then i1\<lparr>closed_keys := event_group cfg (hd held) # closed_keys i1\<rparr> else i1"
    have close: "close_group cfg ?k (i, s) = (case fst (store_chunk cfg held s) of
        Inl x \<Rightarrow> (Inl (Wrapped ''flush before line'' x), (i1, snd (store_chunk cfg held s)))
      | Inr u \<Rightarrow> (Inr (), (?i2, snd (store_chunk cfg held s))))"
      using pos True f(1)
      by (auto simp: full_def position_def close_group_def Let_def seq_def wrapping_def wrap_def split: sum.splits)
    show thesis
    proof (cases "fst (store_chunk cfg held s)")
      case (Inl x)
      with line close True that [of "Inl (Wrapped ''flush before line'' x)" i1 "snd (store_chunk cfg held s)"] show thesis
        by (simp add: seq_def)
    next
      case (Inr u)
      let ?t = "snd (store_chunk cfg held s)"
      have i2: "current_events ?i2 = []" "set (closed_keys ?i2) = now_closed cfg held closed e"
        "imp_batches ?i2 = imp_batches i + 1" "imp_events ?i2 = imp_events i"
        using f(2) Inr \<open>held \<noteq> []\<close> by (simp_all add: position_def now_closed_def)
      from line close Inr have "import_line cfg n data (i, s) = add_event ?k e (?i2, ?t)" by (simp add: seq_def)
      note add = this [unfolded add_event_step]
      show thesis
      proof (cases "?k \<in> set (closed_keys ?i2)")
        case closed: True
        with that [OF add [unfolded if_P [OF closed]]] Inr True i2 show thesis by simp
      next
        case new: False
        with that [OF add [unfolded if_not_P [OF new]]] Inr True i2 show thesis by (simp add: position_def now_held_def)
      qed
    qed
  qed
qed

lemma plan_Cons: "plan cfg held (e # es) = (if full cfg held e then [held] else []) @ plan cfg (now_held cfg held e) es"
  by (simp add: now_held_def)

lemma import_rest_stores:
  assumes "never_cancelled cfg"
  shows "position cfg held closed i \<Longrightarrow> traverse decode_event ls = Inr es \<Longrightarrow> in_order cfg held closed es \<Longrightarrow>
    carries_out cfg (plan cfg held es) i (of_nat (length es)) s (import_rest cfg n ls (i, s))"
proof (induction ls arbitrary: held closed i es s n)
  case Nil
  then show ?case using import_rest_Nil [OF assms] by simp
next
  case (Cons data ls)
  from Cons.prems(2) obtain e es' where e: "decode_event data = Inr e" "traverse decode_event ls = Inr es'" "es = e # es'"
    by (auto simp: andthen_Inr)
  obtain r i1 t where line: "import_line cfg (Suc n) data (i, s) = (r, (i1, t))"
    "t = (if full cfg held e then snd (store_chunk cfg held s) else s)"
    "returned r \<longleftrightarrow> (full cfg held e \<longrightarrow> returned (fst (store_chunk cfg held s))) \<and> event_group cfg e \<notin> now_closed cfg held closed e"
    "returned r \<Longrightarrow> position cfg (now_held cfg held e) (now_closed cfg held closed e) i1
      \<and> imp_events i1 = imp_events i + 1 \<and> imp_batches i1 = imp_batches i + (if full cfg held e then 1 else 0)"
    by (rule line_step [OF assms Cons.prems(1) e(1), of "Suc n" s]) blast
  from Cons.prems(3) have ord: "event_group cfg e \<notin> now_closed cfg held closed e"
    "in_order cfg (now_held cfg held e) (now_closed cfg held closed e) es'"
    unfolding e(3) in_order_Cons by blast+
  let ?rest = "plan cfg (now_held cfg held e) es'"
  have all: "each (store_chunk cfg) (plan cfg held es) s =
      (if full cfg held e then seq (store_chunk cfg held) (\<lambda>_. each (store_chunk cfg) ?rest) s else each (store_chunk cfg) ?rest s)"
    by (simp add: e(3) plan_Cons del: plan.simps)
  show ?case
  proof (cases r)
    case (Inl x)
    with line(3) ord(1) have f: "full cfg held e" "\<not> returned (fst (store_chunk cfg held s))" by auto
    then obtain y t' where "store_chunk cfg held s = (Inl y, t')"
      by (cases "store_chunk cfg held s"; cases "fst (store_chunk cfg held s)") auto
    with Inl line(1,2) f all show ?thesis by (simp add: import_rest_Cons carries_out_def seq_def)
  next
    case (Inr u)
    then have "import_rest cfg n (data # ls) (i, s) = import_rest cfg (Suc n) ls (i1, t)"
      using line(1) by (simp add: import_rest_Cons seq_def)
    moreover have "each (store_chunk cfg) (plan cfg held es) s = each (store_chunk cfg) ?rest t"
      using all Inr line(2,3) by (cases "fst (store_chunk cfg held s)") (auto simp: seq_def split: prod.splits)
    moreover have pos: "position cfg (now_held cfg held e) (now_closed cfg held closed e) i1"
      "imp_events i1 = imp_events i + 1" "imp_batches i1 = imp_batches i + (if full cfg held e then 1 else 0)"
      using line(4) Inr by simp_all
    moreover note Cons.IH [OF pos(1) e(2) ord(2), of t "Suc n"]
    ultimately show ?thesis by (simp add: carries_out_def e(3) plan_Cons del: plan.simps)
  qed
qed

lemma import_rest_returns:
  assumes "never_cancelled cfg"
  shows "position cfg held closed i \<Longrightarrow> import_rest cfg n ls (i, s) = (Inr u, q) \<Longrightarrow>
    \<exists>es. traverse decode_event ls = Inr es \<and> in_order cfg held closed es"
proof (induction ls arbitrary: held closed i s n)
  case (Cons data ls)
  from Cons.prems(2) obtain v i1 t where line: "import_line cfg (Suc n) data (i, s) = (Inr v, (i1, t))"
    and rest: "import_rest cfg (Suc n) ls (i1, t) = (Inr u, q)" by (auto simp: import_rest_Cons seq_Inr)
  then obtain e where e: "decode_event data = Inr e" by (auto simp: import_line_def result_simps)
  obtain r i2 t2 where "import_line cfg (Suc n) data (i, s) = (r, (i2, t2))"
    "returned r \<longleftrightarrow> (full cfg held e \<longrightarrow> returned (fst (store_chunk cfg held s))) \<and> event_group cfg e \<notin> now_closed cfg held closed e"
    "returned r \<Longrightarrow> position cfg (now_held cfg held e) (now_closed cfg held closed e) i2"
    by (rule line_step [OF assms Cons.prems(1) e, of "Suc n" s]) blast
  with line have pos: "position cfg (now_held cfg held e) (now_closed cfg held closed e) i1"
    "event_group cfg e \<notin> now_closed cfg held closed e" by simp_all
  from Cons.IH [OF pos(1) rest] e pos(2) show ?case unfolding traverse.simps by (auto simp: in_order_Cons simp del: in_order.simps)
qed simp

text \<open>The whole input.\<close>

lemma consume_rest:
  "scan_lines input = (ls, False) \<Longrightarrow> consume cfg input = import_rest cfg 0 ls"
  by (rule ext) (simp add: consume_def import_rest_def)

lemma new_importer_position: "position cfg [] {} new_importer"
  by (simp add: position_def new_importer_def)

end
