(* ===== verification/Import_Properties.thy ===== *)
theory Import_Properties
  imports Import_Batches Store_Properties
begin

section \<open>Properties of the legacy import\<close>

text \<open>
  The sample is a line of linka-looks, imported into the store of the samples; its name-based UUIDs
  are the names.
\<close>

definition import_line_text :: string where
  "import_line_text = ''{\"source\":\"looks-sqlite\",\"source_record_id\":\"42\",\"source_subject\":\"legacy-pc\",\"product\":\"linka-looks\",\"occurred_at\":\"2026-07-21T11:59:00.0005Z\",\"kind\":\"start\",\"app_version\":\"3.2.8\",\"platform\":\"windows\"}''"

definition import_sample :: source_event where
  "import_sample = \<lparr>se_source = ''looks-sqlite'', se_source_record_id = ''42'', se_source_subject = ''legacy-pc'',
     se_product = ''linka-looks'', se_occurred_at = ''2026-07-21T11:59:00.000Z'', se_kind = ''start'',
     se_app_version = ''3.2.8'', se_app_build = ''import-looks-sqlite'', se_platform = ''windows'',
     se_os_version = ''unknown'', se_locale = ''unknown'', se_occurred_at_time = sample_now - minute\<rparr>"

lemma decode_import_sample: "decode_event import_line_text = Inr import_sample"
  by code_simp

definition import_cfg :: "string import_config" where
  "import_cfg = \<lparr>import_store = store_cfg, import_secret = replicate 32 (CHR ''s''), dry_run = False, batch_delay = 0,
     new_sha1 = (\<lambda>_ name. name), cancelled_at = (\<lambda>_. False), cancelled_pause = (\<lambda>_. False)\<rparr>"

lemma scan_import_sample: "scan_lines import_line_text = ([import_line_text], False)"
proof -
  have "length import_line_text = 202" "input_lines import_line_text = [import_line_text]"
    "drop_cr import_line_text = import_line_text" by code_simp+
  then show ?thesis by (simp add: scan_lines_def max_line_def)
qed

definition imported_batch :: validated_batch where
  "imported_batch = fst (projr (build_batch import_cfg [import_sample]))"

definition imported_body :: string where
  "imported_body = snd (projr (build_batch import_cfg [import_sample]))"

lemma imported_built: "build_batch import_cfg [import_sample] = Inr (imported_batch, imported_body)"
  by (simp add: imported_batch_def imported_body_def build_batch_def Let_def)

lemma imported_batch_simps:
  "stream (header imported_batch) = StreamProduct" "common_records imported_batch = []"
  "technical_records imported_batch = []" "plays_records imported_batch = []" "outcome_records imported_batch = []"
  "product_records imported_batch = [\<lparr>the_record = import_record import_cfg import_sample, occurred_at_time = sample_now - minute\<rparr>]"
proof -
  have "se_occurred_at_time import_sample = sample_now - minute" by (simp add: import_sample_def)
  then show "stream (header imported_batch) = StreamProduct" "common_records imported_batch = []"
    "technical_records imported_batch = []" "plays_records imported_batch = []" "outcome_records imported_batch = []"
    "product_records imported_batch = [\<lparr>the_record = import_record import_cfg import_sample, occurred_at_time = sample_now - minute\<rparr>]"
    by (simp_all add: imported_batch_def build_batch_def Let_def)
qed

lemma imported_stream: "one_stream imported_batch"
  by (simp add: one_stream_def imported_batch_simps)

lemma imported_write: "\<exists>w. batch_write store_cfg imported_batch sha t = Inr w"
proof -
  have "traverse (must_parse store_cfg) xs = Inr xs" for xs by (induction xs) simp_all
  then show ?thesis
    by (simp add: batch_write_def imported_batch_simps product_row_of_def event_row_of_def Let_def)
qed

text \<open>The sample line into an empty store.\<close>

lemma import_cfg_simps [simp]:
  "import_store import_cfg = store_cfg" "\<not> dry_run import_cfg" "never_cancelled import_cfg"
  by (simp_all add: import_cfg_def never_cancelled_def)

lemma sample_reference: "reference_batches import_cfg [import_sample] = [[import_sample]]" "grouped import_cfg [import_sample]"
  by (simp_all add: reference_batches_def chunks_one max_import_batch_def grouped_def)

lemma imported_stored:
  "\<exists>r s'. insert_v2 store_cfg imported_batch (body_sha256 imported_body) (sample_conn (\<lambda>_. Served)) = (Inr r, s') \<and> db s' \<noteq> no_rows"
proof -
  have ms: "ordered_driver store_cfg" using store_cfg_good by (simp add: good_driver_def)
  have "undisturbed (sample_conn (\<lambda>_. Served))" by (simp add: undisturbed_def sample_conn_def)
  then obtain r s' where r: "insert_v2 store_cfg imported_batch (body_sha256 imported_body) (sample_conn (\<lambda>_. Served)) = (Inr r, s')"
    using undisturbed_write [OF ms imported_stream imported_write store_parse, of "sample_conn (\<lambda>_. Served)" "body_sha256 imported_body" 0]
    by (auto simp: after_attempts_def sample_start)
  have "whole_ledger store_cfg (db (sample_conn (\<lambda>_. Served)))" by (simp add: sample_start whole_ledger_def no_rows_def)
  from insert_v2_completes [OF ms this r] have "db s' \<noteq> no_rows" by (auto simp: batch_completed_def no_rows_def)
  with r show ?thesis by blast
qed

lemma import_sample_runs:
  "\<exists>i s'. consume import_cfg import_line_text (new_importer, sample_conn (\<lambda>_. Served)) = (Inr (), (i, s')) \<and> db s' \<noteq> no_rows"
proof -
  from imported_stored obtain r s' where r: "insert_v2 store_cfg imported_batch (body_sha256 imported_body) (sample_conn (\<lambda>_. Served)) = (Inr r, s')"
    "db s' \<noteq> no_rows" by blast
  then have "store_chunk import_cfg [import_sample] (sample_conn (\<lambda>_. Served)) = (Inr (), s')"
    by (simp add: store_chunk_def imported_built seq_def)
  then have "each (store_chunk import_cfg) [[import_sample]] (sample_conn (\<lambda>_. Served)) = (Inr (), s')" by (simp add: seq_def)
  moreover from import_rest_stores [of import_cfg "[]" "{}" new_importer "[import_line_text]" "[import_sample]" "sample_conn (\<lambda>_. Served)" 0]
  have "carries_out import_cfg [[import_sample]] new_importer 1 (sample_conn (\<lambda>_. Served))
      (import_rest import_cfg 0 [import_line_text] (new_importer, sample_conn (\<lambda>_. Served)))"
    by (simp add: new_importer_position decode_import_sample in_order_reference sample_reference plan_reference
        del: plan.simps in_order.simps)
  ultimately show ?thesis
    using r(2) by (auto simp: carries_out_def consume_rest [OF scan_import_sample] returned_iff prod_eq_iff)
qed

subsection \<open>What an import writes\<close>

definition import_event_ok :: "source_event \<Rightarrow> bool" where
  "import_event_ok e \<longleftrightarrow>
     map_of source_products (se_source e) = Some (se_product e)
     \<and> (\<exists>sp. lookup_product (se_product e) = Some sp \<and> StreamProduct \<in> set (spec_streams sp) \<and> se_kind e \<in> set (spec_product_kinds sp))
     \<and> safe_source_id (se_source_record_id e) \<and> se_source_subject e \<noteq> [] \<and> length (se_source_subject e) \<le> 256
     \<and> safe_value (se_app_version e) \<and> safe_value (se_platform e) \<and> safe_value (se_app_build e)
     \<and> safe_value (se_os_version e) \<and> safe_value (se_locale e)
     \<and> storable (se_occurred_at_time e) \<and> se_occurred_at e = format_millis (se_occurred_at_time e)"

lemma storable_truncated:
  assumes "\<not> t < date_utc 2020 1 1" and "t < date_utc 2100 1 1"
  shows "storable (truncate_to t millisecond)"
proof -
  have "date_utc 2020 1 1 mod millisecond = 0" by code_simp
  then have "date_utc 2020 1 1 \<le> truncate_to t millisecond"
    using assms(1) by (simp add: truncate_to_def minus_mod_eq_mult_div)
      (metis div_mult_mod_eq linorder_not_less add_0_right mult.commute zdiv_mono1 mult_left_mono millisecond_def zero_le_numeral zero_less_numeral)
  with assms(2) show ?thesis
    using truncate_to_le [of millisecond t] by (simp add: storable_def truncate_to_mod) (simp add: millisecond_def)
qed

lemma decode_event_ok: "decode_event data = Inr e \<Longrightarrow> import_event_ok e"
  by (auto simp: decode_event_def result_simps import_event_ok_def Let_def allows_stream_def allows_product_kind_def
      storable_truncated dest: map_of_SomeD split: option.splits)

lemma import_records_Inr:
  "import_records cfg first es sent = Inr (vs, latest) \<Longrightarrow>
     vs = map (\<lambda>e. \<lparr>the_record = import_record cfg e, occurred_at_time = se_occurred_at_time e\<rparr>) es
     \<and> (\<forall>e \<in> set es. se_source e = se_source first \<and> se_product e = se_product first \<and> se_source_subject e = se_source_subject first)
     \<and> sent \<le> latest \<and> (\<forall>e \<in> set es. se_occurred_at_time e \<le> latest)
     \<and> latest \<in> insert sent (se_occurred_at_time ` set es)"
proof (induction cfg first es sent arbitrary: vs rule: import_records.induct)
  case (2 cfg first e es sent)
  then show ?case by (fastforce simp: result_simps Let_def split: if_splits)
qed simp

text \<open>
  C20. Every batch that the importer builds from decoded lines is one of the product stream of a
  product of the registry, under the opaque key of that product and a well-formed subject key, holds
  one record per line in their order, each of a kind of the product with safe version values and a
  storable instant that is not after sent_at, and sent_at is the latest of these instants.
\<close>

theorem imported_batch_registered:
  assumes "build_batch cfg es = Inr (b, body)" and "\<And>e. e \<in> set es \<Longrightarrow> \<exists>data. decode_event data = Inr e"
  shows "(\<exists>sp. lookup_product (product_id (header_scope (header b))) = Some sp \<and> product_key b = opaque_key_of sp
        \<and> stream (header b) = StreamProduct \<and> StreamProduct \<in> set (spec_streams sp)
        \<and> (\<forall>v \<in> set (product_records b). kind (the_record v) \<in> set (spec_product_kinds sp)))
    \<and> scope_ok (header_scope (header b))
    \<and> common_records b = [] \<and> technical_records b = [] \<and> plays_records b = [] \<and> outcome_records b = []
    \<and> map occurred_at_time (product_records b) = map se_occurred_at_time es
    \<and> sent_at_time b \<in> se_occurred_at_time ` set es
    \<and> (\<forall>v \<in> set (product_records b). storable (occurred_at_time v) \<and> occurred_at_time v \<le> sent_at_time b
         \<and> safe_value_pattern (app_version (app (the_record v))) \<and> safe_value_pattern (app_build (app (the_record v)))
         \<and> safe_value_pattern (app_os_version (app (the_record v))))"
proof -
  from assms(1) obtain first rest where es: "es = first # rest" by (cases es) (auto simp: build_batch_def)
  from assms(1) obtain vs latest where vs: "import_records cfg first es (se_occurred_at_time first) = Inr (vs, latest)"
    and b: "product_records b = vs" "sent_at_time b = latest" "stream (header b) = StreamProduct"
      "header_scope (header b) = \<lparr>product_id = se_product first,
        subject_key = import_subject_key cfg (se_product first) (se_source first) (se_source_subject first), person_key = None, org_key = None\<rparr>"
      "product_key b = (case lookup_product (se_product first) of None \<Rightarrow> [] | Some sp \<Rightarrow> opaque_key_of sp)"
      "common_records b = []" "technical_records b = []" "plays_records b = []" "outcome_records b = []"
    by (auto simp: build_batch_def es Let_def result_simps)
  note records = import_records_Inr [OF vs]
  have ok: "import_event_ok e" if "e \<in> set es" for e using assms(2) [OF that] decode_event_ok by blast
  then obtain sp where sp: "lookup_product (se_product first) = Some sp" "StreamProduct \<in> set (spec_streams sp)"
    by (auto simp: es import_event_ok_def)
  then have product: "se_product first \<in> set (map fst registry)" by (force simp: lookup_product_def dest: map_of_SomeD)
  have kinds: "se_kind e \<in> set (spec_product_kinds sp)" if "e \<in> set es" for e
  proof -
    from records that have "se_product e = se_product first" by blast
    with ok [OF that] sp(1) show ?thesis by (simp add: import_event_ok_def)
  qed
  have safe: "safe_value = safe_value_pattern" by (simp only: safe_value_def safe_value_pattern_def safe_char_def [abs_def])
  have scope: "scope_ok (header_scope (header b))"
    using product by (simp add: b(4) scope_ok_def import_subject_key_def opaque_key_hex_encode)
  have each: "storable (occurred_at_time v) \<and> occurred_at_time v \<le> sent_at_time b \<and> kind (the_record v) \<in> set (spec_product_kinds sp)
      \<and> safe_value_pattern (app_version (app (the_record v))) \<and> safe_value_pattern (app_build (app (the_record v)))
      \<and> safe_value_pattern (app_os_version (app (the_record v)))" if "v \<in> set (product_records b)" for v
  proof -
    from that records b(1) obtain e where e: "e \<in> set es" "v = \<lparr>the_record = import_record cfg e, occurred_at_time = se_occurred_at_time e\<rparr>"
      by auto
    with ok [OF e(1)] kinds [OF e(1)] records b(2) show ?thesis
      by (simp add: import_event_ok_def import_record_def safe)
  qed
  have latest: "sent_at_time b \<in> se_occurred_at_time ` set es" using records b(2) by (auto simp: es)
  have times: "map occurred_at_time (product_records b) = map se_occurred_at_time es" using records b(1) by (simp add: comp_def)
  from sp b(3-9) scope each latest times show ?thesis by auto
qed

text \<open>The sample leaves its locale out: its batch is stored although ParseBatch accepts no batch like it.\<close>

theorem imported_batch_registered_witness:
  "scope_ok (header_scope (header imported_batch)) \<and> stream (header imported_batch) = StreamProduct
    \<and> (\<exists>r s'. insert_v2 store_cfg imported_batch (body_sha256 imported_body) (sample_conn (\<lambda>_. Served)) = (Inr r, s'))
    \<and> (\<forall>lib now. \<not> valid_batch (lib :: string uuid_lib) now imported_batch)"
proof -
  have "\<not> valid_batch lib now imported_batch" for lib :: "string uuid_lib" and now
    by (auto simp: valid_batch_def streams_ok_def checked_def base_ok_def app_ok_def imported_batch_simps
        import_record_def import_sample_def app_locales_def)
  with imported_batch_registered [OF imported_built] decode_import_sample imported_stored show ?thesis by auto
qed

subsection \<open>The batches of an import\<close>

lemma new_importer_counts: "imp_events new_importer = 0" "imp_batches new_importer = 0"
  by (simp_all add: new_importer_def)

text \<open>
  C9. The importer is the fold of InsertV2 over the reference batches: its events cut where source,
  product or subject changes and into pieces of at most 500. Unless it is interrupted, a run over
  lines that fit the buffer returns exactly when every line is an event, the events of a subject are
  adjacent and storing the batches one after the other returns; whenever the lines are such events,
  the store is left as by that fold, and a run that returns has counted every line and every batch.
\<close>

theorem import_stores_reference_batches:
  assumes "never_cancelled cfg" and "scan_lines input = (ls, False)" and "consume cfg input (new_importer, s) = (r, (i, s'))"
  shows "(returned r \<longleftrightarrow> (\<exists>es. traverse decode_event ls = Inr es \<and> grouped cfg es
        \<and> returned (fst (each (store_chunk cfg) (reference_batches cfg es) s))))
    \<and> (\<forall>es. traverse decode_event ls = Inr es \<longrightarrow> grouped cfg es \<longrightarrow>
         s' = snd (each (store_chunk cfg) (reference_batches cfg es) s)
         \<and> (returned r \<longrightarrow> imp_events i = of_nat (length ls) \<and> imp_batches i = of_nat (length (reference_batches cfg es))))"
proof -
  from assms(3) have run: "import_rest cfg 0 ls (new_importer, s) = (r, (i, s'))" by (simp add: consume_rest [OF assms(2)])
  have stores: "s' = snd (each (store_chunk cfg) (reference_batches cfg es) s)
      \<and> (returned r \<longleftrightarrow> returned (fst (each (store_chunk cfg) (reference_batches cfg es) s)))
      \<and> (returned r \<longrightarrow> imp_events i = of_nat (length ls) \<and> imp_batches i = of_nat (length (reference_batches cfg es)))"
    if "traverse decode_event ls = Inr es" "grouped cfg es" for es
    using import_rest_stores [OF assms(1) new_importer_position that(1), of s 0] that traverse_length [OF that(1)]
    by (simp add: in_order_reference plan_reference carries_out_def run new_importer_counts)
  have "\<exists>es. traverse decode_event ls = Inr es \<and> grouped cfg es" if "returned r"
    using import_rest_returns [OF assms(1) new_importer_position, of 0 ls s _ "(i, s')"] that run
    by (cases r) (auto simp: in_order_reference)
  with stores show ?thesis by blast
qed

theorem import_stores_reference_batches_witness:
  "\<exists>i s'. consume import_cfg import_line_text (new_importer, sample_conn (\<lambda>_. Served)) = (Inr (), (i, s'))
    \<and> s' = snd (store_chunk import_cfg [import_sample] (sample_conn (\<lambda>_. Served))) \<and> imp_events i = 1 \<and> imp_batches i = 1"
proof -
  from import_sample_runs obtain i s' where run: "consume import_cfg import_line_text (new_importer, sample_conn (\<lambda>_. Served)) = (Inr (), (i, s'))"
    by blast
  from import_stores_reference_batches [OF _ scan_import_sample run] run show ?thesis
    by (auto simp: decode_import_sample sample_reference seq_def ret_def split: prod.splits sum.splits)
qed

text \<open>
  C19. Importing an input again is harmless and is reported as such: after a run that returned, a run
  over the same input on the tables that it left changes no table, whatever calls break in it; it
  only fails when a call broke, and when it returns it has counted every batch as replayed.
\<close>

theorem import_again_replays:
  assumes "ordered_driver (import_store cfg)" and "\<not> dry_run cfg" and "whole_ledger (import_store cfg) (db s)"
    and "consume cfg input (new_importer, s) = (Inr (), (i, s'))"
    and "db t = db s'" and "consume cfg input (new_importer, t) = (r, (j, t'))"
  shows "db t' = db s' \<and> (returned r \<or> (\<exists>n. faults t n \<noteq> Served))
    \<and> (returned r \<longrightarrow> imp_replayed j = imp_batches j \<and> imp_batches j = imp_batches i \<and> imp_events j = imp_events i)"
proof -
  have start: "all_replayed new_importer = new_importer" by (simp add: all_replayed_def new_importer_def)
  from repeatsD(3) [OF consume_repeats [OF assms(1,2)] assms(3,4), of t] assms(5,6)
  have "db t' = db t" "returned r \<and> j = all_replayed i \<or> (\<exists>n. faults t n \<noteq> Served) \<and> (\<forall>y. r \<noteq> Inr y)"
    by (auto simp: start)
  with assms(5) show ?thesis by (auto simp: returned_iff all_replayed_def)
qed

theorem import_again_replays_witness:
  "\<exists>i s' j t'. consume import_cfg import_line_text (new_importer, sample_conn (\<lambda>_. Served)) = (Inr (), (i, s'))
    \<and> db s' \<noteq> no_rows
    \<and> consume import_cfg import_line_text (new_importer, s'\<lparr>faults := \<lambda>_. Served\<rparr>) = (Inr (), (j, t'))
    \<and> db t' = db s' \<and> imp_replayed j = imp_batches i"
proof -
  have ms: "ordered_driver (import_store import_cfg)" using store_cfg_good by (simp add: good_driver_def)
  have w: "whole_ledger (import_store import_cfg) (db (sample_conn (\<lambda>_. Served)))" by (simp add: sample_start whole_ledger_def no_rows_def)
  from import_sample_runs obtain i s' where run: "consume import_cfg import_line_text (new_importer, sample_conn (\<lambda>_. Served)) = (Inr (), (i, s'))"
    "db s' \<noteq> no_rows" by blast
  obtain r j t' where again: "consume import_cfg import_line_text (new_importer, s'\<lparr>faults := \<lambda>_. Served\<rparr>) = (r, (j, t'))"
    by (cases "consume import_cfg import_line_text (new_importer, s'\<lparr>faults := \<lambda>_. Served\<rparr>)") auto
  from import_again_replays [OF ms _ w run(1) _ again] run again show ?thesis by (auto simp: returned_iff)
qed

end
