(* ===== verification/Httpx.thy ===== *)
theory Httpx
  imports Go_Http Go_Json_Encode Go_Effects
begin

section \<open>internal/httpx: bodies, JSON replies and middleware\<close>

text \<open>
  A handler is a function of the request and of the response headers set so far; it is an action
  with the response it writes. A middleware is a function of handlers. \<open>incoming\<close> is a request as
  the server gets it: its body may end in an error of the connection. mime.ParseMediaType is
  modelled to the extent that decides whether it reports an error. Lower-casing is
  that of strings.ToLower on what can become ASCII: besides the ASCII letters, the Kelvin sign and
  the dotted capital I; any other letter stays outside ASCII. Logging is left out, statusRecorder
  is there with what it records.
\<close>

record incoming = request +
  body_broken :: bool

record response =
  resp_status :: int
  resp_header :: http_header
  resp_body :: string

type_synonym 's handler = "incoming \<Rightarrow> http_header \<Rightarrow> ('s, response) action"

subsection \<open>Media types\<close>

fun lower_text :: "string \<Rightarrow> string" where
  "lower_text [] = []"
| "lower_text (c # r) =
     (if has_prefix (c # r) [CHR 0xE2, CHR 0x84, CHR 0xAA] then CHR ''k'' # lower_text (drop 2 r)
      else if has_prefix (c # r) [CHR 0xC4, CHR 0xB0] then CHR ''i'' # lower_text (drop 1 r)
      else ascii_lower c # lower_text r)"

definition is_tspecial :: "char \<Rightarrow> bool" where
  "is_tspecial c = List.member (''()<>@,;:/[]?='' @ [CHR 0x5C, CHR 0x22]) c"

definition is_token_char :: "char \<Rightarrow> bool" where
  "is_token_char c = (32 < (of_char c :: nat) \<and> (of_char c :: nat) < 127 \<and> \<not> is_tspecial c)"

definition consume_token :: "string \<Rightarrow> string \<times> string" where
  "consume_token v = (takeWhile is_token_char v, dropWhile is_token_char v)"

fun quoted_value :: "string \<Rightarrow> string \<Rightarrow> (string \<times> string) option" where
  "quoted_value [] acc = None"
| "quoted_value (c # r) acc =
     (if c = CHR 0x22 then Some (rev acc, r)
      else if c = CHR 0x5C \<and> r \<noteq> [] \<and> is_tspecial (hd r) then quoted_value (tl r) (hd r # acc)
      else if c = CHR 0x0D \<or> c = CHR 0x0A then None
      else quoted_value r (c # acc))"

definition consume_value :: "string \<Rightarrow> string \<times> string" where
  "consume_value v =
     (if v = [] then ([], [])
      else if hd v \<noteq> CHR 0x22 then consume_token v
      else case quoted_value (tl v) [] of None \<Rightarrow> ([], v) | Some x \<Rightarrow> x)"

text \<open>The next parameter, or None when the text does not begin with one.\<close>

definition consume_media_param :: "string \<Rightarrow> (string \<times> string \<times> string) option" where
  "consume_media_param v =
     (let rest = trim_left space_runes v in
      if \<not> has_prefix rest '';'' then None
      else case consume_token (trim_left space_runes (tl rest)) of
        (param, rest) \<Rightarrow>
          if param = [] then None
          else
            let rest = trim_left space_runes rest
            in if \<not> has_prefix rest ''='' then None
               else
                 let rest = trim_left space_runes (tl rest); (val, rest2) = consume_value rest
                 in if val = [] \<and> rest2 = rest then None else Some (lower_text param, val, rest2))"

text \<open>The loop over parameters; each takes at least a character, so the fuel is the length.\<close>

fun media_params :: "nat \<Rightarrow> string \<Rightarrow> (string \<times> string) list \<Rightarrow> bool" where
  "media_params 0 v seen = (trim_left space_runes v = [])"
| "media_params (Suc n) v seen =
     (let v = trim_left space_runes v in
      if v = [] then True
      else case consume_media_param v of
        None \<Rightarrow> trim_space v = '';''
      | Some (k, val, rest) \<Rightarrow>
          (case map_of seen k of
             Some old \<Rightarrow> old = val \<and> media_params n rest seen
           | None \<Rightarrow> media_params n rest ((k, val) # seen)))"

definition media_type :: "string \<Rightarrow> string option" where
  "media_type v =
     (let base = takeWhile (\<lambda>c. c \<noteq> CHR '';'') v; kind = trim_space (lower_text base);
          (typ, rest) = consume_token kind
      in if typ = [] then None
         else if rest \<noteq> [] \<and> (hd rest \<noteq> CHR ''/'' \<or> fst (consume_token (tl rest)) = [] \<or> snd (consume_token (tl rest)) \<noteq> [])
         then None
         else if media_params (length v) (drop (length base) v) [] then Some kind else None)"

definition is_json :: "incoming \<Rightarrow> bool" where
  "is_json r = (media_type (header_get (req_header r) ''Content-Type'') = Some ''application/json'')"

subsection \<open>Bodies and replies\<close>

definition max_bytes_error :: go_error where
  "max_bytes_error = Err ''http: request body too large''"

definition read_body :: "nat \<Rightarrow> incoming \<Rightarrow> string result" where
  "read_body limit r =
     wrap ''read request body''
       (if length (req_body r) > limit then Inl max_bytes_error
        else if body_broken r then Inl (Err ''unexpected EOF'') else Inr (req_body r))"

definition httpx_decode_strict :: "'r into \<Rightarrow> string \<Rightarrow> 'r \<Rightarrow> 'r result" where
  "httpx_decode_strict into data destination =
     (let trimmed = trim_space data in
      reject (trimmed = [] \<or> hd trimmed \<noteq> CHR ''{'') (Err ''expected JSON object'')
        (from_option (Err ''invalid JSON object'')
          (Option.bind (Option.bind (lex trimmed) json_decode) (\<lambda>v. into v destination))))"

definition write_json :: "int \<Rightarrow> json \<Rightarrow> http_header \<Rightarrow> response" where
  "write_json status v hdr =
     \<lparr>resp_status = status, resp_header = header_set ''Content-Type'' ''application/json; charset=utf-8'' hdr,
      resp_body = json_text v @ [CHR 0x0A]\<rparr>"

definition write_error :: "int \<Rightarrow> string \<Rightarrow> http_header \<Rightarrow> response" where
  "write_error status code = write_json status (JObj [(''error'', JStr code)])"

subsection \<open>Middleware\<close>

definition allowed_cors_headers :: "string \<Rightarrow> bool" where
  "allowed_cors_headers v =
     (trim_space v = []
      \<or> list_all (\<lambda>h. List.member [''authorization'', ''content-type'', ''idempotency-key''] (trim_space h))
          (split_on (CHR '','') (lower_text v)))"

definition cors_headers :: "string \<Rightarrow> http_header \<Rightarrow> http_header" where
  "cors_headers origin hdr =
     header_add ''Vary'' ''Origin''
    (header_set ''Access-Control-Max-Age'' ''600''
    (header_set ''Access-Control-Allow-Headers'' ''Authorization, Content-Type, Idempotency-Key''
    (header_set ''Access-Control-Allow-Methods'' ''POST, OPTIONS''
    (header_set ''Access-Control-Allow-Origin'' origin hdr))))"

definition cors :: "string list \<Rightarrow> 's handler \<Rightarrow> 's handler" where
  "cors origins next_handler r hdr =
     (let origin = header_get (req_header r) ''Origin'' in
      if origin = [] then next_handler r hdr
      else if \<not> List.member origins origin then ret (write_error 403 ''origin_not_allowed'' hdr)
      else
        let hdr = cors_headers origin hdr
        in if req_method r = ''OPTIONS'' then
             if header_get (req_header r) ''Access-Control-Request-Method'' \<noteq> ''POST''
                \<or> \<not> allowed_cors_headers (header_get (req_header r) ''Access-Control-Request-Headers'')
             then ret (write_error 403 ''cors_preflight_not_allowed'' hdr)
             else ret \<lparr>resp_status = 204, resp_header = hdr, resp_body = []\<rparr>
           else next_handler r hdr)"

definition quoted_word :: "string \<Rightarrow> string" where
  "quoted_word w = CHR 0x27 # w @ [CHR 0x27]"

definition security_headers :: "'s handler \<Rightarrow> 's handler" where
  "security_headers next_handler r hdr =
     next_handler r
      (header_set ''X-Frame-Options'' ''DENY''
      (header_set ''X-Content-Type-Options'' ''nosniff''
      (header_set ''Strict-Transport-Security'' ''max-age=31536000; includeSubDomains''
      (header_set ''Referrer-Policy'' ''no-referrer''
      (header_set ''Permissions-Policy'' ''camera=(), microphone=(), geolocation=()''
      (header_set ''Content-Security-Policy'' (''default-src '' @ quoted_word ''none'' @ ''; frame-ancestors '' @ quoted_word ''none'')
      (header_set ''Cache-Control'' ''no-store'' hdr)))))))"

record status_recorder =
  recorded_status :: int
  wrote_header :: bool

text \<open>WriteHeader on the recorder: the statuses that reach the inner writer, and the new recorder.\<close>

definition recorder_write_header :: "int \<Rightarrow> status_recorder \<Rightarrow> int list \<times> status_recorder" where
  "recorder_write_header status rec =
     (if wrote_header rec then ([], rec)
      else ([status], rec\<lparr>wrote_header := True, recorded_status := status\<rparr>))"

subsection \<open>Handlers of JSON requests\<close>

text \<open>The checks that all handlers of JSON bodies begin with, and the answer to an unreadable body.\<close>

definition require_json :: "'s handler \<Rightarrow> 's handler" where
  "require_json k r hdr =
     (if \<not> is_json r then ret (write_error 415 ''content_type_must_be_application_json'' hdr) else k r hdr)"

definition write_body_error :: "go_error \<Rightarrow> http_header \<Rightarrow> response" where
  "write_body_error e hdr =
     (if errors_is e max_bytes_error then write_error 413 ''body_too_large'' hdr
      else write_error 400 ''invalid_body'' hdr)"

definition with_body :: "nat \<Rightarrow> (string \<Rightarrow> 's handler) \<Rightarrow> 's handler" where
  "with_body limit k r hdr =
     (case read_body limit r of Inl e \<Rightarrow> ret (write_body_error e hdr) | Inr body \<Rightarrow> k body r hdr)"

lemma read_body_Inr [result_simps]:
  "read_body limit r = Inr body \<longleftrightarrow> body = req_body r \<and> length body \<le> limit \<and> \<not> body_broken r"
  by (auto simp: read_body_def wrap_def)

text \<open>What a handler keeps, given what the code behind its checks keeps.\<close>

lemma keeps_require_json: "(is_json r \<Longrightarrow> keeps I (k r hdr)) \<Longrightarrow> keeps I (require_json k r hdr)"
  by (simp add: require_json_def keeps_simps)

lemma keeps_with_body:
  assumes "read_body limit r = Inr (req_body r) \<Longrightarrow> keeps I (k (req_body r) r hdr)"
  shows "keeps I (with_body limit k r hdr)"
proof (cases "read_body limit r")
  case (Inl e)
  then show ?thesis by (simp add: with_body_def keeps_simps)
next
  case (Inr body)
  then have "body = req_body r" by (simp add: result_simps)
  with Inr assms show ?thesis by (simp add: with_body_def)
qed

end
