(* ===== verification/Collector_Client.thy ===== *)
theory Collector_Client
  imports Httpx Auth_Tokens
begin

section \<open>internal/collector/client.go: the collector's client of the writer\<close>

text \<open>
  HTTPWriter signs a request and sends it. The transport (http.Client) is an argument: an action
  from the endpoint and the request to an answer or an error. url.Parse of the configured base is
  an argument of the constructor, its result the record \<open>url\<close>; the endpoints are kept parsed, since
  String and Parse are inverse on what the constructor builds, and EscapedPath is \<open>escape_path\<close>.
\<close>

record url =
  url_scheme :: string
  url_host :: string
  url_user :: bool
  url_path :: string
  url_query :: string
  url_fragment :: string

definition path_char :: "char \<Rightarrow> bool" where
  "path_char c =
     (is_lower c \<or> is_lower (ascii_lower c) \<or> is_digit c \<or> List.member ''-_.~$&+,/:;=@'' c)"

fun escape_path :: "string \<Rightarrow> string" where
  "escape_path [] = []"
| "escape_path (c # r) =
     (if path_char c then [c] else CHR ''%'' # map ascii_upper (hex_encode [c])) @ escape_path r"

lemma escape_path_Nil [simp]: "escape_path p = [] \<longleftrightarrow> p = []"
  by (cases p) simp_all

record http_answer =
  answer_status :: int
  answer_body :: string

record 's http_writer =
  v1_endpoint :: url
  v2_batch_endpoint :: url
  v2_privacy_endpoint :: url
  v1_privacy_endpoint :: url
  fundraising_endpoint :: url
  hw_secret :: string
  service_signer :: service_signer
  client_do :: "url \<Rightarrow> request \<Rightarrow> ('s, http_answer) action"
  hw_now :: "('s, time) action"

definition ErrWriterConflict :: go_error where "ErrWriterConflict = Err ''writer idempotency conflict''"
definition ErrWriterSuppressed :: go_error where "ErrWriterSuppressed = Err ''writer scope suppressed''"

definition trim_right_slashes :: "string \<Rightarrow> string" where
  "trim_right_slashes s = rev (dropWhile (\<lambda>c. c = CHR ''/'') (rev s))"

definition writer_endpoint :: "url \<Rightarrow> string \<Rightarrow> url" where
  "writer_endpoint base path =
     base\<lparr>url_query := [], url_fragment := [], url_path := trim_right_slashes (url_path base) @ path\<rparr>"

definition new_http_writer_with_service_key ::
  "url option \<Rightarrow> string \<Rightarrow> service_key \<Rightarrow> (url \<Rightarrow> request \<Rightarrow> ('s, http_answer) action) \<Rightarrow> ('s, time) action
   \<Rightarrow> 's http_writer result" where
  "new_http_writer_with_service_key parsed v1_secret k transport now =
     (case parsed of
        None \<Rightarrow> Inl (Err ''invalid WRITER_URL'')
      | Some base \<Rightarrow>
          reject (url_scheme base = [] \<or> url_host base = [] \<or> url_user base) (Err ''invalid WRITER_URL'')
         (andthen (wrap ''configure service signer'' (new_service_signer k ''collector'')) (\<lambda>signer.
            let e = writer_endpoint base
            in Inr \<lparr>v1_endpoint = e ''/internal/v1/events'', v2_batch_endpoint = e ''/internal/v2/batches'',
                 v2_privacy_endpoint = e ''/internal/v2/privacy/requests'',
                 v1_privacy_endpoint = e ''/internal/v1/privacy/requests'',
                 fundraising_endpoint = e ''/internal/fundraising/batches'',
                 hw_secret = v1_secret, service_signer = signer, client_do = transport, hw_now = now\<rparr>)))"

lemma new_http_writer_Inr:
  assumes "new_http_writer_with_service_key (Some base) secret k transport now = Inr w"
  shows "hw_now w = now" "client_do w = transport" "service_signer w = \<lparr>signer_key = k, signer_caller = ''collector''\<rparr>"
    "url_path (v2_batch_endpoint w) = trim_right_slashes (url_path base) @ ''/internal/v2/batches''"
    "url_path (v2_privacy_endpoint w) = trim_right_slashes (url_path base) @ ''/internal/v2/privacy/requests''"
    "url_path (v1_privacy_endpoint w) = trim_right_slashes (url_path base) @ ''/internal/v1/privacy/requests''"
    "url_path (fundraising_endpoint w) = trim_right_slashes (url_path base) @ ''/internal/fundraising/batches''"
proof -
  let ?e = "writer_endpoint base"
  have "w = \<lparr>v1_endpoint = ?e ''/internal/v1/events'', v2_batch_endpoint = ?e ''/internal/v2/batches'',
      v2_privacy_endpoint = ?e ''/internal/v2/privacy/requests'', v1_privacy_endpoint = ?e ''/internal/v1/privacy/requests'',
      fundraising_endpoint = ?e ''/internal/fundraising/batches'', hw_secret = secret,
      service_signer = \<lparr>signer_key = k, signer_caller = ''collector''\<rparr>, client_do = transport, hw_now = now\<rparr>"
    using assms by (simp add: new_http_writer_with_service_key_def Let_def result_simps)
  then show "hw_now w = now" "client_do w = transport" "service_signer w = \<lparr>signer_key = k, signer_caller = ''collector''\<rparr>"
    "url_path (v2_batch_endpoint w) = trim_right_slashes (url_path base) @ ''/internal/v2/batches''"
    "url_path (v2_privacy_endpoint w) = trim_right_slashes (url_path base) @ ''/internal/v2/privacy/requests''"
    "url_path (v1_privacy_endpoint w) = trim_right_slashes (url_path base) @ ''/internal/v1/privacy/requests''"
    "url_path (fundraising_endpoint w) = trim_right_slashes (url_path base) @ ''/internal/fundraising/batches''"
    by (simp_all add: writer_endpoint_def)
qed

definition new_http_writer ::
  "url option \<Rightarrow> string \<Rightarrow> (url \<Rightarrow> request \<Rightarrow> ('s, http_answer) action) \<Rightarrow> ('s, time) action \<Rightarrow> 's http_writer result" where
  "new_http_writer parsed secret =
     new_http_writer_with_service_key parsed secret \<lparr>key_id = ''default'', key_secret = secret\<rparr>"

text \<open>The request that reaches the server: method, escaped path, headers and body.\<close>

definition post_request :: "url \<Rightarrow> http_header \<Rightarrow> string \<Rightarrow> request" where
  "post_request endpoint hdr body =
     \<lparr>req_method = ''POST'', req_path = escape_path (url_path endpoint), req_header = hdr, req_body = body\<rparr>"

definition http_write :: "'s http_writer \<Rightarrow> string \<Rightarrow> ('s, unit) action" where
  "http_write w body =
     seq (hw_now w) (\<lambda>t.
     case sign_writer_request (hw_secret w) body t of
       (timestamp, body_sha, signature) \<Rightarrow>
         let hdr = header_set ''X-Linka-Signature'' signature
           (header_set ''X-Linka-Body-SHA256'' body_sha
           (header_set ''X-Linka-Timestamp'' timestamp
           (header_set ''Content-Type'' ''application/json'' [])))
         in seq (wrapping ''call writer'' (client_do w (v1_endpoint w) (post_request (v1_endpoint w) hdr body))) (\<lambda>a.
            if answer_status a = 403 then fail ErrWriterSuppressed
            else if answer_status a < 200 \<or> answer_status a \<ge> 300 then fail (Err ''writer returned HTTP'')
            else ret ()))"

text \<open>Decode of the first value into a struct; members that it does not name are skipped.\<close>

fun into_known :: "(string \<times> 'r into) list \<Rightarrow> 'r into" where
  "into_known tbl (JObj ms) r = into_struct tbl (JObj (filter (\<lambda>m. find_field tbl (fst m) \<noteq> None) ms)) r"
| "into_known tbl v r = into_struct tbl v r"

text \<open>What the client makes of an answer: its status, then the first value of its first 16 KiB.\<close>

definition answer_result :: "(string \<times> 'r into) list \<Rightarrow> 'r \<Rightarrow> http_answer \<Rightarrow> 'r result" where
  "answer_result tbl destination a =
     reject (answer_status a = 409) ErrWriterConflict
    (reject (answer_status a = 403) ErrWriterSuppressed
    (reject (answer_status a < 200 \<or> answer_status a \<ge> 300) (Err ''writer returned HTTP'')
    (wrap ''decode writer response''
      (from_option (Err ''invalid JSON'')
        (Option.bind (json_first (take (16 * 1024) (answer_body a))) (\<lambda>v. into_known tbl v destination))))))"

definition call_v2 ::
  "'s http_writer \<Rightarrow> url \<Rightarrow> string \<Rightarrow> string \<Rightarrow> (string \<times> 'r into) list \<Rightarrow> 'r \<Rightarrow> ('s, 'r) action" where
  "call_v2 w endpoint rid body tbl destination =
     seq (hw_now w) (\<lambda>t.
     seq (wrapping ''sign writer request''
       (lift (sign_service (service_signer w) t ''POST'' (escape_path (url_path endpoint)) rid body))) (\<lambda>h.
     let hdr = apply_service_headers h
       (header_set ''Idempotency-Key'' rid (header_set ''Content-Type'' ''application/json'' []))
     in seq (wrapping ''call writer'' (client_do w endpoint (post_request endpoint hdr body))) (\<lambda>a.
        lift (answer_result tbl destination a))))"

record write_result =
  write_count :: int
  write_replayed :: bool

record privacy_write_result =
  pw_status :: string
  pw_replayed :: bool

definition write_result_fields :: "(string \<times> write_result into) list" where
  "write_result_fields =
     [fld ''accepted_records'' write_count write_count_update into_int64,
      fld ''replayed'' write_replayed write_replayed_update into_bool]"

definition privacy_write_fields :: "(string \<times> privacy_write_result into) list" where
  "privacy_write_fields =
     [fld ''status'' pw_status pw_status_update into_string,
      fld ''replayed'' pw_replayed pw_replayed_update into_bool]"

definition http_write_v2 :: "'s http_writer \<Rightarrow> string \<Rightarrow> string \<Rightarrow> ('s, write_result) action" where
  "http_write_v2 w rid body =
     call_v2 w (v2_batch_endpoint w) rid body write_result_fields \<lparr>write_count = 0, write_replayed = False\<rparr>"

definition http_write_fundraising :: "'s http_writer \<Rightarrow> string \<Rightarrow> string \<Rightarrow> ('s, write_result) action" where
  "http_write_fundraising w rid body =
     call_v2 w (fundraising_endpoint w) rid body write_result_fields \<lparr>write_count = 0, write_replayed = False\<rparr>"

definition http_write_privacy :: "'s http_writer \<Rightarrow> string \<Rightarrow> string \<Rightarrow> ('s, privacy_write_result) action" where
  "http_write_privacy w rid body =
     call_v2 w (v2_privacy_endpoint w) rid body privacy_write_fields \<lparr>pw_status = [], pw_replayed = False\<rparr>"

definition http_write_legacy_privacy :: "'s http_writer \<Rightarrow> string \<Rightarrow> string \<Rightarrow> ('s, privacy_write_result) action" where
  "http_write_legacy_privacy w rid body =
     call_v2 w (v1_privacy_endpoint w) rid body privacy_write_fields \<lparr>pw_status = [], pw_replayed = False\<rparr>"

end
