(* ===== verification/Writer_Server.thy ===== *)
theory Writer_Server
  imports Httpx Privacy_Worker Store_V2 Store_V1_Fundraising Store_Privacy Auth_Tokens
begin

section \<open>internal/writer/server.go: the private writer\<close>

text \<open>
  The interfaces Store, StoreV2 and FundraisingStore are records of actions on any state; a Server
  holds them with the keys and the clock. Each handler is one function: media type, body, signature,
  contract, Idempotency-Key, store, in the order of the source. A panic of the store passes through
  the handler (\<open>attempting\<close> does not catch it). \<open>writer_routes\<close> is what newServer registers, each
  handler behind the security headers; how chi finds a route is left to the caller.
\<close>

record 's event_store =
  store_ping :: "('s, unit) action"
  store_insert :: "validated_batch_v1 \<Rightarrow> ('s, unit) action"

record 's store_v2 =
  store_insert_v2 :: "validated_batch \<Rightarrow> string \<Rightarrow> ('s, ingest_result) action"
  store_create_privacy :: "validated_privacy_request \<Rightarrow> string \<Rightarrow> ('s, privacy_result) action"
  store_create_legacy_privacy :: "validated_privacy_v1 \<Rightarrow> string \<Rightarrow> ('s, privacy_result) action"

record 's fundraising_store =
  store_insert_fundraising :: "fr_validated_batch \<Rightarrow> string \<Rightarrow> ('s, fr_result) action"

record 's writer_server =
  ws_store :: "'s event_store"
  ws_store_v2 :: "'s store_v2 option"
  ws_fundraising :: "'s fundraising_store option"
  ws_secret :: string
  ws_verifier :: "service_verifier option"
  ws_max_skew :: duration
  ws_now :: "('s, time) action"

definition MaxBatchBytesV1 :: nat where "MaxBatchBytesV1 = 512 * 1024"

definition number :: "nat \<Rightarrow> json" where
  "number n = JNum (format_int (int n))"

text \<open>The answers to an accepted batch and to an accepted privacy request.\<close>

definition batch_answer :: "string \<Rightarrow> nat \<Rightarrow> bool \<Rightarrow> http_header \<Rightarrow> response" where
  "batch_answer i n replayed =
     write_json 202 (JObj [(''accepted_records'', number n), (''batch_id'', JStr i), (''replayed'', JBool replayed)])"

definition privacy_answer :: "string \<Rightarrow> string \<Rightarrow> bool \<Rightarrow> http_header \<Rightarrow> response" where
  "privacy_answer i status replayed =
     write_json 202 (JObj [(''replayed'', JBool replayed), (''request_id'', JStr i), (''status'', JStr status)])"

text \<open>The check of the service signature, with the clock of the verifier.\<close>

definition with_signature ::
  "('s, time) action \<Rightarrow> service_verifier \<Rightarrow> string \<Rightarrow> (service_headers \<Rightarrow> string \<Rightarrow> 's handler) \<Rightarrow> string \<Rightarrow> 's handler" where
  "with_signature now v code k body r hdr =
     (let h = service_headers_from_request (request.truncate r) in
      seq now (\<lambda>t.
      case verify_service v t (req_method r) (req_path r) body h of
        Inl _ \<Rightarrow> ret (write_error 401 code hdr)
      | Inr _ \<Rightarrow> k h body r hdr))"

definition idempotency_key_ok :: "'u uuid_lib \<Rightarrow> incoming \<Rightarrow> service_headers \<Rightarrow> string \<Rightarrow> bool" where
  "idempotency_key_ok lib r h body_id =
     (let key = header_get (req_header r) ''Idempotency-Key''
      in returned (validate_idempotency_key lib key body_id) \<and> sh_request_id h = key)"

definition writer_fundraising_batches ::
  "'u uuid_lib \<Rightarrow> 's writer_server \<Rightarrow> 's fundraising_store \<Rightarrow> service_verifier \<Rightarrow> 's handler" where
  "writer_fundraising_batches lib srv st v =
     require_json (with_body FrMaxBatchBytes (with_signature (ws_now srv) v ''invalid_service_signature''
       (\<lambda>h body r hdr.
     seq (ws_now srv) (\<lambda>t.
     case fr_parse_batch lib body t of
       Inl _ \<Rightarrow> ret (write_error 400 ''invalid_fundraising_batch'' hdr)
     | Inr batch \<Rightarrow>
         if \<not> idempotency_key_ok lib r h (fr_batch_id (fr_batch batch))
         then ret (write_error 400 ''invalid_idempotency_key'' hdr)
         else
           seq (attempting (store_insert_fundraising st batch (body_sha256 body))) (\<lambda>outcome.
           case outcome of
             Inl e \<Rightarrow>
               if errors_is e FrErrIdempotencyConflict then ret (write_error 409 ''idempotency_conflict'' hdr)
               else ret (write_error 503 ''store_unavailable'' hdr)
           | Inr result \<Rightarrow>
               ret (batch_answer (fr_batch_id (fr_batch batch)) (fr_result_count result) (fr_result_replayed result) hdr))))))"

definition writer_health :: "'s writer_server \<Rightarrow> 's handler" where
  "writer_health srv r hdr =
     seq (attempting (store_ping (ws_store srv))) (\<lambda>outcome.
     case outcome of
       Inl _ \<Rightarrow> ret (write_error 503 ''store_unavailable'' hdr)
     | Inr _ \<Rightarrow> ret (write_json 200 (JObj [(''status'', JStr ''ok'')]) hdr))"

definition writer_events :: "'u uuid_lib \<Rightarrow> 's writer_server \<Rightarrow> 's handler" where
  "writer_events lib srv =
     require_json (with_body MaxBatchBytesV1 (\<lambda>body r hdr.
     seq (ws_now srv) (\<lambda>t.
     case verify_writer_request (ws_secret srv) body t (ws_max_skew srv)
         (header_get (req_header r) ''X-Linka-Timestamp'') (header_get (req_header r) ''X-Linka-Body-SHA256'')
         (header_get (req_header r) ''X-Linka-Signature'') of
       Inl _ \<Rightarrow> ret (write_error 401 ''invalid_writer_signature'' hdr)
     | Inr _ \<Rightarrow>
       (case parse_batch_v1 lib body of
          Inl _ \<Rightarrow> ret (write_error 400 ''invalid_event_batch'' hdr)
        | Inr batch \<Rightarrow>
            seq (attempting (store_insert (ws_store srv) batch)) (\<lambda>outcome.
            case outcome of
              Inl e \<Rightarrow>
                if errors_is e ErrSuppressed then ret (write_error 403 ''telemetry_suppressed'' hdr)
                else ret (write_error 503 ''store_unavailable'' hdr)
            | Inr _ \<Rightarrow>
                ret (write_json 202 (JObj [(''inserted_events'', number (length (vb_events batch))),
                  (''inserted_session_summaries'', number (length (vb_summaries batch)))]) hdr))))))"

text \<open>The answer to the outcome of InsertV2.\<close>

definition writer_batch_outcome :: "string \<Rightarrow> ingest_result result \<Rightarrow> http_header \<Rightarrow> response" where
  "writer_batch_outcome i res hdr =
     (case res of
        Inl e \<Rightarrow>
          if errors_is e ErrIdempotencyConflict then write_error 409 ''idempotency_conflict'' hdr
          else if errors_is e ErrDuplicateRecord then write_error 409 ''duplicate_record_id'' hdr
          else if errors_is e ErrSuppressed then write_error 403 ''telemetry_suppressed'' hdr
          else write_error 503 ''store_unavailable'' hdr
      | Inr result \<Rightarrow> batch_answer i (result_count result) (result_replayed result) hdr)"

definition writer_batches_v2 ::
  "'u uuid_lib \<Rightarrow> 's writer_server \<Rightarrow> 's store_v2 \<Rightarrow> service_verifier \<Rightarrow> 's handler" where
  "writer_batches_v2 lib srv st v =
     require_json (with_body MaxBatchBytes (with_signature (ws_now srv) v ''invalid_service_signature''
       (\<lambda>h body r hdr.
     seq (ws_now srv) (\<lambda>t.
     case parse_batch lib body t of
       Inl _ \<Rightarrow> ret (write_error 400 ''invalid_batch'' hdr)
     | Inr batch \<Rightarrow>
         if \<not> idempotency_key_ok lib r h (batch_id (header batch))
         then ret (write_error 400 ''invalid_idempotency_key'' hdr)
         else
           seq (attempting (store_insert_v2 st batch (body_sha256 body))) (\<lambda>outcome.
           ret (writer_batch_outcome (batch_id (header batch)) outcome hdr))))))"

text \<open>The answer to the outcome of a privacy operation of the store.\<close>

definition writer_privacy_outcome :: "string \<Rightarrow> privacy_result result \<Rightarrow> http_header \<Rightarrow> response" where
  "writer_privacy_outcome i res hdr =
     (case res of
        Inl e \<Rightarrow>
          if errors_is e ErrIdempotencyConflict then write_error 409 ''idempotency_conflict'' hdr
          else write_error 503 ''store_unavailable'' hdr
      | Inr result \<Rightarrow> privacy_answer i (privacy_status result) (privacy_replayed result) hdr)"

definition writer_privacy_v1 ::
  "'u uuid_lib \<Rightarrow> 's writer_server \<Rightarrow> 's store_v2 \<Rightarrow> service_verifier \<Rightarrow> 's handler" where
  "writer_privacy_v1 lib srv st v =
     require_json (with_body (16 * 1024) (with_signature (ws_now srv) v ''invalid_service_signature''
       (\<lambda>h body r hdr.
     seq (ws_now srv) (\<lambda>t.
     case parse_internal_privacy_request lib body t of
       Inl _ \<Rightarrow> ret (write_error 400 ''invalid_privacy_request'' hdr)
     | Inr p \<Rightarrow>
         if \<not> idempotency_key_ok lib r h (pv_request_id (vp_request p))
         then ret (write_error 400 ''invalid_idempotency_key'' hdr)
         else
           seq (attempting (store_create_legacy_privacy st p (body_sha256 body))) (\<lambda>outcome.
           ret (writer_privacy_outcome (pv_request_id (vp_request p)) outcome hdr))))))"

definition writer_privacy_v2 ::
  "'u uuid_lib \<Rightarrow> 's writer_server \<Rightarrow> 's store_v2 \<Rightarrow> service_verifier \<Rightarrow> 's handler" where
  "writer_privacy_v2 lib srv st v =
     require_json (with_body (16 * 1024) (with_signature (ws_now srv) v ''invalid_service_signature''
       (\<lambda>h body r hdr.
     seq (ws_now srv) (\<lambda>t.
     case parse_privacy_request lib body t of
       Inl _ \<Rightarrow> ret (write_error 400 ''invalid_privacy_request'' hdr)
     | Inr p \<Rightarrow>
         if \<not> idempotency_key_ok lib r h (request_id (the_request p))
         then ret (write_error 400 ''invalid_idempotency_key'' hdr)
         else
           seq (attempting (store_create_privacy st p (body_sha256 body))) (\<lambda>outcome.
           ret (writer_privacy_outcome (request_id (the_request p)) outcome hdr))))))"

definition writer_routes :: "'u uuid_lib \<Rightarrow> 's writer_server \<Rightarrow> (string \<times> string \<times> 's handler) list" where
  "writer_routes lib srv =
     map (\<lambda>(m, p, h). (m, p, security_headers h))
     ([(''GET'', ''/healthz'', writer_health srv), (''POST'', ''/internal/v1/events'', writer_events lib srv)]
     @ (case (ws_store_v2 srv, ws_verifier srv) of
          (Some st, Some v) \<Rightarrow>
            [(''POST'', ''/internal/v2/batches'', writer_batches_v2 lib srv st v),
             (''POST'', ''/internal/v2/privacy/requests'', writer_privacy_v2 lib srv st v),
             (''POST'', ''/internal/v1/privacy/requests'', writer_privacy_v1 lib srv st v)]
        | _ \<Rightarrow> [])
     @ (case (ws_fundraising srv, ws_verifier srv) of
          (Some st, Some v) \<Rightarrow>
            [(''POST'', ''/internal/fundraising/batches'', writer_fundraising_batches lib srv st v)]
        | _ \<Rightarrow> []))"

text \<open>The handler that a request finds by its method and path.\<close>

definition find_route :: "(string \<times> string \<times> 's handler) list \<Rightarrow> string \<Rightarrow> string \<Rightarrow> 's handler option" where
  "find_route routes meth path =
     map_option (snd \<circ> snd) (List.find (\<lambda>(m, p, _). m = meth \<and> p = path) routes)"

lemma find_route_in: "find_route routes m p = Some h \<Longrightarrow> (m, p, h) \<in> set routes"
  by (auto simp: find_route_def find_Some_iff) (metis nth_mem)

subsection \<open>What the handlers keep\<close>

lemma keeps_with_signature:
  assumes "keeps I now"
    and "\<And>t. verify_service v t (req_method r) (req_path r) body (service_headers_from_request (request.truncate r)) = Inr () \<Longrightarrow>
      keeps I (k (service_headers_from_request (request.truncate r)) body r hdr)"
  shows "keeps I (with_signature now v code k body r hdr)"
proof -
  let ?v = "\<lambda>t. verify_service v t (req_method r) (req_path r) body (service_headers_from_request (request.truncate r))"
  have "keeps I (case ?v t of Inl _ \<Rightarrow> ret (write_error 401 code hdr)
      | Inr _ \<Rightarrow> k (service_headers_from_request (request.truncate r)) body r hdr)" for t
    using assms(2) [of t] by (cases "?v t") (auto intro: triples)
  with assms(1) show ?thesis unfolding with_signature_def Let_def by (intro triples)
qed

text \<open>The evidence behind a call of the store: the request is signed and names what it carries.\<close>

definition signed_request :: "service_verifier \<Rightarrow> incoming \<Rightarrow> bool" where
  "signed_request v r \<longleftrightarrow>
     (\<exists>t. verify_service v t (req_method r) (req_path r) (req_body r)
        (service_headers_from_request (request.truncate r)) = Inr ())"

definition names_body :: "'u uuid_lib \<Rightarrow> incoming \<Rightarrow> string \<Rightarrow> bool" where
  "names_body lib r i \<longleftrightarrow>
     header_get (req_header r) ''Idempotency-Key'' = i \<and> canonical_uuid lib i
     \<and> sh_request_id (service_headers_from_request (request.truncate r)) = i"

lemma idempotency_key_ok_iff:
  "idempotency_key_ok lib r (service_headers_from_request (request.truncate r)) i \<Longrightarrow> names_body lib r i"
  by (auto simp: idempotency_key_ok_def names_body_def result_simps Let_def)

lemma keeps_signed:
  assumes "keeps I now"
    and "signed_request v r \<Longrightarrow> keeps I (k (service_headers_from_request (request.truncate r)) (req_body r) r hdr)"
  shows "keeps I (with_signature now v code k (req_body r) r hdr)"
  using assms by (intro keeps_with_signature) (auto simp: signed_request_def)

lemma keeps_parsed:
  "(\<And>y. x = Inr y \<Longrightarrow> keeps I (k y)) \<Longrightarrow> keeps I (case x of Inl e \<Rightarrow> ret z | Inr y \<Rightarrow> k y)"
  by (cases x) (auto intro: keeps_simps)

lemma keeps_named:
  assumes "names_body lib r i \<Longrightarrow> keeps I m" and "\<And>x. keeps I (k x)"
  shows "keeps I (if \<not> idempotency_key_ok lib r (service_headers_from_request (request.truncate r)) i then ret z
    else seq (attempting m) k)"
  using assms idempotency_key_ok_iff by (auto intro: keeps_simps keeps_seq keeps_attempting)

lemma keeps_writer_batches_v2:
  assumes "keeps I (ws_now srv)"
    and "\<And>t b. signed_request v r \<Longrightarrow> parse_batch lib (req_body r) t = Inr b \<Longrightarrow> names_body lib r (batch_id (header b)) \<Longrightarrow>
      keeps I (store_insert_v2 st b (body_sha256 (req_body r)))"
  shows "keeps I (writer_batches_v2 lib srv st v r hdr)"
  unfolding writer_batches_v2_def
  by (intro keeps_require_json keeps_with_body keeps_signed keeps_seq keeps_parsed keeps_named assms keeps_simps)

lemma keeps_writer_privacy_v2:
  assumes "keeps I (ws_now srv)"
    and "\<And>t q. signed_request v r \<Longrightarrow> parse_privacy_request lib (req_body r) t = Inr q \<Longrightarrow>
      names_body lib r (request_id (the_request q)) \<Longrightarrow> keeps I (store_create_privacy st q (body_sha256 (req_body r)))"
  shows "keeps I (writer_privacy_v2 lib srv st v r hdr)"
  unfolding writer_privacy_v2_def
  by (intro keeps_require_json keeps_with_body keeps_signed keeps_seq keeps_parsed keeps_named assms keeps_simps)

lemma keeps_writer_privacy_v1:
  assumes "keeps I (ws_now srv)"
    and "\<And>t q. signed_request v r \<Longrightarrow> parse_internal_privacy_request lib (req_body r) t = Inr q \<Longrightarrow>
      names_body lib r (pv_request_id (vp_request q)) \<Longrightarrow> keeps I (store_create_legacy_privacy st q (body_sha256 (req_body r)))"
  shows "keeps I (writer_privacy_v1 lib srv st v r hdr)"
  unfolding writer_privacy_v1_def
  by (intro keeps_require_json keeps_with_body keeps_signed keeps_seq keeps_parsed keeps_named assms keeps_simps)

lemma keeps_writer_fundraising:
  assumes "keeps I (ws_now srv)"
    and "\<And>t b. signed_request v r \<Longrightarrow> fr_parse_batch lib (req_body r) t = Inr b \<Longrightarrow>
      names_body lib r (fr_batch_id (fr_batch b)) \<Longrightarrow> keeps I (store_insert_fundraising st b (body_sha256 (req_body r)))"
  shows "keeps I (writer_fundraising_batches lib srv st v r hdr)"
  unfolding writer_fundraising_batches_def
  by (intro keeps_require_json keeps_with_body keeps_signed keeps_seq keeps_parsed keeps_named assms)
    (auto intro: keeps_simps split: sum.split)

definition writer_signed :: "'s writer_server \<Rightarrow> incoming \<Rightarrow> bool" where
  "writer_signed srv r \<longleftrightarrow>
     (\<exists>t. verify_writer_request (ws_secret srv) (req_body r) t (ws_max_skew srv)
         (header_get (req_header r) ''X-Linka-Timestamp'') (header_get (req_header r) ''X-Linka-Body-SHA256'')
         (header_get (req_header r) ''X-Linka-Signature'') = Inr ())"

lemma keeps_writer_events:
  assumes "keeps I (ws_now srv)"
    and "\<And>b. writer_signed srv r \<Longrightarrow> parse_batch_v1 lib (req_body r) = Inr b \<Longrightarrow> keeps I (store_insert (ws_store srv) b)"
  shows "keeps I (writer_events lib srv r hdr)"
proof -
  have "keeps I (store_insert (ws_store srv) b)"
    if "verify_writer_request (ws_secret srv) (req_body r) t (ws_max_skew srv)
         (header_get (req_header r) ''X-Linka-Timestamp'') (header_get (req_header r) ''X-Linka-Body-SHA256'')
         (header_get (req_header r) ''X-Linka-Signature'') = Inr u"
      "parse_batch_v1 lib (req_body r) = Inr b" for t u b
    using that assms(2) by (auto simp: writer_signed_def)
  then show ?thesis
    unfolding writer_events_def
    by (intro keeps_require_json keeps_with_body keeps_seq keeps_parsed keeps_attempting assms(1))
      (auto intro: keeps_simps split: sum.split)
qed

lemma writer_keeps:
  fixes srv :: "'s writer_server"
  assumes route: "(m, p, h) \<in> set (writer_routes lib srv)"
    and now: "keeps I (ws_now srv)" and ping: "keeps I (store_ping (ws_store srv))"
    and v1: "\<And>b. writer_signed srv r \<Longrightarrow> parse_batch_v1 lib (req_body r) = Inr b \<Longrightarrow> p = ''/internal/v1/events'' \<Longrightarrow> keeps I (store_insert (ws_store srv) b)"
    and v2: "\<And>st v t b. ws_store_v2 srv = Some st \<Longrightarrow> ws_verifier srv = Some v \<Longrightarrow> signed_request v r \<Longrightarrow>
       parse_batch lib (req_body r) t = Inr b \<Longrightarrow> names_body lib r (batch_id (header b)) \<Longrightarrow>
       keeps I (store_insert_v2 st b (body_sha256 (req_body r)))"
    and privacy: "\<And>st v t q. ws_store_v2 srv = Some st \<Longrightarrow> ws_verifier srv = Some v \<Longrightarrow> signed_request v r \<Longrightarrow>
       parse_privacy_request lib (req_body r) t = Inr q \<Longrightarrow> names_body lib r (request_id (the_request q)) \<Longrightarrow>
       keeps I (store_create_privacy st q (body_sha256 (req_body r)))"
    and legacy: "\<And>st v t q. ws_store_v2 srv = Some st \<Longrightarrow> ws_verifier srv = Some v \<Longrightarrow> signed_request v r \<Longrightarrow>
       parse_internal_privacy_request lib (req_body r) t = Inr q \<Longrightarrow> names_body lib r (pv_request_id (vp_request q)) \<Longrightarrow>
       keeps I (store_create_legacy_privacy st q (body_sha256 (req_body r)))"
    and money: "\<And>st v t b. ws_fundraising srv = Some st \<Longrightarrow> ws_verifier srv = Some v \<Longrightarrow> signed_request v r \<Longrightarrow>
       fr_parse_batch lib (req_body r) t = Inr b \<Longrightarrow> names_body lib r (fr_batch_id (fr_batch b)) \<Longrightarrow>
       keeps I (store_insert_fundraising st b (body_sha256 (req_body r)))"
  shows "keeps I (h r hdr)"
  using route unfolding writer_routes_def
  by (cases "ws_store_v2 srv"; cases "ws_verifier srv"; cases "ws_fundraising srv")
    (auto simp: security_headers_def writer_health_def
      intro!: keeps_writer_events keeps_writer_batches_v2 keeps_writer_privacy_v2 keeps_writer_privacy_v1
        keeps_writer_fundraising keeps_seq keeps_attempting keeps_parsed keeps_simps assms)

text \<open>
  What the writer needs of its stores: each operation keeps what the stores agree on, an insert of a
  V2 batch under a digest when the digest is that of a batch it may be used for (\<open>accepts\<close>).
\<close>

locale telemetry_stores =
  fixes srv :: "'s writer_server" and inv :: "'s \<Rightarrow> bool" and accepts :: "validated_batch \<Rightarrow> string \<Rightarrow> bool"
  assumes now_keeps: "keeps inv (ws_now srv)" and ping_keeps: "keeps inv (store_ping (ws_store srv))"
    and insert_keeps: "keeps inv (store_insert (ws_store srv) b)"
    and insert_v2_keeps: "ws_store_v2 srv = Some st \<Longrightarrow> accepts batch sha \<Longrightarrow> keeps inv (store_insert_v2 st batch sha)"
    and privacy_keeps: "ws_store_v2 srv = Some st \<Longrightarrow> keeps inv (store_create_privacy st q sha)"
    and legacy_keeps: "ws_store_v2 srv = Some st \<Longrightarrow> keeps inv (store_create_legacy_privacy st lq sha)"
    and fundraising_keeps: "ws_fundraising srv = Some fs \<Longrightarrow> keeps inv (store_insert_fundraising fs fb sha)"
begin

lemma serves:
  assumes "(m, p, h) \<in> set (writer_routes lib srv)"
    and "\<And>t b. parse_batch lib (req_body r) t = Inr b \<Longrightarrow> accepts b (body_sha256 (req_body r))"
  shows "keeps inv (h r hdr)"
  by (rule writer_keeps [OF assms(1)])
    (auto intro: now_keeps ping_keeps insert_keeps insert_v2_keeps privacy_keeps legacy_keeps fundraising_keeps assms(2))

end

end
