(* ===== verification/Collector_Server.thy ===== *)
theory Collector_Server
  imports Httpx Auth_Identity Contract_V2 Contract_V1 Contract_Fundraising Collector_Client Go_Time_Format Writer_Server
begin

section \<open>internal/collector/server.go: the public collector\<close>

text \<open>
  The interfaces EventWriter, V2Writer and FundraisingWriter are records of actions; the verifier
  of Identity tokens is the action of its method Verify, the random source of installation IDs an
  action too. The handlers have the checks of the source in their order. \<open>collector_routes\<close> is what
  newServer registers, each handler behind the security headers. The text of the privacy page is a
  field of the server.
\<close>

record 's v2_writer =
  vw_write :: "string \<Rightarrow> string \<Rightarrow> ('s, write_result) action"
  vw_privacy :: "string \<Rightarrow> string \<Rightarrow> ('s, privacy_write_result) action"
  vw_legacy_privacy :: "string \<Rightarrow> string \<Rightarrow> ('s, privacy_write_result) action"

record 's collector_server =
  cs_writer :: "string \<Rightarrow> ('s, unit) action"
  cs_tokens :: installation_tokens
  cs_v2_writer :: "'s v2_writer option"
  cs_product_tokens :: "product_tokens option"
  cs_identity :: "(string \<Rightarrow> string \<Rightarrow> ('s, identity_claims) action) option"
  cs_legacy_tokens :: bool
  cs_fundraising :: "(string \<Rightarrow> string \<Rightarrow> ('s, write_result) action) option"
  cs_donation_verifier :: "service_verifier option"
  cs_tts_verifier :: "service_verifier option"
  cs_tts_subject_key :: string
  cs_privacy_text :: string
  cs_now :: "('s, time) action"
  cs_new_id :: "('s, string) action"

subsection \<open>Authentication\<close>

definition bearer :: "string \<Rightarrow> string result" where
  "bearer h =
     reject (\<not> has_prefix h ''Bearer '' \<or> contains_any (trim_prefix h ''Bearer '') '' '')
       (Err ''missing bearer token'') (Inr (trim_prefix h ''Bearer ''))"

definition authenticate :: "'u uuid_lib \<Rightarrow> 's collector_server \<Rightarrow> string \<Rightarrow> ('s, installation_claims) action" where
  "authenticate lib srv h =
     seq (lift (bearer h)) (\<lambda>token.
     seq (cs_now srv) (\<lambda>t. lift (verify_installation lib (cs_tokens srv) t token)))"

definition claims_of_identity :: "identity_claims \<Rightarrow> product_claims" where
  "claims_of_identity c =
     \<lparr>pc_product = ic_product c, pc_subject_key = ic_subject c, pc_person_key = ic_person_key c,
      pc_org_key = ic_org_key c, pc_issued_at = unix_time (ic_issued_at c), pc_expires_at = unix_time (ic_expires_at c)\<rparr>"

definition legacy_claims :: "'s collector_server \<Rightarrow> string \<Rightarrow> ('s, product_claims) action" where
  "legacy_claims srv encoded =
     (case (cs_legacy_tokens srv, cs_product_tokens srv) of
        (True, Some tokens) \<Rightarrow> seq (cs_now srv) (\<lambda>t. lift (verify_product tokens t encoded))
      | _ \<Rightarrow> fail (Err ''no product token verifier configured''))"

definition authenticate_product :: "'s collector_server \<Rightarrow> incoming \<Rightarrow> string \<Rightarrow> ('s, product_claims) action" where
  "authenticate_product srv r required =
     seq (lift (bearer (header_get (req_header r) ''Authorization''))) (\<lambda>encoded.
     case cs_identity srv of
       None \<Rightarrow> legacy_claims srv encoded
     | Some verify_token \<Rightarrow>
         seq (attempting (verify_token encoded required)) (\<lambda>res.
         case res of
           Inr c \<Rightarrow> ret (claims_of_identity c)
         | Inl e \<Rightarrow> if \<not> cs_legacy_tokens srv \<or> e = ed25519_panic then fail e else legacy_claims srv encoded))"

text \<open>A handler answers a failed check with 401; a panic of ed25519 is not a failed check.\<close>

definition or_unauthorized :: "string \<Rightarrow> ('s, 'c) action \<Rightarrow> ('c \<Rightarrow> 's handler) \<Rightarrow> 's handler" where
  "or_unauthorized code m k r hdr =
     seq (attempting m) (\<lambda>res.
     case res of
       Inl e \<Rightarrow> if e = ed25519_panic then fail e else ret (write_error 401 code hdr)
     | Inr c \<Rightarrow> k c r hdr)"

definition optional_string_equal :: "string option \<Rightarrow> string option \<Rightarrow> bool" where
  "optional_string_equal left right =
     (case (left, right) of (Some l, Some r) \<Rightarrow> l = r | _ \<Rightarrow> left = None \<and> right = None)"

definition scope_matches_claims :: "scope \<Rightarrow> product_claims \<Rightarrow> bool" where
  "scope_matches_claims sc c =
     (product_id sc = pc_product c \<and> subject_key sc = pc_subject_key c
      \<and> optional_string_equal (person_key sc) (pc_person_key c) \<and> optional_string_equal (org_key sc) (pc_org_key c))"

subsection \<open>Installations and tokens\<close>

text \<open>The encoder writes nothing for an instant that it cannot represent.\<close>

definition write_issued :: "json option \<Rightarrow> http_header \<Rightarrow> response" where
  "write_issued v hdr =
     (case v of
        Some j \<Rightarrow> write_json 201 j hdr
      | None \<Rightarrow> (write_json 201 JNull hdr)\<lparr>resp_body := []\<rparr>)"

definition installation_answer :: "installation_claims \<Rightarrow> string \<Rightarrow> json option" where
  "installation_answer c token =
     map_option (\<lambda>issued. JObj [(''installation_id'', JStr (installation_id c)), (''issued_at'', JStr issued),
       (''token'', JStr token), (''token_version'', JStr ''v1'')]) (format_rfc3339 (issued_at c))"

definition with_empty_object :: "(string \<Rightarrow> 's handler) \<Rightarrow> string \<Rightarrow> 's handler" where
  "with_empty_object k body r hdr =
     (case httpx_decode_strict (into_struct []) body () of
        Inl _ \<Rightarrow> ret (write_error 400 ''invalid_json'' hdr)
      | Inr _ \<Rightarrow> k body r hdr)"

definition collector_installation :: "'s collector_server \<Rightarrow> 's handler" where
  "collector_installation srv =
     require_json (with_body 4096 (with_empty_object (\<lambda>body r hdr.
       seq (attempting (cs_new_id srv)) (\<lambda>res.
       case res of
         Inl _ \<Rightarrow> ret (write_error 500 ''internal_error'' hdr)
       | Inr i \<Rightarrow>
           seq (cs_now srv) (\<lambda>t.
           case issue_installation (cs_tokens srv) t i of
             (c, token) \<Rightarrow> ret (write_issued (installation_answer c token) hdr))))))"

text \<open>Renew verifies with one reading of the clock and issues with the next.\<close>

definition collector_renew :: "'u uuid_lib \<Rightarrow> 's collector_server \<Rightarrow> 's handler" where
  "collector_renew lib srv =
     require_json (with_body 4096 (with_empty_object (\<lambda>body r hdr.
       let h = header_get (req_header r) ''Authorization'' in
       if \<not> has_prefix h ''Bearer '' then ret (write_error 401 ''invalid_installation_token'' hdr)
       else
         seq (cs_now srv) (\<lambda>t.
         case verify_installation lib (cs_tokens srv) t (trim_prefix h ''Bearer '') of
           Inl _ \<Rightarrow> ret (write_error 401 ''invalid_installation_token'' hdr)
         | Inr old \<Rightarrow>
             seq (cs_now srv) (\<lambda>t'.
             case issue_installation (cs_tokens srv) t' (installation_id old) of
               (c, token) \<Rightarrow> ret (write_issued (installation_answer c token) hdr))))))"

definition product_answer :: "product_claims \<Rightarrow> string \<Rightarrow> json option" where
  "product_answer c token =
     Option.bind (format_rfc3339 (pc_expires_at c)) (\<lambda>expires.
     map_option (\<lambda>issued. JObj [(''expires_at'', JStr expires), (''issued_at'', JStr issued),
       (''product'', JStr (pc_product c)), (''subject_key'', JStr (pc_subject_key c)),
       (''token'', JStr token), (''token_version'', JStr ''v2'')]) (format_rfc3339 (pc_issued_at c)))"

definition token_request_fields :: "(string \<times> string into) list" where
  "token_request_fields = [(''product'', into_string)]"

definition collector_product_token ::
  "'u uuid_lib \<Rightarrow> 's collector_server \<Rightarrow> product_tokens \<Rightarrow> 's handler" where
  "collector_product_token lib srv tokens =
     require_json (\<lambda>r.
       or_unauthorized ''invalid_installation_token'' (authenticate lib srv (header_get (req_header r) ''Authorization''))
       (\<lambda>claims. with_body 4096 (\<lambda>body r hdr.
       case decode_object (into_struct token_request_fields) body [] MaxJSONDepth of
         Inl _ \<Rightarrow> ret (write_error 400 ''invalid_token_request'' hdr)
       | Inr p \<Rightarrow>
           seq (cs_now srv) (\<lambda>t.
           case issue_anonymous tokens t p (installation_id claims) of
             Inl _ \<Rightarrow> ret (write_error 400 ''unknown_product'' hdr)
           | Inr (c, token) \<Rightarrow> ret (write_issued (product_answer c token) hdr)))) r)"

subsection \<open>Batches and privacy requests\<close>

definition batch_outcome :: "string \<Rightarrow> write_result result \<Rightarrow> http_header \<Rightarrow> response" where
  "batch_outcome i res hdr =
     (case res of
        Inl e \<Rightarrow>
          if errors_is e ErrWriterConflict then write_error 409 ''idempotency_conflict'' hdr
          else if errors_is e ErrWriterSuppressed then write_error 403 ''telemetry_suppressed'' hdr
          else write_error 502 ''writer_unavailable'' hdr
      | Inr w \<Rightarrow> write_json 202 (JObj [(''accepted_records'', JNum (format_int (write_count w))),
          (''batch_id'', JStr i), (''replayed'', JBool (write_replayed w))]) hdr)"

definition fundraising_outcome :: "string \<Rightarrow> write_result result \<Rightarrow> http_header \<Rightarrow> response" where
  "fundraising_outcome i res hdr =
     (case res of
        Inl e \<Rightarrow>
          if errors_is e ErrWriterConflict then write_error 409 ''idempotency_conflict'' hdr
          else write_error 502 ''writer_unavailable'' hdr
      | Inr w \<Rightarrow> write_json 202 (JObj [(''accepted_records'', JNum (format_int (write_count w))),
          (''batch_id'', JStr i), (''replayed'', JBool (write_replayed w))]) hdr)"

definition privacy_outcome :: "string \<Rightarrow> privacy_write_result result \<Rightarrow> http_header \<Rightarrow> response" where
  "privacy_outcome i res hdr =
     (case res of
        Inl e \<Rightarrow>
          if errors_is e ErrWriterConflict then write_error 409 ''idempotency_conflict'' hdr
          else write_error 502 ''writer_unavailable'' hdr
      | Inr w \<Rightarrow> write_json 202 (JObj [(''replayed'', JBool (pw_replayed w)), (''request_id'', JStr i),
          (''status'', JStr (pw_status w))]) hdr)"

definition tts_scope_ok :: "'s collector_server \<Rightarrow> batch_header \<Rightarrow> bool" where
  "tts_scope_ok srv h =
     (product_id (header_scope h) = LinkaTTS \<and> subject_key (header_scope h) = cs_tts_subject_key srv
      \<and> person_key (header_scope h) = None \<and> org_key (header_scope h) = None \<and> stream h = StreamOutcome)"

definition collector_tts_outcomes ::
  "'u uuid_lib \<Rightarrow> 's collector_server \<Rightarrow> 's v2_writer \<Rightarrow> service_verifier \<Rightarrow> 's handler" where
  "collector_tts_outcomes lib srv w v =
     require_json (with_body MaxBatchBytes (with_signature (cs_now srv) v ''invalid_tts_outcome_signature''
       (\<lambda>h body r hdr.
     seq (cs_now srv) (\<lambda>t.
     case parse_batch lib body t of
       Inl _ \<Rightarrow> ret (write_error 400 ''invalid_batch'' hdr)
     | Inr b \<Rightarrow>
         if \<not> returned (validate_idempotency_key lib (header_get (req_header r) ''Idempotency-Key'') (batch_id (header b)))
            \<or> sh_request_id h \<noteq> batch_id (header b)
         then ret (write_error 400 ''invalid_idempotency_key'' hdr)
         else if \<not> tts_scope_ok srv (header b) then ret (write_error 403 ''tts_outcome_scope_mismatch'' hdr)
         else
           seq (attempting (vw_write w (batch_id (header b)) body)) (\<lambda>res.
           ret (batch_outcome (batch_id (header b)) res hdr))))))"

definition collector_fundraising ::
  "'u uuid_lib \<Rightarrow> 's collector_server \<Rightarrow> (string \<Rightarrow> string \<Rightarrow> ('s, write_result) action) \<Rightarrow> service_verifier \<Rightarrow> 's handler" where
  "collector_fundraising lib srv write v =
     require_json (with_body FrMaxBatchBytes (with_signature (cs_now srv) v ''invalid_donation_signature''
       (\<lambda>h body r hdr.
     seq (cs_now srv) (\<lambda>t.
     case fr_parse_batch lib body t of
       Inl _ \<Rightarrow> ret (write_error 400 ''invalid_fundraising_batch'' hdr)
     | Inr b \<Rightarrow>
         if \<not> idempotency_key_ok lib r h (fr_batch_id (fr_batch b))
         then ret (write_error 400 ''invalid_idempotency_key'' hdr)
         else
           seq (attempting (write (fr_batch_id (fr_batch b)) body)) (\<lambda>res.
           ret (fundraising_outcome (fr_batch_id (fr_batch b)) res hdr))))))"

definition collector_health :: "'s handler" where
  "collector_health r hdr = ret (write_json 200 (JObj [(''status'', JStr ''ok'')]) hdr)"

definition collector_privacy_page :: "'s collector_server \<Rightarrow> 's handler" where
  "collector_privacy_page srv r hdr =
     ret \<lparr>resp_status = 200, resp_header = header_set ''Content-Type'' ''text/plain; charset=utf-8'' hdr,
          resp_body = cs_privacy_text srv\<rparr>"

definition own_installation :: "string \<Rightarrow> validated_batch_v1 \<Rightarrow> bool" where
  "own_installation i b =
     (list_all (\<lambda>e. ev_installation_id (ve_event e) = i) (vb_events b)
      \<and> list_all (\<lambda>s. su_installation_id (vs_summary s) = i) (vb_summaries b))"

definition collector_events :: "'u uuid_lib \<Rightarrow> 's collector_server \<Rightarrow> 's handler" where
  "collector_events lib srv =
     require_json (\<lambda>r.
       or_unauthorized ''invalid_installation_token'' (authenticate lib srv (header_get (req_header r) ''Authorization''))
       (\<lambda>claims. with_body MaxBatchBytesV1 (\<lambda>body r hdr.
       case parse_batch_v1 lib body of
         Inl _ \<Rightarrow> ret (write_error 400 ''invalid_event_batch'' hdr)
       | Inr b \<Rightarrow>
           if \<not> own_installation (installation_id claims) b then ret (write_error 403 ''installation_id_mismatch'' hdr)
           else
             seq (attempting (cs_writer srv body)) (\<lambda>res.
             case res of
               Inl e \<Rightarrow>
                 if errors_is e ErrWriterSuppressed then ret (write_error 403 ''telemetry_suppressed'' hdr)
                 else ret (write_error 502 ''writer_unavailable'' hdr)
             | Inr _ \<Rightarrow>
                 ret (write_json 202 (JObj [(''accepted_events'', number (length (vb_events b))),
                   (''accepted_session_summaries'', number (length (vb_summaries b)))]) hdr)))) r)"

text \<open>json.Marshal of InternalPrivacyRequest: the embedded fields first.\<close>

definition internal_privacy_json :: "internal_privacy_request \<Rightarrow> json" where
  "internal_privacy_json q =
     JObj [(''schema_version'', JNum (format_int (pv_schema_version q))), (''request_id'', JStr (pv_request_id q)),
           (''action'', JStr (pv_action q)), (''requested_at'', JStr (pv_requested_at q)),
           (''installation_id'', JStr (pv_installation_id q))]"

definition collector_privacy_v1 :: "'u uuid_lib \<Rightarrow> 's collector_server \<Rightarrow> 's v2_writer \<Rightarrow> 's handler" where
  "collector_privacy_v1 lib srv w =
     require_json (\<lambda>r.
       or_unauthorized ''invalid_installation_token'' (authenticate lib srv (header_get (req_header r) ''Authorization''))
       (\<lambda>claims. with_body (16 * 1024) (\<lambda>body r hdr.
       seq (cs_now srv) (\<lambda>t.
       case parse_public_privacy_request lib body (installation_id claims) t of
         Inl _ \<Rightarrow> ret (write_error 400 ''invalid_privacy_request'' hdr)
       | Inr q \<Rightarrow>
           let i = pv_request_id (vp_request q) in
           if \<not> returned (validate_idempotency_key lib (header_get (req_header r) ''Idempotency-Key'') i)
           then ret (write_error 400 ''invalid_idempotency_key'' hdr)
           else
             seq (attempting (vw_legacy_privacy w i (json_text (internal_privacy_json (vp_request q))))) (\<lambda>res.
             ret (privacy_outcome i res hdr))))) r)"

definition collector_batches_v2 :: "'u uuid_lib \<Rightarrow> 's collector_server \<Rightarrow> 's v2_writer \<Rightarrow> 's handler" where
  "collector_batches_v2 lib srv w =
     require_json (\<lambda>r.
       or_unauthorized ''invalid_product_token'' (authenticate_product srv r ''telemetry:write'')
       (\<lambda>claims. with_body MaxBatchBytes (\<lambda>body r hdr.
       seq (cs_now srv) (\<lambda>t.
       case parse_batch lib body t of
         Inl _ \<Rightarrow> ret (write_error 400 ''invalid_batch'' hdr)
       | Inr b \<Rightarrow>
           let i = batch_id (header b) in
           if \<not> returned (validate_idempotency_key lib (header_get (req_header r) ''Idempotency-Key'') i)
           then ret (write_error 400 ''invalid_idempotency_key'' hdr)
           else if \<not> scope_matches_claims (header_scope (header b)) claims
           then ret (write_error 403 ''token_scope_mismatch'' hdr)
           else seq (attempting (vw_write w i body)) (\<lambda>res. ret (batch_outcome i res hdr))))) r)"

definition collector_privacy_v2 :: "'u uuid_lib \<Rightarrow> 's collector_server \<Rightarrow> 's v2_writer \<Rightarrow> 's handler" where
  "collector_privacy_v2 lib srv w =
     require_json (\<lambda>r.
       or_unauthorized ''invalid_product_token'' (authenticate_product srv r ''privacy:write'')
       (\<lambda>claims. with_body (16 * 1024) (\<lambda>body r hdr.
       seq (cs_now srv) (\<lambda>t.
       case parse_privacy_request lib body t of
         Inl _ \<Rightarrow> ret (write_error 400 ''invalid_privacy_request'' hdr)
       | Inr q \<Rightarrow>
           let i = request_id (the_request q) in
           if \<not> returned (validate_idempotency_key lib (header_get (req_header r) ''Idempotency-Key'') i)
           then ret (write_error 400 ''invalid_idempotency_key'' hdr)
           else if \<not> scope_matches_claims (privacy_scope (the_request q)) claims
           then ret (write_error 403 ''token_scope_mismatch'' hdr)
           else seq (attempting (vw_privacy w i body)) (\<lambda>res. ret (privacy_outcome i res hdr))))) r)"

definition collector_routes :: "'u uuid_lib \<Rightarrow> 's collector_server \<Rightarrow> (string \<times> string \<times> 's handler) list" where
  "collector_routes lib srv =
     map (\<lambda>(m, p, h). (m, p, security_headers h))
     ([(''GET'', ''/healthz'', collector_health), (''GET'', ''/privacy'', collector_privacy_page srv),
      (''POST'', ''/v1/installations'', collector_installation srv),
      (''POST'', ''/v1/installations/renew'', collector_renew lib srv),
      (''POST'', ''/v1/events'', collector_events lib srv)]
     @ (case cs_v2_writer srv of None \<Rightarrow> []
        | Some w \<Rightarrow> [(''POST'', ''/v1/privacy/requests'', collector_privacy_v1 lib srv w)])
     @ (case (cs_fundraising srv, cs_donation_verifier srv) of
          (Some write, Some v) \<Rightarrow> [(''POST'', ''/internal/fundraising/batches'', collector_fundraising lib srv write v)]
        | _ \<Rightarrow> [])
     @ (case (cs_v2_writer srv, cs_tts_verifier srv) of
          (Some w, Some v) \<Rightarrow>
            if cs_tts_subject_key srv \<noteq> []
            then [(''POST'', ''/internal/tts/outcomes'', collector_tts_outcomes lib srv w v)] else []
        | _ \<Rightarrow> [])
     @ (case cs_v2_writer srv of None \<Rightarrow> []
        | Some w \<Rightarrow>
            if cs_identity srv \<noteq> None \<or> cs_legacy_tokens srv \<and> cs_product_tokens srv \<noteq> None then
              (case (cs_legacy_tokens srv, cs_product_tokens srv) of
                 (True, Some tokens) \<Rightarrow> [(''POST'', ''/v2/tokens'', collector_product_token lib srv tokens)]
               | _ \<Rightarrow> [])
              @ [(''POST'', ''/v2/batches'', collector_batches_v2 lib srv w),
                 (''POST'', ''/v2/privacy/requests'', collector_privacy_v2 lib srv w)]
            else []))"

end
