(* ===== verification/Writer_Store.thy ===== *)
theory Writer_Store
  imports Writer_Server Store_Histories
begin

section \<open>The writer over the ClickHouse store\<close>

text \<open>
  cmd/writer starts the server of internal/writer with one Store of internal/clickhouse for all
  three interfaces. \<open>clickhouse_writer\<close> is that server; the interpretation of \<open>telemetry_stores\<close>
  shows that its requests are histories of the store, so that all that holds of the states of the
  store holds while it serves.
\<close>

definition clickhouse_writer ::
  "'u store_config \<Rightarrow> string \<Rightarrow> service_verifier \<Rightarrow> 'u tables conn writer_server" where
  "clickhouse_writer cfg secret v =
     \<lparr>ws_store = \<lparr>store_ping = query (\<lambda>_. ()), store_insert = insert_v1 cfg\<rparr>,
      ws_store_v2 = Some \<lparr>store_insert_v2 = insert_v2 cfg, store_create_privacy = create_privacy_request cfg,
        store_create_legacy_privacy = create_legacy_privacy_request cfg\<rparr>,
      ws_fundraising = Some \<lparr>store_insert_fundraising = insert_fundraising cfg\<rparr>,
      ws_secret = secret, ws_verifier = Some v, ws_max_skew = 5 * minute, ws_now = time_now\<rparr>"

lemma call_reachable:
  assumes "allowed cfg c = (\<lambda>_. True)"
  shows "keeps (\<lambda>s. reachable cfg content (db s)) (run_call cfg content c)"
  using assms by (intro keepsI) (simp add: reachable_def history.call)

lemma unignore_keeps: "keeps I (ignoring m) \<Longrightarrow> keeps I m"
  by (rule keepsI) (drule keepsD, simp_all)

interpretation writer_store: telemetry_stores "clickhouse_writer cfg secret v"
  "\<lambda>s. reachable cfg content (db s)" "\<lambda>b sha. content sha = b" for cfg secret v content
proof (unfold_locales, goal_cases)
  case 1
  show ?case by (simp add: clickhouse_writer_def keeps_time_now)
next
  case 2
  show ?case by (simp add: clickhouse_writer_def keeps_query)
next
  case (3 b)
  show ?case using call_reachable [of cfg "IngestV1 b" content]
    by (simp add: clickhouse_writer_def unignore_keeps fun_eq_iff)
next
  case (4 st b sha)
  then show ?case using call_reachable [of cfg "IngestV2 sha" content]
    by (auto simp: clickhouse_writer_def unignore_keeps fun_eq_iff)
next
  case (5 st q sha)
  then show ?case using call_reachable [of cfg "CreatePrivacy q sha" content]
    by (auto simp: clickhouse_writer_def unignore_keeps fun_eq_iff)
next
  case (6 st q sha)
  then show ?case using call_reachable [of cfg "CreateLegacyPrivacy q sha" content]
    by (auto simp: clickhouse_writer_def unignore_keeps fun_eq_iff)
next
  case (7 st b sha)
  then show ?case using call_reachable [of cfg "IngestFundraising b sha" content]
    by (auto simp: clickhouse_writer_def unignore_keeps fun_eq_iff)
qed

end
