(* ===== verification/Go_Duration.thy ===== *)
theory Go_Duration
  imports Go_Time Go_Float
begin

section \<open>time.ParseDuration\<close>

text \<open>
  A sequence of decimal numbers with units, as package time reads it: the integer part and the sums
  are uint64 with the bound 2^63, the fraction goes through float64 arithmetic, which \<open>round64\<close>
  carries out. The micro signs are U+00B5 and U+03BC in UTF-8.
\<close>

definition duration_unit :: "string \<Rightarrow> int option" where
  "duration_unit u = map_of
     [(''ns'', 1), (''us'', 1000), ([CHR 0xC2, CHR 0xB5] @ ''s'', 1000), ([CHR 0xCE, CHR 0xBC] @ ''s'', 1000),
      (''ms'', millisecond), (''s'', second), (''m'', minute), (''h'', hour)] u"

text \<open>leadingFraction: the digits that fit, as a number, and how many they are.\<close>

fun leading_fraction :: "string \<Rightarrow> int \<Rightarrow> nat \<Rightarrow> int \<times> nat" where
  "leading_fraction [] x k = (x, k)"
| "leading_fraction (c # cs) x k =
     (if x > (2 ^ 63 - 1) div 10 \<or> x * 10 + digit_val c > 2 ^ 63 then (x, k)
      else leading_fraction cs (x * 10 + digit_val c) (Suc k))"

text \<open>\<open>uint64(float64(f) * (float64(unit) / scale))\<close>, with scale the power of ten, which is exact.\<close>

definition fraction_part_ns :: "int \<Rightarrow> int \<Rightarrow> nat \<Rightarrow> int" where
  "fraction_part_ns f unit k =
     (case (round64 f 1, round64 unit (10 ^ k)) of
        (Some (m1, e1), Some (m2, e2)) \<Rightarrow>
          (case scaled (m1 * m2) 1 (- (e1 + e2)) of (a, b) \<Rightarrow>
           (case round64 a b of
              Some (m, e) \<Rightarrow> (if 0 \<le> e then m * 2 ^ nat e else m div 2 ^ nat (- e))
            | None \<Rightarrow> 0))
      | _ \<Rightarrow> 0)"

definition unit_char :: "char \<Rightarrow> bool" where
  "unit_char c \<longleftrightarrow> \<not> (c = CHR ''.'' \<or> is_digit c)"

text \<open>One number with its unit: what it adds and the rest of the text.\<close>

definition duration_item :: "string \<Rightarrow> (int \<times> string) option" where
  "duration_item s =
     (let i = takeWhile is_digit s; v = digits_value 0 i; r = dropWhile is_digit s;
          dot = (r \<noteq> [] \<and> hd r = CHR ''.''); fd = (if dot then takeWhile is_digit (tl r) else []);
          r = (if dot then dropWhile is_digit (tl r) else r);
          (f, k) = leading_fraction fd 0 0; u = takeWhile unit_char r
      in if s = [] \<or> unit_char (hd s) \<or> v > 2 ^ 63 \<or> (i = [] \<and> fd = []) \<or> u = [] then None
         else case duration_unit u of
                None \<Rightarrow> None
              | Some unit \<Rightarrow>
                  if v > 2 ^ 63 div unit then None
                  else let v = v * unit + (if f > 0 then fraction_part_ns f unit k else 0)
                       in if f > 0 \<and> v > 2 ^ 63 then None else Some (v, dropWhile unit_char r))"

lemma duration_item_shorter:
  assumes "duration_item s = Some (v, rest)"
  shows "length rest < length s"
proof -
  have d: "length (dropWhile P xs) \<le> length xs" for P and xs :: string by (rule length_dropWhile_le)
  obtain r where r: "length r \<le> length s" "takeWhile unit_char r \<noteq> []" "rest = dropWhile unit_char r"
  proof -
    let ?r = "dropWhile is_digit s"
    let ?r2 = "if ?r \<noteq> [] \<and> hd ?r = CHR ''.'' then dropWhile is_digit (tl ?r) else ?r"
    have "length ?r2 \<le> length s"
      using d [of is_digit s] d [of is_digit "tl ?r"] by auto
    moreover have "takeWhile unit_char ?r2 \<noteq> []" "rest = dropWhile unit_char ?r2"
      using assms by (auto simp: duration_item_def Let_def split: if_splits option.splits prod.splits)
    ultimately show thesis by (rule that)
  qed
  from r(2) have "length (dropWhile unit_char r) < length r"
    by (cases r) (auto simp: le_imp_less_Suc length_dropWhile_le split: if_splits)
  with r show ?thesis by simp
qed

function duration_items :: "int \<Rightarrow> string \<Rightarrow> int option" where
  "duration_items d s =
     (if s = [] then Some d
      else case duration_item s of
             None \<Rightarrow> None
           | Some (v, rest) \<Rightarrow>
               (let d = (d + v) mod 2 ^ 64 in if d > 2 ^ 63 then None else duration_items d rest))"
  by pat_completeness auto
termination
  by (relation "measure (length \<circ> snd)") (auto dest: duration_item_shorter)

declare duration_items.simps [simp del]

definition parse_duration :: "string \<Rightarrow> duration option" where
  "parse_duration s =
     (let neg = (s \<noteq> [] \<and> hd s = CHR ''-'');
          s = (if s \<noteq> [] \<and> (hd s = CHR ''-'' \<or> hd s = CHR ''+'') then tl s else s)
      in if s = ''0'' then Some 0
         else if s = [] then None
         else case duration_items 0 s of
                None \<Rightarrow> None
              | Some d \<Rightarrow> if neg then Some (- d) else if d > 2 ^ 63 - 1 then None else Some d)"

lemma parse_duration_examples:
  "parse_duration ''30s'' = Some (30 * second)" "parse_duration ''1h30m'' = Some (90 * minute)"
  "parse_duration ''1.5h'' = Some (90 * minute)" "parse_duration ''-0.3s'' = Some (- 300 * millisecond)"
  "parse_duration ''15'' = None" "parse_duration '''' = None" "parse_duration ''9223372036854775808ns'' = None"
  by code_simp+

end
