(* ===== verification/Migrations.thy ===== *)
theory Migrations
  imports Go_Effects Go_Crypto Go_Json Go_Patterns "HOL-Library.Word" "HOL-Library.List_Lexorder" "HOL-Library.Char_ord" "HOL-Library.Sublist"
begin

section \<open>migrations: the runner\<close>

text \<open>
  migrations/runner.go and migrations/clickhouse.go. The embedded files are an argument: names with
  their contents. A text as []rune is the list of the UTF-8 texts of its runes (an invalid byte is
  U+FFFD, as the conversion gives it), the zero rune of the source is the empty text. The interface
  Backend is a record of actions; the locale \<open>migration_backend\<close> has what Run relies on, and
  its interpretation is the ClickHouse backend over a ledger table and a log of the statements that
  the server carried out (what they do is the server's). CREATE ... IF NOT EXISTS changes neither.
\<close>

subsection \<open>Splitting a file into statements\<close>

function runes :: "string \<Rightarrow> string list" where
  "runes [] = []"
| "runes (c # r) =
     (let n = utf8_length (c # r) in
      if (of_char c :: nat) < 128 then [c] # runes r
      else if n = 0 then [CHR 0xEF, CHR 0xBF, CHR 0xBD] # runes r
      else take n (c # r) # runes (drop (n - 1) r))"
  by pat_completeness auto
termination
  by (relation "measure length") auto

record split_state =
  split_done :: "string list"
  split_current :: string
  split_quote :: string
  line_comment :: bool
  block_comment :: bool
  split_escaped :: bool

definition flush_statement :: "split_state \<Rightarrow> split_state" where
  "flush_statement st =
     (let statement = trim_space (split_current st) in
      st\<lparr>split_done := (if statement \<noteq> [] then split_done st @ [statement] else split_done st), split_current := []\<rparr>)"

definition write_rune :: "string \<Rightarrow> split_state \<Rightarrow> split_state" where
  "write_rune c st = st\<lparr>split_current := split_current st @ c\<rparr>"

text \<open>One turn of the loop on a rune and the next one: whether the next one is used up, and the new state.\<close>

definition split_step :: "string \<Rightarrow> string \<Rightarrow> split_state \<Rightarrow> bool \<times> split_state" where
  "split_step c next_rune st =
     (if line_comment st then
        (False, if c = [CHR 0x0A] then write_rune c (st\<lparr>line_comment := False\<rparr>) else st)
      else if block_comment st then
        if c = ''*'' \<and> next_rune = ''/'' then (True, st\<lparr>block_comment := False\<rparr>) else (False, st)
      else if split_quote st \<noteq> [] then
        let st = write_rune c st in
        if split_escaped st then (False, st\<lparr>split_escaped := False\<rparr>)
        else if c = [CHR 0x5C] then (False, st\<lparr>split_escaped := True\<rparr>)
        else if c = split_quote st then
          if next_rune = split_quote st then (True, write_rune next_rune st)
          else (False, st\<lparr>split_quote := []\<rparr>)
        else (False, st)
      else if c = ''-'' \<and> next_rune = ''-'' then (True, (write_rune '' '' st)\<lparr>line_comment := True\<rparr>)
      else if c = ''/'' \<and> next_rune = ''*'' then (True, (write_rune '' '' st)\<lparr>block_comment := True\<rparr>)
      else if c = [CHR 0x27] \<or> c = [CHR 0x22] \<or> c = ''`'' then (False, write_rune c (st\<lparr>split_quote := c\<rparr>))
      else if c = '';'' then (False, flush_statement st)
      else (False, write_rune c st))"

function split_loop :: "string list \<Rightarrow> split_state \<Rightarrow> split_state" where
  "split_loop [] st = st"
| "split_loop (c # rest) st =
     (case split_step c (case rest of [] \<Rightarrow> [] | n # _ \<Rightarrow> n) st of
        (used, st') \<Rightarrow> split_loop (if used then drop 1 rest else rest) st')"
  by pat_completeness auto
termination
  by (relation "measure (length \<circ> fst)") auto

definition split_start :: split_state where
  "split_start = \<lparr>split_done = [], split_current = [], split_quote = [], line_comment = False,
     block_comment = False, split_escaped = False\<rparr>"

definition split_statements :: "string \<Rightarrow> string list result" where
  "split_statements input =
     (let st = split_loop (runes input) split_start
      in reject (split_quote st \<noteq> [] \<or> block_comment st) (Err ''unterminated SQL quote or block comment'')
           (Inr (split_done (flush_statement st))))"

subsection \<open>Load\<close>

record migration =
  mig_version :: "32 word"
  mig_name :: string
  mig_checksum :: string
  mig_statements :: "string list"

record applied_migration =
  am_version :: "32 word"
  am_name :: string
  am_checksum :: string

definition index_byte :: "string \<Rightarrow> char \<Rightarrow> int" where
  "index_byte s c =
     (let n = length (takeWhile (\<lambda>x. x \<noteq> c) s) in if n = length s then - 1 else int n)"

definition load_one :: "32 word list \<Rightarrow> string \<Rightarrow> string \<Rightarrow> migration result" where
  "load_one versions name contents =
     reject (index_byte name (CHR ''_'') \<noteq> 3) (Err ''migration must start with a three-digit version'')
       (case parse_uint 32 (take 3 name) of
          None \<Rightarrow> Inl (Err ''migration has invalid version'')
        | Some n \<Rightarrow>
            reject (n = 0) (Err ''migration has invalid version'')
           (reject (List.member versions (word_of_int n)) (Err ''duplicate migration version'')
           (andthen (wrap ''parse migration'' (split_statements contents)) (\<lambda>statements.
              reject (statements = []) (Err ''migration is empty'')
                (Inr \<lparr>mig_version = word_of_int n, mig_name = name, mig_checksum = hex_encode (sha256 contents),
                   mig_statements = statements\<rparr>)))))"

fun load_named :: "(string \<times> string) list \<Rightarrow> 32 word list \<Rightarrow> string list \<Rightarrow> migration list result" where
  "load_named files versions [] = Inr []"
| "load_named files versions (name # names) =
     andthen (from_option (Err ''read migration'') (map_of files name)) (\<lambda>contents.
     andthen (load_one versions name contents) (\<lambda>m.
     andthen (load_named files (mig_version m # versions) names) (\<lambda>ms. Inr (m # ms))))"

definition load_migrations :: "(string \<times> string) list \<Rightarrow> migration list result" where
  "load_migrations files = load_named files [] (sort (map fst files))"

subsection \<open>Run\<close>

record 's migration_backend =
  be_prepare :: "('s, unit) action"
  be_applied :: "('s, applied_migration list) action"
  be_execute :: "string \<Rightarrow> ('s, unit) action"
  be_record :: "migration \<Rightarrow> ('s, unit) action"

text \<open>The ledger as a map: rows of versions that are not embedded and conflicting rows are refused.\<close>

fun ledger_map :: "32 word list \<Rightarrow> applied_migration list \<Rightarrow> (32 word \<rightharpoonup> applied_migration) \<Rightarrow> (32 word \<rightharpoonup> applied_migration) result" where
  "ledger_map embedded [] applied = Inr applied"
| "ledger_map embedded (row # rows) applied =
     reject (\<not> List.member embedded (am_version row)) (Err ''migration ledger contains unknown version; refusing binary rollback'')
    (reject (case applied (am_version row) of None \<Rightarrow> False | Some existing \<Rightarrow> am_checksum existing \<noteq> am_checksum row)
       (Err ''migration ledger contains conflicting checksums'')
    (ledger_map embedded rows (applied(am_version row \<mapsto> row))))"

definition apply_migration :: "'s migration_backend \<Rightarrow> (32 word \<rightharpoonup> applied_migration) \<Rightarrow> migration \<Rightarrow> ('s, unit) action" where
  "apply_migration be applied m =
     (case applied (mig_version m) of
        Some row \<Rightarrow> fail_if (am_name row \<noteq> mig_name m \<or> am_checksum row \<noteq> mig_checksum m) (Err ''migration checksum mismatch'')
      | None \<Rightarrow>
          seq (each (\<lambda>statement. wrapping ''apply migration'' (be_execute be statement)) (mig_statements m)) (\<lambda>_.
          wrapping ''record migration'' (be_record be m)))"

definition run_migrations :: "(string \<times> string) list \<Rightarrow> 's migration_backend \<Rightarrow> ('s, unit) action" where
  "run_migrations files be =
     seq (lift (load_migrations files)) (\<lambda>migrations.
     seq (wrapping ''prepare migration ledger'' (be_prepare be)) (\<lambda>_.
     seq (wrapping ''read migration ledger'' (be_applied be)) (\<lambda>rows.
     seq (lift (ledger_map (map mig_version migrations) rows (\<lambda>_. None))) (\<lambda>applied.
     each (apply_migration be applied) migrations))))"

subsection \<open>The ClickHouse backend\<close>

definition database_pattern :: "string \<Rightarrow> bool" where
  "database_pattern =
     ident_string (\<lambda>c. is_lower c \<or> is_upper c \<or> c = CHR ''_'') (\<lambda>c. is_lower c \<or> is_upper c \<or> is_digit c \<or> c = CHR ''_'') 63"

record migration_row = applied_migration +
  mr_applied_at :: time

record migration_db =
  schema_migrations :: "migration_row list"
  statement_log :: "string list"

text \<open>The name of the database is that of the tables in every statement. A statement that broke was carried
  out or not. The argument of Record is what the column makes of a time.\<close>

definition ch_prepare :: "(migration_db conn, unit) action" where
  "ch_prepare = seq (exec (\<lambda>_ d. d)) (\<lambda>_. exec (\<lambda>_ d. d))"

definition ch_applied :: "(migration_db conn, applied_migration list) action" where
  "ch_applied = query (\<lambda>d. map applied_migration.truncate
     (sort_key am_version (final_rows am_version mr_applied_at (schema_migrations d))))"

definition ch_execute :: "string \<Rightarrow> (migration_db conn, unit) action" where
  "ch_execute statement =
     exec (\<lambda>part d. if part = Some 0 then d else d\<lparr>statement_log := statement_log d @ [statement]\<rparr>)"

definition ch_record :: "(time \<Rightarrow> time) \<Rightarrow> migration \<Rightarrow> (migration_db conn, unit) action" where
  "ch_record column m =
     seq time_now (\<lambda>t. wrapping ''insert ledger row'' (exec (\<lambda>part.
       schema_migrations_update (insert_rows [\<lparr>am_version = mig_version m, am_name = mig_name m,
         am_checksum = mig_checksum m, mr_applied_at = column t\<rparr>] part))))"

definition clickhouse_backend :: "(time \<Rightarrow> time) \<Rightarrow> migration_db conn migration_backend" where
  "clickhouse_backend column = \<lparr>be_prepare = ch_prepare, be_applied = ch_applied, be_execute = ch_execute, be_record = ch_record column\<rparr>"

definition new_clickhouse_backend :: "(time \<Rightarrow> time) \<Rightarrow> string \<Rightarrow> migration_db conn migration_backend result" where
  "new_clickhouse_backend column database =
     reject (\<not> database_pattern database) (Err ''invalid ClickHouse database name'') (Inr (clickhouse_backend column))"

subsection \<open>What a run does\<close>

definition row_of :: "migration \<Rightarrow> applied_migration" where
  "row_of m = \<lparr>am_version = mig_version m, am_name = mig_name m, am_checksum = mig_checksum m\<rparr>"

lemma row_of_version [simp]: "am_version (row_of m) = mig_version m"
  by (simp add: row_of_def)

lemma ledger_map_Inr:
  assumes "ledger_map embedded rows before = Inr applied"
  shows "applied v = None \<longleftrightarrow> before v = None \<and> v \<notin> am_version ` set rows"
    and "applied v = Some row \<Longrightarrow> before v = Some row \<or> row \<in> set rows \<and> am_version row = v"
  using assms by (induction rows arbitrary: before) (fastforce simp: result_simps split: if_splits)+

lemma ledger_map_embedded:
  "ledger_map embedded rows before = Inr a \<Longrightarrow> am_version ` set rows \<subseteq> set embedded"
  by (induction rows arbitrary: before) (auto simp: result_simps split: if_splits)

definition missing :: "applied_migration set \<Rightarrow> migration list \<Rightarrow> migration list" where
  "missing rows ms = filter (\<lambda>m. mig_version m \<notin> am_version ` rows) ms"

lemma ledger_embedded:
  assumes "ledger_map (map mig_version ms) rows (\<lambda>_. None) = Inr a"
    and "\<forall>m \<in> set ms. \<forall>row. a (mig_version m) = Some row \<longrightarrow> am_name row = mig_name m \<and> am_checksum row = mig_checksum m"
    and "inj_on am_version rs" and "set rows = rs"
  shows "rs \<subseteq> row_of ` set ms"
proof
  fix row
  assume row: "row \<in> rs"
  with ledger_map_embedded [OF assms(1)] assms(4) obtain m where m: "m \<in> set ms" "am_version row = mig_version m" by auto
  from ledger_map_Inr(1) [OF assms(1)] row assms(4) obtain row' where row': "a (am_version row) = Some row'"
    by (cases "a (am_version row)") auto
  with ledger_map_Inr(2) [OF assms(1) row'] assms(3,4) row have "row' = row" by (auto dest: inj_onD)
  with assms(2) m row' have "row = row_of m" by (auto simp: row_of_def)
  with m(1) show "row \<in> row_of ` set ms" by simp
qed

lemma union_missing:
  assumes "rows \<subseteq> row_of ` set ms" and "rows' = rows \<union> row_of ` set (missing rows ms)" and "inj_on mig_version (set ms)"
  shows "rows' = row_of ` set ms"
proof
  show "rows' \<subseteq> row_of ` set ms" using assms(1,2) by (auto simp: missing_def)
  show "row_of ` set ms \<subseteq> rows'"
  proof
    fix row
    assume "row \<in> row_of ` set ms"
    then obtain m where m: "m \<in> set ms" "row = row_of m" by blast
    show "row \<in> rows'"
    proof (cases "mig_version m \<in> am_version ` rows")
      case True
      then obtain m' where "row_of m' \<in> rows" "m' \<in> set ms" "mig_version m' = mig_version m" using assms(1) by force
      with m assms(2,3) show ?thesis by (auto dest: inj_onD)
    next
      case False
      with m assms(2) show ?thesis by (simp add: missing_def)
    qed
  qed
qed

text \<open>
  What Run relies on: a call that returns has done its work, one that fails has done it or not, and
  nothing else changes the ledger or what was executed.
\<close>

locale migration_ledger =
  fixes be :: "'s migration_backend" and recorded :: "'s \<Rightarrow> applied_migration set" and executed :: "'s \<Rightarrow> string list"
  assumes unique: "inj_on am_version (recorded s)"
    and prepare: "be_prepare be s = (r, s') \<Longrightarrow> recorded s' = recorded s \<and> executed s' = executed s"
    and applied: "be_applied be s = (q, s') \<Longrightarrow>
      recorded s' = recorded s \<and> executed s' = executed s \<and> (\<forall>rows. q = Inr rows \<longrightarrow> set rows = recorded s)"
    and execute: "be_execute be st s = (r, s') \<Longrightarrow>
      recorded s' = recorded s \<and> (executed s' = executed s @ [st] \<or> r \<noteq> Inr () \<and> executed s' = executed s)"
    and records: "be_record be m s = (r, s') \<Longrightarrow> mig_version m \<notin> am_version ` recorded s \<Longrightarrow>
      executed s' = executed s \<and> (recorded s' = insert (row_of m) (recorded s) \<or> r \<noteq> Inr () \<and> recorded s' = recorded s)"
begin

lemma execute_all:
  "each (\<lambda>st. wrapping msg (be_execute be st)) sts s = (r, s') \<Longrightarrow>
     recorded s' = recorded s \<and> prefix (executed s) (executed s')
     \<and> (\<exists>part. executed s' = executed s @ part \<and> prefix part sts \<and> (r = Inr () \<longrightarrow> part = sts))"
proof (induction sts arbitrary: s)
  case Nil
  then show ?case by simp
next
  case (Cons st sts)
  obtain q t where q: "be_execute be st s = (q, t)" by (cases "be_execute be st s")
  show ?case
  proof (cases q)
    case (Inl e)
    with q have "wrapping msg (be_execute be st) s = (Inl (Wrapped msg e), t)" by (simp add: wrapping_def wrap_def)
    with Cons.prems have "s' = t" "r \<noteq> Inr ()" by (auto simp: seq_def)
    then show ?thesis using execute [OF q] Inl by auto
  next
    case (Inr u)
    with q have "wrapping msg (be_execute be st) s = (Inr u, t)" by (simp add: wrapping_def wrap_def)
    with Cons.prems have "each (\<lambda>st. wrapping msg (be_execute be st)) sts t = (r, s')" by (simp add: seq_def)
    from Cons.IH [OF this] obtain part where "recorded s' = recorded t" "executed s' = executed t @ part" "prefix part sts"
      "r = Inr () \<longrightarrow> part = sts" by blast
    then show ?thesis using execute [OF q] Inr by auto
  qed
qed

lemma apply_missing:
  assumes "apply_migration be a m s = (r, s')" and "a (mig_version m) = None" and "mig_version m \<notin> am_version ` recorded s"
  shows "(\<exists>part. r \<noteq> Inr () \<and> recorded s' = recorded s \<and> executed s' = executed s @ part \<and> prefix part (mig_statements m))
    \<or> recorded s' = insert (row_of m) (recorded s) \<and> executed s' = executed s @ mig_statements m"
proof -
  define f where "f = (\<lambda>st. wrapping ''apply migration'' (be_execute be st))"
  obtain q t where q: "each f (mig_statements m) s = (q, t)" by (cases "each f (mig_statements m) s")
  have run: "(r, s') = seq (each f (mig_statements m)) (\<lambda>_. wrapping ''record migration'' (be_record be m)) s"
    using assms(1,2) by (simp add: apply_migration_def f_def)
  from execute_all [OF q [unfolded f_def]] obtain part where t: "recorded t = recorded s" "executed t = executed s @ part"
    "prefix part (mig_statements m)" "q = Inr () \<longrightarrow> part = mig_statements m" by blast
  show ?thesis
  proof (cases q)
    case (Inl e)
    with run q have "s' = t" "r \<noteq> Inr ()" by (simp_all add: seq_def)
    with t show ?thesis by blast
  next
    case (Inr u)
    obtain p w where p: "be_record be m t = (p, w)" by (cases "be_record be m t")
    with run q Inr have r: "r = wrap ''record migration'' p" "s' = w" by (simp_all add: seq_def wrapping_def)
    then have "r = Inr () \<longrightarrow> p = Inr ()" by (cases p) (auto simp: wrap_def)
    with records [OF p] t assms(3) r Inr show ?thesis by auto
  qed
qed

text \<open>
  How far a run came: the migrations that are recorded and, when it stopped within one, the
  statements of it that were executed.
\<close>

lemma apply_all:
  assumes "each (apply_migration be a) ms s = (r, s')" and "distinct (map mig_version ms)"
    and "\<And>m. m \<in> set ms \<Longrightarrow> a (mig_version m) = None \<longleftrightarrow> mig_version m \<notin> am_version ` recorded s"
  shows "\<exists>finished part. executed s' = executed s @ concat (map mig_statements finished) @ part
    \<and> recorded s' = recorded s \<union> row_of ` set finished \<and> prefix finished (missing (recorded s) ms)
    \<and> (part = [] \<or> (\<exists>m. prefix (finished @ [m]) (missing (recorded s) ms) \<and> prefix part (mig_statements m)))
    \<and> (r = Inr () \<longrightarrow> finished = missing (recorded s) ms \<and> part = []
        \<and> (\<forall>m \<in> set ms. \<forall>row. a (mig_version m) = Some row \<longrightarrow> am_name row = mig_name m \<and> am_checksum row = mig_checksum m))"
  using assms
proof (induction ms arbitrary: s)
  case Nil
  then show ?case by (simp add: missing_def)
next
  case (Cons m ms)
  obtain q t where q: "apply_migration be a m s = (q, t)" by (cases "apply_migration be a m s")
  show ?case
  proof (cases "a (mig_version m)")
    case (Some row)
    with Cons.prems(3) [of m] have "mig_version m \<in> am_version ` recorded s" by simp
    then have todo: "missing (recorded s) (m # ms) = missing (recorded s) ms" by (simp add: missing_def)
    show ?thesis
    proof (cases "am_name row \<noteq> mig_name m \<or> am_checksum row \<noteq> mig_checksum m")
      case True
      with Cons.prems(1) Some have "s' = s" "r \<noteq> Inr ()" by (auto simp: apply_migration_def seq_def)
      then show ?thesis by (intro exI [of _ "[]"]) simp
    next
      case False
      with Some have "apply_migration be a m = ret ()" by (simp add: apply_migration_def)
      with Cons.prems(1) have "each (apply_migration be a) ms s = (r, s')" by simp
      note IH = Cons.IH [OF this]
      with Cons.prems(2,3) Some False show ?thesis unfolding todo by (simp del: ex_simps)
    qed
  next
    case None
    with Cons.prems(3) have new: "mig_version m \<notin> am_version ` recorded s" by simp
    then have todo: "missing (recorded s) (m # ms) = m # missing (recorded s) ms" by (auto simp: missing_def)
    from apply_missing [OF q None new] show ?thesis
    proof (elim disjE exE conjE)
      fix part
      assume q': "q \<noteq> Inr ()" and part: "recorded t = recorded s" "executed t = executed s @ part" "prefix part (mig_statements m)"
      from q' obtain e where "q = Inl e" by (cases q) auto
      with q Cons.prems(1) have "s' = t" "r \<noteq> Inr ()" by (auto simp: seq_def)
      with part show ?thesis unfolding todo by (intro exI [of _ "[]"] exI [of _ part]) auto
    next
      assume t: "recorded t = insert (row_of m) (recorded s)" "executed t = executed s @ mig_statements m"
      show ?thesis
      proof (cases q)
        case (Inl e)
        with q Cons.prems(1) have "s' = t" "r \<noteq> Inr ()" by (auto simp: seq_def)
        with t show ?thesis unfolding todo by (intro exI [of _ "[m]"] exI [of _ "[]"]) auto
      next
        case (Inr u)
        with q Cons.prems(1) have "each (apply_migration be a) ms t = (r, s')" by (simp add: seq_def)
        note IH = Cons.IH [OF this]
        have other: "mig_version x \<noteq> mig_version m" if "x \<in> set ms" for x
          using Cons.prems(2) that by (auto simp: image_iff)
        then have same: "missing (recorded t) ms = missing (recorded s) ms"
          using t by (auto simp: missing_def intro!: filter_cong)
        have "a (mig_version x) = None \<longleftrightarrow> mig_version x \<notin> am_version ` recorded t" if "x \<in> set ms" for x
          using Cons.prems(3) t other that by auto
        with IH Cons.prems(2) obtain finished part where f: "executed s' = executed t @ concat (map mig_statements finished) @ part"
          "recorded s' = recorded t \<union> row_of ` set finished" "prefix finished (missing (recorded s) ms)"
          "part = [] \<or> (\<exists>m. prefix (finished @ [m]) (missing (recorded s) ms) \<and> prefix part (mig_statements m))"
          "r = Inr () \<longrightarrow> finished = missing (recorded s) ms \<and> part = []
            \<and> (\<forall>m \<in> set ms. \<forall>row. a (mig_version m) = Some row \<longrightarrow> am_name row = mig_name m \<and> am_checksum row = mig_checksum m)"
          unfolding same by (simp del: ex_simps) blast
        show ?thesis unfolding todo
          by (rule exI [of _ "m # finished"], rule exI [of _ part]) (use f t None in auto)
      qed
    qed
  qed
qed

text \<open>A whole run, whatever fails in it.\<close>

lemma run:
  assumes "run_migrations files be s = (r, s')" and "load_migrations files = Inr ms" and "distinct (map mig_version ms)"
  shows "\<exists>finished part. executed s' = executed s @ concat (map mig_statements finished) @ part
    \<and> recorded s' = recorded s \<union> row_of ` set finished \<and> prefix finished (missing (recorded s) ms)
    \<and> (part = [] \<or> (\<exists>m. prefix (finished @ [m]) (missing (recorded s) ms) \<and> prefix part (mig_statements m)))
    \<and> (r = Inr () \<longrightarrow> finished = missing (recorded s) ms \<and> part = [] \<and> recorded s \<subseteq> row_of ` set ms)"
proof -
  obtain r1 t1 where prep: "be_prepare be s = (r1, t1)" by (cases "be_prepare be s")
  obtain r2 t2 where app: "be_applied be t1 = (r2, t2)" by (cases "be_applied be t1")
  note same = prepare [OF prep] applied [OF app]
  show ?thesis
  proof (cases "\<exists>u rows a. r1 = Inr u \<and> r2 = Inr rows \<and> ledger_map (map mig_version ms) rows (\<lambda>_. None) = Inr a")
    case True
    then obtain u rows a where ok: "r1 = Inr u" "r2 = Inr rows" "ledger_map (map mig_version ms) rows (\<lambda>_. None) = Inr a" by blast
    have each: "each (apply_migration be a) ms t2 = (r, s')"
      using assms(1,2) prep app ok by (simp add: run_migrations_def seq_def wrapping_def wrap_def)
    have "a v = None \<longleftrightarrow> v \<notin> am_version ` recorded t2" for v
      using ledger_map_Inr(1) [OF ok(3)] same ok(2) by simp
    moreover have "recorded s \<subseteq> row_of ` set ms"
      if "\<forall>m \<in> set ms. \<forall>row. a (mig_version m) = Some row \<longrightarrow> am_name row = mig_name m \<and> am_checksum row = mig_checksum m"
      by (rule ledger_embedded [OF ok(3) that unique]) (use same ok(2) in simp_all)
    moreover note apply_all [OF each assms(3)]
    ultimately show ?thesis using same by (simp del: ex_simps) blast
  next
    case False
    with assms(1,2) prep app have "(s' = t1 \<or> s' = t2) \<and> r \<noteq> Inr ()"
      by (auto simp: run_migrations_def seq_def wrapping_def wrap_def lift_def split: sum.splits prod.splits)
    with same show ?thesis by (intro exI [of _ "[]"]) auto
  qed
qed

end

subsection \<open>The embedded migrations have distinct versions\<close>

lemma load_named_distinct:
  "load_named files versions names = Inr ms \<Longrightarrow>
     distinct (map mig_version ms) \<and> set versions \<inter> mig_version ` set ms = {} \<and> map mig_name ms = names"
proof (induction files versions names arbitrary: ms rule: load_named.induct)
  case (2 files versions name names)
  then show ?case
    by (fastforce simp: load_one_def result_simps split: if_splits option.splits)
qed simp

lemma digit_val_bounds: "is_digit d \<Longrightarrow> 0 \<le> digit_val d \<and> digit_val d \<le> 9"
  using of_nat_of_char [of d, where 'a = int] by (simp add: is_digit_def digit_val_def Let_def)

lemma three_digits_mono:
  assumes "parse_digits (take 3 xs) = Some i" "parse_digits (take 3 ys) = Some j" "3 \<le> length xs" "3 \<le> length ys" "xs \<le> ys"
  shows "i \<le> j"
proof -
  obtain a b c r where xs: "xs = a # b # c # r" using assms(3) by (auto simp: Suc_le_length_iff numeral_3_eq_3)
  obtain a' b' c' r' where ys: "ys = a' # b' # c' # r'" using assms(4) by (auto simp: Suc_le_length_iff numeral_3_eq_3)
  have less: "digit_val d < digit_val e" if "d < e" for d e
    using that of_nat_of_char [of d, where 'a = int] of_nat_of_char [of e, where 'a = int] by (simp add: less_char_def digit_val_def)
  from assms(1,2) have "i = 100 * digit_val a + 10 * digit_val b + digit_val c" "j = 100 * digit_val a' + 10 * digit_val b' + digit_val c'"
    "is_digit a" "is_digit b" "is_digit c" "is_digit a'" "is_digit b'" "is_digit c'"
    by (auto simp: xs ys parse_digits_def split: if_splits)
  moreover have "a < a' \<or> a = a' \<and> (b < b' \<or> b = b' \<and> (c < c' \<or> c = c'))"
    using assms(5) by (auto simp: xs ys)
  ultimately show ?thesis
    using less [of a a'] less [of b b'] less [of c c'] digit_val_bounds [of a] digit_val_bounds [of b] digit_val_bounds [of c] digit_val_bounds [of a'] digit_val_bounds [of b'] digit_val_bounds [of c']
    by auto
qed

lemma digits_value_nonneg: "list_all is_digit s \<Longrightarrow> 0 \<le> acc \<Longrightarrow> 0 \<le> digits_value acc s"
  by (induction s arbitrary: acc) (simp_all add: digit_val_bounds)

lemma load_one_version:
  assumes "load_one versions name contents = Inr m"
  shows "parse_digits (take 3 name) = Some (uint (mig_version m))" "3 \<le> length name" "mig_name m = name"
proof -
  from assms obtain n where n: "parse_uint 32 (take 3 name) = Some n" "n \<noteq> 0" "mig_version m = word_of_int n"
    and name: "index_byte name (CHR ''_'') = 3" "mig_name m = name"
    by (auto simp: load_one_def result_simps split: option.splits)
  have "length (takeWhile (\<lambda>x. x \<noteq> CHR ''_'') name) = 3"
    using name(1) by (auto simp: index_byte_def Let_def split: if_splits)
  with length_takeWhile_le [of "\<lambda>x. x \<noteq> CHR ''_''" name] show "3 \<le> length name" by simp
  from n(1) have "parse_digits (take 3 name) = Some n" "0 \<le> n" "n < 2 ^ 32"
    using digits_value_nonneg [of "take 3 name" 0] by (auto simp: parse_uint_def parse_digits_def split: option.splits if_splits)
  then show "parse_digits (take 3 name) = Some (uint (mig_version m))"
    by (simp add: n(3) uint_word_of_int take_bit_int_eq_self)
  show "mig_name m = name" by (rule name(2))
qed

lemma load_named_version:
  "load_named files versions names = Inr ms \<Longrightarrow> m \<in> set ms \<Longrightarrow>
     parse_digits (take 3 (mig_name m)) = Some (uint (mig_version m)) \<and> 3 \<le> length (mig_name m)"
proof (induction files versions names arbitrary: ms rule: load_named.induct)
  case (2 files versions name names)
  then obtain contents m' ms' where m': "load_one versions name contents = Inr m'" "ms = m' # ms'"
    and rest: "map_of files name = Some contents" "load_named files (mig_version m' # versions) names = Inr ms'"
    by (auto simp: result_simps)
  from load_one_version [OF m'(1)] "2.IH" [OF rest(2)] "2.prems"(2) m'(2) show ?case by auto
qed simp

lemma load_distinct: "load_migrations files = Inr ms \<Longrightarrow> distinct (map mig_version ms)"
  unfolding load_migrations_def by (blast dest: load_named_distinct)

lemma load_sorted: "load_migrations files = Inr ms \<Longrightarrow> sorted (map mig_version ms)"
proof -
  assume load: "load_migrations files = Inr ms"
  then have names: "sorted (map mig_name ms)"
    unfolding load_migrations_def using load_named_distinct by (metis sorted_sort)
  have "mig_version m \<le> mig_version m'" if "m \<in> set ms" "m' \<in> set ms" "mig_name m \<le> mig_name m'" for m m'
    using that load_named_version [OF load [unfolded load_migrations_def]] three_digits_mono by (metis word_le_def)
  with names show ?thesis unfolding sorted_map by (rule sorted_wrt_mono_rel [rotated]) auto
qed

subsection \<open>The ClickHouse backend keeps the laws\<close>

definition ledger :: "migration_db \<Rightarrow> applied_migration set" where
  "ledger d = applied_migration.truncate ` set (final_rows am_version mr_applied_at (schema_migrations d))"

lemma ledger_versions: "am_version ` ledger d = am_version ` set (schema_migrations d)"
proof -
  have "am_version ` ledger d = am_version ` set (final_rows am_version mr_applied_at (schema_migrations d))"
    by (simp add: ledger_def image_image applied_migration.truncate_def)
  also have "\<dots> = am_version ` set (schema_migrations d)"
  proof (rule equalityI [OF image_mono [OF final_rows_subset] subsetI])
    fix v
    assume "v \<in> am_version ` set (schema_migrations d)"
    then obtain row where "newest am_version mr_applied_at (schema_migrations d) v = Some row"
      by (cases "newest am_version mr_applied_at (schema_migrations d) v") (auto simp: newest_None)
    then have "am_version row = v" "newest am_version mr_applied_at (schema_migrations d) (am_version row) = Some row"
      using newest_Some [of am_version mr_applied_at "schema_migrations d" v row] by simp_all
    then show "v \<in> am_version ` set (final_rows am_version mr_applied_at (schema_migrations d))"
      by (auto simp: final_rows_iff intro!: image_eqI [of _ _ row])
  qed
  finally show ?thesis .
qed

lemma ledger_insert:
  assumes "am_version row \<notin> am_version ` ledger d"
  shows "ledger (d\<lparr>schema_migrations := schema_migrations d @ [row]\<rparr>) = insert (applied_migration.truncate row) (ledger d)"
proof -
  let ?t = "schema_migrations d"
  have new: "am_version row \<notin> am_version ` set ?t" using assms by (simp add: ledger_versions)
  then have none: "newest am_version mr_applied_at ?t (am_version row) = None" by (simp add: newest_None)
  have "x \<in> set (final_rows am_version mr_applied_at (?t @ [row]))
      \<longleftrightarrow> x = row \<or> x \<in> set (final_rows am_version mr_applied_at ?t)" for x
  proof (cases "am_version x = am_version row")
    case True
    with none show ?thesis by (auto simp: final_rows_iff newest_append)
  next
    case False
    then show ?thesis by (auto simp: final_rows_iff newest_append)
  qed
  then have "set (final_rows am_version mr_applied_at (?t @ [row])) = insert row (set (final_rows am_version mr_applied_at ?t))"
    by blast
  then show ?thesis by (simp add: ledger_def)
qed

lemma insert_ledger_row:
  "schema_migrations_update (insert_rows [row] part) d =
     (if part = Some 0 then d else d\<lparr>schema_migrations := schema_migrations d @ [row]\<rparr>)"
  by (cases part) (auto simp: insert_rows_def take_Cons' )

interpretation ch: migration_ledger "clickhouse_backend column" "\<lambda>s. ledger (db s)" "\<lambda>s. statement_log (db s)"
  for column
proof
  fix s :: "migration_db conn"
  have "inj_on am_version (set (final_rows am_version mr_applied_at (schema_migrations (db s))))"
    by (auto simp: inj_on_def final_rows_iff)
  then show "inj_on am_version (ledger (db s))"
    by (auto simp: ledger_def inj_on_def applied_migration.truncate_def)
next
  fix s r and s' :: "migration_db conn"
  assume "be_prepare (clickhouse_backend column) s = (r, s')"
  then show "ledger (db s') = ledger (db s) \<and> statement_log (db s') = statement_log (db s)"
    by (auto simp: clickhouse_backend_def ch_prepare_def seq_def exec_def split: fault.splits prod.splits sum.splits)
next
  fix s q and s' :: "migration_db conn"
  assume "be_applied (clickhouse_backend column) s = (q, s')"
  then show "ledger (db s') = ledger (db s) \<and> statement_log (db s') = statement_log (db s)
      \<and> (\<forall>rows. q = Inr rows \<longrightarrow> set rows = ledger (db s))"
    by (auto simp: clickhouse_backend_def ch_applied_def query_def ledger_def split: fault.splits)
next
  fix st s r and s' :: "migration_db conn"
  assume "be_execute (clickhouse_backend column) st s = (r, s')"
  then show "ledger (db s') = ledger (db s)
      \<and> (statement_log (db s') = statement_log (db s) @ [st] \<or> r \<noteq> Inr () \<and> statement_log (db s') = statement_log (db s))"
    by (auto simp: clickhouse_backend_def ch_execute_def exec_def ledger_def split: fault.splits if_splits)
next
  fix m :: migration and s r and s' :: "migration_db conn"
  let ?row = "\<lambda>t. \<lparr>am_version = mig_version m, am_name = mig_name m, am_checksum = mig_checksum m, mr_applied_at = column t\<rparr>"
  assume "be_record (clickhouse_backend column) m s = (r, s')" and new: "mig_version m \<notin> am_version ` ledger (db s)"
  then have "db s' = db s\<lparr>schema_migrations := schema_migrations (db s) @ [?row (clock s (ticks s))]\<rparr> \<or> r \<noteq> Inr () \<and> db s' = db s"
    by (auto simp: clickhouse_backend_def ch_record_def seq_def time_now_def wrapping_def wrap_def exec_def
        insert_ledger_row split: fault.splits if_splits)
  with ledger_insert [of "?row (clock s (ticks s))" "db s"] new
  show "statement_log (db s') = statement_log (db s)
      \<and> (ledger (db s') = insert (row_of m) (ledger (db s)) \<or> r \<noteq> Inr () \<and> ledger (db s') = ledger (db s))"
    by (auto simp: row_of_def applied_migration.truncate_def)
qed

subsection \<open>A run of the command\<close>

text \<open>
  C10. Run over the ClickHouse backend, whatever call breaks: what it executes is a beginning of the
  statements of the embedded migrations that the ledger misses, in ascending order of version, and
  the ledger gains exactly the migrations whose statements were all executed, with at most one
  migration begun and not recorded. When it returns, all of them were executed and the ledger is the
  embedded migrations; a later run, whatever breaks in it, then executes and records nothing.
\<close>

theorem migrations_apply_once:
  assumes "new_clickhouse_backend column database = Inr be" and "load_migrations files = Inr ms"
    and "run_migrations files be s = (r, s')"
  shows "sorted (map mig_version ms) \<and> distinct (map mig_version ms)
    \<and> (\<exists>finished part. statement_log (db s') = statement_log (db s) @ concat (map mig_statements finished) @ part
        \<and> ledger (db s') = ledger (db s) \<union> row_of ` set finished
        \<and> prefix finished (missing (ledger (db s)) ms)
        \<and> (part = [] \<or> (\<exists>m. prefix (finished @ [m]) (missing (ledger (db s)) ms) \<and> prefix part (mig_statements m))))
    \<and> (r = Inr () \<longrightarrow>
        statement_log (db s') = statement_log (db s) @ concat (map mig_statements (missing (ledger (db s)) ms))
        \<and> ledger (db s') = row_of ` set ms
        \<and> (\<forall>t r' t'. db t = db s' \<longrightarrow> run_migrations files be t = (r', t') \<longrightarrow>
             statement_log (db t') = statement_log (db t) \<and> ledger (db t') = ledger (db t)))"
proof -
  have be: "be = clickhouse_backend column" using assms(1) by (auto simp: new_clickhouse_backend_def result_simps)
  note distinct = load_distinct [OF assms(2)]
  from ch.run [OF assms(3) [unfolded be] assms(2) distinct] obtain finished part where
    f: "statement_log (db s') = statement_log (db s) @ concat (map mig_statements finished) @ part"
      "ledger (db s') = ledger (db s) \<union> row_of ` set finished" "prefix finished (missing (ledger (db s)) ms)"
      "part = [] \<or> (\<exists>m. prefix (finished @ [m]) (missing (ledger (db s)) ms) \<and> prefix part (mig_statements m))"
      "r = Inr () \<longrightarrow> finished = missing (ledger (db s)) ms \<and> part = [] \<and> ledger (db s) \<subseteq> row_of ` set ms"
    by blast
  have complete: "ledger (db s') = row_of ` set ms" if "r = Inr ()"
    using f(2,5) that distinct by (intro union_missing [of "ledger (db s)"]) (simp_all add: distinct_map)
  have again: "statement_log (db t') = statement_log (db t) \<and> ledger (db t') = ledger (db t)"
    if "r = Inr ()" "db t = db s'" "run_migrations files be t = (r', t')" for t r' t'
  proof -
    have "missing (ledger (db t)) ms = []" using complete [OF that(1)] that(2) by (force simp: missing_def filter_empty_conv)
    with ch.run [OF that(3) [unfolded be] assms(2) distinct] show ?thesis by auto
  qed
  have progress: "\<exists>finished part. statement_log (db s') = statement_log (db s) @ concat (map mig_statements finished) @ part
        \<and> ledger (db s') = ledger (db s) \<union> row_of ` set finished
        \<and> prefix finished (missing (ledger (db s)) ms)
        \<and> (part = [] \<or> (\<exists>m. prefix (finished @ [m]) (missing (ledger (db s)) ms) \<and> prefix part (mig_statements m)))"
    using f(1-4) by blast
  have whole: "statement_log (db s') = statement_log (db s) @ concat (map mig_statements (missing (ledger (db s)) ms))"
    if "r = Inr ()" using f(1,5) that by simp
  show ?thesis using load_sorted [OF assms(2)] distinct progress whole complete
    by (intro conjI impI allI) (use again in blast)+
qed

definition sample_files :: "(string \<times> string) list" where
  "sample_files =
    [(''002_b.sql'', ''SELECT 1; -- a; b'' @ [CHR 0x0A] @ ''INSERT ('' @ [CHR 0x27] @ ''x;y'' @ [CHR 0x27] @ '') /* ; */;''),
     (''001_a.sql'', ''CREATE DATABASE d;'')]"

definition sample_migrations :: "migration list" where
  "sample_migrations =
    [\<lparr>mig_version = 1, mig_name = ''001_a.sql'', mig_checksum = hex_encode (sha256 ''CREATE DATABASE d;''),
        mig_statements = [''CREATE DATABASE d'']\<rparr>,
     \<lparr>mig_version = 2, mig_name = ''002_b.sql'', mig_checksum = hex_encode (sha256 (snd (hd sample_files))),
        mig_statements = [''SELECT 1'', ''INSERT ('' @ [CHR 0x27] @ ''x;y'' @ [CHR 0x27] @ '')'']\<rparr>]"

lemma sample_split:
  "split_statements (snd (hd sample_files)) = Inr [''SELECT 1'', ''INSERT ('' @ [CHR 0x27] @ ''x;y'' @ [CHR 0x27] @ '')'']"
  "split_statements ''CREATE DATABASE d;'' = Inr [''CREATE DATABASE d'']"
  by code_simp+

lemma sample_names:
  "sort (map fst sample_files) = [''001_a.sql'', ''002_b.sql'']"
  "index_byte ''001_a.sql'' (CHR ''_'') = 3" "index_byte ''002_b.sql'' (CHR ''_'') = 3"
  "parse_uint 32 (take 3 ''001_a.sql'') = Some 1" "parse_uint 32 (take 3 ''002_b.sql'') = Some 2"
  "map_of sample_files ''001_a.sql'' = Some ''CREATE DATABASE d;''"
  "map_of sample_files ''002_b.sql'' = Some (snd (hd sample_files))"
  by code_simp+

lemma sample_load: "load_migrations sample_files = Inr sample_migrations"
  unfolding load_migrations_def sample_names(1)
  by (simp add: load_one_def sample_names sample_split sample_migrations_def wrap_def del: take_Cons_numeral)

text \<open>A database in which the first of them is recorded, and one whose second call then breaks.\<close>

definition sample_database :: "(nat \<Rightarrow> fault) \<Rightarrow> migration_db conn" where
  "sample_database faulty =
     \<lparr>db = \<lparr>schema_migrations = [applied_migration.extend (row_of (hd sample_migrations)) (migration_row.fields 0)],
        statement_log = [''CREATE DATABASE d'']\<rparr>,
      calls = 0, faults = faulty, ticks = 0, clock = (\<lambda>_. 5)\<rparr>"

theorem migrations_apply_once_witness:
  "\<exists>be s'. new_clickhouse_backend id ''linka_metric'' = Inr be
    \<and> run_migrations sample_files be (sample_database (\<lambda>_. Served)) = (Inr (), s')
    \<and> statement_log (db s') = [''CREATE DATABASE d'', ''SELECT 1'', ''INSERT ('' @ [CHR 0x27] @ ''x;y'' @ [CHR 0x27] @ '')'']
    \<and> ledger (db s') = row_of ` set sample_migrations"
proof -
  have "database_pattern ''linka_metric''" by code_simp
  then have be: "new_clickhouse_backend id ''linka_metric'' = Inr (clickhouse_backend id)"
    by (simp add: new_clickhouse_backend_def)
  obtain s' where run: "run_migrations sample_files (clickhouse_backend id) (sample_database (\<lambda>_. Served)) = (Inr (), s')"
    by (simp add: run_migrations_def sample_load sample_migrations_def sample_database_def clickhouse_backend_def ch_prepare_def
      ch_applied_def ch_execute_def ch_record_def seq_def wrapping_def wrap_def exec_def query_def time_now_def final_rows_def
      map_filter_simps newest_def row_of_def applied_migration.defs migration_row.defs apply_migration_def lift_def)
  have ledger: "ledger (db (sample_database (\<lambda>_. Served))) = {row_of (hd sample_migrations)}"
    by (simp add: ledger_def sample_database_def final_rows_def map_filter_simps newest_def row_of_def applied_migration.defs migration_row.defs)
  note returned = migrations_apply_once [OF be sample_load run, THEN conjunct2, THEN conjunct2, THEN conjunct2, THEN mp, OF refl]
  have "statement_log (db s') = [''CREATE DATABASE d'', ''SELECT 1'', ''INSERT ('' @ [CHR 0x27] @ ''x;y'' @ [CHR 0x27] @ '')'']"
    unfolding returned [THEN conjunct1] ledger
    by (simp add: sample_database_def missing_def sample_migrations_def row_of_def)
  with run be returned [THEN conjunct2, THEN conjunct1] show ?thesis by blast
qed

end
