(* ===== verification/Service_Config.thy ===== *)
theory Service_Config
  imports Collector_Server Writer_Store Go_Duration Import_Legacy Migrations "HOL-Library.AList"
begin

section \<open>The commands: configuration from the environment\<close>

text \<open>
  internal/app/runtime.go and the run functions of cmd/collector, cmd/writer, cmd/privacy-worker,
  cmd/migrate and cmd/import-legacy, up to the point where they serve. The environment is a function
  (os.Getenv gives the empty text for an unset name); url.Parse, opening and pinging ClickHouse, the
  transport and the key sets of an URL are arguments. What a command starts is its result: the
  address with the server, the limits and interval of the worker, the importer.
\<close>

type_synonym environment = "string \<Rightarrow> string"

definition app_env :: "environment \<Rightarrow> string \<Rightarrow> string result" where
  "app_env env name = reject (env name = []) (Err (name @ '' is required'')) (Inr (env name))"

definition app_secret :: "environment \<Rightarrow> string \<Rightarrow> string result" where
  "app_secret env name =
     andthen (app_env env name) (\<lambda>value.
       reject (length value < 32) (Err (name @ '' must contain at least 32 bytes'')) (Inr value))"

definition env_default :: "environment \<Rightarrow> string \<Rightarrow> string \<Rightarrow> string" where
  "env_default env name fallback = (if env name \<noteq> [] then env name else fallback)"

text \<open>An optional duration: \<open>if value := os.Getenv(name); value != "" { d, err = time.ParseDuration(value) }\<close>.\<close>

definition env_duration :: "environment \<Rightarrow> string \<Rightarrow> duration \<Rightarrow> duration result" where
  "env_duration env name fallback =
     (if env name = [] then Inr fallback
      else from_option (Err ''time: invalid duration'') (parse_duration (env name)))"

subsection \<open>The ClickHouse connection of a command\<close>

record dial_options =
  dial_addresses :: "string list"
  dial_database :: string
  dial_username :: string
  dial_password :: string
  dial_secure :: bool

definition dial_from :: "environment \<Rightarrow> string \<Rightarrow> string \<Rightarrow> dial_options" where
  "dial_from env username password =
     \<lparr>dial_addresses = split_on (CHR '','') (env_default env ''CLICKHOUSE_ADDRS'' ''clickhouse:9000''),
      dial_database = env_default env ''CLICKHOUSE_DATABASE'' ''linka_metric'', dial_username = username,
      dial_password = password, dial_secure = (env ''CLICKHOUSE_SECURE'' = ''true'')\<rparr>"

subsection \<open>cmd/writer\<close>

definition retention_from :: "environment \<Rightarrow> string \<Rightarrow> duration result" where
  "retention_from env name =
     (if env name = [] then Inr 0
      else case parse_duration (env name) of
             None \<Rightarrow> Inl (Err (name @ '' must be a positive Go duration''))
           | Some d \<Rightarrow> reject (d \<le> 0) (Err (name @ '' must be a positive Go duration'')) (Inr d))"

definition load_retention :: "environment \<Rightarrow> retention result" where
  "load_retention env =
     andthen (retention_from env ''RETENTION_V2_INGEST_BATCHES'') (\<lambda>batches.
     andthen (retention_from env ''RETENTION_V2_COMMON'') (\<lambda>common.
     andthen (retention_from env ''RETENTION_V2_TECHNICAL'') (\<lambda>technical.
     andthen (retention_from env ''RETENTION_V2_PLAYS'') (\<lambda>plays.
     andthen (retention_from env ''RETENTION_V2_PRODUCT'') (\<lambda>product.
     andthen (retention_from env ''RETENTION_V2_OUTCOME'') (\<lambda>outcome_rows.
     andthen (retention_from env ''RETENTION_V2_PRIVACY'') (\<lambda>privacy.
       Inr \<lparr>keep_batches = batches, keep_common = common, keep_technical = technical, keep_plays = plays,
            keep_product = product, keep_outcome = outcome_rows, keep_privacy = privacy\<rparr>)))))))"

text \<open>Opening the store with the options, then Ping; the store is told the retentions.\<close>

definition writer_run ::
  "environment \<Rightarrow> (dial_options \<Rightarrow> unit result) \<Rightarrow> (retention \<Rightarrow> 'u store_config)
    \<Rightarrow> (string \<times> 'u tables conn writer_server) result" where
  "writer_run env open_store store_of =
     andthen (app_secret env ''WRITER_HMAC_SECRET'') (\<lambda>writer_secret.
     andthen (hmac_keyring env ''SERVICE_HMAC'' writer_secret) (\<lambda>(active, previous).
     andthen (new_service_verifier active previous ''collector'' (5 * minute)) (\<lambda>verifier.
     andthen (app_env env ''CLICKHOUSE_PASSWORD'') (\<lambda>password.
     andthen (load_retention env) (\<lambda>keep.
     andthen (open_store (dial_from env (env_default env ''CLICKHOUSE_USER'' ''metric_writer'') password)) (\<lambda>_.
       Inr (env_default env ''LISTEN_ADDR'' '':8081'', clickhouse_writer (store_of keep) writer_secret verifier)))))))"

subsection \<open>cmd/privacy-worker and cmd/migrate\<close>

definition worker_run :: "environment \<Rightarrow> (dial_options \<Rightarrow> unit result) \<Rightarrow> (worker_limits \<times> duration) result" where
  "worker_run env open_store =
     andthen (app_env env ''CLICKHOUSE_PASSWORD'') (\<lambda>password.
     andthen (open_store (dial_from env (env_default env ''CLICKHOUSE_USER'' ''metric_privacy'') password)) (\<lambda>_.
     andthen (from_option (Err ''PRIVACY_WORKER_MAX_ATTEMPTS must be an integer'')
         (parse_int64 (env_default env ''PRIVACY_WORKER_MAX_ATTEMPTS'' ''10''))) (\<lambda>max_attempts.
     andthen (new_worker_with_max_attempts 100 max_attempts) (\<lambda>worker.
     case parse_duration (env_default env ''PRIVACY_WORKER_INTERVAL'' ''30s'') of
       None \<Rightarrow> Inl (Err ''PRIVACY_WORKER_INTERVAL must be at least one second'')
     | Some interval \<Rightarrow>
         reject (interval < second) (Err ''PRIVACY_WORKER_INTERVAL must be at least one second'')
           (Inr (worker, interval))))))"

text \<open>The loop until the context is cancelled after the given number of ticks: iterations whose errors are logged.\<close>

fun worker_loop :: "'s privacy_backend \<Rightarrow> worker_limits \<Rightarrow> nat \<Rightarrow> ('s, unit) action" where
  "worker_loop be w 0 = ignoring (run_once be w)"
| "worker_loop be w (Suc n) = seq (ignoring (run_once be w)) (\<lambda>_. worker_loop be w n)"

definition migrate_run ::
  "environment \<Rightarrow> (dial_options \<Rightarrow> unit result) \<Rightarrow> (time \<Rightarrow> time) \<Rightarrow> (string \<times> string) list
    \<Rightarrow> (migration_db conn, unit) action" where
  "migrate_run env open_connection column files =
     seq (lift (andthen (app_env env ''CLICKHOUSE_ADMIN_PASSWORD'') (\<lambda>password.
         andthen (open_connection ((dial_from env (env_default env ''CLICKHOUSE_ADMIN_USER'' ''admin'') password)
           \<lparr>dial_database := ''default''\<rparr>)) (\<lambda>_.
         new_clickhouse_backend column (env_default env ''CLICKHOUSE_DATABASE'' ''linka_metric''))))) (\<lambda>be.
       run_migrations files be)"

subsection \<open>cmd/import-legacy\<close>

text \<open>The flags are arguments; the store is opened unless it is a dry run.\<close>

definition open_import_store :: "environment \<Rightarrow> (dial_options \<Rightarrow> unit result) \<Rightarrow> unit result" where
  "open_import_store env open_store =
     andthen (app_env env ''CLICKHOUSE_PASSWORD'') (\<lambda>password.
       open_store (dial_from env (env_default env ''CLICKHOUSE_USER'' ''metric_writer'') password))"

definition import_run ::
  "environment \<Rightarrow> (dial_options \<Rightarrow> unit result) \<Rightarrow> string result \<Rightarrow> 'u import_config
    \<Rightarrow> ('u tables conn, importer) action" where
  "import_run env open_store input cfg s =
     (case reject (batch_delay cfg < 0) (Err ''batch-delay must not be negative'')
         (andthen (app_secret env ''IMPORT_SUBJECT_HMAC_SECRET'') (\<lambda>secret.
          andthen (wrap ''open input'' input) (\<lambda>bytes.
          andthen (if dry_run cfg then Inr () else open_import_store env open_store) (\<lambda>_.
            Inr (cfg\<lparr>import_secret := secret\<rparr>, bytes))))) of
        Inl e \<Rightarrow> (Inl e, s)
      | Inr (cfg, bytes) \<Rightarrow>
          (case consume cfg bytes (new_importer, s) of (r, (i, s')) \<Rightarrow> (andthen r (\<lambda>_. Inr i), s')))"

subsection \<open>cmd/collector\<close>

text \<open>base64.StdEncoding.DecodeString: line ends are skipped, the text is padded to groups of four.\<close>

definition std_alphabet :: "char \<Rightarrow> char option" where
  "std_alphabet c = (if c = CHR ''+'' then Some (CHR ''-'') else if c = CHR ''/'' then Some (CHR ''_'')
     else if is_alnum c then Some c else None)"

definition std_base64_decode :: "string \<Rightarrow> string option" where
  "std_base64_decode s =
     (let t = filter (\<lambda>c. c \<noteq> CHR 0x0A \<and> c \<noteq> CHR 0x0D) s; n = length t;
          body = (if 4 \<le> n \<and> drop (n - 2) t = ''=='' then take (n - 2) t
                  else if 4 \<le> n \<and> drop (n - 1) t = ''='' then take (n - 1) t else t)
      in if n mod 4 \<noteq> 0 \<or> \<not> list_all (\<lambda>c. std_alphabet c \<noteq> None) body then None
         else b64_decode (map (the \<circ> std_alphabet) body))"

text \<open>A JSON object of strings into a map: a null is the empty text, the last of equal keys wins.\<close>

fun into_string_map :: "(string \<times> string) list into" where
  "into_string_map (JObj ms) old =
     (if list_all (\<lambda>m. into_string (snd m) [] \<noteq> None) ms
      then Some (fold (\<lambda>(k, v) m. AList.update k (the (into_string v [])) m) ms old) else None)"
| "into_string_map JNull old = Some []"
| "into_string_map v old = None"

definition audiences_error :: go_error where
  "audiences_error = Err ''IDENTITY_TELEMETRY_AUDIENCES_JSON must be a non-empty JSON object''"

definition identity_audiences :: "environment \<Rightarrow> (string \<times> string) list result" where
  "identity_audiences env =
     andthen
       (if env ''IDENTITY_TELEMETRY_AUDIENCES_JSON'' \<noteq> [] then Inr (env ''IDENTITY_TELEMETRY_AUDIENCES_JSON'')
        else if env ''IDENTITY_TELEMETRY_AUDIENCES_BASE64'' \<noteq> []
        then from_option (Err ''IDENTITY_TELEMETRY_AUDIENCES_BASE64 is invalid'')
          (std_base64_decode (env ''IDENTITY_TELEMETRY_AUDIENCES_BASE64''))
        else Inr []) (\<lambda>value.
     if value = [] then
       (case app_env env ''IDENTITY_TELEMETRY_AUDIENCE'' of
          Inl _ \<Rightarrow> Inl (Err ''IDENTITY_TELEMETRY_AUDIENCES_JSON is required'')
        | Inr legacy \<Rightarrow> Inr [(LinkaPlays, legacy)])
     else
       andthen (from_option audiences_error (Option.bind (Option.bind (lex value) json_decode) (\<lambda>v. into_string_map v []))) (\<lambda>raw.
       reject (raw = []) audiences_error
      (reject (list_ex (\<lambda>(i, a). lookup_product i = None \<or> trim_space a = []) raw)
         (Err ''IDENTITY_TELEMETRY_AUDIENCES_JSON contains an invalid product or audience'') (Inr raw))))"

text \<open>url.URL.Hostname: the host without an optional port and without the brackets of an IPv6 address.\<close>

definition url_hostname :: "url \<Rightarrow> string" where
  "url_hostname u =
     (let h = url_host u; r = rev h; port = rev (takeWhile (\<lambda>c. c \<noteq> CHR '':'') r);
          host = (if CHR '':'' \<in> set h \<and> list_all is_digit port then take (length h - length port - 1) h else h)
      in if host \<noteq> [] \<and> hd host = CHR ''['' \<and> last host = CHR '']'' then butlast (tl host) else host)"

definition exact_origin :: "(string \<Rightarrow> url option) \<Rightarrow> string \<Rightarrow> string \<Rightarrow> bool" where
  "exact_origin parse_url deployment origin =
     (case parse_url origin of
        None \<Rightarrow> False
      | Some u \<Rightarrow>
          url_host u \<noteq> [] \<and> \<not> url_user u \<and> url_query u = [] \<and> url_fragment u = [] \<and> url_path u = []
          \<and> (url_scheme u = ''https''
             \<or> deployment = ''staging'' \<and> url_scheme u = ''http''
               \<and> List.member [''127.0.0.1'', ''localhost'', ''::1''] (url_hostname u)))"

fun collect_origins :: "(string \<Rightarrow> bool) \<Rightarrow> string list \<Rightarrow> string list \<Rightarrow> string list result" where
  "collect_origins valid_origin [] result = Inr result"
| "collect_origins valid_origin (part # parts) result =
     (let origin = trim_space part
      in reject (\<not> valid_origin origin) (Err ''CORS_ALLOWED_ORIGINS must contain exact HTTPS origins'')
           (collect_origins valid_origin parts (if List.member result origin then result else result @ [origin])))"

definition cors_origins :: "environment \<Rightarrow> (string \<Rightarrow> url option) \<Rightarrow> string \<Rightarrow> string list result" where
  "cors_origins env parse_url deployment =
     (let value = env ''CORS_ALLOWED_ORIGINS''
      in if trim_space value = [] then Inr []
         else collect_origins (exact_origin parse_url deployment) (split_on (CHR '';'') value) [])"

definition configure_tts_outcome_ingress :: "environment \<Rightarrow> (service_verifier option \<times> string) result" where
  "configure_tts_outcome_ingress env =
     (let secret = env ''TTS_OUTCOME_HMAC_ACTIVE_SECRET''; skey = env ''TTS_OUTCOME_SUBJECT_KEY''
      in if secret = [] then Inr (None, [])
         else reject (\<not> opaque_key_pattern skey)
             (Err ''TTS_OUTCOME_SUBJECT_KEY must be a lowercase 64-character hexadecimal key'')
           (andthen (hmac_keyring env ''TTS_OUTCOME_HMAC'' secret) (\<lambda>(active, previous).
            andthen (new_service_verifier active previous ''tts-echo'' (5 * minute)) (\<lambda>v. Inr (Some v, skey)))))"

text \<open>
  The parts of run in its order. \<open>world\<close> is what the collector finds outside: the environment,
  url.Parse, the transport and the clock of its clients, the key sets behind an allowed URL, the
  random source of installation IDs and the text of the privacy page.
\<close>

record ('s, 'u) world =
  w_env :: environment
  w_parse_url :: "string \<Rightarrow> url option"
  w_transport :: "url \<Rightarrow> request \<Rightarrow> ('s, http_answer) action"
  w_keys :: "url \<Rightarrow> 's keys_fun"
  w_ed25519 :: ed25519
  w_uuids :: "'u uuid_lib"
  w_now :: "('s, time) action"
  w_new_id :: "('s, string) action"
  w_privacy_text :: string

definition installation_secret_from :: "environment \<Rightarrow> string result" where
  "installation_secret_from env =
     (let active = env ''INSTALLATION_HMAC_ACTIVE_SECRET''
      in if active = [] then app_secret env ''INSTALLATION_HMAC_SECRET''
         else reject (length active < 32) (Err ''INSTALLATION_HMAC_ACTIVE_SECRET must contain at least 32 bytes'') (Inr active))"

definition installation_tokens_from :: "environment \<Rightarrow> string \<Rightarrow> duration \<Rightarrow> installation_tokens result" where
  "installation_tokens_from env secret limit =
     andthen (hmac_keyring env ''INSTALLATION_HMAC'' secret) (\<lambda>(active, previous).
       new_installation_tokens (key_secret active) (map_option key_secret previous) limit)"

definition donation_verifier_from :: "environment \<Rightarrow> service_verifier option result" where
  "donation_verifier_from env =
     (let secret = env ''DONATION_INGEST_HMAC_ACTIVE_SECRET''
      in if secret = [] then Inr None
         else andthen (hmac_keyring env ''DONATION_INGEST_HMAC'' secret) (\<lambda>(active, previous).
              andthen (new_service_verifier active previous ''nko-donations'' (5 * minute)) (\<lambda>v. Inr (Some v))))"

definition deployment_from :: "environment \<Rightarrow> (string \<times> bool) result" where
  "deployment_from env =
     (let deployment = env_default env ''DEPLOYMENT_ENVIRONMENT'' ''production'';
          allow = env ''ALLOW_LEGACY_PRODUCT_TOKENS''
      in reject (deployment \<noteq> ''production'' \<and> deployment \<noteq> ''staging'')
           (Err ''DEPLOYMENT_ENVIRONMENT must be production or staging'')
        (reject (allow \<noteq> [] \<and> allow \<noteq> ''false'' \<and> allow \<noteq> ''true'')
           (Err ''ALLOW_LEGACY_PRODUCT_TOKENS must be true or false'')
        (reject (allow = ''true'' \<and> deployment \<noteq> ''staging'')
           (Err ''ALLOW_LEGACY_PRODUCT_TOKENS is permitted only in staging'')
           (Inr (deployment, allow = ''true'')))))"

definition product_tokens_from :: "environment \<Rightarrow> string \<Rightarrow> bool \<Rightarrow> product_tokens option result" where
  "product_tokens_from env installation_secret legacy =
     (if \<not> legacy then Inr None
      else
        andthen (hmac_keyring env ''PRODUCT_TOKEN_HMAC'' installation_secret) (\<lambda>(active, previous).
        andthen (env_duration env ''PRODUCT_TOKEN_TTL'' (24 * hour)) (\<lambda>ttl.
        andthen (new_product_tokens active previous (env_default env ''SUBJECT_KEY_HMAC_SECRET'' installation_secret) ttl)
          (\<lambda>tokens. Inr (Some tokens)))))"

definition new_http_jwks :: "(string \<Rightarrow> url option) \<Rightarrow> string \<Rightarrow> bool \<Rightarrow> url result" where
  "new_http_jwks parse_url raw allow_http =
     (case parse_url raw of
        None \<Rightarrow> Inl (Err ''IDENTITY_JWKS_URL must be an absolute allowed URL without credentials, query, or fragment'')
      | Some u \<Rightarrow>
          reject (url_host u = [] \<or> url_scheme u \<noteq> ''https'' \<and> \<not> (allow_http \<and> url_scheme u = ''http'')
              \<or> url_user u \<or> url_query u \<noteq> [] \<or> url_fragment u \<noteq> [])
            (Err ''IDENTITY_JWKS_URL must be an absolute allowed URL without credentials, query, or fragment'') (Inr u))"

definition identity_from :: "('s, 'u) world \<Rightarrow> string \<Rightarrow> bool \<Rightarrow> (url \<times> identity_verifier) option result" where
  "identity_from w deployment legacy =
     (let env = w_env w
      in if legacy \<and> env ''IDENTITY_JWKS_URL'' = [] then Inr None
         else
           andthen (app_env env ''IDENTITY_JWKS_URL'') (\<lambda>jwks.
           andthen (app_env env ''IDENTITY_TOKEN_ISSUER'') (\<lambda>issuer.
           andthen (identity_audiences env) (\<lambda>audiences.
           andthen (env_duration env ''IDENTITY_TOKEN_MAX_LIFETIME'' (15 * minute)) (\<lambda>lifetime.
           andthen (new_http_jwks (w_parse_url w) jwks (deployment = ''staging'')) (\<lambda>u.
           andthen (new_identity_verifier issuer audiences lifetime) (\<lambda>v. Inr (Some (u, v)))))))))"

definition identity_action :: "('s, 'u) world \<Rightarrow> url \<times> identity_verifier \<Rightarrow> string \<Rightarrow> string \<Rightarrow> ('s, identity_claims) action" where
  "identity_action w uv token required =
     seq (w_now w) (\<lambda>t. verify_identity (w_ed25519 w) (w_uuids w) (w_keys w (fst uv)) (snd uv) t token required)"

record 's collector_start =
  start_address :: string
  start_server :: "'s collector_server"
  start_origins :: "string list"

definition collector_run :: "('s, 'u) world \<Rightarrow> 's collector_start result" where
  "collector_run w =
     (let env = w_env w in
      andthen (installation_secret_from env) (\<lambda>installation_secret.
      andthen (app_secret env ''WRITER_HMAC_SECRET'') (\<lambda>writer_secret.
      andthen (app_env env ''WRITER_URL'') (\<lambda>writer_url.
      andthen (env_duration env ''INSTALLATION_TOKEN_MAX_AGE'' (30 * 24 * hour)) (\<lambda>limit.
      andthen (installation_tokens_from env installation_secret limit) (\<lambda>tokens.
      andthen (hmac_keyring env ''SERVICE_HMAC'' writer_secret) (\<lambda>(skey, _).
      andthen (donation_verifier_from env) (\<lambda>donation.
      andthen (configure_tts_outcome_ingress env) (\<lambda>(tts, tts_key).
      andthen (deployment_from env) (\<lambda>(deployment, legacy).
      andthen (product_tokens_from env installation_secret legacy) (\<lambda>ptokens.
      andthen (identity_from w deployment legacy) (\<lambda>identity.
      andthen (new_http_writer_with_service_key (w_parse_url w writer_url) writer_secret skey (w_transport w) (w_now w)) (\<lambda>client.
      andthen (cors_origins env (w_parse_url w) deployment) (\<lambda>origins.
        Inr \<lparr>start_address = env_default env ''LISTEN_ADDR'' '':8080'',
          start_server = \<lparr>cs_writer = http_write client, cs_tokens = tokens,
            cs_v2_writer = Some \<lparr>vw_write = http_write_v2 client, vw_privacy = http_write_privacy client,
              vw_legacy_privacy = http_write_legacy_privacy client\<rparr>,
            cs_product_tokens = ptokens, cs_identity = map_option (identity_action w) identity, cs_legacy_tokens = legacy,
            cs_fundraising = Some (http_write_fundraising client), cs_donation_verifier = donation,
            cs_tts_verifier = tts, cs_tts_subject_key = tts_key, cs_privacy_text = w_privacy_text w,
            cs_now = w_now w, cs_new_id = w_new_id w\<rparr>,
          start_origins = origins\<rparr>))))))))))))))"

end
