(* ===== verification/Collector_Writer.thy ===== *)
theory Collector_Writer
  imports Collector_Client Writer_Store
begin

section \<open>The collector and the writer together\<close>

text \<open>
  The client of internal/collector/client.go over a network that delivers its requests to the
  server of internal/writer/server.go: \<open>deliver\<close> is such a transport. The lemmas follow a request
  from the client's signature to the reply that it decodes.
\<close>

definition received :: "request \<Rightarrow> incoming" where
  "received q = request.extend q (incoming.fields False)"

definition deliver :: "(string \<times> string \<times> 's handler) list \<Rightarrow> url \<Rightarrow> request \<Rightarrow> ('s, http_answer) action" where
  "deliver routes e q =
     (case find_route routes (req_method q) (url_path e) of
        None \<Rightarrow> ret \<lparr>answer_status = 404, answer_body = []\<rparr>
      | Some h \<Rightarrow>
          seq (h (received q) []) (\<lambda>r. ret \<lparr>answer_status = resp_status r, answer_body = resp_body r\<rparr>))"

subsection \<open>The request of the client passes the checks of the server\<close>

definition signed_post :: "url \<Rightarrow> service_headers \<Rightarrow> string \<Rightarrow> string \<Rightarrow> request" where
  "signed_post e h rid body =
     post_request e (apply_service_headers h
       (header_set ''Idempotency-Key'' rid (header_set ''Content-Type'' ''application/json'' []))) body"

lemma names_distinct:
  "distinct (map to_lower [''Idempotency-Key'', ''Content-Type'', ''X-Linka-Signature-Version'', ''X-Linka-Key-ID'', ''X-Linka-Caller'',
    ''X-Linka-Request-ID'', ''X-Linka-Timestamp'', ''X-Linka-Body-SHA256'', ''X-Linka-Signature''])"
  by code_simp

lemma received_simps [simp]:
  "req_method (received q) = req_method q" "req_path (received q) = req_path q"
  "req_header (received q) = req_header q" "req_body (received q) = req_body q" "\<not> body_broken (received q)"
  "request.truncate (received q) = q"
  by (simp_all add: received_def request.defs incoming.defs)

lemma signed_post_simps [simp]:
  "req_method (signed_post e h rid body) = ''POST''" "req_path (signed_post e h rid body) = escape_path (url_path e)"
  "req_body (signed_post e h rid body) = body"
  "header_get (req_header (signed_post e h rid body)) ''Idempotency-Key'' = rid"
  "header_get (req_header (signed_post e h rid body)) ''Content-Type'' = ''application/json''"
  "service_headers_from_request (signed_post e h rid body) = h"
proof -
  show "service_headers_from_request (signed_post e h rid body) = h"
    using headers_round_trip [where r = "signed_post e h rid body" and h = h
      and hs = "header_set ''Idempotency-Key'' rid (header_set ''Content-Type'' ''application/json'' [])"]
    by (simp add: signed_post_def post_request_def)
qed (use names_distinct names_distinct [THEN distinct_rev [THEN iffD2]] in \<open>simp_all add: signed_post_def post_request_def apply_service_headers_def header_get_set\<close>)

lemma signed_post_json: "is_json (received (signed_post e h rid body))"
proof -
  have "media_type ''application/json'' = Some ''application/json''" by code_simp
  then show ?thesis by (simp add: is_json_def)
qed

lemma wrapping_ret [simp]: "wrapping msg (ret x) = ret x"
  by (simp add: wrapping_def ret_def wrap_def fun_eq_iff)

lemma call_v2_signed:
  assumes "hw_now w s = (Inr t, s1)" and "sign_service (service_signer w) t ''POST'' (escape_path (url_path e)) rid body = Inr h"
  shows "call_v2 w e rid body tbl d s
    = seq (wrapping ''call writer'' (client_do w e (signed_post e h rid body))) (\<lambda>a. lift (answer_result tbl d a)) s1"
  using assms by (simp add: call_v2_def seq_def [of "hw_now w"] signed_post_def Let_def)

subsection \<open>The reply of the server is read back by the client\<close>

lemma json_first_reply:
  assumes "plain v" and "length (json_text v) < 16 * 1024"
  shows "json_first (take (16 * 1024) (json_text v @ [CHR 0x0A])) = Some v"
proof -
  have "lex (json_text v @ [CHR 0x0A]) = map_option (append (render v)) (lex [CHR 0x0A])"
    by (rule lex_json_text(1) [OF assms(1)]) (simp add: delimited_def)
  moreover have "lex [CHR 0x0A] = Some []" by code_simp
  ultimately have "lex (json_text v @ [CHR 0x0A]) = Some (render v)" by simp
  then show ?thesis using assms(2) by (simp add: json_first_lex)
qed

lemma quoted_length: "ascii x \<Longrightarrow> length (quoted x) \<le> 6 * length x"
proof (induction x)
  case (Cons c x)
  have "length (quoted_ascii c) \<le> 6" by (simp add: quoted_ascii_def rune_escape_def Let_def)
  with Cons show ?case by (simp add: ascii_def Let_def)
qed simp

lemma format_digits_length: "0 \<le> n \<Longrightarrow> n < 10 ^ Suc k \<Longrightarrow> length (format_digits n) \<le> Suc k"
proof (induction k arbitrary: n)
  case 0
  then show ?case by (simp add: format_digits.simps [of n])
next
  case (Suc k)
  have "n div 10 < 10 ^ Suc k" "0 \<le> n div 10" using Suc.prems by (auto simp: div_less_iff_less_mult)
  with Suc.IH [of "n div 10"] show ?case using Suc.prems by (simp add: format_digits.simps [of n])
qed

lemma format_int_length: "0 \<le> i \<Longrightarrow> in_int64 i \<Longrightarrow> length (format_int i) \<le> 19"
  using format_digits_length [of i 18] by (simp add: format_int_def in_int64_def)

text \<open>An accepted batch, as the client decodes it.\<close>

lemma batch_answer_read:
  assumes "ascii i" and "length i \<le> 128" and "in_int64 (int n)"
  shows "answer_result write_result_fields \<lparr>write_count = 0, write_replayed = False\<rparr>
      \<lparr>answer_status = resp_status (batch_answer i n b hdr), answer_body = resp_body (batch_answer i n b hdr)\<rparr>
    = Inr \<lparr>write_count = int n, write_replayed = b\<rparr>"
proof -
  let ?v = "JObj [(''accepted_records'', number n), (''batch_id'', JStr i), (''replayed'', JBool b)]"
  have names: "ascii ''accepted_records''" "ascii ''batch_id''" "ascii ''replayed''" by code_simp+
  have layout: "json_text ?v = ''{'' @ json_string ''accepted_records'' @ '':'' @ format_int (int n) @ '',''
      @ json_string ''batch_id'' @ '':'' @ json_string i @ '','' @ json_string ''replayed'' @ '':''
      @ json_text (JBool b) @ ''}''"
    by (simp add: number_def)
  have "length (json_string ''accepted_records'') = 18" "length (json_string ''batch_id'') = 10"
    "length (json_string ''replayed'') = 10" by code_simp+
  moreover have "length (json_string i) \<le> 770" using quoted_length [OF assms(1)] assms(2) by (simp add: json_string_def)
  moreover have "length (json_text (JBool b)) \<le> 5" by simp
  ultimately have "length (json_text ?v) < 16 * 1024"
    unfolding layout using format_int_length [OF _ assms(3)] by simp
  moreover have "plain ?v" using names assms(1) by (auto simp: number_def)
  ultimately have "json_first (take (16 * 1024) (json_text ?v @ [CHR 0x0A])) = Some ?v" by (rule json_first_reply [rotated])
  moreover have "find_field write_result_fields ''batch_id'' = None"
    "find_field write_result_fields ''accepted_records'' = Some (snd (hd write_result_fields))"
    "find_field write_result_fields ''replayed'' = Some (snd (hd (tl write_result_fields)))"
    by (code_simp, simp_all add: find_field_def write_result_fields_def fld_def)
  ultimately show ?thesis
    using assms(3) by (simp add: answer_result_def batch_answer_def write_json_def result_simps number_def write_result_fields_def fld_def)
qed

subsection \<open>A batch from the client to the store\<close>

lemma writer_reaches_store:
  assumes "verify_service v t ''POST'' (escape_path (url_path e)) body h = Inr ()" and "sh_request_id h = batch_id (header b)"
    and "ws_now srv s = (Inr t, s1)" and "ws_now srv s1 = (Inr t', s2)" and "parse_batch lib body t' = Inr b"
    and "canonical_uuid lib (batch_id (header b))" and "batch_id (header b) \<noteq> []" and "length body \<le> MaxBatchBytes"
  shows "writer_batches_v2 lib srv st v (received (signed_post e h (batch_id (header b)) body)) hdr s
    = seq (attempting (store_insert_v2 st b (body_sha256 body))) (\<lambda>outcome.
        ret (writer_batch_outcome (batch_id (header b)) outcome hdr)) s2"
proof -
  let ?r = "received (signed_post e h (batch_id (header b)) body)"
  have "read_body MaxBatchBytes ?r = Inr body" using assms(8) by (simp add: result_simps)
  moreover have "idempotency_key_ok lib ?r h (batch_id (header b))"
    using assms(2,6,7) by (simp add: idempotency_key_ok_def result_simps)
  ultimately show ?thesis
    using assms signed_post_json by (simp add: writer_batches_v2_def require_json_def with_body_def with_signature_def seq_def [of "ws_now srv"])
qed

text \<open>What the client reports for each outcome of InsertV2; a panic cuts the connection.\<close>

definition client_outcome :: "ingest_result result \<Rightarrow> write_result result" where
  "client_outcome res =
     (case res of
        Inr x \<Rightarrow> Inr \<lparr>write_count = int (result_count x), write_replayed = result_replayed x\<rparr>
      | Inl e \<Rightarrow> Inl (if e = uuid_panic then Wrapped ''call writer'' e
          else if errors_is e ErrIdempotencyConflict \<or> errors_is e ErrDuplicateRecord then ErrWriterConflict
          else if errors_is e ErrSuppressed then ErrWriterSuppressed
          else Err ''writer returned HTTP''))"

lemma insert_v2_count: "insert_v2 cfg b sha s = (Inr x, s') \<Longrightarrow> result_count x = record_count b"
  by (auto simp: insert_v2_def complete_batch_v2_def Let_def result_simps split: option.splits if_splits)

lemma outcome_read:
  assumes "ascii i" and "length i \<le> 128" and "\<And>x. res = Inr x \<Longrightarrow> in_int64 (int (result_count x))"
    and "res \<noteq> Inl uuid_panic"
  shows "answer_result write_result_fields \<lparr>write_count = 0, write_replayed = False\<rparr>
      \<lparr>answer_status = resp_status (writer_batch_outcome i res hdr), answer_body = resp_body (writer_batch_outcome i res hdr)\<rparr>
    = client_outcome res"
proof (cases res)
  case (Inr x)
  then show ?thesis using assms(1-3) by (simp add: writer_batch_outcome_def client_outcome_def batch_answer_read)
next
  case (Inl e)
  with assms(4) show ?thesis
    by (simp add: writer_batch_outcome_def client_outcome_def answer_result_def write_error_def write_json_def reject_def)
qed

definition uuid_shaped :: "string \<Rightarrow> bool" where
  "uuid_shaped s \<longleftrightarrow> length s = 36 \<and> list_all (\<lambda>c. is_lower_hex c \<or> c = CHR ''-'') s"

lemma canonical_uuid_shaped: "uuid_text lib \<Longrightarrow> canonical_uuid lib s \<Longrightarrow> uuid_shaped s"
  using canonical_uuid_text [of lib s] by (auto simp: uuid_shaped_def list_all_iff)

lemma uuid_shaped_clean:
  assumes "uuid_shaped s"
  shows "ascii s" "s \<noteq> []" "length s \<le> 128" "\<not> bad_request_id s"
proof -
  have ascii: "(of_char c :: nat) < 128" and line: "c \<noteq> CHR 0x0D \<and> c \<noteq> CHR 0x0A" if "is_lower_hex c \<or> c = CHR ''-''" for c
    using that by (auto simp: is_lower_hex_def Let_def)
  show "ascii s" using assms ascii by (auto simp: uuid_shaped_def ascii_def list_all_iff)
  show "s \<noteq> []" "length s \<le> 128" using assms by (auto simp: uuid_shaped_def)
  then show "\<not> bad_request_id s"
    using assms line by (auto simp: bad_request_id_def uuid_shaped_def contains_any_def list_ex_iff list_all_iff)
qed

lemma sign_service_returns:
  "meth \<noteq> [] \<Longrightarrow> path \<noteq> [] \<Longrightarrow> \<not> bad_request_id rid \<Longrightarrow> \<exists>h. sign_service sg t meth path rid body = Inr h"
  by (simp add: sign_service_def Let_def)

lemma routed_batches:
  assumes "url_path e = ''/internal/v2/batches''"
  shows "deliver (writer_routes lib (clickhouse_writer cfg secret v)) e (signed_post e h rid body)
    = seq (security_headers (writer_batches_v2 lib (clickhouse_writer cfg secret v) (the (ws_store_v2 (clickhouse_writer cfg secret v))) v)
          (received (signed_post e h rid body)) [])
        (\<lambda>r. ret \<lparr>answer_status = resp_status r, answer_body = resp_body r\<rparr>)"
  using assms by (simp add: deliver_def find_route_def writer_routes_def clickhouse_writer_def)

lemma attempting_cases:
  "seq (attempting m) (\<lambda>x. ret (f x)) s
    = (case m s of (x, s') \<Rightarrow> if x = Inl uuid_panic then (Inl uuid_panic, s') else (Inr (f x), s'))"
  by (cases "m s"; cases "fst (m s)") (auto simp: seq_def attempting_def ret_def)

lemma seq_result: "m s = (Inr x, s') \<Longrightarrow> seq m k s = k x s'" "m s = (Inl e, s') \<Longrightarrow> seq m k s = (Inl e, s')"
  by (simp_all add: seq_def)

text \<open>
  The whole way: what the client reports is what InsertV2 decides, in the state that InsertV2 leaves.
\<close>

lemma http_write_v2_delivered:
  assumes w: "hw_now w = time_now" "client_do w = deliver (writer_routes (uuids cfg) (clickhouse_writer cfg secret v))"
      "url_path (v2_batch_endpoint w) = ''/internal/v2/batches''"
    and signed: "sign_service (service_signer w) (clock s (ticks s)) ''POST'' (escape_path ''/internal/v2/batches'') (batch_id (header b)) body = Inr h"
    and verified: "verify_service v (clock s (Suc (ticks s))) ''POST'' (escape_path ''/internal/v2/batches'') body h = Inr ()"
    and parsed: "parse_batch (uuids cfg) body (clock s (Suc (Suc (ticks s)))) = Inr b"
    and shaped: "uuid_shaped (batch_id (header b))"
  shows "http_write_v2 w (batch_id (header b)) body s
    = (case insert_v2 cfg b (body_sha256 body) (s\<lparr>ticks := ticks s + 3\<rparr>) of (res, s') \<Rightarrow> (client_outcome res, s'))"
proof -
  let ?e = "v2_batch_endpoint w" and ?i = "batch_id (header b)" and ?srv = "clickhouse_writer cfg secret v"
  let ?st = "the (ws_store_v2 ?srv)" and ?hdr = "\<lambda>x. x"
  let ?s1 = "s\<lparr>ticks := Suc (ticks s)\<rparr>" and ?s3 = "s\<lparr>ticks := ticks s + 3\<rparr>"
  obtain hdr where hdr: "security_headers k r [] = k r hdr" for k :: "('a tables conn) handler" and r
    by (simp add: security_headers_def)
  have id: "sh_request_id h = ?i" using signed by (auto simp: sign_service_def result_simps Let_def)
  have now: "ws_now ?srv = time_now" by (simp add: clickhouse_writer_def)
  have insert: "store_insert_v2 ?st = insert_v2 cfg" by (simp add: clickhouse_writer_def)
  have valid: "canonical_uuid (uuids cfg) ?i" "length body \<le> MaxBatchBytes" "record_count b \<le> 500"
    using parse_batch_valid [OF parsed] parse_batch_strict [OF parsed] by (auto simp: valid_batch_def header_ok_def)
  have served: "writer_batches_v2 (uuids cfg) ?srv ?st v (received (signed_post ?e h ?i body)) hdr ?s1
      = (case insert_v2 cfg b (body_sha256 body) ?s3 of (x, s') \<Rightarrow>
          if x = Inl uuid_panic then (Inl uuid_panic, s') else (Inr (writer_batch_outcome ?i x hdr), s'))"
    using writer_reaches_store [where srv = ?srv and st = ?st and s = ?s1 and hdr = hdr and e = ?e,
        OF _ id _ _ parsed valid(1) uuid_shaped_clean(2) [OF shaped] valid(2)] verified w(3)
    by (simp add: now time_now_def numeral_3_eq_3 attempting_cases insert)
  have call: "http_write_v2 w ?i body s
      = seq (wrapping ''call writer'' (deliver (writer_routes (uuids cfg) ?srv) ?e (signed_post ?e h ?i body)))
          (\<lambda>a. lift (answer_result write_result_fields \<lparr>write_count = 0, write_replayed = False\<rparr> a)) ?s1"
    unfolding http_write_v2_def w(2) [symmetric]
    by (rule call_v2_signed) (use signed w in \<open>simp_all add: time_now_def\<close>)
  obtain x s' where x: "insert_v2 cfg b (body_sha256 body) ?s3 = (x, s')" by (cases "insert_v2 cfg b (body_sha256 body) ?s3")
  have count: "in_int64 (int (result_count r))" if "x = Inr r" for r
    using insert_v2_count x that valid(3) by (fastforce simp: in_int64_def)
  note read = outcome_read [OF uuid_shaped_clean(1,3) [OF shaped], of x hdr]
  show ?thesis
    using read count unfolding call routed_batches [OF w(3)] hdr
    by (cases "x = Inl uuid_panic")
      (simp_all add: served x seq_def wrapping_def wrap_def client_outcome_def ret_def lift_def)
qed

end
