(* ===== verification/Service_Runs.thy ===== *)
theory Service_Runs
  imports Writer_Store
begin

section \<open>Runs of the writer and the worker\<close>

text \<open>
  The deployed pair: the writer serves requests, the worker of cmd/privacy-worker sweeps, both over
  the store. A run is a list of steps in the order in which they happen; the schedule of the
  connection says which of their calls break. Requests reach the handler of their method and path.
\<close>

datatype service_step = Request string incoming | Sweep worker_limits

fun run_step :: "'u store_config \<Rightarrow> string \<Rightarrow> service_verifier \<Rightarrow> service_step \<Rightarrow> 'u tables conn \<Rightarrow> 'u tables conn" where
  "run_step cfg secret v (Request path r) s =
     (case find_route (writer_routes (uuids cfg) (clickhouse_writer cfg secret v)) (req_method r) path of
        None \<Rightarrow> s
      | Some h \<Rightarrow> snd (h r [] s))"
| "run_step cfg secret v (Sweep w) s = snd (run_once (store_backend cfg) w s)"

fun run_steps :: "'u store_config \<Rightarrow> string \<Rightarrow> service_verifier \<Rightarrow> service_step list \<Rightarrow> 'u tables conn \<Rightarrow> 'u tables conn" where
  "run_steps cfg secret v [] s = s"
| "run_steps cfg secret v (x # xs) s = run_steps cfg secret v xs (run_step cfg secret v x s)"

text \<open>The digests of the requests identify their batches; a parser gives one batch at all times.\<close>

definition identifies :: "'u store_config \<Rightarrow> (string \<Rightarrow> validated_batch) \<Rightarrow> service_step list \<Rightarrow> bool" where
  "identifies cfg content steps \<longleftrightarrow>
     (\<forall>path r t b. Request path r \<in> set steps \<longrightarrow> parse_batch (uuids cfg) (req_body r) t = Inr b \<longrightarrow>
        content (body_sha256 (req_body r)) = b)"

lemma run_steps_reachable:
  assumes "good_driver cfg" and "reachable cfg content (db s)" and "identifies cfg content steps"
  shows "reachable cfg content (db (run_steps cfg secret v steps s))"
  using assms(2,3)
proof (induction steps arbitrary: s)
  case (Cons x steps)
  have "reachable cfg content (db (run_step cfg secret v x s))"
  proof (cases x)
    case (Request path r)
    have "reachable cfg content (db (snd (h r [] s)))"
      if "(m, path, h) \<in> set (writer_routes (uuids cfg) (clickhouse_writer cfg secret v))" for m h
      using Cons.prems Request
      by (intro keepsD [OF writer_store.serves [OF that]]) (auto simp: identifies_def)
    then show ?thesis using Request Cons.prems(1) by (auto split: option.split dest: find_route_in)
  next
    case (Sweep w)
    then show ?thesis using keepsD [OF store_worker.run_once_keeps, of cfg content s w] assms(1) Cons.prems(1) by simp
  qed
  with Cons.IH Cons.prems(2) show ?case by (auto simp: identifies_def)
qed simp

text \<open>The parsers read the clock only to accept or refuse.\<close>

lemma parse_batch_once:
  assumes "parse_batch lib data t = Inr b" and "parse_batch lib data t' = Inr b'"
  shows "b = b'"
proof -
  from assms(1) obtain env v sp where 1: "decode_object into_envelope data zero_envelope MaxJSONDepth = Inr env"
    "validate_header lib (batch_header.truncate env) t = Inr (v, sp)" "parse_stream lib data (stream env) v sp = Inr b"
    by (rule parse_batch_steps)
  from assms(2) obtain env' v' sp' where 2: "decode_object into_envelope data zero_envelope MaxJSONDepth = Inr env'"
    "validate_header lib (batch_header.truncate env') t' = Inr (v', sp')" "parse_stream lib data (stream env') v' sp' = Inr b'"
    by (rule parse_batch_steps)
  from 1(1) 2(1) have e: "env' = env" by simp
  from 1(2) 2(2) have "sent_at_time v = sent_at_time v'" "sp = sp'"
    unfolding e validate_header_Inr header_ok_def by auto
  with 1(2) 2(2) have "v = v'" unfolding e validate_header_Inr by metis
  with 1(3) 2(3) \<open>sp = sp'\<close> show ?thesis by (simp add: e)
qed

definition digest_content :: "'u store_config \<Rightarrow> service_step list \<Rightarrow> string \<Rightarrow> validated_batch" where
  "digest_content cfg steps sha =
     (SOME b. \<exists>path r t. Request path r \<in> set steps \<and> body_sha256 (req_body r) = sha \<and> parse_batch (uuids cfg) (req_body r) t = Inr b)"

text \<open>When no two different bodies of a run have one digest, there is such a naming.\<close>

lemma identifies_digest:
  assumes "inj_on body_sha256 {req_body r |path r. Request path r \<in> set steps}"
  shows "identifies cfg (digest_content cfg steps) steps"
  unfolding identifies_def
proof (intro allI impI)
  fix path r t b
  assume r: "Request path r \<in> set steps" and b: "parse_batch (uuids cfg) (req_body r) t = Inr b"
  have "b' = b" if "Request path' r' \<in> set steps" "body_sha256 (req_body r') = body_sha256 (req_body r)"
    "parse_batch (uuids cfg) (req_body r') t' = Inr b'" for path' r' t' b'
  proof -
    have "req_body r' = req_body r" using inj_onD [OF assms that(2)] that(1) r by blast
    with that(3) b show ?thesis by (metis parse_batch_once)
  qed
  with r b show "digest_content cfg steps (body_sha256 (req_body r)) = b"
    unfolding digest_content_def by (intro some_equality) blast+
qed

end
