(* ===== verification/Collector_Forwarding.thy ===== *)
theory Collector_Forwarding
  imports Collector_Server
begin

section \<open>What the collector forwards\<close>

text \<open>
  When the answer of a handler depends on the writer, its checks have passed: each lemma
  \<open>*_forwards\<close> says which, and what the writer is then asked. The collection \<open>differs\<close> has, for each
  check, where two runs that differ only behind it can differ.
\<close>

named_theorems differs

lemma seq_differs [differs]: "seq m k s \<noteq> seq m k' s \<Longrightarrow> \<exists>x t. m s = (Inr x, t) \<and> k x t \<noteq> k' x t"
  by (auto simp: seq_def split: prod.splits sum.splits)

lemma require_json_differs [differs]:
  "require_json k r hdr s \<noteq> require_json k' r hdr s \<Longrightarrow> is_json r \<and> k r hdr s \<noteq> k' r hdr s"
  by (auto simp: require_json_def split: if_splits)

lemma with_body_differs [differs]:
  "with_body n k r hdr s \<noteq> with_body n k' r hdr s \<Longrightarrow>
     read_body n r = Inr (req_body r) \<and> k (req_body r) r hdr s \<noteq> k' (req_body r) r hdr s"
  by (cases "read_body n r") (auto simp: with_body_def, simp_all add: result_simps)

lemma or_unauthorized_differs [differs]:
  "or_unauthorized code m k r hdr s \<noteq> or_unauthorized code m k' r hdr s \<Longrightarrow>
     \<exists>c t. m s = (Inr c, t) \<and> k c r hdr t \<noteq> k' c r hdr t"
  by (auto simp: or_unauthorized_def attempting_def seq_def split: prod.splits sum.splits if_splits)

lemma checked_differs [differs]:
  "(case x of Inl e \<Rightarrow> f e | Inr y \<Rightarrow> k y) s \<noteq> (case x of Inl e \<Rightarrow> f e | Inr y \<Rightarrow> k' y) s \<Longrightarrow> \<exists>y. x = Inr y \<and> k y s \<noteq> k' y s"
  by (cases x) auto

lemma refused_differs [differs]:
  "(if c then m else k) s \<noteq> (if c then m else k') s \<Longrightarrow> \<not> c \<and> k s \<noteq> k' s"
  by (auto split: if_splits)

lemma authorized: "m s = (Inr c, t) \<Longrightarrow> or_unauthorized code m k r hdr s = k c r hdr t"
  by (simp add: or_unauthorized_def attempting_def seq_def)

lemma read: "read_body n r = Inr body \<Longrightarrow> with_body n k r hdr s = k body r hdr s"
  by (simp add: with_body_def)

lemma required: "is_json r \<Longrightarrow> require_json k r hdr s = k r hdr s"
  by (simp add: require_json_def)

lemma seq_Some: "m s = (Inr x, t) \<Longrightarrow> seq m k s = k x t"
  by (simp add: seq_def)

lemmas passed = authorized read required seq_Some

lemma scope_matches_claims_iff:
  "scope_matches_claims sc c \<longleftrightarrow>
     product_id sc = pc_product c \<and> subject_key sc = pc_subject_key c \<and> person_key sc = pc_person_key c \<and> org_key sc = pc_org_key c"
  by (auto simp: scope_matches_claims_def optional_string_equal_def split: option.splits)

lemma batches_forwards:
  assumes "collector_batches_v2 lib srv w r hdr s \<noteq> collector_batches_v2 lib srv w' r hdr s"
  shows "\<exists>c s1 t s2 b. authenticate_product srv r ''telemetry:write'' s = (Inr c, s1) \<and> cs_now srv s1 = (Inr t, s2)
    \<and> parse_batch lib (req_body r) t = Inr b \<and> scope_matches_claims (header_scope (header b)) c
    \<and> header_get (req_header r) ''Idempotency-Key'' = batch_id (header b)
    \<and> (\<forall>x. collector_batches_v2 lib srv x r hdr s
        = seq (attempting (vw_write x (batch_id (header b)) (req_body r))) (\<lambda>res. ret (batch_outcome (batch_id (header b)) res hdr)) s2)"
proof -
  from assms obtain c s1 t s2 b where *: "is_json r" "read_body MaxBatchBytes r = Inr (req_body r)"
    "authenticate_product srv r ''telemetry:write'' s = (Inr c, s1)" "cs_now srv s1 = (Inr t, s2)"
    "parse_batch lib (req_body r) t = Inr b"
    "returned (validate_idempotency_key lib (header_get (req_header r) ''Idempotency-Key'') (batch_id (header b)))"
    "scope_matches_claims (header_scope (header b)) c"
    unfolding collector_batches_v2_def Let_def by (blast dest!: differs)
  then have "collector_batches_v2 lib srv x r hdr s
      = seq (attempting (vw_write x (batch_id (header b)) (req_body r))) (\<lambda>res. ret (batch_outcome (batch_id (header b)) res hdr)) s2" for x
    by (simp add: collector_batches_v2_def passed Let_def)
  with * show ?thesis by (auto simp: result_simps)
qed

lemma privacy_v2_forwards:
  assumes "collector_privacy_v2 lib srv w r hdr s \<noteq> collector_privacy_v2 lib srv w' r hdr s"
  shows "\<exists>c s1 t s2 q. authenticate_product srv r ''privacy:write'' s = (Inr c, s1) \<and> cs_now srv s1 = (Inr t, s2)
    \<and> parse_privacy_request lib (req_body r) t = Inr q \<and> scope_matches_claims (privacy_scope (the_request q)) c
    \<and> header_get (req_header r) ''Idempotency-Key'' = request_id (the_request q)
    \<and> (\<forall>x. collector_privacy_v2 lib srv x r hdr s
        = seq (attempting (vw_privacy x (request_id (the_request q)) (req_body r)))
            (\<lambda>res. ret (privacy_outcome (request_id (the_request q)) res hdr)) s2)"
proof -
  from assms obtain c s1 t s2 q where *: "is_json r" "read_body (16 * 1024) r = Inr (req_body r)"
    "authenticate_product srv r ''privacy:write'' s = (Inr c, s1)" "cs_now srv s1 = (Inr t, s2)"
    "parse_privacy_request lib (req_body r) t = Inr q"
    "returned (validate_idempotency_key lib (header_get (req_header r) ''Idempotency-Key'') (request_id (the_request q)))"
    "scope_matches_claims (privacy_scope (the_request q)) c"
    unfolding collector_privacy_v2_def Let_def by (blast dest!: differs)
  then have "collector_privacy_v2 lib srv x r hdr s
      = seq (attempting (vw_privacy x (request_id (the_request q)) (req_body r)))
          (\<lambda>res. ret (privacy_outcome (request_id (the_request q)) res hdr)) s2" for x
    by (simp add: collector_privacy_v2_def passed Let_def)
  with * show ?thesis by (auto simp: result_simps)
qed

lemma tts_forwards:
  assumes "collector_tts_outcomes lib srv w v r hdr s \<noteq> collector_tts_outcomes lib srv w' v r hdr s"
  shows "\<exists>t0 s1 t s2 b. cs_now srv s = (Inr t0, s1) \<and> cs_now srv s1 = (Inr t, s2)
    \<and> verify_service v t0 (req_method r) (req_path r) (req_body r) (service_headers_from_request (request.truncate r)) = Inr ()
    \<and> parse_batch lib (req_body r) t = Inr b \<and> tts_scope_ok srv (header b)
    \<and> (\<forall>x. collector_tts_outcomes lib srv x v r hdr s
        = seq (attempting (vw_write x (batch_id (header b)) (req_body r))) (\<lambda>res. ret (batch_outcome (batch_id (header b)) res hdr)) s2)"
proof -
  let ?h = "service_headers_from_request (request.truncate r)"
  from assms obtain t0 s1 t s2 b u where *: "is_json r" "read_body MaxBatchBytes r = Inr (req_body r)"
    "cs_now srv s = (Inr t0, s1)" "verify_service v t0 (req_method r) (req_path r) (req_body r) ?h = Inr u"
    "cs_now srv s1 = (Inr t, s2)" "parse_batch lib (req_body r) t = Inr b"
    "\<not> (\<not> returned (validate_idempotency_key lib (header_get (req_header r) ''Idempotency-Key'') (batch_id (header b)))
       \<or> sh_request_id ?h \<noteq> batch_id (header b))" "tts_scope_ok srv (header b)"
    unfolding collector_tts_outcomes_def with_signature_def Let_def by (blast dest!: differs)
  then have "collector_tts_outcomes lib srv x v r hdr s
      = seq (attempting (vw_write x (batch_id (header b)) (req_body r))) (\<lambda>res. ret (batch_outcome (batch_id (header b)) res hdr)) s2" for x
    by (simp add: collector_tts_outcomes_def with_signature_def passed Let_def)
  with * show ?thesis by auto
qed

text \<open>The V1 endpoints: the writer of events is a field of the server.\<close>

lemma events_forwards:
  assumes "collector_events lib (srv\<lparr>cs_writer := w\<rparr>) r hdr s \<noteq> collector_events lib (srv\<lparr>cs_writer := w'\<rparr>) r hdr s"
  shows "\<exists>c s1 b. authenticate lib srv (header_get (req_header r) ''Authorization'') s = (Inr c, s1)
    \<and> parse_batch_v1 lib (req_body r) = Inr b \<and> own_installation (installation_id c) b
    \<and> (\<forall>x s'. x (req_body r) s1 = (Inr (), s') \<longrightarrow> collector_events lib (srv\<lparr>cs_writer := x\<rparr>) r hdr s
        = (Inr (write_json 202 (JObj [(''accepted_events'', number (length (vb_events b))),
            (''accepted_session_summaries'', number (length (vb_summaries b)))]) hdr), s'))"
proof -
  have auth: "authenticate lib (srv\<lparr>cs_writer := x\<rparr>) = authenticate lib srv" for x
    by (simp add: authenticate_def fun_eq_iff)
  from assms obtain c s1 b where *: "is_json r" "read_body MaxBatchBytesV1 r = Inr (req_body r)"
    "authenticate lib srv (header_get (req_header r) ''Authorization'') s = (Inr c, s1)"
    "parse_batch_v1 lib (req_body r) = Inr b" "own_installation (installation_id c) b"
    unfolding collector_events_def auth by (blast dest!: differs)
  then show ?thesis
    by (auto simp: collector_events_def auth passed attempting_def)
qed

lemma privacy_v1_forwards:
  assumes "collector_privacy_v1 lib srv w r hdr s \<noteq> collector_privacy_v1 lib srv w' r hdr s"
  shows "\<exists>c s1 t s2 q. authenticate lib srv (header_get (req_header r) ''Authorization'') s = (Inr c, s1)
    \<and> cs_now srv s1 = (Inr t, s2) \<and> parse_public_privacy_request lib (req_body r) (installation_id c) t = Inr q
    \<and> header_get (req_header r) ''Idempotency-Key'' = pv_request_id (vp_request q)
    \<and> (\<forall>x. collector_privacy_v1 lib srv x r hdr s
        = seq (attempting (vw_legacy_privacy x (pv_request_id (vp_request q)) (json_text (internal_privacy_json (vp_request q)))))
            (\<lambda>res. ret (privacy_outcome (pv_request_id (vp_request q)) res hdr)) s2)"
proof -
  from assms obtain c s1 t s2 q where *: "is_json r" "read_body (16 * 1024) r = Inr (req_body r)"
    "authenticate lib srv (header_get (req_header r) ''Authorization'') s = (Inr c, s1)" "cs_now srv s1 = (Inr t, s2)"
    "parse_public_privacy_request lib (req_body r) (installation_id c) t = Inr q"
    "returned (validate_idempotency_key lib (header_get (req_header r) ''Idempotency-Key'') (pv_request_id (vp_request q)))"
    unfolding collector_privacy_v1_def Let_def by (blast dest!: differs)
  then have "collector_privacy_v1 lib srv x r hdr s
      = seq (attempting (vw_legacy_privacy x (pv_request_id (vp_request q)) (json_text (internal_privacy_json (vp_request q)))))
          (\<lambda>res. ret (privacy_outcome (pv_request_id (vp_request q)) res hdr)) s2" for x
    by (simp add: collector_privacy_v1_def passed Let_def)
  with * show ?thesis by (auto simp: result_simps)
qed

subsection \<open>The body of a V1 privacy request\<close>

text \<open>A timestamp that parses is ASCII, so that the encoder writes it as it is.\<close>

lemma is_digit_ascii: "is_digit c \<Longrightarrow> (of_char c :: nat) < 128"
  by (auto simp: is_digit_def Let_def)

lemma ascii_digits: "list_all is_digit s \<Longrightarrow> ascii s"
  by (auto simp: ascii_def list_all_iff is_digit_ascii)

lemma getnum_ascii: "getnum fixed s = Some (n, r) \<Longrightarrow> ascii r \<Longrightarrow> ascii s"
  by (auto simp: getnum_def is_digit_ascii split: list.splits if_splits)

lemma skip_char_ascii: "skip_char c s = Some r \<Longrightarrow> (of_char c :: nat) < 128 \<Longrightarrow> ascii r \<Longrightarrow> ascii s"
  by (auto simp: skip_char_def split: list.splits if_splits)

lemma parse_year_ascii: "parse_year s = Some (y, r) \<Longrightarrow> ascii r \<Longrightarrow> ascii s"
  using ascii_append [of "take 4 s" "drop 4 s"] by (auto simp: parse_year_def ascii_digits split: if_splits)

lemma parse_fraction_ascii: "parse_fraction s = (n, r) \<Longrightarrow> ascii r \<Longrightarrow> ascii s"
proof -
  have d: "ascii (dropWhile is_digit x) \<Longrightarrow> ascii x" for x
    by (induction x) (auto simp: is_digit_ascii split: if_splits)
  assume "parse_fraction s = (n, r)" "ascii r"
  then show "ascii s"
    by (auto simp: parse_fraction_def Let_def dropWhile_eq_drop [symmetric] is_digit_ascii dest: d split: list.splits if_splits)
qed

lemma parse_zone_ascii:
  assumes "parse_zone s = Some (off, r)" and "ascii r"
  shows "ascii s"
proof (cases "s \<noteq> [] \<and> hd s = CHR ''Z''")
  case True
  with assms show ?thesis by (cases s) (auto simp: parse_zone_def)
next
  case False
  with assms have n: "6 \<le> length s" "s ! 3 = CHR '':''" by (auto simp: parse_zone_def split: if_splits)
  then obtain a b c d e f t where s: "s = a # b # c # d # e # f # t" by (auto simp: Suc_le_length_iff eval_nat_numeral)
  with n False assms show ?thesis
    by (auto simp: parse_zone_def getnum_def is_digit_ascii split: option.splits if_splits)
qed

lemma consumed_ascii:
  "parse_year s = Some p \<Longrightarrow> ascii (snd p) \<Longrightarrow> ascii s"
  "getnum fixed s = Some p \<Longrightarrow> ascii (snd p) \<Longrightarrow> ascii s"
  "parse_zone s = Some q \<Longrightarrow> ascii (snd q) \<Longrightarrow> ascii s"
  "ascii (snd (parse_fraction s)) \<Longrightarrow> ascii s"
  using parse_year_ascii [of s "fst p" "snd p"] getnum_ascii [of fixed s "fst p" "snd p"]
    parse_zone_ascii [of s "fst q" "snd q"] parse_fraction_ascii [of s "fst (parse_fraction s)" "snd (parse_fraction s)"]
  by simp_all

lemma parse_rfc3339_ascii: "parse_rfc3339 s = Some t \<Longrightarrow> ascii s"
proof -
  note steps = consumed_ascii(1,2) skip_char_ascii
  assume "parse_rfc3339 s = Some t"
  then show ?thesis
    unfolding parse_rfc3339_def bind_eq_Some_conv prod.case_eq_if
    by (elim exE conjE) ((erule steps, simp?)+, rule consumed_ascii(4), erule consumed_ascii(3), simp split: if_splits)
qed

lemma trim_braces: "trim_space (CHR ''{'' # s @ ''}'') = CHR ''{'' # s @ ''}''"
proof -
  have "trim_left space_runes (CHR ''{'' # s @ ''}'') = CHR ''{'' # s @ ''}''"
    by (rule trim_left_id) (simp add: space_runes_def has_prefix_def)
  moreover have "trim_left (map rev space_runes) (CHR ''}'' # rev (CHR ''{'' # s)) = CHR ''}'' # rev (CHR ''{'' # s)"
    by (rule trim_left_id) (simp add: space_runes_def has_prefix_def)
  ultimately show ?thesis by (simp add: trim_space_def)
qed

lemma decode_own_text:
  assumes "plain (JObj ms)" and "jdepth (JObj ms) \<le> m" and "unique_keys (JObj ms)" and "into (JObj ms) r = Some x"
  shows "decode_object into (json_text (JObj ms)) r m = Inr x"
proof -
  have t: "json_text (JObj ms) = CHR ''{'' # json_members_text ms @ ''}''" by simp
  have "strict_json (json_text (JObj ms)) m (JObj ms)"
    unfolding strict_json_def using assms(2,3) lex_json [OF assms(1)] by (simp add: t trim_braces)
  with assms(4) show ?thesis
    unfolding decode_object_Inr by (auto simp: t trim_braces)
qed

lemma internal_privacy_decodes:
  assumes "ascii (pv_request_id q)" "ascii (pv_action q)" "ascii (pv_requested_at q)" "ascii (pv_installation_id q)"
    and "in_int64 (pv_schema_version q)"
  shows "decode_object into_internal_privacy (json_text (internal_privacy_json q)) zero_internal_privacy 8 = Inr q"
  unfolding internal_privacy_json_def
proof (rule decode_own_text, goal_cases)
  case 1
  have "ascii ''schema_version''" "ascii ''request_id''" "ascii ''action''" "ascii ''requested_at''" "ascii ''installation_id''"
    by code_simp+
  with assms show ?case by auto
next
  case 4
  show ?case using assms(5)
    by (cases q) (simp add: into_internal_privacy_def privacy_v1_fields_def zero_internal_privacy_def zero_privacy_v1_def
        fld_def find_field_def result_simps privacy_request_v1.defs internal_privacy_request.defs)
qed simp_all

lemma internal_privacy_round_trip:
  assumes "parse_public_privacy_request lib body i t = Inr q"
    and "ascii (pv_request_id (vp_request q))" and "ascii i"
    and "t' - day \<le> vp_requested_at q" and "vp_requested_at q \<le> t' + 5 * minute"
  shows "parse_internal_privacy_request lib (json_text (internal_privacy_json (vp_request q))) t' = Inr q"
proof -
  from public_privacy_installation [OF assms(1)] have i: "pv_installation_id (vp_request q) = i" and v: "valid_privacy_v1 lib t q"
    by simp_all
  then have "decode_object into_internal_privacy (json_text (internal_privacy_json (vp_request q))) zero_internal_privacy 8 = Inr (vp_request q)"
    using assms(2,3) by (intro internal_privacy_decodes)
      (auto simp: valid_privacy_v1_def timestamp_v1_def Let_def SchemaVersionV1_def in_int64_def dest: parse_rfc3339_ascii)
  moreover have "valid_privacy_v1 lib t' q" using v assms(4,5) by (simp add: valid_privacy_v1_def Let_def)
  ultimately show ?thesis by (auto simp: parse_internal_privacy_request_def result_simps)
qed

end
