(* ===== verification/Service_Properties.thy ===== *)
theory Service_Properties
  imports Collector_Writer Service_Runs Collector_Forwarding Auth_Properties Store_Properties
begin

section \<open>Properties of the two services\<close>

subsection \<open>Samples\<close>

definition sample_service_cfg :: "string store_config" where
  "sample_service_cfg = store_cfg\<lparr>uuids := plain_uuids\<rparr>"

definition sample_link :: "string tables conn" where
  "sample_link = (sample_conn (\<lambda>_. Served))\<lparr>clock := \<lambda>_. sample_now\<rparr>"

definition sample_routes :: "(string \<times> string \<times> string tables conn handler) list" where
  "sample_routes = writer_routes plain_uuids (clickhouse_writer sample_service_cfg ''secret'' sample_verifier)"

definition sample_url :: url where
  "sample_url = \<lparr>url_scheme = ''http'', url_host = ''writer:8081'', url_user = False, url_path = ''/'',
     url_query = [], url_fragment = []\<rparr>"

definition sample_client :: "string tables conn http_writer" where
  "sample_client =
     (case new_http_writer_with_service_key (Some sample_url) ''secret'' sample_key (deliver sample_routes) time_now of
        Inr w \<Rightarrow> w)"

lemma sample_client_new:
  "new_http_writer_with_service_key (Some sample_url) ''secret'' sample_key (deliver sample_routes) time_now = Inr sample_client"
proof -
  have "key_ok sample_key" "service_name_pattern ''collector''" by code_simp+
  then have "new_service_signer sample_key ''collector'' = Inr \<lparr>signer_key = sample_key, signer_caller = ''collector''\<rparr>"
    by (simp add: result_simps)
  then show ?thesis
    by (simp add: sample_client_def new_http_writer_with_service_key_def sample_url_def reject_def andthen_def wrap_def Let_def)
qed

lemma sample_link_facts:
  "uuids sample_service_cfg = plain_uuids" "ticks sample_link = 0" "clock sample_link n = sample_now" "db sample_link = no_rows"
  "parse_batch plain_uuids v2_body sample_now = Inr sample_batch" "uuid_shaped (batch_id (header sample_batch))"
proof -
  show "parse_batch plain_uuids v2_body sample_now = Inr sample_batch" unfolding sample_batch_def by (rule v2_batch_parses)
  show "uuid_shaped (batch_id (header sample_batch))" unfolding sample_batch_simps by code_simp
qed (simp_all add: sample_service_cfg_def sample_link_def sample_conn_def)

lemma sample_link_verifier:
  "find_service_key sample_verifier (key_id sample_key) = Some sample_key" "allowed_caller sample_verifier = ''collector''"
  "max_skew sample_verifier = 5 * minute"
  by code_simp+

lemma sample_link_insert:
  "\<exists>r s'. insert_v2 sample_service_cfg sample_batch (body_sha256 v2_body) (sample_link\<lparr>ticks := n\<rparr>) = (Inr r, s') \<and> db s' \<noteq> no_rows"
proof -
  let ?i = "''10000000-0000-4000-8000-000000000001''" and ?s = "sample_link\<lparr>ticks := n\<rparr>"
  note f = sample_link_facts
  have u: "must_parse sample_service_cfg (batch_id (header sample_batch)) = Inr ?i"
    by (simp add: must_parse_def f(1) plain_uuids_def sample_batch_simps)
  have ms: "ordered_driver sample_service_cfg"
    by (rule second_driver_ordered) (simp add: second_driver_def sample_service_cfg_def store_cfg_def)
  have valid: "valid_batch (uuids sample_service_cfg) sample_now sample_batch" unfolding f(1) by (rule parse_batch_valid [OF f(5)])
  have "own_ids sample_service_cfg sample_batch ?i sha no_rows" for sha
    by (simp add: own_ids_def sample_batch_simps must_parse_def f(1) plain_uuids_def free_ids_def no_rows_def)
  moreover have "undisturbed ?s" by (simp add: undisturbed_def sample_link_def sample_conn_def)
  ultimately obtain r s' where r: "insert_v2 sample_service_cfg sample_batch (body_sha256 v2_body) ?s = (Inr r, s')"
    using undisturbed_attempt [OF ms valid u, of ?s "body_sha256 v2_body" 0]
      sample_start(2) sample_start(5) [of "header_scope (header sample_batch)" "product_key sample_batch"]
    by (auto simp: after_attempts_def f(4))
  then have "read_ledger sample_batch ?i (db s') \<noteq> None"
    using retries_store_once [OF ms valid u, of ?s "body_sha256 v2_body" 0 r s'] sample_start(2,6)
    by (auto simp: after_attempts_def f(4))
  moreover have "read_ledger sample_batch ?i no_rows = None" by (simp add: read_ledger_def no_rows_def)
  ultimately show ?thesis using r by auto
qed

subsection \<open>The collector's client, the writer and the store\<close>

lemma written_batch_delivered:
  assumes w: "new_http_writer_with_service_key (Some base) secret k
      (deliver (writer_routes (uuids cfg) (clickhouse_writer cfg secret v))) time_now = Inr w"
    and "trim_right_slashes (url_path base) = []"
    and "find_service_key v (key_id k) = Some k" and "allowed_caller v = ''collector''"
    and "representable (clock s (ticks s))" and "max_skew v < 2 ^ 63 - 1" and "0 \<le> max_skew v"
    and "\<bar>clock s (ticks s + 1) - truncate_to (clock s (ticks s)) second\<bar> \<le> max_skew v"
    and "parse_batch (uuids cfg) body (clock s (ticks s + 2)) = Inr b" and "uuid_shaped (batch_id (header b))"
  shows "http_write_v2 w (batch_id (header b)) body s
    = (case insert_v2 cfg b (body_sha256 body) (s\<lparr>ticks := ticks s + 3\<rparr>) of (res, s') \<Rightarrow> (client_outcome res, s'))"
proof -
  let ?path = "''/internal/v2/batches''"
  note fields = new_http_writer_Inr(1-4) [OF w, unfolded assms(2) append_Nil]
  have "escape_path ?path \<noteq> []" by code_simp
  then obtain h where h: "sign_service (service_signer w) (clock s (ticks s)) ''POST'' (escape_path ?path) (batch_id (header b)) body = Inr h"
    using sign_service_returns [OF _ _ uuid_shaped_clean(4) [OF assms(10)]] by blast
  have "verify_service v (clock s (ticks s + 1)) ''POST'' (escape_path ?path) body h = Inr ()"
    using assms(3-8) by (intro verify_sign_service [OF h]) (simp_all add: fields(3))
  with h assms(9,10) show ?thesis by (intro http_write_v2_delivered [OF fields(1,2,4)]) simp_all
qed

text \<open>
  C6. A batch that the collector hands to its client reaches the store as it is: with a shared
  service key, clocks within the skew and a network that delivers, WriteV2 of a batch that the
  writer's parser accepts runs InsertV2 on that batch with the digest of the same bytes, once, and
  reports its outcome: the number of records and the replay flag, the conflict for a reused batch or
  record ID, the suppression, and an error for anything else.
\<close>

theorem written_batch_reaches_store:
  assumes w: "new_http_writer_with_service_key (Some base) secret k
      (deliver (writer_routes (uuids cfg) (clickhouse_writer cfg secret v))) time_now = Inr w"
    and "trim_right_slashes (url_path base) = []"
    and "find_service_key v (key_id k) = Some k" and "allowed_caller v = ''collector''"
    and "representable (clock s (ticks s))" and "max_skew v < 2 ^ 63 - 1" and "0 \<le> max_skew v"
    and "\<bar>clock s (ticks s + 1) - truncate_to (clock s (ticks s)) second\<bar> \<le> max_skew v"
    and "parse_batch (uuids cfg) body (clock s (ticks s + 2)) = Inr b" and "uuid_shaped (batch_id (header b))"
  shows "http_write_v2 w (batch_id (header b)) body s
    = (case insert_v2 cfg b (body_sha256 body) (s\<lparr>ticks := ticks s + 3\<rparr>) of (res, s') \<Rightarrow> (client_outcome res, s'))"
  using assms by (rule written_batch_delivered)

theorem written_batch_reaches_store_witness:
  "\<exists>replayed s'. http_write_v2 sample_client (batch_id (header sample_batch)) v2_body sample_link
    = (Inr \<lparr>write_count = 1, write_replayed = replayed\<rparr>, s')"
proof -
  note reached = written_batch_reaches_store [where cfg = sample_service_cfg and v = sample_verifier and s = sample_link
      and body = v2_body and b = sample_batch, unfolded sample_link_facts(1),
      OF sample_client_new [unfolded sample_routes_def] _ _ _ _ _ _ _ _ sample_link_facts(6)]
  have "trim_right_slashes (url_path sample_url) = []" by code_simp
  moreover obtain r s' where r: "insert_v2 sample_service_cfg sample_batch (body_sha256 v2_body) (sample_link\<lparr>ticks := 3\<rparr>) = (Inr r, s')"
    using sample_link_insert by blast
  ultimately show ?thesis
    using reached sample_link_facts sample_now_exact insert_v2_count [OF r] r sample_link_verifier
    by (simp add: client_outcome_def duration_defs sample_batch_simps)
qed

subsection \<open>Only signed requests write\<close>

text \<open>The ID of what a body holds, for each of the parsers of the signed routes.\<close>

definition carries :: "'u uuid_lib \<Rightarrow> incoming \<Rightarrow> string \<Rightarrow> bool" where
  "carries lib r i \<longleftrightarrow>
     (\<exists>t. (\<exists>b. parse_batch lib (req_body r) t = Inr b \<and> i = batch_id (header b))
        \<or> (\<exists>q. parse_privacy_request lib (req_body r) t = Inr q \<and> i = request_id (the_request q))
        \<or> (\<exists>q. parse_internal_privacy_request lib (req_body r) t = Inr q \<and> i = pv_request_id (vp_request q))
        \<or> (\<exists>b. fr_parse_batch lib (req_body r) t = Inr b \<and> i = fr_batch_id (fr_batch b)))"

text \<open>
  C11. A request to the writer that changes any table is signed: with the V1 signature of the shared
  secret on the route of V1 events, and on the others with a service signature over its method, path
  and body, by the allowed caller, and then its Idempotency-Key, its signed request ID and the ID in
  its body are one and the same canonical UUID.
\<close>

theorem writer_changes_only_signed:
  assumes "(m, p, h) \<in> set (writer_routes lib (clickhouse_writer cfg secret v))"
    and "db (snd (h r hdr s)) \<noteq> db s"
  shows "p = ''/internal/v1/events'' \<and> writer_signed (clickhouse_writer cfg secret v) r
    \<or> signed_request v r \<and> (\<exists>i. carries lib r i \<and> names_body lib r i)"
proof (rule ccontr)
  assume no: "\<not> ?thesis"
  let ?srv = "clickhouse_writer cfg secret v"
  have v: "ws_verifier ?srv = Some x \<Longrightarrow> x = v" for x by (simp add: clickhouse_writer_def)
  have "keeps (\<lambda>x. db x = db s) (h r hdr)"
  proof (rule writer_keeps [OF assms(1)])
    show "keeps (\<lambda>x. db x = db s) (ws_now ?srv)" using keeps_time_now [of "\<lambda>d. d = db s"] by (simp add: clickhouse_writer_def)
    show "keeps (\<lambda>x. db x = db s) (store_ping (ws_store ?srv))" using keeps_query [of "\<lambda>d. d = db s"] by (simp add: clickhouse_writer_def)
  qed (use no v in \<open>unfold carries_def, blast+\<close>)
  with assms(2) show False using keepsD [of "\<lambda>x. db x = db s" "h r hdr" s] by simp
qed

theorem writer_changes_only_signed_witness:
  "\<exists>r h. (''POST'', ''/internal/v2/batches'', h) \<in> set sample_routes \<and> db (snd (h r [] sample_link)) \<noteq> no_rows
    \<and> signed_request sample_verifier r"
proof -
  let ?srv = "clickhouse_writer sample_service_cfg ''secret'' sample_verifier"
  let ?st = "the (ws_store_v2 ?srv)" and ?e = "v2_batch_endpoint sample_client" and ?i = "batch_id (header sample_batch)"
  let ?h = "security_headers (writer_batches_v2 plain_uuids ?srv ?st sample_verifier)"
  note f = sample_link_facts
  have "escape_path (url_path ?e) \<noteq> []"
    using new_http_writer_Inr(4) [OF sample_client_new] by simp
  then obtain h where h: "sign_service sample_signer sample_now ''POST'' (escape_path (url_path ?e)) ?i v2_body = Inr h"
    using sign_service_returns [OF _ _ uuid_shaped_clean(4) [OF f(6)]] by blast
  have v: "verify_service sample_verifier sample_now ''POST'' (escape_path (url_path ?e)) v2_body h = Inr ()"
    by (rule verify_sign_service [OF h])
      (simp_all add: sample_verifier_ok sample_now_exact, simp_all add: sample_verifier_def duration_defs)
  have id: "sh_request_id h = ?i" using h by (auto simp: sign_service_def result_simps Let_def)
  let ?r = "received (signed_post ?e h ?i v2_body)"
  obtain hdr where hdr: "security_headers k r [] = k r hdr" for k :: "string tables conn handler" and r
    by (simp add: security_headers_def)
  have valid: "canonical_uuid plain_uuids ?i" "length v2_body \<le> MaxBatchBytes"
    using parse_batch_valid [OF f(5)] parse_batch_strict [OF f(5)] by (auto simp: valid_batch_def header_ok_def)
  have "snd (?h ?r [] sample_link) = snd (insert_v2 sample_service_cfg sample_batch (body_sha256 v2_body) (sample_link\<lparr>ticks := 2\<rparr>))"
    using writer_reaches_store [where srv = ?srv and st = ?st and s = sample_link and hdr = hdr and e = ?e,
        OF v id _ _ f(5) valid(1) uuid_shaped_clean(2) [OF f(6)] valid(2)]
    by (simp add: hdr attempting_cases clickhouse_writer_def time_now_def f numeral_2_eq_2 split: prod.split)
  then have changed: "db (snd (?h ?r [] sample_link)) \<noteq> no_rows" using sample_link_insert [of 2] by auto
  moreover have route: "(''POST'', ''/internal/v2/batches'', ?h) \<in> set sample_routes"
    by (simp add: sample_routes_def writer_routes_def clickhouse_writer_def)
  ultimately show ?thesis
    using writer_changes_only_signed [OF route [unfolded sample_routes_def], of ?r "[]" sample_link] f(4) by auto
qed

subsection \<open>Erasure in the running system\<close>

text \<open>
  C5. Erasure holds for the deployed pair: after any run of requests to the writer, of any content and
  on any route, and of sweeps of the worker, in any order and whatever calls of the database break, a
  deletion that is marked completed has left nothing of what its request names, as long as the digests
  of the bodies of the run identify their batches.
\<close>

theorem served_deletions_forget:
  assumes "good_driver cfg" and "reachable cfg content (db s)" and "identifies cfg content steps"
    and "r \<in> set (suppressions (db (run_steps cfg secret v steps s)))"
    and "sr_status r = ''completed''" and "sr_action r = PrivacyDelete"
  shows "forgotten r (db (run_steps cfg secret v steps s))"
  by (rule completed_forgotten [OF assms(1) reachable_inv [OF assms(1) run_steps_reachable [OF assms(1-3)]] assms(4-6)])

definition sample_run :: "service_step list" where
  "sample_run = [Sweep \<lparr>worker_limit = 100, worker_max_attempts = 10\<rparr>,
     Request ''/internal/v2/batches'' \<lparr>req_method = ''POST'', req_path = ''/internal/v2/batches'', req_header = [],
       req_body = [], body_broken = False\<rparr>]"

theorem served_deletions_forget_witness:
  "\<exists>r \<in> set (suppressions (db (run_steps store_cfg ''secret'' sample_verifier sample_run sample_requested))).
     sr_status r = ''completed'' \<and> forgotten r (db (run_steps store_cfg ''secret'' sample_verifier sample_run sample_requested))"
proof -
  have "media_type [] = None" by code_simp
  then have run: "run_steps store_cfg ''secret'' sample_verifier sample_run sample_requested = sample_erased"
    by (simp add: sample_run_def sample_erased_def find_route_def writer_routes_def clickhouse_writer_def security_headers_def
        writer_batches_v2_def require_json_def is_json_def header_get_def)
  have "trim_space [] = []" by code_simp
  then have "parse_batch lib [] t = Inr b \<Longrightarrow> False" for lib :: "string uuid_lib" and t b
    using parse_batch_strict [of lib "[]" t b] by (auto simp: strict_json_def)
  then have "identifies store_cfg (\<lambda>_. sample_batch) sample_run" by (auto simp: identifies_def sample_run_def)
  from served_deletions_forget [OF store_cfg_good sample_requested_facts(3) this, where secret = "''secret''" and v = sample_verifier]
    sample_erased_facts(2) show ?thesis unfolding run by blast
qed

subsection \<open>What the collector forwards\<close>

definition claims_scope :: "product_claims \<Rightarrow> scope" where
  "claims_scope c =
     \<lparr>product_id = pc_product c, subject_key = pc_subject_key c, person_key = pc_person_key c, org_key = pc_org_key c\<rparr>"

lemma scope_matches_claims_scope: "scope_matches_claims sc c \<longleftrightarrow> sc = claims_scope c"
  by (cases sc) (auto simp: scope_matches_claims_iff claims_scope_def)

text \<open>
  C12. A client writes and erases only in the scope of its token: the answer to a V2 batch or a V2
  privacy request depends on the writer only if the request carries a product or Identity token for
  telemetry:write or privacy:write, its body parses, its scope is exactly the product, subject, person
  and organisation of the token, and its Idempotency-Key is its ID; the writer is then asked once, with
  that ID and the body as it came.
\<close>

theorem collector_forwards_own_scope:
  "(collector_batches_v2 lib srv w r hdr s \<noteq> collector_batches_v2 lib srv w' r hdr s \<longrightarrow>
     (\<exists>c s1 t s2 b. authenticate_product srv r ''telemetry:write'' s = (Inr c, s1) \<and> cs_now srv s1 = (Inr t, s2)
        \<and> parse_batch lib (req_body r) t = Inr b \<and> header_scope (header b) = claims_scope c
        \<and> header_get (req_header r) ''Idempotency-Key'' = batch_id (header b)
        \<and> (\<forall>x. collector_batches_v2 lib srv x r hdr s
             = seq (attempting (vw_write x (batch_id (header b)) (req_body r)))
                 (\<lambda>res. ret (batch_outcome (batch_id (header b)) res hdr)) s2)))
   \<and> (collector_privacy_v2 lib srv w r hdr s \<noteq> collector_privacy_v2 lib srv w' r hdr s \<longrightarrow>
     (\<exists>c s1 t s2 q. authenticate_product srv r ''privacy:write'' s = (Inr c, s1) \<and> cs_now srv s1 = (Inr t, s2)
        \<and> parse_privacy_request lib (req_body r) t = Inr q \<and> privacy_scope (the_request q) = claims_scope c
        \<and> header_get (req_header r) ''Idempotency-Key'' = request_id (the_request q)
        \<and> (\<forall>x. collector_privacy_v2 lib srv x r hdr s
             = seq (attempting (vw_privacy x (request_id (the_request q)) (req_body r)))
                 (\<lambda>res. ret (privacy_outcome (request_id (the_request q)) res hdr)) s2)))"
  using batches_forwards [of lib srv w r hdr s w'] privacy_v2_forwards [of lib srv w r hdr s w']
  unfolding scope_matches_claims_scope by blast

definition sample_server :: "unit collector_server" where
  "sample_server = \<lparr>cs_writer = (\<lambda>_. ret ()), cs_tokens = sample_installations, cs_v2_writer = None, cs_product_tokens = None,
     cs_identity = Some (\<lambda>_ _. ret sample_claims), cs_legacy_tokens = False, cs_fundraising = None,
     cs_donation_verifier = None, cs_tts_verifier = None, cs_tts_subject_key = [], cs_privacy_text = [],
     cs_now = ret sample_now, cs_new_id = ret sample_installation\<rparr>"

definition sample_writer :: "go_error option \<Rightarrow> unit v2_writer" where
  "sample_writer e = (let answer = (\<lambda>x. case e of None \<Rightarrow> ret x | Some err \<Rightarrow> fail err) in
     \<lparr>vw_write = (\<lambda>_ _. answer \<lparr>write_count = 1, write_replayed = False\<rparr>),
      vw_privacy = (\<lambda>_ _. case e of None \<Rightarrow> ret \<lparr>pw_status = ''pending'', pw_replayed = False\<rparr> | Some err \<Rightarrow> fail err),
      vw_legacy_privacy = (\<lambda>_ _. case e of None \<Rightarrow> ret \<lparr>pw_status = ''pending'', pw_replayed = False\<rparr> | Some err \<Rightarrow> fail err)\<rparr>)"

definition sample_incoming :: "string \<Rightarrow> string \<Rightarrow> string \<Rightarrow> incoming" where
  "sample_incoming token key body =
     \<lparr>req_method = ''POST'', req_path = ''/'', req_header = [(''authorization'', [''Bearer '' @ token]),
        (''content-type'', [''application/json'']), (''idempotency-key'', [key])], req_body = body, body_broken = False\<rparr>"

lemma sample_header_names:
  "to_lower ''Idempotency-Key'' = ''idempotency-key''" "to_lower ''Authorization'' = ''authorization''"
  "to_lower ''Content-Type'' = ''content-type''" "media_type ''application/json'' = Some ''application/json''"
  by code_simp+

lemma sample_incoming_checks:
  "is_json (sample_incoming token key body)" "header_get (req_header (sample_incoming token key body)) ''Idempotency-Key'' = key"
  "header_get (req_header (sample_incoming token key body)) ''Authorization'' = ''Bearer '' @ token"
  "req_body (sample_incoming token key body) = body" "\<not> body_broken (sample_incoming token key body)"
  by (simp_all add: is_json_def sample_incoming_def header_get_def sample_header_names)

lemma sample_answers:
  "collector_batches_v2 plain_uuids sample_server (sample_writer e) (sample_incoming ''token'' (batch_id v2_header) v2_body) [] ()
    = seq (attempting (vw_write (sample_writer e) (batch_id v2_header) v2_body)) (\<lambda>res. ret (batch_outcome (batch_id v2_header) res [])) ()"
  "collector_privacy_v2 plain_uuids sample_server (sample_writer e) (sample_incoming ''token'' (request_id privacy_value) privacy_body) [] ()
    = seq (attempting (vw_privacy (sample_writer e) (request_id privacy_value) privacy_body))
        (\<lambda>res. ret (privacy_outcome (request_id privacy_value) res [])) ()"
proof -
  have auth: "authenticate_product sample_server (sample_incoming ''token'' k body) sc () = (Inr (claims_of_identity sample_claims), ())"
    for k body sc
    by (simp add: authenticate_product_def bearer_def sample_incoming_checks sample_server_def has_prefix_def trim_prefix_def
        contains_any_def reject_def attempting_def seq_def ret_def lift_def)
  have body: "read_body MaxBatchBytes (sample_incoming ''token'' k v2_body) = Inr v2_body"
    "read_body 16384 (sample_incoming ''token'' k privacy_body) = Inr privacy_body" for k
    using v2_body_length privacy_body_length by (simp_all add: result_simps sample_incoming_checks)
  have parsed: "parse_batch plain_uuids v2_body sample_now = Inr sample_batch" "header sample_batch = v2_header"
    using v2_batch_parses by (simp_all add: sample_batch_def v2_validated_def)
  have scope: "scope_matches_claims (header_scope v2_header) (claims_of_identity sample_claims)"
    "scope_matches_claims (privacy_scope privacy_value) (claims_of_identity sample_claims)"
    by (simp_all add: scope_matches_claims_iff claims_of_identity_def sample_claims_def v2_header_def privacy_value_def)
  have key: "returned (validate_idempotency_key plain_uuids (batch_id v2_header) (batch_id v2_header))"
    "returned (validate_idempotency_key plain_uuids (request_id privacy_value) (request_id privacy_value))" by code_simp+
  have now: "cs_now sample_server () = (Inr sample_now, ())" by (simp add: sample_server_def ret_def)
  show "collector_batches_v2 plain_uuids sample_server (sample_writer e) (sample_incoming ''token'' (batch_id v2_header) v2_body) [] ()
    = seq (attempting (vw_write (sample_writer e) (batch_id v2_header) v2_body)) (\<lambda>res. ret (batch_outcome (batch_id v2_header) res [])) ()"
    using scope(1) key(1)
    by (simp add: collector_batches_v2_def passed sample_incoming_checks auth body now parsed Let_def)
  show "collector_privacy_v2 plain_uuids sample_server (sample_writer e) (sample_incoming ''token'' (request_id privacy_value) privacy_body) [] ()
    = seq (attempting (vw_privacy (sample_writer e) (request_id privacy_value) privacy_body))
        (\<lambda>res. ret (privacy_outcome (request_id privacy_value) res [])) ()"
    using scope(2) key(2) privacy_parses
    by (simp add: collector_privacy_v2_def passed sample_incoming_checks auth body now privacy_validated_def Let_def)
qed

lemma sample_answers_differ:
  "collector_batches_v2 plain_uuids sample_server (sample_writer None) (sample_incoming ''token'' (batch_id v2_header) v2_body) [] ()
    \<noteq> collector_batches_v2 plain_uuids sample_server (sample_writer (Some db_error)) (sample_incoming ''token'' (batch_id v2_header) v2_body) [] ()"
  "collector_privacy_v2 plain_uuids sample_server (sample_writer None) (sample_incoming ''token'' (request_id privacy_value) privacy_body) [] ()
    \<noteq> collector_privacy_v2 plain_uuids sample_server (sample_writer (Some db_error)) (sample_incoming ''token'' (request_id privacy_value) privacy_body) [] ()"
  unfolding sample_answers
  by (simp_all add: sample_writer_def Let_def attempting_def seq_def ret_def fail_def db_error_def uuid_panic_def batch_outcome_def
      privacy_outcome_def write_json_def write_error_def ErrWriterConflict_def ErrWriterSuppressed_def)

theorem collector_forwards_own_scope_witness:
  "(\<exists>c t b. authenticate_product sample_server (sample_incoming ''token'' (batch_id v2_header) v2_body) ''telemetry:write'' () = (Inr c, ())
      \<and> parse_batch plain_uuids v2_body t = Inr b \<and> header_scope (header b) = claims_scope c)
   \<and> (\<exists>c t q. authenticate_product sample_server (sample_incoming ''token'' (request_id privacy_value) privacy_body) ''privacy:write'' () = (Inr c, ())
      \<and> parse_privacy_request plain_uuids privacy_body t = Inr q \<and> privacy_scope (the_request q) = claims_scope c)"
  using collector_forwards_own_scope [of plain_uuids sample_server "sample_writer None"
      "sample_incoming ''token'' (batch_id v2_header) v2_body" "[]" "()" "sample_writer (Some db_error)"]
    collector_forwards_own_scope [of plain_uuids sample_server "sample_writer None"
      "sample_incoming ''token'' (request_id privacy_value) privacy_body" "[]" "()" "sample_writer (Some db_error)"]
    sample_answers_differ
  by (fastforce simp: sample_incoming_checks)

text \<open>
  C13. An installation writes and erases only its own data: the answer to a V1 batch or a V1 privacy
  request depends on the writer only if the request carries an installation token, the body parses, and
  every event and summary is of the installation of the token; the request to erase is built for that
  installation, whatever the body says, and the writer is asked once for it.
\<close>

theorem collector_forwards_own_installation:
  "(collector_events lib (srv\<lparr>cs_writer := u\<rparr>) r hdr s \<noteq> collector_events lib (srv\<lparr>cs_writer := u'\<rparr>) r hdr s \<longrightarrow>
     (\<exists>c s1 b. authenticate lib srv (header_get (req_header r) ''Authorization'') s = (Inr c, s1)
        \<and> parse_batch_v1 lib (req_body r) = Inr b
        \<and> (\<forall>e \<in> set (vb_events b). ev_installation_id (ve_event e) = installation_id c)
        \<and> (\<forall>x \<in> set (vb_summaries b). su_installation_id (vs_summary x) = installation_id c)))
   \<and> (collector_privacy_v1 lib srv w r hdr s \<noteq> collector_privacy_v1 lib srv w' r hdr s \<longrightarrow>
     (\<exists>c s1 t s2 q. authenticate lib srv (header_get (req_header r) ''Authorization'') s = (Inr c, s1)
        \<and> cs_now srv s1 = (Inr t, s2) \<and> parse_public_privacy_request lib (req_body r) (installation_id c) t = Inr q
        \<and> pv_installation_id (vp_request q) = installation_id c
        \<and> header_get (req_header r) ''Idempotency-Key'' = pv_request_id (vp_request q)
        \<and> (\<forall>x. collector_privacy_v1 lib srv x r hdr s
             = seq (attempting (vw_legacy_privacy x (pv_request_id (vp_request q)) (json_text (internal_privacy_json (vp_request q)))))
                 (\<lambda>res. ret (privacy_outcome (pv_request_id (vp_request q)) res hdr)) s2)))"
  using events_forwards [where srv = srv and w = u and w' = u' and lib = lib and r = r and hdr = hdr and s = s]
    privacy_v1_forwards [of lib srv w r hdr s w'] public_privacy_installation
  unfolding own_installation_def list_all_iff by blast

definition sample_owner :: string where
  "sample_owner = ev_installation_id v1_event"

definition sample_token :: string where
  "sample_token = snd (issue_installation sample_installations sample_now sample_owner)"

lemma b64_encode_no_space: "CHR '' '' \<notin> set (b64_encode x)"
proof -
  have "b64_char d \<noteq> CHR '' ''" if "d < 64" for d
  proof -
    have "b64_code d \<noteq> 32" using that by (simp add: b64_code_def) linarith
    then have "(of_char (b64_char d) :: nat) \<noteq> 32" using that by (simp add: of_char_b64_char)
    then show ?thesis by auto
  qed
  then show ?thesis using b64_digits_bound [of x] unfolding b64_encode_digits set_map by (metis imageE)
qed

lemma sample_token_ok:
  "authenticate plain_uuids sample_server (''Bearer '' @ sample_token) () = (Inr \<lparr>installation_id = sample_owner, issued_at = sample_now\<rparr>, ())"
proof -
  obtain c where i: "issue_installation sample_installations sample_now sample_owner = (c, sample_token)"
    by (cases "issue_installation sample_installations sample_now sample_owner") (simp add: sample_token_def)
  have c: "c = \<lparr>installation_id = sample_owner, issued_at = sample_now\<rparr>"
    using issue_installation_claims [OF i] sample_now_exact by (cases c) simp
  have "verify_installation plain_uuids sample_installations sample_now sample_token = Inr c"
  proof (rule installation_round_trip [OF i])
    show "CHR ''.'' \<notin> set sample_owner" "uuid_parse plain_uuids sample_owner \<noteq> None" by code_simp+
  qed (use issue_installation_claims [OF i] in
      \<open>simp_all add: sample_now_exact, simp_all add: sample_installations_def duration_defs\<close>)
  moreover have "CHR '' '' \<notin> set sample_token"
  proof -
    have "CHR '' '' \<notin> set sample_owner" "CHR '' '' \<notin> set (format_int (unix_seconds (truncate_to sample_now second)))" by code_simp+
    then show ?thesis using b64_encode_no_space by (auto simp: sample_token_def issue_installation_def Let_def)
  qed
  ultimately show ?thesis
    by (simp add: authenticate_def bearer_def has_prefix_def trim_prefix_def contains_any_def reject_def seq_def lift_def
        ret_def sample_server_def c list_ex_iff)
qed

definition sample_key_v1 :: string where
  "sample_key_v1 = ''10000000-0000-4000-8000-000000000001''"

lemma sample_v1_answers:
  "collector_events plain_uuids (sample_server\<lparr>cs_writer := \<lambda>_. m\<rparr>) (sample_incoming sample_token k v1_body) [] ()
    = seq (attempting m) (\<lambda>res. case res of
        Inl e \<Rightarrow> if errors_is e ErrWriterSuppressed then ret (write_error 403 ''telemetry_suppressed'' [])
          else ret (write_error 502 ''writer_unavailable'' [])
      | Inr _ \<Rightarrow> ret (write_json 202 (JObj [(''accepted_events'', number (length (vb_events v1_validated))),
          (''accepted_session_summaries'', number (length (vb_summaries v1_validated)))]) [])) ()"
  "\<exists>q. collector_privacy_v1 plain_uuids sample_server (sample_writer e) (sample_incoming sample_token sample_key_v1 v1_privacy_body) [] ()
    = seq (attempting (vw_legacy_privacy (sample_writer e) sample_key_v1 q)) (\<lambda>res. ret (privacy_outcome sample_key_v1 res [])) ()"
proof -
  let ?c = "\<lparr>installation_id = sample_owner, issued_at = sample_now\<rparr>"
  have auth: "authenticate plain_uuids (sample_server\<lparr>cs_writer := x\<rparr>) (''Bearer '' @ sample_token) () = (Inr ?c, ())"
    "authenticate plain_uuids sample_server (''Bearer '' @ sample_token) () = (Inr ?c, ())" for x
    using sample_token_ok by (simp_all add: authenticate_def)
  note auth = auth [unfolded append_Cons append_Nil]
  have body: "read_body MaxBatchBytesV1 (sample_incoming sample_token k v1_body) = Inr v1_body"
    "read_body 16384 (sample_incoming sample_token sample_key_v1 v1_privacy_body) = Inr v1_privacy_body"
    using v1_body_length v1_privacy_body_length by (simp_all add: result_simps sample_incoming_checks MaxBatchBytesV1_def)
  have own: "own_installation sample_owner v1_validated" by code_simp
  show "collector_events plain_uuids (sample_server\<lparr>cs_writer := \<lambda>_. m\<rparr>) (sample_incoming sample_token k v1_body) [] ()
    = seq (attempting m) (\<lambda>res. case res of
        Inl e \<Rightarrow> if errors_is e ErrWriterSuppressed then ret (write_error 403 ''telemetry_suppressed'' [])
          else ret (write_error 502 ''writer_unavailable'' [])
      | Inr _ \<Rightarrow> ret (write_json 202 (JObj [(''accepted_events'', number (length (vb_events v1_validated))),
          (''accepted_session_summaries'', number (length (vb_summaries v1_validated)))]) [])) ()"
    by (simp add: collector_events_def passed sample_incoming_checks auth body own v1_parses)
  let ?q = "privacy_request_v1.extend v1_privacy_value (internal_privacy_request.fields sample_owner)"
  have "into_struct privacy_v1_fields v1_privacy_json zero_privacy_v1 = Some v1_privacy_value"
    "validate_privacy_v1 plain_uuids ?q sample_now = Inr \<lparr>vp_request = ?q, vp_requested_at = sample_now\<rparr>"
    "pv_request_id ?q = sample_key_v1" "returned (validate_idempotency_key plain_uuids sample_key_v1 sample_key_v1)"
    by code_simp+
  moreover from this(1,2) have "parse_public_privacy_request plain_uuids v1_privacy_body sample_owner sample_now
      = Inr \<lparr>vp_request = ?q, vp_requested_at = sample_now\<rparr>"
    unfolding parse_public_privacy_request_def v1_privacy_body_decodes by simp
  moreover have "cs_now sample_server () = (Inr sample_now, ())" by (simp add: sample_server_def ret_def)
  ultimately show "\<exists>q. collector_privacy_v1 plain_uuids sample_server (sample_writer e) (sample_incoming sample_token sample_key_v1 v1_privacy_body) [] ()
    = seq (attempting (vw_legacy_privacy (sample_writer e) sample_key_v1 q)) (\<lambda>res. ret (privacy_outcome sample_key_v1 res [])) ()"
    by (auto simp: collector_privacy_v1_def passed sample_incoming_checks auth body Let_def)
qed

theorem collector_forwards_own_installation_witness:
  "\<exists>c b q t. authenticate plain_uuids sample_server (''Bearer '' @ sample_token) () = (Inr c, ())
     \<and> parse_batch_v1 plain_uuids v1_body = Inr b \<and> (\<forall>e \<in> set (vb_events b). ev_installation_id (ve_event e) = installation_id c)
     \<and> parse_public_privacy_request plain_uuids v1_privacy_body (installation_id c) t = Inr q"
proof -
  have "collector_events plain_uuids (sample_server\<lparr>cs_writer := \<lambda>_. ret ()\<rparr>) (sample_incoming sample_token [] v1_body) [] ()
      \<noteq> collector_events plain_uuids (sample_server\<lparr>cs_writer := \<lambda>_. fail db_error\<rparr>) (sample_incoming sample_token [] v1_body) [] ()"
    unfolding sample_v1_answers(1)
    by (simp add: attempting_def seq_def ret_def fail_def db_error_def uuid_panic_def write_json_def write_error_def ErrWriterSuppressed_def)
  moreover have "collector_privacy_v1 plain_uuids sample_server (sample_writer None) (sample_incoming sample_token sample_key_v1 v1_privacy_body) [] ()
      \<noteq> collector_privacy_v1 plain_uuids sample_server (sample_writer (Some db_error)) (sample_incoming sample_token sample_key_v1 v1_privacy_body) [] ()"
    using sample_v1_answers(2) [of None] sample_v1_answers(2) [of "Some db_error"]
    by (auto simp: sample_writer_def Let_def attempting_def seq_def ret_def fail_def db_error_def uuid_panic_def
        privacy_outcome_def write_json_def write_error_def ErrWriterConflict_def)
  ultimately show ?thesis
    using collector_forwards_own_installation [where lib = plain_uuids and srv = sample_server and s = "()" and hdr = "[]"
        and r = "sample_incoming sample_token [] v1_body" and u = "\<lambda>_. ret ()" and u' = "\<lambda>_. fail db_error"]
      collector_forwards_own_installation [where lib = plain_uuids and srv = sample_server and s = "()" and hdr = "[]"
        and r = "sample_incoming sample_token sample_key_v1 v1_privacy_body" and w = "sample_writer None" and w' = "sample_writer (Some db_error)"]
    by (fastforce simp: sample_incoming_checks)
qed

text \<open>
  C21. A V1 privacy request survives the hop: the body that the collector writes for a request that it
  accepted is parsed by the writer into the same request, for the same installation and instant, as
  long as the writer's clock still finds it fresh.
\<close>

theorem legacy_privacy_survives_hop:
  assumes "parse_public_privacy_request lib body i t = Inr q"
    and "ascii (pv_request_id (vp_request q))" and "ascii i"
    and "t' - day \<le> vp_requested_at q" and "vp_requested_at q \<le> t' + 5 * minute"
  shows "parse_internal_privacy_request lib (json_text (internal_privacy_json (vp_request q))) t' = Inr q"
  using assms by (rule internal_privacy_round_trip)

theorem legacy_privacy_survives_hop_witness:
  "\<exists>q. parse_public_privacy_request plain_uuids v1_privacy_body sample_owner sample_now = Inr q
    \<and> parse_internal_privacy_request plain_uuids (json_text (internal_privacy_json (vp_request q))) (sample_now + second) = Inr q"
proof -
  let ?q = "privacy_request_v1.extend v1_privacy_value (internal_privacy_request.fields sample_owner)"
  have "into_struct privacy_v1_fields v1_privacy_json zero_privacy_v1 = Some v1_privacy_value"
    "validate_privacy_v1 plain_uuids ?q sample_now = Inr \<lparr>vp_request = ?q, vp_requested_at = sample_now\<rparr>"
    "ascii (pv_request_id ?q)" "ascii sample_owner"
    by code_simp+
  moreover from this(1,2) have p: "parse_public_privacy_request plain_uuids v1_privacy_body sample_owner sample_now
      = Inr \<lparr>vp_request = ?q, vp_requested_at = sample_now\<rparr>"
    unfolding parse_public_privacy_request_def v1_privacy_body_decodes by simp
  ultimately show ?thesis
    using legacy_privacy_survives_hop [OF p, of "sample_now + second"] by (auto simp: duration_defs)
qed

end
