(* ===== verification/Config_Properties.thy ===== *)
theory Config_Properties
  imports Service_Config Service_Properties
begin

section \<open>Properties of the configured services\<close>

text \<open>
  What the collector and the writer are when their commands start them: the results of the run
  functions of cmd/collector and cmd/writer over an environment, put together with the properties of
  the services that those functions build.
\<close>

subsection \<open>What the parts of the configuration give\<close>

lemma collect_origins_exact:
  "collect_origins ok parts acc = Inr out \<Longrightarrow> distinct acc \<and> (\<forall>x \<in> set acc. ok x)
    \<Longrightarrow> distinct out \<and> (\<forall>x \<in> set out. ok x)"
proof (induction parts arbitrary: acc)
  case (Cons part parts)
  let ?acc = "if List.member acc (trim_space part) then acc else acc @ [trim_space part]"
  have "ok (trim_space part)" "collect_origins ok parts ?acc = Inr out"
    using Cons.prems(1) by (simp_all add: Let_def reject_Inr)
  moreover from this(1) Cons.prems(2) have "distinct ?acc \<and> (\<forall>x \<in> set ?acc. ok x)" by simp
  ultimately show ?case using Cons.IH by blast
qed simp

lemma cors_origins_exact:
  assumes "cors_origins env parse_url d = Inr origins"
  shows "distinct origins \<and> (\<forall>x \<in> set origins. exact_origin parse_url d x)"
proof (cases "trim_space (env ''CORS_ALLOWED_ORIGINS'') = []")
  case True
  then show ?thesis using assms by (simp add: cors_origins_def Let_def)
next
  case False
  then have "collect_origins (exact_origin parse_url d) (split_on (CHR '';'') (env ''CORS_ALLOWED_ORIGINS'')) [] = Inr origins"
    using assms by (simp add: cors_origins_def Let_def)
  then show ?thesis by (rule collect_origins_exact) simp
qed

lemma deployment_from_Inr:
  "deployment_from env = Inr (d, legacy) \<Longrightarrow>
     d = env_default env ''DEPLOYMENT_ENVIRONMENT'' ''production'' \<and> (d = ''production'' \<or> d = ''staging'')
     \<and> (legacy \<longrightarrow> d = ''staging'' \<and> env ''ALLOW_LEGACY_PRODUCT_TOKENS'' = ''true'')"
  by (auto simp: deployment_from_def Let_def result_simps)

lemma installation_tokens_from_Inr:
  "installation_tokens_from env secret limit = Inr ts \<Longrightarrow>
     32 \<le> length (active_secret ts) \<and> opt_all (\<lambda>p. 32 \<le> length p) (previous_secret ts)
     \<and> hour \<le> max_age ts \<and> max_age ts \<le> 365 * 24 * hour"
  by (auto simp: installation_tokens_from_def new_installation_tokens_def result_simps)

lemma donation_verifier_from_Inr:
  "donation_verifier_from env = Inr r \<Longrightarrow> v \<in> set_option r \<Longrightarrow>
     verifier_ok v \<and> allowed_caller v = ''nko-donations'' \<and> max_skew v = 5 * minute"
  by (auto simp: donation_verifier_from_def Let_def result_simps split: if_splits)

lemma configure_tts_Inr:
  "configure_tts_outcome_ingress env = Inr (r, skey) \<Longrightarrow> v \<in> set_option r \<Longrightarrow>
     verifier_ok v \<and> allowed_caller v = ''tts-echo'' \<and> max_skew v = 5 * minute \<and> opaque_key_pattern skey"
  by (auto simp: configure_tts_outcome_ingress_def Let_def result_simps split: if_splits)

lemma identity_from_Inr:
  assumes "identity_from w d False = Inr r"
  shows "\<exists>u v. r = Some (u, v) \<and> (url_scheme u = ''https'' \<or> d = ''staging'' \<and> url_scheme u = ''http'')
    \<and> \<not> url_user u \<and> url_query u = [] \<and> url_fragment u = [] \<and> 0 < iv_max_lifetime v \<and> iv_max_lifetime v \<le> hour
    \<and> iv_audiences v \<noteq> [] \<and> (\<forall>a \<in> set (iv_audiences v). lookup_product (fst a) \<noteq> None \<and> trim_space (snd a) \<noteq> [])"
  using assms
  by (auto simp: identity_from_def Let_def result_simps new_http_jwks_def new_identity_verifier_def not_le not_less
      list_all_iff split: option.splits)

text \<open>Without legacy tokens, a product request is authenticated by the Identity verifier alone.\<close>

lemma authenticate_product_identity:
  assumes "authenticate_product srv r required s = (Inr cl, s')" and "cs_identity srv = Some idv" and "\<not> cs_legacy_tokens srv"
  shows "\<exists>token ic. bearer (header_get (req_header r) ''Authorization'') = Inr token
    \<and> idv token required s = (Inr ic, s') \<and> cl = claims_of_identity ic"
  using assms
  by (auto simp: authenticate_product_def seq_def lift_def attempting_def ret_def fail_def split: sum.splits prod.splits if_splits)

lemma collector_run_parts:
  assumes "collector_run w = Inr c"
  obtains secret writer_secret writer_url k kp limit tts_key d ptokens identity client where
    "installation_tokens_from (w_env w) secret limit = Inr (cs_tokens (start_server c))"
    "app_secret (w_env w) ''WRITER_HMAC_SECRET'' = Inr writer_secret" "app_env (w_env w) ''WRITER_URL'' = Inr writer_url"
    "hmac_keyring (w_env w) ''SERVICE_HMAC'' writer_secret = Inr (k, kp)"
    "donation_verifier_from (w_env w) = Inr (cs_donation_verifier (start_server c))"
    "configure_tts_outcome_ingress (w_env w) = Inr (cs_tts_verifier (start_server c), cs_tts_subject_key (start_server c))"
    "deployment_from (w_env w) = Inr (d, cs_legacy_tokens (start_server c))"
    "product_tokens_from (w_env w) secret (cs_legacy_tokens (start_server c)) = Inr (cs_product_tokens (start_server c))"
    "identity_from w d (cs_legacy_tokens (start_server c)) = Inr identity"
    "cs_identity (start_server c) = map_option (identity_action w) identity"
    "new_http_writer_with_service_key (w_parse_url w writer_url) writer_secret k (w_transport w) (w_now w) = Inr client"
    "cors_origins (w_env w) (w_parse_url w) d = Inr (start_origins c)"
    "cs_writer (start_server c) = http_write client"
    "cs_v2_writer (start_server c) = Some \<lparr>vw_write = http_write_v2 client, vw_privacy = http_write_privacy client,
       vw_legacy_privacy = http_write_legacy_privacy client\<rparr>"
proof -
  from assms show ?thesis
    by (simp add: collector_run_def Let_def andthen_Inr split_paired_Ex) (elim exE conjE, drule sym [where t = c], rule that, simp_all)
qed

lemma writer_run_parts:
  assumes "writer_run env open_store store_of = Inr (addr, srv)" and "load_retention env = Inr keep"
  obtains secret active previous v where "app_secret env ''WRITER_HMAC_SECRET'' = Inr secret"
    "hmac_keyring env ''SERVICE_HMAC'' secret = Inr (active, previous)"
    "v = \<lparr>verifier_active = active, verifier_previous = previous, allowed_caller = ''collector'', max_skew = 5 * minute\<rparr>"
    "srv = clickhouse_writer (store_of keep) secret v"
  using assms by (auto simp: writer_run_def result_simps)

subsection \<open>An environment\<close>

definition sample_env :: environment where
  "sample_env name = (case map_of
     [(''WRITER_HMAC_SECRET'', replicate 32 (CHR ''w'')), (''WRITER_URL'', ''http://writer:8081/''), (''CLICKHOUSE_PASSWORD'', ''pw''),
      (''INSTALLATION_HMAC_SECRET'', replicate 32 (CHR ''i'')), (''IDENTITY_JWKS_URL'', ''https://id/jwks''),
      (''IDENTITY_TOKEN_ISSUER'', ''https://id''), (''IDENTITY_TELEMETRY_AUDIENCE'', ''plays''),
      (''CORS_ALLOWED_ORIGINS'', ''https://linka.su; https://linka.su'')] name of Some v \<Rightarrow> v | None \<Rightarrow> [])"

definition sample_parse_url :: "string \<Rightarrow> url option" where
  "sample_parse_url = map_of
     [(''http://writer:8081/'', sample_url),
      (''https://id/jwks'', \<lparr>url_scheme = ''https'', url_host = ''id'', url_user = False, url_path = ''/jwks'', url_query = [], url_fragment = []\<rparr>),
      (''https://linka.su'', \<lparr>url_scheme = ''https'', url_host = ''linka.su'', url_user = False, url_path = [], url_query = [], url_fragment = []\<rparr>)]"

definition sample_store_of :: "retention \<Rightarrow> string store_config" where
  "sample_store_of keep = sample_service_cfg\<lparr>retentions := keep\<rparr>"

definition sample_writer_srv :: "string tables conn writer_server" where
  "sample_writer_srv = (case writer_run sample_env (\<lambda>_. Inr ()) sample_store_of of Inr (_, srv) \<Rightarrow> srv)"

definition sample_world :: "(string tables conn, string) world" where
  "sample_world = \<lparr>w_env = sample_env, w_parse_url = sample_parse_url,
     w_transport = deliver (writer_routes plain_uuids sample_writer_srv), w_keys = (\<lambda>_ _ s. (Inr [], s)),
     w_ed25519 = (\<lambda>_ _ _. True), w_uuids = plain_uuids, w_now = time_now, w_new_id = ret sample_installation,
     w_privacy_text = ''privacy''\<rparr>"

definition sample_service_key :: service_key where
  "sample_service_key = \<lparr>key_id = ''default'', key_secret = replicate 32 (CHR ''w'')\<rparr>"

lemma sample_shared_settings:
  "app_secret sample_env ''WRITER_HMAC_SECRET'' = Inr (replicate 32 (CHR ''w''))"
  "hmac_keyring sample_env ''SERVICE_HMAC'' (replicate 32 (CHR ''w'')) = Inr (sample_service_key, None)"
  by code_simp+

lemma sample_writer_runs:
  "\<exists>addr. writer_run sample_env (\<lambda>_. Inr ()) sample_store_of = Inr (addr, sample_writer_srv)"
  "load_retention sample_env = Inr (retentions store_cfg)" "sample_store_of (retentions store_cfg) = sample_service_cfg"
proof -
  have keep: "load_retention sample_env = Inr (retentions store_cfg)" by code_simp
  have "app_env sample_env ''CLICKHOUSE_PASSWORD'' = Inr ''pw''"
    "new_service_verifier sample_service_key None ''collector'' (5 * minute)
      = Inr \<lparr>verifier_active = sample_service_key, verifier_previous = None, allowed_caller = ''collector'', max_skew = 5 * minute\<rparr>"
    by code_simp+
  then show "\<exists>addr. writer_run sample_env (\<lambda>_. Inr ()) sample_store_of = Inr (addr, sample_writer_srv)"
    by (simp add: writer_run_def sample_writer_srv_def sample_shared_settings keep)
  show "load_retention sample_env = Inr (retentions store_cfg)" by (fact keep)
  show "sample_store_of (retentions store_cfg) = sample_service_cfg" by (simp add: sample_store_of_def sample_service_cfg_def)
qed

lemma sample_world_parts:
  "w_env sample_world = sample_env" "w_parse_url sample_world = sample_parse_url" "w_now sample_world = time_now"
  "w_transport sample_world = deliver (writer_routes plain_uuids sample_writer_srv)"
  by (simp_all add: sample_world_def)

lemma sample_client_starts:
  "\<exists>client. new_http_writer_with_service_key (Some sample_url) secret sample_service_key transport now = Inr client"
proof -
  have "key_ok sample_service_key" "service_name_pattern ''collector''" by code_simp+
  then have "new_service_signer sample_service_key ''collector'' = Inr \<lparr>signer_key = sample_service_key, signer_caller = ''collector''\<rparr>"
    by (simp add: result_simps)
  then show ?thesis by (simp add: new_http_writer_with_service_key_def sample_url_def wrap_def Let_def)
qed

lemma sample_identity_starts: "\<exists>r. identity_from sample_world ''production'' False = Inr r"
proof -
  have "app_env sample_env ''IDENTITY_JWKS_URL'' = Inr ''https://id/jwks''" "app_env sample_env ''IDENTITY_TOKEN_ISSUER'' = Inr ''https://id''"
    "identity_audiences sample_env = Inr [(LinkaPlays, ''plays'')]"
    "env_duration sample_env ''IDENTITY_TOKEN_MAX_LIFETIME'' (15 * minute) = Inr (15 * minute)"
    "returned (new_http_jwks sample_parse_url ''https://id/jwks'' False)"
    "returned (new_identity_verifier ''https://id'' [(LinkaPlays, ''plays'')] (15 * minute))"
    by code_simp+
  then show ?thesis by (auto simp: identity_from_def sample_world_parts Let_def returned_iff)
qed

lemma sample_collector_runs:
  "\<exists>c. collector_run sample_world = Inr c \<and> start_origins c = [''https://linka.su'']"
proof -
  have parts: "installation_secret_from sample_env = Inr (replicate 32 (CHR ''i''))" "app_env sample_env ''WRITER_URL'' = Inr ''http://writer:8081/''"
    "env_duration sample_env ''INSTALLATION_TOKEN_MAX_AGE'' (720 * hour) = Inr (720 * hour)"
    "donation_verifier_from sample_env = Inr None" "configure_tts_outcome_ingress sample_env = Inr (None, [])"
    "deployment_from sample_env = Inr (''production'', False)"
    "cors_origins sample_env sample_parse_url ''production'' = Inr [''https://linka.su'']"
    "sample_parse_url ''http://writer:8081/'' = Some sample_url"
    by code_simp+
  have "returned (installation_tokens_from sample_env (replicate 32 (CHR ''i'')) (720 * hour))" by code_simp
  then obtain tokens where "installation_tokens_from sample_env (replicate 32 (CHR ''i'')) (720 * hour) = Inr tokens"
    by (auto simp: returned_iff)
  moreover obtain r where "identity_from sample_world ''production'' False = Inr r" using sample_identity_starts by blast
  moreover obtain client where "new_http_writer_with_service_key (Some sample_url) (replicate 32 (CHR ''w'')) sample_service_key
      (deliver (writer_routes plain_uuids sample_writer_srv)) time_now = Inr client" using sample_client_starts by blast
  ultimately show ?thesis
    by (simp add: collector_run_def Let_def sample_world_parts sample_shared_settings parts product_tokens_from_def)
qed

subsection \<open>Safe configurations only\<close>

text \<open>
  C14. The collector starts only in a safe configuration. Whatever the environment says: installation
  secrets have at least 32 bytes and tokens an age between an hour and a year; the verifiers of the
  donation and speech services are well formed, for their one caller and five minutes of skew; and
  legacy product tokens need both the flag and the staging deployment. Outside staging, moreover, the
  allowed origins are exact https origins, and a product request is authenticated by an Identity token
  only, whose keys come from an https URL without credentials and whose lifetime is at most an hour.
\<close>

theorem collector_starts_safely:
  assumes "collector_run w = Inr c"
  shows "32 \<le> length (active_secret (cs_tokens (start_server c)))
    \<and> opt_all (\<lambda>p. 32 \<le> length p) (previous_secret (cs_tokens (start_server c)))
    \<and> hour \<le> max_age (cs_tokens (start_server c)) \<and> max_age (cs_tokens (start_server c)) \<le> 365 * 24 * hour
    \<and> (\<forall>v \<in> set_option (cs_donation_verifier (start_server c)).
         verifier_ok v \<and> allowed_caller v = ''nko-donations'' \<and> max_skew v = 5 * minute)
    \<and> (\<forall>v \<in> set_option (cs_tts_verifier (start_server c)).
         verifier_ok v \<and> allowed_caller v = ''tts-echo'' \<and> max_skew v = 5 * minute
         \<and> opaque_key_pattern (cs_tts_subject_key (start_server c)))
    \<and> (cs_legacy_tokens (start_server c) \<longrightarrow>
         w_env w ''DEPLOYMENT_ENVIRONMENT'' = ''staging'' \<and> w_env w ''ALLOW_LEGACY_PRODUCT_TOKENS'' = ''true'')
    \<and> distinct (start_origins c)
    \<and> (w_env w ''DEPLOYMENT_ENVIRONMENT'' \<noteq> ''staging'' \<longrightarrow>
         (\<forall>x \<in> set (start_origins c). \<exists>u. w_parse_url w x = Some u \<and> url_scheme u = ''https'' \<and> url_host u \<noteq> []
            \<and> \<not> url_user u \<and> url_path u = [] \<and> url_query u = [] \<and> url_fragment u = [])
         \<and> (\<exists>u v. url_scheme u = ''https'' \<and> \<not> url_user u \<and> url_query u = [] \<and> url_fragment u = []
              \<and> iv_max_lifetime v \<le> hour
              \<and> (\<forall>a \<in> set (iv_audiences v). lookup_product (fst a) \<noteq> None \<and> trim_space (snd a) \<noteq> [])
              \<and> (\<forall>r required s cl s'. authenticate_product (start_server c) r required s = (Inr cl, s') \<longrightarrow>
                   (\<exists>token ic. bearer (header_get (req_header r) ''Authorization'') = Inr token
                      \<and> identity_action w (u, v) token required s = (Inr ic, s') \<and> cl = claims_of_identity ic))))"
  using assms
proof (rule collector_run_parts)
  fix secret writer_secret writer_url k kp limit tts_key d ptokens identity client
  let ?c = "start_server c"
  assume i: "installation_tokens_from (w_env w) secret limit = Inr (cs_tokens ?c)"
    and donation: "donation_verifier_from (w_env w) = Inr (cs_donation_verifier ?c)"
    and tts: "configure_tts_outcome_ingress (w_env w) = Inr (cs_tts_verifier ?c, cs_tts_subject_key ?c)"
    and d: "deployment_from (w_env w) = Inr (d, cs_legacy_tokens ?c)"
    and identity: "identity_from w d (cs_legacy_tokens ?c) = Inr identity" "cs_identity ?c = map_option (identity_action w) identity"
    and origins: "cors_origins (w_env w) (w_parse_url w) d = Inr (start_origins c)"
  note d = deployment_from_Inr [OF d]
  note origins = cors_origins_exact [OF origins]
  have staging: "d = ''staging'' \<longleftrightarrow> w_env w ''DEPLOYMENT_ENVIRONMENT'' = ''staging''"
    using d by (auto simp: env_default_def)
  have production: "(\<forall>x \<in> set (start_origins c). \<exists>u. w_parse_url w x = Some u \<and> url_scheme u = ''https'' \<and> url_host u \<noteq> []
        \<and> \<not> url_user u \<and> url_path u = [] \<and> url_query u = [] \<and> url_fragment u = [])
    \<and> (\<exists>u v. url_scheme u = ''https'' \<and> \<not> url_user u \<and> url_query u = [] \<and> url_fragment u = [] \<and> iv_max_lifetime v \<le> hour
        \<and> (\<forall>a \<in> set (iv_audiences v). lookup_product (fst a) \<noteq> None \<and> trim_space (snd a) \<noteq> [])
        \<and> (\<forall>r required s cl s'. authenticate_product ?c r required s = (Inr cl, s') \<longrightarrow>
             (\<exists>token ic. bearer (header_get (req_header r) ''Authorization'') = Inr token
                \<and> identity_action w (u, v) token required s = (Inr ic, s') \<and> cl = claims_of_identity ic)))" if "d \<noteq> ''staging''"
  proof -
    have legacy: "\<not> cs_legacy_tokens ?c" using d that by blast
    with identity(1) have "identity_from w d False = Inr identity" by simp
    from identity_from_Inr [OF this] that obtain u v where "identity = Some (u, v)" "url_scheme u = ''https''" "\<not> url_user u"
      "url_query u = []" "url_fragment u = []" "iv_max_lifetime v \<le> hour"
      "\<forall>a \<in> set (iv_audiences v). lookup_product (fst a) \<noteq> None \<and> trim_space (snd a) \<noteq> []"
      by blast
    moreover from this(1) identity(2) have "cs_identity ?c = Some (identity_action w (u, v))" by simp
    note authenticate_product_identity [OF _ this legacy]
    moreover have "\<forall>x \<in> set (start_origins c). \<exists>u. w_parse_url w x = Some u \<and> url_scheme u = ''https'' \<and> url_host u \<noteq> []
        \<and> \<not> url_user u \<and> url_path u = [] \<and> url_query u = [] \<and> url_fragment u = []"
      using origins that by (auto simp: exact_origin_def split: option.splits)
    ultimately show ?thesis by blast
  qed
  show ?thesis
    using installation_tokens_from_Inr [OF i] donation_verifier_from_Inr [OF donation] configure_tts_Inr [OF tts]
      d origins production staging by blast
qed

theorem collector_starts_safely_witness:
  "\<exists>c. collector_run sample_world = Inr c \<and> sample_env ''DEPLOYMENT_ENVIRONMENT'' \<noteq> ''staging''
    \<and> 32 \<le> length (active_secret (cs_tokens (start_server c))) \<and> \<not> cs_legacy_tokens (start_server c)
    \<and> (\<forall>x \<in> set (start_origins c). \<exists>u. sample_parse_url x = Some u \<and> url_scheme u = ''https'')"
proof -
  obtain c where c: "collector_run sample_world = Inr c" using sample_collector_runs by blast
  have "sample_env ''DEPLOYMENT_ENVIRONMENT'' = []" by code_simp
  then show ?thesis using collector_starts_safely [OF c] c by (auto simp: sample_world_def)
qed

subsection \<open>The configured pair delivers\<close>

text \<open>The settings that a collector and its writer have to share.\<close>

definition shared_settings :: "string list" where
  "shared_settings = [''WRITER_HMAC_SECRET'', ''SERVICE_HMAC_ACTIVE_KEY_ID'', ''SERVICE_HMAC_ACTIVE_SECRET'',
     ''SERVICE_HMAC_PREVIOUS_KEY_ID'', ''SERVICE_HMAC_PREVIOUS_SECRET'']"

lemma shared_settings_keys:
  assumes "\<forall>name \<in> set shared_settings. env name = env' name"
  shows "app_secret env ''WRITER_HMAC_SECRET'' = app_secret env' ''WRITER_HMAC_SECRET''"
    "hmac_keyring env ''SERVICE_HMAC'' fallback = hmac_keyring env' ''SERVICE_HMAC'' fallback"
  using assms by (simp_all add: shared_settings_def app_secret_def app_env_def hmac_keyring_def Let_def)

text \<open>
  C7. A collector and a writer that start from environments with the same service keys work together:
  whatever else is configured, a V2 batch that the started collector's client is asked to write runs
  InsertV2 of the store of the started writer, with the retentions of its environment, once on the
  parsed batch with the digest of its bytes, and the client reports the outcome, as long as the clocks
  differ by at most five minutes and the network delivers.
\<close>

theorem started_services_deliver:
  assumes "writer_run env open_store store_of = Inr (addr, srv)" and "load_retention env = Inr keep"
    and "collector_run w = Inr c" and "cs_v2_writer (start_server c) = Some x"
    and "\<forall>name \<in> set shared_settings. w_env w name = env name"
    and "w_transport w = deliver (writer_routes (uuids (store_of keep)) srv)" and "w_now w = time_now"
    and "w_parse_url w (w_env w ''WRITER_URL'') = Some base" and "trim_right_slashes (url_path base) = []"
    and "representable (clock s (ticks s))"
    and "\<bar>clock s (ticks s + 1) - truncate_to (clock s (ticks s)) second\<bar> \<le> 5 * minute"
    and "parse_batch (uuids (store_of keep)) body (clock s (ticks s + 2)) = Inr b" and "uuid_shaped (batch_id (header b))"
  shows "vw_write x (batch_id (header b)) body s
    = (case insert_v2 (store_of keep) b (body_sha256 body) (s\<lparr>ticks := ticks s + 3\<rparr>) of (res, s') \<Rightarrow> (client_outcome res, s'))"
  using assms(3)
proof (rule collector_run_parts)
  fix secret writer_secret writer_url k kp limit tts_key d ptokens identity client
  assume keys: "app_secret (w_env w) ''WRITER_HMAC_SECRET'' = Inr writer_secret"
      "hmac_keyring (w_env w) ''SERVICE_HMAC'' writer_secret = Inr (k, kp)"
    and url: "app_env (w_env w) ''WRITER_URL'' = Inr writer_url"
    and client: "new_http_writer_with_service_key (w_parse_url w writer_url) writer_secret k (w_transport w) (w_now w) = Inr client"
    and v2: "cs_v2_writer (start_server c) = Some \<lparr>vw_write = http_write_v2 client, vw_privacy = http_write_privacy client,
      vw_legacy_privacy = http_write_legacy_privacy client\<rparr>"
  obtain v where v: "v = \<lparr>verifier_active = k, verifier_previous = kp, allowed_caller = ''collector'', max_skew = 5 * minute\<rparr>"
      and srv: "srv = clickhouse_writer (store_of keep) writer_secret v"
    using writer_run_parts [OF assms(1,2)] keys unfolding shared_settings_keys [OF assms(5)] by (metis Inr_inject Pair_inject)
  have "writer_url = w_env w ''WRITER_URL''" using url by (simp add: app_env_def result_simps)
  with client assms(6-8) srv have client: "new_http_writer_with_service_key (Some base) writer_secret k
      (deliver (writer_routes (uuids (store_of keep)) (clickhouse_writer (store_of keep) writer_secret v))) time_now = Inr client"
    by simp
  have x: "vw_write x = http_write_v2 client" using assms(4) v2 by auto
  have "find_service_key v (key_id k) = Some k" "allowed_caller v = ''collector''" "max_skew v = 5 * minute"
    by (simp_all add: v find_service_key_def)
  with written_batch_delivered [OF client assms(9) this(1,2) assms(10) _ _ _ assms(12,13)] assms(11) x
  show ?thesis by (simp add: duration_defs)
qed

theorem started_services_deliver_witness:
  "\<exists>c x replayed s'. collector_run sample_world = Inr c \<and> cs_v2_writer (start_server c) = Some x
    \<and> vw_write x (batch_id (header sample_batch)) v2_body sample_link = (Inr \<lparr>write_count = 1, write_replayed = replayed\<rparr>, s')"
proof -
  obtain c where c: "collector_run sample_world = Inr c" using sample_collector_runs by blast
  then obtain x where x: "cs_v2_writer (start_server c) = Some x" using collector_run_parts by metis
  obtain addr where "writer_run sample_env (\<lambda>_. Inr ()) sample_store_of = Inr (addr, sample_writer_srv)"
    using sample_writer_runs(1) by blast
  note delivers = started_services_deliver [OF this sample_writer_runs(2) c x, where base = sample_url and s = sample_link
      and body = v2_body and b = sample_batch, unfolded sample_writer_runs(3) sample_link_facts(1) sample_world_parts]
  have "trim_right_slashes (url_path sample_url) = []" "sample_parse_url (sample_env ''WRITER_URL'') = Some sample_url" by code_simp+
  moreover obtain r s' where r: "insert_v2 sample_service_cfg sample_batch (body_sha256 v2_body) (sample_link\<lparr>ticks := 3\<rparr>) = (Inr r, s')"
    using sample_link_insert by blast
  ultimately show ?thesis
    using delivers c x sample_link_facts sample_now_exact insert_v2_count [OF r] r
    by (simp add: client_outcome_def duration_defs sample_batch_simps)
qed

end
