(* ===== verification/Go_Float_Ops.thy ===== *)
theory Go_Float_Ops
  imports Go_Float Go_Codec Go_Patterns
begin

section \<open>Arithmetic, ParseFloat and formatting of float64\<close>

text \<open>
  The operations of float64 that a command uses beyond Go_Float: conversion of an integer, the four
  operations with rounding to nearest even, \<open>&lt;\<close>, strconv.ParseFloat on any text (decimal and
  hexadecimal literals with underscores, infinities, NaN) and the verb \<open>%.1f\<close>. A zero has no sign.
\<close>

subsection \<open>Rounding\<close>

text \<open>The float64 of the fraction \<open>n / d\<close>, where d is positive.\<close>

definition float_ratio :: "int \<Rightarrow> int \<Rightarrow> float64" where
  "float_ratio n d =
     (case round64 \<bar>n\<bar> d of None \<Rightarrow> Inf (0 < n) | Some (m, e) \<Rightarrow> Fin (if n < 0 then - m else m) e)"

definition float_dyadic :: "int \<Rightarrow> int \<Rightarrow> float64" where
  "float_dyadic m e = (case scaled m 1 (- e) of (n, d) \<Rightarrow> float_ratio n d)"

definition float_of_int :: "int \<Rightarrow> float64" where
  "float_of_int n = float_ratio n 1"

text \<open>Mantissas of two numbers over the smaller exponent.\<close>

definition aligned :: "int \<Rightarrow> int \<Rightarrow> int \<Rightarrow> int \<Rightarrow> int \<times> int" where
  "aligned a i b j = (a * 2 ^ nat (i - min i j), b * 2 ^ nat (j - min i j))"

fun float_sub :: "float64 \<Rightarrow> float64 \<Rightarrow> float64" where
  "float_sub (Fin a i) (Fin b j) = (case aligned a i b j of (x, y) \<Rightarrow> float_dyadic (x - y) (min i j))"
| "float_sub (Inf p) (Fin b j) = Inf p"
| "float_sub (Fin a i) (Inf q) = Inf (\<not> q)"
| "float_sub (Inf p) (Inf q) = (if p = q then NaN else Inf p)"
| "float_sub _ _ = NaN"

fun float_mul :: "float64 \<Rightarrow> float64 \<Rightarrow> float64" where
  "float_mul (Fin a i) (Fin b j) = float_dyadic (a * b) (i + j)"
| "float_mul (Inf p) (Fin b j) = (if b = 0 then NaN else Inf (p = (0 < b)))"
| "float_mul (Fin a i) (Inf q) = (if a = 0 then NaN else Inf (q = (0 < a)))"
| "float_mul (Inf p) (Inf q) = Inf (p = q)"
| "float_mul _ _ = NaN"

fun float_div :: "float64 \<Rightarrow> float64 \<Rightarrow> float64" where
  "float_div (Fin a i) (Fin b j) =
     (if b = 0 then (if a = 0 then NaN else Inf (0 < a))
      else case aligned a i b j of (x, y) \<Rightarrow> float_ratio (if y < 0 then - x else x) \<bar>y\<bar>)"
| "float_div (Inf p) (Fin b j) = Inf (p = (0 \<le> b))"
| "float_div (Fin a i) (Inf q) = Fin 0 0"
| "float_div _ _ = NaN"

fun float_less :: "float64 \<Rightarrow> float64 \<Rightarrow> bool" where
  "float_less (Fin a i) (Fin b j) = (case aligned a i b j of (x, y) \<Rightarrow> x < y)"
| "float_less (Inf p) (Fin b j) = (\<not> p)"
| "float_less (Fin a i) (Inf q) = q"
| "float_less (Inf p) (Inf q) = (\<not> p \<and> q)"
| "float_less _ _ = False"

subsection \<open>strconv.ParseFloat\<close>

text \<open>readFloat: the digits and the dot, with underscores anywhere; then the exponent of the base.\<close>

definition mantissa_char :: "bool \<Rightarrow> char \<Rightarrow> bool" where
  "mantissa_char hex c = (is_digit c \<or> c = CHR ''_'' \<or> hex \<and> is_any_hex c)"

definition plain_digits :: "string \<Rightarrow> string" where
  "plain_digits = filter (\<lambda>c. c \<noteq> CHR ''_'')"

definition hex_digit_val :: "char \<Rightarrow> int" where
  "hex_digit_val c = (if is_digit c then digit_val c else of_char (ascii_lower c) - 87)"

fun hex_digits_value :: "int \<Rightarrow> string \<Rightarrow> int" where
  "hex_digits_value acc [] = acc"
| "hex_digits_value acc (c # cs) = hex_digits_value (16 * acc + hex_digit_val c) cs"

definition base_value :: "bool \<Rightarrow> string \<Rightarrow> int" where
  "base_value hex ds = (if hex then hex_digits_value 0 ds else digits_value 0 ds)"

text \<open>The exponent stops growing once it has five digits.\<close>

fun exponent_value :: "int \<Rightarrow> string \<Rightarrow> int" where
  "exponent_value e [] = e"
| "exponent_value e (c # cs) = exponent_value (if e < 10000 then e * 10 + digit_val c else e) cs"

definition unsigned :: "string \<Rightarrow> string" where
  "unsigned s = (if s \<noteq> [] \<and> (hd s = CHR ''+'' \<or> hd s = CHR ''-'') then tl s else s)"

definition exponent_digits :: "bool \<Rightarrow> string \<Rightarrow> int option" where
  "exponent_digits neg ds =
     (if ds = [] \<or> \<not> is_digit (hd ds) \<or> \<not> list_all (\<lambda>c. is_digit c \<or> c = CHR ''_'') ds then None
      else Some (if neg then - exponent_value 0 (plain_digits ds) else exponent_value 0 (plain_digits ds)))"

definition read_exponent :: "bool \<Rightarrow> string \<Rightarrow> int option" where
  "read_exponent hex r =
     (case r of
        [] \<Rightarrow> if hex then None else Some 0
      | c # r \<Rightarrow>
          if ascii_lower c \<noteq> (if hex then CHR ''p'' else CHR ''e'') then None
          else exponent_digits (r \<noteq> [] \<and> hd r = CHR ''-'') (unsigned r))"

text \<open>underscoreOK: an underscore follows a digit or the base prefix, and a digit follows it.\<close>

fun underscores_ok :: "bool \<Rightarrow> char \<Rightarrow> string \<Rightarrow> bool" where
  "underscores_ok hex saw [] = (saw \<noteq> CHR ''_'')"
| "underscores_ok hex saw (c # r) =
     (if is_digit c \<or> hex \<and> is_any_hex c then underscores_ok hex (CHR ''0'') r
      else if c = CHR ''_'' then saw = CHR ''0'' \<and> underscores_ok hex (CHR ''_'') r
      else saw \<noteq> CHR ''_'' \<and> underscores_ok hex (CHR ''!'') r)"

text \<open>The parts of a literal without sign and prefix: integer digits, fraction digits, what follows.\<close>

definition mantissa_parts :: "bool \<Rightarrow> string \<Rightarrow> string \<times> string \<times> string" where
  "mantissa_parts hex body =
     (case dropWhile (mantissa_char hex) body of
        c # r \<Rightarrow>
          if c = CHR ''.'' then (takeWhile (mantissa_char hex) body, takeWhile (mantissa_char hex) r, dropWhile (mantissa_char hex) r)
          else (takeWhile (mantissa_char hex) body, [], c # r)
      | [] \<Rightarrow> (body, [], []))"

definition literal_value :: "bool \<Rightarrow> bool \<Rightarrow> string \<Rightarrow> int \<Rightarrow> int \<Rightarrow> float64 option" where
  "literal_value neg hex ds k x =
     map_option (\<lambda>(m, e). Fin (if neg then - m else m) e)
       (if hex then (case scaled (base_value hex ds) 1 (4 * k - x) of (n, d) \<Rightarrow> round64 n d)
        else if k \<le> x then round64 (base_value hex ds * 10 ^ nat (x - k)) 1
        else round64 (base_value hex ds) (10 ^ nat (k - x)))"

definition read_literal :: "bool \<Rightarrow> bool \<Rightarrow> string \<Rightarrow> float64 option" where
  "read_literal neg hex body =
     (case mantissa_parts hex body of (i, f, rest) \<Rightarrow>
        if plain_digits (i @ f) = [] then None
        else if CHR ''_'' \<in> set body \<and> \<not> underscores_ok hex (if hex then CHR ''0'' else CHR ''^'') body then None
        else (case read_exponent hex rest of
               None \<Rightarrow> None
             | Some x \<Rightarrow> literal_value neg hex (plain_digits (i @ f)) (int (length (plain_digits f))) x))"

definition read_number :: "bool \<Rightarrow> string \<Rightarrow> float64 option" where
  "read_number neg u =
     (if to_lower u = ''inf'' \<or> to_lower u = ''infinity'' then Some (Inf (\<not> neg))
      else if 2 < length u \<and> to_lower (take 2 u) = ''0x'' then read_literal neg True (drop 2 u)
      else read_literal neg False u)"

definition parse_float :: "string \<Rightarrow> float64 option" where
  "parse_float s =
     (if to_lower s = ''nan'' then Some NaN
      else read_number (s \<noteq> [] \<and> hd s = CHR ''-'') (unsigned s))"

lemma parse_float_examples:
  "parse_float ''80'' = Some (float_of_int 80)" "parse_float ''+.5e2'' = Some (float_of_int 50)"
  "parse_float ''0x1p-1'' = parse_float ''0.5''" "parse_float ''1_0'' = Some (float_of_int 10)"
  "parse_float ''NaN'' = Some NaN" "parse_float ''-Infinity'' = Some (Inf False)"
  "parse_float ''80%'' = None" "parse_float ''1__0'' = None" "parse_float '''' = None" "parse_float ''0x1'' = None"
  by code_simp+

subsection \<open>The verb \<open>%.1f\<close>\<close>

fun format_tenths :: "float64 \<Rightarrow> string" where
  "format_tenths NaN = ''NaN''"
| "format_tenths (Inf pos) = (if pos then ''+Inf'' else ''-Inf'')"
| "format_tenths (Fin m e) =
     (let t = (case scaled (\<bar>m\<bar> * 10) 1 (- e) of (n, d) \<Rightarrow> round_half_even n d)
      in (if m < 0 then ''-'' else []) @ format_int (t div 10) @ ''.'' @ format_int (t mod 10))"

lemma format_tenths_examples:
  "format_tenths (float_of_int 80) = ''80.0''" "map_option format_tenths (parse_float ''92.25'') = Some ''92.2''"
  "map_option format_tenths (parse_float ''-0.04'') = Some ''-0.0''"
  by code_simp+

end
