(* ===== verification/Disk_Alert.thy ===== *)
theory Disk_Alert
  imports Go_Float_Ops Service_Config
begin

section \<open>cmd/disk-alert: one mail when the disk fills up\<close>

text \<open>
  cmd/disk-alert/main.go. A run reads how full the disk is and whether an alert was given, mails when
  the threshold is reached for the first time and remembers it in a file. The environment is a
  function and statfs gives the free and all blocks of a path; the files, the mails a server took and
  whether it offers STARTTLS are the data of a connection, of which every call of the operating
  system or of the mail server may break: a broken write of the file may leave it as it was or with a
  part of the text, and a mail whose acknowledgement is lost may have been taken.
\<close>

record mail =
  mail_from :: string
  mail_to :: string
  mail_text :: string

record alert_db =
  alert_files :: "string \<rightharpoonup> string"
  mail_box :: "mail list"
  offers_starttls :: bool

subsection \<open>The reading\<close>

definition disk_threshold :: "environment \<Rightarrow> float64 result" where
  "disk_threshold env =
     andthen (from_option (Err ''DISK_THRESHOLD_PERCENT must be between 0 and 100'')
       (parse_float (env_default env ''DISK_THRESHOLD_PERCENT'' ''80''))) (\<lambda>threshold.
     reject (\<not> float_is_nan threshold \<and> (\<not> float_gt threshold 0 \<or> \<not> float_lt threshold 100))
       (Err ''DISK_THRESHOLD_PERCENT must be between 0 and 100'') (Inr threshold))"

definition disk_used_percent :: "(64 word \<times> 64 word) result \<Rightarrow> float64 result" where
  "disk_used_percent stats =
     andthen (wrap ''stat filesystem'' stats) (\<lambda>(bavail, blocks).
     reject (blocks = 0) (Err ''filesystem reports zero blocks'')
       (Inr (float_mul (float_sub (float_of_int 1) (float_div (float_of_int (uint bavail)) (float_of_int (uint blocks))))
          (float_of_int 100))))"

subsection \<open>The state file\<close>

definition says_alerted :: "string option \<Rightarrow> bool" where
  "says_alerted data = (case data of None \<Rightarrow> False | Some text \<Rightarrow> trim_space text = ''alerted'')"

definition read_alert_state :: "string \<Rightarrow> (alert_db conn, bool) action" where
  "read_alert_state path =
     seq (wrapping ''read alert state'' (query (\<lambda>d. alert_files d path))) (\<lambda>data. ret (says_alerted data))"

definition alert_text :: "bool \<Rightarrow> string" where
  "alert_text alerted = (if alerted then ''alerted'' else ''ok'') @ [CHR 0x0A]"

definition write_file :: "string \<Rightarrow> string \<Rightarrow> nat option \<Rightarrow> alert_db \<Rightarrow> alert_db" where
  "write_file path text part d =
     (case part of
        None \<Rightarrow> d\<lparr>alert_files := (alert_files d)(path \<mapsto> text)\<rparr>
      | Some 0 \<Rightarrow> d
      | Some (Suc n) \<Rightarrow> d\<lparr>alert_files := (alert_files d)(path \<mapsto> take n text)\<rparr>)"

definition write_alert_state :: "string \<Rightarrow> bool \<Rightarrow> (alert_db conn, unit) action" where
  "write_alert_state path alerted =
     seq (wrapping ''create alert state directory'' (query (\<lambda>_. ()))) (\<lambda>_.
     wrapping ''write alert state'' (exec (write_file path (alert_text alerted))))"

subsection \<open>The mail\<close>

text \<open>net.SplitHostPort, of which the host is used.\<close>

definition split_host_port :: "string \<Rightarrow> string result" where
  "split_host_port hostport =
     (let port = rev (takeWhile (\<lambda>c. c \<noteq> CHR '':'') (rev hostport)); i = length hostport - length port - 1
      in if CHR '':'' \<notin> set hostport then Inl (Err ''missing port in address'')
         else if hd hostport = CHR ''['' then
           let fin = length (takeWhile (\<lambda>c. c \<noteq> CHR '']'') hostport)
           in reject (CHR '']'' \<notin> set hostport) (Err ''missing ']' in address'')
             (reject (fin + 1 = length hostport) (Err ''missing port in address'')
             (reject (fin + 1 \<noteq> i)
                (Err (if hostport ! (fin + 1) = CHR '':'' then ''too many colons in address'' else ''missing port in address''))
             (reject (CHR ''['' \<in> set (drop 1 hostport)) (Err ''unexpected '[' in address'')
             (reject (CHR '']'' \<in> set (drop (fin + 1) hostport)) (Err ''unexpected ']' in address'')
                (Inr (drop 1 (take fin hostport)))))))
         else
           reject (CHR '':'' \<in> set (take i hostport)) (Err ''too many colons in address'')
          (reject (CHR ''['' \<in> set hostport) (Err ''unexpected '[' in address'')
          (reject (CHR '']'' \<in> set hostport) (Err ''unexpected ']' in address'')
             (Inr (take i hostport)))))"

text \<open>mime.QEncoding.Encode for utf-8: encoded words of at most 75 characters, split between runes.\<close>

definition q_plain :: "char \<Rightarrow> bool" where
  "q_plain c = (let n = of_char c :: nat in 32 \<le> n \<and> n \<le> 126 \<and> c \<noteq> CHR ''='' \<and> c \<noteq> CHR ''?'' \<and> c \<noteq> CHR ''_'')"

definition upper_hex :: "char \<Rightarrow> string" where
  "upper_hex c = (let n = of_char c :: nat in [ascii_upper (hex_digit (n div 16)), ascii_upper (hex_digit (n mod 16))])"

definition q_char :: "char \<Rightarrow> string" where
  "q_char c = (if c = CHR '' '' then ''_'' else if q_plain c then [c] else CHR ''='' # upper_hex c)"

fun q_words :: "nat \<Rightarrow> string list \<Rightarrow> string" where
  "q_words len [] = []"
| "q_words len (r # rs) =
     (let n = (if length r = 1 \<and> q_plain (hd r) then 1 else 3 * length r)
      in if 63 < len + n then ''?= =?utf-8?q?'' @ concat (map q_char r) @ q_words n rs
         else concat (map q_char r) @ q_words (len + n) rs)"

definition q_encoding :: "string \<Rightarrow> string" where
  "q_encoding s =
     (if list_all (\<lambda>c. let n = of_char c :: nat in n = 9 \<or> 32 \<le> n \<and> n \<le> 126) s then s
      else ''=?utf-8?q?'' @ q_words 0 (runes s) @ ''?='')"

text \<open>The texts of the source as their UTF-8 bytes.\<close>

definition bytes :: "nat list \<Rightarrow> string" where
  "bytes = map char_of"

definition alert_subject :: string where
  "alert_subject = ''LINKa Plays Metric: '' @ bytes
    [208, 183, 208, 176, 208, 191, 208, 190, 208, 187, 208, 189, 208, 181, 208, 189, 208, 184, 208, 181, 32, 208, 180, 208,
     184, 209, 129, 208, 186, 208, 176]"

definition alert_message :: "string \<Rightarrow> float64 \<Rightarrow> float64 \<Rightarrow> string" where
  "alert_message path used threshold =
     bytes [208, 152, 209, 129, 208, 191, 208, 190, 208, 187, 209, 140, 208, 183, 208, 190, 208, 178, 208, 176, 208, 189, 208, 184,
     208, 181, 32, 208, 180, 208, 184, 209, 129, 208, 186, 208, 176, 32]
     @ path @ bytes [32, 208, 180, 208, 190, 209, 129, 209, 130, 208, 184, 208, 179, 208, 187, 208, 190, 32]
     @ format_tenths used @ ''% ('' @ bytes [208, 191, 208, 190, 209, 128, 208, 190, 208, 179, 32]
     @ format_tenths threshold @ ''%).''"

definition crlf :: string where
  "crlf = [CHR 0x0D, CHR 0x0A]"

definition mail_message :: "string \<Rightarrow> string \<Rightarrow> string \<Rightarrow> string" where
  "mail_message sender recipient body =
     ''From: '' @ sender @ crlf @ ''To: '' @ recipient @ crlf @ ''Subject: '' @ q_encoding alert_subject
     @ crlf @ ''MIME-Version: 1.0'' @ crlf @ ''Content-Type: text/plain; charset=utf-8'' @ crlf @ crlf @ body @ crlf"

text \<open>A step of the dialogue that changes nothing that lasts, and the end of DATA, which hands the mail over.\<close>

definition smtp_step :: "string \<Rightarrow> (alert_db conn, unit) action" where
  "smtp_step what = wrapping what (query (\<lambda>_. ()))"

definition hand_over :: "mail \<Rightarrow> (alert_db conn, unit) action" where
  "hand_over m = wrapping ''finish SMTP message''
     (exec (\<lambda>part d. if part = Some 0 then d else d\<lparr>mail_box := mail_box d @ [m]\<rparr>))"

definition send_mail :: "string \<Rightarrow> string \<Rightarrow> string \<Rightarrow> string \<Rightarrow> string \<Rightarrow> (alert_db conn, unit) action" where
  "send_mail address sender recipient username body =
     seq (fail_if (address = [] \<or> sender = []) (Err ''SMTP_ADDR and SMTP_FROM are required when an alert is sent'')) (\<lambda>_.
     seq (fail_if (contains_any (sender @ recipient) crlf) (Err ''invalid email address'')) (\<lambda>_.
     seq (lift (wrap ''parse SMTP_ADDR'' (split_host_port address))) (\<lambda>host.
     seq (smtp_step ''connect SMTP'') (\<lambda>_.
     seq (smtp_step ''start SMTP client'') (\<lambda>_.
     seq (attempting (query offers_starttls)) (\<lambda>offered.
     seq (fail_if (offered \<noteq> Inr True) (Err ''SMTP server does not support STARTTLS'')) (\<lambda>_.
     seq (smtp_step ''start SMTP TLS'') (\<lambda>_.
     seq (if username \<noteq> [] then smtp_step ''authenticate SMTP'' else ret ()) (\<lambda>_.
     seq (smtp_step ''set SMTP sender'') (\<lambda>_.
     seq (smtp_step ''set SMTP recipient'') (\<lambda>_.
     seq (smtp_step ''start SMTP message'') (\<lambda>_.
     seq (smtp_step ''write SMTP message'') (\<lambda>_.
     seq (hand_over \<lparr>mail_from = sender, mail_to = recipient, mail_text = mail_message sender recipient body\<rparr>) (\<lambda>_.
     query (\<lambda>_. ())))))))))))))))"

subsection \<open>A run\<close>

definition alert_path :: "environment \<Rightarrow> string" where
  "alert_path env = env_default env ''DISK_ALERT_STATE_FILE'' ''/var/lib/linka-metric/disk-alert.state''"

definition disk_alert_decision :: "environment \<Rightarrow> float64 \<Rightarrow> float64 \<Rightarrow> bool \<Rightarrow> (alert_db conn, unit) action" where
  "disk_alert_decision env threshold used alerted =
     (if float_less used threshold then
        if alerted then write_alert_state (alert_path env) False else ret ()
      else if alerted then ret ()
      else
        seq (send_mail (env ''SMTP_ADDR'') (env ''SMTP_FROM'') (env_default env ''SMTP_TO'' ''ivan@aacidov.ru'') (env ''SMTP_USER'')
            (alert_message (env_default env ''DISK_PATH'' ''/'') used threshold)) (\<lambda>_.
        write_alert_state (alert_path env) True))"

definition disk_alert_run :: "environment \<Rightarrow> (string \<Rightarrow> (64 word \<times> 64 word) result) \<Rightarrow> (alert_db conn, unit) action" where
  "disk_alert_run env statfs =
     seq (lift (disk_threshold env)) (\<lambda>threshold.
     seq (lift (disk_used_percent (statfs (env_default env ''DISK_PATH'' ''/'')))) (\<lambda>used.
     seq (read_alert_state (alert_path env)) (\<lambda>alerted.
     disk_alert_decision env threshold used alerted)))"

end
