(* ===== verification/Disk_Alert_Properties.thy ===== *)
theory Disk_Alert_Properties
  imports Disk_Alert Store_Liveness
begin

section \<open>Properties of the disk alert\<close>

text \<open>
  The reference is the list of crossings: a mail for each reading at or above the threshold that
  follows one below it (or the state in which no alert was given).
\<close>

definition disk_full :: "environment \<Rightarrow> (string \<Rightarrow> (64 word \<times> 64 word) result) \<Rightarrow> bool" where
  "disk_full env statfs =
     (case (disk_threshold env, disk_used_percent (statfs (env_default env ''DISK_PATH'' ''/''))) of
        (Inr threshold, Inr used) \<Rightarrow> \<not> float_less used threshold
      | _ \<Rightarrow> False)"

definition alert_mail :: "environment \<Rightarrow> (string \<Rightarrow> (64 word \<times> 64 word) result) \<Rightarrow> mail" where
  "alert_mail env statfs =
     (let path = env_default env ''DISK_PATH'' ''/''; sender = env ''SMTP_FROM'';
          recipient = env_default env ''SMTP_TO'' ''ivan@aacidov.ru''
      in case (disk_threshold env, disk_used_percent (statfs path)) of
           (Inr threshold, Inr used) \<Rightarrow>
             \<lparr>mail_from = sender, mail_to = recipient,
              mail_text = mail_message sender recipient (alert_message path used threshold)\<rparr>
         | _ \<Rightarrow> \<lparr>mail_from = sender, mail_to = recipient, mail_text = []\<rparr>)"

fun crossings :: "environment \<Rightarrow> bool \<Rightarrow> (string \<Rightarrow> (64 word \<times> 64 word) result) list \<Rightarrow> mail list" where
  "crossings env before [] = []"
| "crossings env before (r # rs) =
     (if disk_full env r \<and> \<not> before then [alert_mail env r] else []) @ crossings env (disk_full env r) rs"

definition alerted_in :: "environment \<Rightarrow> alert_db \<Rightarrow> bool" where
  "alerted_in env d = says_alerted (alert_files d (alert_path env))"

subsection \<open>The steps of a run\<close>

lemma says_alert_text [simp]: "says_alerted (Some (alert_text a)) = a"
proof -
  have "says_alerted (Some (alert_text True))" "\<not> says_alerted (Some (alert_text False))" by code_simp+
  then show ?thesis by (cases a) simp_all
qed

lemma alerted_in_mail_box [simp]: "alerted_in env (d\<lparr>mail_box := m\<rparr>) = alerted_in env d"
  by (simp add: alerted_in_def)

lemma keeps_steps [triples]:
  "keeps (\<lambda>s. P (db s)) (smtp_step what)" "keeps (\<lambda>s. P (db s)) (read_alert_state path)"
  "(\<And>d part. P d \<Longrightarrow> P (write_file path (alert_text a) part d)) \<Longrightarrow> keeps (\<lambda>s. P (db s)) (write_alert_state path a)"
  unfolding smtp_step_def read_alert_state_def write_alert_state_def by (auto intro!: triples)

lemma write_file_mail_box [simp]: "mail_box (write_file path text part d) = mail_box d"
  by (simp add: write_file_def split: option.splits nat.splits)

lemma write_alert_Inr:
  "write_alert_state path a s = (Inr u, s') \<Longrightarrow> db s' = (db s)\<lparr>alert_files := (alert_files (db s))(path \<mapsto> alert_text a)\<rparr>"
  by (auto simp: write_alert_state_def result_simps write_file_def)

lemma read_alert_Inr: "read_alert_state path s = (Inr a, s') \<Longrightarrow> a = says_alerted (alert_files (db s) path) \<and> db s' = db s"
  by (auto simp: read_alert_state_def result_simps)

text \<open>The mail of a dialogue: taken when it returns, at most once when it breaks.\<close>

lemma send_mail_Inr:
  "send_mail address sender recipient username body s = (Inr u, s') \<Longrightarrow>
     db s' = (db s)\<lparr>mail_box := mail_box (db s) @ [\<lparr>mail_from = sender, mail_to = recipient, mail_text = mail_message sender recipient body\<rparr>]\<rparr>"
  unfolding send_mail_def smtp_step_def hand_over_def
  by (auto simp: result_simps attempting_def query_def split: if_splits fault.splits)

definition at_most :: "alert_db \<Rightarrow> mail \<Rightarrow> alert_db \<Rightarrow> bool" where
  "at_most d m d' \<longleftrightarrow> alert_files d' = alert_files d \<and> (mail_box d' = mail_box d \<or> mail_box d' = mail_box d @ [m])"

lemma at_most_refl [simp]: "at_most d m d"
  by (simp add: at_most_def)

lemma valid_same:
  "valid (\<lambda>s. db s = d) (smtp_step what) (\<lambda>_ s. db s = d) (\<lambda>_ s. at_most d m (db s))"
  "valid (\<lambda>s. db s = d) (fail_if c e) (\<lambda>_ s. db s = d) (\<lambda>_ s. at_most d m (db s))"
  "valid (\<lambda>s. db s = d) (lift r) (\<lambda>_ s. db s = d) (\<lambda>_ s. at_most d m (db s))"
  "valid (\<lambda>s. db s = d) (if b then smtp_step what else ret ()) (\<lambda>_ s. db s = d) (\<lambda>_ s. at_most d m (db s))"
  "valid (\<lambda>s. db s = d) (attempting (query q)) (\<lambda>_ s. db s = d) (\<lambda>_ s. at_most d m (db s))"
  by (auto simp: valid_def smtp_step_def wrapping_def query_def attempting_def fail_if_def lift_def split: fault.splits sum.splits)

lemma send_mail_valid:
  "valid (\<lambda>s. db s = d) (send_mail address sender recipient username body)
     (\<lambda>_ s. at_most d \<lparr>mail_from = sender, mail_to = recipient, mail_text = mail_message sender recipient body\<rparr> (db s))
     (\<lambda>_ s. at_most d \<lparr>mail_from = sender, mail_to = recipient, mail_text = mail_message sender recipient body\<rparr> (db s))"
    (is "valid ?P _ (\<lambda>_. ?E) (\<lambda>_. ?E)")
proof -
  have last: "valid ?E (query (\<lambda>_. ())) (\<lambda>_. ?E) (\<lambda>_. ?E)" by (rule valid_pre [OF valid_query]) simp
  have hand: "valid ?P (hand_over \<lparr>mail_from = sender, mail_to = recipient, mail_text = mail_message sender recipient body\<rparr>)
      (\<lambda>_. ?E) (\<lambda>_. ?E)"
    unfolding hand_over_def by (intro valid_wrapping valid_pre [OF valid_exec]) (simp add: at_most_def)
  show ?thesis
    unfolding send_mail_def
    by (rule valid_seq [OF _ valid_same(2)] valid_seq [OF _ valid_same(3)] valid_seq [OF _ valid_same(1)]
        valid_seq [OF _ valid_same(5)] valid_seq [OF _ valid_same(4)] valid_seq [OF last hand])+
qed

lemma runs_smtp_step [run_rules]: "runs (\<lambda>s. P (db s)) (smtp_step what) (\<lambda>_ s. P (db s))"
  by (auto simp: runs_def smtp_step_def wrapping_def query_def wrap_def undisturbed_def later_def)

lemma runs_send_mail:
  assumes "address \<noteq> []" "sender \<noteq> []" "\<not> contains_any (sender @ recipient) crlf" "split_host_port address = Inr host"
  shows "runs (\<lambda>s. offers_starttls (db s)) (send_mail address sender recipient username body) (\<lambda>_ s. offers_starttls (db s))"
proof -
  have offer: "runs (\<lambda>s. offers_starttls (db s)) (attempting (query offers_starttls)) (\<lambda>x s. offers_starttls (db s) \<and> x = Inr True)"
    by (auto simp: runs_def attempting_def query_def undisturbed_def later_def)
  have hand: "runs (\<lambda>s. offers_starttls (db s)) (hand_over m) (\<lambda>_ s. offers_starttls (db s))" for m
    by (auto simp: runs_def hand_over_def wrapping_def exec_def wrap_def undisturbed_def later_def)
  have last: "runs (\<lambda>s. offers_starttls (db s)) (query (\<lambda>_. ())) (\<lambda>_ s. offers_starttls (db s))"
    by (auto simp: runs_def query_def undisturbed_def later_def)
  note step = runs_seq [OF _ runs_smtp_step]
  have auth: "runs (\<lambda>s. offers_starttls (db s)) (if username \<noteq> [] then smtp_step what else ret ()) (\<lambda>_ s. offers_starttls (db s))" for what
    using runs_smtp_step [of offers_starttls what] by (cases "username = []") (simp_all add: runs_def)
  have rest: "runs (\<lambda>s. offers_starttls (db s) \<and> x = Inr True)
     (seq (fail_if (x \<noteq> Inr True) (Err ''SMTP server does not support STARTTLS'')) (\<lambda>_. m)) (\<lambda>_ s. offers_starttls (db s))"
    if "runs (\<lambda>s. offers_starttls (db s)) m (\<lambda>_ s. offers_starttls (db s))" for m :: "(alert_db conn, unit) action" and x
    using that by (auto simp: runs_def)
  show ?thesis
    unfolding send_mail_def assms(4) using assms(1-3)
    by (cases "username = []"; simp add: wrap_def)
      (rule step runs_seq [OF _ offer] rest runs_seq [OF last hand])+
qed

subsection \<open>A run\<close>

lemma disk_alert_run_decides:
  assumes "disk_alert_run env statfs s = (Inr u, s')"
  obtains threshold used t where "disk_threshold env = Inr threshold"
    "disk_used_percent (statfs (env_default env ''DISK_PATH'' ''/'')) = Inr used" "db t = db s"
    "disk_alert_decision env threshold used (alerted_in env (db s)) t = (Inr u, s')"
  using assms unfolding disk_alert_run_def seq_Inr lift_Inr alerted_in_def by (auto dest!: read_alert_Inr)

lemma disk_alert_run_Inr:
  assumes "disk_alert_run env statfs s = (Inr u, s')"
  shows "mail_box (db s') = mail_box (db s) @ (if disk_full env statfs \<and> \<not> alerted_in env (db s) then [alert_mail env statfs] else [])
    \<and> (alerted_in env (db s') \<longleftrightarrow> disk_full env statfs)"
  using assms
proof (rule disk_alert_run_decides)
  fix threshold used t
  assume th: "disk_threshold env = Inr threshold" "disk_used_percent (statfs (env_default env ''DISK_PATH'' ''/'')) = Inr used"
    and t: "db t = db s" and rest: "disk_alert_decision env threshold used (alerted_in env (db s)) t = (Inr u, s')"
  have full: "disk_full env statfs \<longleftrightarrow> \<not> float_less used threshold" by (simp add: disk_full_def th)
  show ?thesis
    using t rest unfolding full disk_alert_decision_def
    by (auto simp: seq_Inr alerted_in_def alert_mail_def th Let_def split: if_splits dest!: write_alert_Inr send_mail_Inr)
qed

text \<open>Whatever breaks, a run mails at most once, and only for a crossing.\<close>

definition mailed :: "environment \<Rightarrow> (string \<Rightarrow> (64 word \<times> 64 word) result) \<Rightarrow> alert_db \<Rightarrow> alert_db \<Rightarrow> bool" where
  "mailed env statfs d d' \<longleftrightarrow> mail_box d' = mail_box d
     \<or> disk_full env statfs \<and> \<not> alerted_in env d \<and> mail_box d' = mail_box d @ [alert_mail env statfs]"

lemma keeps_mailed: "keeps (\<lambda>s. mailed env statfs d (db s)) (write_alert_state path a)"
  by (intro triples) (simp add: mailed_def)

lemma disk_alert_run_mails: "mailed env statfs (db s) (db (snd (disk_alert_run env statfs s)))"
proof -
  let ?P = "\<lambda>t. db t = db s" and ?E = "\<lambda>t. mailed env statfs (db s) (db t)"
  have decide: "valid ?P (disk_alert_decision env threshold used (alerted_in env (db s))) (\<lambda>_. ?E) (\<lambda>_. ?E)"
    if th: "disk_threshold env = Inr threshold" "disk_used_percent (statfs (env_default env ''DISK_PATH'' ''/'')) = Inr used"
    for threshold used
  proof -
    have store: "valid ?P (write_alert_state path a) (\<lambda>_. ?E) (\<lambda>_. ?E)" for path a
      by (rule valid_pre [OF keeps_mailed [unfolded keeps_def]]) (simp add: mailed_def)
    have skip: "valid ?P (ret ()) (\<lambda>_. ?E) (\<lambda>_. ?E)" by (rule valid_pre [OF valid_ret]) (simp add: mailed_def)
    have full: "\<not> float_less used threshold \<Longrightarrow> disk_full env statfs" by (simp add: disk_full_def th)
    have send: "valid ?P (seq (send_mail (env ''SMTP_ADDR'') (env ''SMTP_FROM'') (env_default env ''SMTP_TO'' ''ivan@aacidov.ru'')
          (env ''SMTP_USER'') (alert_message (env_default env ''DISK_PATH'' ''/'') used threshold)) (\<lambda>_. write_alert_state path a))
        (\<lambda>_. ?E) (\<lambda>_. ?E)" if "\<not> float_less used threshold" "\<not> alerted_in env (db s)" for path a
      by (rule valid_seq [OF keeps_mailed [unfolded keeps_def]], rule valid_conseq [OF send_mail_valid [of "db s"]])
        (use that full in \<open>auto simp: mailed_def at_most_def alert_mail_def th Let_def\<close>)
    show ?thesis unfolding disk_alert_decision_def by (intro valid_cond store skip send)
  qed
  have read: "valid ?P (read_alert_state path) (\<lambda>a t. ?P t \<and> a = says_alerted (alert_files (db s) path)) (\<lambda>_. ?E)" for path
    unfolding read_alert_state_def
    by (auto simp: valid_def seq_def wrapping_def query_def mailed_def wrap_def split: fault.splits)
  have "valid ?P (disk_alert_run env statfs) (\<lambda>_. ?E) (\<lambda>_. ?E)"
    unfolding disk_alert_run_def
  proof (intro valid_seq_lift)
    fix threshold used
    assume th: "disk_threshold env = Inr threshold" "disk_used_percent (statfs (env_default env ''DISK_PATH'' ''/'')) = Inr used"
    have "valid (\<lambda>t. ?P t \<and> a = says_alerted (alert_files (db s) (alert_path env)))
        (disk_alert_decision env threshold used a) (\<lambda>_. ?E) (\<lambda>_. ?E)" for a
      using decide [OF th] by (auto simp: valid_def alerted_in_def)
    then show "valid ?P (seq (read_alert_state (alert_path env)) (disk_alert_decision env threshold used)) (\<lambda>_. ?E) (\<lambda>_. ?E)"
      by (rule valid_seq [OF _ read])
  qed (simp_all add: mailed_def)
  then show ?thesis
    by (cases "disk_alert_run env statfs s"; cases "fst (disk_alert_run env statfs s)") (auto simp: valid_def)
qed

subsection \<open>One mail per crossing\<close>

definition mail_settings_ok :: "environment \<Rightarrow> bool" where
  "mail_settings_ok env \<longleftrightarrow> env ''SMTP_ADDR'' \<noteq> [] \<and> env ''SMTP_FROM'' \<noteq> []
     \<and> \<not> contains_any (env ''SMTP_FROM'' @ env_default env ''SMTP_TO'' ''ivan@aacidov.ru'') crlf
     \<and> returned (split_host_port (env ''SMTP_ADDR''))"

lemma runs_disk_alert:
  assumes "returned (disk_threshold env)" and "returned (disk_used_percent (statfs (env_default env ''DISK_PATH'' ''/'')))"
    and "mail_settings_ok env"
  shows "runs (\<lambda>s. offers_starttls (db s)) (disk_alert_run env statfs) (\<lambda>_ s. offers_starttls (db s))"
proof -
  let ?P = "\<lambda>s :: alert_db conn. offers_starttls (db s)"
  obtain host where mail: "env ''SMTP_ADDR'' \<noteq> []" "env ''SMTP_FROM'' \<noteq> []"
    "\<not> contains_any (env ''SMTP_FROM'' @ env_default env ''SMTP_TO'' ''ivan@aacidov.ru'') crlf" "split_host_port (env ''SMTP_ADDR'') = Inr host"
    using assms(3) by (auto simp: mail_settings_ok_def returned_iff)
  obtain threshold used where r: "disk_threshold env = Inr threshold" "disk_used_percent (statfs (env_default env ''DISK_PATH'' ''/'')) = Inr used"
    using assms(1,2) by (auto simp: returned_iff)
  have read: "runs ?P (read_alert_state path) (\<lambda>_. ?P)" for path
    by (auto simp: runs_def read_alert_state_def seq_def wrapping_def query_def wrap_def undisturbed_def later_def)
  have store: "runs ?P (write_alert_state path a) (\<lambda>_. ?P)" for path a
    by (auto simp: runs_def write_alert_state_def seq_def wrapping_def query_def exec_def write_file_def wrap_def undisturbed_def later_def)
  have skip: "runs ?P (ret ()) (\<lambda>_. ?P)" by (simp add: runs_def)
  note send = runs_seq [OF store runs_send_mail [OF mail]]
  have "runs ?P (disk_alert_decision env threshold used a) (\<lambda>_. ?P)" for a
    unfolding disk_alert_decision_def by (cases "float_less used threshold"; cases a; simp only: if_True if_False simp_thms; rule store skip send)
  then show ?thesis
    unfolding disk_alert_run_def r action_simps by (rule runs_seq [OF _ read])
qed

lemma runs_disk_alerts:
  assumes "\<forall>r \<in> set readings. returned (disk_used_percent (r (env_default env ''DISK_PATH'' ''/'')))"
    and "returned (disk_threshold env)" and "mail_settings_ok env"
  shows "runs (\<lambda>s. offers_starttls (db s)) (each (disk_alert_run env) readings) (\<lambda>_ s. offers_starttls (db s))"
  using assms(1)
proof (induction readings)
  case (Cons r rs)
  then show ?case by (auto intro!: runs_seq runs_disk_alert assms(2,3))
qed (simp add: runs_def)

lemma disk_alert_runs_Inr:
  assumes "each (disk_alert_run env) readings s = (Inr u, s')"
  shows "mail_box (db s') = mail_box (db s) @ crossings env (alerted_in env (db s)) readings"
  using assms
proof (induction readings arbitrary: s)
  case (Cons r rs)
  then obtain t where t: "disk_alert_run env r s = (Inr (), t)" "each (disk_alert_run env) rs t = (Inr u, s')"
    by (auto simp: seq_Inr)
  from Cons.IH [OF t(2)] disk_alert_run_Inr [OF t(1)] show ?case by simp
qed simp

text \<open>
  C37. The disk alert mails once per crossing. Over any sequence of runs that return, the mails sent
  are exactly one for each reading at or above the threshold that follows a reading below it (or a
  state file without an alert). A run in which calls break mails at most once, and only for a
  crossing; and runs in which nothing breaks, with readable disks, a threshold and mail settings that
  are accepted and a server that offers STARTTLS, return.
\<close>

theorem disk_alerts_once_per_crossing:
  "(each (disk_alert_run env) readings s = (Inr u, s') \<longrightarrow>
      mail_box (db s') = mail_box (db s) @ crossings env (alerted_in env (db s)) readings)
   \<and> mailed env r (db t) (db (snd (disk_alert_run env r t)))
   \<and> (undisturbed s \<longrightarrow> returned (disk_threshold env) \<longrightarrow> mail_settings_ok env \<longrightarrow> offers_starttls (db s) \<longrightarrow>
        (\<forall>r \<in> set readings. returned (disk_used_percent (r (env_default env ''DISK_PATH'' ''/'')))) \<longrightarrow>
        returned (fst (each (disk_alert_run env) readings s)))"
  using disk_alert_runs_Inr disk_alert_run_mails runs_disk_alerts [of readings env] by (fastforce simp: runs_def returned_iff)

definition disk_env :: environment where
  "disk_env name = (if name = ''SMTP_ADDR'' then ''mail.linka.su:587'' else if name = ''SMTP_FROM'' then ''metric@linka.su'' else [])"

definition disk_reading :: "64 word \<Rightarrow> string \<Rightarrow> (64 word \<times> 64 word) result" where
  "disk_reading free path = Inr (free, 100)"

definition disk_start :: "alert_db conn" where
  "disk_start = \<lparr>db = \<lparr>alert_files = (\<lambda>_. None), mail_box = [], offers_starttls = True\<rparr>, calls = 0, faults = (\<lambda>_. Served),
     ticks = 0, clock = (\<lambda>_. 0)\<rparr>"

theorem disk_alerts_once_per_crossing_witness:
  "\<exists>s'. each (disk_alert_run disk_env) (map disk_reading [50, 20, 10, 30, 5]) disk_start = (Inr (), s') \<and> length (mail_box (db s')) = 2"
proof -
  let ?rs = "map disk_reading [50, 20, 10, 30, 5]"
  have settings: "returned (disk_threshold disk_env)" "mail_settings_ok disk_env"
    "list_all (\<lambda>r. returned (disk_used_percent (r (env_default disk_env ''DISK_PATH'' ''/'')))) ?rs"
    "map (disk_full disk_env) ?rs = [False, True, True, False, True]"
    by code_simp+
  have start: "undisturbed disk_start" "offers_starttls (db disk_start)" "\<not> alerted_in disk_env (db disk_start)" "mail_box (db disk_start) = []"
    by (simp_all add: undisturbed_def disk_start_def alerted_in_def says_alerted_def)
  note crossing = disk_alerts_once_per_crossing [of disk_env ?rs disk_start "()" _ "disk_reading 10" disk_start]
  from crossing settings(1-3) start(1,2) have "returned (fst (each (disk_alert_run disk_env) ?rs disk_start))"
    unfolding list_all_iff by blast
  then obtain s' where runs: "each (disk_alert_run disk_env) ?rs disk_start = (Inr (), s')"
    by (cases "each (disk_alert_run disk_env) ?rs disk_start") (auto simp: returned_iff)
  with crossing [of s'] settings(4) start(3,4) show ?thesis by auto
qed

subsection \<open>The threshold\<close>

text \<open>
  C30. The check of the threshold lets NaN pass, although the message asks for a number between 0 and
  100: every other accepted value lies strictly between them, and with NaN no reading is ever below
  the threshold.
\<close>

theorem nan_threshold_accepted:
  "(env ''DISK_THRESHOLD_PERCENT'' = ''nan'' \<longrightarrow>
      disk_threshold env = Inr NaN \<and> (returned (disk_used_percent (statfs (env_default env ''DISK_PATH'' ''/''))) \<longrightarrow> disk_full env statfs))
   \<and> (disk_threshold env = Inr x \<and> x \<noteq> NaN \<longrightarrow> float_gt x 0 \<and> float_lt x 100)"
proof (intro conjI impI)
  assume env: "env ''DISK_THRESHOLD_PERCENT'' = ''nan''"
  have "parse_float ''nan'' = Some NaN" "float_is_nan NaN" by code_simp+
  with env show nan: "disk_threshold env = Inr NaN" by (simp add: disk_threshold_def env_default_def)
  have "\<not> float_less y NaN" for y by (cases y) simp_all
  with nan show "disk_full env statfs" if "returned (disk_used_percent (statfs (env_default env ''DISK_PATH'' ''/'')))"
    using that by (auto simp: disk_full_def returned_iff)
next
  assume "disk_threshold env = Inr x \<and> x \<noteq> NaN"
  then show "float_gt x 0" "float_lt x 100"
    by (cases x; auto simp: disk_threshold_def result_simps float_is_nan_def)+
qed

theorem nan_threshold_accepted_witness:
  "disk_full (disk_env(''DISK_THRESHOLD_PERCENT'' := ''nan'')) (disk_reading 100)
   \<and> disk_threshold disk_env = Inr (float_of_int 80) \<and> float_gt (float_of_int 80) 0"
proof -
  have "disk_threshold disk_env = Inr (float_of_int 80)" "float_of_int 80 \<noteq> NaN"
    "returned (disk_used_percent (disk_reading 100 (env_default (disk_env(''DISK_THRESHOLD_PERCENT'' := ''nan'')) ''DISK_PATH'' ''/'')))"
    by code_simp+
  with nan_threshold_accepted [of "disk_env(''DISK_THRESHOLD_PERCENT'' := ''nan'')" "disk_reading 100" "float_of_int 80"]
    nan_threshold_accepted [of disk_env "disk_reading 100" "float_of_int 80"]
  show ?thesis by simp
qed

end
