(* ===== verification/Threads.thy ===== *)
theory Threads
  imports Go_Effects
begin

section \<open>Operations that are interleaved call by call\<close>

text \<open>
  A thread is an operation that can be interrupted between its calls: it has finished with a result,
  or it makes its next call, which yields the rest of the thread. \<open>run_thread\<close> runs it without
  interruption, which makes it an action. \<open>tolerates R G P t Q\<close> is the rely-guarantee triple of a thread
  over the data of a connection: from data with P, whatever R-steps others take between its calls, each
  of its calls is a G-step and it finishes with Q. \<open>survives\<close> is what it says of one thread and one state.
\<close>

datatype ('s, 'a) thread = Finished "'a result" | Atomic "'s \<Rightarrow> ('s, 'a) thread \<times> 's"

primrec run_thread :: "('s, 'a) thread \<Rightarrow> ('s, 'a) action" where
  "run_thread (Finished r) = (\<lambda>s. (r, s))"
| "run_thread (Atomic f) = (\<lambda>s. case (map_prod run_thread id \<circ> f) s of (m, s') \<Rightarrow> m s')"

definition once :: "('s, 'a) action \<Rightarrow> ('s, 'a) thread" where
  "once m = Atomic (\<lambda>s. case m s of (r, s') \<Rightarrow> (Finished r, s'))"

primrec then_do :: "('s, 'a) thread \<Rightarrow> ('a \<Rightarrow> ('s, 'b) thread) \<Rightarrow> ('s, 'b) thread" where
  "then_do (Finished r) k = (case r of Inl e \<Rightarrow> Finished (Inl e) | Inr x \<Rightarrow> k x)"
| "then_do (Atomic f) k = Atomic (map_prod (\<lambda>t. then_do t k) id \<circ> f)"

primrec on_result :: "('a result \<Rightarrow> 'b result) \<Rightarrow> ('s, 'a) thread \<Rightarrow> ('s, 'b) thread" where
  "on_result g (Finished r) = Finished (g r)"
| "on_result g (Atomic f) = Atomic (map_prod (on_result g) id \<circ> f)"

fun each_thread :: "('a \<Rightarrow> ('s, unit) thread) \<Rightarrow> 'a list \<Rightarrow> ('s, unit) thread" where
  "each_thread f [] = Finished (Inr ())"
| "each_thread f (x # xs) = then_do (f x) (\<lambda>_. each_thread f xs)"

lemma thread_induct [case_names Finished Atomic, induct type: thread]:
  assumes "\<And>r. P (Finished r)" and "\<And>f. (\<And>s. P (fst (f s))) \<Longrightarrow> P (Atomic f)"
  shows "P t"
proof (induction t)
  case (Atomic f)
  show ?case by (rule assms(2), rule Atomic) (auto intro: fsts.intros)
qed (rule assms(1))

lemma atomic_simps:
  "run_thread (Atomic f) s = run_thread (fst (f s)) (snd (f s))"
  "then_do (Atomic f) k = Atomic (\<lambda>s. (then_do (fst (f s)) k, snd (f s)))"
  "on_result g (Atomic f) = Atomic (\<lambda>s. (on_result g (fst (f s)), snd (f s)))"
  by (simp_all add: fun_eq_iff map_prod_def split: prod.splits)

declare run_thread.simps(2) [simp del] then_do.simps(2) [simp del] on_result.simps(2) [simp del] atomic_simps [simp]

subsection \<open>Running a thread alone\<close>

named_theorems run_thread_simps

lemma run_once_action [run_thread_simps]: "run_thread (once m) = m"
  by (simp add: once_def fun_eq_iff split: prod.split)

lemma run_finished [run_thread_simps]:
  "run_thread (Finished (Inr x)) = ret x" "run_thread (Finished (Inl e)) = fail e" "run_thread (Finished r) = lift r"
  by (simp_all add: fun_eq_iff ret_def fail_def lift_def)

lemma run_then_do [run_thread_simps]: "run_thread (then_do t k) = seq (run_thread t) (\<lambda>x. run_thread (k x))"
proof (induction t)
  case (Finished r)
  then show ?case by (cases r) (simp_all add: fun_eq_iff seq_def)
next
  case (Atomic f)
  show ?case by (rule ext) (simp add: seq_def Atomic)
qed

lemma run_on_result [run_thread_simps]: "run_thread (on_result g t) = (\<lambda>s. case run_thread t s of (r, s') \<Rightarrow> (g r, s'))"
proof (induction t)
  case (Atomic f)
  show ?case by (rule ext) (simp add: Atomic)
qed simp

lemma run_each [run_thread_simps]: "run_thread (each_thread f xs) = each (\<lambda>x. run_thread (f x)) xs"
  by (induction xs) (simp_all add: run_thread_simps)

lemma run_case [run_thread_simps]:
  "run_thread (if c then t else t') = (if c then run_thread t else run_thread t')"
  "run_thread (case x of None \<Rightarrow> t | Some y \<Rightarrow> f y) = (case x of None \<Rightarrow> run_thread t | Some y \<Rightarrow> run_thread (f y))"
  "run_thread (case p of (y, z) \<Rightarrow> g y z) = (case p of (y, z) \<Rightarrow> run_thread (g y z))"
  "run_thread (case r of Inl e \<Rightarrow> h e | Inr v \<Rightarrow> k v) = (case r of Inl e \<Rightarrow> run_thread (h e) | Inr v \<Rightarrow> run_thread (k v))"
  by (simp_all split: option.split prod.split sum.split)

declare run_thread.simps(1) [simp del]

subsection \<open>Rely and guarantee\<close>

primrec survives :: "('d \<Rightarrow> 'd \<Rightarrow> bool) \<Rightarrow> ('d \<Rightarrow> 'd \<Rightarrow> bool) \<Rightarrow> ('a result \<Rightarrow> 'd \<Rightarrow> bool)
    \<Rightarrow> ('d conn, 'a) thread \<Rightarrow> 'd \<Rightarrow> bool" where
  "survives R G Q (Finished r) = Q r"
| "survives R G Q (Atomic f) = (\<lambda>d. \<forall>s. R d (db s) \<longrightarrow>
     G (db s) (db (snd (f s))) \<and> fst (map_prod (survives R G Q) id (f s)) (db (snd (f s))))"

definition tolerates :: "('d \<Rightarrow> 'd \<Rightarrow> bool) \<Rightarrow> ('d \<Rightarrow> 'd \<Rightarrow> bool) \<Rightarrow> ('d \<Rightarrow> bool) \<Rightarrow> ('d conn, 'a) thread
    \<Rightarrow> ('a result \<Rightarrow> 'd \<Rightarrow> bool) \<Rightarrow> bool" where
  "tolerates R G P t Q \<longleftrightarrow> (\<forall>d. P d \<longrightarrow> survives R G Q t d)"

definition stable :: "('d \<Rightarrow> 'd \<Rightarrow> bool) \<Rightarrow> ('d \<Rightarrow> bool) \<Rightarrow> bool" where
  "stable R P \<longleftrightarrow> (\<forall>d d'. P d \<longrightarrow> R d d' \<longrightarrow> P d')"

lemma survives_atomic:
  "survives R G Q (Atomic f) d \<longleftrightarrow>
     (\<forall>s. R d (db s) \<longrightarrow> G (db s) (db (snd (f s))) \<and> survives R G Q (fst (f s)) (db (snd (f s))))"
  by (simp add: fst_map_prod)

declare survives.simps(2) [simp del] survives_atomic [simp]

lemma survives_rely:
  assumes "\<And>d d' d''. R d d' \<Longrightarrow> R d' d'' \<Longrightarrow> R d d''" and "survives R G (\<lambda>_ _. True) t d" and "R d d'"
  shows "survives R G (\<lambda>_ _. True) t d'"
  using assms(2,3) by (cases t) (auto intro: assms(1))

lemma survives_call:
  assumes "survives R G Q (Atomic f) (db s)" and "R (db s) (db s)" and "f s = (t, s')"
  shows "G (db s) (db s')" "survives R G Q t (db s')"
  using assms by (auto dest!: spec [of _ s])

lemma survives_post: "survives R G Q t d \<Longrightarrow> (\<And>r d. Q r d \<Longrightarrow> Q' r d) \<Longrightarrow> survives R G Q' t d"
  by (induction t arbitrary: d) auto

lemma tolerates_post: "tolerates R G P t Q \<Longrightarrow> (\<And>r d. Q r d \<Longrightarrow> Q' r d) \<Longrightarrow> tolerates R G P t Q'"
  by (auto simp: tolerates_def intro: survives_post)

lemma tolerates_pre: "tolerates R G P t Q \<Longrightarrow> (\<And>d. P' d \<Longrightarrow> P d) \<Longrightarrow> tolerates R G P' t Q"
  by (simp add: tolerates_def)

lemma tolerates_finished: "(\<And>d. P d \<Longrightarrow> Q r d) \<Longrightarrow> tolerates R G P (Finished r) Q"
  by (simp add: tolerates_def)

lemma tolerates_once:
  assumes "stable R P"
    and "\<And>d. P d \<Longrightarrow> valid (\<lambda>s. db s = d) m (\<lambda>x s. G d (db s) \<and> Q (Inr x) (db s)) (\<lambda>e s. G d (db s) \<and> Q (Inl e) (db s))"
  shows "tolerates R G P (once m) Q"
  unfolding tolerates_def once_def survives_atomic
proof (intro allI impI)
  fix d and s :: "'a conn"
  assume "P d" "R d (db s)"
  with assms(1) have P: "P (db s)" by (auto simp: stable_def)
  obtain r s' where m: "m s = (r, s')" by (cases "m s")
  have "G (db s) (db s') \<and> Q r (db s')"
    using validD [OF assms(2) [OF P] refl, of _ s'] validE [OF assms(2) [OF P] refl, of _ s'] m by (cases r) auto
  then show "G (db s) (db (snd (case m s of (r, s') \<Rightarrow> (Finished r, s'))))
      \<and> survives R G Q (fst (case m s of (r, s') \<Rightarrow> (Finished r, s'))) (db (snd (case m s of (r, s') \<Rightarrow> (Finished r, s'))))"
    by (simp add: m)
qed

lemma tolerates_then:
  assumes "tolerates R G P t M" and "\<And>x. tolerates R G (M (Inr x)) (k x) Q" and "\<And>e d. M (Inl e) d \<Longrightarrow> Q (Inl e) d"
  shows "tolerates R G P (then_do t k) Q"
proof -
  have "survives R G M t d \<Longrightarrow> survives R G Q (then_do t k) d" for d
  proof (induction t arbitrary: d)
    case (Finished r)
    with assms(2,3) show ?case by (cases r) (simp_all add: tolerates_def)
  qed simp
  with assms(1) show ?thesis by (simp add: tolerates_def)
qed

lemma tolerates_on_result:
  assumes "tolerates R G P t (\<lambda>r. Q (g r))"
  shows "tolerates R G P (on_result g t) Q"
proof -
  have "survives R G (\<lambda>r. Q (g r)) t d \<Longrightarrow> survives R G Q (on_result g t) d" for d
    by (induction t arbitrary: d) simp_all
  with assms show ?thesis by (simp add: tolerates_def)
qed

lemma tolerates_each:
  assumes "\<And>pre x post. xs = pre @ x # post \<Longrightarrow>
      tolerates R G (P (set pre)) (f x) (\<lambda>r d. case r of Inr _ \<Rightarrow> P (insert x (set pre)) d | Inl e \<Rightarrow> E d)"
  shows "tolerates R G (P {}) (each_thread f xs) (\<lambda>r d. case r of Inr _ \<Rightarrow> P (set xs) d | Inl e \<Rightarrow> E d)"
proof -
  have "xs = pre @ post \<Longrightarrow> tolerates R G (P (set pre)) (each_thread f post)
      (\<lambda>r d. case r of Inr _ \<Rightarrow> P (set xs) d | Inl e \<Rightarrow> E d)" for pre post
  proof (induction post arbitrary: pre)
    case Nil
    then show ?case by (simp add: tolerates_def)
  next
    case (Cons x post)
    from Cons.IH [of "pre @ [x]"] Cons.prems have "tolerates R G (P (insert x (set pre))) (each_thread f post)
        (\<lambda>r d. case r of Inr _ \<Rightarrow> P (set xs) d | Inl e \<Rightarrow> E d)" by simp
    then show ?case
      unfolding each_thread.simps by (intro tolerates_then [OF assms [OF Cons.prems]]) simp_all
  qed
  from this [of "[]"] show ?thesis by simp
qed

declare then_do.simps(1) [simp del]

end
