(* ===== verification/Store_Threads.thy ===== *)
theory Store_Threads
  imports Threads Store_Histories
begin

section \<open>The methods of the store, call by call\<close>

text \<open>
  Each method of the store that makes more than one call to the server, and the worker's RunOnce over
  the store, once more as a thread: the code of the method with its calls apart, so that other processes
  can act between them. Run alone a thread is the method of Store_Privacy, Store_V2 and
  Store_V1_Fundraising (the lemmas \<open>run_..._thread\<close>). A method that makes a single call is one atomic
  action, and so are PrepareBatch, Append and Send, as preparing reads no data.
\<close>

definition wrapping_thread :: "string \<Rightarrow> ('s, 'a) thread \<Rightarrow> ('s, 'a) thread" where
  "wrapping_thread msg t = on_result (wrap msg) t"

definition attempting_thread :: "('s, 'a) thread \<Rightarrow> ('s, 'a result) thread" where
  "attempting_thread t =
     on_result (\<lambda>r. case r of Inl e \<Rightarrow> if e = uuid_panic then Inl e else Inr (Inl e) | Inr x \<Rightarrow> Inr (Inr x)) t"

definition ignoring_thread :: "('s, 'a) thread \<Rightarrow> ('s, unit) thread" where
  "ignoring_thread t = on_result (\<lambda>_. Inr ()) t"

abbreviation returned_thread :: "'a \<Rightarrow> ('s, 'a) thread" where
  "returned_thread x \<equiv> Finished (Inr x)"

abbreviation failed_thread :: "go_error \<Rightarrow> ('s, 'a) thread" where
  "failed_thread e \<equiv> Finished (Inl e)"

lemma run_wrapping [run_thread_simps]:
  "run_thread (wrapping_thread msg t) = wrapping msg (run_thread t)"
  "run_thread (attempting_thread t) = attempting (run_thread t)"
  "run_thread (ignoring_thread t) = ignoring (run_thread t)"
  by (auto simp: wrapping_thread_def attempting_thread_def ignoring_thread_def run_on_result fun_eq_iff
      wrapping_def attempting_def ignoring_def split: prod.splits sum.splits)

subsection \<open>store_v2.go\<close>

definition register_records_thread ::
  "'u store_config \<Rightarrow> validated_batch \<Rightarrow> string \<Rightarrow> time \<Rightarrow> ('u tables conn, unit) thread" where
  "register_records_thread cfg b sha t =
     then_do (Finished (traverse (must_parse cfg) (record_ids b))) (\<lambda>ids.
     then_do (once (wrapping ''query v2 record registry''
       (query (registered_rows (product_id (header_scope (header b))) ids)))) (\<lambda>rows.
     then_do (Finished (must_parse cfg (batch_id (header b)))) (\<lambda>batch.
       if list_ex (\<lambda>(existing_batch, existing_sha). existing_batch \<noteq> batch \<or> existing_sha \<noteq> sha) rows
       then failed_thread ErrDuplicateRecord
       else once (prepare_and_send ''prepare v2 record registry'' ''send v2 record registry''
         (Inr (map (registry_row_of b sha (column_time cfg t) batch) ids)) record_registry_update))))"

definition complete_batch_thread ::
  "'u store_config \<Rightarrow> validated_batch \<Rightarrow> string \<Rightarrow> time \<Rightarrow> ('u tables conn, ingest_result) thread" where
  "complete_batch_thread cfg b sha ingested =
     then_do (register_records_thread cfg b sha ingested) (\<lambda>_.
     then_do (once (insert_stream_v2 cfg b ingested)) (\<lambda>_.
     then_do (once time_now) (\<lambda>t.
       let now_ms = truncate_to t millisecond;
           completed = (if \<not> now_ms > ingested then ingested + millisecond else now_ms)
       in then_do (once (insert_batch_ledger_v2 cfg b sha completed ''completed'')) (\<lambda>_.
            returned_thread \<lparr>result_count = record_count b, result_replayed = False\<rparr>))))"

definition insert_v2_thread ::
  "'u store_config \<Rightarrow> validated_batch \<Rightarrow> string \<Rightarrow> ('u tables conn, ingest_result) thread" where
  "insert_v2_thread cfg b sha =
     (let sc = header_scope (header b) in
      then_do (once (batch_ledger_v2 cfg (product_id sc) (batch_id (header b)))) (\<lambda>found.
        case found of
          Some (existing_sha, status, reserved_at) \<Rightarrow>
            if existing_sha \<noteq> sha then failed_thread ErrIdempotencyConflict
            else if status = ''completed'' then
              returned_thread \<lparr>result_count = record_count b, result_replayed = True\<rparr>
            else if status \<noteq> ''reserved'' then failed_thread (Err ''invalid v2 batch ledger status'')
            else
              then_do (once (is_suppressed sc (product_key b))) (\<lambda>suppressed.
                if suppressed then failed_thread ErrSuppressed else complete_batch_thread cfg b sha reserved_at)
        | None \<Rightarrow>
            then_do (once (is_suppressed sc (product_key b))) (\<lambda>suppressed.
              if suppressed then failed_thread ErrSuppressed
              else
                then_do (once time_now) (\<lambda>t.
                  let ingested = truncate_to t millisecond
                  in then_do (once (insert_batch_ledger_v2 cfg b sha ingested ''reserved'')) (\<lambda>_.
                       complete_batch_thread cfg b sha ingested)))))"

lemma seq_fail_if: "seq (fail_if c e) (\<lambda>_. m) = (if c then fail e else m)"
  by (simp add: fail_if_def)

lemma run_register_records_thread [run_thread_simps]: "run_thread (register_records_thread cfg b sha t) = register_records_v2 cfg b sha t"
  by (simp add: register_records_thread_def register_records_v2_def run_thread_simps seq_fail_if cong: if_cong)

lemma run_complete_batch_thread [run_thread_simps]: "run_thread (complete_batch_thread cfg b sha t) = complete_batch_v2 cfg b sha t"
  by (simp add: complete_batch_thread_def complete_batch_v2_def run_thread_simps Let_def)

lemma run_insert_v2_thread [run_thread_simps]: "run_thread (insert_v2_thread cfg b sha) = insert_v2 cfg b sha"
  by (simp add: insert_v2_thread_def insert_v2_def run_thread_simps Let_def cong: if_cong option.case_cong)

subsection \<open>store.go and store_fundraising.go\<close>

definition insert_v1_thread :: "'u store_config \<Rightarrow> validated_batch_v1 \<Rightarrow> ('u tables conn, unit) thread" where
  "insert_v1_thread cfg b =
     then_do (once (v1_batch_suppressed cfg b)) (\<lambda>suppressed.
       if suppressed then failed_thread ErrSuppressed
       else
         then_do (once time_now) (\<lambda>t.
         then_do (if vb_events b \<noteq> [] then once (insert_events_v1 cfg (vb_events b) t) else returned_thread ()) (\<lambda>_.
         if vb_summaries b \<noteq> [] then once (insert_summaries_v1 cfg (vb_summaries b) t) else returned_thread ())))"

definition complete_fundraising_thread ::
  "'u store_config \<Rightarrow> fr_validated_batch \<Rightarrow> string \<Rightarrow> time \<Rightarrow> ('u tables conn, fr_result) thread" where
  "complete_fundraising_thread cfg b sha ingested =
     then_do (once (insert_fundraising_events cfg b ingested)) (\<lambda>_.
     then_do (once time_now) (\<lambda>t.
       let now_ms = truncate_to t millisecond;
           completed = (if \<not> now_ms > ingested then ingested + millisecond else now_ms)
       in then_do (once (insert_fundraising_ledger cfg b sha completed ''completed'')) (\<lambda>_.
            returned_thread \<lparr>fr_result_count = length (fr_events b), fr_result_replayed = False\<rparr>)))"

definition insert_fundraising_thread ::
  "'u store_config \<Rightarrow> fr_validated_batch \<Rightarrow> string \<Rightarrow> ('u tables conn, fr_result) thread" where
  "insert_fundraising_thread cfg b sha =
     then_do (once (fundraising_ledger_read cfg b)) (\<lambda>found.
       case found of
         Some (existing_sha, status, reserved_at) \<Rightarrow>
           if existing_sha \<noteq> sha then failed_thread FrErrIdempotencyConflict
           else if status = ''completed'' then
             returned_thread \<lparr>fr_result_count = length (fr_events b), fr_result_replayed = True\<rparr>
           else if status \<noteq> ''reserved'' then failed_thread (Err ''invalid fundraising batch ledger status'')
           else complete_fundraising_thread cfg b sha reserved_at
       | None \<Rightarrow>
           then_do (once time_now) (\<lambda>t.
             let ingested = truncate_to t millisecond
             in then_do (once (insert_fundraising_ledger cfg b sha ingested ''reserved'')) (\<lambda>_.
                  complete_fundraising_thread cfg b sha ingested)))"

lemma run_insert_v1_thread [run_thread_simps]: "run_thread (insert_v1_thread cfg b) = insert_v1 cfg b"
  by (simp add: insert_v1_thread_def insert_v1_def run_thread_simps cong: if_cong)

lemma run_complete_fundraising_thread [run_thread_simps]:
  "run_thread (complete_fundraising_thread cfg b sha t) = complete_fundraising cfg b sha t"
  by (simp add: complete_fundraising_thread_def complete_fundraising_def run_thread_simps Let_def)

lemma run_insert_fundraising_thread [run_thread_simps]:
  "run_thread (insert_fundraising_thread cfg b sha) = insert_fundraising cfg b sha"
  by (simp add: insert_fundraising_thread_def insert_fundraising_def run_thread_simps Let_def cong: if_cong option.case_cong)

subsection \<open>store_privacy.go\<close>

definition create_privacy_thread ::
  "'u store_config \<Rightarrow> validated_privacy_request \<Rightarrow> string \<Rightarrow> ('u tables conn, privacy_result) thread" where
  "create_privacy_thread cfg p sha =
     (let q = the_request p; sc = privacy_scope q;
          cols = \<lparr>col_product = product_id sc, col_product_key = Some (privacy_product_key p),
            col_subject_key = Some (subject_key sc), col_person_key = person_key sc, col_org_key = org_key sc\<rparr>
      in
      then_do (once (lookup_request cfg ''query privacy idempotency ledger'' (product_id sc) (request_id q))) (\<lambda>found.
        case found of
          Some (existing_sha, status) \<Rightarrow>
            if existing_sha \<noteq> sha then failed_thread ErrIdempotencyConflict
            else returned_thread \<lparr>privacy_replayed = True, privacy_status = status\<rparr>
        | None \<Rightarrow>
            then_do (once time_now) (\<lambda>t.
            then_do (Finished (must_parse cfg (request_id q))) (\<lambda>rid.
            then_do (once (wrapping ''insert privacy request'' (exec (\<lambda>part. suppressions_update (insert_rows
              [pending_row cfg cols (privacy_action q) sha (requested_at_time p) t rid None] part))))) (\<lambda>_.
            returned_thread \<lparr>privacy_replayed = False, privacy_status = ''pending''\<rparr>)))))"

definition create_legacy_privacy_thread ::
  "'u store_config \<Rightarrow> validated_privacy_v1 \<Rightarrow> string \<Rightarrow> ('u tables conn, privacy_result) thread" where
  "create_legacy_privacy_thread cfg p sha =
     (let q = vp_request p in
      then_do (once (lookup_request cfg ''query V1 privacy idempotency ledger'' LinkaPlays (pv_request_id q))) (\<lambda>found.
        case found of
          Some (existing_sha, status) \<Rightarrow>
            if existing_sha \<noteq> sha then failed_thread ErrIdempotencyConflict
            else returned_thread \<lparr>privacy_replayed = True, privacy_status = status\<rparr>
        | None \<Rightarrow>
            then_do (once time_now) (\<lambda>t.
            then_do (Finished (must_parse cfg (pv_request_id q))) (\<lambda>rid.
            then_do (Finished (must_parse cfg (pv_installation_id q))) (\<lambda>inst.
            then_do (once (wrapping ''insert V1 privacy request'' (exec (\<lambda>part. suppressions_update (insert_rows
              [pending_row cfg (legacy_columns (pv_installation_id q)) ''delete'' sha (vp_requested_at p) t rid (Some inst)]
              part))))) (\<lambda>_.
            returned_thread \<lparr>privacy_replayed = False, privacy_status = ''pending''\<rparr>))))))"

definition claim_thread :: "'u store_config \<Rightarrow> privacy_work \<Rightarrow> ('u tables conn, bool) thread" where
  "claim_thread cfg q =
     then_do (Finished (must_parse cfg (pq_request_id q))) (\<lambda>rid.
     then_do (wrapping_thread ''query privacy request before claim''
       (then_do (once (query (privacy_request_row (product_id (pq_scope q)) rid))) (\<lambda>found.
        Finished (from_option no_rows_error found)))) (\<lambda>r.
     then_do (once time_now) (\<lambda>t.
       if \<not> claimable t r then returned_thread False
       else
         then_do (once (insert_privacy_status cfg (q\<lparr>pq_attempts := sr_attempts r\<rparr>) ''processing'' None
           (sr_attempts r + 1) t (Some (t + 5 * minute)))) (\<lambda>_.
         returned_thread True))))"

definition delete_table_thread :: "'u store_config \<Rightarrow> privacy_work \<Rightarrow> string \<Rightarrow> ('u tables conn, unit) thread" where
  "delete_table_thread cfg q tab =
     then_do (once time_now) (\<lambda>t.
     then_do (once (deletion_progress_of cfg q tab)) (\<lambda>(status, attempts).
       if status = ''completed'' then returned_thread ()
       else
         then_do (once (insert_deletion_progress cfg q tab ''processing'' (attempts + 1) t (Some (t + 5 * minute)) None None)) (\<lambda>_.
         then_do (attempting_thread (once (delete_rows_of cfg q tab))) (\<lambda>outcome.
           case outcome of
             Inl e \<Rightarrow>
               then_do (ignoring_thread (once (insert_deletion_progress cfg q tab ''retry'' (attempts + 1)
                 (t + privacy_retry_delay (attempts + 1)) None (Some ''mutation_failed'') None))) (\<lambda>_.
               failed_thread (Wrapped ((if pq_legacy q \<noteq> None then ''delete V1 privacy scope from '' else ''delete privacy scope from '')
                 @ tab) e))
           | Inr _ \<Rightarrow>
               once (insert_deletion_progress cfg q tab ''completed'' (attempts + 1) t None None (Some t))))))"

definition delete_request_thread :: "'u store_config \<Rightarrow> privacy_work \<Rightarrow> ('u tables conn, unit) thread" where
  "delete_request_thread cfg q = each_thread (delete_table_thread cfg q) (deletion_tables q)"

lemma run_create_privacy_thread [run_thread_simps]: "run_thread (create_privacy_thread cfg p sha) = create_privacy_request cfg p sha"
  by (simp add: create_privacy_thread_def create_privacy_request_def run_thread_simps Let_def cong: if_cong option.case_cong)

lemma run_create_legacy_privacy_thread [run_thread_simps]:
  "run_thread (create_legacy_privacy_thread cfg p sha) = create_legacy_privacy_request cfg p sha"
  by (simp add: create_legacy_privacy_thread_def create_legacy_privacy_request_def run_thread_simps Let_def
      cong: if_cong option.case_cong)

lemma run_claim_thread [run_thread_simps]: "run_thread (claim_thread cfg q) = claim_privacy_request cfg q"
  by (simp add: claim_thread_def claim_privacy_request_def run_thread_simps cong: if_cong)

lemma run_delete_table_thread [run_thread_simps]: "run_thread (delete_table_thread cfg q tab) = delete_telemetry_table cfg q tab"
  by (simp add: delete_table_thread_def delete_telemetry_table_def run_thread_simps cong: if_cong sum.case_cong prod.case_cong)

lemma run_delete_request_thread [run_thread_simps]: "run_thread (delete_request_thread cfg q) = delete_telemetry_request cfg q"
  by (simp add: delete_request_thread_def delete_telemetry_request_def run_thread_simps)

subsection \<open>worker.go over the store\<close>

definition perform_thread :: "'u store_config \<Rightarrow> privacy_work \<Rightarrow> ('u tables conn, unit) thread" where
  "perform_thread cfg q =
     (if pq_action q = PrivacyOptOut then returned_thread ()
      else if pq_action q = PrivacyDelete then delete_request_thread cfg q
      else failed_thread (Err ''unsupported privacy action''))"

definition handle_thread ::
  "'u store_config \<Rightarrow> int \<Rightarrow> privacy_work \<Rightarrow> ('u tables conn, go_error list) thread" where
  "handle_thread cfg max_attempts listed_q =
     then_do (attempting_thread (claim_thread cfg listed_q)) (\<lambda>claim.
     case claim of
       Inl e \<Rightarrow> returned_thread [Wrapped (''claim privacy request '' @ pq_request_id listed_q) e]
     | Inr claimed \<Rightarrow>
         if \<not> claimed then returned_thread []
         else
           let q = listed_q\<lparr>pq_attempts := pq_attempts listed_q + 1\<rparr>; name = ''privacy request '' @ pq_request_id q
           in
           then_do (attempting_thread (perform_thread cfg q)) (\<lambda>outcome.
           case outcome of
             Inl e \<Rightarrow>
               then_do (attempting_thread (once (retry_privacy_request cfg q ''processing_failed'' max_attempts))) (\<lambda>mark.
               case mark of
                 Inl mark_err \<Rightarrow>
                   returned_thread [Wrapped (name @ '' failed: '' @ error_text e @ ''; persist failure'') mark_err]
               | Inr _ \<Rightarrow> returned_thread [Wrapped (name @ '' failed'') e])
           | Inr _ \<Rightarrow>
               then_do (attempting_thread (once (complete_privacy_request cfg q))) (\<lambda>mark.
               case mark of
                 Inl e \<Rightarrow> returned_thread [Wrapped (''complete '' @ name) e]
               | Inr _ \<Rightarrow> returned_thread [])))"

fun handle_all_thread ::
  "'u store_config \<Rightarrow> int \<Rightarrow> privacy_work list \<Rightarrow> ('u tables conn, go_error list) thread" where
  "handle_all_thread cfg max_attempts [] = returned_thread []"
| "handle_all_thread cfg max_attempts (q # qs) =
     then_do (handle_thread cfg max_attempts q) (\<lambda>es.
     then_do (handle_all_thread cfg max_attempts qs) (\<lambda>es'. returned_thread (es @ es')))"

definition run_once_thread :: "'u store_config \<Rightarrow> worker_limits \<Rightarrow> ('u tables conn, unit) thread" where
  "run_once_thread cfg w =
     then_do (once (wrapping ''list privacy requests'' (pending_privacy_requests cfg (nat (worker_limit w))))) (\<lambda>qs.
     then_do (handle_all_thread cfg (worker_max_attempts w) qs) (\<lambda>failures.
       if failures = [] then returned_thread () else failed_thread (Err (join_lines (map error_text failures)))))"

lemma store_backend_simps:
  "list_pending (store_backend cfg) = pending_privacy_requests cfg" "claim_request (store_backend cfg) = claim_privacy_request cfg"
  "complete_request (store_backend cfg) = complete_privacy_request cfg" "retry_request (store_backend cfg) = retry_privacy_request cfg"
  "delete_telemetry (store_backend cfg) = delete_telemetry_request cfg"
  by (simp_all add: store_backend_def)

lemma run_perform_thread [run_thread_simps]:
  "run_thread (perform_thread cfg q) = perform_request (store_backend cfg) q"
  by (simp add: perform_thread_def perform_request_def run_thread_simps store_backend_simps cong: if_cong)

lemma run_handle_thread [run_thread_simps]:
  "run_thread (handle_thread cfg n q) = handle_request (store_backend cfg) n q"
  by (simp add: handle_thread_def handle_request_def Let_def run_thread_simps store_backend_simps cong: sum.case_cong if_cong)

lemma run_handle_all_thread [run_thread_simps]:
  "run_thread (handle_all_thread cfg n qs) = handle_requests (store_backend cfg) n qs"
  by (induction qs) (simp_all add: run_thread_simps)

theorem run_once_thread_alone: "run_thread (run_once_thread cfg w) = run_once (store_backend cfg) w"
  unfolding run_once_thread_def run_once_def run_thread_simps action_simps by (simp add: store_backend_simps)

end
