(* ===== verification/Store_Interference.thy ===== *)
theory Store_Interference
  imports Store_Threads
begin

section \<open>What the processes do to each other\<close>

text \<open>
  The mutexes of the store are local to a process: the writer's inserts and new requests exclude
  each other, the worker is another process and acts between any two calls of the writer.
  \<open>undisturbed_by locks d d'\<close> is what a process that holds the mutexes \<open>locks\<close> can rely on while others act,
  and what it grants to the holders of \<open>locks\<close>: always that the invariant stays, requests and progress stay
  and what is erased for a request stays erased; under v1Mu that no installation is newly named, under
  v2Mu that no request is new and that rows of the ledger and the registry go only by a request that
  names them.
\<close>

datatype mutex = V1Mutex | V2Mutex | FundraisingMutex

definition steady :: "'u store_config \<Rightarrow> (string \<Rightarrow> validated_batch) \<Rightarrow> 'u tables \<Rightarrow> 'u tables \<Rightarrow> bool" where
  "steady cfg content d d' \<longleftrightarrow> (erasure_inv cfg content d \<longrightarrow>
     erasure_inv cfg content d' \<and> set (suppressions d) \<subseteq> set (suppressions d')
     \<and> set (deletion_progress d) \<subseteq> set (deletion_progress d')
     \<and> (\<forall>q tab. known_work cfg q d \<longrightarrow> erased_from cfg q tab d \<longrightarrow> erased_from cfg q tab d'))"

definition same_request :: "'u suppression_row \<Rightarrow> 'u suppression_row \<Rightarrow> bool" where
  "same_request r r' \<longleftrightarrow> sr_request_id r = sr_request_id r' \<and> scope_columns.truncate r = scope_columns.truncate r'
     \<and> sr_legacy_installation r = sr_legacy_installation r'"

definition no_new_installation :: "'u tables \<Rightarrow> 'u tables \<Rightarrow> bool" where
  "no_new_installation d d' \<longleftrightarrow> (\<forall>r \<in> set (suppressions d'). sr_legacy_installation r \<noteq> None \<longrightarrow>
     (\<exists>r' \<in> set (suppressions d). same_request r r'))"

definition no_new_request :: "'u tables \<Rightarrow> 'u tables \<Rightarrow> bool" where
  "no_new_request d d' \<longleftrightarrow> (\<forall>r \<in> set (suppressions d'). \<exists>r' \<in> set (suppressions d). same_request r r')"

definition deletes_named :: "'u store_config \<Rightarrow> 'u tables \<Rightarrow> 'u tables \<Rightarrow> bool" where
  "deletes_named cfg d d' \<longleftrightarrow>
     (\<forall>l \<in> set (ingest_batches d) - set (ingest_batches d'). \<exists>q. known_work cfg q d' \<and> work_match q l)
     \<and> (\<forall>g \<in> set (record_registry d) - set (record_registry d'). \<exists>q. known_work cfg q d' \<and> work_match q g)"

definition undisturbed_by ::
  "'u store_config \<Rightarrow> (string \<Rightarrow> validated_batch) \<Rightarrow> mutex set \<Rightarrow> 'u tables \<Rightarrow> 'u tables \<Rightarrow> bool" where
  "undisturbed_by cfg content locks d d' \<longleftrightarrow> steady cfg content d d' \<and> (erasure_inv cfg content d \<longrightarrow>
     (V1Mutex \<in> locks \<longrightarrow> no_new_installation d d')
     \<and> (V2Mutex \<in> locks \<longrightarrow> no_new_request d d' \<and> deletes_named cfg d d'))"

lemma same_request_trans: "same_request r r' \<Longrightarrow> same_request r' r'' \<Longrightarrow> same_request r r''"
  by (simp add: same_request_def)

lemma no_new_trans:
  "no_new_installation d d' \<Longrightarrow> no_new_installation d' d'' \<Longrightarrow> no_new_installation d d''"
  "no_new_request d d' \<Longrightarrow> no_new_request d' d'' \<Longrightarrow> no_new_request d d''"
proof -
  show "no_new_installation d d''" if a: "no_new_installation d d'" and b: "no_new_installation d' d''"
    unfolding no_new_installation_def
  proof (intro ballI impI)
    fix r assume "r \<in> set (suppressions d'')" "sr_legacy_installation r \<noteq> None"
    with b obtain r' where r': "r' \<in> set (suppressions d')" "same_request r r'" "sr_legacy_installation r' \<noteq> None"
      by (auto simp: no_new_installation_def same_request_def)
    with a obtain r0 where "r0 \<in> set (suppressions d)" "same_request r' r0" by (auto simp: no_new_installation_def)
    with r'(2) show "\<exists>r0 \<in> set (suppressions d). same_request r r0" by (blast intro: same_request_trans)
  qed
  show "no_new_request d d''" if "no_new_request d d'" "no_new_request d' d''"
    using that unfolding no_new_request_def by (blast intro: same_request_trans)
qed

lemma undisturbed_refl: "undisturbed_by cfg content locks d d"
  by (auto simp: undisturbed_by_def steady_def no_new_installation_def no_new_request_def deletes_named_def
      same_request_def)

lemma undisturbed_subset:
  "undisturbed_by cfg content locks d d' \<Longrightarrow> locks' \<subseteq> locks \<Longrightarrow> undisturbed_by cfg content locks' d d'"
  by (auto simp: undisturbed_by_def)

lemma undisturbed_inv: "undisturbed_by cfg content locks d d' \<Longrightarrow> erasure_inv cfg content d \<Longrightarrow> erasure_inv cfg content d'"
  by (simp add: undisturbed_by_def steady_def)

lemma undisturbed_facts:
  assumes "undisturbed_by cfg content locks d d'" and "erasure_inv cfg content d"
  shows "erasure_inv cfg content d'" "set (suppressions d) \<subseteq> set (suppressions d')"
    "known_work cfg q d \<Longrightarrow> known_work cfg q d'"
    "known_work cfg q d \<Longrightarrow> erased_from cfg q tab d \<Longrightarrow> erased_from cfg q tab d'"
    "done_tables cfg q D d \<Longrightarrow> done_tables cfg q D d'"
proof -
  show "erasure_inv cfg content d'" "set (suppressions d) \<subseteq> set (suppressions d')"
    "known_work cfg q d \<Longrightarrow> erased_from cfg q tab d \<Longrightarrow> erased_from cfg q tab d'"
    using assms unfolding undisturbed_by_def steady_def by blast+
  then show "known_work cfg q d \<Longrightarrow> known_work cfg q d'" by (blast intro: known_work_mono)
  show "done_tables cfg q D d \<Longrightarrow> done_tables cfg q D d'"
    using assms unfolding undisturbed_by_def steady_def done_tables_def table_done_def by blast
qed

lemma undisturbed_trans:
  assumes "undisturbed_by cfg content locks d d'" and "undisturbed_by cfg content locks d' d''"
  shows "undisturbed_by cfg content locks d d''"
proof (cases "erasure_inv cfg content d")
  case False
  then show ?thesis by (simp add: undisturbed_by_def steady_def)
next
  case True
  note f = undisturbed_facts [OF assms(1) True]
  note g = undisturbed_facts [OF assms(2) f(1)]
  have prog: "set (deletion_progress d) \<subseteq> set (deletion_progress d'')"
    using assms True f(1) unfolding undisturbed_by_def steady_def by blast
  then have "steady cfg content d d''"
    unfolding steady_def using g(1) order_trans [OF f(2) g(2)] g(4) [OF f(3) f(4)] by simp
  moreover have "no_new_installation d d''" if "V1Mutex \<in> locks"
    by (rule no_new_trans(1) [of d d']) (use assms True f(1) that in \<open>simp_all add: undisturbed_by_def\<close>)
  moreover have "no_new_request d d'' \<and> deletes_named cfg d d''" if "V2Mutex \<in> locks"
  proof
    from assms True f(1) that have n: "no_new_request d d'" "no_new_request d' d''"
      and k: "deletes_named cfg d d'" "deletes_named cfg d' d''" by (simp_all add: undisturbed_by_def)
    from n show "no_new_request d d''" by (rule no_new_trans(2))
    from k g(3) show "deletes_named cfg d d''" unfolding deletes_named_def by blast
  qed
  ultimately show ?thesis by (simp add: undisturbed_by_def)
qed

subsection \<open>What a check for suppression established stays so\<close>

lemma newest_exists:
  "x \<in> set rows \<Longrightarrow> \<exists>r. newest key ver rows (key x) = Some r"
  using newest_None [of key ver rows "key x"] by blast

lemma requests_agree:
  assumes ok: "requests_ok cfg d" and "uuid_round_trip (uuids cfg)"
    and r: "r \<in> set (suppressions d)" "r' \<in> set (suppressions d)" "suppression_key r = suppression_key r'"
  shows "same_request r r'"
proof -
  from ok r(1,2) have rok: "request_ok cfg r" "request_ok cfg r'" by (auto simp: requests_ok_def)
  from scan_request_ok [OF rok(1)] scan_request_ok [OF rok(2)] obtain q q'
    where q: "scan_request cfg r = Inr q" "scan_request cfg r' = Inr q'" by blast
  with ok r have eq: "q' = q\<lparr>pq_attempts := pq_attempts q'\<rparr>" unfolding requests_ok_def by blast
  note f = scan_request_fields [OF q(1) rok(1)] and g = scan_request_fields [OF q(2) rok(2)]
  have "work_columns q' = work_columns q" "pq_legacy q' = pq_legacy q" by (subst eq, simp)+
  with f(1,5) g(1,5) have "scope_columns.truncate r = scope_columns.truncate r'"
    "map_option (uuid_string (uuids cfg)) (sr_legacy_installation r) = map_option (uuid_string (uuids cfg)) (sr_legacy_installation r')"
    by simp_all
  moreover have "inj (uuid_string (uuids cfg))"
    using assms(2) by (auto simp: uuid_round_trip_def inj_def) (metis option.inject)
  ultimately show ?thesis
    using r(3) by (simp add: same_request_def suppression_key_def option.inj_map [THEN inj_eq])
qed

lemma scope_match_truncate: "scope_match p pkey s person org x \<longleftrightarrow> scope_match p pkey s person org (scope_columns.truncate x)"
  by (cases x) (simp add: scope_match_def scope_columns.defs)

lemma suppressed_v2_any:
  assumes ok: "requests_ok cfg d" and lib: "uuid_round_trip (uuids cfg)"
  shows "suppressed_v2 sc pkey d \<longleftrightarrow> (\<exists>r \<in> set (suppressions d).
    scope_match (product_id sc) pkey (subject_key sc) (person_key sc) (org_key sc) r)"
proof
  assume "suppressed_v2 sc pkey d"
  then show "\<exists>r \<in> set (suppressions d). scope_match (product_id sc) pkey (subject_key sc) (person_key sc) (org_key sc) r"
    using final_rows_subset by (fastforce simp: suppressed_v2_def list_ex_iff)
next
  assume "\<exists>r \<in> set (suppressions d). scope_match (product_id sc) pkey (subject_key sc) (person_key sc) (org_key sc) r"
  then obtain r where r: "r \<in> set (suppressions d)" "scope_match (product_id sc) pkey (subject_key sc) (person_key sc) (org_key sc) r"
    by blast
  from newest_exists [OF r(1), of suppression_key sr_updated_at] obtain r' where
    r': "newest suppression_key sr_updated_at (suppressions d) (suppression_key r) = Some r'" by blast
  from newest_Some [OF r'] have s: "r' \<in> set (suppressions d)" "suppression_key r' = suppression_key r" by auto
  from requests_agree [OF ok lib s(1) r(1) s(2)] have "scope_columns.truncate r' = scope_columns.truncate r"
    by (simp add: same_request_def)
  with r(2) scope_match_truncate have "scope_match (product_id sc) pkey (subject_key sc) (person_key sc) (org_key sc) r'" by metis
  moreover from ok s(1) have "sr_active r'" by (simp add: requests_ok_def request_ok_def)
  moreover have "r' \<in> set (final_rows (\<lambda>r. (col_product r, sr_request_id r)) sr_updated_at (suppressions d))"
    by (rule newest_final) (simp add: r' s(2))
  ultimately show "suppressed_v2 sc pkey d" by (auto simp: suppressed_v2_def list_ex_iff)
qed

lemma suppressed_installation_any:
  assumes ok: "requests_ok cfg d" and lib: "uuid_round_trip (uuids cfg)"
  shows "suppressed_installation ids d \<longleftrightarrow> (\<exists>r \<in> set (suppressions d). \<exists>i \<in> set ids. sr_legacy_installation r = Some i)"
proof
  assume "suppressed_installation ids d"
  then show "\<exists>r \<in> set (suppressions d). \<exists>i \<in> set ids. sr_legacy_installation r = Some i"
    using final_rows_subset by (fastforce simp: suppressed_installation_def list_ex_iff split: option.splits)
next
  assume "\<exists>r \<in> set (suppressions d). \<exists>i \<in> set ids. sr_legacy_installation r = Some i"
  then obtain r i where r: "r \<in> set (suppressions d)" "i \<in> set ids" "sr_legacy_installation r = Some i" by blast
  from newest_exists [OF r(1), of suppression_key sr_updated_at] obtain r' where
    r': "newest suppression_key sr_updated_at (suppressions d) (suppression_key r) = Some r'" by blast
  from newest_Some [OF r'] have s: "r' \<in> set (suppressions d)" "suppression_key r' = suppression_key r" by auto
  from requests_agree [OF ok lib s(1) r(1) s(2)] r(3) have "sr_legacy_installation r' = Some i" by (simp add: same_request_def)
  moreover from ok s(1) have "sr_active r'" by (simp add: requests_ok_def request_ok_def)
  moreover have "r' \<in> set (final_rows (\<lambda>r. (col_product r, sr_request_id r)) sr_updated_at (suppressions d))"
    by (rule newest_final) (simp add: r' s(2))
  ultimately show "suppressed_installation ids d" using r(2) by (auto simp: suppressed_installation_def list_ex_iff)
qed

lemma stays_unsuppressed:
  assumes good: "good_driver cfg" and u: "undisturbed_by cfg content locks d d'" and inv: "erasure_inv cfg content d"
  shows "V2Mutex \<in> locks \<Longrightarrow> \<not> suppressed_v2 sc pkey d \<Longrightarrow> \<not> suppressed_v2 sc pkey d'"
    and "V1Mutex \<in> locks \<Longrightarrow> \<not> suppressed_installation ids d \<Longrightarrow> \<not> suppressed_installation ids d'"
    and "suppressed_v2 sc pkey d \<Longrightarrow> suppressed_v2 sc pkey d'"
proof -
  from good have lib: "uuid_round_trip (uuids cfg)" by (simp add: good_driver_def)
  note f = undisturbed_facts(1,2) [OF u inv]
  from inv f(1) have ok: "requests_ok cfg d" "requests_ok cfg d'" by (simp_all add: erasure_inv_def)
  note any = suppressed_v2_any [OF ok(1) lib] suppressed_v2_any [OF ok(2) lib]
    suppressed_installation_any [OF ok(1) lib] suppressed_installation_any [OF ok(2) lib]
  show "\<not> suppressed_v2 sc pkey d'" if "V2Mutex \<in> locks" "\<not> suppressed_v2 sc pkey d"
  proof -
    from u inv that(1) have "no_new_request d d'" by (simp add: undisturbed_by_def)
    with that(2) show ?thesis
      unfolding any no_new_request_def same_request_def by (metis scope_match_truncate)
  qed
  show "\<not> suppressed_installation ids d'" if "V1Mutex \<in> locks" "\<not> suppressed_installation ids d"
  proof -
    from u inv that(1) have "no_new_installation d d'" by (simp add: undisturbed_by_def)
    with that(2) show ?thesis
      unfolding any no_new_installation_def same_request_def by (metis option.distinct(1))
  qed
  show "suppressed_v2 sc pkey d'" if "suppressed_v2 sc pkey d"
    using that f(2) unfolding any by blast
qed

end
