(* ===== verification/Store_Guarantees.thy ===== *)
theory Store_Guarantees
  imports Store_Interference
begin

section \<open>What each call grants the other processes\<close>

text \<open>
  One lemma for each call that writes: what the process knows when it makes the call (that the request
  is one it was listed, that the scope is not suppressed, that the batch is reserved or registered) is
  enough for the call to leave the others undisturbed, and it establishes what the process needs next.
\<close>

abbreviation grants :: "'u store_config \<Rightarrow> (string \<Rightarrow> validated_batch) \<Rightarrow> mutex set \<Rightarrow> 'u tables
    \<Rightarrow> ('u, 'a) store_action \<Rightarrow> ('a \<Rightarrow> 'u tables \<Rightarrow> bool) \<Rightarrow> bool" where
  "grants cfg content locks d m Q \<equiv>
     valid (\<lambda>s. db s = d) m (\<lambda>x s. undisturbed_by cfg content locks d (db s) \<and> Q x (db s))
       (\<lambda>_ s. undisturbed_by cfg content locks d (db s))"

subsection \<open>Requests\<close>

lemma more_suppressions:
  assumes inv: "erasure_inv cfg content (suppressions_update (insert_rows [x] part) d)"
    and "V1Mutex \<in> locks \<Longrightarrow> sr_legacy_installation x \<noteq> None \<Longrightarrow> \<exists>r \<in> set (suppressions d). same_request x r"
    and "V2Mutex \<in> locks \<Longrightarrow> \<exists>r \<in> set (suppressions d). same_request x r"
  shows "undisturbed_by cfg content locks d (suppressions_update (insert_rows [x] part) d)"
proof -
  let ?d = "suppressions_update (insert_rows [x] part) d"
  have new: "set (suppressions ?d) \<subseteq> insert x (set (suppressions d))"
    using insert_rows_set [of "[x]" part "suppressions d"] by simp
  have refl: "same_request r r" for r :: "'a suppression_row" by (simp add: same_request_def)
  have "no_new_installation d ?d" if "V1Mutex \<in> locks"
    using new assms(2) [OF that] refl unfolding no_new_installation_def by blast
  moreover have "no_new_request d ?d" if "V2Mutex \<in> locks"
    using new assms(3) [OF that] refl unfolding no_new_request_def by blast
  ultimately show ?thesis
    using inv by (simp add: undisturbed_by_def steady_def deletes_named_def insert_rows_keeps)
qed

lemma grants_status:
  assumes good: "good_driver cfg" and inv: "erasure_inv cfg content d" and q: "known_work cfg q d" and st: "status \<noteq> ''pending''"
    and fin: "status = ''completed'' \<Longrightarrow> pq_action q = PrivacyDelete \<Longrightarrow> progress_done cfg q d"
  shows "grants cfg content locks d (insert_privacy_status cfg q status failure att available lease) (\<lambda>_ _. True)"
  unfolding insert_privacy_status_def
proof (intro valid_seq_lift valid_wrapping valid_pre [OF valid_exec], goal_cases)
  case (1 rid legacy s)
  from good have lib: "uuid_round_trip (uuids cfg)" by (simp add: good_driver_def)
  from inv have ok: "requests_ok cfg d" by (simp add: erasure_inv_def)
  obtain r where r: "r \<in> set (suppressions d)" "request_ok cfg r"
      "scan_request cfg r = Inr (q\<lparr>pq_attempts := sr_attempts r\<rparr>)" "rid = sr_request_id r" "legacy = sr_legacy_installation r"
    by (rule known_row [OF lib ok q]) (metis 1(1,2) sum.inject(2))
  let ?x = "status_row cfg q status failure att available lease rid legacy"
  have "scope_columns.truncate ?x = scope_columns.truncate r"
    using scan_request_fields(1) [OF r(3,2)]
    by (simp add: status_row_def scope_columns.defs suppression_row.defs)
  then have "same_request ?x r"
    using r(4,5) by (simp add: same_request_def status_row_def scope_columns.defs suppression_row.defs)
  with r(1) have "\<exists>r \<in> set (suppressions d). same_request ?x r" by blast
  then have "undisturbed_by cfg content locks d (suppressions_update (insert_rows [?x] part) d)" for part
    by (intro more_suppressions add_status [OF lib inv r(1-3) st fin, folded r(4,5)])
  with 1 show ?case by simp
qed (simp_all add: undisturbed_refl)

lemma grants_pending:
  assumes good: "good_driver cfg" and inv: "erasure_inv cfg content d"
    and fresh: "privacy_request_row (col_product cols) rid d = None"
    and cols: "col_product_key cols \<noteq> None" "col_subject_key cols \<noteq> None"
    and locks: "V2Mutex \<notin> locks" "legacy \<noteq> None \<Longrightarrow> V1Mutex \<notin> locks"
  shows "grants cfg content locks d (wrapping msg (exec (\<lambda>part. suppressions_update (insert_rows
      [pending_row cfg cols action sha requested t rid legacy] part)))) (\<lambda>_ _. True)"
proof -
  let ?x = "pending_row cfg cols action sha requested t rid legacy"
  from good have ms: "ordered_driver cfg" by (simp add: good_driver_def)
  from inv have "safe cfg content {} d" by (simp add: safe_def)
  from add_pending [OF ms this fresh cols] have "erasure_inv cfg content (suppressions_update (insert_rows [?x] part) d)" for part
    by (simp add: safe_def)
  then have "undisturbed_by cfg content locks d (suppressions_update (insert_rows [?x] part) d)" for part
    by (rule more_suppressions)
      (use locks in \<open>auto simp: pending_row_def scope_columns.defs suppression_row.defs\<close>)
  then show ?thesis by (intro valid_wrapping valid_pre [OF valid_exec]) simp
qed

subsection \<open>Deletions\<close>

lemma same_suppressions:
  assumes "erasure_inv cfg content d'" and "suppressions d' = suppressions d"
    and "set (deletion_progress d) \<subseteq> set (deletion_progress d')"
    and "\<And>q tab. known_work cfg q d \<Longrightarrow> erased_from cfg q tab d \<Longrightarrow> erased_from cfg q tab d'"
    and "deletes_named cfg d d'"
  shows "undisturbed_by cfg content locks d d'"
  using assms
  by (auto simp: undisturbed_by_def steady_def no_new_installation_def no_new_request_def same_request_def)

lemma grants_progress:
  assumes inv: "erasure_inv cfg content d" and q: "known_work cfg q d" and done_: "done_tables cfg q D d"
  shows "status \<noteq> ''completed'' \<Longrightarrow> grants cfg content locks d
      (insert_deletion_progress cfg q tab status att available lease err completed) (\<lambda>_ d'. True)"
    and "erased_from cfg q tab d \<Longrightarrow> grants cfg content locks d
      (insert_deletion_progress cfg q tab ''completed'' att available lease err completed) (\<lambda>_ d'. done_tables cfg q (insert tab D) d')"
proof -
  let ?S = "set (suppressions d)"
  from inv q have safe: "safe cfg content ?S d" and k: "known_in cfg q ?S" by (simp_all add: safe_def known_in_work)
  let ?upd = "\<lambda>rid status part. deletion_progress_update (insert_rows
      [progress_row_of cfg q tab status att available lease err completed rid] part)"
  have un: "undisturbed_by cfg content locks d (?upd rid status part d)"
    if "must_parse cfg (pq_request_id q) = Inr rid" "status = ''completed'' \<Longrightarrow> erased_from cfg q tab d" for rid part status
    by (rule same_suppressions) (use add_progress(1) [OF safe k that] in \<open>simp_all add: safe_def insert_rows_keeps deletes_named_def\<close>)
  show "grants cfg content locks d (insert_deletion_progress cfg q tab status att available lease err completed) (\<lambda>_ d'. True)"
    if "status \<noteq> ''completed''"
    unfolding insert_deletion_progress_def
  proof (intro valid_seq_lift valid_wrapping valid_pre [OF valid_exec], goal_cases)
    case (1 rid s)
    have "undisturbed_by cfg content locks d (?upd rid status part d)" for part by (rule un [OF 1(1)]) (use that in simp)
    with 1(2) show ?case by simp
  qed (simp add: undisturbed_refl)
  show "grants cfg content locks d (insert_deletion_progress cfg q tab ''completed'' att available lease err completed)
      (\<lambda>_ d'. done_tables cfg q (insert tab D) d')" if e: "erased_from cfg q tab d"
    unfolding insert_deletion_progress_def
  proof (intro valid_seq_lift valid_wrapping valid_pre [OF valid_exec], goal_cases)
    case (1 rid s)
    have "done_tables cfg q (insert tab D) (?upd rid ''completed'' None d)"
      using add_progress(2,3) [OF safe k 1(1) e] done_ by (simp add: done_tables_def)
    with 1 un e show ?case by simp
  qed (simp add: undisturbed_refl)
qed

lemma deletes_named_shrunk:
  assumes "known_work cfg q d'"
    and "\<And>l. l \<in> set (ingest_batches d) \<Longrightarrow> \<not> work_match q l \<Longrightarrow> l \<in> set (ingest_batches d')"
    and "\<And>g. g \<in> set (record_registry d) \<Longrightarrow> \<not> work_match q g \<Longrightarrow> g \<in> set (record_registry d')"
  shows "deletes_named cfg d d'"
  using assms unfolding deletes_named_def by blast

lemma grants_delete:
  assumes good: "good_driver cfg" and inv: "erasure_inv cfg content d" and q: "known_work cfg q d"
    and r: "ready q tab D" and done_: "done_tables cfg q D d"
  shows "grants cfg content locks d (delete_rows_of cfg q tab) (\<lambda>_ d'. done_tables cfg q D d' \<and> erased_from cfg q tab d')"
proof -
  let ?S = "set (suppressions d)"
  from inv q have safe: "safe cfg content ?S d" and k: "known_in cfg q ?S" by (simp_all add: safe_def known_in_work)
  note del = delete_safe [OF good k r safe done_]
  show ?thesis
  proof (cases "pq_legacy q")
    case None
    have "undisturbed_by cfg content locks d (delete_scope tab q part d)" for part
    proof (rule same_suppressions)
      show "erasure_inv cfg content (delete_scope tab q part d)" using del(1) [OF None] by (simp add: safe_def)
      show "deletes_named cfg d (delete_scope tab q part d)"
        by (rule deletes_named_shrunk [of cfg q]) (use q in \<open>auto simp: known_work_def intro: delete_rows_keeps\<close>)
    qed (auto intro: erased_from_shrunk [OF _ delete_shrunk(1)])
    then show ?thesis
      unfolding delete_rows_of_def None option.case
      by (intro valid_pre [OF valid_exec]) (simp add: done_ delete_erases(1) [OF None])
  next
    case (Some i)
    have "undisturbed_by cfg content locks d (delete_installation tab u part d)" for u part
    proof (rule same_suppressions)
      show "erasure_inv cfg content (delete_installation tab u part d)" using del(2) by (simp add: safe_def)
      show "deletes_named cfg d (delete_installation tab u part d)"
        by (simp add: deletes_named_def delete_installation_def)
    qed (use delete_shrunk(2) [of tab u part d] in \<open>auto simp: shrunk_def intro: erased_from_shrunk [OF _ delete_shrunk(2)]\<close>)
    then show ?thesis
      unfolding delete_rows_of_def Some option.case
      by (intro valid_seq_lift valid_pre [OF valid_exec]) (simp_all add: done_ delete_erases(2) [OF Some] undisturbed_refl)
  qed
qed

subsection \<open>Inserts\<close>

text \<open>Inserts disturb nobody, whatever mutexes are held.\<close>

abbreviation open_scope :: "validated_batch \<Rightarrow> 'u tables \<Rightarrow> bool" where
  "open_scope b d \<equiv> \<not> suppressed_v2 (header_scope (header b)) (product_key b) d"

lemma deletes_named_grown:
  "set (ingest_batches d) \<subseteq> set (ingest_batches d') \<Longrightarrow> set (record_registry d) \<subseteq> set (record_registry d') \<Longrightarrow> deletes_named cfg d d'"
  by (auto simp: deletes_named_def)

lemma inserting_undisturbed:
  assumes "good_driver cfg" and inv: "erasure_inv cfg content d" and "open_scope (content sha) d"
    and "inserting (content sha) sha d d'"
  shows "undisturbed_by cfg content locks d d'"
proof -
  from inv have "safe cfg content {} d" by (simp add: safe_def)
  note v = v2_inserted_safe [OF assms(1) this assms(3,4)]
  show ?thesis
    by (rule same_suppressions) (use v in \<open>simp_all add: safe_def deletes_named_grown\<close>)
qed

lemma grants_inserting:
  assumes good: "good_driver cfg" and inv: "erasure_inv cfg content d" and un: "open_scope (content sha) d"
    and v: "valid (\<lambda>s. inserting (content sha) sha d (db s) \<and> P (db s)) m
      (\<lambda>_ s. inserting (content sha) sha d (db s) \<and> Q (db s)) (\<lambda>_ s. inserting (content sha) sha d (db s))"
    and P: "P d"
  shows "grants cfg content locks d m (\<lambda>_ d'. open_scope (content sha) d' \<and> Q d')"
proof (rule valid_conseq [OF v])
  fix s :: "'a tables conn" assume "db s = d"
  moreover have "inserting (content sha) sha d d"
    using inv grown_refl [where P = "scoped (content sha) sha", OF scoped_no_rows] by (simp add: inserting_def erasure_inv_def)
  ultimately show "inserting (content sha) sha d (db s) \<and> P (db s)" using P by simp
next
  fix x :: 'b and s :: "'a tables conn"
  assume s: "inserting (content sha) sha d (db s) \<and> Q (db s)"
  then have "undisturbed_by cfg content UNIV d (db s)" by (blast intro: inserting_undisturbed [OF good inv un])
  with stays_unsuppressed(1) [OF good this inv _ un] s
  show "undisturbed_by cfg content locks d (db s) \<and> open_scope (content sha) (db s) \<and> Q (db s)"
    by (auto intro: undisturbed_subset)
qed (blast intro: inserting_undisturbed [OF good inv un])

lemma grants_v2:
  assumes good: "good_driver cfg" and inv: "erasure_inv cfg content d" and un: "open_scope b d" and b: "b = content sha"
    and u: "must_parse cfg (batch_id (header b)) = Inr u"
  shows "grants cfg content locks d (insert_batch_ledger_v2 cfg b sha t status) (\<lambda>_ d'. open_scope b d' \<and> reserved_in b u d')"
    and "reserved_in b u d \<Longrightarrow> traverse (must_parse cfg) (record_ids b) = Inr ids \<Longrightarrow>
      grants cfg content locks d (prepare_and_send pm sm (Inr (map (registry_row_of b sha (column_time cfg t) u) ids))
        record_registry_update) (\<lambda>_ d'. open_scope b d' \<and> registered_in cfg b u d')"
    and "registered_in cfg b u d \<Longrightarrow> grants cfg content locks d (insert_stream_v2 cfg b t) (\<lambda>_ d'. open_scope b d')"
proof -
  note g = grants_inserting [OF good inv un [unfolded b], folded b]
  show "grants cfg content locks d (insert_batch_ledger_v2 cfg b sha t status) (\<lambda>_ d'. open_scope b d' \<and> reserved_in b u d')"
    by (rule g [where P = "\<lambda>_. True"]) (simp_all add: ledger_step [OF u])
  show "grants cfg content locks d (prepare_and_send pm sm (Inr (map (registry_row_of b sha (column_time cfg t) u) ids))
        record_registry_update) (\<lambda>_ d'. open_scope b d' \<and> registered_in cfg b u d')"
    if "reserved_in b u d" "traverse (must_parse cfg) (record_ids b) = Inr ids"
    by (rule g [where P = "reserved_in b u", OF registry_send_step [OF u that(2)] that(1)])
  have "grants cfg content locks d (insert_stream_v2 cfg b t) (\<lambda>_ d'. open_scope b d' \<and> True)" if "registered_in cfg b u d"
    by (rule g [where P = "registered_in cfg b u", OF _ that]) (simp add: stream_step [OF u])
  then show "grants cfg content locks d (insert_stream_v2 cfg b t) (\<lambda>_ d'. open_scope b d')"
    if "registered_in cfg b u d" using that by simp
qed

lemma v1_undisturbed:
  assumes "good_driver cfg" and inv: "erasure_inv cfg content d" and "\<not> suppressed_installation ids d"
    and "grown (v1_rows ids) d d'"
  shows "undisturbed_by cfg content locks d d'"
proof -
  from inv have "safe cfg content {} d" by (simp add: safe_def)
  note v = v1_grown_safe [OF assms(1) this assms(3,4)]
  show ?thesis
    by (rule same_suppressions) (use v in \<open>simp_all add: safe_def deletes_named_grown\<close>)
qed

lemma fundraising_undisturbed:
  assumes inv: "erasure_inv cfg content d" and "grown fundraising_rows d d'"
  shows "undisturbed_by cfg content locks d d'"
proof -
  from inv have "safe cfg content {} d" by (simp add: safe_def)
  note v = fundraising_grown_safe [OF this assms(2)]
  show ?thesis
    by (rule same_suppressions) (use v in \<open>simp_all add: safe_def deletes_named_grown\<close>)
qed

lemma grants_keeps:
  assumes "\<And>P. keeps (\<lambda>s. P (db s)) m"
  shows "grants cfg content locks d m (\<lambda>_ d'. d' = d)"
proof -
  have "keeps (\<lambda>s. db s = d) m" by (rule assms)
  then show ?thesis unfolding keeps_def by (rule valid_post) (simp_all add: undisturbed_refl)
qed

end
