(* ===== verification/Concurrent_Jobs.thy ===== *)
theory Concurrent_Jobs
  imports Store_Guarantees
begin

section \<open>The processes at the same time\<close>

text \<open>
  \<open>concurrent\<close> is what the tables go through when any number of jobs run at once, each call of one
  anywhere between the calls of the others: a job starts when no other job of its process holds a mutex
  that it needs, a connection may break any call and has a clock of its own, and a job may be
  abandoned after any call. The rest are the rules for the threads of a job (\<open>lasting\<close> facts are those that
  other processes do not touch) and, for each job of the writer, that it tolerates the others: what
  its check for suppression established holds until it returns, because of the mutex it holds.
\<close>

subsection \<open>Jobs\<close>

datatype process = Writer | Worker nat | Importer

datatype job =
    StoreV2 string
  | StoreV1 validated_batch_v1
  | StoreFundraising fr_validated_batch string
  | AskPrivacy validated_privacy_request string
  | AskLegacyPrivacy validated_privacy_v1 string
  | Sweep worker_limits

fun job_thread :: "'u store_config \<Rightarrow> (string \<Rightarrow> validated_batch) \<Rightarrow> job \<Rightarrow> ('u tables conn, unit) thread" where
  "job_thread cfg content (StoreV2 sha) = ignoring_thread (insert_v2_thread cfg (content sha) sha)"
| "job_thread cfg content (StoreV1 b) = ignoring_thread (insert_v1_thread cfg b)"
| "job_thread cfg content (StoreFundraising b sha) = ignoring_thread (insert_fundraising_thread cfg b sha)"
| "job_thread cfg content (AskPrivacy p sha) = ignoring_thread (create_privacy_thread cfg p sha)"
| "job_thread cfg content (AskLegacyPrivacy p sha) = ignoring_thread (create_legacy_privacy_thread cfg p sha)"
| "job_thread cfg content (Sweep w) = ignoring_thread (run_once_thread cfg w)"

text \<open>
  The mutexes that each method of the writer locks before its first call, and releases when it returns.
  DeleteTelemetry locks v1Mu for an installation, and the worker's methods privacyMu, of the worker's
  process, where nothing else runs that takes them: leaving them out allows more interleavings.
\<close>

definition insert_v2_locks :: "mutex set" where
  "insert_v2_locks = {V2Mutex}"

definition insert_v1_locks :: "mutex set" where
  "insert_v1_locks = {V1Mutex}"

definition insert_fundraising_locks :: "mutex set" where
  "insert_fundraising_locks = {FundraisingMutex}"

definition create_privacy_locks :: "mutex set" where
  "create_privacy_locks = {V2Mutex}"

definition create_legacy_privacy_locks :: "mutex set" where
  "create_legacy_privacy_locks = {V1Mutex, V2Mutex}"

declare insert_v2_locks_def [simp] insert_v1_locks_def [simp] insert_fundraising_locks_def [simp]
  create_privacy_locks_def [simp] create_legacy_privacy_locks_def [simp]

fun mutexes :: "job \<Rightarrow> mutex set" where
  "mutexes (StoreV2 sha) = insert_v2_locks"
| "mutexes (StoreV1 b) = insert_v1_locks"
| "mutexes (StoreFundraising b sha) = insert_fundraising_locks"
| "mutexes (AskPrivacy p sha) = create_privacy_locks"
| "mutexes (AskLegacyPrivacy p sha) = create_legacy_privacy_locks"
| "mutexes (Sweep w) = {}"

definition excludes :: "process \<times> job \<Rightarrow> process \<times> job \<Rightarrow> bool" where
  "excludes x y \<longleftrightarrow> fst x = fst y \<and> mutexes (snd x) \<inter> mutexes (snd y) \<noteq> {}"

text \<open>One writer, whose methods the HTTP server calls, and any number of workers.\<close>

fun one_writer :: "process \<Rightarrow> job \<Rightarrow> bool" where
  "one_writer (Worker n) (Sweep w) = True"
| "one_writer (Worker n) j = False"
| "one_writer Writer (Sweep w) = False"
| "one_writer Writer j = True"
| "one_writer Importer j = False"

inductive concurrent :: "'u store_config \<Rightarrow> (string \<Rightarrow> validated_batch) \<Rightarrow> (process \<Rightarrow> job \<Rightarrow> bool)
    \<Rightarrow> ((process \<times> job) \<times> ('u tables conn, unit) thread) list \<Rightarrow> 'u tables \<Rightarrow> bool"
  for cfg content may_run where
  begin_empty: "concurrent cfg content may_run [] no_rows"
| enter: "concurrent cfg content may_run pool d \<Longrightarrow> may_run p j \<Longrightarrow> \<forall>x \<in> set pool. \<not> excludes (fst x) (p, j) \<Longrightarrow>
    concurrent cfg content may_run (pool @ [((p, j), job_thread cfg content j)]) d"
| next_call: "concurrent cfg content may_run (pre @ (x, Atomic f) # post) (db s) \<Longrightarrow> f s = (t, s') \<Longrightarrow>
    concurrent cfg content may_run (pre @ (x, t) # post) (db s')"
| leave: "concurrent cfg content may_run (pre @ x # post) d \<Longrightarrow> concurrent cfg content may_run (pre @ post) d"

subsection \<open>Rules for the threads of a job\<close>

abbreviation job_tolerates :: "'u store_config \<Rightarrow> (string \<Rightarrow> validated_batch) \<Rightarrow> mutex set \<Rightarrow> ('u tables \<Rightarrow> bool)
    \<Rightarrow> ('u tables conn, 'a) thread \<Rightarrow> ('a result \<Rightarrow> 'u tables \<Rightarrow> bool) \<Rightarrow> bool" where
  "job_tolerates cfg content locks P t Q \<equiv>
     tolerates (undisturbed_by cfg content locks) (undisturbed_by cfg content (- locks)) P t Q"

text \<open>A fact X about the tables that others do not touch, while the invariant holds.\<close>

definition lasting :: "'u store_config \<Rightarrow> (string \<Rightarrow> validated_batch) \<Rightarrow> mutex set \<Rightarrow> ('u tables \<Rightarrow> bool) \<Rightarrow> bool" where
  "lasting cfg content locks X \<longleftrightarrow>
     (\<forall>d d'. erasure_inv cfg content d \<longrightarrow> undisturbed_by cfg content locks d d' \<longrightarrow> X d \<longrightarrow> X d')"

named_theorems lasts

lemma lasting_stable:
  "lasting cfg content locks X \<Longrightarrow> stable (undisturbed_by cfg content locks) (\<lambda>d. erasure_inv cfg content d \<and> X d)"
  by (auto simp: lasting_def stable_def dest: undisturbed_inv)

lemma lasting_simple [lasts]:
  "lasting cfg content locks (\<lambda>_. c)"
  "lasting cfg content locks X \<Longrightarrow> lasting cfg content locks Y \<Longrightarrow> lasting cfg content locks (\<lambda>d. X d \<and> Y d)"
  "lasting cfg content locks (\<lambda>d. known_work cfg q d)"
  "lasting cfg content locks (\<lambda>d. \<forall>q \<in> Q. known_work cfg q d)"
  "lasting cfg content locks (\<lambda>d. done_tables cfg q D d)"
  "lasting cfg content locks (\<lambda>d. known_work cfg q d \<and> erased_from cfg q tab d)"
  by (auto simp: lasting_def dest: undisturbed_facts)

lemma lasting_if [lasts]:
  "(c \<Longrightarrow> lasting cfg content locks X) \<Longrightarrow> lasting cfg content locks (\<lambda>d. c \<longrightarrow> X d)"
  by (cases c) (simp_all add: lasting_simple)

text \<open>A writer's thread: what a failed call leaves is of no interest.\<close>

abbreviation returning :: "('a \<Rightarrow> 'd \<Rightarrow> bool) \<Rightarrow> 'a result \<Rightarrow> 'd \<Rightarrow> bool" where
  "returning Y r d \<equiv> (case r of Inr x \<Rightarrow> Y x d | Inl _ \<Rightarrow> True)"

lemma writer_once:
  assumes "lasting cfg content locks X"
    and "\<And>d. erasure_inv cfg content d \<Longrightarrow> X d \<Longrightarrow> grants cfg content (- locks) d m Y"
  shows "job_tolerates cfg content locks (\<lambda>d. erasure_inv cfg content d \<and> X d) (once m)
    (returning (\<lambda>x d. erasure_inv cfg content d \<and> Y x d))"
proof (rule tolerates_once [OF lasting_stable [OF assms(1)]], goal_cases)
  case (1 d)
  then have "undisturbed_by cfg content locks' d d' \<Longrightarrow> erasure_inv cfg content d'" for d' locks'
    by (blast dest: undisturbed_inv)
  with assms(2) 1 show ?case by (intro valid_post [OF assms(2)]) auto
qed

lemma writer_first:
  assumes "\<And>d. erasure_inv cfg content d \<Longrightarrow> grants cfg content (- locks) d m Y"
  shows "job_tolerates cfg content locks (erasure_inv cfg content) (once m) (returning (\<lambda>x d. erasure_inv cfg content d \<and> Y x d))"
  using writer_once [OF lasting_simple(1) [where c = True], where Y = Y] assms by simp

lemma writer_then:
  assumes "tolerates R G P t (returning M)" and "\<And>x. tolerates R G (M x) (k x) (returning Y)"
  shows "tolerates R G P (then_do t k) (returning Y)"
  by (rule tolerates_then [OF assms(1)]) (simp_all add: assms(2))

lemma writer_finished:
  "(\<And>x d. r = Inr x \<Longrightarrow> P d \<Longrightarrow> Y x d) \<Longrightarrow> tolerates R G P (Finished r) (returning Y)"
  by (rule tolerates_finished) (auto split: sum.split)

lemma writer_lift:
  assumes "\<And>x. r = Inr x \<Longrightarrow> tolerates R G P (k x) (returning Y)"
  shows "tolerates R G P (then_do (Finished r) k) (returning Y)"
  using assms by (cases r) (auto simp: then_do.simps intro: writer_finished)

lemma writer_time:
  assumes "lasting cfg content locks X"
  shows "job_tolerates cfg content locks (\<lambda>d. erasure_inv cfg content d \<and> X d) (once time_now)
    (returning (\<lambda>_ d. erasure_inv cfg content d \<and> X d))"
proof (rule writer_once [OF assms])
  fix d assume "X d"
  then show "grants cfg content (- locks) d time_now (\<lambda>_. X)"
    by (intro valid_post [OF grants_keeps [OF keeps_time_now]]) auto
qed

lemma tolerates_case:
  "(c \<Longrightarrow> tolerates R G P t Q) \<Longrightarrow> (\<not> c \<Longrightarrow> tolerates R G P t' Q) \<Longrightarrow> tolerates R G P (if c then t else t') Q"
  by simp

subsection \<open>What a mutex protects\<close>

lemma rows_stay:
  assumes good: "good_driver cfg" and u: "undisturbed_by cfg content locks d d'" and inv: "erasure_inv cfg content d"
    and locks: "V2Mutex \<in> locks" and un: "open_scope b d"
  shows "l \<in> set (ingest_batches d) \<Longrightarrow> scope_columns.truncate l = batch_columns b \<Longrightarrow> l \<in> set (ingest_batches d')"
    and "g \<in> set (record_registry d) \<Longrightarrow> scope_columns.truncate g = batch_columns b \<Longrightarrow> g \<in> set (record_registry d')"
proof -
  from undisturbed_inv [OF u inv] have ok: "requests_ok cfg d'" by (simp add: erasure_inv_def)
  from stays_unsuppressed(1) [OF good u inv locks un] have un': "open_scope b d'" .
  from u inv locks have n: "deletes_named cfg d d'" by (simp add: undisturbed_by_def)
  show "l \<in> set (ingest_batches d')" if "l \<in> set (ingest_batches d)" "scope_columns.truncate l = batch_columns b"
    using that n unsuppressed_scope [OF good ok _ un', of _ l] unfolding deletes_named_def by blast
  show "g \<in> set (record_registry d')" if "g \<in> set (record_registry d)" "scope_columns.truncate g = batch_columns b"
    using that n unsuppressed_scope [OF good ok _ un', of _ g] unfolding deletes_named_def by blast
qed

lemma lasting_v2:
  assumes good: "good_driver cfg" and locks: "V2Mutex \<in> locks"
  shows "lasting cfg content locks (open_scope b)"
    and "lasting cfg content locks (\<lambda>d. open_scope b d \<and> reserved_in b u d)"
    and "lasting cfg content locks (\<lambda>d. open_scope b d \<and> registered_in cfg b u d)"
    and "lasting cfg content locks (\<lambda>d. open_scope b d \<longrightarrow> reserved_in b u d)"
    and "lasting cfg content locks (\<lambda>d. privacy_request_row p rid d = None)"
proof -
  have stay: "reserved_in b u d'" "open_scope b d'"
    if "erasure_inv cfg content d" "undisturbed_by cfg content locks d d'" "open_scope b d" "reserved_in b u d" for d d'
    using rows_stay(1) [OF good that(2,1) locks that(3)] stays_unsuppressed(1) [OF good that(2,1) locks that(3)] that(4)
    unfolding reserved_in_def by blast+
  show "lasting cfg content locks (open_scope b)" "lasting cfg content locks (\<lambda>d. open_scope b d \<and> reserved_in b u d)"
    using stay stays_unsuppressed(1) [OF good _ _ locks] unfolding lasting_def by blast+
  show "lasting cfg content locks (\<lambda>d. open_scope b d \<longrightarrow> reserved_in b u d)"
    using stay stays_unsuppressed(3) [OF good] unfolding lasting_def by blast
  show "lasting cfg content locks (\<lambda>d. open_scope b d \<and> registered_in cfg b u d)"
    unfolding lasting_def
  proof (intro allI impI)
    fix d d' assume d: "erasure_inv cfg content d" "undisturbed_by cfg content locks d d'" "open_scope b d \<and> registered_in cfg b u d"
    then have o: "open_scope b d" and r: "registered_in cfg b u d" by simp_all
    from rows_stay(2) [OF good d(2,1) locks o] r have "registered_in cfg b u d'" unfolding registered_in_def by blast
    with stays_unsuppressed(1) [OF good d(2,1) locks o] show "open_scope b d' \<and> registered_in cfg b u d'" by simp
  qed
  show "lasting cfg content locks (\<lambda>d. privacy_request_row p rid d = None)"
    unfolding lasting_def
  proof (intro allI impI)
    fix d d' :: "'a tables" assume d: "erasure_inv cfg content d" "undisturbed_by cfg content locks d d'" "privacy_request_row p rid d = None"
    with locks have "no_new_request d d'" by (simp add: undisturbed_by_def)
    moreover have "same_request r r' \<Longrightarrow> suppression_key r = suppression_key r'" for r r' :: "'a suppression_row"
      by (cases r; cases r') (simp add: same_request_def suppression_key_def scope_columns.defs)
    ultimately have "suppression_key ` set (suppressions d') \<subseteq> suppression_key ` set (suppressions d)"
      unfolding no_new_request_def by blast
    with d(3) show "privacy_request_row p rid d' = None" unfolding privacy_request_row_def newest_None by blast
  qed
qed

lemma lasting_v1:
  assumes "good_driver cfg" and "V1Mutex \<in> locks"
  shows "lasting cfg content locks (\<lambda>d. \<not> suppressed_installation ids d)"
  using stays_unsuppressed(2) [OF assms(1) _ _ assms(2)] unfolding lasting_def by blast

subsection \<open>The writer's jobs\<close>

lemma grants_query:
  "grants cfg content locks d (wrapping msg (query q)) (\<lambda>x d'. d' = d \<and> x = q d)"
  by (intro valid_wrapping valid_pre [OF valid_query]) (simp add: undisturbed_refl)

lemma register_tolerates:
  assumes good: "good_driver cfg" and b: "b = content sha" and u: "must_parse cfg (batch_id (header b)) = Inr u"
  shows "job_tolerates cfg content {V2Mutex} (\<lambda>d. erasure_inv cfg content d \<and> open_scope b d \<and> reserved_in b u d)
    (register_records_thread cfg b sha t)
    (returning (\<lambda>_ d. erasure_inv cfg content d \<and> open_scope b d \<and> registered_in cfg b u d))"
  unfolding register_records_thread_def
proof (rule writer_lift, goal_cases)
  case (1 ids)
  note lasts = lasting_v2 [OF good singletonI]
  show ?case
    by (rule writer_then [where M = "\<lambda>_ d. erasure_inv cfg content d \<and> open_scope b d \<and> reserved_in b u d"],
        rule writer_once [OF lasts(2)], rule valid_post [OF grants_query], blast, assumption)
      (auto simp: u intro!: writer_lift tolerates_case writer_finished writer_once [OF lasts(2)]
        grants_v2(2) [where content = content and sha = sha, OF good _ _ b u _ 1])
qed

lemma complete_tolerates:
  assumes good: "good_driver cfg" and b: "b = content sha" and u: "must_parse cfg (batch_id (header b)) = Inr u"
  shows "job_tolerates cfg content {V2Mutex} (\<lambda>d. erasure_inv cfg content d \<and> open_scope b d \<and> reserved_in b u d)
    (complete_batch_thread cfg b sha t) (returning (\<lambda>_ _. True))"
proof -
  note lasts = lasting_v2 [OF good singletonI]
  have stream: "job_tolerates cfg content {V2Mutex} (\<lambda>d. erasure_inv cfg content d \<and> open_scope b d \<and> registered_in cfg b u d)
      (once (insert_stream_v2 cfg b t)) (returning (\<lambda>_ d. erasure_inv cfg content d \<and> open_scope b d))"
    by (rule writer_once [OF lasts(3)], rule grants_v2(3) [where content = content and sha = sha, OF good _ _ b u]) auto
  have time: "job_tolerates cfg content {V2Mutex} (\<lambda>d. erasure_inv cfg content d \<and> open_scope b d) (once time_now)
      (returning (\<lambda>_ d. erasure_inv cfg content d \<and> open_scope b d))"
    by (rule writer_time [OF lasts(1)])
  have ledger: "job_tolerates cfg content {V2Mutex} (\<lambda>d. erasure_inv cfg content d \<and> open_scope b d)
      (once (insert_batch_ledger_v2 cfg b sha t2 status)) (returning (\<lambda>_ _. True))" for t2 status
    by (rule tolerates_post, rule writer_once [OF lasts(1)],
        rule grants_v2(1) [where content = content and sha = sha, OF good _ _ b u]) (auto split: sum.split)
  show ?thesis
    unfolding complete_batch_thread_def Let_def
    by (rule writer_then [OF register_tolerates [where content = content and sha = sha, OF assms]],
        rule writer_then [OF stream], rule writer_then [OF time], rule writer_then [OF ledger], rule writer_finished, simp)
qed

lemma insert_v2_tolerates:
  assumes good: "good_driver cfg" and b: "b = content sha"
  shows "job_tolerates cfg content {V2Mutex} (erasure_inv cfg content) (insert_v2_thread cfg b sha) (returning (\<lambda>_ _. True))"
proof (cases "must_parse cfg (batch_id (header b))")
  case (Inl e)
  then have "batch_ledger_v2 cfg p (batch_id (header b)) = fail e" for p by (simp add: batch_ledger_v2_def)
  then show ?thesis
    unfolding insert_v2_thread_def Let_def
    by (intro tolerates_pre [OF writer_then [where M = "\<lambda>_ _. False"]])
      (auto simp: tolerates_def once_def fail_def undisturbed_refl)
next
  case (Inr u)
  note lasts = lasting_v2 [OF good singletonI]
  let ?sc = "header_scope (header b)"
  let ?found = "\<lambda>x d. erasure_inv cfg content d \<and> (\<forall>st t. x = Some (sha, st, t) \<longrightarrow> open_scope b d \<longrightarrow> reserved_in b u d)"
  have read: "job_tolerates cfg content {V2Mutex} (erasure_inv cfg content)
      (once (batch_ledger_v2 cfg (product_id ?sc) (batch_id (header b)))) (returning ?found)"
  proof (rule writer_first)
    fix d assume inv: "erasure_inv cfg content d"
    have "reserved_in b u d" if "map_option (\<lambda>r. (lr_body_sha r, lr_status r, lr_ingested_at r))
        (newest ledger_key lr_ingested_at (ingest_batches d) (product_id ?sc, u)) = Some (sha, st, t)" for st t
    proof -
      from that obtain r where r: "newest ledger_key lr_ingested_at (ingest_batches d) (product_id ?sc, u) = Some r"
        "lr_body_sha r = sha" by auto
      from newest_Some [OF r(1)] r(2) inv b show ?thesis
        by (auto simp: reserved_in_def erasure_inv_def ledger_ok_def ledger_key_def)
    qed
    then show "grants cfg content (- {V2Mutex}) d (batch_ledger_v2 cfg (product_id ?sc) (batch_id (header b)))
        (\<lambda>x d. \<forall>st t. x = Some (sha, st, t) \<longrightarrow> open_scope b d \<longrightarrow> reserved_in b u d)"
      unfolding batch_ledger_v2_def Inr action_simps by (intro valid_post [OF grants_query]) auto
  qed
  have check: "job_tolerates cfg content {V2Mutex} (\<lambda>d. erasure_inv cfg content d \<and> (open_scope b d \<longrightarrow> reserved_in b u d))
      (then_do (once (is_suppressed ?sc (product_key b))) (\<lambda>suppressed.
        if suppressed then failed_thread ErrSuppressed else complete_batch_thread cfg b sha t)) (returning (\<lambda>_ _. True))" for t
  proof (rule writer_then [where M = "\<lambda>x d. \<not> x \<longrightarrow> erasure_inv cfg content d \<and> open_scope b d \<and> reserved_in b u d"])
    show "job_tolerates cfg content {V2Mutex} (\<lambda>d. erasure_inv cfg content d \<and> (open_scope b d \<longrightarrow> reserved_in b u d))
        (once (is_suppressed ?sc (product_key b)))
        (returning (\<lambda>x d. \<not> x \<longrightarrow> erasure_inv cfg content d \<and> open_scope b d \<and> reserved_in b u d))"
      unfolding is_suppressed_def
      by (rule tolerates_post, rule writer_once [OF lasts(4), where Y = "\<lambda>x d. \<not> x \<longrightarrow> open_scope b d \<and> reserved_in b u d"],
          rule valid_post [OF grants_query]) (auto split: sum.splits)
  next
    fix suppressed
    show "job_tolerates cfg content {V2Mutex} (\<lambda>d. \<not> suppressed \<longrightarrow> erasure_inv cfg content d \<and> open_scope b d \<and> reserved_in b u d)
        (if suppressed then failed_thread ErrSuppressed else complete_batch_thread cfg b sha t) (returning (\<lambda>_ _. True))"
      using complete_tolerates [where content = content and sha = sha, OF assms Inr, of t]
      by (cases suppressed) (simp_all add: tolerates_finished)
  qed
  have fresh: "job_tolerates cfg content {V2Mutex} (erasure_inv cfg content)
      (then_do (once (is_suppressed ?sc (product_key b))) (\<lambda>suppressed.
        if suppressed then failed_thread ErrSuppressed
        else then_do (once time_now) (\<lambda>t. then_do (once (insert_batch_ledger_v2 cfg b sha (f t) st))
          (\<lambda>_. complete_batch_thread cfg b sha (f t))))) (returning (\<lambda>_ _. True))" for f st
  proof (rule writer_then [where M = "\<lambda>x d. \<not> x \<longrightarrow> erasure_inv cfg content d \<and> open_scope b d"])
    show "job_tolerates cfg content {V2Mutex} (erasure_inv cfg content) (once (is_suppressed ?sc (product_key b)))
        (returning (\<lambda>x d. \<not> x \<longrightarrow> erasure_inv cfg content d \<and> open_scope b d))"
      unfolding is_suppressed_def
      by (rule tolerates_post, rule writer_first [where Y = "\<lambda>x d. \<not> x \<longrightarrow> open_scope b d"],
          rule valid_post [OF grants_query]) (auto split: sum.splits)
  next
    fix suppressed
    have "job_tolerates cfg content {V2Mutex} (\<lambda>d. erasure_inv cfg content d \<and> open_scope b d)
        (then_do (once time_now) (\<lambda>t. then_do (once (insert_batch_ledger_v2 cfg b sha (f t) st))
          (\<lambda>_. complete_batch_thread cfg b sha (f t)))) (returning (\<lambda>_ _. True))"
      by (rule writer_then [OF writer_time [OF lasts(1)]], rule writer_then, rule writer_once [OF lasts(1)],
          rule grants_v2(1) [where content = content and sha = sha, OF good _ _ b Inr], assumption, assumption,
          rule complete_tolerates [where content = content and sha = sha, OF assms Inr])
    then show "job_tolerates cfg content {V2Mutex} (\<lambda>d. \<not> suppressed \<longrightarrow> erasure_inv cfg content d \<and> open_scope b d)
        (if suppressed then failed_thread ErrSuppressed
         else then_do (once time_now) (\<lambda>t. then_do (once (insert_batch_ledger_v2 cfg b sha (f t) st))
          (\<lambda>_. complete_batch_thread cfg b sha (f t)))) (returning (\<lambda>_ _. True))"
      by (cases suppressed) (simp_all add: tolerates_finished)
  qed
  show ?thesis
    unfolding insert_v2_thread_def Let_def
  proof (rule writer_then [OF read])
    fix x
    show "job_tolerates cfg content {V2Mutex} (?found x) (case x of
          Some (existing_sha, status, reserved_at) \<Rightarrow>
            if existing_sha \<noteq> sha then failed_thread ErrIdempotencyConflict
            else if status = ''completed'' then returned_thread \<lparr>result_count = record_count b, result_replayed = True\<rparr>
            else if status \<noteq> ''reserved'' then failed_thread (Err ''invalid v2 batch ledger status'')
            else then_do (once (is_suppressed ?sc (product_key b)))
              (\<lambda>suppressed. if suppressed then failed_thread ErrSuppressed else complete_batch_thread cfg b sha reserved_at)
        | None \<Rightarrow> then_do (once (is_suppressed ?sc (product_key b))) (\<lambda>suppressed. if suppressed then failed_thread ErrSuppressed
              else then_do (once time_now) (\<lambda>t. then_do (once (insert_batch_ledger_v2 cfg b sha (truncate_to t millisecond) ''reserved''))
                (\<lambda>_. complete_batch_thread cfg b sha (truncate_to t millisecond))))) (returning (\<lambda>_ _. True))"
    proof (cases x)
      case None
      then show ?thesis using tolerates_pre [OF fresh] by simp
    next
      case (Some y)
      obtain sha' st t where y: "y = (sha', st, t)" by (cases y)
      have "job_tolerates cfg content {V2Mutex} (?found x) (then_do (once (is_suppressed ?sc (product_key b)))
          (\<lambda>suppressed. if suppressed then failed_thread ErrSuppressed else complete_batch_thread cfg b sha t)) (returning (\<lambda>_ _. True))"
        if "sha' = sha"
        by (rule tolerates_pre [OF check]) (use Some y that in auto)
      then show ?thesis unfolding Some y option.case prod.case by (intro tolerates_case writer_finished) auto
    qed
  qed
qed

lemma insert_v1_tolerates:
  assumes good: "good_driver cfg"
  shows "job_tolerates cfg content {V1Mutex} (erasure_inv cfg content) (insert_v1_thread cfg b) (returning (\<lambda>_ _. True))"
proof (cases "v1_installations cfg b")
  case (Inl e)
  then have "v1_batch_suppressed cfg b = fail e" by (simp add: v1_batch_suppressed_def)
  then show ?thesis
    unfolding insert_v1_thread_def
    by (intro tolerates_pre [OF writer_then [where M = "\<lambda>_ _. False"]])
      (auto simp: tolerates_def once_def fail_def undisturbed_refl)
next
  case (Inr ids)
  note lasts = lasting_v1 [OF good singletonI, of content ids]
  let ?P = "\<lambda>d. erasure_inv cfg content d \<and> \<not> suppressed_installation ids d"
  have check: "job_tolerates cfg content {V1Mutex} (erasure_inv cfg content) (once (v1_batch_suppressed cfg b))
      (returning (\<lambda>x d. erasure_inv cfg content d \<and> (\<not> x \<longrightarrow> \<not> suppressed_installation ids d)))"
  proof (rule writer_first)
    fix d
    have "\<not> suppressed_installation [] d" for d :: "'a tables"
      by (auto simp: suppressed_installation_def list_ex_iff split: option.splits)
    then show "grants cfg content (- {V1Mutex}) d (v1_batch_suppressed cfg b) (\<lambda>x d. \<not> x \<longrightarrow> \<not> suppressed_installation ids d)"
      unfolding v1_batch_suppressed_def Inr action_simps
      by (intro valid_cond valid_post [OF grants_query]) (auto simp: valid_def undisturbed_refl)
  qed
  have insert: "job_tolerates cfg content {V1Mutex} ?P (once m) (returning (\<lambda>_. ?P))"
    if m: "\<And>d. keeps (\<lambda>s. grown (v1_rows ids) d (db s)) m" for m
  proof (rule writer_once [OF lasts])
    fix d assume inv: "erasure_inv cfg content d" and un: "\<not> suppressed_installation ids d"
    have "undisturbed_by cfg content locks d d' \<and> \<not> suppressed_installation ids d'" if "grown (v1_rows ids) d d'" for locks d'
      using v1_undisturbed [OF good inv un that] stays_unsuppressed(2) [OF good _ inv _ un, of UNIV d'] by blast
    moreover have "grown (v1_rows ids) d d" by (rule grown_refl) (rule no_rows_rows)
    ultimately show "grants cfg content (- {V1Mutex}) d m (\<lambda>_ d. \<not> suppressed_installation ids d)"
      by (intro valid_conseq [OF m [unfolded keeps_def, of d]]) auto
  qed
  have skip: "job_tolerates cfg content {V1Mutex} ?P (returned_thread ()) (returning (\<lambda>_. ?P))" by (rule writer_finished)
  have rest: "job_tolerates cfg content {V1Mutex} ?P (then_do (once time_now) (\<lambda>t.
      then_do (if vb_events b \<noteq> [] then once (insert_events_v1 cfg (vb_events b) t) else returned_thread ()) (\<lambda>_.
      if vb_summaries b \<noteq> [] then once (insert_summaries_v1 cfg (vb_summaries b) t) else returned_thread ())))
      (returning (\<lambda>_. ?P))"
    by (rule writer_then [OF writer_time [OF lasts]], rule writer_then [where M = "\<lambda>_. ?P"];
        intro tolerates_case skip insert v1_inserts_add [OF Inr])
  show ?thesis
    unfolding insert_v1_thread_def
    by (rule writer_then [OF check], rule tolerates_case)
      (auto intro: writer_finished tolerates_finished tolerates_pre [OF tolerates_post [OF rest]])
qed

lemma insert_fundraising_tolerates:
  fixes cfg :: "'u store_config"
  shows "job_tolerates cfg content {FundraisingMutex} (erasure_inv cfg content) (insert_fundraising_thread cfg b sha) (returning (\<lambda>_ _. True))"
proof -
  let ?I = "erasure_inv cfg content"
  have one: "job_tolerates cfg content {FundraisingMutex} ?I (once m) (returning (\<lambda>_. ?I))"
    if "\<And>d. grants cfg content (- {FundraisingMutex}) d m (\<lambda>_ _. True) \<or> keeps (\<lambda>s. grown fundraising_rows d (db s)) m"
    for m :: "('u, 'b) store_action"
  proof (rule tolerates_post [OF writer_first [where Y = "\<lambda>_ _. True"]])
    fix d assume inv: "?I d"
    have "grown fundraising_rows d d" by (rule grown_refl) (rule no_rows_rows)
    then have "grants cfg content (- {FundraisingMutex}) d m (\<lambda>_ _. True)" if "keeps (\<lambda>s. grown fundraising_rows d (db s)) m"
      by (intro valid_conseq [OF that [unfolded keeps_def]]) (auto intro: fundraising_undisturbed [OF inv])
    with that [of d] show "grants cfg content (- {FundraisingMutex}) d m (\<lambda>_ _. True)" by blast
  qed (auto split: sum.splits)
  have time: "job_tolerates cfg content {FundraisingMutex} ?I (once time_now) (returning (\<lambda>_. ?I))"
    by (rule one, rule disjI1, rule valid_post [OF grants_keeps [OF keeps_time_now]]) auto
  have read: "job_tolerates cfg content {FundraisingMutex} ?I (once (fundraising_ledger_read cfg b)) (returning (\<lambda>_. ?I))"
    unfolding fundraising_ledger_read_def
    by (rule one, rule disjI1, rule valid_seq_lift, rule valid_post [OF grants_query]) (auto simp: undisturbed_refl)
  note insert = one [OF disjI2 [OF fundraising_inserts_add(1)]] one [OF disjI2 [OF fundraising_inserts_add(2)]]
  have complete: "job_tolerates cfg content {FundraisingMutex} ?I (complete_fundraising_thread cfg b sha t) (returning (\<lambda>_ _. True))" for t
    unfolding complete_fundraising_thread_def Let_def
    by (rule writer_then [OF insert(2)], rule writer_then [OF time], rule writer_then [OF insert(1)], rule writer_finished, simp)
  have fresh: "job_tolerates cfg content {FundraisingMutex} ?I (then_do (once time_now) (\<lambda>t. then_do
      (once (insert_fundraising_ledger cfg b sha (f t) st)) (\<lambda>_. complete_fundraising_thread cfg b sha (f t)))) (returning (\<lambda>_ _. True))" for f st
    by (rule writer_then [OF time], rule writer_then [OF insert(1)], rule complete)
  show ?thesis
    unfolding insert_fundraising_thread_def Let_def
  proof (rule writer_then [OF read])
    fix x
    show "job_tolerates cfg content {FundraisingMutex} ?I (case x of
         Some (existing_sha, status, reserved_at) \<Rightarrow>
           if existing_sha \<noteq> sha then failed_thread FrErrIdempotencyConflict
           else if status = ''completed'' then
             returned_thread \<lparr>fr_result_count = length (fr_events b), fr_result_replayed = True\<rparr>
           else if status \<noteq> ''reserved'' then failed_thread (Err ''invalid fundraising batch ledger status'')
           else complete_fundraising_thread cfg b sha reserved_at
       | None \<Rightarrow> then_do (once time_now) (\<lambda>t. then_do (once (insert_fundraising_ledger cfg b sha (truncate_to t millisecond) ''reserved''))
           (\<lambda>_. complete_fundraising_thread cfg b sha (truncate_to t millisecond)))) (returning (\<lambda>_ _. True))"
      using fresh complete
      by (cases x) (auto split: prod.split intro!: tolerates_case tolerates_finished)
  qed
qed

text \<open>A new request: nobody else may have asked for it between the lookup and the insert.\<close>

definition unasked :: "'u store_config \<Rightarrow> string \<Rightarrow> string \<Rightarrow> 'u tables \<Rightarrow> bool" where
  "unasked cfg p i d \<longleftrightarrow> (\<forall>rid. must_parse cfg i = Inr rid \<longrightarrow> privacy_request_row p rid d = None)"

lemma lasting_unasked:
  "good_driver cfg \<Longrightarrow> V2Mutex \<in> locks \<Longrightarrow> lasting cfg content locks (unasked cfg p i)"
  using lasting_v2(5) [of cfg locks content p] unfolding lasting_def unasked_def by blast

lemma ask_tolerates:
  assumes good: "good_driver cfg" and locks: "V2Mutex \<in> locks"
    and row: "\<And>t rid. must_parse cfg i = Inr rid \<Longrightarrow> job_tolerates cfg content locks
      (\<lambda>d. erasure_inv cfg content d \<and> unasked cfg p i d) (k t rid) (returning (\<lambda>_ _. True))"
  shows "job_tolerates cfg content locks (erasure_inv cfg content)
    (then_do (once (lookup_request cfg msg p i)) (\<lambda>found. case found of
        Some (existing_sha, status) \<Rightarrow> if existing_sha \<noteq> sha then failed_thread ErrIdempotencyConflict else returned_thread (f status)
      | None \<Rightarrow> then_do (once time_now) (\<lambda>t. then_do (Finished (must_parse cfg i)) (k t)))) (returning (\<lambda>_ _. True))"
proof (rule writer_then [where M = "\<lambda>x d. erasure_inv cfg content d \<and> (x = None \<longrightarrow> unasked cfg p i d)"])
  show "job_tolerates cfg content locks (erasure_inv cfg content) (once (lookup_request cfg msg p i))
      (returning (\<lambda>x d. erasure_inv cfg content d \<and> (x = None \<longrightarrow> unasked cfg p i d)))"
    unfolding lookup_request_def
    by (rule writer_first, rule valid_seq_lift, rule valid_post [OF grants_query])
      (auto simp: unasked_def undisturbed_refl)
  fix found
  have "job_tolerates cfg content locks (\<lambda>d. erasure_inv cfg content d \<and> unasked cfg p i d)
      (then_do (once time_now) (\<lambda>t. then_do (Finished (must_parse cfg i)) (k t))) (returning (\<lambda>_ _. True))"
    by (rule writer_then [OF writer_time [OF lasting_unasked [OF good locks]]], rule writer_lift, rule row)
  then show "job_tolerates cfg content locks (\<lambda>d. erasure_inv cfg content d \<and> (found = None \<longrightarrow> unasked cfg p i d))
      (case found of
        Some (existing_sha, status) \<Rightarrow> if existing_sha \<noteq> sha then failed_thread ErrIdempotencyConflict else returned_thread (f status)
      | None \<Rightarrow> then_do (once time_now) (\<lambda>t. then_do (Finished (must_parse cfg i)) (k t))) (returning (\<lambda>_ _. True))"
    by (cases found) (auto split: prod.split intro!: tolerates_case tolerates_finished)
qed

lemma pending_tolerates:
  assumes good: "good_driver cfg" and rid: "must_parse cfg i = Inr rid" and locks: "V2Mutex \<in> locks" "legacy \<noteq> None \<Longrightarrow> V1Mutex \<in> locks"
    and cols: "col_product_key cols \<noteq> None" "col_subject_key cols \<noteq> None"
  shows "job_tolerates cfg content locks (\<lambda>d. erasure_inv cfg content d \<and> unasked cfg (col_product cols) i d)
    (then_do (once (wrapping msg (exec (\<lambda>part. suppressions_update (insert_rows
      [pending_row cfg cols action sha requested t rid legacy] part))))) (\<lambda>_. returned_thread r)) (returning (\<lambda>_ _. True))"
proof (rule writer_then [OF writer_once [OF lasting_unasked [OF good locks(1)]] writer_finished])
  fix d
  assume "erasure_inv cfg content d" "unasked cfg (col_product cols) i d"
  then show "grants cfg content (- locks) d (wrapping msg (exec (\<lambda>part. suppressions_update (insert_rows
      [pending_row cfg cols action sha requested t rid legacy] part)))) (\<lambda>_ _. True)"
    by (intro grants_pending [OF good _ _ cols]) (use rid locks in \<open>auto simp: unasked_def\<close>)
qed simp

lemma create_tolerates:
  assumes "good_driver cfg"
  shows "job_tolerates cfg content {V2Mutex} (erasure_inv cfg content) (create_privacy_thread cfg p sha) (returning (\<lambda>_ _. True))"
  unfolding create_privacy_thread_def Let_def
proof (rule ask_tolerates [OF assms])
  fix t rid assume rid: "must_parse cfg (request_id (the_request p)) = Inr rid"
  let ?sc = "privacy_scope (the_request p)"
  let ?cols = "\<lparr>col_product = product_id ?sc, col_product_key = Some (privacy_product_key p),
      col_subject_key = Some (subject_key ?sc), col_person_key = person_key ?sc, col_org_key = org_key ?sc\<rparr>"
  have product: "col_product ?cols = product_id ?sc" by simp
  show "job_tolerates cfg content {V2Mutex} (\<lambda>d. erasure_inv cfg content d \<and> unasked cfg (product_id ?sc) (request_id (the_request p)) d)
      (then_do (once (wrapping ''insert privacy request'' (exec (\<lambda>part. suppressions_update (insert_rows
        [pending_row cfg ?cols (privacy_action (the_request p)) sha (requested_at_time p) t rid None] part)))))
       (\<lambda>_. returned_thread \<lparr>privacy_replayed = False, privacy_status = ''pending''\<rparr>)) (returning (\<lambda>_ _. True))"
    by (rule pending_tolerates [OF assms rid, where cols = ?cols, unfolded product]) simp_all
qed simp

lemma create_legacy_tolerates:
  assumes "good_driver cfg"
  shows "job_tolerates cfg content {V1Mutex, V2Mutex} (erasure_inv cfg content) (create_legacy_privacy_thread cfg p sha)
    (returning (\<lambda>_ _. True))"
  unfolding create_legacy_privacy_thread_def Let_def
proof (rule ask_tolerates [OF assms])
  fix t rid assume rid: "must_parse cfg (pv_request_id (vp_request p)) = Inr rid"
  have product: "col_product (legacy_columns i) = LinkaPlays" "col_product_key (legacy_columns i) \<noteq> None"
    "col_subject_key (legacy_columns i) \<noteq> None" for i by (simp_all add: legacy_columns_def)
  show "job_tolerates cfg content {V1Mutex, V2Mutex}
      (\<lambda>d. erasure_inv cfg content d \<and> unasked cfg LinkaPlays (pv_request_id (vp_request p)) d)
      (then_do (Finished (must_parse cfg (pv_installation_id (vp_request p)))) (\<lambda>inst.
       then_do (once (wrapping ''insert V1 privacy request'' (exec (\<lambda>part. suppressions_update (insert_rows
         [pending_row cfg (legacy_columns (pv_installation_id (vp_request p))) ''delete'' sha (vp_requested_at p) t rid (Some inst)]
         part))))) (\<lambda>_. returned_thread \<lparr>privacy_replayed = False, privacy_status = ''pending''\<rparr>))) (returning (\<lambda>_ _. True))"
    by (rule writer_lift, rule pending_tolerates [OF assms rid, where cols = "legacy_columns (pv_installation_id (vp_request p))",
          unfolded product(1)]) (simp_all add: product)
qed simp

end
