(* ===== verification/Concurrent_Sweeps.thy ===== *)
theory Concurrent_Sweeps
  imports Concurrent_Jobs
begin

section \<open>The worker among the other processes\<close>

text \<open>
  RunOnce holds no mutex of the writer. What it knows lasts whatever the others do: its requests stay
  known, finished tables stay finished and what it has erased for a known request stays erased
  until the progress row that says so is written.
\<close>

definition sweep_tolerates :: "'u store_config \<Rightarrow> (string \<Rightarrow> validated_batch) \<Rightarrow> ('u tables \<Rightarrow> bool)
    \<Rightarrow> ('u tables conn, 'a) thread \<Rightarrow> ('a \<Rightarrow> 'u tables \<Rightarrow> bool) \<Rightarrow> bool" where
  "sweep_tolerates cfg content X t Y \<longleftrightarrow> job_tolerates cfg content {} (\<lambda>d. erasure_inv cfg content d \<and> X d) t
     (\<lambda>r d. erasure_inv cfg content d \<and> X d \<and> returning Y r d)"

definition always_lasting :: "'u store_config \<Rightarrow> (string \<Rightarrow> validated_batch) \<Rightarrow> ('u tables \<Rightarrow> bool) \<Rightarrow> bool" where
  "always_lasting cfg content X \<longleftrightarrow> (\<forall>locks. lasting cfg content locks X)"

lemma always_lastingI: "(\<And>locks. lasting cfg content locks X) \<Longrightarrow> always_lasting cfg content X"
  by (simp add: always_lasting_def)

lemma sweep_once:
  assumes X: "always_lasting cfg content X"
    and m: "\<And>d. erasure_inv cfg content d \<Longrightarrow> X d \<Longrightarrow> grants cfg content (- {}) d m Y"
  shows "sweep_tolerates cfg content X (once m) Y"
  unfolding sweep_tolerates_def
proof (rule tolerates_once)
  from X have l: "lasting cfg content locks X" for locks by (simp add: always_lasting_def)
  show "stable (undisturbed_by cfg content {}) (\<lambda>d. erasure_inv cfg content d \<and> X d)" by (rule lasting_stable [OF l])
  fix d assume d: "erasure_inv cfg content d \<and> X d"
  have "erasure_inv cfg content d' \<and> X d'" if "undisturbed_by cfg content locks d d'" for d' locks
    using d that l undisturbed_inv [OF that] unfolding lasting_def by blast
  with d show "valid (\<lambda>s. db s = d) m
      (\<lambda>x s. undisturbed_by cfg content (- {}) d (db s) \<and> erasure_inv cfg content (db s) \<and> X (db s) \<and> returning Y (Inr x) (db s))
      (\<lambda>e s. undisturbed_by cfg content (- {}) d (db s) \<and> erasure_inv cfg content (db s) \<and> X (db s) \<and> returning Y (Inl e) (db s))"
    by (intro valid_post [OF m]) auto
qed

lemma sweep_then:
  assumes "sweep_tolerates cfg content X t M" and "\<And>x. sweep_tolerates cfg content (\<lambda>d. X d \<and> M x d) (k x) Y"
  shows "sweep_tolerates cfg content X (then_do t k) Y"
  unfolding sweep_tolerates_def
  by (rule tolerates_then [OF assms(1) [unfolded sweep_tolerates_def]],
      rule tolerates_pre [OF tolerates_post [OF assms(2) [unfolded sweep_tolerates_def]]]) auto

lemma sweep_finished:
  "(\<And>x d. r = Inr x \<Longrightarrow> erasure_inv cfg content d \<Longrightarrow> X d \<Longrightarrow> Y x d) \<Longrightarrow> sweep_tolerates cfg content X (Finished r) Y"
  unfolding sweep_tolerates_def by (rule tolerates_finished) (auto split: sum.split)

lemma sweep_case:
  "(c \<Longrightarrow> sweep_tolerates cfg content X t Y) \<Longrightarrow> (\<not> c \<Longrightarrow> sweep_tolerates cfg content X t' Y) \<Longrightarrow>
     sweep_tolerates cfg content X (if c then t else t') Y"
  by simp

lemma sweep_lift:
  assumes "\<And>x. r = Inr x \<Longrightarrow> sweep_tolerates cfg content X (k x) Y"
  shows "sweep_tolerates cfg content X (then_do (Finished r) k) Y"
  using assms by (cases r) (auto simp: then_do.simps intro: sweep_finished)

lemma sweep_wrapping:
  assumes "sweep_tolerates cfg content X t Y"
  shows "sweep_tolerates cfg content X (wrapping_thread msg t) Y"
    and "sweep_tolerates cfg content X (attempting_thread t) (\<lambda>r d. \<forall>x. r = Inr x \<longrightarrow> Y x d)"
    and "sweep_tolerates cfg content X (ignoring_thread t) (\<lambda>_ _. True)"
  unfolding wrapping_thread_def attempting_thread_def ignoring_thread_def sweep_tolerates_def
  by (rule tolerates_on_result, rule tolerates_post [OF assms [unfolded sweep_tolerates_def]],
      fastforce simp: wrap_def split: sum.splits if_splits)+

lemma sweep_weaken:
  assumes "sweep_tolerates cfg content X t Y" and "\<And>d. X d = X' d" and "\<And>x d. Y x d \<Longrightarrow> X d \<Longrightarrow> Y' x d"
  shows "sweep_tolerates cfg content X' t Y'"
  using assms(1) unfolding sweep_tolerates_def
  by (rule tolerates_pre [OF tolerates_post]) (auto simp: assms split: sum.splits)

lemma sweep_time:
  "always_lasting cfg content X \<Longrightarrow> sweep_tolerates cfg content X (once time_now) (\<lambda>_ _. True)"
  by (rule sweep_once, assumption, rule valid_post [OF grants_keeps [OF keeps_time_now]]) auto

lemma sweep_status:
  assumes "good_driver cfg" and "always_lasting cfg content X" and "\<And>d. X d \<Longrightarrow> known_work cfg q d" and "status \<noteq> ''pending''"
    and "\<And>d. X d \<Longrightarrow> status = ''completed'' \<Longrightarrow> pq_action q = PrivacyDelete \<Longrightarrow> progress_done cfg q d"
  shows "sweep_tolerates cfg content X (once (insert_privacy_status cfg q status failure att available lease)) (\<lambda>_ _. True)"
  by (rule sweep_once [OF assms(2)], rule grants_status [OF assms(1)]) (use assms(3-5) in auto)

lemma claim_tolerates:
  assumes "good_driver cfg" and X: "always_lasting cfg content X" and "\<And>d. X d \<Longrightarrow> known_work cfg q d"
  shows "sweep_tolerates cfg content X (claim_thread cfg q) (\<lambda>_ _. True)"
proof -
  have query: "sweep_tolerates cfg content X (once (query f)) (\<lambda>_ _. True)" for f :: "'a tables \<Rightarrow> 'c"
    by (rule sweep_once [OF X], rule valid_pre [OF valid_query]) (simp add: undisturbed_refl)
  have status: "sweep_tolerates cfg content X (once (insert_privacy_status cfg (q\<lparr>pq_attempts := a\<rparr>) ''processing'' f att t l))
      (\<lambda>_ _. True)" for a f att t l
    by (rule sweep_status [OF assms(1) X]) (use assms(3) in auto)
  show ?thesis
    unfolding claim_thread_def
    by (rule sweep_lift, rule sweep_then, rule sweep_wrapping(1), rule sweep_then [OF query], unfold simp_thms,
        rule sweep_finished, rule TrueI, unfold simp_thms, rule sweep_then [OF sweep_time [OF X]], unfold simp_thms,
        rule sweep_case, rule sweep_finished, rule TrueI, rule sweep_then [OF status], rule sweep_finished, rule TrueI)
qed

lemma always_lasting_simple:
  "always_lasting cfg content (\<lambda>_. c)"
  "always_lasting cfg content X \<Longrightarrow> always_lasting cfg content Y \<Longrightarrow> always_lasting cfg content (\<lambda>d. X d \<and> Y d)"
  "always_lasting cfg content (\<lambda>d. \<forall>q \<in> Q. known_work cfg q d)"
  "always_lasting cfg content (\<lambda>d. done_tables cfg q D d)"
  "always_lasting cfg content (\<lambda>d. known_work cfg q d \<and> erased_from cfg q tab d)"
  by (auto simp: always_lasting_def intro: lasting_simple)

lemma always_lasting_if:
  "always_lasting cfg content X \<Longrightarrow> always_lasting cfg content (\<lambda>d. c \<longrightarrow> X d)"
  by (cases c) (simp_all add: always_lasting_simple(1))

lemma grants_progress_read:
  "grants cfg content locks d (deletion_progress_of cfg q tab) (\<lambda>x d'. fst x = ''completed'' \<longrightarrow> done_tables cfg q {tab} d')"
  unfolding deletion_progress_of_def
proof (intro valid_seq_lift valid_wrapping valid_pre [OF valid_query], goal_cases)
  case (1 rid s)
  have "table_done cfg q (db s) tab"
    if "newest progress_key gr_updated_at (deletion_progress (db s)) (product_id (pq_scope q), rid, tab) = Some g"
      "gr_status g = ''completed''" for g
    using newest_Some [OF that(1)] that(2) 1(1)
    by (auto simp: table_done_def work_key_def must_parse_Inr progress_key_def)
  with 1(2) show ?case by (auto simp: undisturbed_refl done_tables_def split: option.splits)
qed (simp add: undisturbed_refl)

lemma delete_table_tolerates:
  assumes good: "good_driver cfg" and X: "always_lasting cfg content X" and q: "\<And>d. X d \<Longrightarrow> known_work cfg q d" and r: "ready q tab D"
  shows "sweep_tolerates cfg content (\<lambda>d. X d \<and> done_tables cfg q D d) (delete_table_thread cfg q tab)
    (\<lambda>_ d. done_tables cfg q (insert tab D) d)"
proof -
  let ?I = "\<lambda>d. X d \<and> done_tables cfg q D d"
  have I: "always_lasting cfg content ?I" by (intro always_lasting_simple X)
  have er: "always_lasting cfg content (\<lambda>d. ?I d \<and> (c \<longrightarrow> known_work cfg q d \<and> erased_from cfg q tab d))" for c
    by (intro always_lasting_simple always_lasting_if X)
  have read: "sweep_tolerates cfg content ?I (once (deletion_progress_of cfg q tab)) (\<lambda>x d. fst x = ''completed'' \<longrightarrow> done_tables cfg q {tab} d)"
    by (rule sweep_once [OF I], rule grants_progress_read)
  have mark: "sweep_tolerates cfg content ?I (once (insert_deletion_progress cfg q tab st att t l e c)) (\<lambda>_ _. True)"
    if "st \<noteq> ''completed''" for st att t l e c
    by (rule sweep_once [OF I], rule grants_progress(1) [OF _ _ _ that]) (use q in auto)
  have delete: "sweep_tolerates cfg content ?I (attempting_thread (once (delete_rows_of cfg q tab)))
      (\<lambda>r d. \<forall>u. r = Inr u \<longrightarrow> known_work cfg q d \<and> erased_from cfg q tab d)"
    by (rule sweep_weaken [OF sweep_wrapping(2) [OF sweep_once [OF I], OF valid_post [OF grants_delete [OF good _ q r]]]]) (use q in auto)
  have failed: "sweep_tolerates cfg content ?I (then_do (ignoring_thread (once
      (insert_deletion_progress cfg q tab ''retry'' att t l e c))) (\<lambda>_. failed_thread err)) Y" for att t l e c err Y
    by (rule sweep_then [OF sweep_wrapping(3) [OF mark]], simp, rule sweep_finished, simp)
  have finish: "sweep_tolerates cfg content (\<lambda>d. ?I d \<and> (known_work cfg q d \<and> erased_from cfg q tab d))
      (once (insert_deletion_progress cfg q tab ''completed'' att t l e c)) (\<lambda>_ d. done_tables cfg q (insert tab D) d)" for att t l e c
    by (rule sweep_once, intro always_lasting_simple X, rule grants_progress(2)) (use q in auto)
  have after: "sweep_tolerates cfg content (\<lambda>d. ?I d \<and> (\<forall>u. r = Inr u \<longrightarrow> known_work cfg q d \<and> erased_from cfg q tab d))
      (case r of Inl e \<Rightarrow> then_do (ignoring_thread (once (insert_deletion_progress cfg q tab ''retry'' att t l m c))) (\<lambda>_. failed_thread (err e))
       | Inr _ \<Rightarrow> once (insert_deletion_progress cfg q tab ''completed'' att' t' l' m' c'))
      (\<lambda>_ d. done_tables cfg q (insert tab D) d)" for r :: "unit result" and att t l m c err att' t' l' m' c'
    by (cases r) (auto intro: sweep_weaken [OF failed] sweep_weaken [OF finish])
  have body: "sweep_tolerates cfg content (\<lambda>d. ?I d \<and> (fst x = ''completed'' \<longrightarrow> done_tables cfg q {tab} d))
      (case x of (status, attempts) \<Rightarrow> if status = ''completed'' then returned_thread () else f status attempts)
      (\<lambda>_ d. done_tables cfg q (insert tab D) d)"
    if "\<And>st att. sweep_tolerates cfg content ?I (f st att) (\<lambda>_ d. done_tables cfg q (insert tab D) d)" for x f
    by (cases x) (auto intro!: sweep_case sweep_finished sweep_weaken [OF that] simp: done_tables_def)
  show ?thesis
    unfolding delete_table_thread_def
    by (rule sweep_then [OF sweep_time [OF I]], unfold simp_thms, rule sweep_then [OF read], rule body,
        rule sweep_then [OF mark], simp, unfold simp_thms, rule sweep_then [OF delete], rule after)
qed

lemma delete_request_tolerates:
  assumes good: "good_driver cfg" and X: "always_lasting cfg content X" and q: "\<And>d. X d \<Longrightarrow> known_work cfg q d"
  shows "sweep_tolerates cfg content X (delete_request_thread cfg q) (\<lambda>_ d. progress_done cfg q d)"
proof -
  have "job_tolerates cfg content {} (\<lambda>d. erasure_inv cfg content d \<and> X d \<and> done_tables cfg q {} d)
      (each_thread (delete_table_thread cfg q) (deletion_tables q))
      (\<lambda>r d. case r of Inr _ \<Rightarrow> erasure_inv cfg content d \<and> X d \<and> done_tables cfg q (set (deletion_tables q)) d
        | Inl e \<Rightarrow> erasure_inv cfg content d \<and> X d)"
  proof (rule tolerates_each, goal_cases)
    case (1 pre tab post)
    from delete_table_tolerates [OF good X q deletion_order [OF 1]] show ?case
      unfolding sweep_tolerates_def by (rule tolerates_post) (auto split: sum.splits)
  qed
  then show ?thesis
    unfolding sweep_tolerates_def delete_request_thread_def progress_done_tables
    by (rule tolerates_pre [OF tolerates_post]) (auto split: sum.splits)
qed

lemma perform_tolerates:
  assumes "good_driver cfg" and "always_lasting cfg content X" and "\<And>d. X d \<Longrightarrow> known_work cfg q d"
  shows "sweep_tolerates cfg content X (perform_thread cfg q) (\<lambda>_ d. pq_action q = PrivacyDelete \<longrightarrow> progress_done cfg q d)"
  unfolding perform_thread_def
  by (intro sweep_case sweep_finished sweep_weaken [OF delete_request_tolerates [OF assms]])
    (auto simp: PrivacyOptOut_def PrivacyDelete_def)

lemma handle_tolerates:
  assumes good: "good_driver cfg" and X: "always_lasting cfg content X" and q: "\<And>d. X d \<Longrightarrow> known_work cfg q d"
  shows "sweep_tolerates cfg content X (handle_thread cfg n q) (\<lambda>_ _. True)"
proof -
  let ?q = "q\<lparr>pq_attempts := pq_attempts q + 1\<rparr>"
  have q': "X d \<Longrightarrow> known_work cfg ?q d" for d using q by simp
  let ?done = "\<lambda>(r :: unit result) d. \<forall>u. r = Inr u \<longrightarrow> pq_action ?q = PrivacyDelete \<longrightarrow> progress_done cfg ?q d"
  have claim: "sweep_tolerates cfg content X (attempting_thread (claim_thread cfg q)) (\<lambda>_ _. True)"
    by (rule sweep_weaken [OF sweep_wrapping(2) [OF claim_tolerates [OF good X q]]]) auto
  have perform: "sweep_tolerates cfg content X (attempting_thread (perform_thread cfg ?q)) ?done"
    by (rule sweep_weaken [OF sweep_wrapping(2) [OF perform_tolerates [OF good X q']]]) auto
  have finished: "always_lasting cfg content (\<lambda>d. X d \<and> ?done r d)" for r :: "unit result"
    unfolding progress_done_tables
    by (cases r; simp) (auto intro!: X always_lasting_simple(2) [OF X always_lasting_if [OF always_lasting_simple(4)]])
  have retry: "sweep_tolerates cfg content X (attempting_thread (once (retry_privacy_request cfg ?q c n))) (\<lambda>_ _. True)" for c
  proof -
    have "sweep_tolerates cfg content X (once (retry_privacy_request cfg ?q c n)) (\<lambda>_ _. True)"
      unfolding retry_privacy_request_def Let_def
    proof (rule sweep_once [OF X], rule valid_seq [OF _ grants_keeps [OF keeps_time_now]])
      fix d t assume "erasure_inv cfg content d" "X d"
      then show "valid (\<lambda>s. undisturbed_by cfg content (- {}) d (db s) \<and> db s = d) (insert_privacy_status cfg ?q
          (if uint (pq_attempts ?q) \<ge> n then ''failed'' else ''retry'') (Some c) (pq_attempts ?q) (t + privacy_retry_delay (pq_attempts ?q)) None)
          (\<lambda>x s. undisturbed_by cfg content (- {}) d (db s) \<and> True) (\<lambda>_ s. undisturbed_by cfg content (- {}) d (db s))"
        by (intro valid_pre [OF grants_status [OF good]]) (use q in \<open>auto split: if_splits\<close>)
    qed
    from sweep_wrapping(2) [OF this] show ?thesis by (rule sweep_weaken) auto
  qed
  have complete: "sweep_tolerates cfg content (\<lambda>d. X d \<and> ?done (Inr u) d) (attempting_thread (once (complete_privacy_request cfg ?q))) (\<lambda>_ _. True)"
    for u :: unit
  proof -
    have "sweep_tolerates cfg content (\<lambda>d. X d \<and> ?done (Inr u) d) (once (complete_privacy_request cfg ?q)) (\<lambda>_ _. True)"
      unfolding complete_privacy_request_def
    proof (rule sweep_once [OF finished [of "Inr u"]], rule valid_seq [OF _ grants_keeps [OF keeps_time_now]])
      fix d t assume "erasure_inv cfg content d" "X d \<and> ?done (Inr u) d"
      then show "valid (\<lambda>s. undisturbed_by cfg content (- {}) d (db s) \<and> db s = d)
          (insert_privacy_status cfg ?q ''completed'' None (pq_attempts ?q) t None)
          (\<lambda>x s. undisturbed_by cfg content (- {}) d (db s) \<and> True) (\<lambda>_ s. undisturbed_by cfg content (- {}) d (db s))"
        by (intro valid_pre [OF grants_status [OF good]]) (use q in auto)
    qed
    from sweep_wrapping(2) [OF this] show ?thesis by (rule sweep_weaken) auto
  qed
  have mark: "sweep_tolerates cfg content Z (case r of Inl e \<Rightarrow> returned_thread (f e) | Inr (_ :: unit) \<Rightarrow> returned_thread g) (\<lambda>_ _. True)" for Z r f g
    by (cases r) (auto intro: sweep_finished)
  have outcome: "sweep_tolerates cfg content (\<lambda>d. X d \<and> ?done r d) (case r of
        Inl e \<Rightarrow> then_do (attempting_thread (once (retry_privacy_request cfg ?q ''processing_failed'' n))) (\<lambda>mark.
          case mark of Inl e' \<Rightarrow> returned_thread (f e e') | Inr _ \<Rightarrow> returned_thread (g e))
      | Inr _ \<Rightarrow> then_do (attempting_thread (once (complete_privacy_request cfg ?q))) (\<lambda>mark.
          case mark of Inl e \<Rightarrow> returned_thread (h e) | Inr _ \<Rightarrow> returned_thread [])) (\<lambda>_ _. True)"
    for r :: "unit result" and f g h
  proof (cases r)
    case (Inl e)
    show ?thesis unfolding Inl sum.case
      by (rule sweep_weaken [OF sweep_then [OF retry mark]]) auto
  next
    case (Inr u)
    show ?thesis unfolding Inr sum.case by (rule sweep_then [OF complete mark])
  qed
  show ?thesis
    unfolding handle_thread_def Let_def
  proof (rule sweep_then [OF claim])
    fix c
    show "sweep_tolerates cfg content (\<lambda>d. X d \<and> True) (case c of
       Inl e \<Rightarrow> returned_thread [Wrapped (''claim privacy request '' @ pq_request_id q) e]
     | Inr claimed \<Rightarrow> if \<not> claimed then returned_thread []
         else then_do (attempting_thread (perform_thread cfg ?q)) (\<lambda>outcome. case outcome of
             Inl e \<Rightarrow> then_do (attempting_thread (once (retry_privacy_request cfg ?q ''processing_failed'' n))) (\<lambda>mark. case mark of
                 Inl mark_err \<Rightarrow> returned_thread [Wrapped ((''privacy request '' @ pq_request_id ?q) @ '' failed: '' @ error_text e @ ''; persist failure'') mark_err]
               | Inr _ \<Rightarrow> returned_thread [Wrapped ((''privacy request '' @ pq_request_id ?q) @ '' failed'') e])
           | Inr _ \<Rightarrow> then_do (attempting_thread (once (complete_privacy_request cfg ?q))) (\<lambda>mark. case mark of
                 Inl e \<Rightarrow> returned_thread [Wrapped (''complete '' @ (''privacy request '' @ pq_request_id ?q)) e]
               | Inr _ \<Rightarrow> returned_thread []))) (\<lambda>_ _. True)"
    proof (cases c)
      case (Inl e)
      then show ?thesis by (simp add: sweep_finished)
    next
      case (Inr claimed)
      show ?thesis
        unfolding Inr sum.case simp_thms
        by (rule sweep_case, rule sweep_finished, rule TrueI, rule sweep_then [OF perform], rule outcome)
    qed
  qed
qed

lemma handle_all_tolerates:
  assumes "good_driver cfg" and "always_lasting cfg content X" and "\<And>q d. q \<in> set qs \<Longrightarrow> X d \<Longrightarrow> known_work cfg q d"
  shows "sweep_tolerates cfg content X (handle_all_thread cfg n qs) (\<lambda>_ _. True)"
  using assms(3)
proof (induction qs)
  case Nil
  show ?case by (simp add: sweep_finished)
next
  case (Cons q qs)
  have "sweep_tolerates cfg content X (handle_thread cfg n q) (\<lambda>_ _. True)"
    by (rule handle_tolerates [OF assms(1,2)]) (use Cons.prems in simp)
  note first = this
  have rest: "sweep_tolerates cfg content X (handle_all_thread cfg n qs) (\<lambda>_ _. True)"
    by (rule Cons.IH) (use Cons.prems in simp)
  show ?case
    unfolding handle_all_thread.simps
    by (rule sweep_then [OF first], unfold simp_thms, rule sweep_then [OF rest], rule sweep_finished, rule TrueI)
qed

lemma run_once_tolerates:
  assumes good: "good_driver cfg"
  shows "sweep_tolerates cfg content (\<lambda>_. True) (run_once_thread cfg w) (\<lambda>_ _. True)"
  unfolding run_once_thread_def
proof (rule sweep_then [where M = "\<lambda>qs d. \<forall>q \<in> set qs. known_work cfg q d"])
  show "sweep_tolerates cfg content (\<lambda>_. True) (once (wrapping ''list privacy requests'' (pending_privacy_requests cfg (nat (worker_limit w)))))
      (\<lambda>qs d. \<forall>q \<in> set qs. known_work cfg q d)"
  proof (rule sweep_once [OF always_lasting_simple(1)])
    fix d assume "erasure_inv cfg content d"
    then have safe: "safe cfg content {} d" by (simp add: safe_def)
    have same: "keeps (\<lambda>s. db s = d) (pending_privacy_requests cfg m)" for m
      unfolding pending_privacy_requests_def by (intro triples)
    show "grants cfg content (- {}) d (wrapping ''list privacy requests'' (pending_privacy_requests cfg (nat (worker_limit w))))
        (\<lambda>qs d. \<forall>q \<in> set qs. known_work cfg q d)"
    proof (rule valid_wrapping, rule validI)
      fix s :: "'a tables conn" assume s: "db s = d"
      let ?m = "pending_privacy_requests cfg (nat (worker_limit w))"
      from keepsD [OF same, of s] s have "db (snd (?m s)) = d" by simp
      moreover have "\<forall>q \<in> set qs. known_work cfg q (db s')" if "?m s = (Inr qs, s')" for qs s'
        using validD [OF valid_pending _ that, of content "{}"] safe s by blast
      ultimately show "case ?m s of (Inr qs, s') \<Rightarrow> undisturbed_by cfg content (- {}) d (db s') \<and> (\<forall>q \<in> set qs. known_work cfg q (db s'))
          | (Inl e, s') \<Rightarrow> undisturbed_by cfg content (- {}) d (db s')"
        by (cases "?m s") (auto simp: undisturbed_refl split: sum.splits)
    qed
  qed
  fix qs
  show "sweep_tolerates cfg content (\<lambda>d. True \<and> (\<forall>q \<in> set qs. known_work cfg q d))
      (then_do (handle_all_thread cfg (worker_max_attempts w) qs) (\<lambda>failures.
         if failures = [] then returned_thread () else failed_thread (Err (join_lines (map error_text failures))))) (\<lambda>_ _. True)"
    unfolding simp_thms
    by (rule sweep_then [OF handle_all_tolerates [OF good always_lasting_simple(3)]], simp, rule sweep_case; rule sweep_finished; simp)
qed

end
