(* ===== verification/Store_Concurrency.thy ===== *)
theory Store_Concurrency
  imports Concurrent_Sweeps
begin

section \<open>The invariant holds at every moment\<close>

text \<open>
  Jobs of different processes, or of one process with no mutex in common, \<open>coexist\<close>: what each call of one
  grants is what the other relies on. So the invariant of the store holds between any two calls of
  one writer and any number of workers.
\<close>

lemma job_survives:
  assumes good: "good_driver cfg" and inv: "erasure_inv cfg content d"
  shows "survives (undisturbed_by cfg content (mutexes j)) (undisturbed_by cfg content (- mutexes j)) (\<lambda>_ _. True)
    (job_thread cfg content j) d"
proof -
  have writer: "survives R G (\<lambda>_ _. True) (ignoring_thread t) d" if "tolerates R G (erasure_inv cfg content) t Q"
    for R G Q and t :: "('a tables conn, 'b) thread"
    using tolerates_on_result [OF tolerates_post [OF that], of "\<lambda>_ _. True" "\<lambda>_. Inr ()"] inv
    by (simp add: tolerates_def ignoring_thread_def)
  show ?thesis
  proof (cases j)
    case (StoreV2 sha)
    then show ?thesis using writer [OF insert_v2_tolerates [OF good refl]] by simp
  next
    case (StoreV1 b)
    then show ?thesis using writer [OF insert_v1_tolerates [OF good]] by simp
  next
    case (StoreFundraising b sha)
    then show ?thesis using writer [OF insert_fundraising_tolerates] by simp
  next
    case (AskPrivacy p sha)
    then show ?thesis using writer [OF create_tolerates [OF good]] by simp
  next
    case (AskLegacyPrivacy p sha)
    then show ?thesis using writer [OF create_legacy_tolerates [OF good]] by simp
  next
    case (Sweep w)
    then show ?thesis using writer [of "undisturbed_by cfg content {}" "undisturbed_by cfg content (- {})" "run_once_thread cfg w"]
        run_once_tolerates [OF good, of content w] by (simp add: sweep_tolerates_def del: Compl_empty_eq)
  qed
qed

definition coexist :: "process \<times> job \<Rightarrow> process \<times> job \<Rightarrow> bool" where
  "coexist x y \<longleftrightarrow> mutexes (snd x) \<inter> mutexes (snd y) = {}"

lemma coexist_sym: "coexist x y = coexist y x"
  by (auto simp: coexist_def)

lemma one_writer_coexist:
  assumes "one_writer p j" and "one_writer p' j'" and "\<not> excludes (p, j) (p', j')"
  shows "coexist (p, j) (p', j')"
proof -
  have sweep: "mutexes j = {} \<or> p = Writer" if "one_writer p j" for p j
    using that by (cases p; cases j) auto
  from sweep [OF assms(1)] sweep [OF assms(2)] assms(3) show ?thesis by (auto simp: coexist_def excludes_def)
qed

theorem concurrent_safe:
  assumes good: "good_driver cfg" and "concurrent cfg content one_writer pool d"
  shows "erasure_inv cfg content d
    \<and> (\<forall>(x, t) \<in> set pool. survives (undisturbed_by cfg content (mutexes (snd x)))
         (undisturbed_by cfg content (- mutexes (snd x))) (\<lambda>_ _. True) t d)
    \<and> sorted_wrt coexist (map fst pool) \<and> (\<forall>((p, j), t) \<in> set pool. one_writer p j)"
  using assms(2)
proof induction
  case begin_empty
  show ?case by (simp add: erasure_inv_no_rows)
next
  case (enter pool d p j)
  have "coexist (p', j') (p, j)" if "((p', j'), t) \<in> set pool" for p' j' t
    using one_writer_coexist [of p' j' p j] enter that by fastforce
  then have "sorted_wrt coexist (map fst (pool @ [((p, j), job_thread cfg content j)]))"
    using enter by (auto simp: sorted_wrt_append)
  then show ?case using enter job_survives [OF good, of content d j] by auto
next
  case (next_call pre x f post s t s')
  let ?R = "\<lambda>x. undisturbed_by cfg content (mutexes (snd x))" and ?G = "\<lambda>x. undisturbed_by cfg content (- mutexes (snd x))"
  from next_call have s: "survives (?R x) (?G x) (\<lambda>_ _. True) (Atomic f) (db s)" and inv: "erasure_inv cfg content (db s)"
    and order: "sorted_wrt coexist (map fst pre @ x # map fst post)" by auto
  from survives_call [OF s undisturbed_refl next_call.hyps(2)] have G: "?G x (db s) (db s')"
    and t: "survives (?R x) (?G x) (\<lambda>_ _. True) t (db s')" .
  have "survives (?R y) (?G y) (\<lambda>_ _. True) u (db s')" if y: "(y, u) \<in> set pre \<union> set post" for y u
  proof -
    have "coexist y x"
      using order y coexist_sym by (fastforce simp: sorted_wrt_append)
    then have R: "?R y (db s) (db s')" using undisturbed_subset [OF G] by (simp add: coexist_def disjoint_eq_subset_Compl)
    have u: "survives (?R y) (?G y) (\<lambda>_ _. True) u (db s)" using next_call.IH y by auto
    show ?thesis by (rule survives_rely [where R = "?R y", OF _ u R]) (erule (1) undisturbed_trans)
  qed
  with t order undisturbed_inv [OF G inv] next_call.IH show ?case by auto
next
  case (leave pre x post d)
  then show ?case by (auto simp: sorted_wrt_append)
qed

end
