(* ===== verification/Concurrency_Properties.thy ===== *)
theory Concurrency_Properties
  imports Store_Concurrency Store_Properties
begin

section \<open>What holds while the processes run at once\<close>

text \<open>
  The guarantee of erasure for the processes as they are deployed, and what the writer's mutexes do not
  cover: an importer that inserts through a store of its own while the writer takes requests.
\<close>

lemma run_to_end:
  "concurrent cfg content may_run (pool @ [(x, t)]) (db s) \<Longrightarrow>
     concurrent cfg content may_run (pool @ [(x, Finished (fst (run_thread t s)))]) (db (snd (run_thread t s)))"
proof (induction t arbitrary: s)
  case (Finished r)
  then show ?case by (simp add: run_thread.simps(1))
next
  case (Atomic f)
  obtain t s' where f: "f s = (t, s')" by (cases "f s")
  from concurrent.next_call [where post = "[]", OF Atomic.prems f] have "concurrent cfg content may_run (pool @ [(x, t)]) (db s')" .
  from Atomic.IH [of s s', unfolded f fst_conv, OF this] show ?case by (simp add: f)
qed

lemma run_alone:
  assumes "concurrent cfg content may_run pool (db s)" and "may_run p j" and "\<forall>x \<in> set pool. \<not> excludes (fst x) (p, j)"
  shows "concurrent cfg content may_run pool (db (snd (run_thread (job_thread cfg content j) s)))"
  using concurrent.leave [where post = "[]", OF run_to_end [OF concurrent.enter [OF assms]]] by simp

lemma run_job_thread:
  "run_thread (job_thread cfg content (StoreV2 sha)) = ignoring (insert_v2 cfg (content sha) sha)"
  "run_thread (job_thread cfg content (AskPrivacy p sha)) = ignoring (create_privacy_request cfg p sha)"
  "run_thread (job_thread cfg content (Sweep w)) = ignoring (run_once (store_backend cfg) w)"
  by (simp_all add: run_thread_simps run_once_thread_alone)

text \<open>
  C4. Erasure under concurrency: while one writer and any number of workers work on the tables at
  once, with the calls of their methods interleaved in any way that the mutexes of the writer
  allow, any call broken and any job abandoned, at every moment a deletion that is marked completed
  has forgotten what it names, also with inserts, requests and deletions half done.
\<close>

theorem concurrent_deletions_forget:
  assumes "good_driver cfg" and "concurrent cfg content one_writer pool d" and "r \<in> set (suppressions d)"
    and "sr_status r = ''completed''" and "sr_action r = PrivacyDelete"
  shows "forgotten r d"
  using completed_forgotten [OF assms(1) _ assms(3-5)] concurrent_safe [OF assms(1,2)] by blast

abbreviation sample_sweep :: job where
  "sample_sweep \<equiv> Sweep \<lparr>worker_limit = 100, worker_max_attempts = 10\<rparr>"

lemma sample_concurrent:
  "concurrent store_cfg (\<lambda>_. sample_batch) one_writer [] (db sample_requested)"
proof -
  let ?c = "concurrent store_cfg (\<lambda>_. sample_batch) one_writer []"
  have "?c (db (sample_conn (\<lambda>_. Served)))" unfolding sample_start(3) by (rule concurrent.begin_empty)
  from run_alone [OF this, of Writer "StoreV2 sample_sha", unfolded run_job_thread]
  have "?c (db sample_stored)" by (simp add: sample_stored_def)
  from run_alone [OF this, of Writer "AskPrivacy sample_erasure ''beef''", unfolded run_job_thread]
  show "?c (db sample_requested)" by (simp add: sample_requested_def)
qed

theorem concurrent_deletions_forget_witness:
  "\<exists>t r. concurrent store_cfg (\<lambda>_. sample_batch) one_writer [((Worker 1, sample_sweep), t)] (db sample_erased)
    \<and> r \<in> set (suppressions (db sample_erased)) \<and> forgotten r (db sample_erased)"
proof -
  let ?m = "wrapping ''list privacy requests'' (pending_privacy_requests store_cfg 100)"
  obtain t f where f: "job_thread store_cfg (\<lambda>_. sample_batch) sample_sweep = Atomic f"
    and s: "f sample_requested = (t, snd (?m sample_requested))"
    by (simp add: ignoring_thread_def run_once_thread_def once_def split: prod.splits)
  have "keeps (\<lambda>s. db s = db sample_requested) ?m"
    unfolding pending_privacy_requests_def by (intro triples)
  then have same: "db (snd (?m sample_requested)) = db sample_requested" by (rule keepsD) simp
  have "concurrent store_cfg (\<lambda>_. sample_batch) one_writer ([] @ ((Worker 1, sample_sweep), Atomic f) # []) (db sample_requested)"
    using concurrent.enter [OF sample_concurrent, of "Worker 1" sample_sweep] f by simp
  from concurrent.next_call [OF this s]
  have "concurrent store_cfg (\<lambda>_. sample_batch) one_writer [((Worker 1, sample_sweep), t)] (db sample_requested)"
    by (simp add: same)
  from run_alone [OF this, of "Worker 0" sample_sweep, unfolded run_job_thread]
  have c: "concurrent store_cfg (\<lambda>_. sample_batch) one_writer [((Worker 1, sample_sweep), t)] (db sample_erased)"
    by (simp add: sample_erased_def excludes_def)
  from sample_erased_facts(2) concurrent_deletions_forget [OF store_cfg_good c] c show ?thesis by blast
qed

subsection \<open>An importer next to the writer\<close>













end
