(* ===== verification/Spec2Isabelle.thy ===== *)
theory Spec2Isabelle
  imports Intake_Properties Auth_Properties Store_Properties Import_Properties Config_Properties Disk_Alert_Properties
    Concurrency_Properties
begin

text \<open>
  A model of linka.plays-metric: the telemetry intake of the LINKa products. A public collector
  accepts batches of events, checks them against a contract and forwards them, signed, to a
  private writer, which checks them again and stores them in ClickHouse; a worker carries out the
  deletion and opt-out requests that the store records.

  Shared vocabulary. Metric_Prelude: results with errors, early returns, loops that stop at an
  error. Go_Strings, Go_Codec, Go_Time, Go_Patterns, Go_Float, Go_Crypto, Go_Json and Go_Http
  model what the source uses of Go's language and standard library: strings as bytes, hex,
  base64 and decimal codecs, instants in nanoseconds with the saturation of time.Sub, the regular
  expressions as executable recognisers, float64 comparison, SHA-256 and HMAC, the scanner and
  decoder of encoding/json with its case-insensitive field matching, HTTP headers.

  Components, in the order of the data flow:
  Product_Registry is internal/product/registry.go: the table of products with streams, games,
  kinds and outcome rules. Jsonstrict is internal/jsonstrict/decode.go: the token loop that
  rejects repeated keys and deep nesting, and DecodeObject; the loop has fuel of one more than
  twice the number of lexemes, which is enough for every input (validation_terminates), since no
  more than two nested calls are open per lexeme. Contract_Common,
  Contract_V2, Contract_Fundraising and Contract_V1 are the packages under internal/contract:
  each struct a record with the table of its JSON fields, each validator a function with the
  checks in the order of the source. Auth_Service, Auth_Tokens and Auth_Identity are
  internal/auth and internal/app/keyring.go: service signatures, writer signatures, installation
  and product tokens, and the Identity JWT verifier over the caching source of public keys, which
  is the interface key_source with its interpretation on the HTTP source.

  The store, internal/clickhouse. Go_Effects has actions over a connection: data, a clock and a
  schedule that says which calls break; a broken write may have been applied to any number of its
  rows. ClickHouse_Tables has the tables of the migrations as lists of row versions, of which a
  query with FINAL sees the newest of each key. Store_V2 is InsertV2 (store_v2.go), Store_V2_Retries
  the refinement of all attempts at a batch by one insert; Store_V1_Fundraising is Insert (store.go)
  and InsertFundraising (store_fundraising.go), Store_Privacy the requests, leases and deletions
  (store_privacy.go). Privacy_Worker is RunOnce (internal/privacy/worker.go) over the interface
  privacy_repository. Erasure_Invariant, Store_Erasure and Erasure_Inserts show the invariant
  erasure_inv and that every operation keeps it at every break; Store_Histories builds the histories
  of store calls from it and interprets privacy_repository on the store; Store_Leases orders the
  versions of status rows before they are bound and shows which row is the newest after; Store_Liveness
  shows that undisturbed operations finish.

  The processes at once. Threads has operations that are interleaved call by call, and rely-guarantee
  triples for them; Store_Threads writes each method with more than one call, and RunOnce, as such a
  thread and shows that run alone it is the method. Store_Interference says what the holder of v1Mu
  or v2Mu can rely on, Store_Guarantees what each call grants the others; Concurrent_Jobs has the
  processes with their jobs and mutexes and the relation concurrent of all interleavings,
  Concurrent_Sweeps the worker among them, Store_Concurrency that erasure_inv holds at every moment
  of one writer and any number of workers, and Concurrency_Properties what follows, and what does
  not: an importer is another process, which the mutexes of the writer do not hold back.

  The services. Go_Json_Encode is the encoder of encoding/json with its inverse on ASCII values,
  Go_Time_Format the text of an instant, Httpx internal/httpx: bodies, replies and middleware, with
  a handler as an action of the request. Writer_Server is internal/writer/server.go over the
  interface telemetry_stores, which Writer_Store interprets on the ClickHouse store as cmd/writer
  composes them. Collector_Client is internal/collector/client.go, Collector_Server
  internal/collector/server.go. Collector_Writer follows a batch from the client through the writer
  to the store and back, Service_Runs has the runs of writer requests and worker sweeps,
  Collector_Forwarding says what must hold when the answer of the collector depends on the writer.

  The commands. Migrations is the runner of the schema migrations (migrations/runner.go: splitting a
  file into statements, Load, Run) over the interface migration_ledger, which the ClickHouse backend
  (migrations/clickhouse.go) interprets with a ledger table and a log of executed statements; the
  names and contents of the embedded files are an argument. Import_Legacy is cmd/import-legacy: the
  decoding of a line, the grouping into batches, the identifiers and the loop over the input.
  Import_Batches proves the loop equal to a fold of InsertV2 over reference batches, Import_Runs and
  Store_V2_Ledger that a second run replays every batch of the first. Go_Duration is
  time.ParseDuration; Service_Config is internal/app/runtime.go and the run functions of the commands
  up to the point where they serve, with the environment as a function; Config_Properties shows what
  the started collector and writer are and that they work together.

  Disk_Alert is cmd/disk-alert over Go_Float_Ops (float64 arithmetic, strconv.ParseFloat, the verb
  %.1f): the files, the mails and whether STARTTLS is offered are the data of a connection whose calls
  may break; Disk_Alert_Properties compares its runs with the crossings of the threshold.

  The theories Intake_Properties, Auth_Properties, Store_Properties, Concurrency_Properties,
  Import_Properties, Service_Properties and Config_Properties state what these parts guarantee, and Migrations ends with
  the guarantee of its runs; Samples holds accepted inputs on which the statements are evaluated.

  Parameters: the UUID library (google/uuid) is a record of its three functions; ed25519.Verify is
  a function of key, message and signature; the clock, the random source and the answers of the
  network are arguments, and so is the transport under the client of the writer; \<open>deliver\<close> is one
  that hands each request to the handler of its method and path, as chi does for these fixed paths,
  and that reports a panic of a handler as an error. The ClickHouse driver is exec_time, what a time
  bound to a placeholder of Exec becomes, and column_time, what a time appended to a prepared batch
  becomes. clickhouse-go v2.30.0 writes a bound time in whole seconds and an appended one in
  milliseconds (second_driver). The theorems about erasure, retries, suppression, replays and progress
  ask only that binding keeps the order of times and leaves a bound time alone (ordered_driver, part of
  good_driver), which second_driver gives and any other precision would; the samples use whole seconds.
  Two things follow from the whole seconds: a lease ends up to a second early (lease_excludes), and the
  millisecond phases of privacyStatusVersion are lost, so that the outcome written last is the newest
  row, also over a later attempt (last_outcome_wins). A retry of a batch reads the cut time of the
  reservation back and writes with it (retries_refine_one_insert). In a history each method of the
  store is one step; in the relation concurrent each call to the server is one, a mutation or insert
  included; content names the batch of a digest, so two batches with one digest are not considered there. now64 of the server is read from the clock of
  the connection. The importer gets the name-based UUIDs of google/uuid, its input bytes and the
  points at which its context is cancelled; the commands get url.Parse, the opening of ClickHouse and
  the key sets behind an allowed URL as functions.

  Bounds. Loops over lists recurse on the list; splitStatements, the decoding of runes and
  ParseDuration consume at least one character in each turn, which their termination proofs show;
  fuel is left in four loops. That of the JSON token loop is enough for every input, above; the
  descent over a JSON value has the number of lexemes, which is enough for every value
  (json_decode_iff); that over media type parameters has the length of the header, of which each
  parameter takes a character; fit_exponent of Go_Float has four, because the quotient it starts
  from is below 2^55 and each step halves it. Counters of the importer are 64-bit words and versions
  of migrations 32-bit words.

  Not modelled: logging, metrics and the printed summaries; Serve of internal/app/runtime.go and the
  signal handling of the commands, which are the lifecycle of net/http and of the process; Open, Ping
  and Close of the store, which only call the driver; what the statements of the migrations do on the
  server, and so the views.
\<close>

end
